(* ===== verification/TC_Prelude.thy ===== *)
theory TC_Prelude
  imports Main "HOL-Library.Word" "HOL-Library.Sublist"
begin

text \<open>
  Shared vocabulary of the development: results that may be errors, Go slices and byte
  strings as lists, and the two interfaces every component uses: a \<open>codec\<close> (an encoder
  whose output can be read back from the front of any input) and a \<open>machine\<close> (a state with
  operations, each of which keeps an invariant and moves the state forward in a preorder).
  Go strings and byte slices are \<open>string\<close>: a \<open>char\<close> is one byte.
\<close>

named_theorems go_simps "evaluation rules for the modelled parts of Go's standard library"
named_theorems codec_rules "round-trip laws of encoders"

section \<open>Types\<close>

type_synonym bytes = string
type_synonym ms = int
  \<comment> \<open>Unix milliseconds, Go's \<open>int64\<close>\<close>
type_synonym ns = int
  \<comment> \<open>a \<open>time.Time\<close> or \<open>time.Duration\<close> in nanoseconds\<close>

text \<open>
  A Go map that the code ranges over in key order is an association list; looking a key
  up that is absent yields the zero value in Go, which callers write out.
\<close>

type_synonym 'v gomap = "(string \<times> 'v) list"

abbreviation byte :: "char \<Rightarrow> nat" where
  "byte c \<equiv> of_char c"

section \<open>Results\<close>

text \<open>Go's \<open>(value, error)\<close> pairs: \<open>Inl\<close> the error, \<open>Inr\<close> the value.\<close>

type_synonym ('e, 'a) result = "'e + 'a"

fun ebind :: "('e, 'a) result \<Rightarrow> ('a \<Rightarrow> ('e, 'b) result) \<Rightarrow> ('e, 'b) result" where
  "ebind (Inl e) f = Inl e"
| "ebind (Inr x) f = f x"

definition check :: "bool \<Rightarrow> 'e \<Rightarrow> ('e, unit) result" where
  "check ok e = (if ok then Inr () else Inl e)"

lemma ebind_eq_Inr [simp]: "ebind r f = Inr y \<longleftrightarrow> (\<exists>x. r = Inr x \<and> f x = Inr y)"
  by (cases r) auto

lemma ebind_eq_Inl: "ebind r f = Inl e \<longleftrightarrow> r = Inl e \<or> (\<exists>x. r = Inr x \<and> f x = Inl e)"
  by (cases r) auto

lemma check_eq_Inr [simp]: "check ok e = Inr u \<longleftrightarrow> ok"
  by (simp add: check_def)

lemma check_eq_Inl [simp]: "check ok e = Inl e' \<longleftrightarrow> \<not> ok \<and> e' = e"
  by (auto simp: check_def)

text \<open>\<open>for\<close> loops that stop at the first error and collect what the body returns.\<close>

fun emap :: "('a \<Rightarrow> ('e, 'b) result) \<Rightarrow> 'a list \<Rightarrow> ('e, 'b list) result" where
  "emap f [] = Inr []"
| "emap f (x # xs) = ebind (f x) (\<lambda>y. ebind (emap f xs) (\<lambda>ys. Inr (y # ys)))"

lemma emap_Inr_iff: "emap f xs = Inr ys \<longleftrightarrow> list_all2 (\<lambda>x y. f x = Inr y) xs ys"
  by (induction xs arbitrary: ys) (auto simp: list_all2_Cons1)

lemma emap_Inr_set: "emap f xs = Inr ys \<Longrightarrow> y \<in> set ys \<Longrightarrow> \<exists>x\<in>set xs. f x = Inr y"
  by (fastforce simp: emap_Inr_iff list_all2_conv_all_nth in_set_conv_nth)

lemma emap_Inr_length: "emap f xs = Inr ys \<Longrightarrow> length ys = length xs"
  by (auto simp: emap_Inr_iff dest: list_all2_lengthD)

section \<open>Lists\<close>

lemma nth_drop_take: "i < k \<Longrightarrow> s + k \<le> length xs \<Longrightarrow> take k (drop s xs) ! i = xs ! (s + i)"
  by simp

lemma prefix_drop_nth:
  assumes "prefix n (drop s b)" and "i < length n"
  shows "n ! i = b ! (s + i)"
proof -
  obtain z where z: "drop s b = n @ z"
    using assms(1) by (auto simp: prefix_def)
  then have "length n \<le> length b - s"
    by (metis le_add1 length_append length_drop)
  then have "s \<le> length b"
    using assms(2) by simp
  then have "drop s b ! i = b ! (s + i)"
    by simp
  then show ?thesis
    using z assms(2) by (simp add: nth_append)
qed

lemma prefix_drop_length:
  "prefix n (drop s b) \<Longrightarrow> n \<noteq> [] \<Longrightarrow> s + length n \<le> length b"
  using prefix_length_le[of n "drop s b"] by (cases "s \<le> length b") auto

lemma prefix_drop_iff_nth:
  "n \<noteq> [] \<Longrightarrow> prefix n (drop s b) \<longleftrightarrow>
     s + length n \<le> length b \<and> (\<forall>i < length n. n ! i = b ! (s + i))"
proof
  assume "n \<noteq> []" "prefix n (drop s b)"
  then show "s + length n \<le> length b \<and> (\<forall>i < length n. n ! i = b ! (s + i))"
    using prefix_drop_length prefix_drop_nth by blast
next
  assume "n \<noteq> []" and h: "s + length n \<le> length b \<and> (\<forall>i < length n. n ! i = b ! (s + i))"
  then have "n = take (length n) (drop s b)"
    by (intro nth_equalityI) auto
  then show "prefix n (drop s b)"
    by (metis take_is_prefix)
qed

lemma drop_append_le: "k \<le> length xs \<Longrightarrow> drop k (xs @ ys) = drop k xs @ ys"
  by simp

lemma list_all2_ex2: "list_all2 P xs ys \<Longrightarrow> y \<in> set ys \<Longrightarrow> \<exists>x\<in>set xs. P x y"
  by (induction rule: list_all2_induct) auto

lemma list_all2_ex1: "list_all2 P xs ys \<Longrightarrow> x \<in> set xs \<Longrightarrow> \<exists>y\<in>set ys. P x y"
  by (induction rule: list_all2_induct) auto

lemma find_SomeD: "find P xs = Some x \<Longrightarrow> x \<in> set xs \<and> P x"
  by (auto simp: find_Some_iff)

lemma find_unique:
  assumes "x \<in> set xs" and "P x" and "\<And>y. y \<in> set xs \<Longrightarrow> P y \<Longrightarrow> y = x"
  shows "find P xs = Some x"
proof (cases "find P xs")
  case None
  with assms(1,2) show ?thesis by (simp add: find_None_iff)
next
  case (Some y)
  with assms(3) find_SomeD[OF Some] show ?thesis by simp
qed

section \<open>Goroutines\<close>

text \<open>
  Who takes a step of a relation that models a goroutine: the goroutine itself, or the world
  around it (the clock, cancellation, other goroutines, other processes).
\<close>

datatype by_whom = World | Own

text \<open>Runs of such a relation, counting the goroutine's own steps.\<close>

inductive runs :: "(by_whom \<Rightarrow> 's \<Rightarrow> 's \<Rightarrow> bool) \<Rightarrow> 's \<Rightarrow> nat \<Rightarrow> 's \<Rightarrow> bool" for step where
  Here: "runs step s 0 s"
| World_step: "runs step s n t \<Longrightarrow> step World t u \<Longrightarrow> runs step s n u"
| Own_step: "runs step s n t \<Longrightarrow> step Own t u \<Longrightarrow> runs step s (Suc n) u"

lemma runs_Own: "runs step t n u \<Longrightarrow> step Own s t \<Longrightarrow> runs step s (Suc n) u"
  by (induction rule: runs.induct) (auto intro: runs.intros)

section \<open>Interfaces\<close>

text \<open>
  An encoder and the decoder that reads its output from the front of a longer input: what
  the serialisations that are hashed, signed or sent rely on. Values the encoder cannot
  represent are excluded by \<open>ok\<close>.
\<close>

locale codec =
  fixes enc :: "'a \<Rightarrow> 'c list"
    and dec :: "'c list \<Rightarrow> ('a \<times> 'c list) option"
    and ok :: "'a \<Rightarrow> bool"
  assumes dec_enc: "ok x \<Longrightarrow> dec (enc x @ r) = Some (x, r)"
begin

lemma enc_append_inject:
  assumes "ok x" and "ok y" and "enc x @ r = enc y @ r'"
  shows "x = y \<and> r = r'"
proof -
  have "Some (x, r) = Some (y, r')"
    using assms dec_enc by metis
  then show ?thesis by simp
qed

lemma enc_inject: "ok x \<Longrightarrow> ok y \<Longrightarrow> enc x = enc y \<Longrightarrow> x = y"
  using enc_append_inject[of x y "[]" "[]"] by simp

end

text \<open>
  A component with operations: each keeps the invariant, and each moves the state forward in
  \<open>le\<close> (what the component never takes back). Every run of operations then does both.
\<close>

locale machine =
  fixes step :: "'s \<Rightarrow> 'op \<Rightarrow> 's"
    and inv :: "'s \<Rightarrow> bool"
    and le :: "'s \<Rightarrow> 's \<Rightarrow> bool"
  assumes inv_step: "inv s \<Longrightarrow> inv (step s a)"
    and le_step: "inv s \<Longrightarrow> le s (step s a)"
    and le_refl: "le s s"
    and le_trans: "le s t \<Longrightarrow> le t u \<Longrightarrow> le s u"
begin

lemma inv_run: "inv s \<Longrightarrow> inv (foldl step s ops)"
  by (induction ops arbitrary: s) (auto intro: inv_step)

lemma le_run: "inv s \<Longrightarrow> le s (foldl step s ops)"
proof (induction ops arbitrary: s)
  case Nil
  show ?case by (simp add: le_refl)
next
  case (Cons a ops)
  then have "le (step s a) (foldl step (step s a) ops)"
    using inv_step by blast
  then show ?case
    using le_step[OF Cons.prems, of a] le_trans by auto
qed

end

text \<open>
  A goroutine that ends when its context is done: from then on each of its own steps makes
  \<open>left\<close> smaller, nothing makes it larger, and it can move until nothing is left.
\<close>

locale goroutine =
  fixes step :: "by_whom \<Rightarrow> 's \<Rightarrow> 's \<Rightarrow> bool"
    and cancelled :: "'s \<Rightarrow> bool"
    and left :: "'s \<Rightarrow> nat"
  assumes own_less: "step Own s t \<Longrightarrow> cancelled s \<Longrightarrow> left t < left s"
    and world_le: "step World s t \<Longrightarrow> left t \<le> left s"
    and stays: "step w s t \<Longrightarrow> cancelled s \<Longrightarrow> cancelled t"
    and enabled: "cancelled s \<Longrightarrow> 0 < left s \<Longrightarrow> \<exists>t. step Own s t"
begin

lemma runs_left: "runs step s n t \<Longrightarrow> cancelled s \<Longrightarrow> cancelled t \<and> n + left t \<le> left s"
proof (induction rule: runs.induct)
  case (World_step s n t u)
  with world_le[of t u] stays[of World t u] show ?case by auto
next
  case (Own_step s n t u)
  with own_less[of t u] stays[of Own t u] show ?case by auto
qed simp

lemma runs_end: "cancelled s \<Longrightarrow> \<exists>n t. runs step s n t \<and> left t = 0"
proof (induction "left s" arbitrary: s rule: less_induct)
  case less
  show ?case
  proof (cases "left s = 0")
    case False
    then obtain t where t: "step Own s t" using enabled[OF less.prems] by blast
    from less.hyps[OF own_less[OF t less.prems] stays[OF t less.prems]] t show ?thesis by (blast intro: runs_Own)
  qed (blast intro: runs.Here)
qed

lemma stuck_done: "runs step s n t \<Longrightarrow> cancelled s \<Longrightarrow> \<nexists>u. step Own t u \<Longrightarrow> left t = 0"
  using runs_left enabled by blast

end

end
