(* ===== verification/Go_Strings.thy ===== *)
theory Go_Strings
  imports TC_Prelude "HOL-Library.List_Lexorder" "HOL-Library.Char_ord"
begin

text \<open>
  The parts of Go's packages \<open>strings\<close>, \<open>bytes\<close>, \<open>slices\<close>, \<open>unicode\<close> and
  \<open>unicode/utf8\<close> the program calls, on byte strings, with the laws the components use.
  Ordering of strings is Go's: lexicographic on bytes.
\<close>

section \<open>Packages strings and bytes\<close>

definition hasPrefix :: "'a list \<Rightarrow> 'a list \<Rightarrow> bool" where
  "hasPrefix s p \<longleftrightarrow> prefix p s"

definition hasSuffix :: "'a list \<Rightarrow> 'a list \<Rightarrow> bool" where
  "hasSuffix s p \<longleftrightarrow> suffix p s"

definition cutPrefix :: "'a list \<Rightarrow> 'a list \<Rightarrow> 'a list \<times> bool" where
  "cutPrefix s p = (if hasPrefix s p then (drop (length p) s, True) else (s, False))"

definition trimPrefix :: "'a list \<Rightarrow> 'a list \<Rightarrow> 'a list" where
  "trimPrefix s p = (if hasPrefix s p then drop (length p) s else s)"

definition trimSuffix :: "'a list \<Rightarrow> 'a list \<Rightarrow> 'a list" where
  "trimSuffix s p = (if hasSuffix s p then take (length s - length p) s else s)"

text \<open>\<open>bytes.Index\<close> and \<open>strings.Index\<close>: the first place \<open>n\<close> occurs, \<open>None\<close> for -1.\<close>

fun bytes_index :: "'a list \<Rightarrow> 'a list \<Rightarrow> nat option" where
  "bytes_index [] n = (if n = [] then Some 0 else None)"
| "bytes_index (c # b) n =
     (if hasPrefix (c # b) n then Some 0 else map_option Suc (bytes_index b n))"

definition contains :: "'a list \<Rightarrow> 'a list \<Rightarrow> bool" where
  "contains s n \<longleftrightarrow> bytes_index s n \<noteq> None"

definition cut :: "'a list \<Rightarrow> 'a list \<Rightarrow> 'a list \<times> 'a list \<times> bool" where
  "cut s sep = (case bytes_index s sep of
      Some i \<Rightarrow> (take i s, drop (i + length sep) s, True)
    | None \<Rightarrow> (s, [], False))"

text \<open>\<open>strings.Split\<close> and \<open>strings.SplitSeq\<close> on a one-byte separator: never empty.\<close>

fun splitc :: "'a \<Rightarrow> 'a list \<Rightarrow> 'a list list" where
  "splitc c [] = [[]]"
| "splitc c (x # xs) =
     (if x = c then [] # splitc c xs
      else (case splitc c xs of [] \<Rightarrow> [[x]] | p # ps \<Rightarrow> (x # p) # ps))"

fun joinc :: "'a list \<Rightarrow> 'a list list \<Rightarrow> 'a list" where
  "joinc sep [] = []"
| "joinc sep [p] = p"
| "joinc sep (p # q # ps) = p @ sep @ joinc sep (q # ps)"

text \<open>\<open>strings.SplitN\<close> on a one-byte separator, for \<open>n\<close> at least 1.\<close>

fun splitN :: "'a \<Rightarrow> nat \<Rightarrow> 'a list \<Rightarrow> 'a list list" where
  "splitN c 0 s = []"
| "splitN c (Suc 0) s = [s]"
| "splitN c (Suc (Suc n)) s =
     (case cut s [c] of (before, after, found) \<Rightarrow>
        if found then before # splitN c (Suc n) after else [s])"

text \<open>\<open>strings.FieldsFunc\<close>: the maximal non-empty runs outside \<open>f\<close>.\<close>

fun fields_acc :: "('a \<Rightarrow> bool) \<Rightarrow> 'a list \<Rightarrow> 'a list \<Rightarrow> 'a list list" where
  "fields_acc f acc [] = (if acc = [] then [] else [acc])"
| "fields_acc f acc (x # xs) =
     (if f x then (if acc = [] then fields_acc f [] xs else acc # fields_acc f [] xs)
      else fields_acc f (acc @ [x]) xs)"

definition fieldsFunc :: "('a \<Rightarrow> bool) \<Rightarrow> 'a list \<Rightarrow> 'a list list" where
  "fieldsFunc f s = fields_acc f [] s"

definition isSpaceASCII :: "char \<Rightarrow> bool" where
  "isSpaceASCII c \<longleftrightarrow> byte c \<in> {9, 10, 11, 12, 13, 32}"

definition toUpperASCII :: "string \<Rightarrow> string" where
  "toUpperASCII s = map (\<lambda>c. if 97 \<le> byte c \<and> byte c \<le> 122 then char_of (byte c - 32) else c) s"

definition toLowerASCII :: "string \<Rightarrow> string" where
  "toLowerASCII s = map (\<lambda>c. if 65 \<le> byte c \<and> byte c \<le> 90 then char_of (byte c + 32) else c) s"

subsection \<open>Laws\<close>

lemma hasPrefix_append [simp]: "hasPrefix (p @ s) p"
  by (simp add: hasPrefix_def)

lemma hasPrefix_iff: "hasPrefix s p \<longleftrightarrow> (\<exists>r. s = p @ r)"
  by (auto simp: hasPrefix_def prefix_def)

lemma trimPrefix_append [simp]: "trimPrefix (p @ s) p = s"
  by (simp add: trimPrefix_def)

lemma bytes_index_SomeD:
  "bytes_index b n = Some i \<Longrightarrow> prefix n (drop i b) \<and> i \<le> length b \<and> (\<forall>j<i. \<not> prefix n (drop j b))"
proof (induction b n arbitrary: i rule: bytes_index.induct)
  case (1 n)
  then show ?case by (auto split: if_splits)
next
  case (2 c b n)
  show ?case
  proof (cases "hasPrefix (c # b) n")
    case True
    with "2.prems" show ?thesis by (simp add: hasPrefix_def)
  next
    case False
    with "2.prems" obtain k where k: "bytes_index b n = Some k" "i = Suc k" by auto
    from "2.IH"[OF False k(1)] False k(2) show ?thesis
      by (auto simp: hasPrefix_def less_Suc_eq_0_disj)
  qed
qed

lemma all_le_Suc_iff: "(\<forall>j \<le> Suc n. P j) \<longleftrightarrow> P 0 \<and> (\<forall>j \<le> n. P (Suc j))"
proof
  assume h: "P 0 \<and> (\<forall>j \<le> n. P (Suc j))"
  have "P j" if "j \<le> Suc n" for j
    using h that by (cases j) auto
  then show "\<forall>j \<le> Suc n. P j" by blast
qed auto

lemma bytes_index_None: "bytes_index b n = None \<longleftrightarrow> (\<forall>j \<le> length b. \<not> prefix n (drop j b))"
proof (induction b n rule: bytes_index.induct)
  case (1 n)
  then show ?case by auto
next
  case (2 c b n)
  show ?case
  proof (cases "hasPrefix (c # b) n")
    case True
    then show ?thesis by (auto simp: hasPrefix_def intro: exI[of _ 0])
  next
    case False
    have "(\<forall>j \<le> length (c # b). \<not> prefix n (drop j (c # b)))
        \<longleftrightarrow> \<not> prefix n (c # b) \<and> (\<forall>j \<le> length b. \<not> prefix n (drop j b))"
      by (simp add: all_le_Suc_iff)
    with False "2.IH"[OF False] show ?thesis by (simp add: hasPrefix_def)
  qed
qed

lemma contains_iff: "contains s n \<longleftrightarrow> (\<exists>j \<le> length s. prefix n (drop j s))"
  by (auto simp: contains_def bytes_index_None)

lemma contains_iff_sublist: "contains s n \<longleftrightarrow> sublist n s"
proof
  assume "contains s n"
  then obtain j where "j \<le> length s" "prefix n (drop j s)" by (auto simp: contains_iff)
  then obtain z where "s = take j s @ n @ z"
    by (metis append_take_drop_id prefix_def)
  then show "sublist n s" by (metis sublist_appendI)
next
  assume "sublist n s"
  then obtain p z where s: "s = p @ n @ z" by (auto simp: sublist_def)
  show "contains s n"
    unfolding contains_iff
    by (rule exI[of _ "length p"]) (simp add: s)
qed

lemma splitc_nonempty [simp]: "splitc c s \<noteq> []"
  by (induction s) (auto split: list.splits)

lemma splitc_no_sep: "c \<notin> set s \<Longrightarrow> splitc c s = [s]"
  by (induction s) auto

lemma splitc_parts: "p \<in> set (splitc c s) \<Longrightarrow> c \<notin> set p"
  by (induction s arbitrary: p) (auto split: if_splits list.splits)

lemma joinc_splitc: "joinc [c] (splitc c s) = s"
proof (induction s)
  case Nil
  then show ?case by simp
next
  case (Cons x xs)
  obtain p ps where ps: "splitc c xs = p # ps"
    by (cases "splitc c xs") auto
  show ?case
  proof (cases ps)
    case Nil
    with ps Cons show ?thesis by auto
  next
    case (Cons q qs)
    with ps \<open>joinc [c] (splitc c xs) = xs\<close> show ?thesis by auto
  qed
qed

lemma splitc_joinc:
  "ps \<noteq> [] \<Longrightarrow> \<forall>p\<in>set ps. c \<notin> set p \<Longrightarrow> splitc c (joinc [c] ps) = ps"
proof (induction "[c]" ps rule: joinc.induct)
  case 1
  then show ?case by simp
next
  case (2 p)
  then show ?case by (simp add: splitc_no_sep)
next
  case (3 p q ps)
  have "splitc c (p @ c # r) = p # splitc c r" if "c \<notin> set p" for p r
    using that by (induction p) (auto split: list.splits)
  with 3 show ?case by simp
qed

lemma splitc_append: "splitc c (a @ c # b) = splitc c a @ splitc c b"
  by (induction a) (auto split: list.splits simp: Cons_eq_append_conv)

lemma fields_acc_concat: "concat (fields_acc f acc s) = acc @ filter (\<lambda>x. \<not> f x) s"
  by (induction s arbitrary: acc) auto

lemma fields_acc_parts:
  "p \<in> set (fields_acc f acc s) \<Longrightarrow> \<forall>x\<in>set acc. \<not> f x \<Longrightarrow> p \<noteq> [] \<and> (\<forall>x\<in>set p. \<not> f x)"
proof (induction f acc s rule: fields_acc.induct)
  case (1 f acc)
  then show ?case by (auto split: if_splits)
next
  case (2 f acc x xs)
  show ?case
  proof (cases "f x")
    case True
    show ?thesis
    proof (cases "acc = []")
      case acc: True
      with "2.IH"(1)[OF True acc] "2.prems" True show ?thesis by simp
    next
      case acc: False
      show ?thesis
      proof (cases "p = acc")
        case True
        with acc "2.prems" show ?thesis by blast
      next
        case False
        with "2.IH"(2)[OF True acc] "2.prems" True acc show ?thesis by simp
      qed
    qed
  next
    case False
    with "2.IH"(3)[OF False] "2.prems" show ?thesis by simp
  qed
qed

lemma fieldsFunc_parts:
  "p \<in> set (fieldsFunc f s) \<Longrightarrow> p \<noteq> [] \<and> (\<forall>x\<in>set p. \<not> f x)"
  using fields_acc_parts[of p f "[]" s] by (simp add: fieldsFunc_def)

lemma fieldsFunc_no_sep: "s \<noteq> [] \<Longrightarrow> \<forall>x\<in>set s. \<not> f x \<Longrightarrow> fieldsFunc f s = [s]"
proof -
  have "\<forall>x\<in>set s. \<not> f x \<Longrightarrow> acc @ s \<noteq> [] \<Longrightarrow> fields_acc f acc s = [acc @ s]" for acc
    by (induction s arbitrary: acc) auto
  from this[of "[]"] show "s \<noteq> [] \<Longrightarrow> \<forall>x\<in>set s. \<not> f x \<Longrightarrow> fieldsFunc f s = [s]"
    by (simp add: fieldsFunc_def)
qed

lemma cut_found_iff: "snd (snd (cut s sep)) \<longleftrightarrow> contains s sep"
  by (auto simp: cut_def contains_def split: option.splits)

lemma cut_join: "cut s sep = (a, b, True) \<Longrightarrow> s = a @ sep @ b"
proof -
  assume h: "cut s sep = (a, b, True)"
  then obtain i where i: "bytes_index s sep = Some i" "a = take i s" "b = drop (i + length sep) s"
    by (auto simp: cut_def split: option.splits)
  from bytes_index_SomeD[OF i(1)] obtain z where z: "drop i s = sep @ z"
    by (auto simp: prefix_def)
  then have "drop (length sep) (drop i s) = z"
    by simp
  then have "b = z"
    using i(3) by (simp add: add.commute)
  with z i(2) show ?thesis by (metis append_take_drop_id)
qed

lemma bytes_index_single_append:
  "c \<notin> set a \<Longrightarrow> bytes_index (a @ c # b) [c] = Some (length a)"
  by (induction a) (auto simp: hasPrefix_def)

lemma cut_single: "c \<notin> set a \<Longrightarrow> cut (a @ c # b) [c] = (a, b, True)"
  by (simp add: cut_def bytes_index_single_append)

lemma contains_single: "contains s [c] \<longleftrightarrow> c \<in> set s"
proof -
  have "sublist [c] s \<longleftrightarrow> c \<in> set s"
    by (auto simp: sublist_def in_set_conv_decomp)
  then show ?thesis by (simp add: contains_iff_sublist)
qed

section \<open>Package unicode/utf8\<close>

text \<open>
  \<open>utf8.DecodeRune\<close> on byte values: the rune and its width; an invalid byte is
  \<open>(0xFFFD, 1)\<close>. Surrogates, overlong forms and values past 0x10FFFF are invalid.
\<close>

definition rune_error :: nat where
  "rune_error = 0xFFFD"

definition cont_byte :: "nat \<Rightarrow> bool" where
  "cont_byte b \<longleftrightarrow> 0x80 \<le> b \<and> b \<le> 0xBF"

definition second_ok :: "nat \<Rightarrow> nat \<Rightarrow> bool" where
  "second_ok b0 b1 \<longleftrightarrow>
     (if b0 = 0xE0 then 0xA0 \<le> b1 \<and> b1 \<le> 0xBF
      else if b0 = 0xED then 0x80 \<le> b1 \<and> b1 \<le> 0x9F
      else if b0 = 0xF0 then 0x90 \<le> b1 \<and> b1 \<le> 0xBF
      else if b0 = 0xF4 then 0x80 \<le> b1 \<and> b1 \<le> 0x8F
      else cont_byte b1)"

definition decode_rune :: "string \<Rightarrow> nat \<times> nat" where
  "decode_rune s = (case s of
      [] \<Rightarrow> (rune_error, 0)
    | c0 # r \<Rightarrow> (let b0 = byte c0 in
       (if b0 < 0x80 then (b0, 1)
        else if 0xC2 \<le> b0 \<and> b0 \<le> 0xDF then
          (case r of c1 # _ \<Rightarrow>
             if cont_byte (byte c1) then ((b0 - 0xC0) * 64 + (byte c1 - 0x80), 2) else (rune_error, 1)
           | _ \<Rightarrow> (rune_error, 1))
        else if 0xE0 \<le> b0 \<and> b0 \<le> 0xEF then
          (case r of c1 # c2 # _ \<Rightarrow>
             if second_ok b0 (byte c1) \<and> cont_byte (byte c2)
             then ((b0 - 0xE0) * 4096 + (byte c1 - 0x80) * 64 + (byte c2 - 0x80), 3) else (rune_error, 1)
           | _ \<Rightarrow> (rune_error, 1))
        else if 0xF0 \<le> b0 \<and> b0 \<le> 0xF4 then
          (case r of c1 # c2 # c3 # _ \<Rightarrow>
             if second_ok b0 (byte c1) \<and> cont_byte (byte c2) \<and> cont_byte (byte c3)
             then ((b0 - 0xF0) * 262144 + (byte c1 - 0x80) * 4096 + (byte c2 - 0x80) * 64
                   + (byte c3 - 0x80), 4)
             else (rune_error, 1)
           | _ \<Rightarrow> (rune_error, 1))
        else (rune_error, 1))))"

lemma decode_rune_width: "s \<noteq> [] \<Longrightarrow> 1 \<le> snd (decode_rune s) \<and> snd (decode_rune s) \<le> length s"
  by (cases s)
     (auto simp: decode_rune_def Let_def split: list.splits)

text \<open>Ranging over a string: each rune with its width.\<close>

function runes :: "string \<Rightarrow> (nat \<times> nat) list" where
  "runes [] = []"
| "runes (c # s) = (let (r, w) = decode_rune (c # s) in (r, w) # runes (drop w (c # s)))"
  by pat_completeness auto
termination
proof (relation "measure length", simp)
  fix c :: char and s x and r w :: nat
  assume "x = decode_rune (c # s)" and "(r, w) = x"
  then have "1 \<le> w"
    using decode_rune_width[of "c # s"] by (metis list.distinct(1) snd_conv)
  then show "(drop w (c # s), c # s) \<in> measure length"
    by simp
qed

definition invalid_rune :: "nat \<times> nat \<Rightarrow> bool" where
  "invalid_rune rw \<longleftrightarrow> rw = (rune_error, 1)"

text \<open>\<open>utf8.ValidString\<close>.\<close>

definition validString :: "string \<Rightarrow> bool" where
  "validString s \<longleftrightarrow> (\<forall>rw\<in>set (runes s). \<not> invalid_rune rw)"

text \<open>\<open>unicode.IsControl\<close>: the category Cc, which lies in Latin-1.\<close>

definition isControl :: "nat \<Rightarrow> bool" where
  "isControl r \<longleftrightarrow> r < 0x20 \<or> (0x7F \<le> r \<and> r \<le> 0x9F)"

lemma decode_rune_ascii [simp]: "byte c < 0x80 \<Longrightarrow> decode_rune (c # s) = (byte c, 1)"
  by (simp add: decode_rune_def Let_def)

lemma runes_ascii: "\<forall>c\<in>set s. byte c < 0x80 \<Longrightarrow> runes s = map (\<lambda>c. (byte c, 1)) s"
  by (induction s) auto

lemma validString_ascii: "\<forall>c\<in>set s. byte c < 0x80 \<Longrightarrow> validString s"
  by (auto simp: validString_def runes_ascii invalid_rune_def rune_error_def)

declare runes.simps(2) [simp del]

lemma runes_Cons [go_simps]:
  "runes (c # s) = decode_rune (c # s) # runes (drop (snd (decode_rune (c # s))) (c # s))"
  by (simp add: runes.simps(2) split: prod.splits)

lemma runes_widths: "sum_list (map snd (runes s)) = length s"
proof (induction s rule: runes.induct)
  case 1
  then show ?case by simp
next
  case (2 c s)
  obtain r w where rw: "decode_rune (c # s) = (r, w)" by fastforce
  with decode_rune_width[of "c # s"] have "w \<le> length (c # s)" by simp
  with 2[OF refl rw[symmetric]] rw show ?case by (simp add: runes_Cons)
qed

end
