(* ===== verification/Redact.thy ===== *)
theory Redact
  imports Go_Strings
begin

text \<open>
  Package \<open>redact\<close> (internal/redact/redact.go): the streaming writer that masks every
  occurrence of a Secret in an Upstream's response, and \<open>redact.String\<close> for headers.
  The reference definition \<open>redaction\<close> masks a byte exactly when it lies in an occurrence of
  a needle in the whole text. The theorems show that \<open>String\<close> computes it, that the
  writer computes it whatever way the text is split into writes, and that what is sent holds
  no needle at any moment.
\<close>

section \<open>The code\<close>

text \<open>
  \<open>type Writer\<close>: \<open>buf\<close> and \<open>masked\<close> keep their full lengths between writes; only
  the first \<open>pending\<close> entries are live. The underlying \<open>io.Writer\<close> is not part of the
  state: each operation returns what it hands to it.
\<close>

record Writer =
  needles :: "bytes list"
  mask :: char
  buf :: bytes
  masked :: "bool list"
  pending :: nat

text \<open>\<open>maskBytes\<close>, the candidates in order of preference.\<close>

definition maskBytes :: string where
  "maskBytes = ''*x-_.~0123456789ABCDEFGHIJKLMNOPQRSTUVWXYZabcdefghijklmnopqrstuvwyz''"

definition maskFor :: "bytes list \<Rightarrow> char" where
  "maskFor ns = (case find (\<lambda>c. \<not> list_ex (\<lambda>n. c \<in> set n) ns) maskBytes of
      Some c \<Rightarrow> c
    | None \<Rightarrow> CHR ''*'')"

definition views :: "bytes list \<Rightarrow> bytes list" where
  "views ns = filter (\<lambda>n. n \<noteq> []) ns"

definition NewWriter :: "bytes list \<Rightarrow> Writer" where
  "NewWriter ns = \<lparr>needles = views ns, mask = maskFor ns, buf = [], masked = [], pending = 0\<rparr>"

definition containsAny :: "bytes \<Rightarrow> bytes list \<Rightarrow> bool" where
  "containsAny b ns = list_ex (\<lambda>n. contains b n) ns"

text \<open>
  The inner loop of \<open>markMatches\<close> for one needle, from \<open>start\<close>. Slicing \<open>b[start:]\<close>
  with \<open>start\<close> past the end panics in Go; no non-empty needle gets there
  (\<open>mark_loop_in_range\<close>), and \<open>views\<close> drops the empty ones.
\<close>

definition markRange :: "nat \<Rightarrow> nat \<Rightarrow> bool list \<Rightarrow> bool list" where
  "markRange start k ms = map (\<lambda>(i, m). m \<or> (start \<le> i \<and> i < start + k)) (List.enumerate 0 ms)"

function mark_loop :: "bytes \<Rightarrow> bytes \<Rightarrow> nat \<Rightarrow> bool list \<Rightarrow> bool list" where
  "mark_loop b needle start ms =
     (if length b < start then ms
      else case bytes_index (drop start b) needle of
        None \<Rightarrow> ms
      | Some i \<Rightarrow> mark_loop b needle (Suc (start + i)) (markRange (start + i) (length needle) ms))"
  by pat_completeness auto
termination
  by (relation "measure (\<lambda>(b, needle, start, ms). Suc (length b) - start)") auto

definition markMatches :: "bytes \<Rightarrow> bytes list \<Rightarrow> bool list \<Rightarrow> bool list" where
  "markMatches b ns ms = foldl (\<lambda>ms n. mark_loop b n 0 ms) ms ns"

definition applyMask :: "bytes \<Rightarrow> bool list \<Rightarrow> char \<Rightarrow> bytes" where
  "applyMask b ms m = map (\<lambda>(c, k). if k then m else c) (zip b ms)"

text \<open>One needle of \<open>partialMatch\<close>: \<open>tail\<close> is shorter than the needle.\<close>

definition partialMatch1 :: "bytes \<Rightarrow> bytes \<Rightarrow> nat \<Rightarrow> nat" where
  "partialMatch1 b needle longest =
     (let tail = drop (length b + 1 - length needle) b in
      case find (\<lambda>i. hasPrefix needle (drop i tail)) [0 ..< length tail - longest] of
        Some i \<Rightarrow> length tail - i
      | None \<Rightarrow> longest)"

definition partialMatch :: "bytes \<Rightarrow> bytes list \<Rightarrow> nat" where
  "partialMatch b ns = foldl (\<lambda>longest n. partialMatch1 b n longest) 0 ns"

text \<open>
  \<open>Write\<close>: \<open>ok\<close> says whether the underlying writer accepts what it is handed. The result
  is the Go result (\<open>Inl ()\<close> an error), what was handed to the underlying writer, and the
  writer's new state. On an error the buffer keeps what was appended to it.
\<close>

definition Writer_Write :: "bool \<Rightarrow> Writer \<Rightarrow> bytes \<Rightarrow> (unit, nat) result \<times> bytes \<times> Writer" where
  "Writer_Write ok w p =
     (if needles w = [] then ((if ok then Inr (length p) else Inl ()), p, w)
      else if pending w = 0 \<and> \<not> containsAny p (needles w) then
        (let hold = partialMatch p (needles w);
             send = take (length p - hold) p
         in if \<not> ok then (Inl (), send, w)
            else (Inr (length p), send,
                  w\<lparr>buf := drop (length p - hold) p, masked := replicate hold False,
                    pending := hold\<rparr>))
      else
        (let b = take (pending w) (buf w) @ p;
             ms = markMatches b (needles w)
                    (take (pending w) (masked w) @ replicate (length p) False);
             hold = partialMatch b (needles w);
             send = length b - hold;
             sent = applyMask (take send b) ms (mask w)
         in if \<not> ok then (Inl (), sent, w\<lparr>buf := sent @ drop send b, masked := ms\<rparr>)
            else (Inr (length p), sent,
                  w\<lparr>buf := drop send b @ replicate send (CHR 0x00),
                    masked := drop send ms @ drop hold ms, pending := hold\<rparr>)))"

definition Writer_Close :: "bool \<Rightarrow> Writer \<Rightarrow> (unit, unit) result \<times> bytes \<times> Writer" where
  "Writer_Close ok w =
     (if pending w = 0 then (Inr (), [], w)
      else (let sent = applyMask (take (pending w) (buf w)) (masked w) (mask w)
            in ((if ok then Inr () else Inl ()), sent,
                w\<lparr>buf := replicate (pending w) (CHR 0x00) @ drop (pending w) (buf w), pending := 0\<rparr>)))"

definition redact_String :: "bytes \<Rightarrow> bytes list \<Rightarrow> bytes" where
  "redact_String s ns =
     (if \<not> list_ex (\<lambda>n. n \<noteq> [] \<and> contains s n) ns then s
      else applyMask s (markMatches s (views ns) (replicate (length s) False)) (maskFor ns))"

text \<open>A caller that writes chunks one after another and stops at the first error, as the
  copying of a response body does: what reaches the underlying writer, and the writer.\<close>

fun Writer_run :: "Writer \<Rightarrow> (bool \<times> bytes) list \<Rightarrow> bytes \<times> Writer" where
  "Writer_run w [] = ([], w)"
| "Writer_run w ((ok, p) # ps) =
     (case Writer_Write ok w p of
        (Inl _, sent, w') \<Rightarrow> (sent, w')
      | (Inr _, sent, w') \<Rightarrow> (let (rest, w'') = Writer_run w' ps in (sent @ rest, w'')))"

section \<open>The reference\<close>

definition occurs_at :: "bytes \<Rightarrow> bytes \<Rightarrow> nat \<Rightarrow> bool" where
  "occurs_at n b s \<longleftrightarrow> n \<noteq> [] \<and> prefix n (drop s b)"

definition covered :: "bytes list \<Rightarrow> bytes \<Rightarrow> nat \<Rightarrow> bool" where
  "covered ns b i \<longleftrightarrow> (\<exists>n\<in>set ns. \<exists>s\<le>i. occurs_at n b s \<and> i < s + length n)"

definition redaction :: "bytes list \<Rightarrow> char \<Rightarrow> bytes \<Rightarrow> bytes" where
  "redaction ns m b = map (\<lambda>i. if covered ns b i then m else b ! i) [0 ..< length b]"


section \<open>Marking\<close>

lemma occurs_at_iff_nth:
  "occurs_at n b s \<longleftrightarrow>
     n \<noteq> [] \<and> s + length n \<le> length b \<and> (\<forall>i < length n. n ! i = b ! (s + i))"
  by (auto simp: occurs_at_def prefix_drop_iff_nth)

lemma length_markRange [simp]: "length (markRange s k ms) = length ms"
  by (simp add: markRange_def)

lemma nth_markRange [simp]:
  "i < length ms \<Longrightarrow> markRange s k ms ! i \<longleftrightarrow> ms ! i \<or> (s \<le> i \<and> i < s + k)"
  by (simp add: markRange_def nth_enumerate_eq)

declare mark_loop.simps [simp del]

lemma length_mark_loop [simp]: "length (mark_loop b n start ms) = length ms"
proof (induction b n start ms rule: mark_loop.induct)
  case (1 b n start ms)
  then show ?case
    by (subst mark_loop.simps) (auto split: option.splits)
qed

lemma occurs_at_index:
  assumes "n \<noteq> []" and "start \<le> length b" and "bytes_index (drop start b) n = Some i"
  shows "occurs_at n b (start + i)"
    and "start \<le> s \<Longrightarrow> occurs_at n b s \<Longrightarrow> start + i \<le> s"
proof -
  have f: "prefix n (drop i (drop start b))" "\<forall>j<i. \<not> prefix n (drop j (drop start b))"
    using bytes_index_SomeD[OF assms(3)] by auto
  then show "occurs_at n b (start + i)"
    using assms(1) by (simp add: occurs_at_def add.commute)
  assume s: "start \<le> s" "occurs_at n b s"
  show "start + i \<le> s"
  proof (rule ccontr)
    assume "\<not> start + i \<le> s"
    then have "s - start < i" using s(1) by simp
    with f(2) have "\<not> prefix n (drop (s - start) (drop start b))" by blast
    with s show False by (simp add: occurs_at_def)
  qed
qed

lemma no_occurrence_index:
  assumes "n \<noteq> []" and "bytes_index (drop start b) n = None" and "start \<le> s"
  shows "\<not> occurs_at n b s"
proof
  assume o: "occurs_at n b s"
  then have "s + length n \<le> length b" by (simp add: occurs_at_iff_nth)
  then have "s - start \<le> length (drop start b)" using assms(3) by simp
  then have "\<not> prefix n (drop (s - start) (drop start b))"
    using assms(2) by (auto simp: bytes_index_None)
  with o assms(3) show False by (simp add: occurs_at_def)
qed

text \<open>The loop never slices past the end: after a match the next start is in range.\<close>

lemma mark_loop_in_range:
  fixes n b :: bytes
  assumes "n \<noteq> []" and "start \<le> length b" and "bytes_index (drop start b) n = Some i"
  shows "Suc (start + i) \<le> length b"
  using occurs_at_index(1)[OF assms] assms(1) by (cases n) (auto simp: occurs_at_iff_nth)

lemma nth_mark_loop:
  assumes "n \<noteq> []" and "i < length ms"
  shows "mark_loop b n start ms ! i \<longleftrightarrow>
    ms ! i \<or> (\<exists>s\<ge>start. occurs_at n b s \<and> s \<le> i \<and> i < s + length n)"
  using assms
proof (induction b n start ms rule: mark_loop.induct)
  case (1 b n start ms)
  show ?case
  proof (cases "length b < start")
    case True
    then have "\<not> occurs_at n b s" if "start \<le> s" for s
      using that by (simp add: occurs_at_iff_nth)
    with True show ?thesis by (subst mark_loop.simps) auto
  next
    case le: False
    show ?thesis
    proof (cases "bytes_index (drop start b) n")
      case None
      with le show ?thesis
        using no_occurrence_index[OF "1.prems"(1) None]
        by (subst mark_loop.simps) auto
    next
      case (Some k)
      let ?ms = "markRange (start + k) (length n) ms"
      have IH: "mark_loop b n (Suc (start + k)) ?ms ! i \<longleftrightarrow>
          ?ms ! i \<or> (\<exists>s\<ge>Suc (start + k). occurs_at n b s \<and> s \<le> i \<and> i < s + length n)"
        using "1.IH"[OF le Some] "1.prems" by simp
      have first: "occurs_at n b (start + k)"
        using occurs_at_index(1)[OF "1.prems"(1) _ Some] le by simp
      have least: "start \<le> s \<Longrightarrow> occurs_at n b s \<Longrightarrow> start + k \<le> s" for s
        using occurs_at_index(2)[OF "1.prems"(1) _ Some] le by simp
      have "(\<exists>s\<ge>start. occurs_at n b s \<and> s \<le> i \<and> i < s + length n) \<longleftrightarrow>
          (start + k \<le> i \<and> i < start + k + length n) \<or>
          (\<exists>s\<ge>Suc (start + k). occurs_at n b s \<and> s \<le> i \<and> i < s + length n)"
        (is "?L \<longleftrightarrow> ?now \<or> ?later")
      proof
        assume ?L
        then obtain s where s: "s \<ge> start" "occurs_at n b s" "s \<le> i" "i < s + length n" by blast
        show "?now \<or> ?later"
        proof (cases "s = start + k")
          case False
          with least[OF s(1,2)] have "Suc (start + k) \<le> s" by simp
          with s show ?thesis by blast
        qed (use s in simp)
      next
        assume "?now \<or> ?later"
        then show ?L
        proof
          assume ?now
          with first show ?L by (intro exI[of _ "start + k"]) simp
        next
          assume ?later
          then show ?L by (meson Suc_leD le_add1 le_trans)
        qed
      qed
      with IH le Some "1.prems" show ?thesis
        by (subst mark_loop.simps) auto
    qed
  qed
qed

lemma length_markMatches [simp]: "length (markMatches b ns ms) = length ms"
  by (induction ns arbitrary: ms) (simp_all add: markMatches_def)

lemma nth_markMatches:
  assumes "[] \<notin> set ns" and "i < length ms"
  shows "markMatches b ns ms ! i \<longleftrightarrow> ms ! i \<or> covered ns b i"
  using assms
proof (induction ns arbitrary: ms)
  case Nil
  then show ?case by (simp add: markMatches_def covered_def)
next
  case (Cons n ns)
  have "markMatches b (n # ns) ms = markMatches b ns (mark_loop b n 0 ms)"
    by (simp add: markMatches_def)
  with Cons nth_mark_loop[of n i ms b 0] show ?case
    by (auto simp: covered_def)
qed

lemma length_applyMask [simp]: "length (applyMask b ms m) = min (length b) (length ms)"
  by (simp add: applyMask_def)

lemma nth_applyMask [simp]:
  "i < length b \<Longrightarrow> i < length ms \<Longrightarrow> applyMask b ms m ! i = (if ms ! i then m else b ! i)"
  by (simp add: applyMask_def)

lemma length_redaction [simp]: "length (redaction ns m b) = length b"
  by (simp add: redaction_def)

lemma nth_redaction [simp]:
  "i < length b \<Longrightarrow> redaction ns m b ! i = (if covered ns b i then m else b ! i)"
  by (simp add: redaction_def)

lemma views_nonempty [simp]: "[] \<notin> set (views ns)"
  by (simp add: views_def)

lemma covered_views [simp]: "covered (views ns) b i = covered ns b i"
  by (auto simp: covered_def views_def occurs_at_def)

lemma redaction_views [simp]: "redaction (views ns) m b = redaction ns m b"
  by (simp add: redaction_def)

lemma covered_less: "covered ns b i \<Longrightarrow> i < length b"
  by (auto simp: covered_def occurs_at_iff_nth)

lemma contains_occurs: "n \<noteq> [] \<Longrightarrow> contains b n \<longleftrightarrow> (\<exists>s. occurs_at n b s)"
  by (auto simp: contains_iff occurs_at_def dest: prefix_drop_length)
     (metis add_leD1 prefix_drop_length)

lemma not_contains_not_covered:
  "(\<And>n. n \<in> set ns \<Longrightarrow> n \<noteq> [] \<Longrightarrow> \<not> contains b n) \<Longrightarrow> \<not> covered ns b i"
  by (metis covered_def contains_occurs occurs_at_def)

lemma redaction_id: "(\<And>i. \<not> covered ns b i) \<Longrightarrow> redaction ns m b = b"
  by (rule nth_equalityI) auto

lemma String_redaction: "redact_String s ns = redaction ns (maskFor ns) s"
proof (cases "list_ex (\<lambda>n. n \<noteq> [] \<and> contains s n) ns")
  case True
  then show ?thesis
    by (intro nth_equalityI) (auto simp: redact_String_def nth_markMatches)
next
  case False
  then have "\<not> covered ns s i" for i
    by (intro not_contains_not_covered) (auto simp: list_ex_iff)
  with False show ?thesis by (simp add: redact_String_def redaction_id)
qed


section \<open>Held-back bytes\<close>

text \<open>\<open>partial ns b k\<close>: the last \<open>k\<close> bytes of \<open>b\<close> begin some needle and do not end it.\<close>

definition partial :: "bytes list \<Rightarrow> bytes \<Rightarrow> nat \<Rightarrow> bool" where
  "partial ns b k \<longleftrightarrow>
     k \<le> length b \<and> (\<exists>n\<in>set ns. k < length n \<and> prefix (drop (length b - k) b) n)"

lemma partialMatch1_tail:
  assumes "n \<noteq> []" and "k \<le> length b" and "k < length n"
  shows "k \<le> length (drop (length b + 1 - length n) b)"
    and "drop (length (drop (length b + 1 - length n) b) - k) (drop (length b + 1 - length n) b)
         = drop (length b - k) b"
proof -
  show "k \<le> length (drop (length b + 1 - length n) b)"
    using assms by simp
  have "length (drop (length b + 1 - length n) b) - k + (length b + 1 - length n) = length b - k"
    using assms by simp
  then show "drop (length (drop (length b + 1 - length n) b) - k) (drop (length b + 1 - length n) b)
      = drop (length b - k) b"
    by simp
qed

lemma find_upt_SomeD:
  "find P [0 ..< m] = Some i \<Longrightarrow> i < m \<and> P i \<and> (\<forall>j<i. \<not> P j)"
  by (auto simp: find_Some_iff)

lemma find_upt_None: "find P [0 ..< m] = None \<longleftrightarrow> (\<forall>j<m. \<not> P j)"
  by (auto simp: find_None_iff)

lemma partialMatch1_spec:
  assumes "n \<noteq> []"
  shows "longest \<le> partialMatch1 b n longest"
    and "partialMatch1 b n longest = longest \<or> partial [n] b (partialMatch1 b n longest)"
    and "partial [n] b k \<Longrightarrow> k \<le> partialMatch1 b n longest"
proof -
  define t where "t = drop (length b + 1 - length n) b"
  let ?P = "\<lambda>i. hasPrefix n (drop i t)"
  let ?r = "partialMatch1 b n longest"
  have len: "length t < length n" "length t \<le> length b"
    using assms by (cases n; simp add: t_def)+
  have tail: "k \<le> length t \<and> drop (length t - k) t = drop (length b - k) b"
    if "k \<le> length b" "k < length n" for k
    using partialMatch1_tail[OF assms that] by (simp add: t_def)
  have r: "?r = (case find ?P [0 ..< length t - longest] of Some i \<Rightarrow> length t - i | None \<Rightarrow> longest)"
    unfolding partialMatch1_def Let_def t_def by (rule refl)
  have found: "longest < ?r \<and> partial [n] b ?r" if "find ?P [0 ..< length t - longest] = Some i" for i
  proof -
    from find_upt_SomeD[OF that] have i: "i < length t - longest" "?P i" by auto
    have "drop i t = drop (length b - (length t - i)) b"
      using tail[of "length t - i"] len i(1) by simp
    with i that len r show ?thesis
      by (auto simp: partial_def hasPrefix_def)
  qed
  show "longest \<le> ?r"
    using found r by (cases "find ?P [0 ..< length t - longest]") auto
  show "?r = longest \<or> partial [n] b ?r"
    using found r by (cases "find ?P [0 ..< length t - longest]") auto
  assume "partial [n] b k"
  then have k: "k \<le> length b" "k < length n" "prefix (drop (length b - k) b) n"
    by (auto simp: partial_def)
  have Pi: "?P (length t - k)" and kt: "k \<le> length t"
    using k(3) tail[OF k(1,2)] by (simp_all add: hasPrefix_def)
  show "k \<le> ?r"
  proof (cases "find ?P [0 ..< length t - longest]")
    case None
    with Pi have "\<not> length t - k < length t - longest" by (auto simp: find_upt_None)
    with None kt r show ?thesis by simp
  next
    case (Some i)
    from find_upt_SomeD[OF Some] Pi have "i \<le> length t - k" by (meson not_le)
    with Some kt r show ?thesis by simp
  qed
qed

lemma partialMatch_fold:
  assumes "[] \<notin> set ns"
  shows "l \<le> foldl (\<lambda>longest n. partialMatch1 b n longest) l ns \<and>
    (foldl (\<lambda>longest n. partialMatch1 b n longest) l ns = l \<or>
       partial ns b (foldl (\<lambda>longest n. partialMatch1 b n longest) l ns)) \<and>
    (\<forall>k. partial ns b k \<longrightarrow> k \<le> foldl (\<lambda>longest n. partialMatch1 b n longest) l ns)"
  using assms
proof (induction ns arbitrary: l)
  case Nil
  then show ?case by (simp add: partial_def)
next
  case (Cons n ns)
  let ?l = "partialMatch1 b n l"
  note one = partialMatch1_spec[where n = n and longest = l and b = b]
  have split: "partial (n # ns) b k \<longleftrightarrow> partial [n] b k \<or> partial ns b k" for k
    by (auto simp: partial_def)
  from Cons have n: "n \<noteq> []" and
    IH: "?l \<le> foldl (\<lambda>longest n. partialMatch1 b n longest) ?l ns"
      "foldl (\<lambda>longest n. partialMatch1 b n longest) ?l ns = ?l \<or>
       partial ns b (foldl (\<lambda>longest n. partialMatch1 b n longest) ?l ns)"
      "\<forall>k. partial ns b k \<longrightarrow> k \<le> foldl (\<lambda>longest n. partialMatch1 b n longest) ?l ns"
    by auto
  show ?case
    using one(1,2)[OF n] one(3)[OF n] IH by (auto simp: split intro: le_trans)
qed

lemma partialMatch_maximal:
  "[] \<notin> set ns \<Longrightarrow> partial ns b k \<Longrightarrow> k \<le> partialMatch b ns"
  using partialMatch_fold[of ns 0 b] by (simp add: partialMatch_def)

lemma partialMatch_partial:
  "[] \<notin> set ns \<Longrightarrow> partialMatch b ns = 0 \<or> partial ns b (partialMatch b ns)"
  using partialMatch_fold[of ns 0 b] by (simp add: partialMatch_def)

lemma partialMatch_le: "[] \<notin> set ns \<Longrightarrow> partialMatch b ns \<le> length b"
  using partialMatch_partial[of ns b] by (auto simp: partial_def)

lemma partialMatch_eqI:
  assumes "[] \<notin> set ns" and "h = 0 \<or> partial ns b h" and "\<And>k. partial ns b k \<Longrightarrow> k \<le> h"
  shows "partialMatch b ns = h"
  using assms partialMatch_partial[of ns b] partialMatch_maximal[of ns b] by (metis le_0_eq le_antisym)

text \<open>
  A match that is not yet complete at the end of \<open>t\<close> starts in the held-back bytes, so the
  bytes before them are final.
\<close>

lemma occurs_at_appendI: "occurs_at n t s \<Longrightarrow> occurs_at n (t @ p) s"
  by (auto simp: occurs_at_iff_nth nth_append)

lemma occurs_at_append:
  assumes "occurs_at n (t @ p) s" and "n \<in> set ns" and "[] \<notin> set ns"
    and "s + partialMatch t ns < length t"
  shows "occurs_at n t s"
proof (rule ccontr)
  assume not_in: "\<not> occurs_at n t s"
  have o: "n \<noteq> []" "s + length n \<le> length (t @ p)" "\<forall>i < length n. n ! i = (t @ p) ! (s + i)"
    using assms(1) by (auto simp: occurs_at_iff_nth)
  have long: "length t < s + length n"
  proof (rule ccontr)
    assume "\<not> length t < s + length n"
    with o have "occurs_at n t s" by (auto simp: occurs_at_iff_nth nth_append)
    with not_in show False by blast
  qed
  let ?k = "length t - s"
  have "drop s t = take ?k n"
    by (rule nth_equalityI) (use o long in \<open>auto simp: nth_append\<close>)
  moreover have "length t - ?k = s"
    using assms(4) by simp
  ultimately have "partial ns t ?k"
    unfolding partial_def using long by (auto simp: take_is_prefix intro!: bexI[OF _ assms(2)])
  then have "?k \<le> partialMatch t ns"
    using assms(3) by (rule partialMatch_maximal[rotated])
  with assms(4) show False by simp
qed

lemma covered_append_final:
  assumes "[] \<notin> set ns" and "i + partialMatch t ns < length t"
  shows "covered ns (t @ p) i = covered ns t i"
proof
  assume "covered ns (t @ p) i"
  then obtain n s where ns: "n \<in> set ns" "s \<le> i" "occurs_at n (t @ p) s" "i < s + length n"
    by (auto simp: covered_def)
  have "s + partialMatch t ns < length t" using ns(2) assms(2) by simp
  with occurs_at_append[OF ns(3,1) assms(1)] ns show "covered ns t i"
    by (auto simp: covered_def)
next
  assume "covered ns t i"
  then show "covered ns (t @ p) i"
    unfolding covered_def using occurs_at_appendI by blast
qed


lemma partial_held:
  assumes "[] \<notin> set ns"
  shows "partial ns (drop (length t - partialMatch t ns) t @ p) k \<longleftrightarrow> partial ns (t @ p) k"
proof
  let ?h = "partialMatch t ns"
  have h: "?h \<le> length t" using partialMatch_le[OF assms] .
  have same: "drop (length (drop (length t - ?h) t @ p) - k) (drop (length t - ?h) t @ p)
      = drop (length (t @ p) - k) (t @ p)" if "k \<le> ?h + length p"
    using that h by (auto simp: not_le add.commute)
  {
    assume "partial ns (drop (length t - ?h) t @ p) k"
    with same h show "partial ns (t @ p) k" by (auto simp: partial_def)
  next
    assume P: "partial ns (t @ p) k"
    then obtain n where n: "n \<in> set ns" "k < length n" "prefix (drop (length (t @ p) - k) (t @ p)) n"
      and k: "k \<le> length (t @ p)"
      by (auto simp: partial_def)
    have "k \<le> ?h + length p"
    proof (cases "k \<le> length p")
      case False
      let ?j = "k - length p"
      have "drop (length (t @ p) - k) (t @ p) = drop (length t - ?j) t @ p"
        using False k by simp
      with n(3) have "prefix (drop (length t - ?j) t) n"
        by (simp add: append_prefixD)
      with n k False have "partial ns t ?j"
        by (auto simp: partial_def intro!: bexI[of _ n])
      then have "?j \<le> ?h" using assms by (rule partialMatch_maximal[rotated])
      then show ?thesis by simp
    qed simp
    with P same h show "partial ns (drop (length t - ?h) t @ p) k"
      by (auto simp: partial_def)
  }
qed

lemma partialMatch_held:
  assumes "[] \<notin> set ns"
  shows "partialMatch (drop (length t - partialMatch t ns) t @ p) ns = partialMatch (t @ p) ns"
  by (rule partialMatch_eqI[OF assms])
     (use partialMatch_partial[OF assms] partialMatch_maximal[OF assms] partial_held[OF assms] in blast)+

lemma covered_held:
  assumes "[] \<notin> set ns" and "base = length t - partialMatch t ns" and "i < length (t @ p) - base"
  shows "covered ns (t @ p) (base + i) \<longleftrightarrow>
     (i < partialMatch t ns \<and> covered ns t (base + i)) \<or> covered ns (drop base (t @ p)) i"
proof
  have h: "partialMatch t ns \<le> length t" using partialMatch_le[OF assms(1)] .
  assume "covered ns (t @ p) (base + i)"
  then obtain n s where ns: "n \<in> set ns" "s \<le> base + i" "occurs_at n (t @ p) s" "base + i < s + length n"
    by (auto simp: covered_def)
  show "(i < partialMatch t ns \<and> covered ns t (base + i)) \<or> covered ns (drop base (t @ p)) i"
  proof (cases "base \<le> s")
    case True
    then have "occurs_at n (drop base (t @ p)) (s - base)"
      using ns(3) drop_drop[of "s - base" base "t @ p"] by (simp add: occurs_at_def del: drop_append)
    moreover have "s - base \<le> i" "i < s - base + length n" using ns True by auto
    ultimately have "covered ns (drop base (t @ p)) i" using ns(1) by (auto simp: covered_def)
    then show ?thesis ..
  next
    case False
    then have "s + partialMatch t ns < length t" using assms(2) h by simp
    then have o: "occurs_at n t s"
      using occurs_at_append[OF ns(3,1) assms(1)] by blast
    then have "covered ns t (base + i)" using ns by (auto simp: covered_def)
    moreover from this have "i < partialMatch t ns" using covered_less assms(2) h by fastforce
    ultimately show ?thesis by blast
  qed
next
  assume "(i < partialMatch t ns \<and> covered ns t (base + i)) \<or> covered ns (drop base (t @ p)) i"
  then show "covered ns (t @ p) (base + i)"
  proof
    assume "i < partialMatch t ns \<and> covered ns t (base + i)"
    then show ?thesis unfolding covered_def using occurs_at_appendI by blast
  next
    assume "covered ns (drop base (t @ p)) i"
    then obtain n s where ns: "n \<in> set ns" "s \<le> i" "occurs_at n (drop base (t @ p)) s" "i < s + length n"
      by (auto simp: covered_def)
    then have "occurs_at n (t @ p) (base + s)"
      by (simp add: occurs_at_def add.commute del: drop_append)
    with ns show ?thesis unfolding covered_def by (intro bexI[of _ n] exI[of _ "base + s"]) auto
  qed
qed

text \<open>What is already sent stays the redaction of the longer text.\<close>

lemma redaction_final:
  assumes "[] \<notin> set ns" and "k \<le> length t - partialMatch t ns"
  shows "take k (redaction ns m (t @ p)) = take k (redaction ns m t)"
proof (rule nth_equalityI)
  fix i assume "i < length (take k (redaction ns m (t @ p)))"
  then have i: "i < k" by simp
  then have "i + partialMatch t ns < length t" "i < length t" using assms(2) by auto
  with i covered_append_final[OF assms(1), of i t p]
  show "take k (redaction ns m (t @ p)) ! i = take k (redaction ns m t) ! i"
    by (simp add: nth_append)
qed (use assms in simp)

section \<open>The stream\<close>

text \<open>
  After the text \<open>t\<close> has been written and \<open>out\<close> sent: the held-back bytes are the longest
  tail of \<open>t\<close> that may begin a match, their marks are those of the matches complete in
  \<open>t\<close>, and everything before them has been sent, redacted.
\<close>

definition synced :: "Writer \<Rightarrow> bytes \<Rightarrow> bytes \<Rightarrow> bool" where
  "synced w t out \<longleftrightarrow>
     [] \<notin> set (needles w) \<and>
     pending w = partialMatch t (needles w) \<and>
     take (pending w) (buf w) = drop (length t - pending w) t \<and>
     pending w \<le> length (masked w) \<and>
     (\<forall>j < pending w. masked w ! j = covered (needles w) t (length t - pending w + j)) \<and>
     out = take (length t - pending w) (redaction (needles w) (mask w) t)"

lemma synced_New: "synced (NewWriter ns) [] []"
proof -
  have "partialMatch [] (views ns) = 0"
    using partialMatch_le[of "views ns" "[]"] by simp
  then show ?thesis by (simp add: synced_def NewWriter_def)
qed

lemma sent_tail:
  assumes "base \<le> length T" and "b = drop base T" and "k \<le> length b" and "length ms = length b"
    and "\<And>i. i < length b \<Longrightarrow> ms ! i = covered ns T (base + i)"
    and "out = take base (redaction ns m T)"
  shows "out @ applyMask (take k b) ms m = take (base + k) (redaction ns m T)"
proof -
  have "applyMask (take k b) ms m = take k (drop base (redaction ns m T))"
  proof (rule nth_equalityI)
    show "length (applyMask (take k b) ms m) = length (take k (drop base (redaction ns m T)))"
      using assms(1-4) by simp
    fix i assume "i < length (applyMask (take k b) ms m)"
    then have i: "i < k" "i < length b" using assms(3,4) by auto
    then have "base + i < length T" using assms(2) by simp
    with i assms(2,4,5) show "applyMask (take k b) ms m ! i = take k (drop base (redaction ns m T)) ! i"
      by simp
  qed
  then show ?thesis
    by (simp add: assms(6) take_add)
qed


definition final_part :: "Writer \<Rightarrow> bytes \<Rightarrow> bytes" where
  "final_part w t = take (length t - partialMatch t (needles w)) (redaction (needles w) (mask w) t)"

text \<open>The branch that writes \<open>p\<close> itself: nothing held back and no needle in \<open>p\<close>.\<close>

lemma Write_synced_plain:
  assumes s: "synced w t out" and z: "pending w = 0" and nc: "\<not> containsAny p (needles w)"
    and hold: "hold = partialMatch p (needles w)"
  shows "out @ take (length p - hold) p = final_part w (t @ p)"
    and "synced (w\<lparr>buf := drop (length p - hold) p, masked := replicate hold False, pending := hold\<rparr>)
           (t @ p) (final_part w (t @ p))"
proof -
  let ?ns = "needles w"
  have ns: "[] \<notin> set ?ns" and h0: "partialMatch t ?ns = 0"
    and out: "out = take (length t) (redaction ?ns (mask w) t)"
    using s z by (auto simp: synced_def)
  have none: "\<not> covered ?ns p i" for i
    using nc by (intro not_contains_not_covered) (auto simp: containsAny_def list_ex_iff)
  have hold': "partialMatch (t @ p) ?ns = hold"
    using partialMatch_held[OF ns, of t p] h0 hold by simp
  have le: "hold \<le> length p" using partialMatch_le[OF ns] hold by simp
  have clean: "\<not> covered ?ns (t @ p) (length t + i)" if "i < length p" for i
    using covered_held[OF ns, of "length t" t i p] h0 that none by simp
  have red: "redaction ?ns (mask w) (t @ p) = redaction ?ns (mask w) t @ p"
  proof (rule nth_equalityI)
    fix i assume "i < length (redaction ?ns (mask w) (t @ p))"
    then have i: "i < length t + length p" by simp
    show "redaction ?ns (mask w) (t @ p) ! i = (redaction ?ns (mask w) t @ p) ! i"
    proof (cases "i < length t")
      case True
      with i covered_append_final[OF ns, of i t p] h0 show ?thesis by (simp add: nth_append)
    next
      case False
      with i clean[of "i - length t"] show ?thesis by (simp add: nth_append)
    qed
  qed simp
  show "out @ take (length p - hold) p = final_part w (t @ p)"
    using le by (simp add: final_part_def hold' red out)
  show "synced (w\<lparr>buf := drop (length p - hold) p, masked := replicate hold False, pending := hold\<rparr>)
      (t @ p) (final_part w (t @ p))"
    unfolding synced_def
  proof (intro conjI allI impI)
    fix j assume "j < pending (w\<lparr>buf := drop (length p - hold) p, masked := replicate hold False, pending := hold\<rparr>)"
    then have "j < hold" by simp
    with le clean[of "length p - hold + j"] show
      "masked (w\<lparr>buf := drop (length p - hold) p, masked := replicate hold False, pending := hold\<rparr>) ! j =
       covered (needles (w\<lparr>buf := drop (length p - hold) p, masked := replicate hold False, pending := hold\<rparr>))
         (t @ p) (length (t @ p) - pending (w\<lparr>buf := drop (length p - hold) p, masked := replicate hold False, pending := hold\<rparr>) + j)"
      by (simp add: add.assoc)
  qed (use ns le in \<open>auto simp: hold' final_part_def\<close>)
qed

text \<open>The branch that searches the held-back bytes and \<open>p\<close> together.\<close>

lemma Write_synced_marked:
  assumes s: "synced w t out" and b: "b = take (pending w) (buf w) @ p"
    and ms: "ms = markMatches b (needles w) (take (pending w) (masked w) @ replicate (length p) False)"
    and hold: "hold = partialMatch b (needles w)"
  shows "out @ applyMask (take (length b - hold) b) ms (mask w) = final_part w (t @ p)"
    and "synced (w\<lparr>buf := drop (length b - hold) b @ replicate k z,
                   masked := drop (length b - hold) ms @ ms', pending := hold\<rparr>)
           (t @ p) (final_part w (t @ p))"
proof -
  let ?ns = "needles w" and ?T = "t @ p"
  define base where "base = length t - pending w"
  have ns: "[] \<notin> set ?ns" and pw: "pending w = partialMatch t ?ns"
    and held: "take (pending w) (buf w) = drop base t"
    and fl: "\<And>j. j < pending w \<Longrightarrow> masked w ! j = covered ?ns t (base + j)"
    and out: "out = take base (redaction ?ns (mask w) t)" and ml: "pending w \<le> length (masked w)"
    using s by (auto simp: synced_def base_def)
  have pt: "pending w \<le> length t" using partialMatch_le[OF ns] pw by simp
  have base: "base + pending w = length t" using pt by (simp add: base_def)
  have bT: "b = drop base ?T" and lb: "length b = pending w + length p"
    using b held base by auto
  have hold': "partialMatch ?T ?ns = hold"
    using partialMatch_held[OF ns, of t p] pw hold b held base_def by simp
  have hb: "hold \<le> length b" using partialMatch_le[OF ns] hold by simp
  have lms: "length ms = length b" using ms lb ml by simp
  have flags: "ms ! i = covered ?ns ?T (base + i)" if "i < length b" for i
  proof -
    have "ms ! i \<longleftrightarrow> (take (pending w) (masked w) @ replicate (length p) False) ! i \<or> covered ?ns b i"
      unfolding ms using nth_markMatches[OF ns] that lb ml by simp
    also have "\<dots> \<longleftrightarrow> (i < pending w \<and> covered ?ns t (base + i)) \<or> covered ?ns b i"
      using fl that lb ml by (auto simp: nth_append)
    also have "\<dots> \<longleftrightarrow> covered ?ns ?T (base + i)"
      using covered_held[OF ns, of base t i p] that lb base bT pw base_def by simp
    finally show ?thesis .
  qed
  have outT: "out = take base (redaction ?ns (mask w) ?T)"
    using redaction_final[OF ns, of base t "mask w" p] pw out base_def by simp
  have len: "base + (length b - hold) = length ?T - hold"
    using lb base hb by simp
  show 1: "out @ applyMask (take (length b - hold) b) ms (mask w) = final_part w ?T"
    using sent_tail[OF _ bT _ lms flags outT, of "length b - hold"] base len
    by (simp add: final_part_def hold')
  have tl: "drop (length b - hold) b = drop (length ?T - hold) ?T"
    using len bT by (metis add.commute drop_drop)
  have fl': "ms ! (length b - hold + j) = covered ?ns ?T (length ?T - hold + j)" if "j < hold" for j
  proof -
    have "base + (length b - hold + j) = length ?T - hold + j" using len by simp
    with flags[of "length b - hold + j"] that hb show ?thesis by simp
  qed
  have "take hold (drop (length b - hold) b @ replicate k z) = drop (length b - hold) b"
    using hb by simp
  moreover have "hold \<le> length (drop (length b - hold) ms @ ms')"
    using hb lms by simp
  ultimately show "synced (w\<lparr>buf := drop (length b - hold) b @ replicate k z,
       masked := drop (length b - hold) ms @ ms', pending := hold\<rparr>) ?T (final_part w ?T)"
    using ns hb lms fl' unfolding synced_def final_part_def
    by (simp del: length_append take_append drop_append add: tl hold' nth_append)
qed

lemma Write_marked_eq:
  assumes "needles w \<noteq> []" and "\<not> (pending w = 0 \<and> \<not> containsAny p (needles w))"
    and "b = take (pending w) (buf w) @ p"
    and "ms = markMatches b (needles w) (take (pending w) (masked w) @ replicate (length p) False)"
    and "hold = partialMatch b (needles w)"
  shows "Writer_Write ok w p =
    (if \<not> ok then (Inl (), applyMask (take (length b - hold) b) ms (mask w),
       w\<lparr>buf := applyMask (take (length b - hold) b) ms (mask w) @ drop (length b - hold) b, masked := ms\<rparr>)
     else (Inr (length p), applyMask (take (length b - hold) b) ms (mask w),
       w\<lparr>buf := drop (length b - hold) b @ replicate (length b - hold) (CHR 0x00),
         masked := drop (length b - hold) ms @ drop hold ms, pending := hold\<rparr>))"
  unfolding Writer_Write_def Let_def if_not_P[OF assms(1)] if_not_P[OF assms(2)] assms(3-5)
  by (rule refl)

lemma Write_synced:
  assumes "synced w t out" and "Writer_Write ok w p = (res, sent, w')"
  shows "out @ sent = final_part w (t @ p)"
    and "ok \<Longrightarrow> res = Inr (length p) \<and> synced w' (t @ p) (out @ sent)"
    and "\<not> ok \<Longrightarrow> res = Inl ()"
    and "needles w' = needles w \<and> mask w' = mask w"
proof -
  have 0: "partialMatch b [] = 0" for b by (simp add: partialMatch_def)
  have nil: "redaction [] m b = b" for m b by (rule redaction_id) (simp add: covered_def)
  note plain = Write_synced_plain[OF assms(1) _ _ refl]
  note W = assms(2)[unfolded Writer_Write_def Let_def]
  have all: "out @ sent = final_part w (t @ p) \<and>
      (if ok then res = Inr (length p) \<and> synced w' (t @ p) (final_part w (t @ p)) else res = Inl ()) \<and>
      needles w' = needles w \<and> mask w' = mask w"
  proof (cases "needles w = []")
    case True
    with W assms(1) show ?thesis by (auto simp: 0 nil synced_def final_part_def)
  next
    case n: False
    show ?thesis
    proof (cases "pending w = 0 \<and> \<not> containsAny p (needles w)")
      case True
      with plain W[unfolded if_not_P[OF n] if_P[OF True]] show ?thesis by (cases ok) auto
    next
      case False
      define b ms hold where "b = take (pending w) (buf w) @ p"
        and "ms = markMatches b (needles w) (take (pending w) (masked w) @ replicate (length p) False)"
        and "hold = partialMatch b (needles w)"
      note marked = Write_synced_marked[OF assms(1) b_def ms_def hold_def]
      show ?thesis
        using assms(2) marked unfolding Write_marked_eq[OF n False b_def ms_def hold_def]
        by (cases ok) auto
    qed
  qed
  then show "out @ sent = final_part w (t @ p)"
    and "ok \<Longrightarrow> res = Inr (length p) \<and> synced w' (t @ p) (out @ sent)"
    and "\<not> ok \<Longrightarrow> res = Inl ()" and "needles w' = needles w \<and> mask w' = mask w"
    by auto
qed


text \<open>A whole run of writes from a synced writer.\<close>

lemma Writer_run_synced:
  assumes "synced w t out" and "Writer_run w ops = (sent, w')"
  shows "prefix (out @ sent) (redaction (needles w) (mask w) (t @ concat (map snd ops)))"
    and "list_all fst ops \<Longrightarrow> synced w' (t @ concat (map snd ops)) (out @ sent)"
    and "needles w' = needles w \<and> mask w' = mask w"
  using assms
proof (induction ops arbitrary: w t out sent)
  case Nil
  {
    case 1
    then show ?case by (auto simp: synced_def take_is_prefix)
  next
    case 2
    then show ?case by simp
  next
    case 3
    then show ?case by simp
  }
next
  case (Cons a ops)
  obtain ok p where a: "a = (ok, p)" by fastforce
  note W = Write_synced
  {
    case 1
    obtain res s1 w1 where w1: "Writer_Write ok w p = (res, s1, w1)" by (cases "Writer_Write ok w p")
    note S = Write_synced[OF \<open>synced w t out\<close> w1]
    have ns: "[] \<notin> set (needles w)" using 1 by (simp add: synced_def)
    show ?case
    proof (cases ok)
      case False
      with S(3) 1(2) a w1 have "sent = s1" by auto
      then have "out @ sent = take (length (t @ p) - partialMatch (t @ p) (needles w))
          (redaction (needles w) (mask w) ((t @ p) @ concat (map snd ops)))"
        using S(1) redaction_final[OF ns order_refl, of "t @ p" "mask w" "concat (map snd ops)"]
        by (simp add: final_part_def del: append_assoc length_append)
      then show ?thesis by (simp add: a take_is_prefix)
    next
      case True
      with S(2) 1(2) a w1 obtain s2 where s2: "Writer_run w1 ops = (s2, w')" "sent = s1 @ s2"
        by (auto split: prod.splits)
      from Cons.IH(1)[OF conjunct2[OF S(2)[OF True]] s2(1)] S(4) s2(2) show ?thesis by (simp add: a)
    qed
  next
    case 2
    obtain res s1 w1 where w1: "Writer_Write ok w p = (res, s1, w1)" by (cases "Writer_Write ok w p")
    from 2 a have ok: ok "list_all fst ops" by auto
    note S = Write_synced(2)[OF \<open>synced w t out\<close> w1 ok(1)]
    from S 2(3) a w1 obtain s2 where s2: "Writer_run w1 ops = (s2, w')" "sent = s1 @ s2"
      by (auto split: prod.splits)
    from Cons.IH(2)[OF ok(2) conjunct2[OF S] s2(1)] s2(2) show ?case by (simp add: a)
  next
    case 3
    obtain res s1 w1 where w1: "Writer_Write ok w p = (res, s1, w1)" by (cases "Writer_Write ok w p")
    note S = Write_synced[OF \<open>synced w t out\<close> w1]
    show ?case
    proof (cases ok)
      case False
      with S(3,4) 3(2) a w1 show ?thesis by auto
    next
      case True
      with S(2) 3(2) a w1 obtain s2 where s2: "Writer_run w1 ops = (s2, w')"
        by (auto split: prod.splits)
      from Cons.IH(3)[OF conjunct2[OF S(2)[OF True]] s2] S(4) show ?thesis by simp
    qed
  }
qed

lemma Close_synced:
  assumes "synced w t out" and "Writer_Close ok w = (res, sent, w')"
  shows "out @ sent = redaction (needles w) (mask w) t"
proof (cases "pending w = 0")
  case True
  with assms show ?thesis by (simp add: synced_def Writer_Close_def)
next
  case False
  define base where "base = length t - pending w"
  define b where "b = take (pending w) (buf w)"
  have ns: "[] \<notin> set (needles w)" and pt: "pending w = partialMatch t (needles w)"
    and b: "b = drop base t" and ml: "pending w \<le> length (masked w)"
    and fl: "\<And>j. j < pending w \<Longrightarrow> masked w ! j = covered (needles w) t (base + j)"
    and out: "out = take base (redaction (needles w) (mask w) t)"
    using assms(1) by (auto simp: synced_def base_def b_def)
  have pw: "pending w \<le> length t" using partialMatch_le[OF ns] pt by simp
  then have lb: "length b = pending w" using b by (simp add: base_def)
  have sent: "sent = applyMask b (masked w) (mask w)"
    using False assms(2) by (simp add: Writer_Close_def Let_def b_def)
  have "sent = drop base (redaction (needles w) (mask w) t)"
  proof (rule nth_equalityI)
    show "length sent = length (drop base (redaction (needles w) (mask w) t))"
      using sent lb ml pw by (simp add: base_def)
    fix i assume "i < length sent"
    then have i: "i < pending w" using sent lb by simp
    then have "base + i < length t" using pw by (simp add: base_def)
    with i sent lb ml fl b show "sent ! i = drop base (redaction (needles w) (mask w) t) ! i"
      by simp
  qed
  with out show ?thesis by simp
qed

text \<open>Writing every chunk, then closing.\<close>

definition redact_stream :: "bytes list \<Rightarrow> bytes list \<Rightarrow> bytes" where
  "redact_stream ns chunks =
     (let (out, w) = Writer_run (NewWriter ns) (map (Pair True) chunks);
          (_, rest, _) = Writer_Close True w
      in out @ rest)"

lemma snd_comp_Pair [simp]: "snd \<circ> Pair x = id"
  by auto

lemma NewWriter_fields [simp]:
  "needles (NewWriter ns) = views ns" "mask (NewWriter ns) = maskFor ns"
  by (simp_all add: NewWriter_def)

lemma redact_stream_redaction: "redact_stream ns chunks = redaction ns (maskFor ns) (concat chunks)"
proof -
  obtain out w where run: "Writer_run (NewWriter ns) (map (Pair True) chunks) = (out, w)"
    by fastforce
  obtain res rest w' where cl: "Writer_Close True w = (res, rest, w')"
    by (cases "Writer_Close True w")
  have "list_all fst (map (Pair True) chunks)" by (simp add: list_all_iff)
  from Writer_run_synced(2)[OF synced_New run this] have "synced w (concat chunks) out" by simp
  from Close_synced[OF this cl] Writer_run_synced(3)[OF synced_New run] run cl show ?thesis
    by (simp add: redact_stream_def)
qed

text \<open>A mask byte outside every needle cannot take part in a new match.\<close>

lemma redaction_no_needle:
  assumes "n \<in> set ns" and "n \<noteq> []" and "m \<notin> set n"
  shows "\<not> contains (redaction ns m b) n"
proof
  assume "contains (redaction ns m b) n"
  then obtain s where o: "occurs_at n (redaction ns m b) s"
    using contains_occurs[OF assms(2)] by blast
  then have le: "s + length n \<le> length b"
    and eq: "\<forall>i < length n. n ! i = redaction ns m b ! (s + i)"
    by (auto simp: occurs_at_iff_nth)
  have plain: "\<not> covered ns b (s + i) \<and> n ! i = b ! (s + i)" if "i < length n" for i
  proof -
    have "n ! i \<noteq> m" using assms(3) that nth_mem by metis
    with eq le that show ?thesis by (auto split: if_splits)
  qed
  then have "occurs_at n b s" using assms(2) le by (simp add: occurs_at_iff_nth)
  then have "covered ns b (s + 0)" using assms(1,2) by (auto simp: covered_def intro!: bexI[of _ n] exI[of _ s])
  with plain[of 0] assms(2) show False by simp
qed

lemma maskFor_fresh:
  assumes "c \<in> set maskBytes" and "\<And>n. n \<in> set ns \<Longrightarrow> c \<notin> set n" and "n \<in> set ns"
  shows "maskFor ns \<notin> set n"
proof (cases "find (\<lambda>c. \<not> list_ex (\<lambda>n. c \<in> set n) ns) maskBytes")
  case None
  then have "list_ex (\<lambda>n. c \<in> set n) ns"
    using assms(1) by (simp add: find_None_iff)
  with assms(2) show ?thesis by (auto simp: list_ex_iff)
next
  case (Some d)
  then have "\<not> list_ex (\<lambda>n. d \<in> set n) ns"
    by (auto simp: find_Some_iff)
  with Some assms(3) show ?thesis by (auto simp: maskFor_def list_ex_iff)
qed

lemma contains_prefix: "prefix a b \<Longrightarrow> contains a n \<Longrightarrow> contains b n"
  by (auto simp: contains_iff_sublist prefix_def sublist_def) (metis append.assoc)

section \<open>Properties\<close>

text \<open>
  C4: however a response body is cut into writes, the bytes the Agent receives after \<open>Close\<close>
  are those \<open>redact.String\<close> gives for the whole body: matches that span writes are masked,
  and nothing else changes.
\<close>

theorem stream_equals_String:
  "redact_stream ns chunks = redact_String (concat chunks) ns"
  by (simp add: redact_stream_redaction String_redaction)

text \<open>
  At every moment, also when the Agent's connection fails part way, what has been sent
  holds no needle, provided one of the mask bytes occurs in no needle.
\<close>

theorem stream_never_leaks:
  assumes "n \<in> set ns" and "n \<noteq> []"
    and "c \<in> set maskBytes" and "\<forall>k\<in>set ns. c \<notin> set k"
  shows "\<not> contains (fst (Writer_run (NewWriter ns) ops)) n"
proof -
  obtain sent w' where run: "Writer_run (NewWriter ns) ops = (sent, w')" by fastforce
  have "prefix sent (redaction ns (maskFor ns) (concat (map snd ops)))"
    using Writer_run_synced(1)[OF synced_New run] by simp
  moreover have "\<not> contains (redaction ns (maskFor ns) (concat (map snd ops))) n"
    using redaction_no_needle[OF assms(1,2)] maskFor_fresh[OF assms(3) _ assms(1)] assms(4) by blast
  ultimately show ?thesis using contains_prefix run by auto
qed

theorem stream_never_leaks_witness:
  "\<not> contains (fst (Writer_run (NewWriter [''sk-1'']) [(True, ''a sk''), (True, ''-1 b''), (False, ''sk-1'')])) ''sk-1''"
  by (rule stream_never_leaks[where c = "CHR ''*''"]) (simp_all add: maskBytes_def)

text \<open>
  The writer delays a stream by less than the longest needle: after any successful
  writes, what is not yet sent is shorter than some needle, and nothing is lost or added.
\<close>

theorem stream_delay_bound:
  assumes "Writer_run (NewWriter ns) (map (Pair True) chunks) = (sent, w)"
  shows "length sent + pending w = length (concat chunks) \<and>
    (pending w = 0 \<or> (\<exists>n\<in>set ns. pending w < length n))"
proof -
  have "list_all fst (map (Pair True) chunks)" by (simp add: list_all_iff)
  from Writer_run_synced(2)[OF synced_New assms this] Writer_run_synced(3)[OF synced_New assms]
  have s: "synced w (concat chunks) sent" and n: "needles w = views ns" by auto
  have ne: "[] \<notin> set (needles w)" using n by simp
  have "partialMatch (concat chunks) (needles w) \<le> length (concat chunks)"
    using partialMatch_le[OF ne] .
  with s partialMatch_partial[OF ne, of "concat chunks"] n show ?thesis
    by (auto simp: synced_def partial_def views_def min_def)
qed

theorem stream_delay_bound_witness:
  "let (sent, w) = Writer_run (NewWriter [''sec'']) (map (Pair True) [''a'', ''bse''])
   in length sent + pending w = 4 \<and> (pending w = 0 \<or> (\<exists>n\<in>set [''sec'']. pending w < length n))"
  using stream_delay_bound[OF surjective_pairing, of "[''sec'']" "[''a'', ''bse'']"]
  by (simp add: case_prod_unfold del: Writer_run.simps list.map)

text \<open>
  Redaction keeps lengths, so a \<open>Content-Length\<close> stays true, and a body without the
  Secret passes through byte for byte.
\<close>

theorem stream_transparent:
  "length (redact_stream ns chunks) = length (concat chunks) \<and>
   (list_ex (\<lambda>n. n \<noteq> [] \<and> contains (concat chunks) n) ns \<or> redact_stream ns chunks = concat chunks)"
proof (cases "list_ex (\<lambda>n. n \<noteq> [] \<and> contains (concat chunks) n) ns")
  case True
  then show ?thesis by (simp add: redact_stream_redaction)
next
  case False
  then have "redact_String (concat chunks) ns = concat chunks" by (simp add: redact_String_def)
  then have "redact_stream ns chunks = concat chunks"
    by (simp add: redact_stream_redaction String_redaction)
  then show ?thesis by simp
qed

end
