(* ===== verification/Go_Encoding.thy ===== *)
theory Go_Encoding
  imports Go_Strings
begin

text \<open>
  The encoders of Go's standard library the program hashes, signs, stores or sends with:
  \<open>encoding/hex\<close>, \<open>encoding/base32\<close>, \<open>encoding/base64\<close>, the escapes of \<open>net/url\<close>, the
  strings of \<open>encoding/json\<close>, decimal numbers and big-endian words, with their round trips.
  Those that are read back from the front of an input are interpretations of \<open>codec\<close>.
\<close>

unbundle bit_operations_syntax

section \<open>Hexadecimal digits\<close>

definition hexdigit :: "nat \<Rightarrow> char" where
  "hexdigit n = char_of (if n < 10 then 48 + n else 87 + n)"

definition hexdigit_upper :: "nat \<Rightarrow> char" where
  "hexdigit_upper n = char_of (if n < 10 then 48 + n else 55 + n)"

definition ishex :: "char \<Rightarrow> bool" where
  "ishex c \<longleftrightarrow> (48 \<le> byte c \<and> byte c \<le> 57) \<or> (97 \<le> byte c \<and> byte c \<le> 102)
     \<or> (65 \<le> byte c \<and> byte c \<le> 70)"

definition unhex :: "char \<Rightarrow> nat" where
  "unhex c = (if 48 \<le> byte c \<and> byte c \<le> 57 then byte c - 48
     else if 97 \<le> byte c \<and> byte c \<le> 102 then byte c - 87 else byte c - 55)"

lemma byte_lt [simp]: "byte c < 256"
  by (simp add: of_char_def char.split_sel)

lemma byte_char_of [simp]: "n < 256 \<Longrightarrow> byte (char_of n) = n"
  by simp

lemma char_of_eq_iff: "n < 256 \<Longrightarrow> char_of n = c \<longleftrightarrow> n = byte c"
  by auto

lemma char_of_numeral_eq: "(numeral k :: nat) < 256 \<Longrightarrow> char_of (numeral k :: nat) = c \<longleftrightarrow> numeral k = byte c"
  by (rule char_of_eq_iff)

lemma unhex_hexdigit [simp]: "n < 16 \<Longrightarrow> unhex (hexdigit n) = n \<and> ishex (hexdigit n)"
  by (auto simp: hexdigit_def unhex_def ishex_def)

lemma unhex_hexdigit_upper [simp]:
  "n < 16 \<Longrightarrow> unhex (hexdigit_upper n) = n \<and> ishex (hexdigit_upper n)"
  by (auto simp: hexdigit_upper_def unhex_def ishex_def)

text \<open>\<open>hex.EncodeToString\<close>.\<close>

definition hex_encode :: "bytes \<Rightarrow> string" where
  "hex_encode b = concat (map (\<lambda>c. [hexdigit (byte c div 16), hexdigit (byte c mod 16)]) b)"

fun hex_decode :: "string \<Rightarrow> bytes option" where
  "hex_decode [] = Some []"
| "hex_decode [c] = None"
| "hex_decode (a # b # r) =
     (if ishex a \<and> ishex b then map_option (Cons (char_of (16 * unhex a + unhex b))) (hex_decode r)
      else None)"

lemma hex_decode_encode: "hex_decode (hex_encode b) = Some b"
proof (induction b)
  case Nil
  then show ?case by (simp add: hex_encode_def)
next
  case (Cons c b)
  have d: "byte c div 16 < 16" using byte_lt[of c] by linarith
  have m: "byte c mod 16 < 16" by simp
  have "hex_encode (c # b) = hexdigit (byte c div 16) # hexdigit (byte c mod 16) # hex_encode b"
    by (simp add: hex_encode_def)
  with Cons d m show ?case by simp
qed

lemma hex_encode_inject: "hex_encode a = hex_encode b \<longleftrightarrow> a = b"
  by (metis hex_decode_encode option.inject)

lemma length_hex_encode [simp]: "length (hex_encode b) = 2 * length b"
  by (induction b) (auto simp: hex_encode_def)

section \<open>Package net/url\<close>

text \<open>
  \<open>url.PathUnescape\<close> (\<open>pl\<close> false) and \<open>url.QueryUnescape\<close> (\<open>pl\<close> true): \<open>None\<close> for an
  invalid escape anywhere.
\<close>

fun unescape :: "bool \<Rightarrow> string \<Rightarrow> string option" where
  "unescape pl [] = Some []"
| "unescape pl (c # r) =
     (if c = CHR ''%'' then
        (case r of a # b # r' \<Rightarrow>
           if ishex a \<and> ishex b
           then map_option (Cons (char_of (16 * unhex a + unhex b))) (unescape pl r')
           else None
         | _ \<Rightarrow> None)
      else map_option (Cons (if pl \<and> c = CHR ''+'' then CHR '' '' else c)) (unescape pl r))"

abbreviation pathUnescape :: "string \<Rightarrow> string option" where
  "pathUnescape \<equiv> unescape False"

abbreviation queryUnescape :: "string \<Rightarrow> string option" where
  "queryUnescape \<equiv> unescape True"

definition unreserved :: "char \<Rightarrow> bool" where
  "unreserved c \<longleftrightarrow> (65 \<le> byte c \<and> byte c \<le> 90) \<or> (97 \<le> byte c \<and> byte c \<le> 122)
     \<or> (48 \<le> byte c \<and> byte c \<le> 57) \<or> c \<in> set ''-_.~''"

definition escape_byte :: "char \<Rightarrow> string" where
  "escape_byte c = [CHR ''%'', hexdigit_upper (byte c div 16), hexdigit_upper (byte c mod 16)]"

text \<open>\<open>url.QueryEscape\<close>.\<close>

definition queryEscape :: "string \<Rightarrow> string" where
  "queryEscape s = concat (map (\<lambda>c.
     if unreserved c then [c] else if c = CHR '' '' then ''+'' else escape_byte c) s)"

lemma unreserved_not [simp]: "unreserved c \<Longrightarrow> c \<noteq> CHR ''%'' \<and> c \<noteq> CHR ''+'' \<and> c \<noteq> CHR ''&''"
  by (auto simp: unreserved_def)

lemma unescape_escape_byte [simp]:
  "unescape pl (escape_byte c @ r) = map_option (Cons c) (unescape pl r)"
proof -
  have "byte c div 16 < 16" using byte_lt[of c] by linarith
  then show ?thesis by (simp add: escape_byte_def)
qed

lemma queryUnescape_queryEscape: "queryUnescape (queryEscape s) = Some s"
proof (induction s)
  case Nil
  then show ?case by (simp add: queryEscape_def)
next
  case (Cons c s)
  have "queryEscape (c # s)
      = (if unreserved c then [c] else if c = CHR '' '' then ''+'' else escape_byte c) @ queryEscape s"
    by (simp add: queryEscape_def)
  with Cons show ?case by (auto simp del: unescape.simps(2) simp: unescape.simps(2)[of True _ "queryEscape s"])
qed

lemma unescape_plain: "CHR ''%'' \<notin> set s \<Longrightarrow> pathUnescape s = Some s"
  by (induction s) auto

lemma unescape_append:
  "unescape p a = Some x \<Longrightarrow> unescape p (a @ b) = map_option ((@) x) (unescape p b)"
proof (induction p a arbitrary: x rule: unescape.induct)
  case (1 pl)
  then show ?case by (cases "unescape pl b") auto
next
  case (2 pl c r)
  show ?case
  proof (cases "c = CHR ''%''")
    case True
    with "2.prems" obtain h l r' y where r: "r = h # l # r'" "ishex h \<and> ishex l"
      "unescape pl r' = Some y" "x = char_of (16 * unhex h + unhex l) # y"
      by (auto split: list.splits if_splits)
    from "2.IH"(1)[OF True r(1) refl r(2,3)] r True show ?thesis
      by (cases "unescape pl b") auto
  next
    case False
    with "2.prems" obtain y where y: "unescape pl r = Some y"
      "x = (if pl \<and> c = CHR ''+'' then CHR '' '' else c) # y" by auto
    from "2.IH"(2)[OF False y(1)] y False show ?thesis
      by (cases "unescape pl b") auto
  qed
qed

section \<open>Package encoding/base32\<close>

text \<open>
  Bits of a number, most significant first, and the digits of an unpadded encoding: the
  input's bits in groups of \<open>k\<close>, the last group filled with zeros.
\<close>

fun bits :: "nat \<Rightarrow> nat \<Rightarrow> bool list" where
  "bits 0 n = []"
| "bits (Suc w) n = odd (n div 2 ^ w) # bits w n"

definition unbits :: "bool list \<Rightarrow> nat" where
  "unbits bs = foldl (\<lambda>n b. 2 * n + of_bool b) 0 bs"

fun groups :: "nat \<Rightarrow> bool list \<Rightarrow> bool list list" where
  "groups 0 bs = []"
| "groups (Suc k) [] = []"
| "groups (Suc k) (b # bs) =
     (let g = take (Suc k) (b # bs)
      in (g @ replicate (Suc k - length g) False) # groups (Suc k) (drop (Suc k) (b # bs)))"

definition base32_alphabet :: string where
  "base32_alphabet = ''abcdefghijklmnopqrstuvwxyz234567''"

text \<open>\<open>strings.ToLower(encoding.EncodeToString(b))\<close> with \<open>base32.NoPadding\<close>.\<close>

definition base32_lower :: "bytes \<Rightarrow> string" where
  "base32_lower b = map (\<lambda>g. base32_alphabet ! unbits g) (groups 5 (concat (map (bits 8 \<circ> of_char) b)))"

lemma length_bits [simp]: "length (bits w n) = w"
  by (induction w) auto

lemma unbits_bound: "unbits bs < 2 ^ length bs"
proof -
  have "foldl (\<lambda>n b. 2 * n + of_bool b) a bs < (a + 1) * 2 ^ length bs" for a :: nat
  proof (induction bs arbitrary: a)
    case Nil
    then show ?case by simp
  next
    case (Cons b bs)
    have "(2 * a + of_bool b + 1) * 2 ^ length bs \<le> (a + 1) * 2 ^ length (b # bs)"
      by (cases b) (simp_all add: algebra_simps)
    with Cons[of "2 * a + of_bool b"] show ?case by simp
  qed
  from this[of 0] show ?thesis by (simp add: unbits_def)
qed

lemma groups_width: "g \<in> set (groups k bs) \<Longrightarrow> length g = k"
  by (induction k bs rule: groups.induct) (auto simp: Let_def)

lemma groups_length: "0 < k \<Longrightarrow> length (groups k bs) = (length bs + k - 1) div k"
proof (induction k bs rule: groups.induct)
  case (3 k b bs)
  have d: "(length bs + Suc k) div Suc k = Suc (length bs div Suc k)"
    using div_add_self2[of "Suc k" "length bs"] by linarith
  have "length (groups (Suc k) (drop k bs)) = (length bs - k + k) div Suc k"
    using 3 by (simp add: Let_def)
  also have "\<dots> = length bs div Suc k"
    by (cases "k \<le> length bs") simp_all
  finally show ?case using d by (simp add: Let_def)
qed auto

lemma base32_alphabet_props: "distinct base32_alphabet" "length base32_alphabet = 32"
  by (simp_all add: base32_alphabet_def)

lemma length_base32_lower: "length (base32_lower b) = (8 * length b + 4) div 5"
proof -
  have "length (concat (map (bits 8 \<circ> of_char) b)) = 8 * length b"
    by (induction b) auto
  then show ?thesis by (simp add: base32_lower_def groups_length)
qed

lemma base32_lower_chars: "set (base32_lower b) \<subseteq> set base32_alphabet"
proof -
  have "unbits g < length base32_alphabet" if "g \<in> set (groups 5 bs)" for g bs
    using unbits_bound[of g] groups_width[OF that] by (simp add: base32_alphabet_props)
  then show ?thesis by (force simp: base32_lower_def)
qed

section \<open>Package encoding/base64\<close>

definition b64 :: "nat \<Rightarrow> char" where
  "b64 n = char_of (if n < 26 then 65 + n else if n < 52 then 71 + n
     else if n < 62 then n - 4 else if n = 62 then 43 else 47)"

text \<open>\<open>base64.StdEncoding.EncodeToString\<close>.\<close>

fun base64_encode :: "bytes \<Rightarrow> string" where
  "base64_encode [] = []"
| "base64_encode [a] = [b64 (byte a div 4), b64 (byte a mod 4 * 16), CHR ''='', CHR ''='']"
| "base64_encode [a, b] =
     [b64 (byte a div 4), b64 (byte a mod 4 * 16 + byte b div 16), b64 (byte b mod 16 * 4), CHR ''='']"
| "base64_encode (a # b # c # r) =
     b64 (byte a div 4) # b64 (byte a mod 4 * 16 + byte b div 16)
     # b64 (byte b mod 16 * 4 + byte c div 64) # b64 (byte c mod 64) # base64_encode r"

definition b64_value :: "char \<Rightarrow> nat option" where
  "b64_value c = (let n = byte c in
     if 65 \<le> n \<and> n \<le> 90 then Some (n - 65)
     else if 97 \<le> n \<and> n \<le> 122 then Some (n - 71)
     else if 48 \<le> n \<and> n \<le> 57 then Some (n + 4)
     else if n = 43 then Some 62 else if n = 47 then Some 63 else None)"

text \<open>
  \<open>base64.StdEncoding.DecodeString\<close>: line breaks are skipped, padding is required and
  ends the input; bits left over before padding are ignored.
\<close>

fun base64_quanta :: "string \<Rightarrow> bytes option" where
  "base64_quanta [] = Some []"
| "base64_quanta (a # b # c # d # r) =
     (case (b64_value a, b64_value b) of
        (Some x, Some y) \<Rightarrow>
          (if c = CHR ''='' then
             (if d = CHR ''='' \<and> r = [] then Some [char_of (x * 4 + y div 16)] else None)
           else (case b64_value c of
              None \<Rightarrow> None
            | Some z \<Rightarrow>
                (if d = CHR ''='' then
                   (if r = [] then Some [char_of (x * 4 + y div 16), char_of (y mod 16 * 16 + z div 4)]
                    else None)
                 else (case b64_value d of
                    None \<Rightarrow> None
                  | Some w \<Rightarrow>
                      map_option (\<lambda>t. char_of (x * 4 + y div 16) # char_of (y mod 16 * 16 + z div 4)
                                      # char_of (z mod 4 * 64 + w) # t)
                        (base64_quanta r)))))
      | _ \<Rightarrow> None)"
| "base64_quanta _ = None"

definition base64_decode :: "string \<Rightarrow> bytes option" where
  "base64_decode s = base64_quanta (filter (\<lambda>c. byte c \<noteq> 10 \<and> byte c \<noteq> 13) s)"

lemma b64_props: "n < 64 \<Longrightarrow> b64_value (b64 n) = Some n \<and> b64 n \<noteq> CHR ''=''
    \<and> byte (b64 n) \<noteq> 10 \<and> byte (b64 n) \<noteq> 13"
proof -
  assume n: "n < 64"
  then have "byte (b64 n) = (if n < 26 then 65 + n else if n < 52 then 71 + n
     else if n < 62 then n - 4 else if n = 62 then 43 else 47)"
    by (simp add: b64_def)
  moreover from this n have "byte (b64 n) \<noteq> byte (CHR ''='')" by auto
  ultimately show ?thesis using n by (auto simp: b64_value_def Let_def)
qed

lemma b64_digits:
  fixes a b c :: nat
  assumes "a < 256" and "b < 256" and "c < 256"
  shows "a div 4 < 64" "a mod 4 * 16 + b div 16 < 64" "b mod 16 * 4 + c div 64 < 64"
    "a mod 4 * 16 < 64" "b mod 16 * 4 < 64" "c mod 64 < 64"
    "a div 4 * 4 + (a mod 4 * 16 + b div 16) div 16 = a"
    "a div 4 * 4 + (a mod 4 * 16) div 16 = a"
    "(a mod 4 * 16 + b div 16) mod 16 * 16 + (b mod 16 * 4 + c div 64) div 4 = b"
    "(a mod 4 * 16 + b div 16) mod 16 * 16 + (b mod 16 * 4) div 4 = b"
    "(b mod 16 * 4 + c div 64) mod 4 * 64 + c mod 64 = c"
proof -
  have q: "b div 16 < 16" "c div 64 < 4" using assms by auto
  then have e: "(a mod 4 * 16 + b div 16) div 16 = a mod 4" "(a mod 4 * 16 + b div 16) mod 16 = b div 16"
    "(b mod 16 * 4 + c div 64) div 4 = b mod 16" "(b mod 16 * 4 + c div 64) mod 4 = c div 64"
    by simp_all
  have "a mod 4 < 4" "b mod 16 < 16" by simp_all
  with q assms show "a div 4 < 64" "a mod 4 * 16 + b div 16 < 64" "b mod 16 * 4 + c div 64 < 64"
    "a mod 4 * 16 < 64" "b mod 16 * 4 < 64" "c mod 64 < 64"
    by linarith+
  show "a div 4 * 4 + (a mod 4 * 16 + b div 16) div 16 = a"
    "a div 4 * 4 + (a mod 4 * 16) div 16 = a"
    "(a mod 4 * 16 + b div 16) mod 16 * 16 + (b mod 16 * 4 + c div 64) div 4 = b"
    "(a mod 4 * 16 + b div 16) mod 16 * 16 + (b mod 16 * 4) div 4 = b"
    "(b mod 16 * 4 + c div 64) mod 4 * 64 + c mod 64 = c"
    unfolding e by simp_all
qed

lemma base64_quanta_encode: "base64_quanta (base64_encode b) = Some b"
proof (induction b rule: base64_encode.induct)
  case (2 a)
  show ?case using b64_digits[of "byte a" 0 0] b64_props by simp
next
  case (3 a b)
  show ?case using b64_digits[of "byte a" "byte b" 0] b64_props by simp
next
  case (4 a b c r)
  show ?case using 4 b64_digits[of "byte a" "byte b" "byte c"] b64_props by simp
qed simp

lemma base64_encode_no_newline:
  "x \<in> set (base64_encode b) \<Longrightarrow> byte x \<noteq> 10 \<and> byte x \<noteq> 13"
proof (induction b rule: base64_encode.induct)
  case (2 a)
  then show ?case using b64_digits[of "byte a" 0 0] b64_props by auto
next
  case (3 a b)
  then show ?case using b64_digits[of "byte a" "byte b" 0] b64_props by auto
next
  case (4 a b c r)
  then show ?case using b64_digits[of "byte a" "byte b" "byte c"] b64_props by auto
qed simp

lemma base64_decode_encode [codec_rules]: "base64_decode (base64_encode b) = Some b"
proof -
  have "filter (\<lambda>c. byte c \<noteq> 10 \<and> byte c \<noteq> 13) (base64_encode b) = base64_encode b"
    using base64_encode_no_newline by (simp add: filter_id_conv)
  then show ?thesis by (simp add: base64_decode_def base64_quanta_encode)
qed

section \<open>Decimal numbers and big-endian words\<close>

fun decimal :: "nat \<Rightarrow> string" where
  "decimal n = (if n < 10 then [char_of (48 + n)] else decimal (n div 10) @ [char_of (48 + n mod 10)])"

declare decimal.simps [simp del]

definition decimal_int :: "int \<Rightarrow> string" where
  "decimal_int i = (if i < 0 then CHR ''-'' # decimal (nat (- i)) else decimal (nat i))"

definition isDigit :: "char \<Rightarrow> bool" where
  "isDigit c \<longleftrightarrow> 48 \<le> byte c \<and> byte c \<le> 57"

definition undecimal :: "string \<Rightarrow> nat" where
  "undecimal s = foldl (\<lambda>a c. 10 * a + (byte c - 48)) 0 s"

lemma undecimal_decimal [simp]: "undecimal (decimal n) = n"
proof (induction n rule: decimal.induct)
  case (1 n)
  show ?case
  proof (cases "n < 10")
    case True
    then show ?thesis by (simp add: decimal.simps[of n] undecimal_def)
  next
    case False
    have "undecimal (s @ [c]) = 10 * undecimal s + (byte c - 48)" for s c
      by (simp add: undecimal_def)
    with False 1 show ?thesis by (simp add: decimal.simps[of n])
  qed
qed

lemma decimal_digits: "c \<in> set (decimal n) \<Longrightarrow> isDigit c"
proof (induction n rule: decimal.induct)
  case (1 n)
  then show ?case by (cases "n < 10") (auto simp: decimal.simps[of n] isDigit_def)
qed

lemma decimal_nonempty [simp]: "decimal n \<noteq> []"
  by (simp add: decimal.simps[of n])

lemma decimal_inject [simp]: "decimal m = decimal n \<longleftrightarrow> m = n"
  by (metis undecimal_decimal)

text \<open>A decimal number before a byte that is not a digit can be read back.\<close>

definition read_int :: "string \<Rightarrow> int \<times> string" where
  "read_int s = (case s of
      c # r \<Rightarrow> if c = CHR ''-'' then (- int (undecimal (takeWhile isDigit r)), dropWhile isDigit r)
              else (int (undecimal (takeWhile isDigit s)), dropWhile isDigit s)
    | [] \<Rightarrow> (0, []))"

lemma read_int_decimal: "\<not> isDigit c \<Longrightarrow> read_int (decimal_int i @ c # r) = (i, c # r)"
proof -
  assume c: "\<not> isDigit c"
  have tw: "takeWhile isDigit (decimal n @ c # r) = decimal n" "dropWhile isDigit (decimal n @ c # r) = c # r" for n
    using c decimal_digits[of _ n] by (simp_all add: takeWhile_append2 dropWhile_append2)
  show ?thesis
  proof (cases "i < 0")
    case True
    then show ?thesis by (simp add: read_int_def decimal_int_def tw)
  next
    case False
    obtain d ds where d: "decimal (nat i) = d # ds" by (cases "decimal (nat i)") auto
    then have "isDigit d" using decimal_digits[of d "nat i"] by simp
    then have nm: "d \<noteq> CHR ''-''" by (auto simp: isDigit_def)
    have "takeWhile isDigit (d # ds @ c # r) = d # ds" "dropWhile isDigit (d # ds @ c # r) = c # r"
      using tw[of "nat i"] by (simp_all only: d append_Cons)
    with False d nm show ?thesis
      using undecimal_decimal[of "nat i"] by (simp add: read_int_def decimal_int_def del: undecimal_decimal)
  qed
qed

text \<open>\<open>binary.BigEndian.AppendUint64\<close> of a 64-bit value.\<close>

definition be64 :: "64 word \<Rightarrow> bytes" where
  "be64 w = map (\<lambda>i. char_of (unat (drop_bit (8 * i) w) mod 256)) (rev [0..<8])"

lemma length_be64 [simp]: "length (be64 w) = 8"
  by (simp add: be64_def)

lemma be64_inject: "be64 v = be64 w \<Longrightarrow> v = w"
proof -
  assume h: "be64 v = be64 w"
  have byte_eq: "unat (drop_bit (8 * i) v) mod 256 = unat (drop_bit (8 * i) w) mod 256" if "i < 8" for i
  proof -
    have ix: "be64 x ! (7 - i) = char_of (unat (drop_bit (8 * i) x) mod 256)" for x
    proof -
      have "be64 x ! (7 - i) = char_of (unat (drop_bit (8 * (rev [0..<8] ! (7 - i))) x) mod 256)"
        unfolding be64_def by (rule nth_map) simp
      also have "rev [0..<8] ! (7 - i) = i" using that by (subst rev_nth) auto
      finally show ?thesis .
    qed
    have "(char_of (unat (drop_bit (8 * i) v) mod 256) :: char) = char_of (unat (drop_bit (8 * i) w) mod 256)"
      using h ix by metis
    then show ?thesis by (metis byte_char_of mod_less_divisor zero_less_numeral)
  qed
  have bit_byte: "bit (unat (drop_bit (8 * i) x) mod 256) j \<longleftrightarrow> bit x (8 * i + j)" if "j < 8" for i j and x :: "64 word"
  proof -
    have "bit (unat (drop_bit (8 * i) x) mod 2 ^ 8) j \<longleftrightarrow> bit (drop_bit (8 * i) x) j"
      unfolding take_bit_eq_mod[symmetric] using that by (simp add: bit_take_bit_iff bit_unsigned_iff)
    then show ?thesis by (simp add: bit_drop_bit_eq)
  qed
  show "v = w"
  proof (rule bit_word_eqI)
    fix n assume "n < LENGTH(64)"
    then have "n div 8 < 8" "n mod 8 < 8" by auto
    then have "bit v (8 * (n div 8) + n mod 8) \<longleftrightarrow> bit w (8 * (n div 8) + n mod 8)"
      using bit_byte byte_eq by metis
    then show "bit v n \<longleftrightarrow> bit w n" by simp
  qed
qed

end
