(* ===== verification/Path_Prefix.thy ===== *)
theory Path_Prefix
  imports Go_Encoding
begin

text \<open>
  \<open>internal/config/pathprefix.go\<close>: the path prefixes a Policy limits Proxy Delivery to.
  The theorems say that a prefix's text parses back to it, that it matches itself and
  everything below it, and that a path it matches stays below it however an Upstream
  splits and normalises the path it decoded once.
\<close>

section \<open>Model\<close>

record PathPrefix =
  prefix_text :: string
  segments :: "string list"

datatype prefix_error =
    MustStartWithSlash
  | NotSegments
  | BadEscape
  | NotUTF8
  | EncodesSeparator
  | DotSegments

text \<open>The bytes \<open>pathSegmentPattern\<close> takes unescaped.\<close>

definition pchar :: "char \<Rightarrow> bool" where
  "pchar c \<longleftrightarrow> (65 \<le> byte c \<and> byte c \<le> 90) \<or> (97 \<le> byte c \<and> byte c \<le> 122)
     \<or> (48 \<le> byte c \<and> byte c \<le> 57) \<or> c \<in> set ''._~!$&()*+,=:@-'' \<or> byte c = 39"

fun segment_chars :: "string \<Rightarrow> bool" where
  "segment_chars [] = True"
| "segment_chars (c # r) =
     (if c = CHR ''%'' then (case r of a # b # r' \<Rightarrow> ishex a \<and> ishex b \<and> segment_chars r' | _ \<Rightarrow> False)
      else pchar c \<and> segment_chars r)"

definition pathSegmentPattern :: "string \<Rightarrow> bool" where
  "pathSegmentPattern s \<longleftrightarrow> s \<noteq> [] \<and> segment_chars s"

definition hasControl :: "string \<Rightarrow> bool" where
  "hasControl s \<longleftrightarrow> list_ex (\<lambda>(r, w). r < 0x20 \<or> r = 0x7F) (runes s)"

definition isSlash :: "char \<Rightarrow> bool" where
  "isSlash c \<longleftrightarrow> c = CHR ''/'' \<or> c = CHR 0x5C"

definition isDots :: "string \<Rightarrow> bool" where
  "isDots s \<longleftrightarrow> s = ''.'' \<or> s = ''..''"

text \<open>The body of the loop of \<open>ParsePathPrefix\<close>.\<close>

definition parse_segment :: "string \<Rightarrow> (prefix_error, string) result" where
  "parse_segment raw = (
     if \<not> pathSegmentPattern raw then Inl NotSegments
     else (case pathUnescape raw of
        None \<Rightarrow> Inl BadEscape
      | Some seg \<Rightarrow>
          if \<not> validString seg then Inl NotUTF8
          else if hasControl seg \<or> list_ex (\<lambda>c. isSlash c \<or> c = CHR '';'') seg then Inl EncodesSeparator
          else if isDots seg then Inl DotSegments
          else Inr seg))"

definition ParsePathPrefix :: "string \<Rightarrow> (prefix_error, PathPrefix) result" where
  "ParsePathPrefix s = (
     if \<not> hasPrefix s ''/'' then Inl MustStartWithSlash
     else if s = ''/'' then Inr \<lparr>prefix_text = s, segments = []\<rparr>
     else (let s' = trimSuffix s ''/'' in
       ebind (emap parse_segment (splitc (CHR ''/'') (drop 1 s')))
         (\<lambda>segs. Inr \<lparr>prefix_text = s', segments = segs\<rparr>)))"

definition PathPrefix_String :: "PathPrefix \<Rightarrow> string" where
  "PathPrefix_String p = prefix_text p"

definition decode_segment :: "string \<Rightarrow> string option" where
  "decode_segment raw = (case pathUnescape raw of
      None \<Rightarrow> None
    | Some seg \<Rightarrow>
        if \<not> validString seg then None
        else if list_ex (\<lambda>part. isDots (fst (cut part '';''))) (fieldsFunc isSlash seg) then None
        else Some seg)"

fun decode_segments :: "string list \<Rightarrow> string list option" where
  "decode_segments [] = Some []"
| "decode_segments (raw # rest) = (case decode_segment raw of
      None \<Rightarrow> None
    | Some seg \<Rightarrow> map_option (Cons seg) (decode_segments rest))"

definition decodePath :: "string \<Rightarrow> string list option" where
  "decodePath escaped = (let e = trimPrefix escaped ''/'' in
     if e = [] then Some [] else decode_segments (splitc (CHR ''/'') e))"

definition PathPrefix_Matches :: "PathPrefix \<Rightarrow> string \<Rightarrow> bool" where
  "PathPrefix_Matches p escapedPath = (case decodePath escapedPath of
      None \<Rightarrow> False
    | Some segs \<Rightarrow> length (segments p) \<le> length segs \<and> take (length (segments p)) segs = segments p)"

section \<open>How an Upstream may read a path\<close>

text \<open>
  How servers read a path that was percent-decoded: they split it at slashes, some take a
  backslash for a slash (\<open>bs\<close>), some drop what follows a semicolon in a segment (\<open>params\<close>); then
  dot segments are resolved as RFC 3986 does. Nothing here is shared with the checks above.
\<close>

definition backslash_as_slash :: "char \<Rightarrow> char" where
  "backslash_as_slash c = (if c = CHR 0x5C then CHR ''/'' else c)"

definition upstream_parts :: "bool \<Rightarrow> bool \<Rightarrow> string \<Rightarrow> string list" where
  "upstream_parts bs params path = map (\<lambda>p. if params then takeWhile (\<lambda>c. c \<noteq> CHR '';'') p else p)
     (splitc (CHR ''/'') (if bs then map backslash_as_slash path else path))"

text \<open>The harshest reading of segments that were decoded one by one, without the empty parts.\<close>

definition components :: "string list \<Rightarrow> string list" where
  "components segs = filter (\<lambda>p. p \<noteq> []) (concat (map (upstream_parts True True) segs))"

definition resolve_dots :: "string list \<Rightarrow> string list" where
  "resolve_dots cs = foldl (\<lambda>st c. if c = ''.'' then st else if c = ''..'' then butlast st else st @ [c]) [] cs"

section \<open>Lemmas\<close>

lemma decode_segments_Some_iff:
  "decode_segments raws = Some segs \<longleftrightarrow> list_all2 (\<lambda>r s. decode_segment r = Some s) raws segs"
  by (induction raws arbitrary: segs) (auto simp: list_all2_Cons1 split: option.splits)

lemma decode_segments_append:
  "decode_segments (a @ b) = (case decode_segments a of None \<Rightarrow> None
     | Some x \<Rightarrow> map_option ((@) x) (decode_segments b))"
  by (cases "decode_segments b"; induction a) (auto split: option.splits)

lemma Matches_prefix: "PathPrefix_Matches p path \<longleftrightarrow> (\<exists>segs. decodePath path = Some segs \<and> prefix (segments p) segs)"
  by (auto simp: PathPrefix_Matches_def prefix_def split: option.splits) (metis append_take_drop_id)

lemma cut_no_sep: "c \<notin> set s \<Longrightarrow> cut s [c] = (s, [], False)"
  using contains_single[of s c] by (simp add: cut_def contains_def)

lemma takeWhile_all: "c \<notin> set s \<Longrightarrow> takeWhile (\<lambda>x. x \<noteq> c) s = s"
  by (induction s) auto

lemma cut_takeWhile: "fst (cut s [c]) = takeWhile (\<lambda>x. x \<noteq> c) s"
proof (cases "c \<in> set s")
  case True
  then obtain a b where s: "s = a @ c # b" "c \<notin> set a" by (auto dest: split_list_first)
  then have "takeWhile (\<lambda>x. x \<noteq> c) s = a" by (induction a arbitrary: s) auto
  with s cut_single[OF s(2), of b] show ?thesis by simp
next
  case False
  then show ?thesis by (simp add: cut_no_sep takeWhile_all)
qed

text \<open>Splitting a joined path splits each part.\<close>

lemma splitc_map_joinc:
  "f c = c \<Longrightarrow> ps \<noteq> [] \<Longrightarrow> splitc c (map f (joinc [c] ps)) = concat (map (\<lambda>p. splitc c (map f p)) ps)"
  by (induction "[c]" ps rule: joinc.induct) (auto simp: splitc_append)

lemma upstream_parts_joinc:
  assumes "ps \<noteq> []"
  shows "upstream_parts bs params (joinc ''/'' ps) = concat (map (upstream_parts bs params) ps)"
proof -
  have "splitc (CHR ''/'') (map backslash_as_slash (joinc ''/'' ps)) = concat (map (\<lambda>p. splitc (CHR ''/'') (map backslash_as_slash p)) ps)"
    using assms by (intro splitc_map_joinc) (simp_all add: backslash_as_slash_def)
  moreover have "splitc (CHR ''/'') (joinc ''/'' ps) = concat (map (splitc (CHR ''/'')) ps)"
    using splitc_map_joinc[of "\<lambda>x. x" "CHR ''/''" ps] assms by simp
  ultimately show ?thesis by (cases bs) (simp_all add: upstream_parts_def[abs_def] map_concat comp_def)
qed

lemma upstream_parts_slash: "upstream_parts bs params (a @ CHR ''/'' # b) = upstream_parts bs params a @ upstream_parts bs params b"
  using upstream_parts_joinc[of "[a, b]" bs params] by simp

text \<open>What \<open>FieldsFunc\<close> gives the checks.\<close>

lemma slash_fields: "fieldsFunc isSlash s = filter (\<lambda>p. p \<noteq> []) (splitc (CHR ''/'') (map backslash_as_slash s))"
proof -
  have "fields_acc isSlash acc s = filter (\<lambda>p. p \<noteq> []) ((acc @ hd (splitc (CHR ''/'') (map backslash_as_slash s)))
      # tl (splitc (CHR ''/'') (map backslash_as_slash s)))" for acc
    by (induction s arbitrary: acc) (auto simp: isSlash_def backslash_as_slash_def neq_Nil_conv split: list.splits)
  from this[of "[]"] show ?thesis by (simp add: fieldsFunc_def)
qed

lemma hd_splitc: "hd (splitc c s) = takeWhile (\<lambda>x. x \<noteq> c) s"
  by (induction s) (auto split: list.splits)

lemma split_finer:
  assumes "p \<in> set (splitc (CHR ''/'') s)"
  shows "takeWhile (\<lambda>x. x \<noteq> CHR 0x5C) p \<in> set (splitc (CHR ''/'') (map backslash_as_slash s))"
proof -
  have "CHR ''/'' \<notin> set p" using assms by (rule splitc_parts)
  then have "takeWhile (\<lambda>x. x \<noteq> CHR ''/'') (map backslash_as_slash p) = takeWhile (\<lambda>x. x \<noteq> CHR 0x5C) p"
    by (induction p) (auto simp: backslash_as_slash_def)
  then have "takeWhile (\<lambda>x. x \<noteq> CHR 0x5C) p \<in> set (splitc (CHR ''/'') (map backslash_as_slash p))"
    using hd_in_set[OF splitc_nonempty, of "CHR ''/''" "map backslash_as_slash p"] by (simp add: hd_splitc)
  moreover have "splitc (CHR ''/'') (map backslash_as_slash s)
      = concat (map (\<lambda>p. splitc (CHR ''/'') (map backslash_as_slash p)) (splitc (CHR ''/'') s))"
    using splitc_map_joinc[of backslash_as_slash "CHR ''/''" "splitc (CHR ''/'') s"] by (simp add: joinc_splitc backslash_as_slash_def)
  ultimately show ?thesis using assms by auto
qed

text \<open>A dot segment in any reading is one the checks refuse.\<close>

lemma takeWhile_no: "d \<notin> set (takeWhile (\<lambda>x. x \<noteq> c) p) \<Longrightarrow> takeWhile (\<lambda>x. x \<noteq> c) (takeWhile (\<lambda>x. x \<noteq> d) p) = takeWhile (\<lambda>x. x \<noteq> c) p"
  by (induction p) auto

lemma dots_found:
  assumes "q \<in> set (upstream_parts bs params s)" and "isDots q"
  shows "\<exists>part\<in>set (fieldsFunc isSlash s). isDots (fst (cut part '';''))"
proof -
  define sp where "sp = splitc (CHR ''/'') (map backslash_as_slash s)"
  obtain p where p: "p \<in> set (splitc (CHR ''/'') (if bs then map backslash_as_slash s else s))"
    "q = (if params then takeWhile (\<lambda>c. c \<noteq> CHR '';'') p else p)" using assms(1) unfolding upstream_parts_def set_map image_iff by blast
  have q: "q \<noteq> []" "CHR '';'' \<notin> set q" "CHR 0x5C \<notin> set q" using assms(2) by (auto simp: isDots_def)
  have t: "takeWhile (\<lambda>c. c \<noteq> CHR '';'') p = q" using p(2) q(2) by (cases params) (simp_all add: takeWhile_all)
  obtain p' where p': "p' \<in> set sp" "takeWhile (\<lambda>c. c \<noteq> CHR '';'') p' = q"
  proof (cases bs)
    case True
    with p(1) t that show ?thesis by (simp add: sp_def)
  next
    case False
    with p(1) have "takeWhile (\<lambda>x. x \<noteq> CHR 0x5C) p \<in> set sp" using split_finer by (simp add: sp_def)
    moreover have "takeWhile (\<lambda>c. c \<noteq> CHR '';'') (takeWhile (\<lambda>x. x \<noteq> CHR 0x5C) p) = q"
      using takeWhile_no[of "CHR 0x5C" "CHR '';''" p] q(3) t by simp
    ultimately show ?thesis by (rule that)
  qed
  then have "p' \<in> set (fieldsFunc isSlash s)" using q(1) by (auto simp: slash_fields sp_def)
  with p'(2) assms(2) show ?thesis by (auto simp: cut_takeWhile)
qed

lemma parse_segment_InrD:
  assumes "parse_segment raw = Inr seg"
  shows "pathUnescape raw = Some seg" "validString seg" "\<not> isDots seg"
    "\<forall>c\<in>set seg. \<not> isSlash c \<and> c \<noteq> CHR '';''" "pathSegmentPattern raw"
  using assms by (auto simp: parse_segment_def list_ex_iff split: if_splits option.splits)

lemma pathUnescape_nonempty: "pathUnescape raw = Some seg \<Longrightarrow> raw \<noteq> [] \<Longrightarrow> seg \<noteq> []"
  by (cases raw) (auto split: if_splits list.splits)

lemma parse_segment_decode:
  assumes "parse_segment raw = Inr seg"
  shows "decode_segment raw = Some seg" and "fieldsFunc isSlash seg = [seg]" and "fst (cut seg '';'') = seg"
proof -
  note D = parse_segment_InrD[OF assms]
  have "seg \<noteq> []" using pathUnescape_nonempty[OF D(1)] D(5) by (simp add: pathSegmentPattern_def)
  moreover have "\<forall>c\<in>set seg. \<not> isSlash c" using D(4) by blast
  ultimately show f: "fieldsFunc isSlash seg = [seg]" by (rule fieldsFunc_no_sep)
  have "CHR '';'' \<notin> set seg" using D(4) by blast
  from cut_no_sep[OF this] show c: "fst (cut seg '';'') = seg" by simp
  show "decode_segment raw = Some seg" using D(1-3) f c by (simp add: decode_segment_def)
qed

lemma components_Cons: "components (seg # segs) = components [seg] @ components segs"
  by (simp add: components_def)

lemma components_append: "components (a @ b) = components a @ components b"
  by (simp add: components_def)

lemma plain_component:
  assumes "seg \<noteq> []" and "\<forall>c\<in>set seg. \<not> isSlash c \<and> c \<noteq> CHR '';''"
  shows "components [seg] = [seg]"
proof -
  have "map backslash_as_slash seg = seg" using assms(2) by (intro map_idI) (auto simp: backslash_as_slash_def isSlash_def)
  moreover have "CHR ''/'' \<notin> set seg" using assms(2) by (auto simp: isSlash_def)
  moreover have "CHR '';'' \<notin> set seg" using assms(2) by auto
  ultimately show ?thesis using assms(1) by (simp add: components_def upstream_parts_def splitc_no_sep takeWhile_all)
qed

lemma parse_components:
  assumes "list_all2 (\<lambda>r s. parse_segment r = Inr s) raws segs"
  shows "components segs = segs" and "decode_segments raws = Some segs"
proof -
  have "components [seg] = [seg]" if "parse_segment raw = Inr seg" for raw seg
  proof -
    note D = parse_segment_InrD[OF that]
    have "seg \<noteq> []" using pathUnescape_nonempty[OF D(1)] D(5) by (simp add: pathSegmentPattern_def)
    with D(4) show ?thesis by (rule plain_component[rotated])
  qed
  with assms show "components segs = segs"
  proof (induction rule: list_all2_induct)
    case (Cons raw raws seg segs)
    then show ?case using components_Cons[of seg segs] by simp
  qed (simp add: components_def)
  show "decode_segments raws = Some segs"
    unfolding decode_segments_Some_iff using assms parse_segment_decode(1)
    by (rule list_all2_mono)
qed

lemma resolve_dots_append:
  assumes "\<forall>c\<in>set cs. \<not> isDots c"
  shows "resolve_dots (base @ cs) = resolve_dots base @ cs"
proof -
  have "foldl (\<lambda>st c. if c = ''.'' then st else if c = ''..'' then butlast st else st @ [c]) st cs = st @ cs" for st
    using assms by (induction cs arbitrary: st) (auto simp: isDots_def)
  then show ?thesis by (simp add: resolve_dots_def)
qed

lemma resolve_dots_no_dots: "\<forall>c\<in>set cs. \<not> isDots c \<Longrightarrow> resolve_dots cs = cs"
  using resolve_dots_append[of cs "[]"] by (simp add: resolve_dots_def)

lemma decode_components_no_dots:
  assumes "decode_segments raws = Some segs" and "c \<in> set (components segs)"
  shows "\<not> isDots c"
proof
  assume dots: "isDots c"
  obtain seg where s: "seg \<in> set segs" "c \<in> set (upstream_parts True True seg)"
    using assms(2) by (auto simp: components_def)
  obtain raw where "decode_segment raw = Some seg"
    using list_all2_ex2[OF assms(1)[unfolded decode_segments_Some_iff] s(1)] by blast
  with dots_found[OF s(2) dots] show False
    by (auto simp: decode_segment_def list_ex_iff split: option.splits if_splits)
qed

lemma ParsePathPrefix_InrD:
  assumes "ParsePathPrefix s = Inr p"
  obtains (root) "p = \<lparr>prefix_text = ''/'', segments = []\<rparr>"
  | (path) e segs where "p = \<lparr>prefix_text = CHR ''/'' # e, segments = segs\<rparr>" "e \<noteq> []" "\<not> hasSuffix e ''/''"
      "list_all2 (\<lambda>r s. parse_segment r = Inr s) (splitc (CHR ''/'') e) segs"
proof (cases "s = ''/''")
  case True
  with assms root show thesis by (auto simp: ParsePathPrefix_def hasPrefix_def)
next
  case False
  define s' where "s' = trimSuffix s ''/''"
  have pre: "hasPrefix s ''/''" using assms by (auto simp: ParsePathPrefix_def split: if_splits)
  then obtain r where s: "s = CHR ''/'' # r" "r \<noteq> []" using False by (auto simp: hasPrefix_iff)
  then obtain e where e: "s' = CHR ''/'' # e"
    by (cases "hasSuffix s ''/''") (auto simp: s'_def trimSuffix_def hasSuffix_def suffix_def take_Cons'
        split: if_splits)
  obtain segs where segs: "emap parse_segment (splitc (CHR ''/'') e) = Inr segs"
    "p = \<lparr>prefix_text = s', segments = segs\<rparr>"
    using assms False pre e by (auto simp: ParsePathPrefix_def s'_def Let_def)
  have all: "list_all2 (\<lambda>r s. parse_segment r = Inr s) (splitc (CHR ''/'') e) segs"
    using segs(1) by (simp add: emap_Inr_iff)
  have ne: "raw \<noteq> []" if "raw \<in> set (splitc (CHR ''/'') e)" for raw
    using all that parse_segment_InrD(5)
    by (fastforce simp: list_all2_conv_all_nth in_set_conv_nth pathSegmentPattern_def)
  have "e \<noteq> []" using ne by auto
  moreover have "\<not> hasSuffix e ''/''"
  proof
    assume "hasSuffix e ''/''"
    then obtain z where z: "e = z @ ''/''" by (auto simp: hasSuffix_def suffix_def)
    have "[] \<in> set (splitc (CHR ''/'') (z @ ''/''))" by (simp add: splitc_append)
    with z ne show False by auto
  qed
  ultimately show thesis using path segs(2) e all by blast
qed

text \<open>What evaluates the parser and the matcher on concrete paths.\<close>

lemmas path_eval = ParsePathPrefix_def PathPrefix_Matches_def decodePath_def decode_segment_def
  parse_segment_def pathSegmentPattern_def pchar_def isSlash_def isDots_def hasControl_def hasPrefix_def
  hasSuffix_def trimPrefix_def trimSuffix_def fieldsFunc_def cut_def validString_def invalid_rune_def
  rune_error_def ishex_def unhex_def runes_Cons Let_def char_of_numeral_eq

section \<open>Properties\<close>

text \<open>
  What \<open>String\<close> prints for a parsed prefix parses back to the same prefix, so a prefix
  survives being shown to the Operator and configured again.
\<close>

theorem parse_String_roundtrip:
  assumes "ParsePathPrefix s = Inr p"
  shows "ParsePathPrefix (PathPrefix_String p) = Inr p"
  using assms
proof (cases rule: ParsePathPrefix_InrD)
  case root
  then show ?thesis by (simp add: ParsePathPrefix_def PathPrefix_String_def hasPrefix_def)
next
  case (path e segs)
  then have "trimSuffix (CHR ''/'' # e) ''/'' = CHR ''/'' # e"
    by (auto simp: trimSuffix_def hasSuffix_def suffix_Cons)
  with path show ?thesis
    by (auto simp: ParsePathPrefix_def PathPrefix_String_def hasPrefix_def Let_def emap_Inr_iff)
qed

theorem parse_String_roundtrip_witness:
  "ParsePathPrefix (PathPrefix_String \<lparr>prefix_text = ''/repos/a%20b'', segments = [''repos'', ''a b'']\<rparr>)
     = Inr \<lparr>prefix_text = ''/repos/a%20b'', segments = [''repos'', ''a b'']\<rparr>"
  by (rule parse_String_roundtrip[of "''/repos/a%20b/''"]) (simp add: path_eval suffix_def)

text \<open>
  A parsed prefix matches its own text and every clean path below it.
\<close>

theorem prefix_matches_below:
  assumes "ParsePathPrefix s = Inr p" and "segments p \<noteq> []" and "decodePath rest \<noteq> None"
    and "rest = [] \<or> hasPrefix rest ''/''"
  shows "PathPrefix_Matches p (prefix_text p @ rest)"
  using assms(1)
proof (cases rule: ParsePathPrefix_InrD)
  case root
  with assms(2) show ?thesis by simp
next
  case (path e segs)
  have dec: "decode_segments (splitc (CHR ''/'') e) = Some segs" using parse_components(2) path(4) by blast
  show ?thesis
  proof (cases "rest = []")
    case True
    with path dec show ?thesis by (auto simp: Matches_prefix decodePath_def Let_def trimPrefix_def hasPrefix_def)
  next
    case False
    then obtain r where r: "rest = CHR ''/'' # r" using assms(4) by (auto simp: hasPrefix_iff)
    have "decode_segments (splitc (CHR ''/'') r) \<noteq> None"
    proof (cases r)
      case Nil
      then show ?thesis by (simp add: decode_segment_def validString_def fieldsFunc_def)
    next
      case (Cons c r')
      with assms(3) r show ?thesis by (auto simp: decodePath_def Let_def trimPrefix_def hasPrefix_def)
    qed
    with path dec r show ?thesis
      by (auto simp: Matches_prefix decodePath_def Let_def trimPrefix_def hasPrefix_def
          decode_segments_append splitc_append simp del: splitc.simps)
  qed
qed

theorem prefix_matches_below_witness:
  "PathPrefix_Matches \<lparr>prefix_text = ''/repos/o'', segments = [''repos'', ''o'']\<rparr> ''/repos/o/issues''"
  using prefix_matches_below[of "''/repos/o''" "\<lparr>prefix_text = ''/repos/o'', segments = [''repos'', ''o'']\<rparr>" "''/issues''"]
  by (simp add: path_eval suffix_def)

text \<open>
  A path that a parsed prefix matches stays below the prefix however the Upstream reads
  it: splitting the decoded path again at slashes and backslashes, dropping empty parts and
  parameters, and resolving dot segments changes nothing and still begins with the prefix's
  segments.
\<close>

theorem prefix_confines_upstream:
  assumes "ParsePathPrefix s = Inr p" and "PathPrefix_Matches p path"
  shows "\<exists>segs. decodePath path = Some segs \<and> resolve_dots (components segs) = components segs
    \<and> prefix (segments p) (components segs)"
proof -
  obtain segs where segs: "decodePath path = Some segs" "prefix (segments p) segs"
    using assms(2) by (auto simp: Matches_prefix)
  have "\<forall>c\<in>set (components segs). \<not> isDots c"
  proof (cases "trimPrefix path ''/'' = []")
    case True
    with segs(1) show ?thesis by (simp add: decodePath_def components_def)
  next
    case False
    with segs(1) decode_components_no_dots show ?thesis by (simp add: decodePath_def Let_def)
  qed
  then have res: "resolve_dots (components segs) = components segs" by (rule resolve_dots_no_dots)
  have "components (segments p) = segments p"
    using assms(1)
  proof (cases rule: ParsePathPrefix_InrD)
    case root
    then show ?thesis by (simp add: components_def)
  next
    case (path e ss)
    then show ?thesis using parse_components(1) by auto
  qed
  moreover obtain more where "segs = segments p @ more" using segs(2) by (auto simp: prefix_def)
  ultimately have "components segs = segments p @ components more" by (simp add: components_append)
  with segs(1) res show ?thesis by auto
qed

theorem prefix_confines_upstream_witness:
  "\<exists>segs. decodePath ''/repos/o/a%2Fb;v=1/'' = Some segs \<and> resolve_dots (components segs) = components segs
    \<and> prefix (segments \<lparr>prefix_text = ''/repos/o'', segments = [''repos'', ''o'']\<rparr>) (components segs)"
  by (rule prefix_confines_upstream[of "''/repos/o''"]) (simp_all add: path_eval suffix_def)

end
