(* ===== verification/Config_Types.thy ===== *)
theory Config_Types
  imports Path_Prefix
begin

text \<open>
  The validated config snapshot of \<open>internal/config/config.go\<close>: one record per struct,
  fields in the order of the source, nil pointers as \<open>None\<close>, Go maps as association lists
  with distinct keys, with the \<open>Equal\<close> methods the reload compares snapshots with. A
  certificate pool is the list of its certificates.
\<close>

section \<open>Courier Keys and the listeners\<close>

type_synonym CertPool = "bytes list"

record CourierKey =
  ck_Backend :: string
  ck_Location :: string

record ExternalAccountBinding =
  eab_KeyID :: string
  eab_HMACKey :: CourierKey

record DNS =
  dns_Provider :: string
  dns_Credentials :: "CourierKey gomap"
  dns_Zone :: string
  dns_Endpoint :: string
  dns_Authority :: string
  dns_CABundle :: string
  dns_RootCAs :: "CertPool option"
  dns_Resolvers :: "string list"
  dns_PropagationTimeout :: ns
  dns_TenantID :: string
  dns_ClientID :: string
  dns_SubscriptionID :: string
  dns_ResourceGroup :: string
  dns_Project :: string

record ACME =
  acme_Directory :: string
  acme_Domains :: "string list"
  acme_Contact :: string
  acme_Challenge :: string
  acme_HTTPListen :: string
  acme_DNS :: "DNS option"
  acme_CABundle :: string
  acme_RootCAs :: "CertPool option"
  acme_AccountKey :: CourierKey
  acme_EAB :: "ExternalAccountBinding option"

record AgentTLS =
  atls_Certificate :: CourierKey
  atls_Key :: CourierKey
  atls_ACME :: "ACME option"

record AgentAPI =
  api_Listen :: string
  api_Socket :: string
  api_PublicURL :: string
  api_TLS :: "AgentTLS option"

record AdminTLS =
  mtls_Certificate :: CourierKey
  mtls_Key :: CourierKey
  mtls_ClientCA :: string
  mtls_ClientCAs :: CertPool

record Admin =
  admin_Socket :: string
  admin_AllowedUIDs :: "int list"
  admin_Listen :: string
  admin_TLS :: "AdminTLS option"

record Audit_cfg =
  audit_SigningKey :: "CourierKey option"
  audit_CheckpointRecords :: int
  audit_CheckpointInterval :: ns

section \<open>Secret Names and Policies\<close>

record HeaderTemplate =
  ht_Name :: string
  ht_Prefix :: string
  ht_Suffix :: string

record QueryTemplate =
  qt_Name :: string

record BasicAuthTemplate =
  ba_Username :: string
  ba_Password :: string
  ba_SecretIsUsername :: bool

text \<open>\<open>InjectionTemplate\<close> has three pointers of which exactly one is set.\<close>

datatype InjectionTemplate =
    HeaderT HeaderTemplate
  | QueryT QueryTemplate
  | BasicAuthT BasicAuthTemplate

record Upstream =
  up_Name :: string
  up_Scheme :: string
  up_Host :: string
  up_BasePath :: string
  up_RootCAs :: "CertPool option"

datatype EnvSource = EnvBaseURL | EnvUsername | EnvPassword | EnvAgentToken

record EnvVar =
  ev_Name :: string
  ev_Source :: EnvSource

record SecretName =
  sn_Name :: string
  sn_Backend :: string
  sn_Location :: string
  sn_CacheTTL :: ns
  sn_InjectionTemplate :: "InjectionTemplate option"
  sn_Upstreams :: "Upstream gomap"
  sn_Preset :: string
  sn_Env :: "EnvVar list"

record BackendPlugin =
  bp_Name :: string
  bp_Path :: string
  bp_SHA256 :: string
  bp_User :: string
  bp_InsecureShareCoreUser :: bool
  bp_Env :: "string list"

datatype DeliveryMode = DeliveryProxy | DeliveryReveal

record SecretAccess =
  sa_SecretName :: string
  sa_Delivery :: "DeliveryMode list"
  sa_Methods :: "string list option"
  sa_Paths :: "PathPrefix list option"

record Policy =
  pol_Name :: string
  pol_Secrets :: "SecretAccess list"

record Config =
  cfg_Path :: string
  cfg_DataDir :: string
  cfg_Admin :: Admin
  cfg_AgentAPI :: AgentAPI
  cfg_Policies :: "Policy gomap"
  cfg_BackendPlugins :: "BackendPlugin gomap"
  cfg_Secrets :: "SecretName gomap"
  cfg_Audit :: Audit_cfg

section \<open>Comparing snapshots\<close>

definition Served :: "AgentAPI \<Rightarrow> bool" where
  "Served a \<longleftrightarrow> api_Listen a \<noteq> [] \<or> api_Socket a \<noteq> []"

text \<open>\<open>(a == nil) == (b == nil) && (a == nil || a.Equal(*b))\<close>.\<close>

fun opt_Equal :: "('a \<Rightarrow> 'a \<Rightarrow> bool) \<Rightarrow> 'a option \<Rightarrow> 'a option \<Rightarrow> bool" where
  "opt_Equal eq None None = True"
| "opt_Equal eq (Some a) (Some b) = eq a b"
| "opt_Equal eq _ _ = False"

text \<open>\<open>(*x509.CertPool).Equal\<close>: the same certificates in any order.\<close>

definition CertPool_Equal :: "CertPool \<Rightarrow> CertPool \<Rightarrow> bool" where
  "CertPool_Equal a b \<longleftrightarrow> length a = length b \<and> set a \<subseteq> set b"

text \<open>\<open>maps.EqualFunc\<close>.\<close>

definition maps_Equal :: "('a \<Rightarrow> 'a \<Rightarrow> bool) \<Rightarrow> 'a gomap \<Rightarrow> 'a gomap \<Rightarrow> bool" where
  "maps_Equal eq a b \<longleftrightarrow> length a = length b
     \<and> list_all (\<lambda>(k, v). case map_of b k of None \<Rightarrow> False | Some v' \<Rightarrow> eq v v') a"

definition DNS_Equal :: "DNS \<Rightarrow> DNS \<Rightarrow> bool" where
  "DNS_Equal d e \<longleftrightarrow> dns_Provider d = dns_Provider e
     \<and> maps_Equal (=) (dns_Credentials d) (dns_Credentials e)
     \<and> dns_Zone d = dns_Zone e \<and> dns_Endpoint d = dns_Endpoint e \<and> dns_Authority d = dns_Authority e
     \<and> dns_CABundle d = dns_CABundle e \<and> opt_Equal CertPool_Equal (dns_RootCAs d) (dns_RootCAs e)
     \<and> dns_Resolvers d = dns_Resolvers e \<and> dns_PropagationTimeout d = dns_PropagationTimeout e
     \<and> dns_TenantID d = dns_TenantID e \<and> dns_ClientID d = dns_ClientID e
     \<and> dns_SubscriptionID d = dns_SubscriptionID e \<and> dns_ResourceGroup d = dns_ResourceGroup e
     \<and> dns_Project d = dns_Project e"

definition ACME_Equal :: "ACME \<Rightarrow> ACME \<Rightarrow> bool" where
  "ACME_Equal a b \<longleftrightarrow> acme_Directory a = acme_Directory b \<and> acme_Domains a = acme_Domains b
     \<and> acme_Contact a = acme_Contact b \<and> acme_Challenge a = acme_Challenge b
     \<and> acme_HTTPListen a = acme_HTTPListen b
     \<and> acme_CABundle a = acme_CABundle b \<and> opt_Equal CertPool_Equal (acme_RootCAs a) (acme_RootCAs b)
     \<and> acme_AccountKey a = acme_AccountKey b
     \<and> opt_Equal (=) (acme_EAB a) (acme_EAB b) \<and> opt_Equal DNS_Equal (acme_DNS a) (acme_DNS b)"

definition AgentTLS_Equal :: "AgentTLS \<Rightarrow> AgentTLS \<Rightarrow> bool" where
  "AgentTLS_Equal a b \<longleftrightarrow> atls_Certificate a = atls_Certificate b \<and> atls_Key a = atls_Key b
     \<and> opt_Equal ACME_Equal (atls_ACME a) (atls_ACME b)"

definition AgentAPI_Equal :: "AgentAPI \<Rightarrow> AgentAPI \<Rightarrow> bool" where
  "AgentAPI_Equal a b \<longleftrightarrow> api_Listen a = api_Listen b \<and> api_Socket a = api_Socket b
     \<and> api_PublicURL a = api_PublicURL b \<and> opt_Equal AgentTLS_Equal (api_TLS a) (api_TLS b)"

definition AdminTLS_Equal :: "AdminTLS \<Rightarrow> AdminTLS \<Rightarrow> bool" where
  "AdminTLS_Equal a b \<longleftrightarrow> mtls_Certificate a = mtls_Certificate b \<and> mtls_Key a = mtls_Key b
     \<and> mtls_ClientCA a = mtls_ClientCA b \<and> CertPool_Equal (mtls_ClientCAs a) (mtls_ClientCAs b)"

definition Admin_Equal :: "Admin \<Rightarrow> Admin \<Rightarrow> bool" where
  "Admin_Equal a b \<longleftrightarrow> admin_Socket a = admin_Socket b \<and> admin_Listen a = admin_Listen b
     \<and> sort (admin_AllowedUIDs a) = sort (admin_AllowedUIDs b)
     \<and> opt_Equal AdminTLS_Equal (admin_TLS a) (admin_TLS b)"

definition BackendPlugin_Equal :: "BackendPlugin \<Rightarrow> BackendPlugin \<Rightarrow> bool" where
  "BackendPlugin_Equal a b \<longleftrightarrow> bp_Name a = bp_Name b \<and> bp_Path a = bp_Path b
     \<and> bp_SHA256 a = bp_SHA256 b \<and> bp_User a = bp_User b
     \<and> bp_InsecureShareCoreUser a = bp_InsecureShareCoreUser b \<and> bp_Env a = bp_Env b"

definition SharesAgentCertificate :: "Config \<Rightarrow> bool" where
  "SharesAgentCertificate c \<longleftrightarrow> (case (admin_TLS (cfg_Admin c), api_TLS (cfg_AgentAPI c)) of
      (Some m, Some a) \<Rightarrow> mtls_Certificate m = atls_Certificate a \<and> mtls_Key m = atls_Key a
    | _ \<Rightarrow> False)"

lemma opt_Equal_refl: "(\<And>x. eq x x) \<Longrightarrow> opt_Equal eq a a"
  by (cases a) auto

lemma maps_Equal_refl: "(\<And>x. eq x x) \<Longrightarrow> distinct (map fst m) \<Longrightarrow> maps_Equal eq m m"
  by (auto simp: maps_Equal_def list_all_iff)

lemma BackendPlugin_Equal_eq: "BackendPlugin_Equal a b \<longleftrightarrow> a = b"
  by (auto simp: BackendPlugin_Equal_def)

lemma maps_Equal_lookup:
  assumes "maps_Equal eq a b" and "distinct (map fst a)" and "distinct (map fst b)"
  shows "rel_option eq (map_of a k) (map_of b k)"
proof -
  have ev: "\<exists>v'. map_of b k = Some v' \<and> eq v v'" if "(k, v) \<in> set a" for k v
    using assms(1) that by (auto simp: maps_Equal_def list_all_iff split: option.splits)
  have sub: "fst ` set a \<subseteq> fst ` set b"
  proof
    fix k assume "k \<in> fst ` set a"
    then obtain v where "(k, v) \<in> set a" by auto
    with ev map_of_SomeD show "k \<in> fst ` set b" by (metis fst_conv image_eqI)
  qed
  have "card (fst ` set a) = card (fst ` set b)"
    using assms by (metis distinct_card length_map list.set_map maps_Equal_def)
  then have "fst ` set a = fst ` set b" using sub by (simp add: card_subset_eq)
  then have keys: "fst ` set a = fst ` set b" .
  show ?thesis
  proof (cases "map_of a k")
    case None
    then have "map_of b k = None" using keys by (simp add: map_of_eq_None_iff)
    with None show ?thesis by simp
  next
    case (Some v)
    then obtain v' where "map_of b k = Some v'" "eq v v'" using ev map_of_SomeD by fast
    with Some show ?thesis by simp
  qed
qed

section \<open>An example\<close>

definition example_cfg :: Config where
  "example_cfg = \<lparr>cfg_Path = ''/etc/tc.yaml'', cfg_DataDir = ''/var/lib/tc'',
     cfg_Admin = \<lparr>admin_Socket = ''/run/admin.sock'', admin_AllowedUIDs = [0], admin_Listen = [], admin_TLS = None\<rparr>,
     cfg_AgentAPI = \<lparr>api_Listen = ''127.0.0.1:8200'', api_Socket = [], api_PublicURL = [], api_TLS = None\<rparr>,
     cfg_Policies = [(''ci'', \<lparr>pol_Name = ''ci'', pol_Secrets =
        [\<lparr>sa_SecretName = ''gh'', sa_Delivery = [DeliveryProxy], sa_Methods = Some [''GET''],
          sa_Paths = Some [\<lparr>prefix_text = ''/repos'', segments = [''repos'']\<rparr>]\<rparr>]\<rparr>)],
     cfg_BackendPlugins = [],
     cfg_Secrets = [(''gh'', \<lparr>sn_Name = ''gh'', sn_Backend = ''bao'', sn_Location = ''kv/gh'', sn_CacheTTL = 0,
        sn_InjectionTemplate = None, sn_Upstreams = [], sn_Preset = [], sn_Env = []\<rparr>)],
     cfg_Audit = \<lparr>audit_SigningKey = None, audit_CheckpointRecords = 1000, audit_CheckpointInterval = 60000000000\<rparr>\<rparr>"

end
