(* ===== verification/Store.thy ===== *)
theory Store
  imports Go_Strings
begin

text \<open>
  \<open>internal/store/store.go\<close>: the tables of the embedded SQLite database and its
  migrations. A table is the list of its rows; \<open>schema\<close> lists the tables that exist.
  Whether a statement succeeds is an argument, so that every error path is a value. The
  connection pool is limited to one connection, so statements of one process do not
  overlap; transactions of several processes are serialised by SQLite's write lock, which
  is why a run of \<open>migrateOnce\<close> steps is a plain sequence.
\<close>

section \<open>Tables\<close>

record operator_credential_row =
  op_hash :: bytes
  op_created_at :: ms

record agent_token_row =
  tok_id :: string
  tok_hash :: bytes
  tok_policies :: string
  tok_created_at :: ms
  tok_expires_at :: ms
  tok_last_used_at :: "ms option"
  tok_revoked_at :: "ms option"

record audit_record_row =
  ar_seq :: int
  ar_time :: ms
  ar_agent_token_id :: string
  ar_secret_name :: string
  ar_delivery :: string
  ar_upstream :: string
  ar_upstream_host :: string
  ar_decision :: string
  ar_reason :: string
  ar_upstream_status :: "int option"
  ar_failure :: string
  ar_prev_hash :: bytes
  ar_hash :: bytes

record audit_checkpoint_row =
  cp_seq :: int
  cp_prev_seq :: int
  cp_time :: ms
  cp_head :: bytes
  cp_signature :: bytes

record DB =
  user_version :: nat
  schema :: "string list"
  operator_credential :: "operator_credential_row list"
  agent_tokens :: "agent_token_row list"
  audit_records :: "audit_record_row list"
  audit_checkpoints :: "audit_checkpoint_row list"

definition empty_DB :: DB where
  "empty_DB = \<lparr>user_version = 0, schema = [], operator_credential = [], agent_tokens = [],
     audit_records = [], audit_checkpoints = []\<rparr>"

section \<open>Migrations\<close>

text \<open>The tables each migration creates.\<close>

definition migrations :: "string list list" where
  "migrations = [[''operator_credential'', ''agent_tokens''], [''audit_records''], [''audit_checkpoints'']]"

datatype store_error =
    DBFailure
  | SchemaNewer nat
  | MigrationFailed nat

text \<open>
  One transaction. \<open>ok\<close> says whether SQLite carries its statements and the commit out; a
  \<open>CREATE TABLE\<close> of a table that exists fails whatever \<open>ok\<close> says. On an error the
  transaction is rolled back.
\<close>

definition migrateOnce :: "bool \<Rightarrow> DB \<Rightarrow> (store_error, bool) result \<times> DB" where
  "migrateOnce ok db = (
     let version = user_version db in
     if length migrations < version then (Inl (SchemaNewer version), db)
     else if version = length migrations then (Inr True, db)
     else if list_ex (\<lambda>t. t \<in> set (schema db)) (migrations ! version)
       then (Inl (MigrationFailed (version + 1)), db)
     else if \<not> ok then (Inl DBFailure, db)
     else (Inr False, db\<lparr>schema := schema db @ migrations ! version, user_version := version + 1\<rparr>))"

text \<open>\<open>oks v\<close> says whether the transaction that finds version \<open>v\<close> is carried out.\<close>

function migrate :: "(nat \<Rightarrow> bool) \<Rightarrow> DB \<Rightarrow> (store_error, unit) result \<times> DB" where
  "migrate oks db = (case migrateOnce (oks (user_version db)) db of
      (Inl e, db') \<Rightarrow> (Inl e, db')
    | (Inr True, db') \<Rightarrow> (Inr (), db')
    | (Inr False, db') \<Rightarrow> migrate oks db')"
  by pat_completeness auto
termination
  by (relation "measure (\<lambda>(oks, db). length migrations - user_version db)")
     (auto simp: migrateOnce_def Let_def split: if_splits)

declare migrate.simps [simp del]

section \<open>Correctness\<close>

text \<open>The version says exactly which migrations ran.\<close>

definition schema_ok :: "DB \<Rightarrow> bool" where
  "schema_ok db \<longleftrightarrow> user_version db \<le> length migrations
     \<and> schema db = concat (take (user_version db) migrations)"

text \<open>A database moves forward: tables and rows are kept, and the version never drops.\<close>

definition keeps :: "DB \<Rightarrow> DB \<Rightarrow> bool" where
  "keeps a b \<longleftrightarrow> user_version a \<le> user_version b \<and> prefix (schema a) (schema b)
     \<and> operator_credential b = operator_credential a \<and> agent_tokens b = agent_tokens a
     \<and> audit_records b = audit_records a \<and> audit_checkpoints b = audit_checkpoints a"

lemma migrations_disjoint: "v < length migrations \<Longrightarrow> set (migrations ! v) \<inter> set (concat (take v migrations)) = {}"
  by (auto simp: migrations_def less_Suc_eq numeral_eq_Suc)

lemma migrateOnce_ok:
  assumes "schema_ok db"
  shows "schema_ok (snd (migrateOnce ok db))" and "keeps db (snd (migrateOnce ok db))"
    and "ok \<Longrightarrow> fst (migrateOnce ok db) = Inr (user_version db = length migrations)"
    and "\<not> ok \<Longrightarrow> user_version db < length migrations \<Longrightarrow> migrateOnce ok db = (Inl DBFailure, db)"
proof -
  have "\<not> list_ex (\<lambda>t. t \<in> set (schema db)) (migrations ! user_version db)"
    if "user_version db < length migrations"
    using migrations_disjoint[OF that] assms by (auto simp: list_ex_iff schema_ok_def)
  with assms show "schema_ok (snd (migrateOnce ok db))" and "keeps db (snd (migrateOnce ok db))"
    and "ok \<Longrightarrow> fst (migrateOnce ok db) = Inr (user_version db = length migrations)"
    and "\<not> ok \<Longrightarrow> user_version db < length migrations \<Longrightarrow> migrateOnce ok db = (Inl DBFailure, db)"
    by (auto simp: migrateOnce_def schema_ok_def keeps_def Let_def take_Suc_conv_app_nth)
qed

lemma keeps_refl: "keeps a a"
  by (simp add: keeps_def)

lemma keeps_trans: "keeps a b \<Longrightarrow> keeps b c \<Longrightarrow> keeps a c"
  by (auto simp: keeps_def)

interpretation migration: machine "\<lambda>db ok. snd (migrateOnce ok db)" schema_ok keeps
  by unfold_locales (auto simp: migrateOnce_ok keeps_refl intro: keeps_trans)

lemma migrate_ok:
  assumes "schema_ok db"
  shows "schema_ok (snd (migrate oks db)) \<and> keeps db (snd (migrate oks db)) \<and>
    (if \<exists>v. user_version db \<le> v \<and> v < length migrations \<and> \<not> oks v
     then fst (migrate oks db) = Inl DBFailure
     else fst (migrate oks db) = Inr () \<and> user_version (snd (migrate oks db)) = length migrations)"
  using assms
proof (induction oks db rule: migrate.induct)
  case (1 oks db)
  let ?v = "user_version db"
  note M = migrateOnce_ok[OF "1.prems", of "oks ?v"]
  show ?case
  proof (cases "?v = length migrations")
    case True
    then have "migrateOnce (oks ?v) db = (Inr True, db)" by (simp add: migrateOnce_def)
    then have "migrate oks db = (Inr (), db)" by (simp add: migrate.simps[of oks db])
    with True "1.prems" keeps_refl show ?thesis by simp
  next
    case False
    then have lt: "?v < length migrations" using "1.prems" by (simp add: schema_ok_def)
    show ?thesis
    proof (cases "oks ?v")
      case False
      with M(4) lt have "migrateOnce (oks ?v) db = (Inl DBFailure, db)" by simp
      then have "migrate oks db = (Inl DBFailure, db)" by (simp add: migrate.simps[of oks db])
      with lt False "1.prems" keeps_refl show ?thesis by auto
    next
      case True
      obtain db' where db': "migrateOnce (oks ?v) db = (Inr False, db')"
        using M(3)[OF True] lt by (cases "migrateOnce (oks ?v) db") auto
      have v': "user_version db' = Suc ?v"
        using db' lt by (auto simp: migrateOnce_def Let_def split: if_splits)
      have step: "migrate oks db = migrate oks db'"
        by (subst migrate.simps) (simp add: db')
      have ex: "(\<exists>v. ?v \<le> v \<and> v < length migrations \<and> \<not> oks v)
          \<longleftrightarrow> (\<exists>v. user_version db' \<le> v \<and> v < length migrations \<and> \<not> oks v)"
      proof -
        have "?v \<le> v \<and> \<not> oks v \<longleftrightarrow> user_version db' \<le> v \<and> \<not> oks v" for v
          using True v' by (cases "v = ?v") auto
        then show ?thesis by blast
      qed
      have ok': "schema_ok db'" and k: "keeps db db'" using M(1,2) db' by auto
      note IH = "1.IH"[OF db'[symmetric] refl _ ok']
      show ?thesis unfolding step ex using IH keeps_trans[OF k] by simp
    qed
  qed
qed

section \<open>Properties\<close>

text \<open>
  Opening a fresh or partly migrated database either brings the schema to the current
  version, keeping every row, or reports the failure and leaves a schema whose version
  says exactly which migrations ran, so a later open resumes.
\<close>

theorem migrate_resumes:
  assumes "schema_ok db"
  shows "schema_ok (snd (migrate oks db)) \<and> keeps db (snd (migrate oks db)) \<and>
    ((\<forall>v. oks v) \<longrightarrow> migrate oks db = (Inr (), snd (migrate oks db))
        \<and> schema (snd (migrate oks db)) = concat migrations)"
proof -
  from migrate_ok[OF assms, of oks] show ?thesis
    by (auto simp: schema_ok_def prod_eq_iff)
qed

theorem migrate_resumes_witness:
  "schema (snd (migrate (\<lambda>_. True) empty_DB))
     = [''operator_credential'', ''agent_tokens'', ''audit_records'', ''audit_checkpoints'']"
proof -
  have "schema_ok empty_DB" by (simp add: empty_DB_def schema_ok_def)
  from migrate_resumes[OF this, of "\<lambda>_. True"]
  have "schema (snd (migrate (\<lambda>_. True) empty_DB)) = concat migrations" by blast
  then show ?thesis by (simp add: migrations_def)
qed

text \<open>
  However many processes open the database at once and however their transactions
  interleave and fail, no migration is applied twice: no step ever fails because its table
  exists, and the version says which migrations ran.
\<close>

theorem concurrent_opens_migrate_once:
  "\<not> (\<exists>n. fst (migrateOnce ok (foldl (\<lambda>db ok. snd (migrateOnce ok db)) empty_DB oks)) = Inl (MigrationFailed n))
   \<and> schema (foldl (\<lambda>db ok. snd (migrateOnce ok db)) empty_DB oks)
     = concat (take (user_version (foldl (\<lambda>db ok. snd (migrateOnce ok db)) empty_DB oks)) migrations)"
proof -
  have inv: "schema_ok (foldl (\<lambda>db ok. snd (migrateOnce ok db)) empty_DB oks)"
    by (rule migration.inv_run) (simp add: schema_ok_def empty_DB_def)
  have "fst (migrateOnce ok db) \<noteq> Inl (MigrationFailed n)" if "schema_ok db" for db n
    using migrateOnce_ok(3)[OF that, of ok] migrateOnce_ok(4)[OF that, of ok] that
    by (cases ok; cases "user_version db < length migrations") (auto simp: migrateOnce_def schema_ok_def)
  with inv show ?thesis by (auto simp: schema_ok_def)
qed

end
