(* ===== verification/Go_JSON.thy ===== *)
theory Go_JSON
  imports Go_Encoding
begin

text \<open>
  Strings as Go's \<open>encoding/json\<close> writes and reads them. \<open>json.Marshal\<close> escapes for HTML,
  writes an invalid UTF-8 byte as the escape of U+FFFD, and the two line separators as
  escapes; what it writes for a valid string reads back as that string, from the front of
  any input, so the encoding is a \<open>codec\<close> on valid strings.
\<close>

abbreviation dquote :: char where "dquote \<equiv> CHR 0x22"
abbreviation backslash :: char where "backslash \<equiv> CHR 0x5C"

definition json_ascii :: "nat \<Rightarrow> string" where
  "json_ascii b = (
     if b = 0x22 \<or> b = 0x5C then [backslash, char_of b]
     else if b = 8 then [backslash, CHR ''b'']
     else if b = 12 then [backslash, CHR ''f'']
     else if b = 10 then [backslash, CHR ''n'']
     else if b = 13 then [backslash, CHR ''r'']
     else if b = 9 then [backslash, CHR ''t'']
     else if b < 0x20 \<or> b = 0x3C \<or> b = 0x3E \<or> b = 0x26
       then backslash # ''u00'' @ [hexdigit (b div 16), hexdigit (b mod 16)]
     else [char_of b])"

definition json_rune :: "nat \<Rightarrow> nat \<Rightarrow> string \<Rightarrow> string" where
  "json_rune r w seg = (
     if r < 0x80 then json_ascii r
     else if r = rune_error \<and> w = 1 then backslash # ''ufffd''
     else if r = 0x2028 then backslash # ''u2028''
     else if r = 0x2029 then backslash # ''u2029''
     else seg)"

fun json_segs :: "(nat \<times> nat) list \<Rightarrow> string \<Rightarrow> string" where
  "json_segs [] s = []"
| "json_segs ((r, w) # rs) s = json_rune r w (take w s) @ json_segs rs (drop w s)"

text \<open>A JSON string literal.\<close>

definition json_string :: "string \<Rightarrow> string" where
  "json_string s = dquote # json_segs (runes s) s @ [dquote]"

text \<open>\<open>utf8.AppendRune\<close> for a rune that is not a surrogate.\<close>

definition encode_rune :: "nat \<Rightarrow> string" where
  "encode_rune r = map char_of (
     if r < 0x80 then [r]
     else if r < 0x800 then [0xC0 + r div 64, 0x80 + r mod 64]
     else if r < 0x10000 then [0xE0 + r div 4096, 0x80 + r div 64 mod 64, 0x80 + r mod 64]
     else [0xF0 + r div 262144, 0x80 + r div 4096 mod 64, 0x80 + r div 64 mod 64, 0x80 + r mod 64])"

definition simple_escape :: "char \<Rightarrow> char option" where
  "simple_escape c = (
     if c = dquote \<or> c = backslash \<or> c = CHR ''/'' then Some c
     else if c = CHR ''b'' then Some (char_of (8 :: nat)) else if c = CHR ''f'' then Some (char_of (12 :: nat))
     else if c = CHR ''n'' then Some (char_of (10 :: nat)) else if c = CHR ''r'' then Some (char_of (13 :: nat))
     else if c = CHR ''t'' then Some (char_of (9 :: nat)) else None)"

fun hex4 :: "string \<Rightarrow> nat option" where
  "hex4 (a # b # c # d # _) =
     (if ishex a \<and> ishex b \<and> ishex c \<and> ishex d
      then Some (unhex a * 4096 + unhex b * 256 + unhex c * 16 + unhex d) else None)"
| "hex4 _ = None"

text \<open>
  One unit of a JSON string: the bytes it stands for and how many bytes of the input it
  takes, \<open>None\<close> for an error. A surrogate escape that pairs with the next is one rune, any
  other is U+FFFD.
\<close>

definition json_unit :: "string \<Rightarrow> (string \<times> nat) option" where
  "json_unit s = (case s of
      [] \<Rightarrow> None
    | c # t \<Rightarrow>
        if c = backslash then
          (case t of
             [] \<Rightarrow> None
           | e # u \<Rightarrow>
               if e = CHR ''u'' then
                 (case hex4 u of
                    None \<Rightarrow> None
                  | Some n \<Rightarrow>
                      if 0xD800 \<le> n \<and> n < 0xE000 then
                        (case drop 4 u of
                           b # v # lo \<Rightarrow>
                             (case hex4 lo of
                                Some m \<Rightarrow>
                                  if b = backslash \<and> v = CHR ''u'' \<and> n < 0xDC00 \<and> 0xDC00 \<le> m \<and> m < 0xE000
                                  then Some (encode_rune ((n - 0xD800) * 1024 + (m - 0xDC00) + 0x10000), 12)
                                  else Some (encode_rune rune_error, 6)
                              | None \<Rightarrow> Some (encode_rune rune_error, 6))
                         | _ \<Rightarrow> Some (encode_rune rune_error, 6))
                      else Some (encode_rune n, 6))
               else (case simple_escape e of None \<Rightarrow> None | Some x \<Rightarrow> Some ([x], 2)))
        else if c = dquote \<or> byte c < 0x20 then None
        else (let (r, w) = decode_rune s in
          if r = rune_error \<and> w = 1 then Some (encode_rune rune_error, 1) else Some (take w s, w)))"

lemma json_unit_width: "json_unit s = Some (x, w) \<Longrightarrow> 1 \<le> w"
  using decode_rune_width[of s]
  by (auto simp: json_unit_def Let_def split: list.splits if_splits option.splits prod.splits)

function json_unquote :: "string \<Rightarrow> (string \<times> string) option" where
  "json_unquote s = (case s of
      [] \<Rightarrow> None
    | c # t \<Rightarrow>
        if c = dquote then Some ([], t)
        else (case json_unit s of
           None \<Rightarrow> None
         | Some (x, w) \<Rightarrow> (case json_unquote (drop w s) of
              None \<Rightarrow> None | Some (y, r) \<Rightarrow> Some (x @ y, r))))"
  by pat_completeness auto
termination
  by (relation "measure length") (auto dest: json_unit_width)

declare json_unquote.simps [simp del]

fun json_read :: "string \<Rightarrow> (string \<times> string) option" where
  "json_read (c # s) = (if c = dquote then json_unquote s else None)"
| "json_read [] = None"

subsection \<open>Round trip\<close>

lemma decode_rune_cases:
  assumes "decode_rune s = (r, w)" and "\<not> invalid_rune (r, w)" and "s \<noteq> []"
  obtains (one) a t where "s = a # t" "byte a < 0x80" "r = byte a" "w = 1"
  | (two) a b t where "s = a # b # t" "w = 2" "0xC2 \<le> byte a" "byte a \<le> 0xDF"
      "cont_byte (byte b)" "r = (byte a - 0xC0) * 64 + (byte b - 0x80)"
  | (three) a b c t where "s = a # b # c # t" "w = 3" "0xE0 \<le> byte a" "byte a \<le> 0xEF"
      "second_ok (byte a) (byte b)" "cont_byte (byte c)"
      "r = (byte a - 0xE0) * 4096 + (byte b - 0x80) * 64 + (byte c - 0x80)"
  | (four) a b c d t where "s = a # b # c # d # t" "w = 4" "0xF0 \<le> byte a" "byte a \<le> 0xF4"
      "second_ok (byte a) (byte b)" "cont_byte (byte c)" "cont_byte (byte d)"
      "r = (byte a - 0xF0) * 262144 + (byte b - 0x80) * 4096 + (byte c - 0x80) * 64 + (byte d - 0x80)"
proof -
  obtain a t where s: "s = a # t" using assms(3) by (cases s) auto
  consider "byte a < 0x80" | "0xC2 \<le> byte a" "byte a \<le> 0xDF" | "0xE0 \<le> byte a" "byte a \<le> 0xEF"
    | "0xF0 \<le> byte a" "byte a \<le> 0xF4"
    using assms s by (auto simp: decode_rune_def Let_def invalid_rune_def split: if_splits)
  then show thesis
  proof cases
    case 1
    with assms s one show thesis by simp
  next
    case 2
    with assms s show thesis
      by (intro two[of a "hd t" "tl t"])
         (auto simp: decode_rune_def Let_def invalid_rune_def split: list.splits if_splits)
  next
    case 3
    with assms s show thesis
      by (intro three[of a "hd t" "hd (tl t)" "tl (tl t)"])
         (auto simp: decode_rune_def Let_def invalid_rune_def split: list.splits if_splits)
  next
    case 4
    with assms s show thesis
      by (intro four[of a "hd t" "hd (tl t)" "hd (tl (tl t))" "tl (tl (tl t))"])
         (auto simp: decode_rune_def Let_def invalid_rune_def split: list.splits if_splits)
  qed
qed

lemma second_ok_cont: "second_ok a b \<Longrightarrow> cont_byte b"
  by (auto simp: second_ok_def cont_byte_def split: if_splits)

lemma char_of_byte: "n = byte c \<Longrightarrow> char_of n = c"
  by simp

lemma digit64: "z < 64 \<Longrightarrow> (k * 64 + z) div 64 = (k :: nat)" "z < 64 \<Longrightarrow> (k * 64 + z) mod 64 = (z :: nat)"
  by simp_all

lemma div4096: "n div 4096 = n div 64 div (64 :: nat)"
  by (simp flip: div_mult2_eq)

lemma div262144: "n div 262144 = n div 4096 div (64 :: nat)"
  by (simp flip: div_mult2_eq)

text \<open>Decoding a rune and encoding it again gives the same bytes.\<close>

lemma encode_decode_rune:
  assumes d: "decode_rune s = (r, w)" and "\<not> invalid_rune (r, w)" and "s \<noteq> []"
  shows "take w s = encode_rune r \<and> (if r < 0x80 then w = 1 \<and> r = byte (hd s) else 0xC2 \<le> byte (hd s))
     \<and> decode_rune (take w s @ t) = (r, w)"
  using assms
proof (cases rule: decode_rune_cases)
  case (one a t)
  then show ?thesis by (simp add: encode_rune_def)
next
  case (two a b t)
  define x y where "x = byte a - 0xC0" and "y = byte b - 0x80"
  from two have x: "byte a = 0xC0 + x" "2 \<le> x" "x < 32" and y: "byte b = 0x80 + y" "y < 64"
    by (auto simp: x_def y_def cont_byte_def)
  have r: "r = x * 64 + y" using two by (simp add: x_def y_def)
  then have "r div 64 = x" "r mod 64 = y" "0x80 \<le> r" "r < 0x800" using x y by auto
  then show ?thesis using two x y r
    by (auto simp: encode_rune_def decode_rune_def Let_def cont_byte_def intro: char_of_byte[symmetric])
next
  case (three a b c t)
  define x y z where "x = byte a - 0xE0" and "y = byte b - 0x80" and "z = byte c - 0x80"
  from three second_ok_cont have x: "byte a = 0xE0 + x" "x < 16" and y: "byte b = 0x80 + y" "y < 64"
    and z: "byte c = 0x80 + z" "z < 64" and xy: "x = 0 \<longrightarrow> 0x20 \<le> y"
    by (auto simp: x_def y_def z_def cont_byte_def second_ok_def split: if_splits)
  have r: "r = x * 4096 + y * 64 + z" using three by (simp add: x_def y_def z_def)
  then have "r = (x * 64 + y) * 64 + z" by simp
  then have d: "r div 64 = x * 64 + y" "r mod 64 = z" using z by (simp_all only: digit64)
  then have "r div 4096 = x" "r div 64 mod 64 = y" using y by (simp_all only: digit64 div4096)
  moreover have "0x800 \<le> r" "r < 0x10000" using r x y z xy by (cases "x = 0", auto)
  ultimately show ?thesis using three x y z d
    by (auto simp: encode_rune_def decode_rune_def Let_def intro: char_of_byte[symmetric])
next
  case (four a b c d t)
  define x y z u where "x = byte a - 0xF0" and "y = byte b - 0x80" and "z = byte c - 0x80" and "u = byte d - 0x80"
  from four second_ok_cont have x: "byte a = 0xF0 + x" "x < 5" and y: "byte b = 0x80 + y" "y < 64"
    and z: "byte c = 0x80 + z" "z < 64" and u: "byte d = 0x80 + u" "u < 64" and xy: "x = 0 \<longrightarrow> 0x10 \<le> y"
    by (auto simp: x_def y_def z_def u_def cont_byte_def second_ok_def split: if_splits)
  have r: "r = x * 262144 + y * 4096 + z * 64 + u" using four by (simp add: x_def y_def z_def u_def)
  then have "r = ((x * 64 + y) * 64 + z) * 64 + u" by simp
  then have d: "r div 64 = (x * 64 + y) * 64 + z" "r mod 64 = u" using u by (simp_all only: digit64)
  then have d2: "r div 4096 = x * 64 + y" "r div 64 mod 64 = z" using z by (simp_all only: digit64 div4096)
  then have "r div 262144 = x" "r div 4096 mod 64 = y" using y by (simp_all only: digit64 div262144)
  moreover have "0x10000 \<le> r" using r xy by (cases "x = 0", auto)
  ultimately show ?thesis using four x y z u d d2
    by (auto simp: encode_rune_def decode_rune_def Let_def intro: char_of_byte[symmetric])
qed

lemma byteD: "byte c = n \<Longrightarrow> c = char_of n"
  by auto

lemma byte_dquote: "byte c = 0x22 \<Longrightarrow> c = dquote"
  by (rule of_char_eq_iff[where 'a = nat, THEN iffD1]) simp

lemma byte_backslash: "byte c = 0x5C \<Longrightarrow> c = backslash"
  by (rule of_char_eq_iff[where 'a = nat, THEN iffD1]) simp

lemma char_of_34_92: "char_of (34 :: nat) = dquote" "char_of (92 :: nat) = backslash"
  by code_simp+

lemma json_ascii_unit:
  assumes "byte c < 0x80"
  shows "json_unit (json_ascii (byte c) @ t) = Some ([c], length (json_ascii (byte c)))
    \<and> hd (json_ascii (byte c)) \<noteq> dquote \<and> json_ascii (byte c) \<noteq> []"
proof -
  let ?named = "byte c = 8 \<or> byte c = 12 \<or> byte c = 10 \<or> byte c = 13 \<or> byte c = 9"
  let ?hex = "byte c < 0x20 \<or> byte c = 0x3C \<or> byte c = 0x3E \<or> byte c = 0x26"
  consider "byte c = 0x22 \<or> byte c = 0x5C" | "\<not> (byte c = 0x22 \<or> byte c = 0x5C)" "?named"
    | "\<not> (byte c = 0x22 \<or> byte c = 0x5C)" "\<not> ?named" "?hex"
    | "\<not> (byte c = 0x22 \<or> byte c = 0x5C)" "\<not> ?named" "\<not> ?hex"
    by blast
  then show ?thesis
  proof cases
    case 1
    then have "c = dquote \<or> c = backslash" using byte_dquote byte_backslash by blast
    then show ?thesis
      by (elim disjE) (simp_all add: json_unit_def simple_escape_def json_ascii_def char_of_34_92)
  next
    case 2
    then have "c = char_of (8 :: nat) \<or> c = char_of (12 :: nat) \<or> c = char_of (10 :: nat)
        \<or> c = char_of (13 :: nat) \<or> c = char_of (9 :: nat)" by (blast dest: byteD)
    then show ?thesis
      by (elim disjE) (simp_all add: json_unit_def simple_escape_def json_ascii_def)
  next
    case 3
    then have j: "json_ascii (byte c) = backslash # ''u00'' @ [hexdigit (byte c div 16), hexdigit (byte c mod 16)]"
      by (simp add: json_ascii_def)
    have h: "byte c div 16 < 16" using byte_lt[of c] by linarith
    have "unhex CHR ''0'' = 0" "ishex CHR ''0''" by (simp_all add: unhex_def ishex_def)
    with j h assms show ?thesis by (simp add: json_unit_def encode_rune_def)
  next
    case 4
    then have "json_ascii (byte c) = [c]" by (simp add: json_ascii_def)
    moreover have "c \<noteq> dquote" "c \<noteq> backslash" using 4 by auto
    ultimately show ?thesis using 4 assms by (simp add: json_unit_def rune_error_def)
  qed
qed

lemma json_rune_unit:
  assumes d: "decode_rune s = (r, w)" and v: "\<not> invalid_rune (r, w)" and s: "s \<noteq> []"
  shows "json_unit (json_rune r w (take w s) @ t) = Some (take w s, length (json_rune r w (take w s)))
    \<and> hd (json_rune r w (take w s)) \<noteq> dquote \<and> json_rune r w (take w s) \<noteq> []"
proof -
  note E = encode_decode_rune[OF assms, of t]
  have wl: "1 \<le> w" "w \<le> length s" using decode_rune_width[OF s] d by auto
  obtain c s' where cs: "s = c # s'" using s by (cases s) auto
  consider "r < 0x80" | "r = 0x2028" | "r = 0x2029" | "0x80 \<le> r" "r \<noteq> 0x2028" "r \<noteq> 0x2029"
    by linarith
  then show ?thesis
  proof cases
    case 1
    with E cs have "w = 1" "r = byte c" by auto
    with json_ascii_unit[of c t] 1 cs show ?thesis by (simp add: json_rune_def)
  next
    case 2
    with E show ?thesis
      by (simp add: json_rune_def json_unit_def unhex_def ishex_def rune_error_def)
  next
    case 3
    with E show ?thesis
      by (simp add: json_rune_def json_unit_def unhex_def ishex_def rune_error_def)
  next
    case 4
    obtain w' where w: "w = Suc w'" using wl by (cases w) auto
    have big: "0xC2 \<le> byte c" using E 4 cs by auto
    then have ne: "c \<noteq> backslash" "c \<noteq> dquote" by auto
    have "decode_rune (c # take w' s' @ t) = (r, Suc w')" using E cs w by auto
    with 4 ne big cs w wl v show ?thesis
      by (auto simp: json_rune_def json_unit_def invalid_rune_def)
  qed
qed

lemma json_unquote_segs:
  "validString s \<Longrightarrow> json_unquote (json_segs (runes s) s @ dquote # t) = Some (s, t)"
proof (induction s rule: runes.induct)
  case 1
  then show ?case by (simp add: json_unquote.simps)
next
  case (2 c s)
  obtain r w where rw: "decode_rune (c # s) = (r, w)" by fastforce
  let ?rest = "drop w (c # s)"
  have v: "\<not> invalid_rune (r, w)" "validString ?rest"
    using "2.prems" rw by (auto simp: validString_def runes_Cons)
  define x where "x = json_rune r w (take w (c # s))"
  define u where "u = json_segs (runes ?rest) ?rest @ dquote # t"
  have x: "json_unit (x @ u) = Some (take w (c # s), length x)" "hd x \<noteq> dquote" "x \<noteq> []"
    using json_rune_unit[OF rw v(1)] by (auto simp: x_def)
  have "json_segs (runes (c # s)) (c # s) @ dquote # t = x @ u"
    using rw by (simp add: runes_Cons x_def u_def)
  moreover obtain h xs where "x = h # xs" "h \<noteq> dquote" using x by (cases x) auto
  then have "json_unquote (x @ u) = Some (take w (c # s) @ ?rest, t)"
    using x(1) "2.IH"[OF refl rw[symmetric] v(2)]
    by (subst json_unquote.simps) (auto simp: u_def)
  ultimately show ?case by simp
qed

lemma json_read_string [codec_rules]: "validString s \<Longrightarrow> json_read (json_string s @ t) = Some (s, t)"
  using json_unquote_segs[of s t] by (simp add: json_string_def)

interpretation json: codec json_string json_read validString
  by unfold_locales (rule json_read_string)

section \<open>Arrays of strings\<close>

text \<open>\<open>json.Marshal\<close> of a \<open>[]string\<close>, where a nil slice is \<open>null\<close>, and \<open>json.Unmarshal\<close> into one.\<close>

definition json_strings :: "string list \<Rightarrow> string" where
  "json_strings xs = CHR ''['' # joinc '','' (map json_string xs) @ '']''"

fun json_read_more :: "nat \<Rightarrow> string \<Rightarrow> (string list \<times> string) option" where
  "json_read_more 0 s = None"
| "json_read_more (Suc n) s = (case json_read s of
      Some (x, c # r) \<Rightarrow>
        if c = CHR '']'' then Some ([x], r)
        else if c = CHR '','' then map_option (apfst (Cons x)) (json_read_more n r) else None
    | _ \<Rightarrow> None)"

text \<open>
  The arrays \<open>json.Marshal\<close> writes, which hold no spaces; \<open>None\<close> stands for anything else.
\<close>

definition json_read_strings :: "string \<Rightarrow> string list option" where
  "json_read_strings s = (case s of
      b # r \<Rightarrow>
        if b \<noteq> CHR ''['' then None
        else if r = '']'' then Some []
        else (case json_read_more (length r) r of Some (xs, []) \<Rightarrow> Some xs | _ \<Rightarrow> None)
    | [] \<Rightarrow> None)"

lemma json_read_more_join:
  "xs \<noteq> [] \<Longrightarrow> \<forall>x\<in>set xs. validString x \<Longrightarrow> length xs \<le> n \<Longrightarrow>
     json_read_more n (joinc '','' (map json_string xs) @ CHR '']'' # t) = Some (xs, t)"
proof (induction xs arbitrary: n)
  case (Cons x xs)
  obtain m where n: "n = Suc m" using Cons.prems(3) by (cases n) auto
  show ?case
  proof (cases xs)
    case Nil
    with Cons.prems n json.dec_enc[of x "CHR '']'' # t"] show ?thesis by simp
  next
    case (Cons y ys)
    have "json_read_more m (joinc '','' (map json_string xs) @ CHR '']'' # t) = Some (xs, t)"
      using Cons.IH Cons.prems n \<open>xs = y # ys\<close> by simp
    with Cons.prems n \<open>xs = y # ys\<close>
      json.dec_enc[of x "'','' @ joinc '','' (map json_string xs) @ CHR '']'' # t"]
    show ?thesis by simp
  qed
qed simp

lemma json_string_length: "2 \<le> length (json_string s)"
  by (simp add: json_string_def)

lemma json_read_strings_strings [codec_rules]:
  assumes "\<forall>x\<in>set xs. validString x"
  shows "json_read_strings (json_strings xs) = Some xs"
proof (cases xs)
  case Nil
  then show ?thesis by (simp add: json_read_strings_def json_strings_def)
next
  case (Cons y ys)
  let ?j = "joinc '','' (map json_string xs)"
  have len: "length zs \<le> length (joinc '','' (map json_string zs))" for zs
  proof (induction zs rule: induct_list012)
    case (2 x)
    then show ?case using json_string_length[of x] by simp
  next
    case (3 x y zs)
    then show ?case by simp
  qed simp
  have "?j @ '']'' \<noteq> '']''" using Cons len[of xs] by (metis append_self_conv2 length_0_conv list.size(3) le_zero_eq neq_Nil_conv)
  moreover have "json_read_more (length (?j @ '']'')) (?j @ '']'') = Some (xs, [])"
    using json_read_more_join[of xs "length (?j @ '']'')" "[]"] Cons assms len[of xs] by simp
  ultimately show ?thesis by (simp add: json_read_strings_def json_strings_def)
qed

end
