(* ===== verification/Access.thy ===== *)
theory Access
  imports Config_Types Store Go_JSON "HOL-Library.Product_Lexorder"
begin

text \<open>
  \<open>internal/access/access.go\<close>: the Operator Credential, Agent Tokens and the decision
  whether a Policy allows a Delivery. SHA-256 and the random bytes are arguments; \<open>ok i\<close>
  says whether the database carries out the \<open>i\<close>-th statement of an operation. The
  operations are steps of a \<open>machine\<close> whose order is what the table never takes back:
  rows, and revocation times once set.
\<close>

section \<open>Credentials\<close>

definition OperatorCredentialPrefix :: string where
  "OperatorCredentialPrefix = ''tcoc_''"

definition AgentTokenPrefix :: string where
  "AgentTokenPrefix = ''tcat_''"

text \<open>\<open>randomString\<close>, given the random bytes.\<close>

definition randomString :: "bytes \<Rightarrow> string" where
  "randomString b = base32_lower b"

text \<open>Times are nanoseconds since 1970; \<open>UnixMilli\<close> rounds down, the zero \<open>time.Time\<close> is year 1.\<close>

definition UnixMilli :: "ns \<Rightarrow> ms" where
  "UnixMilli t = t div 1000000"

definition zero_time :: ns where
  "zero_time = - 62135596800 * 1000000000"

datatype validation_error =
    ExpiryRequired
  | ExpiryNotInFuture
  | PolicyRequired
  | UnknownPolicy string

datatype access_error =
    AccessDB
  | ShowFailed
  | ValidationError validation_error
  | NotFoundError string
  | DecodePolicies string
  | ErrAgentTokenInvalid
  | ErrAgentTokenExpired
  | ErrAgentTokenRevoked

text \<open>
  \<open>EnsureOperatorCredential\<close>: the result, the credential passed to \<open>show\<close> if it was
  called, and the database. \<open>ok\<close> 0 to 3 are begin, count, insert and commit; \<open>shown\<close> is
  whether \<open>show\<close> succeeds. A transaction that does not commit is rolled back.
\<close>

definition EnsureOperatorCredential ::
  "(bytes \<Rightarrow> bytes) \<Rightarrow> (nat \<Rightarrow> bool) \<Rightarrow> bool \<Rightarrow> bytes \<Rightarrow> ns \<Rightarrow> DB \<Rightarrow>
     (access_error, unit) result \<times> string option \<times> DB" where
  "EnsureOperatorCredential sha ok shown random now db = (
     if \<not> ok 0 \<or> \<not> ok 1 then (Inl AccessDB, None, db)
     else if operator_credential db \<noteq> [] then (Inr (), None, db)
     else (let credential = OperatorCredentialPrefix @ randomString random in
       if \<not> ok 2 then (Inl AccessDB, None, db)
       else if \<not> shown then (Inl ShowFailed, Some credential, db)
       else if \<not> ok 3 then (Inl AccessDB, Some credential, db)
       else (Inr (), Some credential,
             db\<lparr>operator_credential := [\<lparr>op_hash = sha credential, op_created_at = UnixMilli now\<rparr>]\<rparr>)))"

definition VerifyOperatorCredential ::
  "(bytes \<Rightarrow> bytes) \<Rightarrow> bool \<Rightarrow> DB \<Rightarrow> string \<Rightarrow> (access_error, bool) result" where
  "VerifyOperatorCredential sha ok db presented = (
     if \<not> ok then Inl AccessDB
     else (case operator_credential db of
        [] \<Rightarrow> Inr False
      | row # _ \<Rightarrow> Inr (op_hash row = sha presented)))"

section \<open>Agent Tokens\<close>

record AgentToken =
  at_ID :: string
  at_Policies :: "string list"
  at_CreatedAt :: ms
  at_ExpiresAt :: ms
  at_LastUsedAt :: "ms option"
  at_RevokedAt :: "ms option"

record IssuedAgentToken =
  iat_AgentToken :: AgentToken
  iat_Token :: string

fun issue_names :: "Config \<Rightarrow> string list \<Rightarrow> string list \<Rightarrow> (access_error, string list) result" where
  "issue_names cfg [] names = Inr names"
| "issue_names cfg (name # rest) names = (
     if map_of (cfg_Policies cfg) name = None then Inl (ValidationError (UnknownPolicy name))
     else issue_names cfg rest (if name \<in> set names then names else names @ [name]))"

text \<open>
  \<open>r1\<close> and \<open>r2\<close> are the random bytes of the ID and of the token. The insert fails when the
  ID or the hash is taken.
\<close>

definition IssueAgentToken ::
  "(bytes \<Rightarrow> bytes) \<Rightarrow> Config \<Rightarrow> bool \<Rightarrow> bytes \<Rightarrow> bytes \<Rightarrow> ns \<Rightarrow> string list \<Rightarrow> ns \<Rightarrow> DB \<Rightarrow>
     (access_error, IssuedAgentToken) result \<times> DB" where
  "IssueAgentToken sha cfg ok r1 r2 now policies expiresAt db = (
     if expiresAt = zero_time then (Inl (ValidationError ExpiryRequired), db)
     else if \<not> now < expiresAt then (Inl (ValidationError ExpiryNotInFuture), db)
     else if policies = [] then (Inl (ValidationError PolicyRequired), db)
     else (case issue_names cfg policies [] of
        Inl e \<Rightarrow> (Inl e, db)
      | Inr names \<Rightarrow>
          (let issued = \<lparr>iat_AgentToken = \<lparr>at_ID = randomString r1, at_Policies = names,
                 at_CreatedAt = UnixMilli now, at_ExpiresAt = UnixMilli expiresAt,
                 at_LastUsedAt = None, at_RevokedAt = None\<rparr>,
               iat_Token = AgentTokenPrefix @ randomString r2\<rparr>;
               row = \<lparr>tok_id = at_ID (iat_AgentToken issued), tok_hash = sha (iat_Token issued),
                 tok_policies = json_strings names, tok_created_at = UnixMilli now,
                 tok_expires_at = UnixMilli expiresAt, tok_last_used_at = None, tok_revoked_at = None\<rparr>
           in if \<not> ok \<or> list_ex (\<lambda>r. tok_id r = tok_id row \<or> tok_hash r = tok_hash row) (agent_tokens db)
              then (Inl AccessDB, db)
              else (Inr issued, db\<lparr>agent_tokens := agent_tokens db @ [row]\<rparr>))))"

definition RevokeAgentToken :: "bool \<Rightarrow> ns \<Rightarrow> string \<Rightarrow> DB \<Rightarrow> (access_error, unit) result \<times> DB" where
  "RevokeAgentToken ok now ident db = (
     if \<not> ok then (Inl AccessDB, db)
     else (let db' = db\<lparr>agent_tokens := map (\<lambda>r. if tok_id r = ident
               then r\<lparr>tok_revoked_at := Some (case tok_revoked_at r of None \<Rightarrow> UnixMilli now | Some t \<Rightarrow> t)\<rparr>
               else r) (agent_tokens db)\<rparr>
       in if \<not> list_ex (\<lambda>r. tok_id r = ident) (agent_tokens db) then (Inl (NotFoundError ident), db')
          else (Inr (), db')))"

definition scanAgentToken :: "agent_token_row \<Rightarrow> (access_error, AgentToken) result" where
  "scanAgentToken r = (case json_read_strings (tok_policies r) of
      None \<Rightarrow> Inl (DecodePolicies (tok_id r))
    | Some ps \<Rightarrow> Inr \<lparr>at_ID = tok_id r, at_Policies = ps, at_CreatedAt = tok_created_at r,
        at_ExpiresAt = tok_expires_at r, at_LastUsedAt = tok_last_used_at r,
        at_RevokedAt = tok_revoked_at r\<rparr>)"

text \<open>\<open>ORDER BY created_at DESC, id\<close>.\<close>

definition ListAgentTokens :: "bool \<Rightarrow> DB \<Rightarrow> (access_error, AgentToken list) result" where
  "ListAgentTokens ok db = (
     if \<not> ok then Inl AccessDB
     else emap scanAgentToken (sort_key (\<lambda>r. (- tok_created_at r, tok_id r)) (agent_tokens db)))"

text \<open>\<open>ok\<close> 0 is the update, 1 the query that finds out why it changed nothing.\<close>

definition AuthenticateAgentToken ::
  "(bytes \<Rightarrow> bytes) \<Rightarrow> (nat \<Rightarrow> bool) \<Rightarrow> ns \<Rightarrow> string \<Rightarrow> DB \<Rightarrow> (access_error, AgentToken) result \<times> DB" where
  "AuthenticateAgentToken sha ok t presented db = (
     if \<not> hasPrefix presented AgentTokenPrefix then (Inl ErrAgentTokenInvalid, db)
     else (let now = UnixMilli t;
               hit = (\<lambda>r. tok_hash r = sha presented \<and> tok_revoked_at r = None \<and> now < tok_expires_at r);
               use = (\<lambda>r. r\<lparr>tok_last_used_at := Some now\<rparr>)
       in if \<not> ok 0 then (Inl AccessDB, db)
          else (case find hit (agent_tokens db) of
             Some r \<Rightarrow> (scanAgentToken (use r),
                        db\<lparr>agent_tokens := map (\<lambda>r. if hit r then use r else r) (agent_tokens db)\<rparr>)
           | None \<Rightarrow>
               (if \<not> ok 1 then Inl AccessDB
                else (case find (\<lambda>r. tok_hash r = sha presented) (agent_tokens db) of
                   None \<Rightarrow> Inl ErrAgentTokenInvalid
                 | Some r \<Rightarrow> if tok_revoked_at r \<noteq> None then Inl ErrAgentTokenRevoked
                            else Inl ErrAgentTokenExpired), db))))"

section \<open>Policy decisions\<close>

datatype Denial = DenialUnknownSecretName | DenialPolicy | DenialMethod | DenialPath

text \<open>The entries of a token's Policies, in order. A Policy that is gone has none.\<close>

definition entries :: "Config \<Rightarrow> string list \<Rightarrow> SecretAccess list" where
  "entries cfg policies = concat (map (\<lambda>name.
     case map_of (cfg_Policies cfg) name of None \<Rightarrow> [] | Some p \<Rightarrow> pol_Secrets p) policies)"

text \<open>\<open>Inr ()\<close> is allowed, \<open>Inl\<close> the denial.\<close>

definition Authorize :: "Config \<Rightarrow> AgentToken \<Rightarrow> string \<Rightarrow> DeliveryMode \<Rightarrow> (Denial, unit) result" where
  "Authorize cfg tok secretName mode = (
     if map_of (cfg_Secrets cfg) secretName = None then Inl DenialUnknownSecretName
     else if list_ex (\<lambda>a. sa_SecretName a = secretName \<and> mode \<in> set (sa_Delivery a))
               (entries cfg (at_Policies tok)) then Inr ()
     else Inl DenialPolicy)"

fun authorize_entries :: "string \<Rightarrow> string \<Rightarrow> string \<Rightarrow> Denial \<Rightarrow> SecretAccess list \<Rightarrow> (Denial, unit) result" where
  "authorize_entries secretName mthd path denial [] = Inl denial"
| "authorize_entries secretName mthd path denial (a # as) = (
     if sa_SecretName a \<noteq> secretName \<or> DeliveryProxy \<notin> set (sa_Delivery a)
       then authorize_entries secretName mthd path denial as
     else if (case sa_Methods a of None \<Rightarrow> False | Some ms \<Rightarrow> mthd \<notin> set ms)
       then authorize_entries secretName mthd path (if denial = DenialPolicy then DenialMethod else denial) as
     else if (case sa_Paths a of None \<Rightarrow> False | Some ps \<Rightarrow> \<not> list_ex (\<lambda>p. PathPrefix_Matches p path) ps)
       then authorize_entries secretName mthd path DenialPath as
     else Inr ())"

definition AuthorizeProxy :: "Config \<Rightarrow> AgentToken \<Rightarrow> string \<Rightarrow> string \<Rightarrow> string \<Rightarrow> (Denial, unit) result" where
  "AuthorizeProxy cfg tok secretName mthd escapedPath = (
     if map_of (cfg_Secrets cfg) secretName = None then Inl DenialUnknownSecretName
     else authorize_entries secretName mthd escapedPath DenialPolicy (entries cfg (at_Policies tok)))"

section \<open>The token table as a machine\<close>

datatype access_op =
    EnsureOp "nat \<Rightarrow> bool" bool bytes ns
  | IssueOp Config bool bytes bytes ns "string list" ns
  | RevokeOp bool ns string
  | AuthenticateOp "nat \<Rightarrow> bool" ns string

fun access_step :: "(bytes \<Rightarrow> bytes) \<Rightarrow> DB \<Rightarrow> access_op \<Rightarrow> DB" where
  "access_step sha db (EnsureOp ok shown random now) = snd (snd (EnsureOperatorCredential sha ok shown random now db))"
| "access_step sha db (IssueOp cfg ok r1 r2 now policies expiresAt) =
     snd (IssueAgentToken sha cfg ok r1 r2 now policies expiresAt db)"
| "access_step sha db (RevokeOp ok now ident) = snd (RevokeAgentToken ok now ident db)"
| "access_step sha db (AuthenticateOp ok now presented) = snd (AuthenticateAgentToken sha ok now presented db)"

text \<open>What the schema's keys promise.\<close>

definition access_inv :: "DB \<Rightarrow> bool" where
  "access_inv db \<longleftrightarrow> distinct (map tok_id (agent_tokens db)) \<and> distinct (map tok_hash (agent_tokens db))
     \<and> length (operator_credential db) \<le> 1"

text \<open>A row later: everything but its use and revocation is kept, and a revocation stays.\<close>

definition row_le :: "agent_token_row \<Rightarrow> agent_token_row \<Rightarrow> bool" where
  "row_le r r' \<longleftrightarrow> tok_id r' = tok_id r \<and> tok_hash r' = tok_hash r \<and> tok_policies r' = tok_policies r
     \<and> tok_created_at r' = tok_created_at r \<and> tok_expires_at r' = tok_expires_at r
     \<and> (tok_revoked_at r \<noteq> None \<longrightarrow> tok_revoked_at r' = tok_revoked_at r)"

definition access_le :: "DB \<Rightarrow> DB \<Rightarrow> bool" where
  "access_le a b \<longleftrightarrow> (\<forall>r\<in>set (agent_tokens a). \<exists>r'\<in>set (agent_tokens b). row_le r r')
     \<and> (operator_credential a \<noteq> [] \<longrightarrow> operator_credential b = operator_credential a)"

lemma row_le_refl [simp]: "row_le r r"
  by (simp add: row_le_def)

lemma row_le_trans: "row_le a b \<Longrightarrow> row_le b c \<Longrightarrow> row_le a c"
  by (auto simp: row_le_def)

lemma access_le_map:
  assumes "\<And>r. row_le r (f r)"
  shows "access_le db (db\<lparr>agent_tokens := map f (agent_tokens db)\<rparr>)"
  using assms by (auto simp: access_le_def)

lemma row_le_keys: "(\<And>r. row_le r (f r)) \<Longrightarrow> map tok_id (map f rs) = map tok_id rs \<and> map tok_hash (map f rs) = map tok_hash rs"
  by (simp add: row_le_def)

text \<open>Every operation either maps the rows forward, appends a fresh row, or sets the credential.\<close>

lemma access_step_cases:
  obtains (rows) f where "access_step sha db a = db\<lparr>agent_tokens := map f (agent_tokens db)\<rparr>" "\<And>r. row_le r (f r)"
      "\<And>r. tok_revoked_at (f r) \<noteq> tok_revoked_at r \<Longrightarrow> \<exists>ok now. a = RevokeOp ok now (tok_id r)"
  | (fresh) r where "access_step sha db a = db\<lparr>agent_tokens := agent_tokens db @ [r]\<rparr>"
      "tok_id r \<notin> tok_id ` set (agent_tokens db)" "tok_hash r \<notin> tok_hash ` set (agent_tokens db)"
  | (credential) c where "access_step sha db a = db\<lparr>operator_credential := [c]\<rparr>" "operator_credential db = []"
proof -
  have same: "thesis" if "access_step sha db a = db"
    by (rule rows[of id]) (simp_all add: that)
  show thesis
  proof (cases a)
    case (EnsureOp ok shown random now)
    show thesis
    proof (cases "access_step sha db a = db")
      case False
      then show thesis
        by (intro credential[of "\<lparr>op_hash = sha (OperatorCredentialPrefix @ randomString random), op_created_at = UnixMilli now\<rparr>"])
           (auto simp: EnsureOp EnsureOperatorCredential_def Let_def split: if_splits)
    qed (rule same)
  next
    case (IssueOp cfg ok r1 r2 now policies expiresAt)
    show thesis
    proof (cases "access_step sha db a = db")
      case False
      obtain names where names: "issue_names cfg policies [] = Inr names"
        using False by (auto simp: IssueOp IssueAgentToken_def split: if_splits sum.splits)
      define row where "row = \<lparr>tok_id = randomString r1, tok_hash = sha (AgentTokenPrefix @ randomString r2),
         tok_policies = json_strings names, tok_created_at = UnixMilli now,
         tok_expires_at = UnixMilli expiresAt, tok_last_used_at = None, tok_revoked_at = None\<rparr>"
      show thesis
        using False names
        by (intro fresh[of row])
           (auto simp: row_def IssueOp IssueAgentToken_def Let_def list_ex_iff split: if_splits sum.splits)
    qed (rule same)
  next
    case (RevokeOp ok now ident)
    show thesis
    proof (cases ok)
      case True
      then show thesis
        by (intro rows[of "\<lambda>r. if tok_id r = ident
            then r\<lparr>tok_revoked_at := Some (case tok_revoked_at r of None \<Rightarrow> UnixMilli now | Some t \<Rightarrow> t)\<rparr> else r"])
           (auto simp: RevokeOp RevokeAgentToken_def Let_def row_le_def split: if_splits option.splits)
    next
      case False
      then show thesis by (intro same) (simp add: RevokeOp RevokeAgentToken_def)
    qed
  next
    case (AuthenticateOp ok now presented)
    show thesis
    proof (cases "access_step sha db a = db")
      case False
      then show thesis
        by (intro rows[of "\<lambda>r. if tok_hash r = sha presented \<and> tok_revoked_at r = None \<and> UnixMilli now < tok_expires_at r
              then r\<lparr>tok_last_used_at := Some (UnixMilli now)\<rparr> else r"])
           (auto simp: AuthenticateOp AuthenticateAgentToken_def Let_def row_le_def split: if_splits option.splits)
    qed (rule same)
  qed
qed

lemma access_inv_step: "access_inv db \<Longrightarrow> access_inv (access_step sha db a)"
proof (cases sha db a rule: access_step_cases)
  case (rows f)
  assume "access_inv db"
  with rows row_le_keys[of f "agent_tokens db"] show ?thesis by (simp add: access_inv_def del: map_map)
qed (auto simp: access_inv_def)

lemma access_le_step: "access_le db (access_step sha db a)"
proof (cases sha db a rule: access_step_cases)
  case (rows f)
  then show ?thesis using access_le_map by auto
next
  case (fresh r)
  have "\<exists>x\<in>set (agent_tokens db @ [r]). row_le y x" if "y \<in> set (agent_tokens db)" for y
    using that row_le_refl by fastforce
  with fresh(1) show ?thesis by (auto simp: access_le_def)
next
  case (credential c)
  have "\<exists>x\<in>set (agent_tokens db). row_le y x" if "y \<in> set (agent_tokens db)" for y
    using that row_le_refl by blast
  with credential show ?thesis by (auto simp: access_le_def)
qed

lemma access_le_trans: "access_le a b \<Longrightarrow> access_le b c \<Longrightarrow> access_le a c"
  unfolding access_le_def by (metis row_le_trans)

interpretation tokens: machine "access_step sha" access_inv access_le
proof unfold_locales
  show "access_le s s" for s unfolding access_le_def using row_le_refl by blast
qed (auto intro: access_inv_step access_le_step access_le_trans)

lemma same_id_row:
  "access_inv db \<Longrightarrow> r \<in> set (agent_tokens db) \<Longrightarrow> r' \<in> set (agent_tokens db) \<Longrightarrow> tok_id r = tok_id r' \<Longrightarrow> r = r'"
  by (auto simp: access_inv_def distinct_map dest: inj_onD)

lemma same_hash_row:
  "access_inv db \<Longrightarrow> r \<in> set (agent_tokens db) \<Longrightarrow> r' \<in> set (agent_tokens db) \<Longrightarrow> tok_hash r = tok_hash r' \<Longrightarrow> r = r'"
  by (auto simp: access_inv_def distinct_map dest: inj_onD)

lemma unrevoked_step:
  assumes "r \<in> set (agent_tokens db)" and "tok_revoked_at r = None"
    and "\<forall>ok now. a \<noteq> RevokeOp ok now (tok_id r)"
  shows "\<exists>r'\<in>set (agent_tokens (access_step sha db a)). row_le r r' \<and> tok_revoked_at r' = None"
proof (cases sha db a rule: access_step_cases)
  case (rows f)
  with assms have "tok_revoked_at (f r) = None" by metis
  with rows assms(1) show ?thesis by auto
next
  case (fresh r0)
  with assms show ?thesis by (intro bexI[of _ r]) auto
next
  case (credential c)
  with assms show ?thesis by (intro bexI[of _ r]) auto
qed

lemma unrevoked_run:
  assumes "r \<in> set (agent_tokens db)" and "tok_revoked_at r = None"
    and "\<forall>a\<in>set ops. \<forall>ok now. a \<noteq> RevokeOp ok now (tok_id r)"
  shows "\<exists>r'\<in>set (agent_tokens (foldl (access_step sha) db ops)). row_le r r' \<and> tok_revoked_at r' = None"
  using assms
proof (induction ops arbitrary: db r)
  case Nil
  then show ?case by (intro bexI[of _ r]) auto
next
  case (Cons a ops)
  obtain r1 where r1: "r1 \<in> set (agent_tokens (access_step sha db a))" "row_le r r1" "tok_revoked_at r1 = None"
    using unrevoked_step[OF Cons.prems(1,2), of a sha] Cons.prems(3) by (metis list.set_intros(1))
  then have "\<forall>a\<in>set ops. \<forall>ok now. a \<noteq> RevokeOp ok now (tok_id r1)"
    using Cons.prems(3) by (auto simp: row_le_def)
  from Cons.IH[OF r1(1,3) this] r1(2) row_le_trans show ?case by auto
qed

section \<open>Properties of the credentials\<close>

text \<open>Exactly when, and with what, a presented value authenticates.\<close>

lemma Authenticate_Inr_iff:
  "fst (AuthenticateAgentToken sha ok t presented db) = Inr tok \<longleftrightarrow>
     hasPrefix presented AgentTokenPrefix \<and> ok 0 \<and>
     (\<exists>r. find (\<lambda>r. tok_hash r = sha presented \<and> tok_revoked_at r = None \<and> UnixMilli t < tok_expires_at r)
            (agent_tokens db) = Some r
        \<and> scanAgentToken (r\<lparr>tok_last_used_at := Some (UnixMilli t)\<rparr>) = Inr tok)"
  by (auto simp: AuthenticateAgentToken_def Let_def split: option.splits)

lemma issue_names_InrD:
  "issue_names cfg policies names = Inr ns \<Longrightarrow>
     set ns = set names \<union> set policies \<and> (\<forall>p\<in>set policies. map_of (cfg_Policies cfg) p \<noteq> None)
     \<and> (distinct names \<longrightarrow> distinct ns)"
proof (induction policies arbitrary: names)
  case (Cons name rest)
  let ?names = "if name \<in> set names then names else names @ [name]"
  have known: "map_of (cfg_Policies cfg) name \<noteq> None"
  proof
    assume "map_of (cfg_Policies cfg) name = None"
    with Cons.prems show False by simp
  qed
  with Cons.prems have rest: "issue_names cfg rest ?names = Inr ns"
    by (simp only: issue_names.simps if_False)
  have nm: "set ?names = insert name (set names)" "distinct names \<Longrightarrow> distinct ?names" by auto
  from Cons.IH[OF rest] known nm show ?case by simp
qed simp

lemma Issue_InrD:
  assumes "IssueAgentToken sha cfg ok r1 r2 now policies expiresAt db = (Inr issued, db')"
  obtains names row where "issue_names cfg policies [] = Inr names"
    "db' = db\<lparr>agent_tokens := agent_tokens db @ [row]\<rparr>"
    "tok_id row = at_ID (iat_AgentToken issued)" "tok_hash row = sha (iat_Token issued)"
    "tok_policies row = json_strings names" "at_Policies (iat_AgentToken issued) = names"
    "tok_expires_at row = at_ExpiresAt (iat_AgentToken issued)"
    "tok_created_at row = at_CreatedAt (iat_AgentToken issued)"
    "tok_revoked_at row = None" "iat_Token issued = AgentTokenPrefix @ randomString r2"
    "tok_id row \<notin> tok_id ` set (agent_tokens db)" "tok_hash row \<notin> tok_hash ` set (agent_tokens db)"
proof -
  obtain names where names: "issue_names cfg policies [] = Inr names"
    using assms by (auto simp: IssueAgentToken_def split: if_splits sum.splits)
  define row where "row = \<lparr>tok_id = randomString r1, tok_hash = sha (AgentTokenPrefix @ randomString r2),
     tok_policies = json_strings names, tok_created_at = UnixMilli now,
     tok_expires_at = UnixMilli expiresAt, tok_last_used_at = None, tok_revoked_at = None\<rparr>"
  show thesis
    using assms names
    by (intro that[of names row])
       (auto simp: row_def IssueAgentToken_def Let_def list_ex_iff split: if_splits)
qed

text \<open>
  C6: an Agent Token that was issued authenticates with the Policies it was issued with, in
  every later state, as long as it has not expired and no one revoked it, whatever other
  tokens were issued, used or revoked meanwhile.
\<close>

theorem issued_token_authenticates:
  assumes "access_inv db"
    and "IssueAgentToken sha cfg ok r1 r2 now policies expiresAt db = (Inr issued, db')"
    and "\<forall>p\<in>set policies. validString p"
    and "\<forall>a\<in>set ops. \<forall>ok now. a \<noteq> RevokeOp ok now (at_ID (iat_AgentToken issued))"
    and "UnixMilli t < at_ExpiresAt (iat_AgentToken issued)" and "ok' 0"
  shows "\<exists>tok. fst (AuthenticateAgentToken sha ok' t (iat_Token issued) (foldl (access_step sha) db' ops)) = Inr tok
    \<and> at_ID tok = at_ID (iat_AgentToken issued) \<and> at_Policies tok = at_Policies (iat_AgentToken issued)
    \<and> set (at_Policies tok) = set policies"
  using assms(2)
proof (cases rule: Issue_InrD)
  case (1 names row)
  define db2 where "db2 = foldl (access_step sha) db' ops"
  have "access_inv db'" using assms(1) 1 by (auto simp: access_inv_def)
  then have inv: "access_inv db2" unfolding db2_def by (rule tokens.inv_run)
  obtain r where r: "r \<in> set (agent_tokens db2)" "row_le row r" "tok_revoked_at r = None"
    using unrevoked_run[of row db' ops sha] 1 assms(4) by (auto simp: db2_def)
  have "find (\<lambda>r. tok_hash r = sha (iat_Token issued) \<and> tok_revoked_at r = None \<and> UnixMilli t < tok_expires_at r)
      (agent_tokens db2) = Some r"
    using r 1 assms(5) same_hash_row[OF inv] by (intro find_unique) (auto simp: row_le_def)
  moreover have "json_read_strings (tok_policies r) = Some names"
    using r(2) 1 issue_names_InrD[OF 1(1)] assms(3) json_read_strings_strings[of names] by (auto simp: row_le_def)
  moreover have "tok_id r = at_ID (iat_AgentToken issued)" using r(2) 1 by (auto simp: row_le_def)
  ultimately show ?thesis
    using 1 assms(6) issue_names_InrD[OF 1(1)]
    unfolding db2_def[symmetric] Authenticate_Inr_iff by (auto simp: scanAgentToken_def)
qed

text \<open>A snapshot for the witnesses: one Policy that allows \<open>GET\<close> of one Secret Name below a path.\<close>

definition example_issue :: "(access_error, IssuedAgentToken) result \<times> DB" where
  "example_issue = IssueAgentToken (\<lambda>x. x) example_cfg True ''i'' ''s'' 1000000 [''ci'', ''ci''] 5000000 empty_DB"

definition example_issued :: IssuedAgentToken where
  "example_issued = \<lparr>iat_AgentToken = \<lparr>at_ID = randomString ''i'', at_Policies = [''ci''],
      at_CreatedAt = 1, at_ExpiresAt = 5, at_LastUsedAt = None, at_RevokedAt = None\<rparr>,
    iat_Token = AgentTokenPrefix @ randomString ''s''\<rparr>"

definition example_db :: DB where
  "example_db = empty_DB\<lparr>agent_tokens := [\<lparr>tok_id = randomString ''i'',
     tok_hash = AgentTokenPrefix @ randomString ''s'', tok_policies = json_strings [''ci''],
     tok_created_at = 1, tok_expires_at = 5, tok_last_used_at = None, tok_revoked_at = None\<rparr>]\<rparr>"

lemma example_issue_ok: "example_issue = (Inr example_issued, example_db)"
  by (simp add: example_issue_def example_issued_def example_db_def IssueAgentToken_def example_cfg_def
      UnixMilli_def zero_time_def empty_DB_def Let_def)

lemma example_db_inv: "access_inv example_db" "access_inv empty_DB"
  by (simp_all add: access_inv_def example_db_def empty_DB_def)

theorem issued_token_authenticates_witness:
  "\<exists>tok. fst (AuthenticateAgentToken (\<lambda>x. x) (\<lambda>_. True) 4000000 (iat_Token example_issued)
      (foldl (access_step (\<lambda>x. x)) example_db [RevokeOp True 2000000 ''other'', AuthenticateOp (\<lambda>_. True) 3000000 ''x''])) = Inr tok
    \<and> at_ID tok = at_ID (iat_AgentToken example_issued)
    \<and> at_Policies tok = at_Policies (iat_AgentToken example_issued) \<and> set (at_Policies tok) = set [''ci'', ''ci'']"
proof (rule issued_token_authenticates[OF example_db_inv(2) example_issue_ok[unfolded example_issue_def]])
  have "randomString ''i'' \<noteq> ''other''" by (simp add: randomString_def list_eq_iff_nth_eq length_base32_lower)
  then show "\<forall>a\<in>set [RevokeOp True 2000000 ''other'', AuthenticateOp (\<lambda>_. True) 3000000 ''x''].
      \<forall>ok now. a \<noteq> RevokeOp ok now (at_ID (iat_AgentToken example_issued))"
    by (simp add: example_issued_def)
qed (simp_all add: example_issued_def UnixMilli_def validString_ascii)

text \<open>
  C5: once a token is revoked, no later sequence of operations, clock reading or presented
  value ever authenticates as it again, and its first revocation time is kept.
\<close>

theorem revoked_token_never_authenticates:
  assumes "access_inv db" and "RevokeAgentToken ok now ident db = (Inr (), db')"
  shows "(\<exists>\<tau>. \<forall>ops. \<exists>r\<in>set (agent_tokens (foldl (access_step sha) db' ops)). tok_id r = ident \<and> tok_revoked_at r = Some \<tau>)
    \<and> (\<forall>ops ok' t presented tok.
        fst (AuthenticateAgentToken sha ok' t presented (foldl (access_step sha) db' ops)) = Inr tok \<longrightarrow> at_ID tok \<noteq> ident)"
proof -
  obtain r where r: "r \<in> set (agent_tokens db')" "tok_id r = ident" "tok_revoked_at r \<noteq> None"
    using assms(2) by (fastforce simp: RevokeAgentToken_def Let_def list_ex_iff split: if_splits)
  have inv': "access_inv db'" using access_inv_step[OF assms(1), of sha "RevokeOp ok now ident"] assms(2) by simp
  have kept: "\<exists>r'\<in>set (agent_tokens (foldl (access_step sha) db' ops)). tok_id r' = ident \<and> tok_revoked_at r' = tok_revoked_at r" for ops
    using tokens.le_run[OF inv', of sha ops] r unfolding access_le_def row_le_def by metis
  moreover have "at_ID tok \<noteq> ident"
    if auth: "fst (AuthenticateAgentToken sha ok' t presented (foldl (access_step sha) db' ops)) = Inr tok" for ops ok' t presented tok
  proof
    let ?db = "foldl (access_step sha) db' ops"
    assume id: "at_ID tok = ident"
    obtain x where x: "x \<in> set (agent_tokens ?db)" "tok_revoked_at x = None" "tok_id x = at_ID tok"
      using auth unfolding Authenticate_Inr_iff
      by (fastforce dest!: find_SomeD simp: scanAgentToken_def split: option.splits)
    obtain r' where r': "r' \<in> set (agent_tokens ?db)" "tok_id r' = ident" "tok_revoked_at r' = tok_revoked_at r"
      using kept by blast
    have "x = r'" using same_id_row[OF tokens.inv_run[OF inv'] x(1) r'(1)] x(3) id r'(2) by simp
    with x(2) r'(3) r(3) show False by simp
  qed
  moreover obtain \<tau> where "tok_revoked_at r = Some \<tau>" using r(3) by blast
  ultimately show ?thesis by metis
qed

theorem revoked_token_never_authenticates_witness:
  "\<forall>tok. fst (AuthenticateAgentToken (\<lambda>x. x) (\<lambda>_. True) 3000000 (iat_Token example_issued)
      (foldl (access_step (\<lambda>x. x)) (snd (RevokeAgentToken True 2000000 (randomString ''i'') example_db))
        [AuthenticateOp (\<lambda>_. True) 2500000 ''tcat_x'']))
    \<noteq> Inr (tok\<lparr>at_ID := randomString ''i''\<rparr>)"
proof -
  have "RevokeAgentToken True 2000000 (randomString ''i'') example_db
      = (Inr (), snd (RevokeAgentToken True 2000000 (randomString ''i'') example_db))"
    by (simp add: RevokeAgentToken_def example_db_def Let_def)
  from revoked_token_never_authenticates[OF example_db_inv(1) this, of "\<lambda>x. x"] show ?thesis
    by fastforce
qed

text \<open>
  What authentication answers: an unknown value or one without the prefix is invalid, a
  revoked token is revoked even when it also expired, an expired one is expired, and any
  other is the stored token with this use recorded.
\<close>

theorem authenticate_answers:
  assumes "access_inv db" and "ok 0" and "ok 1" and "hasPrefix presented AgentTokenPrefix"
  shows "fst (AuthenticateAgentToken sha ok t presented db) =
    (case find (\<lambda>r. tok_hash r = sha presented) (agent_tokens db) of
       None \<Rightarrow> Inl ErrAgentTokenInvalid
     | Some r \<Rightarrow> if tok_revoked_at r \<noteq> None then Inl ErrAgentTokenRevoked
                else if tok_expires_at r \<le> UnixMilli t then Inl ErrAgentTokenExpired
                else scanAgentToken (r\<lparr>tok_last_used_at := Some (UnixMilli t)\<rparr>))"
proof (cases "find (\<lambda>r. tok_hash r = sha presented) (agent_tokens db)")
  case None
  then have "find (\<lambda>r. tok_hash r = sha presented \<and> tok_revoked_at r = None \<and> UnixMilli t < tok_expires_at r)
      (agent_tokens db) = None" unfolding find_None_iff by blast
  with None assms show ?thesis by (simp add: AuthenticateAgentToken_def Let_def)
next
  case (Some r)
  note r = find_SomeD[OF Some]
  let ?hit = "\<lambda>r. tok_hash r = sha presented \<and> tok_revoked_at r = None \<and> UnixMilli t < tok_expires_at r"
  have uniq: "y = r" if "y \<in> set (agent_tokens db)" "tok_hash y = sha presented" for y
    using same_hash_row[OF assms(1) that(1)] r that(2) by simp
  show ?thesis
  proof (cases "tok_revoked_at r = None \<and> UnixMilli t < tok_expires_at r")
    case True
    then have "find ?hit (agent_tokens db) = Some r" using r uniq by (intro find_unique) auto
    with True Some assms show ?thesis by (simp add: AuthenticateAgentToken_def Let_def)
  next
    case False
    then have "find ?hit (agent_tokens db) = None" using uniq by (auto simp: find_None_iff)
    with False Some assms show ?thesis by (auto simp: AuthenticateAgentToken_def Let_def)
  qed
qed

theorem authenticate_answers_witness:
  "fst (AuthenticateAgentToken (\<lambda>x. x) (\<lambda>_. True) 5000000 (AgentTokenPrefix @ randomString ''s'') example_db)
     = Inl ErrAgentTokenExpired"
  using authenticate_answers[OF example_db_inv(1), of "\<lambda>_. True" "AgentTokenPrefix @ randomString ''s''" "\<lambda>x. x" 5000000]
  by (simp add: example_db_def UnixMilli_def)

text \<open>
  The Operator Credential is created once: the first boot that can show it stores
  exactly what was shown, a boot that cannot show it stores nothing, and from then on no
  operation replaces it and only a value with the stored hash verifies.
\<close>

theorem operator_credential_created_once:
  assumes "access_inv db" and "operator_credential db = []"
    and "EnsureOperatorCredential sha ok shown random now db = (res, displayed, db')"
  shows "(res = Inr () \<longrightarrow> (\<exists>c. displayed = Some c \<and> hasPrefix c OperatorCredentialPrefix
        \<and> (\<forall>ops p. VerifyOperatorCredential sha True (foldl (access_step sha) db' ops) p = Inr (sha p = sha c))))
    \<and> (res \<noteq> Inr () \<longrightarrow> db' = db) \<and> (\<not> shown \<longrightarrow> res \<noteq> Inr ())"
proof -
  have fail: "res \<noteq> Inr () \<Longrightarrow> db' = db" and ns: "\<not> shown \<Longrightarrow> res \<noteq> Inr ()"
    using assms by (auto simp: EnsureOperatorCredential_def Let_def split: if_splits)
  have "\<exists>c. displayed = Some c \<and> hasPrefix c OperatorCredentialPrefix
      \<and> (\<forall>ops p. VerifyOperatorCredential sha True (foldl (access_step sha) db' ops) p = Inr (sha p = sha c))"
    if "res = Inr ()"
  proof -
    define c where "c = OperatorCredentialPrefix @ randomString random"
    have db': "operator_credential db' = [\<lparr>op_hash = sha c, op_created_at = UnixMilli now\<rparr>]" "displayed = Some c"
      using assms that by (auto simp: EnsureOperatorCredential_def Let_def c_def split: if_splits)
    have inv': "access_inv db'" using access_inv_step[OF assms(1), of sha "EnsureOp ok shown random now"] assms(3) by simp
    have "operator_credential (foldl (access_step sha) db' ops) = operator_credential db'" for ops
      using tokens.le_run[OF inv', of sha ops] db'(1) by (simp add: access_le_def)
    then show ?thesis using db' by (auto simp: VerifyOperatorCredential_def c_def)
  qed
  with fail ns show ?thesis by blast
qed

theorem operator_credential_created_once_witness:
  "\<exists>c. hasPrefix c OperatorCredentialPrefix
     \<and> VerifyOperatorCredential (\<lambda>x. x) True
         (snd (snd (EnsureOperatorCredential (\<lambda>x. x) (\<lambda>_. True) True ''k'' 7 empty_DB))) c = Inr True"
proof -
  obtain res d db' where e: "EnsureOperatorCredential (\<lambda>x. x) (\<lambda>_. True) True ''k'' 7 empty_DB = (res, d, db')"
    by (cases "EnsureOperatorCredential (\<lambda>x. x) (\<lambda>_. True) True ''k'' 7 empty_DB")
  moreover have "res = Inr ()" using e by (simp add: EnsureOperatorCredential_def empty_DB_def Let_def)
  moreover have "operator_credential empty_DB = []" by (simp add: empty_DB_def)
  ultimately obtain c where c: "hasPrefix c OperatorCredentialPrefix"
    "\<forall>ops p. VerifyOperatorCredential (\<lambda>x. x) True (foldl (access_step (\<lambda>x. x)) db' ops) p = Inr (p = c)"
    using operator_credential_created_once[OF example_db_inv(2) _ e] by blast
  from c(2)[rule_format, of "[]"] have "VerifyOperatorCredential (\<lambda>x. x) True db' c = Inr True" by simp
  with c(1) e show ?thesis by auto
qed

lemma scan_rows_fields:
  assumes "list_all2 (\<lambda>r t. scanAgentToken r = Inr t) rows toks"
  shows "map (\<lambda>r. (- tok_created_at r, tok_id r)) rows = map (\<lambda>a. (- at_CreatedAt a, at_ID a)) toks"
    and "map tok_id rows = map at_ID toks"
  using assms by (induction rule: list_all2_induct) (auto simp: scanAgentToken_def split: option.splits)

text \<open>
  The list of Agent Tokens is newest first, ties by ID, and holds exactly the table's
  tokens.
\<close>

theorem list_newest_first:
  assumes "ListAgentTokens True db = Inr toks"
  shows "sorted (map (\<lambda>a. (- at_CreatedAt a, at_ID a)) toks)
    \<and> set (map at_ID toks) = set (map tok_id (agent_tokens db)) \<and> length toks = length (agent_tokens db)"
proof -
  let ?rows = "sort_key (\<lambda>r. (- tok_created_at r, tok_id r)) (agent_tokens db)"
  have all: "list_all2 (\<lambda>r t. scanAgentToken r = Inr t) ?rows toks"
    using assms by (simp add: ListAgentTokens_def emap_Inr_iff)
  note F = scan_rows_fields[OF all]
  have "sorted (map (\<lambda>a. (- at_CreatedAt a, at_ID a)) toks)"
    unfolding F(1)[symmetric] by (rule sorted_sort_key)
  moreover have "set (map at_ID toks) = set (map tok_id (agent_tokens db))"
    unfolding F(2)[symmetric] by simp
  ultimately show ?thesis using list_all2_lengthD[OF all] by simp
qed

theorem list_newest_first_witness:
  "\<exists>toks. ListAgentTokens True example_db = Inr toks
     \<and> sorted (map (\<lambda>a. (- at_CreatedAt a, at_ID a)) toks) \<and> length toks = 1"
proof -
  have "json_read_strings (json_strings [''ci'']) = Some [''ci'']"
    by (simp add: json_read_strings_strings validString_ascii)
  then obtain toks where "ListAgentTokens True example_db = Inr toks"
    by (simp add: ListAgentTokens_def example_db_def scanAgentToken_def)
  with list_newest_first[OF this] show ?thesis by (simp add: example_db_def)
qed

section \<open>Properties of the Policy decision\<close>

text \<open>What an entry says about a Proxy Delivery.\<close>

definition entry_proxies :: "string \<Rightarrow> SecretAccess \<Rightarrow> bool" where
  "entry_proxies secretName a \<longleftrightarrow> sa_SecretName a = secretName \<and> DeliveryProxy \<in> set (sa_Delivery a)"

definition entry_method :: "string \<Rightarrow> SecretAccess \<Rightarrow> bool" where
  "entry_method mthd a \<longleftrightarrow> (\<forall>ms. sa_Methods a = Some ms \<longrightarrow> mthd \<in> set ms)"

definition entry_path :: "string \<Rightarrow> SecretAccess \<Rightarrow> bool" where
  "entry_path path a \<longleftrightarrow> (\<forall>ps. sa_Paths a = Some ps \<longrightarrow> (\<exists>p\<in>set ps. PathPrefix_Matches p path))"

lemma authorize_entries_Cons:
  "authorize_entries secretName mthd path d (a # as) = (
     if \<not> entry_proxies secretName a then authorize_entries secretName mthd path d as
     else if \<not> entry_method mthd a
       then authorize_entries secretName mthd path (if d = DenialPolicy then DenialMethod else d) as
     else if \<not> entry_path path a then authorize_entries secretName mthd path DenialPath as
     else Inr ())"
proof -
  have m: "(case sa_Methods a of None \<Rightarrow> False | Some ms \<Rightarrow> mthd \<notin> set ms) \<longleftrightarrow> \<not> entry_method mthd a"
    by (auto simp: entry_method_def split: option.splits)
  have p: "(case sa_Paths a of None \<Rightarrow> False | Some ps \<Rightarrow> \<not> list_ex (\<lambda>p. PathPrefix_Matches p path) ps)
      \<longleftrightarrow> \<not> entry_path path a"
    by (auto simp: entry_path_def list_ex_iff split: option.splits)
  have e: "(sa_SecretName a \<noteq> secretName \<or> DeliveryProxy \<notin> set (sa_Delivery a)) \<longleftrightarrow> \<not> entry_proxies secretName a"
    by (auto simp: entry_proxies_def)
  show ?thesis by (simp only: authorize_entries.simps m p e)
qed

lemma authorize_entries_spec:
  "authorize_entries secretName mthd path d as = (
     if list_ex (\<lambda>a. entry_proxies secretName a \<and> entry_method mthd a \<and> entry_path path a) as then Inr ()
     else if list_ex (\<lambda>a. entry_proxies secretName a \<and> entry_method mthd a) as then Inl DenialPath
     else if list_ex (entry_proxies secretName) as \<and> d = DenialPolicy then Inl DenialMethod
     else Inl d)"
proof (induction as arbitrary: d)
  case (Cons a as)
  consider "\<not> entry_proxies secretName a" | "entry_proxies secretName a" "\<not> entry_method mthd a"
    | "entry_proxies secretName a" "entry_method mthd a" "\<not> entry_path path a"
    | "entry_proxies secretName a" "entry_method mthd a" "entry_path path a" by blast
  then show ?case
    by cases (simp_all add: authorize_entries_Cons Cons.IH del: authorize_entries.simps)
qed simp

text \<open>
  A Proxy Delivery is allowed exactly when one entry of the token's Policies allows the
  Secret Name, the method and the path together; otherwise the denial names the last
  hurdle some entry reached: the path, else the method, else no entry at all.
\<close>

theorem AuthorizeProxy_decides:
  "AuthorizeProxy cfg tok secretName mthd path = (
     let es = filter (entry_proxies secretName) (entries cfg (at_Policies tok)) in
     if map_of (cfg_Secrets cfg) secretName = None then Inl DenialUnknownSecretName
     else if \<exists>a\<in>set es. entry_method mthd a \<and> entry_path path a then Inr ()
     else if \<exists>a\<in>set es. entry_method mthd a then Inl DenialPath
     else if es \<noteq> [] then Inl DenialMethod
     else Inl DenialPolicy)"
  by (auto simp: AuthorizeProxy_def authorize_entries_spec Let_def filter_empty_conv list_ex_iff)

text \<open>
  Allowing one Delivery mode never allows the other: Reveal Delivery needs an entry that
  names reveal, and an allowed Proxy Delivery needs an entry that names proxy, under a
  Policy the token carries and the running config still has.
\<close>

theorem Authorize_names_mode:
  "(Authorize cfg tok secretName mode = Inr () \<longleftrightarrow> map_of (cfg_Secrets cfg) secretName \<noteq> None
     \<and> (\<exists>name\<in>set (at_Policies tok). \<exists>p. map_of (cfg_Policies cfg) name = Some p
          \<and> (\<exists>a\<in>set (pol_Secrets p). sa_SecretName a = secretName \<and> mode \<in> set (sa_Delivery a))))
   \<and> (AuthorizeProxy cfg tok secretName mthd path = Inr () \<longrightarrow> Authorize cfg tok secretName DeliveryProxy = Inr ())"
proof
  show "Authorize cfg tok secretName mode = Inr () \<longleftrightarrow> map_of (cfg_Secrets cfg) secretName \<noteq> None
     \<and> (\<exists>name\<in>set (at_Policies tok). \<exists>p. map_of (cfg_Policies cfg) name = Some p
          \<and> (\<exists>a\<in>set (pol_Secrets p). sa_SecretName a = secretName \<and> mode \<in> set (sa_Delivery a)))"
  proof -
    have "list_ex P (entries cfg ps) \<longleftrightarrow> (\<exists>name\<in>set ps. \<exists>p. map_of (cfg_Policies cfg) name = Some p \<and> (\<exists>a\<in>set (pol_Secrets p). P a))" for P ps
    proof (induction ps)
      case (Cons name ps)
      then show ?case by (cases "map_of (cfg_Policies cfg) name") (simp_all add: entries_def, auto simp: list_ex_iff)
    qed (simp add: entries_def)
    then show ?thesis by (simp add: Authorize_def)
  qed
  show "AuthorizeProxy cfg tok secretName mthd path = Inr () \<longrightarrow> Authorize cfg tok secretName DeliveryProxy = Inr ()"
    by (auto simp: AuthorizeProxy_def Authorize_def authorize_entries_spec entry_proxies_def list_ex_iff split: if_splits)
qed

theorem Authorize_names_mode_witness:
  "Authorize example_cfg (iat_AgentToken example_issued) ''gh'' DeliveryProxy = Inr ()
   \<and> Authorize example_cfg (iat_AgentToken example_issued) ''gh'' DeliveryReveal \<noteq> Inr ()"
proof -
  have "AuthorizeProxy example_cfg (iat_AgentToken example_issued) ''gh'' ''GET'' ''/repos/x'' = Inr ()"
    by (simp add: AuthorizeProxy_def example_cfg_def example_issued_def entries_def path_eval)
  with Authorize_names_mode[of example_cfg "iat_AgentToken example_issued" "''gh''" DeliveryReveal "''GET''" "''/repos/x''"]
  show ?thesis by (simp add: example_cfg_def example_issued_def)
qed

end
