(* ===== verification/Audit_Log.thy ===== *)
theory Audit_Log
  imports Store Go_JSON
begin

text \<open>
  \<open>internal/audit/audit.go\<close>: Audit Records, their hash chain, the signed checkpoints and
  \<open>Verify\<close>. SHA-256 and Ed25519 are fields of \<open>crypto\<close>; which database statements, stream
  writes and signatures succeed, and what the clock reads, are functions of a counter the
  state carries (\<open>outcomes\<close>), so that a run of operations has every error path. \<open>Verify\<close> is
  given the database each of its queries sees, because the first walk runs while records
  are still appended.
\<close>

section \<open>Records and their encoding\<close>

record crypto =
  sha256 :: "bytes \<Rightarrow> bytes"
  ed_sign :: "bytes \<Rightarrow> bytes \<Rightarrow> bytes"
  ed_public :: "bytes \<Rightarrow> bytes"
  ed_verify :: "bytes \<Rightarrow> bytes \<Rightarrow> bytes \<Rightarrow> bool"

record Record =
  rec_AgentTokenID :: string
  rec_SecretName :: string
  rec_Delivery :: string
  rec_Upstream :: string
  rec_UpstreamHost :: string
  rec_Decision :: string
  rec_Reason :: string
  rec_UpstreamStatus :: int
  rec_Failure :: string

record entry =
  ent_Seq :: int
  ent_Time :: string
  ent_AgentTokenID :: string
  ent_SecretName :: string
  ent_Delivery :: string
  ent_Upstream :: string
  ent_UpstreamHost :: string
  ent_Decision :: string
  ent_Reason :: string
  ent_UpstreamStatus :: "int option"
  ent_Failure :: string
  ent_PrevHash :: string
  ent_Hash :: string

text \<open>\<open>json.Marshal\<close> of an entry: the fields in order, \<open>hash\<close> only when it is set.\<close>

definition json_int_option :: "int option \<Rightarrow> string" where
  "json_int_option i = (case i of None \<Rightarrow> ''null'' | Some n \<Rightarrow> decimal_int n)"

definition json_field :: "string \<times> string \<Rightarrow> string" where
  "json_field kv = json_string (fst kv) @ '':'' @ snd kv"

definition json_entry :: "entry \<Rightarrow> string" where
  "json_entry e = ''{'' @ joinc '','' (map json_field (
     [(''seq'', decimal_int (ent_Seq e)),
      (''time'', json_string (ent_Time e)),
      (''agent_token_id'', json_string (ent_AgentTokenID e)),
      (''secret_name'', json_string (ent_SecretName e)),
      (''delivery'', json_string (ent_Delivery e)),
      (''upstream'', json_string (ent_Upstream e)),
      (''upstream_host'', json_string (ent_UpstreamHost e)),
      (''decision'', json_string (ent_Decision e)),
      (''reason'', json_string (ent_Reason e)),
      (''upstream_status'', json_int_option (ent_UpstreamStatus e)),
      (''failure'', json_string (ent_Failure e)),
      (''prev_hash'', json_string (ent_PrevHash e))]
     @ (if ent_Hash e = [] then [] else [(''hash'', json_string (ent_Hash e))]))) @ ''}''"

definition entry_hash :: "crypto \<Rightarrow> entry \<Rightarrow> bytes" where
  "entry_hash C e = sha256 C (json_entry (e\<lparr>ent_Hash := []\<rparr>))"

text \<open>
  \<open>time.UnixMilli(ms).UTC().Format(timeFormat)\<close>: the civil date of a day number by the
  400-year cycle that starts on 1 March, then the fields with their widths.
\<close>

definition civil :: "int \<Rightarrow> int \<times> int \<times> int" where
  "civil days = (
     let z = days + 719468;
         era = z div 146097;
         doe = z mod 146097;
         yoe = (doe - doe div 1460 + doe div 36524 - doe div 146096) div 365;
         doy = doe - (365 * yoe + yoe div 4 - yoe div 100);
         mp = (5 * doy + 2) div 153;
         d = doy - (153 * mp + 2) div 5 + 1;
         mth = (if mp < 10 then mp + 3 else mp - 9)
     in (yoe + era * 400 + (if mth \<le> 2 then 1 else 0), mth, d))"

definition pad :: "nat \<Rightarrow> int \<Rightarrow> string" where
  "pad w n = (let s = decimal (nat \<bar>n\<bar>) in
     (if n < 0 then ''-'' else []) @ replicate (w - length s) (CHR ''0'') @ s)"

definition format_ms :: "ms \<Rightarrow> string" where
  "format_ms t = (
     let (y, mo, d) = civil (t div 86400000); r = t mod 86400000 in
     pad 4 y @ ''-'' @ pad 2 mo @ ''-'' @ pad 2 d @ ''T'' @ pad 2 (r div 3600000) @ '':''
     @ pad 2 (r div 60000 mod 60) @ '':'' @ pad 2 (r div 1000 mod 60) @ ''.'' @ pad 3 (r mod 1000) @ ''Z'')"

definition newEntry :: "int \<Rightarrow> ms \<Rightarrow> Record \<Rightarrow> bytes \<Rightarrow> entry" where
  "newEntry seq ms r prevHash = \<lparr>ent_Seq = seq, ent_Time = format_ms ms,
     ent_AgentTokenID = rec_AgentTokenID r, ent_SecretName = rec_SecretName r,
     ent_Delivery = rec_Delivery r, ent_Upstream = rec_Upstream r, ent_UpstreamHost = rec_UpstreamHost r,
     ent_Decision = rec_Decision r, ent_Reason = rec_Reason r,
     ent_UpstreamStatus = (if rec_UpstreamStatus r \<noteq> 0 then Some (rec_UpstreamStatus r) else None),
     ent_Failure = rec_Failure r, ent_PrevHash = hex_encode prevHash, ent_Hash = []\<rparr>"

section \<open>Checkpoints\<close>

record checkpoint =
  ckp_seq :: int
  ckp_prevSeq :: int
  ckp_ms :: int
  ckp_head :: bytes

definition checkpointContext :: bytes where
  "checkpointContext = ''TrustedCourier audit checkpoint'' @ [CHR 0x00]"

definition checkpoint_message :: "checkpoint \<Rightarrow> bytes" where
  "checkpoint_message c = checkpointContext @ be64 (word_of_int (ckp_seq c))
     @ be64 (word_of_int (ckp_prevSeq c)) @ be64 (word_of_int (ckp_ms c)) @ ckp_head c"

section \<open>The log\<close>

datatype audit_error =
    SignFailed int
  | CheckpointNotStored int
  | RecordNotStored
  | NotStreamed int
  | ErrNoSigningKey
  | ErrKeyNotLoaded
  | ErrNotStoring
  | QueryFailed
  | LostAtShutdown nat
  | MoreQueries

datatype key_detail = NotConfigured | Loading | LoadFailed | KeyOK | ReleasedAtShutdown

record pending_record =
  pend_r :: Record
  pend_ms :: ms

text \<open>
  The fields of \<open>Log\<close> that change, the database it writes, the lines it streamed, the
  records it logged as lost, whether its context has ended, how many \<open>retryStore\<close>
  goroutines run, and the counter of \<open>outcomes\<close>.
\<close>

record Log =
  l_seq :: int
  l_head :: bytes
  l_cpSeq :: int
  l_key :: "bytes option"
  l_keyDetail :: key_detail
  l_backlog :: "pending_record list"
  l_storeErr :: "audit_error option"
  l_keyLoaded :: bool
  l_backlogged :: bool
  l_db :: DB
  l_stream :: "string list"
  l_lost :: "pending_record list"
  l_closed :: bool
  l_retries :: nat
  l_tick :: nat

record outcomes =
  execOK :: "nat \<Rightarrow> bool"
  streamOK :: "nat \<Rightarrow> bool"
  signOK :: "nat \<Rightarrow> bool"
  clock :: "nat \<Rightarrow> ms"

definition genesis :: bytes where
  "genesis = replicate 32 (CHR 0x00)"

text \<open>The last row of a table by \<open>seq\<close>: \<open>ORDER BY seq DESC LIMIT 1\<close>.\<close>

definition last_by :: "('a \<Rightarrow> int) \<Rightarrow> 'a list \<Rightarrow> 'a option" where
  "last_by f rows = (case rev (sort_key f rows) of [] \<Rightarrow> None | r # _ \<Rightarrow> Some r)"

definition Log_Open :: "DB \<Rightarrow> Log" where
  "Log_Open db = \<lparr>
     l_seq = (case last_by ar_seq (audit_records db) of None \<Rightarrow> 0 | Some r \<Rightarrow> ar_seq r),
     l_head = (case last_by ar_seq (audit_records db) of None \<Rightarrow> genesis | Some r \<Rightarrow> ar_hash r),
     l_cpSeq = (case last_by cp_seq (audit_checkpoints db) of None \<Rightarrow> 0 | Some c \<Rightarrow> cp_seq c),
     l_key = None, l_keyDetail = NotConfigured, l_backlog = [], l_storeErr = None,
     l_keyLoaded = False, l_backlogged = False, l_db = db, l_stream = [], l_lost = [],
     l_closed = False, l_retries = 0, l_tick = 0\<rparr>"

text \<open>\<open>Open\<close>, whose two queries may fail.\<close>

definition Open_queries :: "bool \<Rightarrow> bool \<Rightarrow> DB \<Rightarrow> (audit_error, Log) result" where
  "Open_queries headOK checkpointOK db = (
     if \<not> headOK then Inl QueryFailed else if \<not> checkpointOK then Inl QueryFailed else Inr (Log_Open db))"

text \<open>\<open>Ready\<close> reads two flags without the mutex; here it sees the state between two operations.\<close>

definition Log_Ready :: "Log \<Rightarrow> (audit_error, unit) result" where
  "Log_Ready l = (if \<not> l_keyLoaded l then Inl ErrKeyNotLoaded
     else if l_backlogged l then Inl ErrNotStoring else Inr ())"

definition Log_Backlog :: "Log \<Rightarrow> nat \<times> audit_error option" where
  "Log_Backlog l = (length (l_backlog l), l_storeErr l)"

definition Log_KeyStatus :: "Log \<Rightarrow> bool \<times> key_detail" where
  "Log_KeyStatus l = (l_key l \<noteq> None, l_keyDetail l)"

text \<open>\<open>checkpoint\<close>: the insert fails when a checkpoint of that record exists.\<close>

definition Log_checkpoint :: "crypto \<Rightarrow> outcomes \<Rightarrow> Log \<Rightarrow> (audit_error, unit) result \<times> Log" where
  "Log_checkpoint C oc l = (case l_key l of
      None \<Rightarrow> (Inr (), l)
    | Some key \<Rightarrow>
        if l_seq l \<le> l_cpSeq l then (Inr (), l)
        else (let t = l_tick l;
                  c = \<lparr>ckp_seq = l_seq l, ckp_prevSeq = l_cpSeq l, ckp_ms = clock oc t, ckp_head = l_head l\<rparr>;
                  l' = l\<lparr>l_tick := t + 1\<rparr>
          in if \<not> signOK oc t then (Inl (SignFailed (l_seq l)), l')
             else if \<not> execOK oc t \<or> list_ex (\<lambda>r. cp_seq r = l_seq l) (audit_checkpoints (l_db l))
               then (Inl (CheckpointNotStored (l_seq l)), l')
             else (Inr (), l'\<lparr>l_cpSeq := l_seq l, l_db := (l_db l)\<lparr>audit_checkpoints := audit_checkpoints (l_db l)
                 @ [\<lparr>cp_seq = ckp_seq c, cp_prev_seq = ckp_prevSeq c, cp_time = ckp_ms c, cp_head = ckp_head c,
                     cp_signature = ed_sign C key (checkpoint_message c)\<rparr>]\<rparr>\<rparr>)))"

text \<open>The row \<open>store\<close> inserts.\<close>

definition record_row :: "crypto \<Rightarrow> int \<Rightarrow> bytes \<Rightarrow> pending_record \<Rightarrow> audit_record_row" where
  "record_row C seq prev p = (let e = newEntry seq (pend_ms p) (pend_r p) prev in
     \<lparr>ar_seq = ent_Seq e, ar_time = pend_ms p, ar_agent_token_id = ent_AgentTokenID e,
      ar_secret_name = ent_SecretName e, ar_delivery = ent_Delivery e, ar_upstream = ent_Upstream e,
      ar_upstream_host = ent_UpstreamHost e, ar_decision = ent_Decision e, ar_reason = ent_Reason e,
      ar_upstream_status = ent_UpstreamStatus e, ar_failure = ent_Failure e,
      ar_prev_hash = prev, ar_hash = entry_hash C e\<rparr>)"

text \<open>What \<open>store\<close> does once the record is stored: stream it, and sign a checkpoint when one is due.\<close>

definition store_stream :: "outcomes \<Rightarrow> nat \<Rightarrow> string \<Rightarrow> Log \<Rightarrow> audit_error list \<times> Log" where
  "store_stream oc t line l = (
     if streamOK oc t then ([], l\<lparr>l_stream := l_stream l @ [line]\<rparr>) else ([NotStreamed (l_seq l)], l))"

definition store_checkpoint :: "crypto \<Rightarrow> outcomes \<Rightarrow> int \<Rightarrow> Log \<Rightarrow> audit_error list \<times> Log" where
  "store_checkpoint C oc every l = (
     if every \<le> l_seq l - l_cpSeq l
     then (case Log_checkpoint C oc l of (Inl e, l') \<Rightarrow> ([e], l') | (Inr _, l') \<Rightarrow> ([], l'))
     else ([], l))"

text \<open>
  What \<open>store\<close> returns: \<open>Inl\<close> when the record was not stored, \<open>Inr\<close> the errors after it
  was (a \<open>storedError\<close> when there are any). A statement that fails has stored nothing: a commit
  that took effect although the driver reported an error is not represented.
\<close>

definition Log_store :: "crypto \<Rightarrow> outcomes \<Rightarrow> int \<Rightarrow> Log \<Rightarrow> pending_record \<Rightarrow>
    (audit_error, audit_error list) result \<times> Log" where
  "Log_store C oc every l p = (
     let t = l_tick l;
         seq = l_seq l + 1;
         row = record_row C seq (l_head l) p;
         l1 = l\<lparr>l_tick := t + 1\<rparr>
     in if \<not> execOK oc t \<or> list_ex (\<lambda>r. ar_seq r = seq) (audit_records (l_db l))
        then (Inl RecordNotStored, l1)
        else (let l2 = l1\<lparr>l_seq := seq, l_head := ar_hash row,
                    l_db := (l_db l)\<lparr>audit_records := audit_records (l_db l) @ [row]\<rparr>\<rparr>;
                  line = json_entry ((newEntry seq (pend_ms p) (pend_r p) (l_head l))
                           \<lparr>ent_Hash := hex_encode (ar_hash row)\<rparr>);
                  (serr, l3) = store_stream oc t line l2;
                  (cerr, l4) = store_checkpoint C oc every l3
              in (Inr (serr @ cerr), l4)))"

text \<open>\<open>flush\<close> over the backlog; an empty list of errors is nil.\<close>

fun flush_loop :: "crypto \<Rightarrow> outcomes \<Rightarrow> int \<Rightarrow> pending_record list \<Rightarrow> audit_error list \<Rightarrow> Log \<Rightarrow>
    audit_error list \<times> Log" where
  "flush_loop C oc every [] errs l = (errs, l\<lparr>l_backlog := [], l_storeErr := None, l_backlogged := False\<rparr>)"
| "flush_loop C oc every (p # ps) errs l = (case Log_store C oc every l p of
      (Inl e, l') \<Rightarrow>
        (errs @ [e], l'\<lparr>l_backlog := p # ps, l_storeErr := Some e, l_backlogged := True,
           l_retries := (if \<not> l_backlogged l' \<and> \<not> l_closed l' then l_retries l' + 1 else l_retries l')\<rparr>)
    | (Inr es, l') \<Rightarrow> flush_loop C oc every ps (errs @ es) l')"

definition Log_flush :: "crypto \<Rightarrow> outcomes \<Rightarrow> int \<Rightarrow> Log \<Rightarrow> audit_error list \<times> Log" where
  "Log_flush C oc every l = flush_loop C oc every (l_backlog l) [] l"

definition Log_Append :: "crypto \<Rightarrow> outcomes \<Rightarrow> int \<Rightarrow> Record \<Rightarrow> Log \<Rightarrow> audit_error list \<times> Log" where
  "Log_Append C oc every r l = Log_flush C oc every
     (l\<lparr>l_backlog := l_backlog l @ [\<lparr>pend_r = r, pend_ms = clock oc (l_tick l)\<rparr>]\<rparr>)"

text \<open>One round of \<open>retryStore\<close>; the goroutine ends once the backlog is empty.\<close>

definition Log_retryStore :: "crypto \<Rightarrow> outcomes \<Rightarrow> int \<Rightarrow> Log \<Rightarrow> Log" where
  "Log_retryStore C oc every l = (
     if l_closed l \<or> l_retries l = 0 then l
     else (let l' = snd (Log_flush C oc every l)
           in if l_backlog l' = [] then l'\<lparr>l_retries := l_retries l' - 1\<rparr> else l'))"

text \<open>One round of \<open>signEveryInterval\<close>, which runs once the key is loaded.\<close>

definition Log_signInterval :: "crypto \<Rightarrow> outcomes \<Rightarrow> Log \<Rightarrow> Log" where
  "Log_signInterval C oc l = (if l_closed l \<or> l_key l = None then l else snd (Log_checkpoint C oc l))"

text \<open>
  \<open>Start\<close> and the rounds of \<open>loadKey\<close>: \<open>None\<close> a failed attempt, \<open>Some\<close> the parsed key. The
  goroutine has ended once \<open>Close\<close> has run.
\<close>

definition Log_Start :: "Log \<Rightarrow> Log" where
  "Log_Start l = l\<lparr>l_keyDetail := Loading\<rparr>"

definition Log_loadKey :: "bytes option \<Rightarrow> Log \<Rightarrow> Log" where
  "Log_loadKey fetched l = (
     if l_closed l \<or> l_key l \<noteq> None \<or> l_keyDetail l = NotConfigured then l
     else (case fetched of
        Some key \<Rightarrow> l\<lparr>l_key := Some key, l_keyDetail := KeyOK, l_keyLoaded := True\<rparr>
      | None \<Rightarrow> l\<lparr>l_keyDetail := LoadFailed\<rparr>))"

text \<open>\<open>Close\<close>, once background work has stopped.\<close>

definition Log_Close :: "crypto \<Rightarrow> outcomes \<Rightarrow> int \<Rightarrow> Log \<Rightarrow> audit_error list \<times> Log" where
  "Log_Close C oc every l = (
     let (errs, l1) = Log_flush C oc every (l\<lparr>l_closed := True, l_retries := 0, l_keyLoaded := False\<rparr>);
         l2 = l1\<lparr>l_lost := l_lost l1 @ l_backlog l1\<rparr>;
         storeErr = (if l_backlog l1 = [] then errs else LostAtShutdown (length (l_backlog l1)) # errs)
     in case l_key l2 of
          None \<Rightarrow> (storeErr, l2)
        | Some _ \<Rightarrow>
            (let (res, l3) = Log_checkpoint C oc l2
             in (storeErr @ (case res of Inl e \<Rightarrow> [e] | Inr _ \<Rightarrow> []),
                 l3\<lparr>l_key := None, l_keyDetail := ReleasedAtShutdown\<rparr>)))"

section \<open>Verification\<close>

datatype problem =
    RecordMissing
  | HashMismatch
  | NotChained
  | SignatureInvalid
  | CheckpointMissing
  | CheckpointNotFollowing int
  | CheckpointMismatch
  | MissingButCovered int
  | NotAppended
  | NotTheRecord

record Break =
  brk_Seq :: int
  brk_Problem :: problem

record Verification =
  v_Records :: int
  v_Checkpoints :: int
  v_Break :: "Break option"

record walk =
  w_v :: Verification
  w_prev :: bytes
  w_cpSeq :: int
  w_public :: bytes

definition verifyPage_size :: nat where
  "verifyPage_size = 1000"

definition row_record :: "audit_record_row \<Rightarrow> Record" where
  "row_record r = \<lparr>rec_AgentTokenID = ar_agent_token_id r, rec_SecretName = ar_secret_name r,
     rec_Delivery = ar_delivery r, rec_Upstream = ar_upstream r, rec_UpstreamHost = ar_upstream_host r,
     rec_Decision = ar_decision r, rec_Reason = ar_reason r,
     rec_UpstreamStatus = (case ar_upstream_status r of None \<Rightarrow> 0 | Some s \<Rightarrow> s), rec_Failure = ar_failure r\<rparr>"

definition row_entry :: "audit_record_row \<Rightarrow> entry" where
  "row_entry r = newEntry (ar_seq r) (ar_time r) (row_record r) (ar_prev_hash r)"

text \<open>The loop over one page of records: how many were read, and the walk so far.\<close>

fun verify_rows :: "crypto \<Rightarrow> audit_record_row list \<Rightarrow> nat \<Rightarrow> walk \<Rightarrow> nat \<times> walk" where
  "verify_rows C [] n w = (n, w)"
| "verify_rows C (r # rs) n w = (
     let want = v_Records (w_v w) + 1;
         fail = (\<lambda>s p. (n + 1, w\<lparr>w_v := (w_v w)\<lparr>v_Break := Some \<lparr>brk_Seq = s, brk_Problem = p\<rparr>\<rparr>\<rparr>))
     in if ar_seq r \<noteq> want then fail want RecordMissing
        else if entry_hash C (row_entry r) \<noteq> ar_hash r then fail (ar_seq r) HashMismatch
        else if ar_prev_hash r \<noteq> w_prev w then fail (ar_seq r) NotChained
        else verify_rows C rs (n + 1) (w\<lparr>w_v := (w_v w)\<lparr>v_Records := ar_seq r\<rparr>, w_prev := ar_hash r\<rparr>))"

definition record_page :: "DB \<Rightarrow> int \<Rightarrow> audit_record_row list" where
  "record_page db after = take verifyPage_size (sort_key ar_seq (filter (\<lambda>r. after < ar_seq r) (audit_records db)))"

text \<open>
  \<open>verifyRest\<close>: a list of what the queries see, \<open>None\<close> for one that fails; it returns what
  is left of the list.
\<close>

fun verifyRest :: "crypto \<Rightarrow> DB option list \<Rightarrow> walk \<Rightarrow> (audit_error, walk \<times> DB option list) result" where
  "verifyRest C [] w = Inl MoreQueries"
| "verifyRest C (None # dbs) w = Inl QueryFailed"
| "verifyRest C (Some db # dbs) w = (
     let (n, w') = verify_rows C (record_page db (v_Records (w_v w))) 0 w
     in if v_Break (w_v w') \<noteq> None \<or> n < verifyPage_size then Inr (w', dbs) else verifyRest C dbs w')"

fun verify_checkpoints :: "crypto \<Rightarrow> DB \<Rightarrow> audit_checkpoint_row list \<Rightarrow> nat \<Rightarrow> walk \<Rightarrow> nat \<times> walk" where
  "verify_checkpoints C db [] n w = (n, w)"
| "verify_checkpoints C db (c # cs) n w = (
     let ck = \<lparr>ckp_seq = cp_seq c, ckp_prevSeq = cp_prev_seq c, ckp_ms = cp_time c, ckp_head = cp_head c\<rparr>;
         recordHash = (case find (\<lambda>r. ar_seq r = cp_seq c) (audit_records db) of None \<Rightarrow> [] | Some r \<Rightarrow> ar_hash r);
         fail = (\<lambda>s p. (n + 1, w\<lparr>w_v := (w_v w)\<lparr>v_Break := Some \<lparr>brk_Seq = s, brk_Problem = p\<rparr>,
                                               v_Records := w_cpSeq w\<rparr>\<rparr>))
     in if \<not> ed_verify C (w_public w) (checkpoint_message ck) (cp_signature c) then fail (cp_seq c) SignatureInvalid
        else if w_cpSeq w < cp_prev_seq c then fail (cp_prev_seq c) CheckpointMissing
        else if cp_prev_seq c < w_cpSeq w then fail (cp_seq c) (CheckpointNotFollowing (w_cpSeq w))
        else if cp_head c \<noteq> recordHash then fail (cp_seq c) CheckpointMismatch
        else verify_checkpoints C db cs (n + 1)
               (w\<lparr>w_cpSeq := cp_seq c, w_v := (w_v w)\<lparr>v_Checkpoints := v_Checkpoints (w_v w) + 1\<rparr>\<rparr>))"

definition checkpoint_page :: "DB \<Rightarrow> int \<Rightarrow> int \<Rightarrow> audit_checkpoint_row list" where
  "checkpoint_page db after until = take verifyPage_size
     (sort_key cp_seq (filter (\<lambda>c. after < cp_seq c \<and> cp_seq c \<le> until) (audit_checkpoints db)))"

text \<open>The loop of \<open>walk\<close> over \<open>verifyCheckpointPage\<close>; \<open>rb\<close> is the record break to report at the end.\<close>

fun walk_checkpoints :: "crypto \<Rightarrow> Break option \<Rightarrow> DB option list \<Rightarrow> walk \<Rightarrow>
    (audit_error, walk \<times> DB option list) result" where
  "walk_checkpoints C rb [] w = Inl MoreQueries"
| "walk_checkpoints C rb (None # dbs) w = Inl QueryFailed"
| "walk_checkpoints C rb (Some db # dbs) w = (
     let (n, w') = verify_checkpoints C db (checkpoint_page db (w_cpSeq w) (v_Records (w_v w))) 0 w
     in if v_Break (w_v w') \<noteq> None then Inr (w', dbs)
        else if n < verifyPage_size then Inr (w'\<lparr>w_v := (w_v w')\<lparr>v_Break := rb\<rparr>\<rparr>, dbs)
        else walk_checkpoints C rb dbs w')"

definition Log_walk :: "crypto \<Rightarrow> DB option list \<Rightarrow> walk \<Rightarrow> (audit_error, walk \<times> DB option list) result" where
  "Log_walk C dbs w = ebind (verifyRest C dbs w) (\<lambda>(w', dbs').
     walk_checkpoints C (v_Break (w_v w')) dbs' (w'\<lparr>w_v := (w_v w')\<lparr>v_Break := None\<rparr>\<rparr>))"

text \<open>What follows the second walk, under the lock.\<close>

definition verify_end :: "Log \<Rightarrow> DB \<Rightarrow> walk \<Rightarrow> Verification" where
  "verify_end l db w = (
     let v = w_v w;
         brk = (\<lambda>n s p. v\<lparr>v_Records := n, v_Break := Some \<lparr>brk_Seq = s, brk_Problem = p\<rparr>\<rparr>)
     in case sort_key cp_seq (filter (\<lambda>c. v_Records v < cp_seq c) (audit_checkpoints db)) of
          c # _ \<Rightarrow> brk (v_Records v) (v_Records v + 1) (MissingButCovered (cp_seq c))
        | [] \<Rightarrow>
            if v_Records v < l_seq l then brk (v_Records v) (v_Records v + 1) RecordMissing
            else if l_seq l < v_Records v then brk (l_seq l) (l_seq l + 1) NotAppended
            else if w_prev w \<noteq> l_head l then brk (l_seq l - 1) (l_seq l) NotTheRecord
            else if w_cpSeq w < l_cpSeq l then brk (w_cpSeq w) (l_cpSeq l) CheckpointMissing
            else v)"

text \<open>
  \<open>Verify\<close>: \<open>dbs\<close> is what the queries of the first walk see, \<open>dbs'\<close> those of the second,
  under the lock, and \<open>dbe\<close> the last query.
\<close>

definition Log_Verify :: "crypto \<Rightarrow> DB option list \<Rightarrow> DB option list \<Rightarrow> DB option \<Rightarrow> Log \<Rightarrow>
    (audit_error, Verification) result" where
  "Log_Verify C dbs dbs' dbe l = (case l_key l of
      None \<Rightarrow> Inl ErrNoSigningKey
    | Some key \<Rightarrow>
        (let w0 = \<lparr>w_v = \<lparr>v_Records = 0, v_Checkpoints = 0, v_Break = None\<rparr>, w_prev = genesis,
                   w_cpSeq = 0, w_public = ed_public C key\<rparr>
         in ebind (Log_walk C dbs w0) (\<lambda>(w1, _).
            if v_Break (w_v w1) \<noteq> None then Inr (w_v w1)
            else ebind (Log_walk C dbs' w1) (\<lambda>(w2, _).
              if v_Break (w_v w2) \<noteq> None then Inr (w_v w2)
              else (case dbe of None \<Rightarrow> Inl QueryFailed | Some db \<Rightarrow> Inr (verify_end l db w2))))))"

end
