(* ===== verification/Audit_Chain.thy ===== *)
theory Audit_Chain
  imports Audit_Log
begin

text \<open>
  What the audit chain promises. The encodings that are hashed and signed are injective;
  every run of the log's operations keeps the chain and the checkpoints whole and loses no
  record; \<open>Verify\<close> accepts what the log wrote, and when it finds no break in a database
  someone changed, every record it covers has the encoding the log wrote, unless two given
  encodings collide under SHA-256.
\<close>

section \<open>Encodings\<close>

lemma isDigit_simps [simp]: "\<not> isDigit (CHR '','')" "\<not> isDigit (CHR ''n'')" "\<not> isDigit (CHR ''}'')"
  by (simp_all add: isDigit_def)

lemma decimal_int_inject:
  "decimal_int a @ CHR '','' # r = decimal_int b @ CHR '','' # r' \<longleftrightarrow> a = b \<and> r = r'"
proof
  assume "decimal_int a @ CHR '','' # r = decimal_int b @ CHR '','' # r'"
  then have "read_int (decimal_int a @ CHR '','' # r) = read_int (decimal_int b @ CHR '','' # r')" by simp
  then show "a = b \<and> r = r'" by (simp add: read_int_decimal)
qed simp

lemma decimal_int_not_null: "decimal_int a @ r \<noteq> CHR ''n'' # r'"
proof
  assume h: "decimal_int a @ r = CHR ''n'' # r'"
  obtain d ds where d: "decimal (nat a) = d # ds" by (cases "decimal (nat a)") auto
  then have "isDigit d" using decimal_digits[of d "nat a"] by simp
  with h d show False by (auto simp: decimal_int_def split: if_splits)
qed

lemma json_int_option_inject:
  "json_int_option a @ CHR '','' # r = json_int_option b @ CHR '','' # r' \<longleftrightarrow> a = b \<and> r = r'"
  by (auto simp: json_int_option_def decimal_int_inject decimal_int_not_null decimal_int_not_null[symmetric]
      split: option.splits)

definition entry_valid :: "entry \<Rightarrow> bool" where
  "entry_valid e \<longleftrightarrow> list_all validString [ent_Time e, ent_AgentTokenID e, ent_SecretName e, ent_Delivery e,
     ent_Upstream e, ent_UpstreamHost e, ent_Decision e, ent_Reason e, ent_Failure e, ent_PrevHash e]"

lemma json_string_inject:
  "validString a \<Longrightarrow> validString b \<Longrightarrow> json_string a @ r = json_string b @ r' \<longleftrightarrow> a = b \<and> r = r'"
  using json.enc_append_inject by blast

lemma json_entry_inject:
  assumes "entry_valid a" and "entry_valid b" and "ent_Hash a = []" and "ent_Hash b = []"
    and "json_entry a = json_entry b"
  shows "a = b"
proof -
  note v = assms(1,2)[unfolded entry_valid_def, simplified]
  have "json_entry a = json_entry b \<longrightarrow> ent_Seq a = ent_Seq b \<and> ent_Time a = ent_Time b
      \<and> ent_AgentTokenID a = ent_AgentTokenID b \<and> ent_SecretName a = ent_SecretName b
      \<and> ent_Delivery a = ent_Delivery b \<and> ent_Upstream a = ent_Upstream b
      \<and> ent_UpstreamHost a = ent_UpstreamHost b \<and> ent_Decision a = ent_Decision b
      \<and> ent_Reason a = ent_Reason b \<and> ent_UpstreamStatus a = ent_UpstreamStatus b
      \<and> ent_Failure a = ent_Failure b \<and> ent_PrevHash a = ent_PrevHash b"
    using v by (simp add: json_entry_def json_field_def assms(3,4) decimal_int_inject json_int_option_inject
        json_string_inject json.enc_inject)
  with assms(3-5) show ?thesis by simp
qed

text \<open>A checkpoint's fields are Go's \<open>int64\<close>.\<close>

definition int64 :: "int \<Rightarrow> bool" where
  "int64 i \<longleftrightarrow> - (2 ^ 63) \<le> i \<and> i < 2 ^ 63"

definition checkpoint_ok :: "checkpoint \<Rightarrow> bool" where
  "checkpoint_ok c \<longleftrightarrow> int64 (ckp_seq c) \<and> int64 (ckp_prevSeq c) \<and> int64 (ckp_ms c)"

lemma word_of_int64_inject: "int64 a \<Longrightarrow> int64 b \<Longrightarrow> (word_of_int a :: 64 word) = word_of_int b \<Longrightarrow> a = b"
proof -
  assume h: "int64 a" "int64 b" "(word_of_int a :: 64 word) = word_of_int b"
  then have "a mod 2 ^ 64 = b mod 2 ^ 64"
    by (simp add: word_of_int_eq_iff take_bit_eq_mod)
  then have "2 ^ 64 dvd a - b" by (simp add: mod_eq_dvd_iff)
  moreover have "\<bar>a - b\<bar> < 2 ^ 64" using h by (auto simp: int64_def)
  ultimately show "a = b" using zdvd_imp_le[of "2 ^ 64" "\<bar>a - b\<bar>"] by (cases "a = b") auto
qed

lemma checkpoint_message_eq:
  assumes "checkpoint_ok a" and "checkpoint_ok b" and "checkpoint_message a = checkpoint_message b"
  shows "a = b"
proof -
  have "be64 (word_of_int (ckp_seq a)) = be64 (word_of_int (ckp_seq b))
      \<and> be64 (word_of_int (ckp_prevSeq a)) = be64 (word_of_int (ckp_prevSeq b))
      \<and> be64 (word_of_int (ckp_ms a)) = be64 (word_of_int (ckp_ms b)) \<and> ckp_head a = ckp_head b"
    using assms(3) by (simp add: checkpoint_message_def)
  then have "ckp_seq a = ckp_seq b" "ckp_prevSeq a = ckp_prevSeq b" "ckp_ms a = ckp_ms b" "ckp_head a = ckp_head b"
    using assms(1,2) be64_inject word_of_int64_inject unfolding checkpoint_ok_def by metis+
  then show ?thesis by simp
qed

section \<open>The chain\<close>

fun chained :: "crypto \<Rightarrow> bytes \<Rightarrow> int \<Rightarrow> audit_record_row list \<Rightarrow> bool" where
  "chained C prev n [] = True"
| "chained C prev n (r # rs) \<longleftrightarrow> ar_seq r = n + 1 \<and> ar_prev_hash r = prev
     \<and> ar_hash r = entry_hash C (row_entry r) \<and> chained C (ar_hash r) (n + 1) rs"

definition chain_head :: "bytes \<Rightarrow> audit_record_row list \<Rightarrow> bytes" where
  "chain_head prev rows = (if rows = [] then prev else ar_hash (last rows))"

lemma chain_head_simps [simp]:
  "chain_head prev [] = prev" "chain_head prev (rs @ [r]) = ar_hash r"
  "chain_head prev (r # rs) = chain_head (ar_hash r) rs"
  by (simp_all add: chain_head_def)

lemma chained_append:
  "chained C prev n (rs @ ss) \<longleftrightarrow> chained C prev n rs \<and> chained C (chain_head prev rs) (n + int (length rs)) ss"
  by (induction rs arbitrary: prev n) (auto simp: add.assoc add.commute)

lemma chained_seq: "chained C prev n rs \<Longrightarrow> i < length rs \<Longrightarrow> ar_seq (rs ! i) = n + int i + 1"
proof (induction rs arbitrary: prev n i)
  case (Cons r rs)
  then show ?case by (cases i) auto
qed simp

lemma chained_seqs: "chained C prev n rs \<Longrightarrow> r \<in> set rs \<Longrightarrow> n < ar_seq r \<and> ar_seq r \<le> n + int (length rs)"
  using chained_seq by (fastforce simp: in_set_conv_nth)

lemma chained_distinct: "chained C prev n rs \<Longrightarrow> distinct (map ar_seq rs)"
  by (simp add: distinct_conv_nth chained_seq)

lemma chained_sorted: "chained C prev n rs \<Longrightarrow> sorted (map ar_seq rs)"
  by (simp add: sorted_iff_nth_mono chained_seq)

lemma record_row_entry: "row_entry (record_row C seq prev p) = newEntry seq (pend_ms p) (pend_r p) prev"
  by (simp add: record_row_def Let_def row_entry_def newEntry_def row_record_def)

lemma record_row_fields:
  "ar_seq (record_row C seq prev p) = seq" "ar_prev_hash (record_row C seq prev p) = prev"
  "ar_hash (record_row C seq prev p) = entry_hash C (newEntry seq (pend_ms p) (pend_r p) prev)"
  "row_record (record_row C seq prev p) = pend_r p" "ar_time (record_row C seq prev p) = pend_ms p"
  by (simp_all add: record_row_def Let_def row_entry_def newEntry_def row_record_def)

section \<open>The checkpoints\<close>

definition row_checkpoint :: "audit_checkpoint_row \<Rightarrow> checkpoint" where
  "row_checkpoint c = \<lparr>ckp_seq = cp_seq c, ckp_prevSeq = cp_prev_seq c, ckp_ms = cp_time c, ckp_head = cp_head c\<rparr>"

fun cp_chained :: "crypto \<Rightarrow> bytes \<Rightarrow> audit_record_row list \<Rightarrow> int \<Rightarrow> audit_checkpoint_row list \<Rightarrow> bool" where
  "cp_chained C pub rows prev [] = True"
| "cp_chained C pub rows prev (c # cs) \<longleftrightarrow> prev < cp_seq c \<and> cp_seq c \<le> int (length rows) \<and> cp_prev_seq c = prev
     \<and> ed_verify C pub (checkpoint_message (row_checkpoint c)) (cp_signature c)
     \<and> cp_head c = ar_hash (rows ! nat (cp_seq c - 1)) \<and> cp_chained C pub rows (cp_seq c) cs"

definition cp_last :: "int \<Rightarrow> audit_checkpoint_row list \<Rightarrow> int" where
  "cp_last prev cs = (if cs = [] then prev else cp_seq (last cs))"

lemma cp_last_simps [simp]:
  "cp_last prev [] = prev" "cp_last prev (cs @ [c]) = cp_seq c" "cp_last prev (c # cs) = cp_last (cp_seq c) cs"
  by (simp_all add: cp_last_def)

lemma cp_chained_append:
  "cp_chained C pub rows prev (cs @ ds) \<longleftrightarrow> cp_chained C pub rows prev cs \<and> cp_chained C pub rows (cp_last prev cs) ds"
  by (induction cs arbitrary: prev) auto

lemma cp_chained_more_rows:
  "0 \<le> prev \<Longrightarrow> cp_chained C pub rows prev cs \<Longrightarrow> cp_chained C pub (rows @ extra) prev cs"
  by (induction cs arbitrary: prev) (auto simp: nth_append)

lemma cp_last_ge: "cp_chained C pub rows prev cs \<Longrightarrow> prev \<le> cp_last prev cs"
  by (induction cs arbitrary: prev) force+

lemma cp_chained_bounds:
  "cp_chained C pub rows prev cs \<Longrightarrow> c \<in> set cs \<Longrightarrow> prev < cp_seq c \<and> cp_seq c \<le> cp_last prev cs \<and> cp_seq c \<le> int (length rows)"
proof (induction cs arbitrary: prev)
  case (Cons d cs)
  show ?case
  proof (cases "c = d")
    case True
    have "cp_seq d \<le> cp_last (cp_seq d) cs" using cp_last_ge Cons.prems(1) by auto
    with True Cons.prems(1) show ?thesis by simp
  next
    case False
    with Cons.IH[of "cp_seq d"] Cons.prems show ?thesis by auto
  qed
qed simp

lemma cp_chained_sorted: "cp_chained C pub rows prev cs \<Longrightarrow> sorted (map cp_seq cs) \<and> distinct (map cp_seq cs)"
proof (induction cs arbitrary: prev)
  case (Cons c cs)
  then have "\<forall>d\<in>set cs. cp_seq c < cp_seq d" using cp_chained_bounds[of C pub rows "cp_seq c" cs] by auto
  with Cons.IH[of "cp_seq c"] Cons.prems show ?case by (auto simp: less_imp_le)
qed simp

section \<open>The invariant\<close>

text \<open>Signatures of \<open>key\<close> verify with its public key, as Ed25519's do.\<close>

definition signs :: "crypto \<Rightarrow> bytes \<Rightarrow> bool" where
  "signs C key \<longleftrightarrow> (\<forall>msg. ed_verify C (ed_public C key) msg (ed_sign C key msg))"

text \<open>The database and the fields that describe its end; \<open>key\<close> is the audit signing key.\<close>

definition chain_inv :: "crypto \<Rightarrow> bytes \<Rightarrow> Log \<Rightarrow> bool" where
  "chain_inv C key l \<longleftrightarrow> signs C key \<and> (l_key l \<noteq> None \<longrightarrow> l_key l = Some key)
     \<and> chained C genesis 0 (audit_records (l_db l))
     \<and> l_seq l = int (length (audit_records (l_db l)))
     \<and> l_head l = chain_head genesis (audit_records (l_db l))
     \<and> cp_chained C (ed_public C key) (audit_records (l_db l)) 0 (audit_checkpoints (l_db l))
     \<and> l_cpSeq l = cp_last 0 (audit_checkpoints (l_db l))"

text \<open>The fields that say whether records wait.\<close>

definition queue_inv :: "Log \<Rightarrow> bool" where
  "queue_inv l \<longleftrightarrow> (l_backlogged l \<longleftrightarrow> l_backlog l \<noteq> []) \<and> (l_storeErr l \<noteq> None \<longleftrightarrow> l_backlog l \<noteq> [])
     \<and> (l_backlog l \<noteq> [] \<and> \<not> l_closed l \<longrightarrow> 0 < l_retries l) \<and> (l_keyLoaded l \<longrightarrow> l_key l \<noteq> None)"

text \<open>Every record so far: those stored, then those waiting.\<close>

definition stored :: "Log \<Rightarrow> pending_record list" where
  "stored l = map (\<lambda>r. \<lparr>pend_r = row_record r, pend_ms = ar_time r\<rparr>) (audit_records (l_db l))"

definition account :: "Log \<Rightarrow> pending_record list" where
  "account l = stored l @ l_backlog l"

lemma nat_int_pred: "nat (int n - 1) = n - Suc 0"
  by linarith

text \<open>What storing and signing leave alone: the queue, the key and everything already in the tables.\<close>

definition frame :: "Log \<Rightarrow> Log \<Rightarrow> bool" where
  "frame l l' \<longleftrightarrow> l_backlog l' = l_backlog l \<and> l_backlogged l' = l_backlogged l \<and> l_storeErr l' = l_storeErr l
     \<and> l_closed l' = l_closed l \<and> l_retries l' = l_retries l \<and> l_keyLoaded l' = l_keyLoaded l
     \<and> l_key l' = l_key l \<and> l_lost l' = l_lost l \<and> l_tick l \<le> l_tick l'
     \<and> prefix (audit_checkpoints (l_db l)) (audit_checkpoints (l_db l'))
     \<and> prefix (audit_records (l_db l)) (audit_records (l_db l'))"

lemma frame_trans: "frame a b \<Longrightarrow> frame b c \<Longrightarrow> frame a c"
  by (auto simp: frame_def)

lemma checkpoint_step:
  assumes "chain_inv C key l" and "Log_checkpoint C oc l = (res, l')"
  shows "chain_inv C key l'" and "frame l l'" and "stored l' = stored l" and "l_seq l' = l_seq l"
    and "l_key l \<noteq> None \<Longrightarrow> execOK oc (l_tick l) \<Longrightarrow> signOK oc (l_tick l) \<Longrightarrow> l_cpSeq l' = l_seq l \<and> res = Inr ()"
proof -
  have fresh: "\<not> list_ex (\<lambda>r. cp_seq r = l_seq l) (audit_checkpoints (l_db l))" if "l_cpSeq l < l_seq l"
  proof -
    have "cp_seq c \<le> l_cpSeq l" if "c \<in> set (audit_checkpoints (l_db l))" for c
      using cp_chained_bounds[of C "ed_public C key" "audit_records (l_db l)" 0 "audit_checkpoints (l_db l)" c]
        assms(1) that by (simp add: chain_inv_def)
    with that show ?thesis by (fastforce simp: list_ex_iff)
  qed
  define c where "c = \<lparr>cp_seq = l_seq l, cp_prev_seq = l_cpSeq l, cp_time = clock oc (l_tick l), cp_head = l_head l,
      cp_signature = ed_sign C key (checkpoint_message \<lparr>ckp_seq = l_seq l, ckp_prevSeq = l_cpSeq l,
        ckp_ms = clock oc (l_tick l), ckp_head = l_head l\<rparr>)\<rparr>"
  define new where "new = l\<lparr>l_tick := Suc (l_tick l), l_cpSeq := l_seq l,
      l_db := (l_db l)\<lparr>audit_checkpoints := audit_checkpoints (l_db l) @ [c]\<rparr>\<rparr>"
  have key: "l_key l = None \<or> l_key l = Some key" using assms(1) by (auto simp: chain_inv_def)
  have eq: "Log_checkpoint C oc l = (
      if l_key l = None \<or> l_seq l \<le> l_cpSeq l then (Inr (), l)
      else if \<not> signOK oc (l_tick l) then (Inl (SignFailed (l_seq l)), l\<lparr>l_tick := Suc (l_tick l)\<rparr>)
      else if \<not> execOK oc (l_tick l) \<or> list_ex (\<lambda>r. cp_seq r = l_seq l) (audit_checkpoints (l_db l))
        then (Inl (CheckpointNotStored (l_seq l)), l\<lparr>l_tick := Suc (l_tick l)\<rparr>)
      else (Inr (), new))"
    using key by (elim disjE) (simp_all add: Log_checkpoint_def Let_def new_def c_def)
  then have cases: "l' = l \<or> l' = l\<lparr>l_tick := Suc (l_tick l)\<rparr> \<or> (l' = new \<and> l_cpSeq l < l_seq l)"
    using assms(2) by (simp split: if_splits)
  have "chain_inv C key new" if "l_cpSeq l < l_seq l"
  proof -
    have "0 \<le> l_cpSeq l" using assms(1) cp_last_ge unfolding chain_inv_def by metis
    then have "audit_records (l_db l) \<noteq> []" using that assms(1) by (auto simp: chain_inv_def)
    then have "chain_head genesis (audit_records (l_db l)) = ar_hash (audit_records (l_db l) ! (length (audit_records (l_db l)) - Suc 0))"
      by (simp add: chain_head_def last_conv_nth)
    with that assms(1) show ?thesis
      by (simp add: chain_inv_def new_def c_def cp_chained_append row_checkpoint_def signs_def nat_int_pred)
  qed
  with cases assms(1) show "chain_inv C key l'" by (auto simp: chain_inv_def)
  show "frame l l'" "stored l' = stored l" "l_seq l' = l_seq l"
    using cases by (auto simp: new_def stored_def frame_def)
  show "l_cpSeq l' = l_seq l \<and> res = Inr ()"
    if "l_key l \<noteq> None" "execOK oc (l_tick l)" "signOK oc (l_tick l)"
  proof (cases "l_cpSeq l < l_seq l")
    case True
    with that fresh assms(2) eq show ?thesis by (auto simp: new_def)
  next
    case False
    moreover have "l_cpSeq l \<le> l_seq l"
      using assms(1) cp_chained_bounds[of C "ed_public C key" "audit_records (l_db l)" 0 "audit_checkpoints (l_db l)"]
      by (auto simp: chain_inv_def cp_last_def)
    ultimately show ?thesis using eq assms(2) by simp
  qed
qed

lemma store_stream_step:
  assumes "chain_inv C key l" and "store_stream oc t line l = (errs, l')"
  shows "chain_inv C key l'" and "frame l l'" and "stored l' = stored l"
    and "l_seq l' = l_seq l" "l_cpSeq l' = l_cpSeq l"
  using assms by (auto simp: store_stream_def frame_def stored_def chain_inv_def split: if_splits)

lemma store_checkpoint_step:
  assumes "chain_inv C key l" and "store_checkpoint C oc every l = (errs, l')"
  shows "chain_inv C key l'" and "frame l l'" and "stored l' = stored l"
    and "l_key l \<noteq> None \<Longrightarrow> execOK oc (l_tick l) \<Longrightarrow> signOK oc (l_tick l) \<Longrightarrow> 0 < every \<Longrightarrow>
      l_seq l' - l_cpSeq l' < every"
proof -
  have "errs = [] \<and> l' = l \<and> \<not> every \<le> l_seq l - l_cpSeq l \<or> (\<exists>r. Log_checkpoint C oc l = (r, l'))"
    using assms(2) by (auto simp: store_checkpoint_def split: if_splits prod.splits sum.splits)
  then show "chain_inv C key l'" and "frame l l'" and "stored l' = stored l"
    and "l_key l \<noteq> None \<Longrightarrow> execOK oc (l_tick l) \<Longrightarrow> signOK oc (l_tick l) \<Longrightarrow> 0 < every \<Longrightarrow>
      l_seq l' - l_cpSeq l' < every"
    using checkpoint_step[OF assms(1)] assms(1) by (auto simp: frame_def)
qed

lemma stored_row_inv:
  assumes "chain_inv C key l"
  shows "chain_inv C key (l\<lparr>l_tick := Suc (l_tick l), l_seq := l_seq l + 1,
      l_head := ar_hash (record_row C (l_seq l + 1) (l_head l) p),
      l_db := (l_db l)\<lparr>audit_records := audit_records (l_db l) @ [record_row C (l_seq l + 1) (l_head l) p]\<rparr>\<rparr>)"
  using assms cp_chained_more_rows[of 0 C "ed_public C key" "audit_records (l_db l)" _ "[record_row C (l_seq l + 1) (l_head l) p]"]
  by (auto simp: chain_inv_def chained_append record_row_entry record_row_fields)

lemma store_step:
  assumes "chain_inv C key l" and "Log_store C oc every l p = (res, l')"
  shows "chain_inv C key l'" and "frame l l'" and "l_tick l < l_tick l'"
    and "stored l' = (if isl res then stored l else stored l @ [p])"
    and "isl res \<longleftrightarrow> \<not> execOK oc (l_tick l)"
proof -
  let ?rows = "audit_records (l_db l)"
  define row where "row = record_row C (l_seq l + 1) (l_head l) p"
  define line where "line = json_entry ((newEntry (l_seq l + 1) (pend_ms p) (pend_r p) (l_head l))
     \<lparr>ent_Hash := hex_encode (ar_hash row)\<rparr>)"
  define l2 where "l2 = l\<lparr>l_tick := Suc (l_tick l), l_seq := l_seq l + 1, l_head := ar_hash row,
      l_db := (l_db l)\<lparr>audit_records := ?rows @ [row]\<rparr>\<rparr>"
  have fresh: "\<not> list_ex (\<lambda>r. ar_seq r = l_seq l + 1) ?rows"
  proof -
    have "ar_seq r \<le> l_seq l" if "r \<in> set ?rows" for r
      using chained_seqs[of C genesis 0 ?rows r] assms(1) that by (simp add: chain_inv_def)
    then show ?thesis by (fastforce simp: list_ex_iff)
  qed
  have inv2: "chain_inv C key l2"
    unfolding l2_def row_def by (rule stored_row_inv[OF assms(1)])
  have st2: "stored l2 = stored l @ [p]"
    by (simp add: stored_def l2_def row_def record_row_fields)
  have "(res = Inl RecordNotStored \<and> l' = l\<lparr>l_tick := Suc (l_tick l)\<rparr> \<and> \<not> execOK oc (l_tick l))
    \<or> (execOK oc (l_tick l) \<and> \<not> isl res \<and>
        (\<exists>serr l3 cerr. store_stream oc (l_tick l) line l2 = (serr, l3) \<and> store_checkpoint C oc every l3 = (cerr, l')))"
  proof -
    have "Log_store C oc every l p = (
        if \<not> execOK oc (l_tick l) then (Inl RecordNotStored, l\<lparr>l_tick := Suc (l_tick l)\<rparr>)
        else (case store_stream oc (l_tick l) line l2 of (serr, l3) \<Rightarrow>
          (case store_checkpoint C oc every l3 of (cerr, l4) \<Rightarrow> (Inr (serr @ cerr), l4))))"
      using fresh by (simp add: Log_store_def Let_def row_def line_def l2_def)
    then show ?thesis using assms(2) by (auto split: if_splits prod.splits)
  qed
  then have "chain_inv C key l' \<and> frame l l' \<and> l_tick l < l_tick l'
      \<and> stored l' = (if isl res then stored l else stored l @ [p]) \<and> (isl res \<longleftrightarrow> \<not> execOK oc (l_tick l))"
  proof (elim disjE conjE exE)
    assume "res = Inl RecordNotStored" "l' = l\<lparr>l_tick := Suc (l_tick l)\<rparr>" "\<not> execOK oc (l_tick l)"
    with assms(1) show ?thesis by (simp add: chain_inv_def frame_def stored_def)
  next
    fix serr l3 cerr
    assume ok: "execOK oc (l_tick l)" "\<not> isl res" and ss: "store_stream oc (l_tick l) line l2 = (serr, l3)"
      and sc: "store_checkpoint C oc every l3 = (cerr, l')"
    note S = store_stream_step[OF inv2 ss]
    note K = store_checkpoint_step[OF S(1) sc]
    have f: "frame l l2" "l_tick l2 = Suc (l_tick l)" by (simp_all add: l2_def frame_def)
    have "frame l2 l'" by (rule frame_trans[OF S(2) K(2)])
    with f have "frame l l'" "l_tick l < l_tick l'"
      using frame_trans[of l l2 l'] by (simp, simp add: frame_def)
    with ok S(3) K(1,3) st2 show ?thesis by simp
  qed
  then show "chain_inv C key l'" and "frame l l'" and "l_tick l < l_tick l'"
    and "stored l' = (if isl res then stored l else stored l @ [p])"
    and "isl res \<longleftrightarrow> \<not> execOK oc (l_tick l)" by blast+
qed

section \<open>Flushing the backlog\<close>

lemma flush_loop_step:
  assumes "chain_inv C key l" and "flush_loop C oc every ps errs l = (errs', l')"
    and "l_keyLoaded l \<longrightarrow> l_key l \<noteq> None"
    and "\<not> l_closed l \<and> l_backlogged l \<longrightarrow> 0 < l_retries l"
  shows "chain_inv C key l' \<and> queue_inv l' \<and> account l' = stored l @ ps
    \<and> l_closed l' = l_closed l \<and> l_key l' = l_key l \<and> l_keyLoaded l' = l_keyLoaded l \<and> l_lost l' = l_lost l
    \<and> prefix (audit_records (l_db l)) (audit_records (l_db l'))
    \<and> prefix (audit_checkpoints (l_db l)) (audit_checkpoints (l_db l'))
    \<and> ((\<forall>t\<ge>l_tick l. execOK oc t) \<longrightarrow> l_backlog l' = [])"
  using assms
proof (induction ps arbitrary: errs l)
  case Nil
  then show ?case by (auto simp: chain_inv_def queue_inv_def account_def stored_def)
next
  case (Cons p ps)
  obtain res l1 where st: "Log_store C oc every l p = (res, l1)" by fastforce
  note S = store_step[OF Cons.prems(1) st]
  have F: "l_closed l1 = l_closed l" "l_key l1 = l_key l" "l_keyLoaded l1 = l_keyLoaded l" "l_lost l1 = l_lost l"
    "l_backlogged l1 = l_backlogged l" "l_retries l1 = l_retries l" "l_tick l \<le> l_tick l1"
    "prefix (audit_records (l_db l)) (audit_records (l_db l1))"
    "prefix (audit_checkpoints (l_db l)) (audit_checkpoints (l_db l1))"
    using S(2) by (simp_all add: frame_def)
  show ?case
  proof (cases res)
    case (Inl e)
    then have l': "l' = l1\<lparr>l_backlog := p # ps, l_storeErr := Some e, l_backlogged := True,
        l_retries := (if \<not> l_backlogged l1 \<and> \<not> l_closed l1 then l_retries l1 + 1 else l_retries l1)\<rparr>"
      using Cons.prems(2) st by simp
    have "chain_inv C key l'" using S(1) l' by (simp add: chain_inv_def)
    moreover have "queue_inv l'" using Cons.prems(3,4) F l' by (auto simp: queue_inv_def)
    moreover have "account l' = stored l @ p # ps" using S(4) Inl l' by (simp add: account_def stored_def)
    moreover have "\<not> execOK oc (l_tick l)" using S(5) Inl by simp
    ultimately show ?thesis using F l' by auto
  next
    case (Inr es)
    then have fl: "flush_loop C oc every ps (errs @ es) l1 = (errs', l')" using Cons.prems(2) st by simp
    have "stored l1 = stored l @ [p]" using S(4) Inr by simp
    with Cons.IH[OF S(1) fl] Cons.prems(3,4) F show ?thesis by auto
  qed
qed

section \<open>The log as a machine\<close>

datatype log_op =
    AppendOp Record
  | RetryOp
  | IntervalOp
  | StartOp
  | LoadKeyOp bool
  | CloseOp

fun log_step :: "crypto \<Rightarrow> bytes \<Rightarrow> outcomes \<Rightarrow> int \<Rightarrow> Log \<Rightarrow> log_op \<Rightarrow> Log" where
  "log_step C key oc every l (AppendOp r) = snd (Log_Append C oc every r l)"
| "log_step C key oc every l RetryOp = Log_retryStore C oc every l"
| "log_step C key oc every l IntervalOp = Log_signInterval C oc l"
| "log_step C key oc every l StartOp = (if l_keyDetail l = NotConfigured then Log_Start l else l)"
| "log_step C key oc every l (LoadKeyOp ok) = Log_loadKey (if ok then Some key else None) l"
| "log_step C key oc every l CloseOp = snd (Log_Close C oc every l)"

definition log_inv :: "crypto \<Rightarrow> bytes \<Rightarrow> Log \<Rightarrow> bool" where
  "log_inv C key l \<longleftrightarrow> chain_inv C key l \<and> queue_inv l"

text \<open>The records an operation adds to the account.\<close>

fun appended :: "log_op \<Rightarrow> Record list" where
  "appended (AppendOp r) = [r]"
| "appended _ = []"

definition log_le :: "Log \<Rightarrow> Log \<Rightarrow> bool" where
  "log_le l l' \<longleftrightarrow> prefix (audit_records (l_db l)) (audit_records (l_db l'))
     \<and> prefix (audit_checkpoints (l_db l)) (audit_checkpoints (l_db l')) \<and> prefix (l_lost l) (l_lost l')"

lemma flush_step:
  assumes "log_inv C key l" and "Log_flush C oc every (l\<lparr>l_backlog := bl\<rparr>) = (errs, l')"
  shows "log_inv C key l'" and "account l' = stored l @ bl" and "log_le l l'" and "l_closed l' = l_closed l"
    and "l_key l' = l_key l" and "l_lost l' = l_lost l" and "l_keyLoaded l' = l_keyLoaded l"
    and "\<forall>t\<ge>l_tick l. execOK oc t \<Longrightarrow> l_backlog l' = []"
proof -
  let ?l = "l\<lparr>l_backlog := bl\<rparr>"
  have inv: "chain_inv C key ?l" "l_keyLoaded ?l \<longrightarrow> l_key ?l \<noteq> None" "\<not> l_closed ?l \<and> l_backlogged ?l \<longrightarrow> 0 < l_retries ?l"
    using assms(1) by (auto simp: log_inv_def chain_inv_def queue_inv_def)
  have fl: "flush_loop C oc every bl [] ?l = (errs, l')" using assms(2) by (simp add: Log_flush_def)
  have "stored ?l = stored l" by (simp add: stored_def)
  with flush_loop_step[OF inv(1) fl inv(2,3)]
  show "log_inv C key l'" "account l' = stored l @ bl" "log_le l l'" "l_closed l' = l_closed l"
    "l_key l' = l_key l" "l_lost l' = l_lost l" "l_keyLoaded l' = l_keyLoaded l"
    "\<forall>t\<ge>l_tick l. execOK oc t \<Longrightarrow> l_backlog l' = []"
    by (simp_all add: log_inv_def log_le_def)
qed

lemma log_inv_frame: "chain_inv C key l' \<Longrightarrow> queue_inv l \<Longrightarrow> frame l l' \<Longrightarrow> log_inv C key l'"
  by (auto simp: log_inv_def queue_inv_def frame_def)

lemma log_le_frame: "frame l l' \<Longrightarrow> log_le l l'"
  by (simp add: log_le_def frame_def)

lemma log_le_refl: "log_le l l"
  by (simp add: log_le_def)

lemma log_le_trans: "log_le a b \<Longrightarrow> log_le b c \<Longrightarrow> log_le a c"
  by (auto simp: log_le_def)

lemma Close_step:
  assumes inv: "log_inv C key l" and cl: "Log_Close C oc every l = (errs, l')"
  shows "log_inv C key l'" and "log_le l l'" and "account l' = account l" and "l_closed l'"
    and "l_lost l' = l_lost l @ l_backlog l'" and "\<not> l_keyLoaded l'"
proof -
  let ?l = "l\<lparr>l_closed := True, l_retries := 0, l_keyLoaded := False\<rparr>"
  have inv0: "log_inv C key ?l" using inv by (auto simp: log_inv_def chain_inv_def queue_inv_def)
  obtain e1 l1 where fl: "Log_flush C oc every ?l = (e1, l1)" by fastforce
  have same: "?l\<lparr>l_backlog := l_backlog l\<rparr> = ?l" by simp
  note F = flush_step[OF inv0, of oc every "l_backlog l" e1 l1, unfolded same, OF fl]
  let ?l2 = "l1\<lparr>l_lost := l_lost l1 @ l_backlog l1\<rparr>"
  have acc0: "account ?l = account l" "stored ?l = stored l" by (simp_all add: account_def stored_def)
  have inv2: "log_inv C key ?l2" "log_le l ?l2" "account ?l2 = account l" "l_closed ?l2" "\<not> l_keyLoaded ?l2"
    "l_lost ?l2 = l_lost l @ l_backlog ?l2"
    using F acc0 by (auto simp: log_inv_def chain_inv_def queue_inv_def log_le_def account_def stored_def)
  have "log_inv C key l' \<and> log_le l l' \<and> account l' = account l \<and> l_closed l'
      \<and> l_lost l' = l_lost l @ l_backlog l' \<and> \<not> l_keyLoaded l'"
  proof (cases "l_key ?l2")
    case None
    then have "l' = ?l2" using cl fl by (auto simp: Log_Close_def split: prod.splits)
    with inv2 show ?thesis by blast
  next
    case (Some k)
    obtain r l3 where ck: "Log_checkpoint C oc ?l2 = (r, l3)" by fastforce
    then have l': "l' = l3\<lparr>l_key := None, l_keyDetail := ReleasedAtShutdown\<rparr>"
      using cl fl Some by (auto simp: Log_Close_def split: prod.splits)
    have c2: "chain_inv C key ?l2" "queue_inv ?l2" using inv2(1) by (simp_all add: log_inv_def)
    note K = checkpoint_step[OF c2(1) ck]
    have f: "frame ?l2 l3" by (rule K(2))
    then have "log_le l l3" using log_le_trans[OF inv2(2) log_le_frame] by blast
    moreover have "l_lost l3 = l_lost l @ l_backlog l3" "l_closed l3" "\<not> l_keyLoaded l3" "account l3 = account l"
      using f inv2(3-6) K(3) by (simp_all add: frame_def account_def)
    moreover have "log_inv C key l3" by (rule log_inv_frame[OF K(1) c2(2) f])
    ultimately show ?thesis
      unfolding l' by (auto simp: log_inv_def chain_inv_def queue_inv_def log_le_def account_def stored_def)
  qed
  then show "log_inv C key l'" and "log_le l l'" and "account l' = account l" and "l_closed l'"
    and "l_lost l' = l_lost l @ l_backlog l'" and "\<not> l_keyLoaded l'" by blast+
qed

lemma log_step_ok:
  assumes inv: "log_inv C key l"
  shows "log_inv C key (log_step C key oc every l a) \<and> log_le l (log_step C key oc every l a)
    \<and> map pend_r (account (log_step C key oc every l a)) = map pend_r (account l) @ appended a"
proof (cases a)
  case (AppendOp r)
  let ?bl = "l_backlog l @ [\<lparr>pend_r = r, pend_ms = clock oc (l_tick l)\<rparr>]"
  obtain e l' where fl: "Log_flush C oc every (l\<lparr>l_backlog := ?bl\<rparr>) = (e, l')" by fastforce
  from flush_step[OF inv fl] AppendOp fl show ?thesis by (simp add: Log_Append_def account_def)
next
  case RetryOp
  obtain e l' where fl: "Log_flush C oc every l = (e, l')" by fastforce
  have same: "l\<lparr>l_backlog := l_backlog l\<rparr> = l" by simp
  note F = flush_step[OF inv, of oc every "l_backlog l" e l', unfolded same, OF fl]
  have "log_inv C key (l'\<lparr>l_retries := n\<rparr>)" "log_le l (l'\<lparr>l_retries := n\<rparr>)" "account (l'\<lparr>l_retries := n\<rparr>) = account l"
    if "l_backlog l' = []" for n
    using F that by (auto simp: log_inv_def chain_inv_def queue_inv_def log_le_def account_def stored_def)
  moreover have "account l' = account l" using F(2) by (simp add: account_def)
  ultimately show ?thesis using F(1,3) fl inv log_le_refl RetryOp
    by (simp add: Log_retryStore_def Let_def)
next
  case IntervalOp
  obtain r l' where ck: "Log_checkpoint C oc l = (r, l')" by fastforce
  have c: "chain_inv C key l" "queue_inv l" using inv by (simp_all add: log_inv_def)
  note K = checkpoint_step[OF c(1) ck]
  have "account l' = account l" using K(2,3) by (simp add: account_def frame_def)
  with log_inv_frame[OF K(1) c(2) K(2)] log_le_frame[OF K(2)] ck inv log_le_refl IntervalOp
  show ?thesis by (simp add: Log_signInterval_def)
next
  case StartOp
  with inv show ?thesis
    by (auto simp: Log_Start_def log_inv_def chain_inv_def queue_inv_def log_le_def account_def stored_def)
next
  case (LoadKeyOp ok)
  with inv show ?thesis
    by (auto simp: Log_loadKey_def log_inv_def chain_inv_def queue_inv_def log_le_def account_def stored_def
        split: option.splits)
next
  case CloseOp
  obtain e l' where "Log_Close C oc every l = (e, l')" by fastforce
  with Close_step[OF inv this] CloseOp show ?thesis by simp
qed

interpretation audit: machine "log_step C key oc every" "log_inv C key" log_le
  by unfold_locales (use log_step_ok log_le_refl log_le_trans in blast)+

section \<open>An example log\<close>

text \<open>A log with its key loaded that stored one record, and a checkpoint of it.\<close>

definition example_crypto :: crypto where
  "example_crypto = \<lparr>sha256 = (\<lambda>_. ''digest''), ed_sign = (\<lambda>k m. k @ m), ed_public = (\<lambda>k. k),
     ed_verify = (\<lambda>p m s. s = p @ m)\<rparr>"

definition example_record :: Record where
  "example_record = \<lparr>rec_AgentTokenID = ''t'', rec_SecretName = ''github'', rec_Delivery = ''proxy'', rec_Upstream = ''gh'',
     rec_UpstreamHost = ''h'', rec_Decision = ''allow'', rec_Reason = [], rec_UpstreamStatus = 200, rec_Failure = []\<rparr>"

definition example_outcomes :: outcomes where
  "example_outcomes = \<lparr>execOK = (\<lambda>_. True), streamOK = (\<lambda>_. True), signOK = (\<lambda>_. True), clock = int\<rparr>"

definition example_log :: Log where
  "example_log = foldl (log_step example_crypto ''k'' example_outcomes 1) (Log_Open empty_DB)
     [StartOp, LoadKeyOp True, AppendOp example_record]"

lemma example_signs: "signs example_crypto k"
  by (simp add: signs_def example_crypto_def)

lemma example_outcomes_ok [simp]: "execOK example_outcomes t" "streamOK example_outcomes t" "signOK example_outcomes t"
  by (simp_all add: example_outcomes_def)

lemma example_log_fields:
  "l_key example_log = Some ''k''" "l_seq example_log = 1" "l_cpSeq example_log = 1" "l_keyLoaded example_log"
  "audit_records (l_db example_log) = [record_row example_crypto 1 genesis \<lparr>pend_r = example_record, pend_ms = 0\<rparr>]"
  "length (audit_checkpoints (l_db example_log)) = 1" "l_head example_log = ''digest''" "l_lost example_log = []"
  "l_backlog example_log = []" "\<not> l_closed example_log"
  by (simp_all add: example_log_def Log_Open_def empty_DB_def last_by_def Log_Start_def Log_loadKey_def Log_Append_def
      Log_flush_def Log_store_def Let_def store_stream_def store_checkpoint_def Log_checkpoint_def
      record_row_fields entry_hash_def) (simp_all add: example_crypto_def example_outcomes_def)

lemma example_log_inv: "log_inv example_crypto ''k'' example_log"
proof -
  have "log_inv example_crypto ''k'' (Log_Open empty_DB)"
    using example_signs by (auto simp: log_inv_def chain_inv_def queue_inv_def Log_Open_def empty_DB_def last_by_def)
  then show ?thesis unfolding example_log_def by (rule audit.inv_run)
qed

end
