(* ===== verification/Audit_Verify.thy ===== *)
theory Audit_Verify
  imports Audit_Chain
begin

text \<open>
  \<open>Verify\<close>: paging does not change what it computes, it accepts every database the log
  wrote, and what it accepts has the encodings the log wrote unless two given encodings
  collide under SHA-256.
\<close>

section \<open>One page\<close>

lemma verify_rows_Cons:
  "verify_rows C (r # page) m w =
     (if ar_seq r = v_Records (w_v w) + 1 \<and> ar_hash r = entry_hash C (row_entry r) \<and> ar_prev_hash r = w_prev w
      then verify_rows C page (Suc m) (w\<lparr>w_v := (w_v w)\<lparr>v_Records := ar_seq r\<rparr>, w_prev := ar_hash r\<rparr>)
      else verify_rows C (r # page) m w)"
  by (simp add: Let_def)

lemma verify_rows_bad:
  "\<not> (ar_seq r = v_Records (w_v w) + 1 \<and> ar_hash r = entry_hash C (row_entry r) \<and> ar_prev_hash r = w_prev w) \<Longrightarrow>
     v_Break (w_v (snd (verify_rows C (r # page) m w))) \<noteq> None"
  by (auto simp: Let_def)

declare verify_rows.simps(2) [simp del]

lemma verify_rows_page:
  assumes "v_Break (w_v w) = None" and "verify_rows C page m w = (n, w')"
  shows "(v_Break (w_v w') = None \<longleftrightarrow> chained C (w_prev w) (v_Records (w_v w)) page) \<and>
    (v_Break (w_v w') = None \<longrightarrow> n = m + length page \<and>
      w' = w\<lparr>w_v := (w_v w)\<lparr>v_Records := v_Records (w_v w) + int (length page)\<rparr>, w_prev := chain_head (w_prev w) page\<rparr>)"
  using assms
proof (induction page arbitrary: m w)
  case (Cons r page)
  let ?w = "w\<lparr>w_v := (w_v w)\<lparr>v_Records := ar_seq r\<rparr>, w_prev := ar_hash r\<rparr>"
  show ?case
  proof (cases "ar_seq r = v_Records (w_v w) + 1 \<and> ar_hash r = entry_hash C (row_entry r) \<and> ar_prev_hash r = w_prev w")
    case True
    then have step: "verify_rows C page (Suc m) ?w = (n, w')" using Cons.prems(2) verify_rows_Cons by metis
    have "v_Break (w_v ?w) = None" using Cons.prems(1) by simp
    from Cons.IH[OF this step] True show ?thesis by (simp add: algebra_simps)
  next
    case False
    with verify_rows_bad[OF False, of page m] Cons.prems(2) show ?thesis by auto
  qed
qed auto

text \<open>The rows a walk reads, in the order it reads them.\<close>

definition read_rows :: "DB \<Rightarrow> audit_record_row list" where
  "read_rows db = sort_key ar_seq (filter (\<lambda>r. 0 < ar_seq r) (audit_records db))"

definition read_cps :: "DB \<Rightarrow> audit_checkpoint_row list" where
  "read_cps db = sort_key cp_seq (filter (\<lambda>c. 0 < cp_seq c) (audit_checkpoints db))"

lemma filter_sorted_drop:
  assumes "sorted (map f xs)" and "\<forall>x\<in>set (take k xs). \<not> n < f x" and "\<forall>x\<in>set (drop k xs). n < f x"
  shows "filter (\<lambda>x. n < f x) xs = drop k xs"
proof -
  have "filter (\<lambda>x. n < f x) xs = filter (\<lambda>x. n < f x) (take k xs @ drop k xs)" by simp
  also have "\<dots> = drop k xs"
    using assms(2,3) by (simp only: filter_append) (simp add: filter_empty_conv)
  finally show ?thesis .
qed

lemma sort_key_sorted: "sorted (map f xs) \<Longrightarrow> sort_key f xs = xs"
  by (induction xs) (simp_all add: insort_is_Cons)

lemma sort_key_filter: "filter P (sort_key f xs) = sort_key f (filter P xs)"
  by (rule filter_sort)

text \<open>A page is a slice of the rows, once what was read so far is the chain's start.\<close>

lemma record_page_slice:
  assumes "distinct (map ar_seq (audit_records db))" and "chained C prev 0 (take k (read_rows db))"
    and "k \<le> length (read_rows db)"
  shows "record_page db (int k) = take verifyPage_size (drop k (read_rows db))"
proof -
  let ?S = "read_rows db"
  have sorted: "sorted (map ar_seq ?S)" by (simp add: read_rows_def)
  have "distinct (map ar_seq (filter (\<lambda>r. 0 < ar_seq r) (audit_records db)))"
    by (rule distinct_map_filter[OF assms(1)])
  then have "distinct (map ar_seq ?S)" by (simp add: read_rows_def distinct_map)
  then have strict: "sorted_wrt (<) (map ar_seq ?S)" using sorted strict_sorted_iff by blast
  have front: "ar_seq (?S ! i) = int i + 1" if "i < k" for i
    using chained_seq[OF assms(2), of i] that assms(3) by simp
  have "int k < ar_seq (?S ! i)" if "k \<le> i" "i < length ?S" for i
  proof (cases "k = 0")
    case True
    have "?S ! i \<in> set ?S" using that by simp
    then show ?thesis using True by (simp add: read_rows_def)
  next
    case False
    then have "ar_seq (?S ! (k - 1)) < ar_seq (?S ! i)"
      using strict that by (simp add: sorted_wrt_iff_nth_less)
    with front[of "k - 1"] False show ?thesis by simp
  qed
  then have "\<forall>x\<in>set (drop k ?S). int k < ar_seq x" by (auto simp: in_set_conv_nth)
  moreover have "\<forall>x\<in>set (take k ?S). \<not> int k < ar_seq x"
    using front assms(3) by (auto simp: in_set_conv_nth)
  ultimately have "filter (\<lambda>r. int k < ar_seq r) ?S = drop k ?S" using filter_sorted_drop[OF sorted] by blast
  moreover have "filter (\<lambda>r. int k < ar_seq r) ?S = sort_key ar_seq (filter (\<lambda>r. int k < ar_seq r) (audit_records db))"
  proof -
    have "filter (\<lambda>r. int k < ar_seq r) ?S
        = sort_key ar_seq (filter (\<lambda>r. int k < ar_seq r) (filter (\<lambda>r. 0 < ar_seq r) (audit_records db)))"
      unfolding read_rows_def by (rule sort_key_filter)
    moreover have "filter (\<lambda>r. int k < ar_seq r) (filter (\<lambda>r. 0 < ar_seq r) (audit_records db))
        = filter (\<lambda>r. int k < ar_seq r) (audit_records db)"
      unfolding filter_filter by (rule filter_cong) auto
    ultimately show ?thesis by simp
  qed
  ultimately show ?thesis by (simp add: record_page_def)
qed

section \<open>Walking the records\<close>

text \<open>The walk has checked the first \<open>k\<close> rows of \<open>S\<close> and found no break.\<close>

definition walk_at :: "crypto \<Rightarrow> audit_record_row list \<Rightarrow> nat \<Rightarrow> walk \<Rightarrow> bool" where
  "walk_at C S k w \<longleftrightarrow> v_Break (w_v w) = None \<and> v_Records (w_v w) = int k \<and> k \<le> length S
     \<and> chained C genesis 0 (take k S) \<and> w_prev w = chain_head genesis (take k S)"

lemma chained_take_drop:
  "chained C prev n (take (k + j) S) \<longleftrightarrow>
     chained C prev n (take k S) \<and> chained C (chain_head prev (take k S)) (n + int (length (take k S))) (take j (drop k S))"
  by (simp only: take_add chained_append)

lemma chain_head_append: "chain_head prev (a @ b) = chain_head (chain_head prev a) b"
  by (induction a arbitrary: prev) simp_all

text \<open>One page from a good state: a break, or the walk moves on by the page.\<close>

lemma page_step:
  assumes "walk_at C S k w" and "distinct (map ar_seq (audit_records db))" and "read_rows db = S"
    and "verify_rows C (record_page db (v_Records (w_v w))) 0 w = (n, w')"
  defines "j \<equiv> length (take verifyPage_size (drop k S))"
  shows "v_Break (w_v w') = None \<longleftrightarrow> chained C genesis 0 (take (k + j) S)"
    and "v_Break (w_v w') = None \<Longrightarrow> walk_at C S (k + j) w' \<and> n = j
      \<and> w_cpSeq w' = w_cpSeq w \<and> w_public w' = w_public w \<and> v_Checkpoints (w_v w') = v_Checkpoints (w_v w)"
proof -
  let ?page = "take verifyPage_size (drop k S)"
  have k: "v_Records (w_v w) = int k" "k \<le> length S" "chained C genesis 0 (take k S)" "w_prev w = chain_head genesis (take k S)"
    "v_Break (w_v w) = None"
    using assms(1) by (auto simp: walk_at_def)
  have page: "record_page db (v_Records (w_v w)) = ?page"
    using record_page_slice[OF assms(2), of C genesis k] k assms(3) by simp
  have slice: "take j (drop k S) = ?page" by (auto simp: j_def min_def)
  have ch: "chained C (w_prev w) (v_Records (w_v w)) ?page \<longleftrightarrow> chained C genesis 0 (take (k + j) S)"
    using k by (simp add: chained_take_drop slice)
  note V = verify_rows_page[OF k(5) assms(4)[unfolded page]]
  from V ch show iff: "v_Break (w_v w') = None \<longleftrightarrow> chained C genesis 0 (take (k + j) S)" by blast
  assume none: "v_Break (w_v w') = None"
  have "chain_head (w_prev w) ?page = chain_head genesis (take (k + j) S)"
    using k(4) by (simp add: take_add slice chain_head_append)
  moreover have "k + j \<le> length S" using k(2) by (simp add: j_def)
  ultimately show "walk_at C S (k + j) w' \<and> n = j
      \<and> w_cpSeq w' = w_cpSeq w \<and> w_public w' = w_public w \<and> v_Checkpoints (w_v w') = v_Checkpoints (w_v w)"
    using V none iff k by (simp add: walk_at_def j_def)
qed

text \<open>A walk over one database that never changes, whatever it holds.\<close>

lemma verifyRest_constant:
  assumes "walk_at C S k w" and "distinct (map ar_seq (audit_records db))" and "read_rows db = S"
    and "set dbs \<subseteq> {Some db}" and "verifyRest C dbs w = Inr (w', dbs')" and "v_Break (w_v w') = None"
  shows "walk_at C S (length S) w' \<and> set dbs' \<subseteq> {Some db}"
  using assms
proof (induction dbs arbitrary: k w)
  case (Cons d dbs)
  obtain n w1 where v: "verify_rows C (record_page db (v_Records (w_v w))) 0 w = (n, w1)" by fastforce
  let ?j = "length (take verifyPage_size (drop k S))"
  note P = page_step[OF Cons.prems(1-3) v]
  have d: "d = Some db" using Cons.prems(4) by simp
  show ?case
  proof (cases "v_Break (w_v w1) \<noteq> None \<or> n < verifyPage_size")
    case True
    then have "w' = w1" "dbs' = dbs" using Cons.prems(5) d v by simp_all
    moreover have "n < verifyPage_size" using True \<open>w' = w1\<close> Cons.prems(6) by simp
    moreover have none: "v_Break (w_v w1) = None" using Cons.prems(6) \<open>w' = w1\<close> by simp
    ultimately have "k + ?j = length S" using P(2)[OF none] Cons.prems(1) by (auto simp: walk_at_def min_def split: if_splits)
    then show ?thesis using P(2)[OF none] \<open>w' = w1\<close> \<open>dbs' = dbs\<close> Cons.prems(4) by auto
  next
    case False
    then have "verifyRest C dbs w1 = Inr (w', dbs')" using Cons.prems(5) d v by simp
    moreover have "walk_at C S (k + ?j) w1" using P(2) False by simp
    ultimately show ?thesis using Cons.IH[of "k + ?j" w1] Cons.prems by auto
  qed
qed simp

lemma verify_checkpoints_records:
  assumes "v_Break (w_v w) = None" and "verify_checkpoints C db cs m w = (n, w')" and "v_Break (w_v w') = None"
  shows "v_Records (w_v w') = v_Records (w_v w) \<and> w_prev w' = w_prev w \<and> w_public w' = w_public w"
  using assms
proof (induction cs arbitrary: m w)
  case (Cons c cs)
  let ?w = "w\<lparr>w_cpSeq := cp_seq c, w_v := (w_v w)\<lparr>v_Checkpoints := v_Checkpoints (w_v w) + 1\<rparr>\<rparr>"
  have "verify_checkpoints C db cs (m + 1) ?w = (n, w')"
    using Cons.prems(2,3) by (auto simp: Let_def split: if_splits)
  with Cons.IH[of ?w "m + 1"] Cons.prems(1,3) show ?case by simp
qed simp

lemma walk_checkpoints_records:
  assumes "v_Break (w_v w) = None" and "walk_checkpoints C rb dbs w = Inr (w', dbs')" and "v_Break (w_v w') = None"
  shows "rb = None \<and> v_Records (w_v w') = v_Records (w_v w) \<and> w_prev w' = w_prev w \<and> w_public w' = w_public w"
  using assms
proof (induction C rb dbs w rule: walk_checkpoints.induct)
  case (3 C rb db dbs w)
  obtain n w1 where v: "verify_checkpoints C db (checkpoint_page db (w_cpSeq w) (v_Records (w_v w))) 0 w = (n, w1)" by fastforce
  have b1: "v_Break (w_v w1) = None" using "3.prems" v by (auto split: if_splits)
  note R = verify_checkpoints_records[OF "3.prems"(1) v b1]
  show ?case
  proof (cases "n < verifyPage_size")
    case True
    with "3.prems" v b1 R show ?thesis by auto
  next
    case False
    with "3.prems" v b1 have "walk_checkpoints C rb dbs w1 = Inr (w', dbs')" by simp
    with "3.IH"[OF v[symmetric] refl] b1 False "3.prems"(3) R show ?thesis by simp
  qed
qed simp_all

lemma Log_walk_constant:
  assumes "walk_at C S k w" and "distinct (map ar_seq (audit_records db))" and "read_rows db = S"
    and "set dbs \<subseteq> {Some db}" and "Log_walk C dbs w = Inr (w', dbs')" and "v_Break (w_v w') = None"
  shows "walk_at C S (length S) w'"
proof -
  obtain w1 dbs1 where r: "verifyRest C dbs w = Inr (w1, dbs1)"
    and c: "walk_checkpoints C (v_Break (w_v w1)) dbs1 (w1\<lparr>w_v := (w_v w1)\<lparr>v_Break := None\<rparr>\<rparr>) = Inr (w', dbs')"
    using assms(5) by (auto simp: Log_walk_def)
  have none: "v_Break (w_v (w1\<lparr>w_v := (w_v w1)\<lparr>v_Break := None\<rparr>\<rparr>)) = None" by simp
  note K = walk_checkpoints_records[OF none c assms(6)]
  have "v_Break (w_v w1) = None" using K by simp
  from verifyRest_constant[OF assms(1-4) r this] K assms(6) show ?thesis by (simp add: walk_at_def)
qed

section \<open>Walking a database the log is writing\<close>

text \<open>
  Each query may see a later state of the database: the records and checkpoints of \<open>db\<close> are
  the first ones of the log's \<open>R\<close> and \<open>K\<close>.
\<close>

definition seen :: "audit_record_row list \<Rightarrow> audit_checkpoint_row list \<Rightarrow> DB \<Rightarrow> bool" where
  "seen R K db \<longleftrightarrow> prefix (audit_records db) R \<and> prefix (audit_checkpoints db) K"

lemma walk_at_prefix:
  assumes "prefix rows R" and "k \<le> length rows"
  shows "walk_at C rows k w \<longleftrightarrow> walk_at C R k w"
  using assms by (auto simp: walk_at_def prefix_def)

lemma chained_prefix: "chained C g n R \<Longrightarrow> prefix rows R \<Longrightarrow> chained C g n rows"
  by (auto simp: prefix_def chained_append)

lemma read_rows_chained:
  assumes "chained C g 0 (audit_records db)"
  shows "read_rows db = audit_records db"
proof -
  have "filter (\<lambda>r. 0 < ar_seq r) (audit_records db) = audit_records db"
    using chained_seqs[OF assms] by (simp add: filter_id_conv)
  then show ?thesis using chained_sorted[OF assms] by (simp add: read_rows_def sort_key_sorted)
qed

lemma verifyRest_honest:
  assumes "chained C genesis 0 R" and "walk_at C R k w" and "\<forall>d\<in>set ds. prefix (audit_records d) R \<and> k \<le> length (audit_records d)"
    and "sorted (map (\<lambda>d. length (audit_records d)) ds)"
    and "length R < k + verifyPage_size * length ds"
  shows "\<exists>w' k' ds'. verifyRest C (map Some ds) w = Inr (w', map Some ds') \<and> walk_at C R k' w' \<and> k \<le> k'
    \<and> w_cpSeq w' = w_cpSeq w \<and> w_public w' = w_public w \<and> v_Checkpoints (w_v w') = v_Checkpoints (w_v w)
    \<and> suffix ds' ds \<and> (\<forall>d\<in>set ds'. k' \<le> length (audit_records d))
    \<and> verifyPage_size * length ds \<le> verifyPage_size * length ds' + (length R - k) + verifyPage_size
    \<and> ((\<forall>d\<in>set ds. audit_records d = R) \<longrightarrow> k' = length R)"
  using assms(2-)
proof (induction ds arbitrary: k w)
  case Nil
  then show ?case by (simp add: walk_at_def)
next
  case (Cons d ds)
  let ?rows = "audit_records d"
  let ?j = "length (take verifyPage_size (drop k ?rows))"
  have pre: "prefix ?rows R" "k \<le> length ?rows" using Cons.prems(2) by auto
  have ch: "chained C genesis 0 ?rows" by (rule chained_prefix[OF assms(1) pre(1)])
  have at: "walk_at C ?rows k w" using walk_at_prefix[OF pre] Cons.prems(1) by blast
  obtain n w1 where v: "verify_rows C (record_page d (v_Records (w_v w))) 0 w = (n, w1)" by fastforce
  note P = page_step[OF at chained_distinct[OF ch] read_rows_chained[OF ch] v]
  have none: "v_Break (w_v w1) = None" using P(1) chained_prefix[OF ch take_is_prefix] by blast
  have kj: "k + ?j \<le> length ?rows" using pre(2) by simp
  have w1: "walk_at C R (k + ?j) w1" "n = ?j" "w_cpSeq w1 = w_cpSeq w" "w_public w1 = w_public w"
    "v_Checkpoints (w_v w1) = v_Checkpoints (w_v w)"
    using P(2)[OF none] walk_at_prefix[OF pre(1) kj] by auto
  have later: "length ?rows \<le> length (audit_records x)" if "x \<in> set ds" for x
    using Cons.prems(3) that by auto
  have len: "length ?rows \<le> length R" using pre(1) by (rule prefix_length_le)
  show ?case
  proof (cases "?j < verifyPage_size")
    case True
    then have full: "k + ?j = length ?rows" using pre(2) by (auto simp: min_def split: if_splits)
    have "n < verifyPage_size" using True w1(2) by simp
    then have "verifyRest C (map Some (d # ds)) w = Inr (w1, map Some ds)" using v by simp
    with w1 full later show ?thesis
      by (intro exI[of _ w1] exI[of _ "k + ?j"] exI[of _ ds]) (auto simp: suffix_def)
  next
    case False
    then have j: "?j = verifyPage_size" by simp
    have "\<not> n < verifyPage_size" using False w1(2) by simp
    then have step: "verifyRest C (map Some (d # ds)) w = verifyRest C (map Some ds) w1" using v none by simp
    have "\<forall>x\<in>set ds. prefix (audit_records x) R \<and> k + ?j \<le> length (audit_records x)"
      using Cons.prems(2) later kj by fastforce
    moreover have "sorted (map (\<lambda>d. length (audit_records d)) ds)" using Cons.prems(3) by simp
    moreover have "length R < k + ?j + verifyPage_size * length ds" using Cons.prems(4) j by simp
    ultimately obtain w' k' ds' where IH: "verifyRest C (map Some ds) w1 = Inr (w', map Some ds')" "walk_at C R k' w'"
      "k + ?j \<le> k'" "w_cpSeq w' = w_cpSeq w1" "w_public w' = w_public w1"
      "v_Checkpoints (w_v w') = v_Checkpoints (w_v w1)" "suffix ds' ds"
      "\<forall>d\<in>set ds'. k' \<le> length (audit_records d)"
      "verifyPage_size * length ds \<le> verifyPage_size * length ds' + (length R - (k + ?j)) + verifyPage_size"
      "(\<forall>d\<in>set ds. audit_records d = R) \<longrightarrow> k' = length R"
      using Cons.IH[OF w1(1)] by blast
    have "verifyPage_size * length (d # ds) \<le> verifyPage_size * length ds' + (length R - k) + verifyPage_size"
      using IH(9) j kj len by simp
    with IH step w1 show ?thesis
      by (intro exI[of _ w'] exI[of _ k'] exI[of _ ds']) (auto simp: suffix_ConsI)
  qed
qed

lemma find_chained:
  assumes "chained C g 0 rows" and "1 \<le> s" and "s \<le> int (length rows)"
  shows "find (\<lambda>r. ar_seq r = s) rows = Some (rows ! nat (s - 1))"
proof -
  have i: "nat (s - 1) < length rows" using assms(2,3) by linarith
  have seq: "ar_seq (rows ! nat (s - 1)) = s" using chained_seq[OF assms(1) i] assms(2) by simp
  have inj: "y = rows ! nat (s - 1)" if y: "y \<in> set rows" "ar_seq y = s" for y
  proof -
    obtain j where j: "j < length rows" "y = rows ! j" using y(1) by (auto simp: in_set_conv_nth)
    then have "j = nat (s - 1)" using chained_seq[OF assms(1) j(1)] y(2) by simp
    with j(2) show ?thesis by simp
  qed
  show ?thesis by (rule find_unique) (use i seq inj in auto)
qed

lemma verify_checkpoints_honest:
  assumes "chained C genesis 0 R" and "prefix (audit_records db) R"
    and "cp_chained C (w_public w) R (w_cpSeq w) cs" and "0 \<le> w_cpSeq w"
    and "\<forall>c\<in>set cs. cp_seq c \<le> int (length (audit_records db))"
  shows "verify_checkpoints C db cs m w = (m + length cs, w\<lparr>w_cpSeq := cp_last (w_cpSeq w) cs,
    w_v := (w_v w)\<lparr>v_Checkpoints := v_Checkpoints (w_v w) + int (length cs)\<rparr>\<rparr>)"
  using assms(3-)
proof (induction cs arbitrary: m w)
  case (Cons c cs)
  let ?rows = "audit_records db"
  let ?w = "w\<lparr>w_cpSeq := cp_seq c, w_v := (w_v w)\<lparr>v_Checkpoints := v_Checkpoints (w_v w) + 1\<rparr>\<rparr>"
  have b: "1 \<le> cp_seq c" "cp_seq c \<le> int (length ?rows)" using Cons.prems by auto
  have "find (\<lambda>r. ar_seq r = cp_seq c) ?rows = Some (?rows ! nat (cp_seq c - 1))"
    by (rule find_chained[OF chained_prefix[OF assms(1,2)] b])
  moreover have "?rows ! nat (cp_seq c - 1) = R ! nat (cp_seq c - 1)"
    using assms(2) b by (auto simp: prefix_def nth_append)
  ultimately have "verify_checkpoints C db (c # cs) m w = verify_checkpoints C db cs (m + 1) ?w"
    using Cons.prems(1) by (auto simp: row_checkpoint_def Let_def)
  with Cons.IH[of ?w "m + 1"] Cons.prems show ?case by (simp add: algebra_simps)
qed simp

lemma filter_le_takeWhile: "sorted (map f xs) \<Longrightarrow> filter (\<lambda>x. f x \<le> k) xs = takeWhile (\<lambda>x. f x \<le> k) xs"
proof (induction xs)
  case (Cons x xs)
  show ?case
  proof (cases "f x \<le> k")
    case True
    with Cons show ?thesis by simp
  next
    case False
    with Cons.prems have "\<forall>y\<in>set xs. \<not> f y \<le> k" by fastforce
    with False show ?thesis by (simp add: filter_empty_conv)
  qed
qed simp

text \<open>A page of checkpoints is the next slice of the log's checkpoints, up to the records checked.\<close>

lemma checkpoint_page_slice:
  assumes "cp_chained C pub R 0 K" and "prefix (audit_checkpoints db) K" and "m \<le> length (audit_checkpoints db)"
  shows "checkpoint_page db (cp_last 0 (take m K)) k
    = take verifyPage_size (takeWhile (\<lambda>c. cp_seq c \<le> k) (drop m (audit_checkpoints db)))"
proof -
  let ?cs = "audit_checkpoints db"
  have ch: "cp_chained C pub R 0 ?cs" using assms(1,2) by (auto simp: prefix_def cp_chained_append)
  note srt = cp_chained_sorted[OF ch]
  have tk: "take m ?cs = take m K" using assms(2,3) by (auto simp: prefix_def)
  let ?a = "cp_last 0 (take m K)"
  have "cp_chained C pub R 0 (take m ?cs @ drop m ?cs)" using ch by simp
  then have parts: "cp_chained C pub R 0 (take m ?cs)" "cp_chained C pub R (cp_last 0 (take m ?cs)) (drop m ?cs)"
    unfolding cp_chained_append by simp_all
  have lo: "\<forall>c\<in>set (take m ?cs). \<not> ?a < cp_seq c" using cp_chained_bounds[OF parts(1)] tk by fastforce
  have hi: "\<forall>c\<in>set (drop m ?cs). ?a < cp_seq c" using cp_chained_bounds[OF parts(2)] tk by fastforce
  have "filter (\<lambda>c. ?a < cp_seq c) ?cs = drop m ?cs"
    by (rule filter_sorted_drop) (use srt lo hi in auto)
  then have "filter (\<lambda>c. ?a < cp_seq c \<and> cp_seq c \<le> k) ?cs = filter (\<lambda>c. cp_seq c \<le> k) (drop m ?cs)"
    by (metis (no_types, lifting) filter_cong filter_filter)
  also have "\<dots> = takeWhile (\<lambda>c. cp_seq c \<le> k) (drop m ?cs)"
    by (rule filter_le_takeWhile) (use srt in \<open>simp add: sorted_wrt_drop flip: drop_map\<close>)
  finally have f: "filter (\<lambda>c. ?a < cp_seq c \<and> cp_seq c \<le> k) ?cs = takeWhile (\<lambda>c. cp_seq c \<le> k) (drop m ?cs)" .
  have "sorted (map cp_seq (filter (\<lambda>c. ?a < cp_seq c \<and> cp_seq c \<le> k) ?cs))" using srt sorted_filter by blast
  then show ?thesis by (simp add: checkpoint_page_def sort_key_sorted f)
qed

definition cp_at :: "audit_checkpoint_row list \<Rightarrow> nat \<Rightarrow> walk \<Rightarrow> bool" where
  "cp_at K m w \<longleftrightarrow> w_cpSeq w = cp_last 0 (take m K) \<and> v_Checkpoints (w_v w) = int m \<and> m \<le> length K"

lemma walk_checkpoints_honest:
  assumes "chained C genesis 0 R" and "cp_chained C pub R 0 K" and "walk_at C R k w" and "cp_at K m w"
    and "w_public w = pub"
    and "\<forall>d\<in>set ds. seen R K d \<and> k \<le> length (audit_records d) \<and> m \<le> length (audit_checkpoints d)"
    and "sorted (map (\<lambda>d. length (audit_checkpoints d)) ds)" and "length K < m + verifyPage_size * length ds"
  shows "\<exists>w' m' ds'. walk_checkpoints C None (map Some ds) w = Inr (w', map Some ds') \<and> walk_at C R k w'
    \<and> cp_at K m' w' \<and> w_public w' = pub
    \<and> (k = length R \<and> (\<forall>d\<in>set ds. audit_checkpoints d = K) \<longrightarrow> m' = length K)"
  using assms(3-)
proof (induction ds arbitrary: m w)
  case Nil
  then show ?case by (simp add: cp_at_def)
next
  case (Cons d ds)
  let ?cs = "audit_checkpoints d"
  define page where "page = take verifyPage_size (takeWhile (\<lambda>c. cp_seq c \<le> int k) (drop m ?cs))"
  have sn: "prefix (audit_records d) R" "prefix ?cs K" "k \<le> length (audit_records d)" "m \<le> length ?cs"
    using Cons.prems(4) by (auto simp: seen_def)
  have pg: "checkpoint_page d (w_cpSeq w) (v_Records (w_v w)) = page"
    using checkpoint_page_slice[OF assms(2) sn(2,4)] Cons.prems(1,2) by (simp add: page_def walk_at_def cp_at_def)
  have "prefix page (drop m ?cs)" unfolding page_def
    by (metis prefix_order.trans take_is_prefix takeWhile_is_prefix)
  moreover have "prefix (drop m ?cs) (drop m K)" using sn(2,4) by (auto simp: prefix_def)
  ultimately obtain z where z: "drop m K = page @ z" by (metis prefix_def prefix_order.trans)
  then have K: "K = take m K @ page @ z" by (metis append_take_drop_id)
  have m: "m \<le> length K" using Cons.prems(2) by (simp add: cp_at_def)
  have tk: "take (m + length page) K = take m K @ page" using z by (simp add: take_add)
  have mp: "m + length page \<le> length ?cs" unfolding page_def using sn(4) length_takeWhile_le[of _ "drop m ?cs"]
    by (metis (no_types, lifting) add_le_cancel_left le_add_diff_inverse length_drop length_take min.coboundedI1)
  have "cp_chained C pub R 0 (take m K @ page @ z)" using assms(2) K by simp
  then have chp: "cp_chained C pub R 0 (take m K)" "cp_chained C (w_public w) R (w_cpSeq w) page"
    using Cons.prems(2,3) unfolding cp_chained_append by (simp_all add: cp_at_def)
  have ge: "0 \<le> w_cpSeq w" using cp_last_ge[OF chp(1)] Cons.prems(2) by (simp add: cp_at_def)
  have "cp_seq c \<le> int k" if "c \<in> set page" for c
    using that set_takeWhileD by (fastforce simp: page_def dest: in_set_takeD)
  then have le: "\<forall>c\<in>set page. cp_seq c \<le> int (length (audit_records d))" using sn(3) by fastforce
  define w1 where "w1 = w\<lparr>w_cpSeq := cp_last (w_cpSeq w) page,
      w_v := (w_v w)\<lparr>v_Checkpoints := v_Checkpoints (w_v w) + int (length page)\<rparr>\<rparr>"
  have v: "verify_checkpoints C d page 0 w = (length page, w1)"
    using verify_checkpoints_honest[OF assms(1) sn(1) chp(2) ge le, of 0] by (simp add: w1_def)
  have "cp_last 0 (take m K @ page) = cp_last (cp_last 0 (take m K)) page" by (simp add: cp_last_def)
  then have w1: "walk_at C R k w1" "cp_at K (m + length page) w1" "w_public w1 = pub"
    using Cons.prems(1-3) tk mp sn(2) prefix_length_le by (auto simp: w1_def walk_at_def cp_at_def intro: le_trans)
  have none: "v_Break (w_v w1) = None" using w1(1) by (simp add: walk_at_def)
  show ?case
  proof (cases "length page < verifyPage_size")
    case True
    have "walk_checkpoints C None (map Some (d # ds)) w = Inr (w1, map Some ds)"
      using v pg none True by (simp add: w1_def)
    moreover have "m + length page = length K" if "k = length R" "audit_checkpoints d = K"
    proof -
      have "cp_seq c \<le> int k" if "c \<in> set (drop m K)" for c
        using cp_chained_bounds[OF assms(2), of c] in_set_dropD[OF that] \<open>k = length R\<close> by simp
      then have "takeWhile (\<lambda>c. cp_seq c \<le> int k) (drop m ?cs) = drop m ?cs" using that(2) by (simp add: takeWhile_eq_all_conv)
      then have "page = drop m ?cs" using True by (simp add: page_def)
      with that(2) m show ?thesis by simp
    qed
    ultimately show ?thesis using w1 by (intro exI[of _ w1] exI[of _ "m + length page"] exI[of _ ds]) auto
  next
    case False
    then have lp: "length page = verifyPage_size" by (simp add: page_def)
    have step: "walk_checkpoints C None (map Some (d # ds)) w = walk_checkpoints C None (map Some ds) w1"
      using v pg none False by simp
    have "\<forall>x\<in>set ds. seen R K x \<and> k \<le> length (audit_records x) \<and> m + length page \<le> length (audit_checkpoints x)"
      using Cons.prems(4,5) mp by fastforce
    moreover have "sorted (map (\<lambda>d. length (audit_checkpoints d)) ds)" using Cons.prems(5) by simp
    moreover have "length K < m + length page + verifyPage_size * length ds" using Cons.prems(6) lp by simp
    ultimately show ?thesis using Cons.IH[OF w1] unfolding step by (metis list.set_intros(2))
  qed
qed

section \<open>Two chains with the same end\<close>

text \<open>The bytes a record's hash covers.\<close>

definition record_bytes :: "audit_record_row \<Rightarrow> bytes" where
  "record_bytes r = json_entry (row_entry r)"

lemma entry_hash_record: "entry_hash C (row_entry r) = sha256 C (record_bytes r)"
  by (simp add: entry_hash_def record_bytes_def row_entry_def newEntry_def)

lemma json_segs_plain:
  "\<forall>c\<in>set s. byte c < 0x80 \<and> json_ascii (byte c) = [c] \<Longrightarrow> json_segs (runes s) s = s"
  by (induction s) (auto simp: runes_ascii json_rune_def runes_Cons)

lemma hexdigit_plain:
  assumes "n < 16"
  shows "byte (hexdigit n) < 0x80 \<and> json_ascii (byte (hexdigit n)) = [hexdigit n] \<and> hexdigit n \<noteq> dquote"
proof -
  have b: "byte (hexdigit n) = (if n < 10 then 48 + n else 87 + n)" using assms by (simp add: hexdigit_def)
  then have ne: "byte (hexdigit n) \<noteq> byte dquote" using assms by auto
  have "json_ascii (byte (hexdigit n)) = [char_of (byte (hexdigit n))]"
    using b assms by (auto simp: json_ascii_def)
  then have "json_ascii (byte (hexdigit n)) = [hexdigit n]" by (simp only: char_of_char)
  moreover have "byte (hexdigit n) < 0x80" using b assms by auto
  moreover have "hexdigit n \<noteq> dquote" using ne by metis
  ultimately show ?thesis by simp
qed

lemma hex_encode_plain:
  "\<forall>c\<in>set (hex_encode h). byte c < 0x80 \<and> json_ascii (byte c) = [c] \<and> c \<noteq> dquote"
proof
  fix c assume "c \<in> set (hex_encode h)"
  then obtain x where "c = hexdigit (byte x div 16) \<or> c = hexdigit (byte x mod 16)"
    by (auto simp: hex_encode_def)
  moreover have "byte x div 16 < 16" "byte x mod 16 < 16" using byte_lt[of x] by linarith+
  ultimately show "byte c < 0x80 \<and> json_ascii (byte c) = [c] \<and> c \<noteq> dquote" using hexdigit_plain by metis
qed

lemma json_string_hex: "json_string (hex_encode h) = dquote # hex_encode h @ [dquote]"
  using json_segs_plain[of "hex_encode h"] hex_encode_plain[of h] by (simp add: json_string_def)

text \<open>The previous hash is the last field, so it can be read from the end.\<close>

lemma record_bytes_prev:
  assumes "record_bytes a = record_bytes b"
  shows "ar_prev_hash a = ar_prev_hash b"
proof -
  have suf: "\<exists>x. record_bytes r = x @ dquote # hex_encode (ar_prev_hash r) @ [dquote, CHR ''}'']" for r
    by (simp add: record_bytes_def json_entry_def json_field_def row_entry_def newEntry_def json_string_hex)
  obtain x where x: "record_bytes a = x @ dquote # hex_encode (ar_prev_hash a) @ [dquote, CHR ''}'']" using suf by blast
  obtain y where y: "record_bytes b = y @ dquote # hex_encode (ar_prev_hash b) @ [dquote, CHR ''}'']" using suf by blast
  have tw: "takeWhile (\<lambda>c. c \<noteq> dquote) (drop 2 (rev (z @ dquote # hex_encode h @ [dquote, CHR ''}'']))) = rev (hex_encode h)" for z h
  proof -
    have "takeWhile (\<lambda>c. c \<noteq> dquote) (rev (hex_encode h) @ dquote # rev z)
        = rev (hex_encode h) @ takeWhile (\<lambda>c. c \<noteq> dquote) (dquote # rev z)"
      by (rule takeWhile_append2) (use hex_encode_plain[of h] in auto)
    then show ?thesis by simp
  qed
  have "rev (hex_encode (ar_prev_hash a)) = rev (hex_encode (ar_prev_hash b))"
    using tw[of x "ar_prev_hash a", folded x] tw[of y "ar_prev_hash b", folded y] assms by metis
  then show ?thesis by (simp add: hex_encode_inject)
qed

text \<open>Two different encodings with the same hash, at the same place of two chains.\<close>

definition collision_at :: "crypto \<Rightarrow> audit_record_row list \<Rightarrow> audit_record_row list \<Rightarrow> nat \<Rightarrow> bool" where
  "collision_at C A B i \<longleftrightarrow> record_bytes (A ! i) \<noteq> record_bytes (B ! i)
     \<and> sha256 C (record_bytes (A ! i)) = sha256 C (record_bytes (B ! i))"

lemma chains_agree:
  assumes "length A = length B" and "chained C g 0 A" and "chained C g 0 B" and "chain_head g A = chain_head g B"
  shows "(\<exists>i < length A. collision_at C A B i) \<or> map record_bytes A = map record_bytes B"
  using assms
proof (induction A B rule: rev_induct2)
  case (4 a A b B)
  have eq: "ar_hash a = ar_hash b" using "4.prems"(4) by simp
  have h: "ar_hash a = sha256 C (record_bytes a)" "ar_hash b = sha256 C (record_bytes b)"
    and p: "ar_prev_hash a = chain_head g A" "ar_prev_hash b = chain_head g B"
    and ch: "chained C g 0 A" "chained C g 0 B"
    using "4.prems"(2,3) by (simp_all add: chained_append entry_hash_record)
  have len: "length A = length B" using "4.prems"(1) by simp
  show ?case
  proof (cases "record_bytes a = record_bytes b")
    case True
    then have "chain_head g A = chain_head g B" using record_bytes_prev p by metis
    with "4.IH"[OF len ch] consider i where "i < length A" "collision_at C A B i" | "map record_bytes A = map record_bytes B"
      by blast
    then show ?thesis
    proof cases
      case 1
      then have "collision_at C (A @ [a]) (B @ [b]) i" using len by (simp add: collision_at_def nth_append)
      with 1 show ?thesis by (intro disjI1 exI[of _ i]) simp
    next
      case 2
      with True show ?thesis by simp
    qed
  next
    case False
    then have "collision_at C (A @ [a]) (B @ [b]) (length A)"
      using eq h len by (simp add: collision_at_def nth_append)
    then show ?thesis by auto
  qed
qed simp_all

section \<open>Soundness\<close>

lemma Verify_intactD:
  assumes "Log_Verify C dbs dbs' (Some db) l = Inr v" and "v_Break v = None"
    and "set dbs \<subseteq> {Some db}" and "set dbs' \<subseteq> {Some db}"
    and "distinct (map ar_seq (audit_records db))"
  shows "chained C genesis 0 (read_rows db) \<and> l_seq l = int (length (read_rows db))
    \<and> l_head l = chain_head genesis (read_rows db) \<and> v_Records v = l_seq l"
proof -
  obtain key where key: "l_key l = Some key" using assms(1) by (cases "l_key l") (auto simp: Log_Verify_def)
  let ?w0 = "\<lparr>w_v = \<lparr>v_Records = 0, v_Checkpoints = 0, v_Break = None\<rparr>, w_prev = genesis, w_cpSeq = 0,
      w_public = ed_public C key\<rparr>"
  let ?S = "read_rows db"
  have w0: "walk_at C ?S 0 ?w0" by (simp add: walk_at_def)
  obtain w1 d1 where 1: "Log_walk C dbs ?w0 = Inr (w1, d1)"
    using assms(1) key by (auto simp: Log_Verify_def Let_def)
  have b1: "v_Break (w_v w1) = None"
    using assms(1,2) key 1 by (auto simp: Log_Verify_def Let_def split: if_splits)
  obtain w2 d2 where 2: "Log_walk C dbs' w1 = Inr (w2, d2)"
    using assms(1) key 1 b1 by (auto simp: Log_Verify_def Let_def)
  have b2: "v_Break (w_v w2) = None" and v: "v = verify_end l db w2"
    using assms(1,2) key 1 b1 2 by (auto simp: Log_Verify_def Let_def split: if_splits)
  have "walk_at C ?S (length ?S) w1" by (rule Log_walk_constant[OF w0 assms(5) refl assms(3) 1 b1])
  from Log_walk_constant[OF this assms(5) refl assms(4) 2 b2]
  have w2: "v_Records (w_v w2) = int (length ?S)" "chained C genesis 0 ?S" "w_prev w2 = chain_head genesis ?S"
    by (auto simp: walk_at_def)
  have "v_Records (w_v w2) = l_seq l \<and> w_prev w2 = l_head l \<and> v = w_v w2"
    using v assms(2) by (auto simp: verify_end_def Let_def split: list.splits if_splits)
  with w2 show ?thesis by auto
qed

text \<open>
  C7: tamper evidence. Let the log be in a state its own operations reached, and let someone
  change the database in any way. If \<open>Verify\<close> reports no break over it, then every record it
  holds encodes to the bytes the log wrote, in number and order, or two named encodings are a
  SHA-256 collision: at some position, the changed record and the original one.
\<close>

theorem Verify_tamper_evident:
  assumes "chain_inv C key l" and "Log_Verify C dbs dbs' (Some db) l = Inr v" and "v_Break v = None"
    and "set dbs \<subseteq> {Some db}" and "set dbs' \<subseteq> {Some db}" and "distinct (map ar_seq (audit_records db))"
  shows "(\<exists>i < length (read_rows db). collision_at C (read_rows db) (audit_records (l_db l)) i)
    \<or> map record_bytes (read_rows db) = map record_bytes (audit_records (l_db l))"
proof -
  have honest: "chained C genesis 0 (audit_records (l_db l))" "l_seq l = int (length (audit_records (l_db l)))"
    "l_head l = chain_head genesis (audit_records (l_db l))"
    using assms(1) by (auto simp: chain_inv_def)
  note I = Verify_intactD[OF assms(2-6)]
  show ?thesis using chains_agree[of "read_rows db" "audit_records (l_db l)" C genesis] I honest by simp
qed

theorem Verify_tamper_evident_witness:
  "\<exists>v. v_Break v = None \<and> Log_Verify example_crypto [Some (l_db example_log), Some (l_db example_log)]
      [Some (l_db example_log), Some (l_db example_log)] (Some (l_db example_log)) example_log = Inr v
    \<and> ((\<exists>i < 1. collision_at example_crypto (read_rows (l_db example_log)) (audit_records (l_db example_log)) i)
      \<or> map record_bytes (read_rows (l_db example_log)) = map record_bytes (audit_records (l_db example_log)))"
proof -
  let ?db = "l_db example_log"
  have inv: "chain_inv example_crypto ''k'' example_log" using example_log_inv by (simp add: log_inv_def)
  obtain c where c: "audit_checkpoints ?db = [c]" using example_log_fields(6) by (cases "audit_checkpoints ?db") auto
  have cp: "cp_seq c = 1" "cp_prev_seq c = 0" "cp_head c = ''digest''"
      "ed_verify example_crypto (ed_public example_crypto ''k'') (checkpoint_message (row_checkpoint c)) (cp_signature c)"
    using inv c example_log_fields(2,3,5) by (auto simp: chain_inv_def record_row_fields entry_hash_def example_crypto_def)
  let ?r = "record_row example_crypto 1 genesis \<lparr>pend_r = example_record, pend_ms = 0\<rparr>"
  let ?w = "\<lambda>n h k. \<lparr>w_v = \<lparr>v_Records = n, v_Checkpoints = k, v_Break = None\<rparr>, w_prev = h, w_cpSeq = k, w_public = ''k''\<rparr>"
  have r: "ar_seq ?r = 1" "ar_prev_hash ?r = genesis" "entry_hash example_crypto (row_entry ?r) = ''digest''" "ar_hash ?r = ''digest''"
    by (simp_all add: record_row_fields entry_hash_def) (simp_all add: example_crypto_def)
  have pub: "ed_public example_crypto ''k'' = ''k''" by (simp add: example_crypto_def)
  have pages: "record_page ?db 0 = [?r]" "record_page ?db 1 = []" "checkpoint_page ?db 0 1 = [c]" "checkpoint_page ?db 1 1 = []"
    using c cp r(1) by (simp_all add: record_page_def checkpoint_page_def example_log_fields verifyPage_size_def)
  have big: "1 < verifyPage_size" "0 < verifyPage_size" by (simp_all add: verifyPage_size_def)
  have one: "Log_walk example_crypto [Some ?db, Some ?db] (?w 0 genesis 0) = Inr (?w 1 ''digest'' 1, [])"
    using cp r pub big by (simp add: Log_walk_def pages example_log_fields row_checkpoint_def verify_rows.simps verify_checkpoints.simps Let_def)
  have two: "Log_walk example_crypto [Some ?db, Some ?db] (?w 1 ''digest'' 1) = Inr (?w 1 ''digest'' 1, [])"
    using big by (simp add: Log_walk_def pages verify_rows.simps verify_checkpoints.simps)
  have "Log_Verify example_crypto [Some ?db, Some ?db] [Some ?db, Some ?db] (Some ?db) example_log
      = Inr \<lparr>v_Records = 1, v_Checkpoints = 1, v_Break = None\<rparr>"
    using c cp by (simp add: Log_Verify_def pub one two verify_end_def example_log_fields)
  with Verify_tamper_evident[OF inv this] r(1) show ?thesis by (simp add: example_log_fields read_rows_def)
qed

end
