(* ===== verification/Audit_Properties.thy ===== *)
theory Audit_Properties
  imports Audit_Verify
begin

text \<open>
  The properties of the audit log: the invariant over every run of its operations, that no
  record is lost or reordered, readiness, recovery, the cadence of checkpoints, that
  \<open>Verify\<close> accepts what the log wrote, and where the encodings are and are not injective.
\<close>

section \<open>Verify accepts the log's own chain\<close>

lemma Log_walk_honest:
  assumes "chained C genesis 0 R" and "cp_chained C pub R 0 K" and "walk_at C R k w" and "cp_at K m w"
    and "w_public w = pub"
    and "\<forall>d\<in>set ds. seen R K d \<and> k \<le> length (audit_records d) \<and> m \<le> length (audit_checkpoints d)"
    and "sorted (map (\<lambda>d. length (audit_records d)) ds)" and "sorted (map (\<lambda>d. length (audit_checkpoints d)) ds)"
    and "length R + length K + 2 * verifyPage_size \<le> verifyPage_size * length ds"
  shows "\<exists>w' k' m' ds'. Log_walk C (map Some ds) w = Inr (w', ds') \<and> walk_at C R k' w' \<and> cp_at K m' w'
    \<and> w_public w' = pub
    \<and> ((\<forall>d\<in>set ds. audit_records d = R \<and> audit_checkpoints d = K) \<longrightarrow> k' = length R \<and> m' = length K)"
proof -
  have page: "0 < verifyPage_size" by (simp add: verifyPage_size_def)
  have "length R < k + verifyPage_size * length ds" using assms(9) page by linarith
  moreover have "\<forall>d\<in>set ds. prefix (audit_records d) R \<and> k \<le> length (audit_records d)"
    using assms(6) by (simp add: seen_def)
  ultimately obtain w1 k1 ds1 where r: "verifyRest C (map Some ds) w = Inr (w1, map Some ds1)" "walk_at C R k1 w1"
    "w_cpSeq w1 = w_cpSeq w" "w_public w1 = w_public w" "v_Checkpoints (w_v w1) = v_Checkpoints (w_v w)" "suffix ds1 ds"
    "\<forall>d\<in>set ds1. k1 \<le> length (audit_records d)"
    "verifyPage_size * length ds \<le> verifyPage_size * length ds1 + (length R - k) + verifyPage_size"
    "(\<forall>d\<in>set ds. audit_records d = R) \<longrightarrow> k1 = length R"
    using verifyRest_honest[OF assms(1,3) _ assms(7)] by blast
  have same: "w1\<lparr>w_v := (w_v w1)\<lparr>v_Break := None\<rparr>\<rparr> = w1" "v_Break (w_v w1) = None"
    using r(2) by (simp_all add: walk_at_def)
  obtain pre where pre: "ds = pre @ ds1" using r(6) by (auto simp: suffix_def)
  have cp: "cp_at K m w1" using assms(4) r(3,5) by (simp add: cp_at_def)
  have "\<forall>d\<in>set ds1. seen R K d \<and> k1 \<le> length (audit_records d) \<and> m \<le> length (audit_checkpoints d)"
    using assms(6) r(7) pre by auto
  moreover have "sorted (map (\<lambda>d. length (audit_checkpoints d)) ds1)"
    using assms(8) pre by (simp add: sorted_append)
  moreover have "length K < m + verifyPage_size * length ds1" using assms(9) r(8) page by linarith
  ultimately obtain w2 m2 ds2 where c: "walk_checkpoints C None (map Some ds1) w1 = Inr (w2, map Some ds2)"
    "walk_at C R k1 w2" "cp_at K m2 w2" "w_public w2 = pub"
    "k1 = length R \<and> (\<forall>d\<in>set ds1. audit_checkpoints d = K) \<longrightarrow> m2 = length K"
    using walk_checkpoints_honest[OF assms(1,2) r(2) cp] r(4) assms(5) by metis
  have "Log_walk C (map Some ds) w = Inr (w2, map Some ds2)"
    by (simp only: Log_walk_def r(1) ebind.simps case_prod_conv same c(1))
  with c r(9) pre show ?thesis by fastforce
qed

text \<open>
  C9: \<open>Verify\<close> reports no break for a chain the log wrote, counting every record and every
  checkpoint, although the first walk runs while records are still appended: its queries may
  see any growing sequence of the log's databases. Reading \<open>n\<close> rows takes \<open>n / 1000\<close> queries,
  so enough of them are always reached.
\<close>

theorem Verify_accepts_own_chain:
  assumes "chain_inv C key l" and "l_key l \<noteq> None"
    and "\<forall>d\<in>set ds. seen (audit_records (l_db l)) (audit_checkpoints (l_db l)) d"
    and "sorted (map (\<lambda>d. length (audit_records d)) ds)" and "sorted (map (\<lambda>d. length (audit_checkpoints d)) ds)"
    and "length (audit_records (l_db l)) + length (audit_checkpoints (l_db l)) + 2000 \<le> 1000 * length ds"
    and "length (audit_records (l_db l)) + length (audit_checkpoints (l_db l)) + 2000 \<le> 1000 * q"
  shows "Log_Verify C (map Some ds) (replicate q (Some (l_db l))) (Some (l_db l)) l =
    Inr \<lparr>v_Records = l_seq l, v_Checkpoints = int (length (audit_checkpoints (l_db l))), v_Break = None\<rparr>"
proof -
  let ?R = "audit_records (l_db l)" and ?K = "audit_checkpoints (l_db l)" and ?pub = "ed_public C key"
  let ?w0 = "\<lparr>w_v = \<lparr>v_Records = 0, v_Checkpoints = 0, v_Break = None\<rparr>, w_prev = genesis, w_cpSeq = 0, w_public = ?pub\<rparr>"
  have key: "l_key l = Some key" and R: "chained C genesis 0 ?R" and K: "cp_chained C ?pub ?R 0 ?K"
    and ends: "l_seq l = int (length ?R)" "l_head l = chain_head genesis ?R" "l_cpSeq l = cp_last 0 ?K"
    using assms(1,2) by (auto simp: chain_inv_def)
  have w0: "walk_at C ?R 0 ?w0" "cp_at ?K 0 ?w0" "w_public ?w0 = ?pub" by (simp_all add: walk_at_def cp_at_def)
  have s0: "\<forall>d\<in>set ds. seen ?R ?K d \<and> 0 \<le> length (audit_records d) \<and> 0 \<le> length (audit_checkpoints d)"
    using assms(3) by simp
  obtain w1 k1 m1 d1 where 1: "Log_walk C (map Some ds) ?w0 = Inr (w1, d1)" "walk_at C ?R k1 w1" "cp_at ?K m1 w1"
    "w_public w1 = ?pub"
    using Log_walk_honest[OF R K w0 s0 assms(4,5)] assms(6) by (auto simp: verifyPage_size_def)
  have k1: "k1 \<le> length ?R" "m1 \<le> length ?K" using 1 by (simp_all add: walk_at_def cp_at_def)
  have s1: "\<forall>d\<in>set (replicate q (l_db l)). seen ?R ?K d \<and> k1 \<le> length (audit_records d) \<and> m1 \<le> length (audit_checkpoints d)"
    using k1 by (simp add: seen_def)
  obtain w2 d2 where 2: "Log_walk C (replicate q (Some (l_db l))) w1 = Inr (w2, d2)" "walk_at C ?R (length ?R) w2"
    "cp_at ?K (length ?K) w2"
    using Log_walk_honest[OF R K 1(2-4) s1] assms(7) by (auto simp: verifyPage_size_def)
  have "filter (\<lambda>c. int (length ?R) < cp_seq c) ?K = []"
    using cp_chained_bounds[OF K] by (force simp: filter_empty_conv)
  then have "verify_end l (l_db l) w2 = w_v w2"
    using 2(2,3) ends by (simp add: verify_end_def walk_at_def cp_at_def)
  moreover have "w_v w2 = \<lparr>v_Records = l_seq l, v_Checkpoints = int (length ?K), v_Break = None\<rparr>"
    using 2(2,3) ends by (simp add: walk_at_def cp_at_def)
  ultimately show ?thesis
    using key 1(1,2) 2(1,2) by (simp add: Log_Verify_def walk_at_def)
qed

theorem Verify_accepts_own_chain_witness:
  "\<exists>dbs. length dbs = 3 \<and> Log_Verify example_crypto dbs dbs (Some (l_db example_log)) example_log
     = Inr \<lparr>v_Records = 1, v_Checkpoints = 1, v_Break = None\<rparr>"
proof -
  have "chain_inv example_crypto ''k'' example_log" using example_log_inv by (simp add: log_inv_def)
  from Verify_accepts_own_chain[OF this, of "replicate 3 (l_db example_log)" 3] show ?thesis
    by (intro exI[of _ "replicate 3 (Some (l_db example_log))"]) (simp add: example_log_fields seen_def)
qed

section \<open>Runs of the log\<close>

lemma last_by_sorted: "sorted (map f rows) \<Longrightarrow> last_by f rows = (if rows = [] then None else Some (last rows))"
  by (cases rows rule: rev_cases) (simp_all add: last_by_def sort_key_sorted)

lemma Log_Open_inv:
  assumes "signs C key" and "chained C genesis 0 (audit_records db)"
    and "cp_chained C (ed_public C key) (audit_records db) 0 (audit_checkpoints db)"
  shows "log_inv C key (Log_Open db)"
proof -
  have r: "last_by ar_seq (audit_records db) = (if audit_records db = [] then None else Some (last (audit_records db)))"
    by (rule last_by_sorted[OF chained_sorted[OF assms(2)]])
  have c: "last_by cp_seq (audit_checkpoints db) = (if audit_checkpoints db = [] then None else Some (last (audit_checkpoints db)))"
    using cp_chained_sorted[OF assms(3)] by (intro last_by_sorted) simp
  have "ar_seq (last (audit_records db)) = int (length (audit_records db))" if "audit_records db \<noteq> []"
    using chained_seq[OF assms(2), of "length (audit_records db) - 1"] that by (cases "audit_records db" rule: rev_cases) simp_all
  with assms r c show ?thesis
    by (auto simp: log_inv_def chain_inv_def queue_inv_def Log_Open_def chain_head_def cp_last_def)
qed

lemma account_run:
  assumes "log_inv C key l"
  shows "map pend_r (account (foldl (log_step C key oc every) l ops)) = map pend_r (account l) @ concat (map appended ops)"
  using assms
proof (induction ops arbitrary: l)
  case (Cons a ops)
  with log_step_ok[OF Cons.prems, of oc every a] show ?case by simp
qed simp

lemma stored_records: "map pend_r (stored l) = map row_record (audit_records (l_db l))"
  by (simp add: stored_def)

text \<open>
  Whatever operations run and whichever database statements, stream writes and
  signatures fail, the tables are only ever appended to, the records stay one unbroken hash
  chain, and the checkpoints stay linked, correctly signed and true to the records they cover.
\<close>

theorem log_keeps_chain:
  fixes C :: crypto
  assumes "signs C key" and "chained C genesis 0 (audit_records db)"
    and "cp_chained C (ed_public C key) (audit_records db) 0 (audit_checkpoints db)"
  shows "\<exists>l. foldl (log_step C key oc every) (Log_Open db) ops = l
    \<and> chained C genesis 0 (audit_records (l_db l)) \<and> l_seq l = int (length (audit_records (l_db l)))
    \<and> cp_chained C (ed_public C key) (audit_records (l_db l)) 0 (audit_checkpoints (l_db l))
    \<and> prefix (audit_records db) (audit_records (l_db l)) \<and> prefix (audit_checkpoints db) (audit_checkpoints (l_db l))"
proof -
  note opened = Log_Open_inv[OF assms]
  have "l_db (Log_Open db) = db" by (simp add: Log_Open_def)
  with audit.inv_run[OF opened, of oc every ops] audit.le_run[OF opened, of oc every ops] show ?thesis
    by (simp add: log_inv_def chain_inv_def log_le_def)
qed

theorem log_keeps_chain_witness:
  "\<exists>l. foldl (log_step example_crypto ''k'' example_outcomes 1) (Log_Open empty_DB) [AppendOp example_record, CloseOp] = l
    \<and> chained example_crypto genesis 0 (audit_records (l_db l))"
  using log_keeps_chain[OF example_signs[of "''k''"], where db = empty_DB and oc = example_outcomes and every = 1
      and ops = "[AppendOp example_record, CloseOp]"]
  by (simp add: empty_DB_def)

text \<open>
  C8: no record is lost, duplicated or reordered: the stored records followed by those waiting
  are the records found at start followed by every record appended since, in order; and while
  \<open>Ready\<close> allows Deliveries the signing key is loaded and all of them are stored.
\<close>

theorem no_record_lost:
  assumes "signs C key" and "chained C genesis 0 (audit_records db)"
    and "cp_chained C (ed_public C key) (audit_records db) 0 (audit_checkpoints db)"
  shows "\<exists>l. foldl (log_step C key oc every) (Log_Open db) ops = l
    \<and> map row_record (audit_records (l_db l)) @ map pend_r (l_backlog l)
        = map row_record (audit_records db) @ concat (map appended ops)
    \<and> (Log_Ready l = Inr () \<longrightarrow> l_key l = Some key
        \<and> map row_record (audit_records (l_db l)) = map row_record (audit_records db) @ concat (map appended ops))"
proof -
  note opened = Log_Open_inv[OF assms]
  let ?l = "foldl (log_step C key oc every) (Log_Open db) ops"
  have "map pend_r (account (Log_Open db)) = map row_record (audit_records db)"
    by (simp add: account_def stored_records) (simp add: Log_Open_def)
  with account_run[OF opened, of oc every ops] have acc:
    "map row_record (audit_records (l_db ?l)) @ map pend_r (l_backlog ?l) = map row_record (audit_records db) @ concat (map appended ops)"
    by (simp add: account_def stored_records)
  have inv: "log_inv C key ?l" by (rule audit.inv_run[OF opened])
  have "l_key ?l = Some key \<and> l_backlog ?l = []" if "Log_Ready ?l = Inr ()"
    using that inv by (auto simp: Log_Ready_def log_inv_def chain_inv_def queue_inv_def split: if_splits)
  with acc show ?thesis by auto
qed

theorem no_record_lost_witness:
  "map row_record (audit_records (l_db example_log)) @ map pend_r (l_backlog example_log) = [example_record]"
  using no_record_lost[OF example_signs[of "''k''"], where db = empty_DB and oc = example_outcomes and every = 1
      and ops = "[StartOp, LoadKeyOp True, AppendOp example_record]", folded example_log_def]
  by (simp add: empty_DB_def)

text \<open>
  C35: Deliveries resume: while records wait and the log is not closed, a retry is running, and
  once the database accepts statements again its next round stores everything and, with the
  key loaded, \<open>Ready\<close> allows Deliveries.
\<close>

theorem retry_recovers:
  assumes "log_inv C key l" and "l_backlog l \<noteq> []" and "\<not> l_closed l" and "\<forall>t. l_tick l \<le> t \<longrightarrow> execOK oc t"
    and "l_keyLoaded l"
  shows "0 < l_retries l \<and> Log_Ready l = Inl ErrNotStoring
    \<and> l_backlog (Log_retryStore C oc every l) = [] \<and> Log_Ready (Log_retryStore C oc every l) = Inr ()"
proof -
  have q: "0 < l_retries l" "l_backlogged l" using assms(1-3) by (auto simp: log_inv_def queue_inv_def)
  obtain e l' where fl: "Log_flush C oc every l = (e, l')" by fastforce
  have same: "l\<lparr>l_backlog := l_backlog l\<rparr> = l" by simp
  note F = flush_step[OF assms(1), of oc every "l_backlog l" e l', unfolded same, OF fl]
  have b: "l_backlog l' = []" using F(8) assms(4) by blast
  have "\<not> l_backlogged l'" "l_keyLoaded l'" using F(1,7) b assms(5) by (auto simp: log_inv_def queue_inv_def)
  with q b fl assms(3,5) show ?thesis by (simp add: Log_retryStore_def Log_Ready_def)
qed

text \<open>A log that could not store one record.\<close>

definition example_stuck :: Log where
  "example_stuck = foldl (log_step example_crypto ''k'' (example_outcomes\<lparr>execOK := \<lambda>t. 0 < t\<rparr>) 1) (Log_Open empty_DB)
     [StartOp, LoadKeyOp True, AppendOp example_record]"

lemma example_stuck_fields:
  "l_backlog example_stuck = [\<lparr>pend_r = example_record, pend_ms = 0\<rparr>]" "\<not> l_closed example_stuck"
  "l_keyLoaded example_stuck" "l_tick example_stuck = 1"
  by (simp_all add: example_stuck_def Log_Open_def empty_DB_def last_by_def Log_Start_def Log_loadKey_def Log_Append_def
      Log_flush_def Log_store_def Let_def example_outcomes_def)

theorem retry_recovers_witness:
  "Log_Ready example_stuck = Inl ErrNotStoring
   \<and> Log_Ready (Log_retryStore example_crypto (example_outcomes\<lparr>execOK := \<lambda>t. 0 < t\<rparr>) 1 example_stuck) = Inr ()"
proof -
  have "log_inv example_crypto ''k'' (Log_Open empty_DB)"
    by (rule Log_Open_inv) (simp_all add: example_signs empty_DB_def)
  then have "log_inv example_crypto ''k'' example_stuck" unfolding example_stuck_def by (rule audit.inv_run)
  from retry_recovers[OF this, of "example_outcomes\<lparr>execOK := \<lambda>t. 0 < t\<rparr>" 1] show ?thesis
    by (simp add: example_stuck_fields)
qed

section \<open>The cadence of checkpoints\<close>

lemma store_cadence:
  assumes "chain_inv C key l" and "Log_store C oc every l p = (Inr es, l')" and "0 < every" and "l_key l \<noteq> None"
    and "\<forall>t. l_tick l \<le> t \<longrightarrow> execOK oc t \<and> signOK oc t"
  shows "l_seq l' - l_cpSeq l' < every"
proof -
  let ?row = "record_row C (l_seq l + 1) (l_head l) p"
  let ?l2 = "l\<lparr>l_tick := Suc (l_tick l), l_seq := l_seq l + 1, l_head := ar_hash ?row,
      l_db := (l_db l)\<lparr>audit_records := audit_records (l_db l) @ [?row]\<rparr>\<rparr>"
  let ?line = "json_entry ((newEntry (l_seq l + 1) (pend_ms p) (pend_r p) (l_head l))\<lparr>ent_Hash := hex_encode (ar_hash ?row)\<rparr>)"
  obtain se l3 where s: "store_stream oc (l_tick l) ?line ?l2 = (se, l3)" by fastforce
  obtain ce l4 where c: "store_checkpoint C oc every l3 = (ce, l4)" by fastforce
  have eq: "l4 = l'"
    using assms(2) s c by (simp add: Log_store_def Let_def split: if_splits)
  have l3: "l_key l3 = l_key l" "l_tick l3 = Suc (l_tick l)"
    using s by (auto simp: store_stream_def split: if_splits)
  note inv3 = store_stream_step(1)[OF stored_row_inv[OF assms(1)] s]
  show ?thesis using store_checkpoint_step(4)[OF inv3 c] l3 assms(3-5) eq by simp
qed

lemma flush_loop_cadence:
  assumes "chain_inv C key l" and "flush_loop C oc every ps errs l = (errs', l')" and "0 < every" and "l_key l \<noteq> None"
    and "\<forall>t. l_tick l \<le> t \<longrightarrow> execOK oc t \<and> signOK oc t"
    and "ps = [] \<longrightarrow> l_seq l - l_cpSeq l < every"
  shows "l_seq l' - l_cpSeq l' < every"
  using assms
proof (induction ps arbitrary: errs l)
  case (Cons p ps)
  obtain res l1 where st: "Log_store C oc every l p = (res, l1)" by fastforce
  note S = store_step[OF Cons.prems(1) st]
  have "\<not> isl res" using S(5) Cons.prems(5) by simp
  then obtain es where es: "res = Inr es" by (cases res) auto
  have F: "l_key l1 = l_key l" "l_tick l \<le> l_tick l1" using S(2) by (simp_all add: frame_def)
  have cad: "l_seq l1 - l_cpSeq l1 < every"
    using store_cadence[OF Cons.prems(1) st[unfolded es] Cons.prems(3,4,5)] .
  show ?case
    using Cons.IH[OF S(1), of "errs @ es"] Cons.prems(2-5) st es F cad by simp
qed auto

text \<open>
  With the signing key loaded, no record stays outside a checkpoint for longer than
  \<open>checkpointEvery\<close> records: after each append that meets no failure, fewer than that many
  records follow the last checkpoint.
\<close>

theorem checkpoint_cadence:
  assumes "log_inv C key l" and "l_key l \<noteq> None" and "0 < every"
    and "\<forall>t. l_tick l \<le> t \<longrightarrow> execOK oc t \<and> signOK oc t"
  shows "l_seq (snd (Log_Append C oc every r l)) - l_cpSeq (snd (Log_Append C oc every r l)) < every"
proof -
  let ?bl = "l_backlog l @ [\<lparr>pend_r = r, pend_ms = clock oc (l_tick l)\<rparr>]"
  obtain e l' where fl: "flush_loop C oc every ?bl [] (l\<lparr>l_backlog := ?bl\<rparr>) = (e, l')" by fastforce
  have "chain_inv C key (l\<lparr>l_backlog := ?bl\<rparr>)" using assms(1) by (simp add: log_inv_def chain_inv_def)
  from flush_loop_cadence[OF this fl assms(3)] assms(2,4) fl show ?thesis
    by (simp add: Log_Append_def Log_flush_def)
qed

theorem checkpoint_cadence_witness:
  "l_seq (snd (Log_Append example_crypto example_outcomes 2 example_record example_log))
   - l_cpSeq (snd (Log_Append example_crypto example_outcomes 2 example_record example_log)) < 2"
  by (rule checkpoint_cadence[OF example_log_inv]) (simp_all add: example_log_fields)

lemma Close_errors:
  assumes "log_inv C key l" and "Log_Close C oc every l = (errs, l')"
  shows "l_backlog l' = [] \<or> LostAtShutdown (length (l_backlog l')) \<in> set errs" and "l_key l' = None"
proof -
  obtain e1 l1 where fl: "Log_flush C oc every (l\<lparr>l_closed := True, l_retries := 0, l_keyLoaded := False\<rparr>) = (e1, l1)"
    by fastforce
  obtain res l3 where ck: "Log_checkpoint C oc (l1\<lparr>l_lost := l_lost l1 @ l_backlog l1\<rparr>) = (res, l3)" by fastforce
  have same: "l_backlog l3 = l_backlog l1"
    using ck by (auto simp: Log_checkpoint_def Let_def split: if_splits option.splits)
  from assms(2) fl ck same
  show "l_backlog l' = [] \<or> LostAtShutdown (length (l_backlog l')) \<in> set errs" and "l_key l' = None"
    by (auto simp: Log_Close_def Let_def split: option.splits if_splits)
qed

text \<open>
  Shutdown is honest: \<open>Close\<close> leaves every record either stored or named in the log as
  lost, the error says how many were lost, and the key is dropped.
\<close>

theorem Close_accounts:
  assumes "log_inv C key l" and "Log_Close C oc every l = (errs, l')"
  shows "map row_record (audit_records (l_db l')) @ map pend_r (drop (length (l_lost l)) (l_lost l'))
      = map row_record (audit_records (l_db l)) @ map pend_r (l_backlog l)
    \<and> (l_lost l' = l_lost l \<or> LostAtShutdown (length (l_lost l') - length (l_lost l)) \<in> set errs)
    \<and> l_key l' = None \<and> Log_Ready l' = Inl ErrKeyNotLoaded"
proof -
  note K = Close_step[OF assms]
  have "map pend_r (account l') = map pend_r (account l)" using K(3) by simp
  then have "map row_record (audit_records (l_db l')) @ map pend_r (l_backlog l')
      = map row_record (audit_records (l_db l)) @ map pend_r (l_backlog l)"
    by (simp add: account_def stored_records)
  moreover have "l_backlog l' = [] \<or> LostAtShutdown (length (l_backlog l')) \<in> set errs" "l_key l' = None"
    by (rule Close_errors[OF assms])+
  ultimately show ?thesis using K(5,6) by (simp add: Log_Ready_def)
qed

theorem Close_accounts_witness:
  "let l' = snd (Log_Close example_crypto example_outcomes 1 example_log) in
     map row_record (audit_records (l_db l')) @ map pend_r (l_lost l') = [example_record] \<and> l_key l' = None"
  using Close_accounts[OF example_log_inv prod.collapse[symmetric], of example_outcomes 1]
  by (simp add: example_log_fields record_row_fields Let_def)

section \<open>What is hashed and signed\<close>

definition ascii :: "string \<Rightarrow> bool" where
  "ascii s \<longleftrightarrow> (\<forall>c\<in>set s. byte c < 0x80)"

lemma ascii_append [simp]: "ascii (s @ t) \<longleftrightarrow> ascii s \<and> ascii t"
  by (auto simp: ascii_def)

lemma ascii_decimal: "ascii (decimal n)"
  using decimal_digits[of _ n] by (fastforce simp: ascii_def isDigit_def)

lemma ascii_pad: "ascii (pad w n)"
  using ascii_decimal by (simp add: pad_def Let_def) (simp add: ascii_def)

lemma ascii_format_ms: "ascii (format_ms t)"
proof -
  have "ascii ''-''" "ascii ''T''" "ascii '':''" "ascii ''.''" "ascii ''Z''" by (simp_all add: ascii_def)
  then show ?thesis by (simp only: format_ms_def Let_def split: prod.split) (simp add: ascii_pad del: append.simps)
qed

lemma ascii_hex: "ascii (hex_encode b)"
proof -
  have "byte (hexdigit n) < 0x80" if "n < 16" for n using that by (simp add: hexdigit_def)
  moreover have "byte c div 16 < 16" for c using byte_lt[of c] by (simp add: div_less_iff_less_mult)
  ultimately show ?thesis by (auto simp: ascii_def hex_encode_def)
qed

lemma validString_ascii' [simp]: "ascii s \<Longrightarrow> validString s"
  by (simp add: ascii_def validString_ascii)

text \<open>
  The bytes that are hashed determine the record: two entries of valid UTF-8 strings with
  the same encoding are equal, so no field's content can be moved into another.
\<close>

theorem record_encoding_injective:
  assumes "list_all validString [rec_AgentTokenID r, rec_SecretName r, rec_Delivery r, rec_Upstream r,
      rec_UpstreamHost r, rec_Decision r, rec_Reason r, rec_Failure r]"
    and "list_all validString [rec_AgentTokenID r', rec_SecretName r', rec_Delivery r', rec_Upstream r',
      rec_UpstreamHost r', rec_Decision r', rec_Reason r', rec_Failure r']"
    and "json_entry (newEntry seq ms r prev) = json_entry (newEntry seq' ms' r' prev')"
  shows "seq = seq' \<and> format_ms ms = format_ms ms' \<and> r = r' \<and> prev = prev'"
proof -
  let ?a = "newEntry seq ms r prev" and ?b = "newEntry seq' ms' r' prev'"
  have "entry_valid ?a" "entry_valid ?b"
    using assms(1,2) by (simp_all add: entry_valid_def newEntry_def ascii_format_ms ascii_hex)
  then have "?a = ?b" using json_entry_inject[OF _ _ _ _ assms(3)] by (simp add: newEntry_def)
  then show ?thesis by (auto simp: newEntry_def hex_encode_inject split: if_splits intro: Record.equality)
qed

theorem record_encoding_injective_witness:
  "json_entry (newEntry 1 0 (example_record\<lparr>rec_SecretName := ''a,b''\<rparr>) genesis) \<noteq> json_entry (newEntry 1 0 example_record genesis)"
proof -
  have "ascii ''t''" "ascii ''a,b''" "ascii ''github''" "ascii ''proxy''" "ascii ''gh''" "ascii ''h''" "ascii ''allow''" "ascii []"
    by (simp_all add: ascii_def)
  then show ?thesis
    using record_encoding_injective[of "example_record\<lparr>rec_SecretName := ''a,b''\<rparr>" example_record 1 0 genesis 1 0 genesis]
    by (auto simp: example_record_def)
qed

text \<open>
  A checkpoint's signed message determines the record it covers, the checkpoint before
  it, its time and the chain's head, for every value of Go's \<open>int64\<close>.
\<close>

theorem checkpoint_message_injective:
  assumes "checkpoint_ok a" and "checkpoint_ok b"
  shows "checkpoint_message a = checkpoint_message b \<longleftrightarrow> a = b"
  using checkpoint_message_eq[OF assms] by blast

theorem checkpoint_message_injective_witness:
  "checkpoint_message \<lparr>ckp_seq = - 1, ckp_prevSeq = 0, ckp_ms = 0, ckp_head = []\<rparr>
   \<noteq> checkpoint_message \<lparr>ckp_seq = 1, ckp_prevSeq = 0, ckp_ms = 0, ckp_head = []\<rparr>"
  by (subst checkpoint_message_injective) (simp_all add: checkpoint_ok_def int64_def)

text \<open>What \<open>json.Marshal\<close> writes for a string depends on its runes alone: every invalid byte is U+FFFD.\<close>

lemma json_segs_runes: "json_segs (runes s) s = concat (map (\<lambda>(r, w). json_rune r w (encode_rune r)) (runes s))"
proof (induction s rule: runes.induct)
  case (2 c s)
  obtain r w where rw: "decode_rune (c # s) = (r, w)" by fastforce
  have "json_rune r w (take w (c # s)) = json_rune r w (encode_rune r)"
  proof (cases "invalid_rune (r, w)")
    case True
    then show ?thesis by (simp add: invalid_rune_def json_rune_def)
  next
    case False
    with encode_decode_rune[OF rw] show ?thesis by simp
  qed
  moreover have "runes (c # s) = (r, w) # runes (drop w (c # s))" using rw by (simp add: runes_Cons)
  ultimately show ?case using 2[OF refl rw[symmetric]] by simp
qed simp

lemma json_string_runes: "runes a = runes b \<Longrightarrow> json_string a = json_string b"
  unfolding json_string_def json_segs_runes by (rule arg_cong)

text \<open>The bytes that occur nowhere in UTF-8.\<close>

definition never_utf8 :: "char \<Rightarrow> bool" where
  "never_utf8 c \<longleftrightarrow> byte c \<in> {0xC0, 0xC1} \<or> 0xF5 \<le> byte c"

lemma never_utf8D:
  assumes "never_utf8 c"
  shows "\<not> cont_byte (byte c)" "\<not> second_ok b (byte c)" "decode_rune (c # s) = (rune_error, 1)"
  using assms by (auto simp: never_utf8_def cont_byte_def second_ok_def decode_rune_def Let_def)

lemma decode_rune_never:
  assumes "never_utf8 c" "never_utf8 d" "a \<noteq> []"
  shows "decode_rune (a @ c # b) = decode_rune (a @ d # b)" "snd (decode_rune (a @ c # b)) \<le> length a"
proof -
  note N = never_utf8D[OF assms(1)] never_utf8D[OF assms(2)]
  obtain x xs where a: "a = x # xs" using assms(3) by (cases a) auto
  consider "xs = []" | y where "xs = [y]" | y z where "xs = [y, z]" | y z v ys where "xs = y # z # v # ys"
    by (metis list.exhaust)
  then have "decode_rune (a @ c # b) = decode_rune (a @ d # b) \<and> snd (decode_rune (a @ c # b)) \<le> length a"
    by cases (use N a in \<open>auto simp: decode_rune_def Let_def split: list.splits\<close>)
  then show "decode_rune (a @ c # b) = decode_rune (a @ d # b)" "snd (decode_rune (a @ c # b)) \<le> length a" by blast+
qed

lemma runes_never:
  assumes "never_utf8 c" "never_utf8 d"
  shows "runes (a @ c # b) = runes (a @ d # b)"
proof (induction "length a" arbitrary: a rule: less_induct)
  case less
  show ?case
  proof (cases a)
    case Nil
    then show ?thesis using never_utf8D(3)[OF assms(1), of b] never_utf8D(3)[OF assms(2), of b] by (simp add: runes_Cons)
  next
    case (Cons x xs)
    note D = decode_rune_never[OF assms, of a b]
    define w where "w = snd (decode_rune (a @ c # b))"
    have w: "w \<le> length a" "1 \<le> w" using D(2) Cons decode_rune_width[of "a @ c # b"] by (auto simp: w_def)
    have "runes (drop w a @ c # b) = runes (drop w a @ d # b)" using w Cons by (intro less) simp
    moreover have "runes (a @ e # b) = decode_rune (a @ e # b) # runes (drop (snd (decode_rune (a @ e # b))) (a @ e # b))" for e
      using Cons by (simp add: runes_Cons)
    moreover have "drop w (a @ e # b) = drop w a @ e # b" for e using w(1) by simp
    ultimately show ?thesis using D(1) Cons w_def by (metis list.distinct(1))
  qed
qed

text \<open>A row in which texts were exchanged for others with the same runes, and nothing else.\<close>

definition exchanged :: "audit_record_row \<Rightarrow> audit_record_row \<Rightarrow> bool" where
  "exchanged r r' \<longleftrightarrow> ar_seq r' = ar_seq r \<and> ar_time r' = ar_time r \<and> ar_upstream_status r' = ar_upstream_status r
     \<and> ar_prev_hash r' = ar_prev_hash r \<and> ar_hash r' = ar_hash r
     \<and> list_all (\<lambda>field. runes (field r') = runes (field r))
         [ar_agent_token_id, ar_secret_name, ar_delivery, ar_upstream, ar_upstream_host, ar_decision, ar_reason, ar_failure]"

lemma exchanged_hash: "exchanged r r' \<Longrightarrow> entry_hash C (row_entry r') = entry_hash C (row_entry r)"
  using json_string_runes[of "ar_agent_token_id r'" "ar_agent_token_id r"] json_string_runes[of "ar_secret_name r'" "ar_secret_name r"]
    json_string_runes[of "ar_delivery r'" "ar_delivery r"] json_string_runes[of "ar_upstream r'" "ar_upstream r"]
    json_string_runes[of "ar_upstream_host r'" "ar_upstream_host r"] json_string_runes[of "ar_decision r'" "ar_decision r"]
    json_string_runes[of "ar_reason r'" "ar_reason r"] json_string_runes[of "ar_failure r'" "ar_failure r"]
  by (simp add: exchanged_def entry_hash_def row_entry_def row_record_def newEntry_def json_entry_def)

text \<open>
  C36: outside valid UTF-8 the chain does not fix what a record says. \<open>json.Marshal\<close> writes every
  invalid byte as U+FFFD, so rows whose texts have the same runes have the same hash, whatever the
  hash function: exchanging any number of them in the table changes nothing of what the walk over
  the records reports. Such texts exist for every text with a byte that is not in UTF-8: it may be
  exchanged for any other such byte, wherever it stands.
\<close>

theorem invalid_bytes_collide:
  assumes "list_all2 exchanged rows rows'"
  shows "verify_rows C rows' n w = verify_rows C rows n w
    \<and> list_all2 (\<lambda>r r'. entry_hash C (row_entry r') = entry_hash C (row_entry r)) rows rows'
    \<and> (\<forall>a b c d. never_utf8 c \<longrightarrow> never_utf8 d \<longrightarrow> runes (a @ c # b) = runes (a @ d # b))"
proof -
  have "verify_rows C rows' n w = verify_rows C rows n w"
    using assms
  proof (induction arbitrary: n w rule: list_all2_induct)
    case (Cons r rs r' rs')
    have "ar_seq r' = ar_seq r" "ar_prev_hash r' = ar_prev_hash r" "ar_hash r' = ar_hash r" using Cons.hyps(1) by (simp_all add: exchanged_def)
    then show ?case using Cons.IH exchanged_hash[OF Cons.hyps(1)] by (simp add: verify_rows.simps(2) Let_def)
  qed simp
  moreover have "list_all2 (\<lambda>r r'. entry_hash C (row_entry r') = entry_hash C (row_entry r)) rows rows'"
    using assms by (rule list_all2_mono) (rule exchanged_hash)
  ultimately show ?thesis using runes_never by blast
qed

definition example_row :: "string \<Rightarrow> audit_record_row" where
  "example_row name = \<lparr>ar_seq = 1, ar_time = 0, ar_agent_token_id = ''i'', ar_secret_name = name, ar_delivery = ''proxy'', ar_upstream = ''u'',
     ar_upstream_host = ''h'', ar_decision = ''denied'', ar_reason = [], ar_upstream_status = None, ar_failure = [], ar_prev_hash = [], ar_hash = ''digest''\<rparr>"

theorem invalid_bytes_collide_witness:
  "example_row [CHR ''d'', CHR 0xF5] \<noteq> example_row [CHR ''d'', CHR 0xFF]
   \<and> entry_hash example_crypto (row_entry (example_row [CHR ''d'', CHR 0xF5])) = entry_hash example_crypto (row_entry (example_row [CHR ''d'', CHR 0xFF]))"
proof -
  have "never_utf8 (CHR 0xF5)" "never_utf8 (CHR 0xFF)" by (simp_all add: never_utf8_def)
  then have "exchanged (example_row [CHR ''d'', CHR 0xFF]) (example_row [CHR ''d'', CHR 0xF5])"
    using runes_never[of "CHR 0xF5" "CHR 0xFF" "''d''" "[]"] by (simp add: exchanged_def example_row_def)
  then have "list_all2 exchanged [example_row [CHR ''d'', CHR 0xFF]] [example_row [CHR ''d'', CHR 0xF5]]" by simp
  from invalid_bytes_collide[OF this, of example_crypto 0 undefined] show ?thesis by (simp add: example_row_def)
qed

end
