(* ===== verification/Secrets.thy ===== *)
theory Secrets
  imports Go_Strings
begin

text \<open>
  \<open>internal/secret\<close>: plaintext Secret values in locked memory. A \<open>Secret\<close> is the address of
  a \<open>locked\<close> object (\<open>None\<close> the nil pointer), the \<open>heap\<close> holds those objects and remembers
  what every buffer held when it was unmapped. Whether an allocation succeeds is an argument.
  \<open>Ed25519Key\<close> lives in the same heap; the PEM, PKCS #8 and Ed25519 functions it calls are
  fields of \<open>keylib\<close>.
\<close>

section \<open>Locked memory\<close>

record locked =
  lk_buf :: "bytes option"
  lk_n :: nat

record heap =
  h_next :: nat
  h_locked :: "nat \<Rightarrow> locked option"
  h_unmapped :: "bytes list"

type_synonym Secret = "nat option"

datatype secret_error = ErrReleased | ErrLockedMemory | ErrMarshal

definition redacted :: string where
  "redacted = ''[secret]''"

text \<open>The builtin \<open>clear\<close> of a byte slice.\<close>

definition clear_bytes :: "bytes \<Rightarrow> bytes" where
  "clear_bytes b = replicate (length b) (CHR 0x00)"

definition free :: "bytes \<Rightarrow> heap \<Rightarrow> heap" where
  "free buf h = h\<lparr>h_unmapped := clear_bytes buf # h_unmapped h\<rparr>"

text \<open>\<open>allocate\<close> followed by \<open>copy\<close>: a zeroed mapping of \<open>sz\<close> bytes that starts with \<open>value\<close>.\<close>

definition allocate_copy :: "nat \<Rightarrow> bytes \<Rightarrow> heap \<Rightarrow> nat \<times> heap" where
  "allocate_copy sz value h = (h_next h,
     h\<lparr>h_next := h_next h + 1,
       h_locked := (h_locked h)(h_next h \<mapsto>
         \<lparr>lk_buf = Some (take sz value @ replicate (sz - length value) (CHR 0x00)), lk_n = min sz (length value)\<rparr>)\<rparr>)"

definition newLocked :: "bool \<Rightarrow> bytes \<Rightarrow> heap \<Rightarrow> (secret_error, Secret) result \<times> heap" where
  "newLocked allocOK value h = (
     if \<not> allocOK then (Inl ErrLockedMemory, h)
     else (let (a, h') = allocate_copy (max (length value) 1) value h in (Inr (Some a), h')))"

text \<open>\<open>New\<close>, which also wipes its argument: the last component is what \<open>value\<close> holds after.\<close>

definition secret_New :: "bool \<Rightarrow> bytes \<Rightarrow> heap \<Rightarrow> (secret_error, Secret) result \<times> heap \<times> bytes" where
  "secret_New allocOK value h = (let (r, h') = newLocked allocOK value h in (r, h', clear_bytes value))"

text \<open>The object behind a pointer; every address handed out has one.\<close>

definition deref :: "heap \<Rightarrow> Secret \<Rightarrow> locked option" where
  "deref h s = (case s of None \<Rightarrow> None | Some a \<Rightarrow> h_locked h a)"

definition contents :: "heap \<Rightarrow> Secret \<Rightarrow> bytes option" where
  "contents h s = (case deref h s of None \<Rightarrow> None | Some l \<Rightarrow> map_option (take (lk_n l)) (lk_buf l))"

definition Secret_Clone :: "bool \<Rightarrow> Secret \<Rightarrow> heap \<Rightarrow> (secret_error, Secret) result \<times> heap" where
  "Secret_Clone allocOK s h = (case deref h s of
      None \<Rightarrow> (Inl ErrReleased, h)
    | Some l \<Rightarrow> (case lk_buf l of
        None \<Rightarrow> (Inl ErrReleased, h)
      | Some buf \<Rightarrow> newLocked allocOK (take (lk_n l) buf) h))"

definition Secret_Len :: "Secret \<Rightarrow> heap \<Rightarrow> nat" where
  "Secret_Len s h = (case deref h s of None \<Rightarrow> 0 | Some l \<Rightarrow> lk_n l)"

text \<open>\<open>WriteTo\<close>: \<open>write\<close> is the writer, which returns a count and an error.\<close>

definition Secret_WriteTo :: "(bytes \<Rightarrow> int \<times> 'e option) \<Rightarrow> Secret \<Rightarrow> heap \<Rightarrow> (secret_error, int \<times> 'e option) result" where
  "Secret_WriteTo write s h = (case deref h s of
      None \<Rightarrow> Inl ErrReleased
    | Some l \<Rightarrow> (case lk_buf l of None \<Rightarrow> Inl ErrReleased | Some buf \<Rightarrow> Inr (write (take (lk_n l) buf))))"

text \<open>\<open>Release\<close> of the object at an address, shared by \<open>Secret\<close> and \<open>Ed25519Key\<close>.\<close>

definition release_at :: "nat \<Rightarrow> heap \<Rightarrow> heap" where
  "release_at a h = (case h_locked h a of
      None \<Rightarrow> h
    | Some l \<Rightarrow> (case lk_buf l of
        None \<Rightarrow> h
      | Some buf \<Rightarrow> (free buf h)\<lparr>h_locked := (h_locked h)(a \<mapsto> \<lparr>lk_buf = None, lk_n = 0\<rparr>)\<rparr>))"

definition Secret_Release :: "Secret \<Rightarrow> heap \<Rightarrow> heap" where
  "Secret_Release s h = (case s of None \<Rightarrow> h | Some a \<Rightarrow> release_at a h)"

text \<open>What a Secret shows when formatted, logged or marshalled.\<close>

definition Secret_String :: "Secret \<Rightarrow> string" where
  "Secret_String s = redacted"

definition Secret_Format :: "string \<Rightarrow> Secret \<Rightarrow> string" where
  "Secret_Format written s = written @ redacted"

definition Secret_LogValue :: "Secret \<Rightarrow> string" where
  "Secret_LogValue s = redacted"

definition Secret_Marshal :: "Secret \<Rightarrow> (secret_error, bytes) result" where
  "Secret_Marshal s = Inl ErrMarshal"

section \<open>Signing keys\<close>

record Ed25519Key =
  ek_p :: nat
  ek_public :: bytes

text \<open>
  \<open>pem_Decode\<close> gives the block's type and bytes and the rest; \<open>parsePKCS8\<close> the private key,
  \<open>Inl\<close> the name of another key's type, \<open>None\<close> when it does not parse.
\<close>

record keylib =
  pem_Decode :: "bytes \<Rightarrow> ((string \<times> bytes) option \<times> bytes)"
  parsePKCS8 :: "bytes \<Rightarrow> (string + bytes) option"
  ed_PublicOf :: "bytes \<Rightarrow> bytes"
  ed_Sign :: "bytes \<Rightarrow> bytes \<Rightarrow> bytes"

datatype key_error =
    KeyReleased
  | NotPEMOrPrefixed
  | NotPEM
  | WrongBlock string
  | DataAfter
  | NotPKCS8
  | NotEd25519 string
  | KeyNoMemory

definition pem_space :: "char \<Rightarrow> bool" where
  "pem_space c \<longleftrightarrow> c \<in> {CHR '' '', CHR 0x09, CHR 0x0D, CHR 0x0A}"

text \<open>\<open>bytes.TrimSpace\<close> leaves nothing exactly when every rune is a Unicode space.\<close>

definition unicode_space :: "nat \<Rightarrow> bool" where
  "unicode_space r \<longleftrightarrow> r \<in> {9, 10, 11, 12, 13, 32, 0x85, 0xA0, 0x1680, 0x2028, 0x2029, 0x202F, 0x205F, 0x3000}
     \<or> (0x2000 \<le> r \<and> r \<le> 0x200A)"

definition all_space :: "bytes \<Rightarrow> bool" where
  "all_space s \<longleftrightarrow> list_all (\<lambda>(r, _). unicode_space r) (runes s)"

definition privateKeySize :: nat where
  "privateKeySize = 64"

definition ParseEd25519Key :: "keylib \<Rightarrow> bool \<Rightarrow> Secret \<Rightarrow> heap \<Rightarrow> (key_error, Ed25519Key) result \<times> heap" where
  "ParseEd25519Key K allocOK s h = (case contents h s of
      None \<Rightarrow> (Inl KeyReleased, h)
    | Some data \<Rightarrow>
        if \<not> hasPrefix (dropWhile pem_space data) ''-----BEGIN '' then (Inl NotPEMOrPrefixed, h)
        else (case pem_Decode K data of
          (None, rest) \<Rightarrow> (Inl NotPEM, h)
        | (Some (typ, der), rest) \<Rightarrow>
            if typ \<noteq> ''PRIVATE KEY'' then (Inl (WrongBlock typ), h)
            else if \<not> all_space rest then (Inl DataAfter, h)
            else (case parsePKCS8 K der of
              None \<Rightarrow> (Inl NotPKCS8, h)
            | Some (Inl other) \<Rightarrow> (Inl (NotEd25519 other), h)
            | Some (Inr private) \<Rightarrow>
                if \<not> allocOK then (Inl KeyNoMemory, h)
                else (let (a, h') = allocate_copy privateKeySize private h
                      in (Inr \<lparr>ek_p = a, ek_public = ed_PublicOf K private\<rparr>, h')))))"

definition Ed25519Key_Sign :: "keylib \<Rightarrow> Ed25519Key \<Rightarrow> bytes \<Rightarrow> heap \<Rightarrow> (secret_error, bytes) result" where
  "Ed25519Key_Sign K k msg h = (case contents h (Some (ek_p k)) of
      None \<Rightarrow> Inl ErrReleased
    | Some private \<Rightarrow> Inr (ed_Sign K private msg))"

definition Ed25519Key_Release :: "Ed25519Key \<Rightarrow> heap \<Rightarrow> heap" where
  "Ed25519Key_Release k h = release_at (ek_p k) h"

section \<open>What the heap keeps\<close>

definition empty_heap :: heap where
  "empty_heap = \<lparr>h_next = 0, h_locked = (\<lambda>_. None), h_unmapped = []\<rparr>"

definition alive :: "heap \<Rightarrow> nat set" where
  "alive h = {a. contents h (Some a) \<noteq> None}"

definition heap_inv :: "heap \<Rightarrow> bool" where
  "heap_inv h \<longleftrightarrow> (\<forall>a \<ge> h_next h. h_locked h a = None)
     \<and> (\<forall>b\<in>set (h_unmapped h). \<forall>c\<in>set b. c = CHR 0x00)"

lemma alive_iff: "a \<in> alive h \<longleftrightarrow> (\<exists>v. contents h (Some a) = Some v)"
  by (auto simp: alive_def)

lemma contents_None [simp]: "contents h None = None"
  by (simp add: contents_def deref_def)

lemma alive_less: "heap_inv h \<Longrightarrow> a \<in> alive h \<Longrightarrow> a < h_next h"
  by (rule ccontr) (auto simp: alive_def contents_def deref_def heap_inv_def not_less)

lemma newLocked_ok:
  assumes "newLocked ok v h = (r, h')"
  shows "(\<not> ok \<and> r = Inl ErrLockedMemory \<and> h' = h) \<or>
    (ok \<and> r = Inr (Some (h_next h)) \<and> contents h' (Some (h_next h)) = Some v
      \<and> (\<forall>a. a \<noteq> h_next h \<longrightarrow> contents h' (Some a) = contents h (Some a))
      \<and> h_next h' = h_next h + 1 \<and> h_unmapped h' = h_unmapped h)"
  using assms by (auto simp: newLocked_def allocate_copy_def contents_def deref_def split: if_splits)

lemma newLocked_inv: "newLocked ok v h = (r, h') \<Longrightarrow> heap_inv h \<Longrightarrow> heap_inv h'"
  by (auto simp: newLocked_def allocate_copy_def heap_inv_def split: if_splits)

lemma release_contents [simp]:
  "contents (release_at a h) (Some b) = (if a = b then None else contents h (Some b))"
  by (auto simp: release_at_def contents_def deref_def free_def split: option.splits)

lemma release_fields [simp]: "h_next (release_at a h) = h_next h"
  by (simp add: release_at_def free_def split: option.splits)

lemma release_inv: "heap_inv h \<Longrightarrow> heap_inv (release_at a h)"
  by (auto simp: release_at_def heap_inv_def free_def clear_bytes_def split: option.splits)

lemma alive_release [simp]: "alive (release_at a h) = alive h - {a}"
  by (auto simp: alive_def)

lemma Clone_eq:
  "Secret_Clone ok s h = (case contents h s of None \<Rightarrow> (Inl ErrReleased, h) | Some v \<Rightarrow> newLocked ok v h)"
  by (auto simp: Secret_Clone_def contents_def split: option.splits)

lemma WriteTo_eq:
  "Secret_WriteTo write s h = (case contents h s of None \<Rightarrow> Inl ErrReleased | Some v \<Rightarrow> Inr (write v))"
  by (auto simp: Secret_WriteTo_def contents_def split: option.splits)

section \<open>The heap as a machine\<close>

datatype heap_op =
    NewOp bool bytes
  | CloneOp bool Secret
  | ReleaseOp Secret

fun heap_step :: "heap \<Rightarrow> heap_op \<Rightarrow> heap" where
  "heap_step h (NewOp ok v) = fst (snd (secret_New ok v h))"
| "heap_step h (CloneOp ok s) = snd (Secret_Clone ok s h)"
| "heap_step h (ReleaseOp s) = Secret_Release s h"

text \<open>Values never change, and what was released stays released.\<close>

definition heap_le :: "heap \<Rightarrow> heap \<Rightarrow> bool" where
  "heap_le h h' \<longleftrightarrow> h_next h \<le> h_next h'
     \<and> (\<forall>a < h_next h. contents h' (Some a) = None \<or> contents h' (Some a) = contents h (Some a))"

lemma heap_le_refl: "heap_le h h"
  by (simp add: heap_le_def)

lemma heap_le_trans: "heap_le a b \<Longrightarrow> heap_le b c \<Longrightarrow> heap_le a c"
  unfolding heap_le_def by (metis order.strict_trans2 order_trans)

lemma newLocked_le: "newLocked ok v h = (r, h') \<Longrightarrow> heap_le h h'"
  by (auto dest!: newLocked_ok simp: heap_le_def)

lemma heap_step_ok: "heap_inv h \<Longrightarrow> heap_inv (heap_step h a) \<and> heap_le h (heap_step h a)"
proof (cases a)
  case (NewOp ok v)
  assume "heap_inv h"
  obtain r h' where n: "newLocked ok v h = (r, h')" by fastforce
  with NewOp newLocked_inv[OF n \<open>heap_inv h\<close>] newLocked_le[OF n] show ?thesis by (simp add: secret_New_def)
next
  case (CloneOp ok s)
  assume inv: "heap_inv h"
  show ?thesis
  proof (cases "contents h s")
    case None
    with CloneOp inv show ?thesis by (simp add: Clone_eq heap_le_refl)
  next
    case (Some v)
    obtain r h' where n: "newLocked ok v h = (r, h')" by fastforce
    with CloneOp Some newLocked_inv[OF n inv] newLocked_le[OF n] show ?thesis by (simp add: Clone_eq)
  qed
next
  case (ReleaseOp s)
  then show "heap_inv h \<Longrightarrow> ?thesis"
    by (cases s) (auto simp: Secret_Release_def release_inv heap_le_def)
qed

interpretation memory: machine heap_step heap_inv heap_le
  by unfold_locales (use heap_step_ok heap_le_refl heap_le_trans in blast)+

text \<open>
  \<open>Release\<close> is final and wipes: after it, whatever Secrets are created, cloned and
  released, using the released one reports \<open>ErrReleased\<close>, its length is 0, and every buffer
  given back to the system held only zeros.
\<close>

theorem release_is_final:
  assumes "heap_inv h" and "a < h_next h" and "h' = foldl heap_step (Secret_Release (Some a) h) ops"
  shows "Secret_Clone ok (Some a) h' = (Inl ErrReleased, h') \<and> Secret_WriteTo write (Some a) h' = Inl ErrReleased
    \<and> contents h' (Some a) = None \<and> (\<forall>b c. b \<in> set (h_unmapped h') \<and> c \<in> set b \<longrightarrow> c = CHR 0x00)"
proof -
  let ?h0 = "Secret_Release (Some a) h"
  have inv: "heap_inv ?h0" using release_inv[OF assms(1)] by (simp add: Secret_Release_def)
  have "heap_inv h'" "heap_le ?h0 h'"
    using memory.inv_run[OF inv, of ops] memory.le_run[OF inv, of ops] assms(3) by simp_all
  then have "contents h' (Some a) = None"
    using assms(2) by (auto simp: heap_le_def Secret_Release_def)
  with \<open>heap_inv h'\<close> show ?thesis by (auto simp: Clone_eq WriteTo_eq heap_inv_def)
qed

theorem release_is_final_witness:
  "let h = heap_step empty_heap (NewOp True ''pw''); h' = foldl heap_step (Secret_Release (Some 0) h) [NewOp True ''x'', CloneOp True (Some 0)]
   in contents h (Some 0) = Some ''pw'' \<and> contents h' (Some 0) = None \<and> contents h' (Some 1) = Some ''x''"
proof -
  define h where "h = heap_step empty_heap (NewOp True ''pw'')"
  have h: "heap_inv h" "0 < h_next h" "contents h (Some 0) = Some ''pw''"
    by (simp_all add: h_def secret_New_def newLocked_def allocate_copy_def empty_heap_def heap_inv_def contents_def deref_def)
  have "contents (foldl heap_step (Secret_Release (Some 0) h) [NewOp True ''x'', CloneOp True (Some 0)]) (Some 0) = None"
    using release_is_final[OF h(1,2) refl] by blast
  moreover have "contents (foldl heap_step (Secret_Release (Some 0) h) [NewOp True ''x'', CloneOp True (Some 0)]) (Some 1) = Some ''x''"
    by (simp add: h_def secret_New_def newLocked_def allocate_copy_def empty_heap_def contents_def deref_def Secret_Release_def
        release_at_def free_def Secret_Clone_def)
  ultimately show ?thesis using h(3) by (simp add: h_def Let_def)
qed

text \<open>
  A clone is independent: it holds the same value in memory of its own, so releasing
  either leaves the other intact.
\<close>

theorem clone_independent:
  assumes "heap_inv h" and "contents h (Some a) = Some v" and "Secret_Clone True (Some a) h = (r, h')"
  shows "\<exists>b. r = Inr (Some b) \<and> b \<noteq> a \<and> contents h' (Some b) = Some v \<and> contents h' (Some a) = Some v
    \<and> contents (Secret_Release (Some a) h') (Some b) = Some v \<and> contents (Secret_Release (Some b) h') (Some a) = Some v"
proof -
  have "newLocked True v h = (r, h')" using assms(2,3) by (simp add: Clone_eq)
  from newLocked_ok[OF this] have n: "r = Inr (Some (h_next h))" "contents h' (Some (h_next h)) = Some v"
    "\<forall>a. a \<noteq> h_next h \<longrightarrow> contents h' (Some a) = contents h (Some a)" by auto
  have "a \<noteq> h_next h" using alive_less[OF assms(1), of a] assms(2) by (auto simp: alive_def)
  with n assms(2) show ?thesis by (simp add: Secret_Release_def)
qed

theorem clone_independent_witness:
  "\<exists>b h'. Secret_Clone True (Some 0) (heap_step empty_heap (NewOp True ''pw'')) = (Inr (Some b), h') \<and> b \<noteq> 0
     \<and> contents (Secret_Release (Some 0) h') (Some b) = Some ''pw''"
proof -
  define h where "h = heap_step empty_heap (NewOp True ''pw'')"
  have h: "heap_inv h" "contents h (Some 0) = Some ''pw''"
    by (simp_all add: h_def secret_New_def newLocked_def allocate_copy_def empty_heap_def heap_inv_def contents_def deref_def)
  from clone_independent[OF h prod.collapse[symmetric]] show ?thesis
    unfolding h_def[symmetric] by (metis prod.collapse)
qed

text \<open>
  A signing key that parses signs with the key it was parsed from until it is released,
  and reports \<open>ErrReleased\<close> from then on; parsing leaves the Secret as it was.
\<close>

theorem parsed_key_signs:
  assumes "heap_inv h" and "ParseEd25519Key K ok s h = (Inr k, h')" and "\<forall>d p. parsePKCS8 K d = Some (Inr p) \<longrightarrow> length p = 64"
  shows "\<exists>d p. parsePKCS8 K d = Some (Inr p) \<and> ek_public k = ed_PublicOf K p \<and> contents h' s = contents h s
    \<and> Ed25519Key_Sign K k msg h' = Inr (ed_Sign K p msg)
    \<and> Ed25519Key_Sign K k msg (Ed25519Key_Release k h') = Inl ErrReleased"
proof -
  obtain d p where p: "parsePKCS8 K d = Some (Inr p)" "k = \<lparr>ek_p = h_next h, ek_public = ed_PublicOf K p\<rparr>"
      "h' = snd (allocate_copy privateKeySize p h)" and s: "contents h s \<noteq> None"
    using assms(2) by (auto simp: ParseEd25519Key_def allocate_copy_def split: option.splits prod.splits if_splits sum.splits)
  have len: "length p = 64" using assms(3) p(1) by blast
  obtain a where a: "s = Some a" "a < h_next h"
    using s alive_less[OF assms(1)] by (cases s) (auto simp: alive_def)
  have "contents h' (Some (h_next h)) = Some p" "contents h' s = contents h s"
    using len a p(3) by (simp_all add: allocate_copy_def privateKeySize_def contents_def deref_def)
  with p(1,2) show ?thesis by (auto simp: Ed25519Key_Sign_def Ed25519Key_Release_def)
qed

text \<open>A key library of one key, for an example.\<close>

definition example_keylib :: keylib where
  "example_keylib = \<lparr>pem_Decode = (\<lambda>d. (Some (''PRIVATE KEY'', d), [])), parsePKCS8 = (\<lambda>d. Some (Inr (replicate 64 CHR ''k''))),
     ed_PublicOf = take 32, ed_Sign = (\<lambda>k m. k @ m)\<rparr>"

theorem parsed_key_signs_witness:
  "\<exists>k h'. ParseEd25519Key example_keylib True (Some 0) (heap_step empty_heap (NewOp True ''-----BEGIN x'')) = (Inr k, h')
     \<and> Ed25519Key_Sign example_keylib k ''m'' (Ed25519Key_Release k h') = Inl ErrReleased"
proof -
  define h where "h = heap_step empty_heap (NewOp True ''-----BEGIN x'')"
  have h: "heap_inv h" "contents h (Some 0) = Some ''-----BEGIN x''"
    by (simp_all add: h_def secret_New_def newLocked_def allocate_copy_def empty_heap_def heap_inv_def contents_def deref_def)
  have "\<exists>k h'. ParseEd25519Key example_keylib True (Some 0) h = (Inr k, h')"
    by (simp add: ParseEd25519Key_def h(2) hasPrefix_def pem_space_def all_space_def example_keylib_def allocate_copy_def)
  then obtain k h' where k: "ParseEd25519Key example_keylib True (Some 0) h = (Inr k, h')" by blast
  have len: "\<forall>d p. parsePKCS8 example_keylib d = Some (Inr p) \<longrightarrow> length p = 64" by (simp add: example_keylib_def)
  from parsed_key_signs[OF h(1) k len, of "''m''"] k show ?thesis unfolding h_def by blast
qed

end
