(* ===== verification/Resolver.thy ===== *)
theory Resolver
  imports Secrets Config_Types "HOL-Library.AList" "HOL-Library.Multiset"
begin

text \<open>
  \<open>internal/resolver\<close>: the Secret Resolver and its cache, as the steps its goroutines take
  between acquiring and releasing \<open>c.mu\<close>, in any interleaving, with reloads, timers and
  shutdown. A cached \<open>entry\<close> is identified by the address of its Secret, which no other
  entry has. A timer that fired but whose \<open>expire\<close> has not run yet is no longer stopped by
  \<open>Stop\<close>. What a Backend holds at a location at each moment is the parameter \<open>B\<close>.
\<close>

section \<open>State\<close>

record cache_entry =
  ce_backend :: string
  ce_location :: string
  ce_fetched :: ns
  ce_ttl :: ns
  ce_value :: nat

record timer =
  tm_name :: string
  tm_value :: nat
  tm_due :: ns

text \<open>A goroutine between two critical sections of \<open>Resolve\<close>.\<close>

datatype request =
    Direct string string ns
  | Fetching string string string ns ns
  | Caching string string string ns ns nat nat

record rstate =
  rs_heap :: heap
  rs_now :: ns
  rs_entries :: "cache_entry gomap"
  rs_closed :: bool
  rs_running :: Config
  rs_reloading :: bool
  rs_timers :: "timer list"
  rs_fired :: "timer list"
  rs_requests :: "request list"
  rs_held :: "nat list"

text \<open>\<open>Stop\<close> and \<open>Reset\<close> of an entry's timer.\<close>

definition timer_Stop :: "nat \<Rightarrow> rstate \<Rightarrow> rstate" where
  "timer_Stop v s = s\<lparr>rs_timers := filter (\<lambda>t. tm_value t \<noteq> v) (rs_timers s)\<rparr>"

definition timer_Start :: "string \<Rightarrow> nat \<Rightarrow> ns \<Rightarrow> rstate \<Rightarrow> rstate" where
  "timer_Start name v d s = s\<lparr>rs_timers := \<lparr>tm_name = name, tm_value = v, tm_due = rs_now s + d\<rparr> # rs_timers s\<rparr>"

definition value_Release :: "nat \<Rightarrow> rstate \<Rightarrow> rstate" where
  "value_Release v s = s\<lparr>rs_heap := Secret_Release (Some v) (rs_heap s)\<rparr>"

definition entry_wipe :: "cache_entry \<Rightarrow> rstate \<Rightarrow> rstate" where
  "entry_wipe e s = value_Release (ce_value e) (timer_Stop (ce_value e) s)"

section \<open>The critical sections\<close>

datatype plan =
    UnknownSecretName
  | FetchDirect string string
  | FetchCached string string ns

definition Resolve :: "Config \<Rightarrow> string \<Rightarrow> plan" where
  "Resolve cfg name = (case map_of (cfg_Secrets cfg) name of
      None \<Rightarrow> UnknownSecretName
    | Some sn \<Rightarrow> if sn_CacheTTL sn = 0 then FetchDirect (sn_Backend sn) (sn_Location sn)
                 else FetchCached (sn_Backend sn) (sn_Location sn) (sn_CacheTTL sn))"

text \<open>The first section of \<open>get\<close>: the entry it clones, if any.\<close>

definition cache_hit :: "string \<Rightarrow> string \<Rightarrow> string \<Rightarrow> ns \<Rightarrow> rstate \<Rightarrow> cache_entry option" where
  "cache_hit name backend location ttl s = (case map_of (rs_entries s) name of
      None \<Rightarrow> None
    | Some e \<Rightarrow> if ce_backend e = backend \<and> ce_location e = location \<and> rs_now s - ce_fetched e < ttl
                then Some e else None)"

text \<open>The second section of \<open>get\<close>.\<close>

definition cache_store :: "string \<Rightarrow> string \<Rightarrow> string \<Rightarrow> ns \<Rightarrow> ns \<Rightarrow> nat \<Rightarrow> rstate \<Rightarrow> rstate" where
  "cache_store name backend location ttl fetched v s = (
     case map_of (cfg_Secrets (rs_running s)) name of
       None \<Rightarrow> value_Release v s
     | Some current \<Rightarrow>
         if rs_closed s \<or> sn_Backend current \<noteq> backend \<or> sn_Location current \<noteq> location \<or> sn_CacheTTL current = 0
         then value_Release v s
         else (let s1 = (case map_of (rs_entries s) name of None \<Rightarrow> s | Some old \<Rightarrow> entry_wipe old s);
                   e = \<lparr>ce_backend = backend, ce_location = location, ce_fetched = fetched,
                        ce_ttl = min ttl (sn_CacheTTL current), ce_value = v\<rparr>;
                   s2 = timer_Start name v (ce_ttl e - (rs_now s - fetched)) s1
               in s2\<lparr>rs_entries := AList.update name e (rs_entries s2)\<rparr>))"

text \<open>One round of \<open>prune\<close>; an absent Secret Name reads as the zero \<open>SecretName\<close>.\<close>

definition prune_entry :: "Config \<Rightarrow> string \<Rightarrow> cache_entry \<Rightarrow> rstate \<Rightarrow> rstate" where
  "prune_entry cfg name e s = (
     let gone = (entry_wipe e s)\<lparr>rs_entries := AList.delete name (rs_entries s)\<rparr>
     in case map_of (cfg_Secrets cfg) name of
          None \<Rightarrow> gone
        | Some sn \<Rightarrow>
            (let left = sn_CacheTTL sn - (rs_now s - ce_fetched e)
             in if sn_Backend sn \<noteq> ce_backend e \<or> sn_Location sn \<noteq> ce_location e \<or> sn_CacheTTL sn = 0 \<or> left \<le> 0
                then gone
                else if sn_CacheTTL sn < ce_ttl e
                then (timer_Start name (ce_value e) left (timer_Stop (ce_value e) s))
                       \<lparr>rs_entries := AList.update name (e\<lparr>ce_ttl := sn_CacheTTL sn\<rparr>) (rs_entries s)\<rparr>
                else s))"

fun prune_loop :: "Config \<Rightarrow> cache_entry gomap \<Rightarrow> rstate \<Rightarrow> rstate" where
  "prune_loop cfg [] s = s"
| "prune_loop cfg ((name, e) # es) s = prune_loop cfg es (prune_entry cfg name e s)"

definition cache_prune :: "Config \<Rightarrow> rstate \<Rightarrow> rstate" where
  "cache_prune cfg s = prune_loop cfg (rs_entries s) s"

definition cache_expire :: "timer \<Rightarrow> rstate \<Rightarrow> rstate" where
  "cache_expire t s = value_Release (tm_value t)
     (if map_option ce_value (map_of (rs_entries s) (tm_name t)) = Some (tm_value t)
      then s\<lparr>rs_entries := AList.delete (tm_name t) (rs_entries s)\<rparr> else s)"

fun close_loop :: "cache_entry gomap \<Rightarrow> rstate \<Rightarrow> rstate" where
  "close_loop [] s = s"
| "close_loop ((name, e) # es) s =
     close_loop es ((entry_wipe e s)\<lparr>rs_entries := AList.delete name (rs_entries s)\<rparr>)"

definition cache_close :: "rstate \<Rightarrow> rstate" where
  "cache_close s = close_loop (rs_entries s) (s\<lparr>rs_closed := True\<rparr>)"

section \<open>Interleaving\<close>

datatype label =
    Silent
  | Delivered string string ns ns bytes
  | Failed

text \<open>
  \<open>Delivered b l ttl t v\<close>: \<open>v\<close> goes to a caller whose request for location \<open>l\<close> of Backend
  \<open>b\<close> with that TTL started at \<open>t\<close>. A request uses whichever snapshot \<open>cfg\<close> it took. The
  Backend answers a fetch with what it holds at some moment of it.
\<close>

inductive rstep :: "(string \<Rightarrow> string \<Rightarrow> ns \<Rightarrow> bytes option) \<Rightarrow> rstate \<Rightarrow> label \<Rightarrow> rstate \<Rightarrow> bool" for B where
  Tick: "0 \<le> d \<Longrightarrow> rstep B s Silent (s\<lparr>rs_now := rs_now s + d\<rparr>)"
| Hit: "\<lbrakk>Resolve cfg name = FetchCached b l ttl; cache_hit name b l ttl s = Some e;
    Secret_Clone allocOK (Some (ce_value e)) (rs_heap s) = (Inr (Some a), h); contents h (Some a) = Some v\<rbrakk>
    \<Longrightarrow> rstep B s (Delivered b l ttl (rs_now s) v) (s\<lparr>rs_heap := h, rs_held := a # rs_held s\<rparr>)"
| Hit_fails: "\<lbrakk>Resolve cfg name = FetchCached b l ttl; cache_hit name b l ttl s = Some e;
    Secret_Clone allocOK (Some (ce_value e)) (rs_heap s) = (Inl err, h)\<rbrakk> \<Longrightarrow> rstep B s Failed s"
| Miss: "\<lbrakk>Resolve cfg name = FetchCached b l ttl; cache_hit name b l ttl s = None\<rbrakk>
    \<Longrightarrow> rstep B s Silent (s\<lparr>rs_requests := Fetching name b l ttl (rs_now s) # rs_requests s\<rparr>)"
| Uncached: "Resolve cfg name = FetchDirect b l
    \<Longrightarrow> rstep B s Silent (s\<lparr>rs_requests := Direct b l (rs_now s) # rs_requests s\<rparr>)"
| Fetch_fails: "r \<in> set (rs_requests s) \<Longrightarrow> (\<exists>b l t. r = Direct b l t) \<or> (\<exists>n b l ttl t. r = Fetching n b l ttl t)
    \<Longrightarrow> rstep B s Failed (s\<lparr>rs_requests := remove1 r (rs_requests s)\<rparr>)"
| Fetch_direct: "\<lbrakk>Direct b l t0 \<in> set (rs_requests s); t0 \<le> t; t \<le> rs_now s; B b l t = Some v;
    newLocked True v (rs_heap s) = (Inr (Some a), h)\<rbrakk>
    \<Longrightarrow> rstep B s (Delivered b l 0 t0 v)
      (s\<lparr>rs_heap := h, rs_requests := remove1 (Direct b l t0) (rs_requests s), rs_held := a # rs_held s\<rparr>)"
| Fetch_uncloned: "\<lbrakk>Fetching name b l ttl t0 \<in> set (rs_requests s); t0 \<le> t; t \<le> rs_now s; B b l t = Some v;
    newLocked True v (rs_heap s) = (Inr (Some a), h)\<rbrakk>
    \<Longrightarrow> rstep B s (Delivered b l ttl t0 v)
      (s\<lparr>rs_heap := h, rs_requests := remove1 (Fetching name b l ttl t0) (rs_requests s), rs_held := a # rs_held s\<rparr>)"
| Fetch_cloned: "\<lbrakk>Fetching name b l ttl t0 \<in> set (rs_requests s); t0 \<le> t; t \<le> rs_now s; B b l t = Some v;
    newLocked True v (rs_heap s) = (Inr (Some a), h); Secret_Clone True (Some a) h = (Inr (Some c), h')\<rbrakk>
    \<Longrightarrow> rstep B s Silent (s\<lparr>rs_heap := h',
        rs_requests := Caching name b l ttl t0 a c # remove1 (Fetching name b l ttl t0) (rs_requests s)\<rparr>)"
| Cache: "\<lbrakk>Caching name b l ttl t0 a c \<in> set (rs_requests s); contents (rs_heap s) (Some c) = Some v;
    s1 = s\<lparr>rs_requests := remove1 (Caching name b l ttl t0 a c) (rs_requests s), rs_held := c # rs_held s\<rparr>\<rbrakk>
    \<Longrightarrow> rstep B s (Delivered b l ttl t0 v) (cache_store name b l ttl t0 a s1)"
| Reload: "\<not> rs_reloading s \<Longrightarrow> rstep B s Silent (s\<lparr>rs_running := cfg, rs_reloading := True\<rparr>)"
| Prune: "rs_reloading s \<Longrightarrow> rstep B s Silent ((cache_prune (rs_running s) s)\<lparr>rs_reloading := False\<rparr>)"
| Fire: "t \<in> set (rs_timers s) \<Longrightarrow> tm_due t \<le> rs_now s
    \<Longrightarrow> rstep B s Silent (s\<lparr>rs_timers := remove1 t (rs_timers s), rs_fired := t # rs_fired s\<rparr>)"
| Expire: "t \<in> set (rs_fired s) \<Longrightarrow> rstep B s Silent (cache_expire t (s\<lparr>rs_fired := remove1 t (rs_fired s)\<rparr>))"
| Close: "rstep B s Silent (cache_close s)"
| Release: "a \<in> set (rs_held s)
    \<Longrightarrow> rstep B s Silent (value_Release a (s\<lparr>rs_held := remove1 a (rs_held s)\<rparr>))"

text \<open>The states the steps reach from an empty cache.\<close>

inductive reachable :: "(string \<Rightarrow> string \<Rightarrow> ns \<Rightarrow> bytes option) \<Rightarrow> rstate \<Rightarrow> bool" for B where
  init: "reachable B \<lparr>rs_heap = empty_heap, rs_now = t, rs_entries = [], rs_closed = False, rs_running = cfg,
     rs_reloading = False, rs_timers = [], rs_fired = [], rs_requests = [], rs_held = []\<rparr>"
| step: "reachable B s \<Longrightarrow> rstep B s a s' \<Longrightarrow> reachable B s'"

end
