(* ===== verification/Resolver_Inv.thy ===== *)
theory Resolver_Inv
  imports Resolver
begin

text \<open>
  The invariants of the Secret Resolver's cache over every interleaving: the locked memory in
  use is exactly what the cache, the requests in flight and the callers own; every entry was
  fetched from where it says and has a timer that ends it; and while no reload is between
  publishing its snapshot and pruning, every entry is as the running config says.
\<close>

section \<open>Association lists as multisets\<close>

lemma mset_delete:
  "distinct (map fst es) \<Longrightarrow> map_of es n = Some e \<Longrightarrow> mset es = add_mset (n, e) (mset (AList.delete n es))"
proof (induction es)
  case (Cons x es)
  then show ?case
  proof (cases "fst x = n")
    case True
    then have "AList.delete n es = es"
      using Cons.prems(1) by (intro delete_id) auto
    with True Cons.prems show ?thesis by (cases x) (simp add: AList.delete_eq)
  next
    case False
    with Cons show ?thesis by (cases x) (auto simp: AList.delete_eq)
  qed
qed simp

lemma mset_update:
  "distinct (map fst es) \<Longrightarrow> mset (AList.update n e es) = add_mset (n, e) (mset (AList.delete n es))"
proof (induction es)
  case (Cons x es)
  show ?case
  proof (cases "fst x = n")
    case True
    then have "AList.delete n es = es" using Cons.prems by (intro delete_id) auto
    with True show ?thesis by (cases x) (simp add: AList.delete_eq)
  next
    case False
    with Cons show ?thesis by (cases x) (simp add: AList.delete_eq)
  qed
qed simp

lemma map_of_delete: "map_of (AList.delete n es) m = (if m = n then None else map_of es m)"
  by (simp add: delete_conv')

lemma map_of_update: "map_of (AList.update n e es) m = (if m = n then Some e else map_of es m)"
  by (simp add: update_conv')

section \<open>Ownership\<close>

fun req_addrs :: "request \<Rightarrow> nat multiset" where
  "req_addrs (Caching _ _ _ _ _ a c) = {#a, c#}"
| "req_addrs _ = {#}"

definition vals :: "cache_entry gomap \<Rightarrow> nat multiset" where
  "vals es = image_mset (\<lambda>x. ce_value (snd x)) (mset es)"

definition reqs :: "request list \<Rightarrow> nat multiset" where
  "reqs rs = \<Sum>\<^sub># (image_mset req_addrs (mset rs))"

text \<open>\<open>X\<close> are addresses in the hands of the step itself.\<close>

definition owned :: "nat multiset \<Rightarrow> rstate \<Rightarrow> nat multiset" where
  "owned X s = vals (rs_entries s) + reqs (rs_requests s) + mset (rs_held s) + X"

definition mem_inv :: "nat multiset \<Rightarrow> rstate \<Rightarrow> bool" where
  "mem_inv X s \<longleftrightarrow> heap_inv (rs_heap s) \<and> distinct (map fst (rs_entries s))
     \<and> owned X s = mset_set (alive (rs_heap s))"

lemma finite_alive: "heap_inv h \<Longrightarrow> finite (alive h)"
  by (rule finite_subset[of _ "{..<h_next h}"]) (auto dest: alive_less)

lemma owned_once:
  assumes "mem_inv X s"
  shows "count (vals (rs_entries s)) x + count (reqs (rs_requests s)) x + count (mset (rs_held s)) x + count X x \<le> 1"
proof -
  have "count (owned X s) x \<le> 1"
    using assms finite_alive by (simp add: mem_inv_def count_mset_set')
  then show ?thesis by (simp add: owned_def)
qed

lemma vals_delete: "distinct (map fst es) \<Longrightarrow> map_of es n = Some e \<Longrightarrow> vals es = add_mset (ce_value e) (vals (AList.delete n es))"
  by (simp add: vals_def mset_delete[of es n e])

lemma vals_update: "distinct (map fst es) \<Longrightarrow> vals (AList.update n e es) = add_mset (ce_value e) (vals (AList.delete n es))"
  by (simp add: vals_def mset_update)

lemma vals_mem: "map_of es n = Some e \<Longrightarrow> ce_value e \<in># vals es"
  by (force simp: vals_def dest: map_of_SomeD)

lemma reqs_remove1: "r \<in> set rs \<Longrightarrow> reqs rs = req_addrs r + reqs (remove1 r rs)"
proof -
  assume "r \<in> set rs"
  then have "mset rs = add_mset r (mset (remove1 r rs))" by simp
  then show ?thesis unfolding reqs_def by (metis image_mset_add_mset sum_mset.insert)
qed

lemma reqs_Cons [simp]: "reqs (r # rs) = req_addrs r + reqs rs"
  by (simp add: reqs_def)

lemma entry_value_inj:
  assumes "mem_inv X s" and "map_of (rs_entries s) n = Some e" and "map_of (rs_entries s) m = Some f" and "ce_value e = ce_value f"
  shows "n = m"
proof (rule ccontr)
  assume "n \<noteq> m"
  have d: "distinct (map fst (rs_entries s))" using assms(1) by (simp add: mem_inv_def)
  have "map_of (AList.delete n (rs_entries s)) m = Some f" using \<open>n \<noteq> m\<close> assms(3) by (simp add: map_of_delete)
  then have "1 < count (vals (rs_entries s)) (ce_value f)"
    using vals_delete[OF d assms(2)] vals_mem assms(4) by fastforce
  with owned_once[OF assms(1), of "ce_value f"] show False by linarith
qed

lemma owned_disjoint:
  assumes "mem_inv X s" and "map_of (rs_entries s) n = Some e"
  shows "ce_value e \<notin># reqs (rs_requests s)" and "ce_value e \<notin> set (rs_held s)" and "ce_value e \<notin># X"
proof -
  have "0 < count (vals (rs_entries s)) (ce_value e)" using vals_mem[OF assms(2)] by simp
  then have "count (reqs (rs_requests s)) (ce_value e) = 0 \<and> count (mset (rs_held s)) (ce_value e) = 0 \<and> count X (ce_value e) = 0"
    using owned_once[OF assms(1), of "ce_value e"] by linarith
  then show "ce_value e \<notin># reqs (rs_requests s)" "ce_value e \<notin> set (rs_held s)" "ce_value e \<notin># X"
    by (simp_all add: not_in_iff count_mset_0_iff)
qed

lemma owned_alive: "mem_inv X s \<Longrightarrow> x \<in># owned X s \<longleftrightarrow> x \<in> alive (rs_heap s)"
  using finite_alive by (simp add: mem_inv_def)

lemma entry_alive: "mem_inv X s \<Longrightarrow> map_of (rs_entries s) n = Some e \<Longrightarrow> ce_value e \<in> alive (rs_heap s)"
  using owned_alive[of X s "ce_value e"] vals_mem by (auto simp: owned_def)

section \<open>The invariant\<close>

definition timers_inv :: "rstate \<Rightarrow> bool" where
  "timers_inv s \<longleftrightarrow> (\<forall>t \<in> set (rs_timers s) \<union> set (rs_fired s). tm_value t < h_next (rs_heap s)
     \<and> (tm_value t \<in> alive (rs_heap s) \<longrightarrow> (\<exists>e. map_of (rs_entries s) (tm_name t) = Some e \<and> ce_value e = tm_value t)))"

definition armed :: "rstate \<Rightarrow> string \<Rightarrow> cache_entry \<Rightarrow> bool" where
  "armed s n e \<longleftrightarrow> (\<exists>t \<in> set (rs_timers s). tm_name t = n \<and> tm_value t = ce_value e \<and> tm_due t \<le> ce_fetched e + ce_ttl e)
     \<or> (\<exists>t \<in> set (rs_fired s). tm_name t = n \<and> tm_value t = ce_value e)"

text \<open>The value at an address came from a location in a fetch that began at \<open>t0\<close>.\<close>

definition from_backend :: "(string \<Rightarrow> string \<Rightarrow> ns \<Rightarrow> bytes option) \<Rightarrow> rstate \<Rightarrow> string \<Rightarrow> string \<Rightarrow> ns \<Rightarrow> nat \<Rightarrow> bool" where
  "from_backend B s b l t0 a \<longleftrightarrow> (\<exists>t. t0 \<le> t \<and> t \<le> rs_now s \<and> B b l t \<noteq> None \<and> contents (rs_heap s) (Some a) = B b l t)"

definition entries_inv :: "(string \<Rightarrow> string \<Rightarrow> ns \<Rightarrow> bytes option) \<Rightarrow> rstate \<Rightarrow> bool" where
  "entries_inv B s \<longleftrightarrow> (\<forall>n e. map_of (rs_entries s) n = Some e \<longrightarrow>
     armed s n e \<and> from_backend B s (ce_backend e) (ce_location e) (ce_fetched e) (ce_value e))"

fun req_ok :: "(string \<Rightarrow> string \<Rightarrow> ns \<Rightarrow> bytes option) \<Rightarrow> rstate \<Rightarrow> request \<Rightarrow> bool" where
  "req_ok B s (Caching n b l ttl t0 a c) \<longleftrightarrow> from_backend B s b l t0 a \<and> from_backend B s b l t0 c"
| "req_ok B s _ = True"

definition cache_inv :: "(string \<Rightarrow> string \<Rightarrow> ns \<Rightarrow> bytes option) \<Rightarrow> nat multiset \<Rightarrow> rstate \<Rightarrow> bool" where
  "cache_inv B X s \<longleftrightarrow> mem_inv X s \<and> timers_inv s \<and> entries_inv B s \<and> (\<forall>r \<in> set (rs_requests s). req_ok B s r)
     \<and> (rs_closed s \<longrightarrow> rs_entries s = [])"

text \<open>Only the multiset of entries matters.\<close>

lemma map_of_mset: "mset es = mset es' \<Longrightarrow> distinct (map fst es) \<Longrightarrow> distinct (map fst es') \<and> map_of es' = map_of es"
proof -
  assume m: "mset es = mset es'" and d: "distinct (map fst es)"
  have d': "distinct (map fst es')" using d m by (metis mset_eq_imp_distinct_iff mset_map)
  have "map_of es' k = map_of es k" for k
  proof (cases "map_of es k")
    case None
    with m show ?thesis by (metis map_of_eq_None_iff mset_eq_setD mset_map set_map)
  next
    case (Some v)
    then have "(k, v) \<in> set es'" using m map_of_SomeD mset_eq_setD by metis
    with d' Some show ?thesis by simp
  qed
  with d' show ?thesis by auto
qed

lemma from_backend_cong: "rs_now s' = rs_now s \<Longrightarrow> contents (rs_heap s') (Some a) = contents (rs_heap s) (Some a) \<Longrightarrow>
    from_backend B s' b l t0 a = from_backend B s b l t0 a"
  by (simp add: from_backend_def)

lemma req_ok_cong: "rs_now s' = rs_now s \<Longrightarrow> \<forall>a. a \<in># req_addrs r \<longrightarrow> contents (rs_heap s') (Some a) = contents (rs_heap s) (Some a) \<Longrightarrow>
    req_ok B s' r = req_ok B s r"
  by (cases r) (simp_all add: from_backend_def)

lemma req_addrs_mem: "r \<in> set rs \<Longrightarrow> a \<in># req_addrs r \<Longrightarrow> a \<in># reqs rs"
  by (auto simp: reqs_def)

lemma cache_inv_mset:
  assumes "mset es = mset es'" and "cache_inv B X (s\<lparr>rs_entries := es\<rparr>)"
  shows "cache_inv B X (s\<lparr>rs_entries := es'\<rparr>)"
proof -
  have "distinct (map fst es)" using assms(2) by (simp add: cache_inv_def mem_inv_def)
  with map_of_mset[OF assms(1)] have m: "distinct (map fst es')" "map_of es' = map_of es" "vals es' = vals es"
    using assms(1) by (simp_all add: vals_def)
  have r: "req_ok B (s\<lparr>rs_entries := es'\<rparr>) r = req_ok B (s\<lparr>rs_entries := es\<rparr>) r" for r
    by (rule req_ok_cong) simp_all
  show ?thesis
    using assms m by (auto simp: cache_inv_def mem_inv_def owned_def timers_inv_def entries_inv_def armed_def
        from_backend_def r)
qed

text \<open>Releasing an address the step holds, or one that is already released.\<close>

lemma mset_set_release: "heap_inv h \<Longrightarrow> mset_set (alive (release_at a h)) = mset_set (alive h) - {#a#}"
  using finite_alive[of h] by (intro multiset_eqI) (simp add: count_mset_set')

lemma value_Release_fields [simp]:
  "rs_now (value_Release a s) = rs_now s" "rs_entries (value_Release a s) = rs_entries s" "rs_closed (value_Release a s) = rs_closed s"
  "rs_running (value_Release a s) = rs_running s" "rs_reloading (value_Release a s) = rs_reloading s"
  "rs_timers (value_Release a s) = rs_timers s" "rs_fired (value_Release a s) = rs_fired s"
  "rs_requests (value_Release a s) = rs_requests s" "rs_held (value_Release a s) = rs_held s"
  "rs_heap (value_Release a s) = release_at a (rs_heap s)"
  by (simp_all add: value_Release_def Secret_Release_def)

text \<open>
  Forgetting the entry with a value and releasing it, whatever happens to its own timers.
\<close>

lemma drop_entry:
  assumes inv: "cache_inv B X s" and e: "map_of (rs_entries s) n = Some e"
    and ts: "set ts \<subseteq> set (rs_timers s)" "\<forall>t \<in> set (rs_timers s). tm_value t \<noteq> ce_value e \<longrightarrow> t \<in> set ts"
    and fs: "set fs \<subseteq> set (rs_fired s)" "\<forall>t \<in> set (rs_fired s). tm_value t \<noteq> ce_value e \<longrightarrow> t \<in> set fs"
  shows "cache_inv B X (value_Release (ce_value e) s\<lparr>rs_entries := AList.delete n (rs_entries s), rs_timers := ts, rs_fired := fs\<rparr>)"
    (is "cache_inv B X ?s")
proof -
  have M: "mem_inv X s" and T: "timers_inv s" and E: "entries_inv B s" and R: "\<forall>r \<in> set (rs_requests s). req_ok B s r"
    and C: "rs_closed s \<longrightarrow> rs_entries s = []" using inv by (auto simp: cache_inv_def)
  have H: "heap_inv (rs_heap s)" and D: "distinct (map fst (rs_entries s))" using M by (simp_all add: mem_inv_def)
  have mem: "mem_inv X ?s"
  proof -
    have "owned X s = add_mset (ce_value e) (owned X ?s)" using vals_delete[OF D e] by (simp add: owned_def)
    then have "owned X ?s = mset_set (alive (rs_heap s)) - {#ce_value e#}"
      using M unfolding mem_inv_def by (metis add_mset_remove_trivial)
    with H D mset_set_release[OF H] show ?thesis by (simp add: mem_inv_def release_inv distinct_delete)
  qed
  have other: "ce_value f \<noteq> ce_value e" if "map_of (rs_entries s) m = Some f" "m \<noteq> n" for m f
    using entry_value_inj[OF M that(1) e] that(2) by blast
  have "timers_inv ?s"
    unfolding timers_inv_def
  proof
    fix t assume t: "t \<in> set (rs_timers ?s) \<union> set (rs_fired ?s)"
    then have t': "t \<in> set (rs_timers s) \<union> set (rs_fired s)" using ts(1) fs(1) by auto
    show "tm_value t < h_next (rs_heap ?s) \<and> (tm_value t \<in> alive (rs_heap ?s) \<longrightarrow>
        (\<exists>e. map_of (rs_entries ?s) (tm_name t) = Some e \<and> ce_value e = tm_value t))"
      using T t' e by (auto simp: timers_inv_def map_of_delete)
  qed
  moreover have "entries_inv B ?s"
    unfolding entries_inv_def
  proof (intro allI impI)
    fix m f assume "map_of (rs_entries ?s) m = Some f"
    then have f: "map_of (rs_entries s) m = Some f" "m \<noteq> n" by (auto simp: map_of_delete split: if_splits)
    with E have "armed s m f" "from_backend B s (ce_backend f) (ce_location f) (ce_fetched f) (ce_value f)"
      by (auto simp: entries_inv_def)
    with other[OF f] ts(2) fs(2) show "armed ?s m f \<and> from_backend B ?s (ce_backend f) (ce_location f) (ce_fetched f) (ce_value f)"
      by (force simp: armed_def from_backend_def)
  qed
  moreover have "req_ok B ?s r" if "r \<in> set (rs_requests s)" for r
  proof -
    have "\<forall>a. a \<in># req_addrs r \<longrightarrow> a \<noteq> ce_value e" using req_addrs_mem[OF that] owned_disjoint(1)[OF M e] by blast
    then have "req_ok B ?s r = req_ok B s r" by (intro req_ok_cong) auto
    with R that show ?thesis by simp
  qed
  ultimately show ?thesis using mem C e by (auto simp: cache_inv_def)
qed

lemma release_inv_X:
  assumes inv: "cache_inv B (add_mset a X) s" and n: "\<forall>t \<in> set (rs_timers s) \<union> set (rs_fired s). tm_value t \<noteq> a"
  shows "cache_inv B X (value_Release a s)" (is "cache_inv B X ?s")
proof -
  have M: "mem_inv (add_mset a X) s" and T: "timers_inv s" and E: "entries_inv B s"
    and R: "\<forall>r \<in> set (rs_requests s). req_ok B s r" and C: "rs_closed s \<longrightarrow> rs_entries s = []"
    using inv by (auto simp: cache_inv_def)
  have H: "heap_inv (rs_heap s)" and D: "distinct (map fst (rs_entries s))" using M by (simp_all add: mem_inv_def)
  have "owned (add_mset a X) s = add_mset a (owned X ?s)" by (simp add: owned_def)
  then have "owned X ?s = mset_set (alive (rs_heap s)) - {#a#}"
    using M unfolding mem_inv_def by (metis add_mset_remove_trivial)
  then have mem: "mem_inv X ?s" using H D mset_set_release[OF H] by (simp add: mem_inv_def release_inv)
  have entry: "ce_value e \<noteq> a" if "map_of (rs_entries s) m = Some e" for m e
    using owned_disjoint(3)[OF M that] by auto
  have "1 \<le> count (add_mset a X) a" by simp
  then have "a \<notin># reqs (rs_requests s)" using owned_once[OF M, of a] by (auto simp: not_in_iff)
  then have "req_ok B ?s r = req_ok B s r" if "r \<in> set (rs_requests s)" for r
    using req_addrs_mem[OF that] by (intro req_ok_cong) auto
  moreover have "timers_inv ?s" using T n by (auto simp: timers_inv_def)
  moreover have "entries_inv B ?s"
    unfolding entries_inv_def
  proof (intro allI impI)
    fix m e assume m: "map_of (rs_entries ?s) m = Some e"
    with E entry[of m e] show "armed ?s m e \<and> from_backend B ?s (ce_backend e) (ce_location e) (ce_fetched e) (ce_value e)"
      by (auto simp: entries_inv_def armed_def from_backend_def)
  qed
  ultimately show ?thesis using mem R C by (auto simp: cache_inv_def)
qed

text \<open>Caching the value in the hands of the step under a name with no entry.\<close>

lemma add_entry:
  assumes inv: "cache_inv B (add_mset (ce_value e) X) s" and n: "map_of (rs_entries s) n = None" and cl: "\<not> rs_closed s"
    and fb: "from_backend B s (ce_backend e) (ce_location e) (ce_fetched e) (ce_value e)"
    and t: "tm_name t = n" "tm_value t = ce_value e" "tm_due t \<le> ce_fetched e + ce_ttl e"
  shows "cache_inv B X (s\<lparr>rs_timers := t # rs_timers s, rs_entries := AList.update n e (rs_entries s)\<rparr>)"
    (is "cache_inv B X ?s")
proof -
  have M: "mem_inv (add_mset (ce_value e) X) s" and T: "timers_inv s" and E: "entries_inv B s"
    and R: "\<forall>r \<in> set (rs_requests s). req_ok B s r" using inv by (auto simp: cache_inv_def)
  have H: "heap_inv (rs_heap s)" and D: "distinct (map fst (rs_entries s))" using M by (simp_all add: mem_inv_def)
  have del: "AList.delete n (rs_entries s) = rs_entries s"
    using n by (intro delete_id) (simp add: map_of_eq_None_iff)
  have "owned X ?s = owned (add_mset (ce_value e) X) s" using vals_update[OF D] del by (simp add: owned_def)
  then have mem: "mem_inv X ?s" using M by (simp add: mem_inv_def distinct_update)
  have "ce_value e \<in># owned (add_mset (ce_value e) X) s" by (simp add: owned_def)
  then have "ce_value e < h_next (rs_heap s)" using owned_alive[OF M] alive_less[OF H] by blast
  then have "timers_inv ?s"
    using T n t(1,2) by (auto simp: timers_inv_def map_of_update)
  moreover have "entries_inv B ?s"
    using E n t fb by (auto simp: entries_inv_def map_of_update armed_def from_backend_def)
  moreover have "req_ok B ?s r = req_ok B s r" for r by (rule req_ok_cong) simp_all
  ultimately show ?thesis using mem R cl by (auto simp: cache_inv_def)
qed

text \<open>Steps that only add memory.\<close>

lemma alloc_inv:
  assumes inv: "cache_inv B X s" and n: "newLocked True v (rs_heap s) = (Inr (Some a), h)"
  shows "cache_inv B (add_mset a X) (s\<lparr>rs_heap := h\<rparr>)" (is "cache_inv B ?X ?s")
    and "contents h (Some a) = Some v" and "\<forall>b \<in> alive (rs_heap s). contents h (Some b) = contents (rs_heap s) (Some b)"
    and "a \<notin> alive (rs_heap s)" and "\<forall>t \<in> set (rs_timers s) \<union> set (rs_fired s). tm_value t \<noteq> a"
proof -
  have M: "mem_inv X s" and T: "timers_inv s" and E: "entries_inv B s"
    and R: "\<forall>r \<in> set (rs_requests s). req_ok B s r" and C: "rs_closed s \<longrightarrow> rs_entries s = []"
    using inv by (auto simp: cache_inv_def)
  have H: "heap_inv (rs_heap s)" and D: "distinct (map fst (rs_entries s))" using M by (simp_all add: mem_inv_def)
  from newLocked_ok[OF n] have a: "a = h_next (rs_heap s)" "contents h (Some a) = Some v" "h_next h = a + 1"
    "\<forall>b. b \<noteq> a \<longrightarrow> contents h (Some b) = contents (rs_heap s) (Some b)" by auto
  have fresh: "a \<notin> alive (rs_heap s)" using alive_less[OF H] a(1) by blast
  have al: "alive h = insert a (alive (rs_heap s))" using a(2,4) by (auto simp: alive_def)
  have mem: "mem_inv ?X ?s"
    using M D newLocked_inv[OF n H] al fresh finite_alive[OF H] by (simp add: mem_inv_def owned_def)
  have same: "\<forall>b \<in> alive (rs_heap s). contents h (Some b) = contents (rs_heap s) (Some b)" using a(4) fresh by metis
  have low: "\<forall>t \<in> set (rs_timers s) \<union> set (rs_fired s). tm_value t < a" using T a(1) by (auto simp: timers_inv_def)
  have "timers_inv ?s"
    unfolding timers_inv_def
  proof
    fix t assume "t \<in> set (rs_timers ?s) \<union> set (rs_fired ?s)"
    then have "t \<in> set (rs_timers s) \<union> set (rs_fired s)" by simp
    with T low have "tm_value t < a" "tm_value t \<in> alive (rs_heap s) \<longrightarrow> (\<exists>e. map_of (rs_entries s) (tm_name t) = Some e \<and> ce_value e = tm_value t)"
      unfolding timers_inv_def by blast+
    with a(3) al show "tm_value t < h_next (rs_heap ?s) \<and> (tm_value t \<in> alive (rs_heap ?s) \<longrightarrow>
        (\<exists>e. map_of (rs_entries ?s) (tm_name t) = Some e \<and> ce_value e = tm_value t))" by auto
  qed
  moreover have "entries_inv B ?s"
    using E same entry_alive[OF M] by (fastforce simp: entries_inv_def armed_def from_backend_def)
  moreover have "req_ok B ?s r" if r: "r \<in> set (rs_requests s)" for r
  proof -
    have "b \<in> alive (rs_heap s)" if "b \<in># req_addrs r" for b
      using owned_alive[OF M, of b] req_addrs_mem[OF r that] by (simp add: owned_def)
    then have "req_ok B ?s r = req_ok B s r" using same by (intro req_ok_cong) auto
    with R r show ?thesis by simp
  qed
  ultimately show "cache_inv B ?X ?s" using mem C by (auto simp: cache_inv_def)
  show "contents h (Some a) = Some v" "\<forall>b \<in> alive (rs_heap s). contents h (Some b) = contents (rs_heap s) (Some b)"
    "a \<notin> alive (rs_heap s)" "\<forall>t \<in> set (rs_timers s) \<union> set (rs_fired s). tm_value t \<noteq> a"
    using a(2) same fresh low by auto
qed

text \<open>Giving an entry another TTL and its timer another end.\<close>

lemma retime_entry:
  assumes inv: "cache_inv B X s" and e: "map_of (rs_entries s) n = Some e"
    and t: "tm_name t = n" "tm_value t = ce_value e" "tm_due t \<le> ce_fetched e + k"
  shows "cache_inv B X (s\<lparr>rs_timers := t # filter (\<lambda>t. tm_value t \<noteq> ce_value e) (rs_timers s),
      rs_entries := AList.update n (e\<lparr>ce_ttl := k\<rparr>) (rs_entries s)\<rparr>)" (is "cache_inv B X ?s")
proof -
  have M: "mem_inv X s" and T: "timers_inv s" and E: "entries_inv B s" and R: "\<forall>r \<in> set (rs_requests s). req_ok B s r"
    and C: "rs_closed s \<longrightarrow> rs_entries s = []" using inv by (auto simp: cache_inv_def)
  have D: "distinct (map fst (rs_entries s))" and H: "heap_inv (rs_heap s)" using M by (simp_all add: mem_inv_def)
  have "owned X ?s = owned X s" using vals_update[OF D] vals_delete[OF D e] by (simp add: owned_def)
  then have mem: "mem_inv X ?s" using M by (simp add: mem_inv_def distinct_update)
  have "ce_value e < h_next (rs_heap s)" using entry_alive[OF M e] alive_less[OF H] by blast
  then have "timers_inv ?s" using T t(1,2) e by (auto simp: timers_inv_def map_of_update)
  moreover have "entries_inv B ?s"
    unfolding entries_inv_def
  proof (intro allI impI)
    fix m f assume f: "map_of (rs_entries ?s) m = Some f"
    show "armed ?s m f \<and> from_backend B ?s (ce_backend f) (ce_location f) (ce_fetched f) (ce_value f)"
    proof (cases "m = n")
      case True
      with f E e t show ?thesis by (auto simp: entries_inv_def map_of_update armed_def from_backend_def)
    next
      case False
      with f have f': "map_of (rs_entries s) m = Some f" by (simp add: map_of_update)
      have "ce_value f \<noteq> ce_value e" using entry_value_inj[OF M f' e] False by blast
      with f' E show ?thesis by (force simp: entries_inv_def armed_def from_backend_def)
    qed
  qed
  moreover have "req_ok B ?s r = req_ok B s r" for r by (rule req_ok_cong) simp_all
  ultimately show ?thesis using mem R C e by (auto simp: cache_inv_def)
qed

section \<open>The critical sections keep it\<close>

lemma wipe_entry_inv:
  assumes "cache_inv B X s" and "map_of (rs_entries s) n = Some e"
  shows "cache_inv B X ((entry_wipe e s)\<lparr>rs_entries := AList.delete n (rs_entries s)\<rparr>)"
proof -
  have "(entry_wipe e s)\<lparr>rs_entries := AList.delete n (rs_entries s)\<rparr> = value_Release (ce_value e) s
      \<lparr>rs_entries := AList.delete n (rs_entries s), rs_timers := filter (\<lambda>t. tm_value t \<noteq> ce_value e) (rs_timers s), rs_fired := rs_fired s\<rparr>"
    by (simp add: entry_wipe_def timer_Stop_def value_Release_def)
  with drop_entry[OF assms, of "filter (\<lambda>t. tm_value t \<noteq> ce_value e) (rs_timers s)" "rs_fired s"] show ?thesis by simp
qed

text \<open>A cached entry is as a snapshot says.\<close>

definition agrees :: "Config \<Rightarrow> string \<Rightarrow> cache_entry \<Rightarrow> bool" where
  "agrees cfg n e \<longleftrightarrow> (\<exists>sn. map_of (cfg_Secrets cfg) n = Some sn \<and> sn_Backend sn = ce_backend e \<and> sn_Location sn = ce_location e
     \<and> sn_CacheTTL sn \<noteq> 0 \<and> ce_ttl e \<le> sn_CacheTTL sn)"

text \<open>What the critical sections leave alone.\<close>

definition frame_of :: "rstate \<Rightarrow> rstate \<Rightarrow> bool" where
  "frame_of s s' \<longleftrightarrow> rs_now s' = rs_now s \<and> rs_running s' = rs_running s \<and> rs_reloading s' = rs_reloading s
     \<and> rs_requests s' = rs_requests s \<and> rs_held s' = rs_held s \<and> rs_fired s' = rs_fired s"

lemma prune_entry_ok:
  assumes "cache_inv B X s" and "map_of (rs_entries s) n = Some e"
  shows "cache_inv B X (prune_entry cfg n e s)" and "frame_of s (prune_entry cfg n e s)"
    and "rs_closed (prune_entry cfg n e s) = rs_closed s"
    and "\<And>m. m \<noteq> n \<Longrightarrow> map_of (rs_entries (prune_entry cfg n e s)) m = map_of (rs_entries s) m"
    and "\<And>f. map_of (rs_entries (prune_entry cfg n e s)) n = Some f \<Longrightarrow> agrees cfg n f"
proof -
  let ?gone = "(entry_wipe e s)\<lparr>rs_entries := AList.delete n (rs_entries s)\<rparr>"
  let ?kept = "\<lambda>sn. s\<lparr>rs_timers := \<lparr>tm_name = n, tm_value = ce_value e, tm_due = ce_fetched e + sn_CacheTTL sn\<rparr>
        # filter (\<lambda>t. tm_value t \<noteq> ce_value e) (rs_timers s),
      rs_entries := AList.update n (e\<lparr>ce_ttl := sn_CacheTTL sn\<rparr>) (rs_entries s)\<rparr>"
  have eq: "prune_entry cfg n e s = ?gone
    \<or> (\<exists>sn. map_of (cfg_Secrets cfg) n = Some sn \<and> sn_Backend sn = ce_backend e \<and> sn_Location sn = ce_location e \<and> sn_CacheTTL sn \<noteq> 0
        \<and> (prune_entry cfg n e s = ?kept sn \<or> prune_entry cfg n e s = s \<and> ce_ttl e \<le> sn_CacheTTL sn))"
    by (auto simp: prune_entry_def Let_def timer_Start_def timer_Stop_def not_less split: option.splits)
  have kept: "cache_inv B X (?kept sn)" for sn by (rule retime_entry[OF assms]) simp_all
  have fr: "frame_of s ?gone" "rs_closed ?gone = rs_closed s" "rs_entries ?gone = AList.delete n (rs_entries s)"
    by (simp_all add: frame_of_def entry_wipe_def timer_Stop_def)
  from eq wipe_entry_inv[OF assms] kept assms(1) show "cache_inv B X (prune_entry cfg n e s)" by auto
  from eq fr show "frame_of s (prune_entry cfg n e s)" "rs_closed (prune_entry cfg n e s) = rs_closed s"
    by (auto simp: frame_of_def)
  from eq fr show "map_of (rs_entries (prune_entry cfg n e s)) m = map_of (rs_entries s) m" if "m \<noteq> n" for m
    using that by (auto simp: map_of_delete map_of_update)
  from eq fr assms(2) show "agrees cfg n f" if "map_of (rs_entries (prune_entry cfg n e s)) n = Some f" for f
    using that by (auto simp: map_of_delete map_of_update agrees_def)
qed

lemma frame_of_trans: "frame_of a b \<Longrightarrow> frame_of b c \<Longrightarrow> frame_of a c"
  by (simp add: frame_of_def)

lemma prune_loop_ok:
  assumes "cache_inv B X s" and "distinct (map fst es)" and "\<forall>(n, e) \<in> set es. map_of (rs_entries s) n = Some e"
    and "\<forall>n e. map_of (rs_entries s) n = Some e \<longrightarrow> n \<in> fst ` set es \<or> agrees cfg n e"
  shows "cache_inv B X (prune_loop cfg es s) \<and> frame_of s (prune_loop cfg es s) \<and> rs_closed (prune_loop cfg es s) = rs_closed s
    \<and> (\<forall>n e. map_of (rs_entries (prune_loop cfg es s)) n = Some e \<longrightarrow> agrees cfg n e)"
  using assms
proof (induction es arbitrary: s)
  case Nil
  then show ?case by (auto simp: frame_of_def)
next
  case (Cons x es)
  obtain n e where x: "x = (n, e)" by (cases x)
  have e: "map_of (rs_entries s) n = Some e" using Cons.prems(3) x by simp
  note P = prune_entry_ok[OF Cons.prems(1) e, where cfg = cfg]
  have "map_of (rs_entries (prune_entry cfg n e s)) m = Some f" if "(m, f) \<in> set es" for m f
  proof -
    have "m \<noteq> n" using Cons.prems(2) x that by force
    moreover have "map_of (rs_entries s) m = Some f" using Cons.prems(3) that by auto
    ultimately show ?thesis using P(4) by simp
  qed
  then have "\<forall>(m, f) \<in> set es. map_of (rs_entries (prune_entry cfg n e s)) m = Some f" by blast
  moreover have "\<forall>m f. map_of (rs_entries (prune_entry cfg n e s)) m = Some f \<longrightarrow> m \<in> fst ` set es \<or> agrees cfg m f"
  proof (intro allI impI)
    fix m f assume f: "map_of (rs_entries (prune_entry cfg n e s)) m = Some f"
    show "m \<in> fst ` set es \<or> agrees cfg m f"
    proof (cases "m = n")
      case True
      with P(5) f show ?thesis by blast
    next
      case False
      with P(4)[OF False] f have "map_of (rs_entries s) m = Some f" by simp
      with Cons.prems(4) False x show ?thesis by auto
    qed
  qed
  moreover have "distinct (map fst es)" using Cons.prems(2) by simp
  ultimately have "cache_inv B X (prune_loop cfg es (prune_entry cfg n e s)) \<and> frame_of (prune_entry cfg n e s) (prune_loop cfg es (prune_entry cfg n e s))
    \<and> rs_closed (prune_loop cfg es (prune_entry cfg n e s)) = rs_closed (prune_entry cfg n e s)
    \<and> (\<forall>m f. map_of (rs_entries (prune_loop cfg es (prune_entry cfg n e s))) m = Some f \<longrightarrow> agrees cfg m f)"
    by (intro Cons.IH[OF P(1)])
  then show ?case using P(2,3) x frame_of_trans[OF P(2)] by simp
qed

lemma cache_prune_ok:
  assumes "cache_inv B X s"
  shows "cache_inv B X (cache_prune cfg s)" and "frame_of s (cache_prune cfg s)" and "rs_closed (cache_prune cfg s) = rs_closed s"
    and "\<And>n e. map_of (rs_entries (cache_prune cfg s)) n = Some e \<Longrightarrow> agrees cfg n e"
proof -
  have D: "distinct (map fst (rs_entries s))" using assms by (simp add: cache_inv_def mem_inv_def)
  have "\<forall>(n, e) \<in> set (rs_entries s). map_of (rs_entries s) n = Some e" using D by auto
  moreover have "\<forall>n e. map_of (rs_entries s) n = Some e \<longrightarrow> n \<in> fst ` set (rs_entries s) \<or> agrees cfg n e"
    by (force dest: map_of_SomeD)
  ultimately show "cache_inv B X (cache_prune cfg s)" "frame_of s (cache_prune cfg s)" "rs_closed (cache_prune cfg s) = rs_closed s"
    "\<And>n e. map_of (rs_entries (cache_prune cfg s)) n = Some e \<Longrightarrow> agrees cfg n e"
    using prune_loop_ok[OF assms D, of cfg] by (auto simp: cache_prune_def)
qed

lemma wipe_delete_fields:
  "frame_of s ((entry_wipe e s)\<lparr>rs_entries := AList.delete n (rs_entries s)\<rparr>)"
  "rs_closed ((entry_wipe e s)\<lparr>rs_entries := es\<rparr>) = rs_closed s"
  by (simp_all add: frame_of_def entry_wipe_def timer_Stop_def)

lemma close_loop_ok:
  assumes "cache_inv B X s" and "mset es = mset (rs_entries s)"
  shows "cache_inv B X (close_loop es s) \<and> frame_of s (close_loop es s) \<and> rs_entries (close_loop es s) = []"
  using assms
proof (induction es arbitrary: s)
  case Nil
  then show ?case by (simp add: frame_of_def)
next
  case (Cons x es)
  obtain n e where x: "x = (n, e)" by (cases x)
  have D: "distinct (map fst (rs_entries s))" using Cons.prems(1) by (simp add: cache_inv_def mem_inv_def)
  have "(n, e) \<in> set (rs_entries s)" using mset_eq_setD[OF Cons.prems(2)] x by auto
  then have e: "map_of (rs_entries s) n = Some e" using D by simp
  let ?s = "(entry_wipe e s)\<lparr>rs_entries := AList.delete n (rs_entries s)\<rparr>"
  have "mset es = mset (rs_entries ?s)" using mset_delete[OF D e] Cons.prems(2) x by simp
  note IH = Cons.IH[OF wipe_entry_inv[OF Cons.prems(1) e] this]
  then have "frame_of s (close_loop es ?s)" using frame_of_trans[OF wipe_delete_fields(1)] by blast
  with IH show ?case by (simp add: x)
qed

lemma entry_wipe_closed: "entry_wipe e (s\<lparr>rs_closed := b\<rparr>) = (entry_wipe e s)\<lparr>rs_closed := b\<rparr>"
  by (simp add: entry_wipe_def timer_Stop_def value_Release_def)

lemma close_loop_closed: "close_loop es (s\<lparr>rs_closed := b\<rparr>) = (close_loop es s)\<lparr>rs_closed := b\<rparr>"
proof (induction es arbitrary: s rule: list.induct)
  case (Cons x es)
  obtain n e where x: "x = (n, e)" by (cases x)
  have "(entry_wipe e s)\<lparr>rs_closed := b\<rparr>\<lparr>rs_entries := AList.delete n (rs_entries s)\<rparr>
      = (entry_wipe e s)\<lparr>rs_entries := AList.delete n (rs_entries s)\<rparr>\<lparr>rs_closed := b\<rparr>" by simp
  moreover have "rs_entries (s\<lparr>rs_closed := b\<rparr>) = rs_entries s" by simp
  ultimately show ?case by (simp only: x close_loop.simps entry_wipe_closed Cons.IH)
qed simp

lemma cache_close_ok:
  assumes "cache_inv B X s"
  shows "cache_inv B X (cache_close s)" and "frame_of s (cache_close s)" and "rs_entries (cache_close s) = []" and "rs_closed (cache_close s)"
proof -
  let ?c = "close_loop (rs_entries s) s"
  have c: "cache_inv B X ?c" "frame_of s ?c" "rs_entries ?c = []" using close_loop_ok[OF assms refl] by auto
  have eq: "cache_close s = ?c\<lparr>rs_closed := True\<rparr>" by (simp add: cache_close_def close_loop_closed)
  have "req_ok B (?c\<lparr>rs_closed := True\<rparr>) r = req_ok B ?c r" for r by (rule req_ok_cong) simp_all
  with c(1,3) show "cache_inv B X (cache_close s)"
    by (simp add: eq cache_inv_def mem_inv_def owned_def timers_inv_def entries_inv_def)
  show "frame_of s (cache_close s)" "rs_entries (cache_close s) = []" "rs_closed (cache_close s)"
    using c by (simp_all add: eq frame_of_def)
qed

lemma cache_expire_ok:
  assumes inv: "cache_inv B X s" and t: "t \<in> set (rs_fired s)"
  defines "s' \<equiv> cache_expire t (s\<lparr>rs_fired := remove1 t (rs_fired s)\<rparr>)"
  shows "cache_inv B X s'" and "rs_now s' = rs_now s" and "rs_running s' = rs_running s" and "rs_reloading s' = rs_reloading s"
    and "rs_closed s' = rs_closed s" and "tm_value t \<notin> alive (rs_heap s')"
    and "\<And>n e. map_of (rs_entries s') n = Some e \<Longrightarrow> map_of (rs_entries s) n = Some e"
proof -
  let ?fs = "remove1 t (rs_fired s)"
  have T: "timers_inv s" and M: "mem_inv X s" using inv by (simp_all add: cache_inv_def)
  have others: "\<forall>u \<in> set (rs_fired s). tm_value u \<noteq> tm_value t \<longrightarrow> u \<in> set ?fs" by (metis in_set_remove1)
  show "cache_inv B X s'"
  proof (cases "map_option ce_value (map_of (rs_entries s) (tm_name t)) = Some (tm_value t)")
    case True
    then obtain e where e: "map_of (rs_entries s) (tm_name t) = Some e" "ce_value e = tm_value t" by auto
    have "s' = value_Release (ce_value e) s\<lparr>rs_entries := AList.delete (tm_name t) (rs_entries s), rs_timers := rs_timers s, rs_fired := ?fs\<rparr>"
      using e by (simp add: s'_def cache_expire_def value_Release_def)
    with drop_entry[OF inv e(1), of "rs_timers s" ?fs] others e(2) show ?thesis
      by (simp add: set_remove1_subset)
  next
    case False
    have dead: "tm_value t \<notin> alive (rs_heap s)" using T t False by (fastforce simp: timers_inv_def)
    have al: "alive (release_at (tm_value t) (rs_heap s)) = alive (rs_heap s)" using dead by simp
    have same: "contents (release_at (tm_value t) (rs_heap s)) (Some a) = contents (rs_heap s) (Some a)" for a
      using dead by (auto simp: alive_def)
    have s': "s' = value_Release (tm_value t) (s\<lparr>rs_fired := ?fs\<rparr>)"
      using False unfolding s'_def cache_expire_def by (subst if_not_P) simp_all
    have H: "heap_inv (rs_heap s)" using M by (simp add: mem_inv_def)
    have "mem_inv X s'" using M al release_inv[OF H, of "tm_value t"] unfolding s' by (simp add: mem_inv_def owned_def del: alive_release)
    moreover have "timers_inv s'" using T al set_remove1_subset[of t "rs_fired s"] unfolding s' timers_inv_def by (auto simp del: alive_release)
    moreover have "entries_inv B s'"
      unfolding entries_inv_def
    proof (intro allI impI)
      fix n e assume "map_of (rs_entries s') n = Some e"
      then have e: "map_of (rs_entries s) n = Some e" by (simp add: s')
      then have "ce_value e \<noteq> tm_value t" using entry_alive[OF M] dead by metis
      with inv e others show "armed s' n e \<and> from_backend B s' (ce_backend e) (ce_location e) (ce_fetched e) (ce_value e)"
        by (fastforce simp: cache_inv_def entries_inv_def armed_def from_backend_def s' same)
    qed
    moreover have "req_ok B s' r = req_ok B s r" for r using same by (intro req_ok_cong) (simp_all add: s')
    ultimately show ?thesis using inv by (simp add: cache_inv_def s')
  qed
  show "rs_now s' = rs_now s" "rs_running s' = rs_running s" "rs_reloading s' = rs_reloading s" "rs_closed s' = rs_closed s"
    "tm_value t \<notin> alive (rs_heap s')" "\<And>n e. map_of (rs_entries s') n = Some e \<Longrightarrow> map_of (rs_entries s) n = Some e"
    by (auto simp: s'_def cache_expire_def map_of_delete split: if_splits)
qed

lemma replace_entry:
  assumes inv: "cache_inv B (add_mset (ce_value e) X) s" and old: "map_of (rs_entries s) n = Some old" and cl: "\<not> rs_closed s"
    and fb: "from_backend B s (ce_backend e) (ce_location e) (ce_fetched e) (ce_value e)"
    and t: "tm_name t = n" "tm_value t = ce_value e" "tm_due t \<le> ce_fetched e + ce_ttl e"
  shows "cache_inv B X ((entry_wipe old s)\<lparr>rs_timers := t # rs_timers (entry_wipe old s), rs_entries := AList.update n e (rs_entries s)\<rparr>)"
proof -
  let ?d = "(entry_wipe old s)\<lparr>rs_entries := AList.delete n (rs_entries s)\<rparr>"
  have M: "mem_inv (add_mset (ce_value e) X) s" using inv by (simp add: cache_inv_def)
  have D: "distinct (map fst (rs_entries s))" using M by (simp add: mem_inv_def)
  have d: "cache_inv B (add_mset (ce_value e) X) ?d" by (rule wipe_entry_inv[OF inv old])
  have "ce_value old \<noteq> ce_value e" using owned_disjoint(3)[OF M old] by auto
  then have "from_backend B ?d (ce_backend e) (ce_location e) (ce_fetched e) (ce_value e)"
    using fb by (simp add: from_backend_def entry_wipe_def timer_Stop_def)
  moreover have "map_of (rs_entries ?d) n = None" "\<not> rs_closed ?d" using cl by (simp_all add: map_of_delete wipe_delete_fields)
  ultimately have "cache_inv B X (?d\<lparr>rs_timers := t # rs_timers ?d, rs_entries := AList.update n e (rs_entries ?d)\<rparr>)"
    using add_entry[OF d] t by blast
  moreover have "mset (AList.update n e (rs_entries ?d)) = mset (AList.update n e (rs_entries s))"
    using D by (simp add: mset_update distinct_delete delete_idem)
  ultimately show ?thesis
    using cache_inv_mset[of "AList.update n e (rs_entries ?d)" "AList.update n e (rs_entries s)" B X
        "(entry_wipe old s)\<lparr>rs_timers := t # rs_timers (entry_wipe old s)\<rparr>"] by simp
qed

lemma cache_store_ok:
  fixes name b l ttl
  assumes inv: "cache_inv B (add_mset a X) s" and n: "\<forall>t \<in> set (rs_timers s) \<union> set (rs_fired s). tm_value t \<noteq> a"
    and fb: "from_backend B s b l t0 a"
  defines "s' \<equiv> cache_store name b l ttl t0 a s"
  shows "cache_inv B X s'" and "frame_of s s'" and "rs_closed s' = rs_closed s"
    and "\<And>m e. map_of (rs_entries s') m = Some e \<Longrightarrow> map_of (rs_entries s) m = Some e \<or> agrees (rs_running s) m e"
proof -
  have "cache_inv B X s' \<and> frame_of s s' \<and> rs_closed s' = rs_closed s
    \<and> (\<forall>m e. map_of (rs_entries s') m = Some e \<longrightarrow> map_of (rs_entries s) m = Some e \<or> agrees (rs_running s) m e)"
  proof (cases "s' = value_Release a s")
    case True
    then show ?thesis using release_inv_X[OF inv n] by (simp add: frame_of_def)
  next
    case False
    then obtain cur where cur: "map_of (cfg_Secrets (rs_running s)) name = Some cur" "\<not> rs_closed s" "sn_Backend cur = b"
        "sn_Location cur = l" "sn_CacheTTL cur \<noteq> 0"
      by (auto simp: s'_def cache_store_def split: option.splits if_splits)
    define e where "e = \<lparr>ce_backend = b, ce_location = l, ce_fetched = t0, ce_ttl = min ttl (sn_CacheTTL cur), ce_value = a\<rparr>"
    define t where "t = \<lparr>tm_name = name, tm_value = a, tm_due = t0 + ce_ttl e\<rparr>"
    have ag: "agrees (rs_running s) name e" using cur by (simp add: agrees_def e_def)
    have e: "ce_value e = a" "from_backend B s (ce_backend e) (ce_location e) (ce_fetched e) (ce_value e)"
      "tm_name t = name" "tm_value t = ce_value e" "tm_due t \<le> ce_fetched e + ce_ttl e"
      using fb by (simp_all add: e_def t_def)
    show ?thesis
    proof (cases "map_of (rs_entries s) name")
      case None
      then have s': "s' = s\<lparr>rs_timers := t # rs_timers s, rs_entries := AList.update name e (rs_entries s)\<rparr>"
        using cur by (simp add: s'_def cache_store_def timer_Start_def Let_def e_def t_def)
      with add_entry[OF _ None cur(2) e(2-5)] inv e(1) ag show ?thesis
        by (auto simp: frame_of_def map_of_update split: if_splits)
    next
      case (Some old)
      then have s': "s' = (entry_wipe old s)\<lparr>rs_timers := t # rs_timers (entry_wipe old s), rs_entries := AList.update name e (rs_entries s)\<rparr>"
        using cur by (simp add: s'_def cache_store_def timer_Start_def Let_def e_def t_def entry_wipe_def timer_Stop_def)
      have "cache_inv B X s'" unfolding s' by (rule replace_entry[OF _ Some cur(2) e(2-5)]) (use inv e(1) in simp)
      moreover have "frame_of s s'" "rs_closed s' = rs_closed s" "rs_entries s' = AList.update name e (rs_entries s)"
        by (simp_all add: s' frame_of_def entry_wipe_def timer_Stop_def)
      ultimately show ?thesis using ag by (auto simp: map_of_update split: if_splits)
    qed
  qed
  then show "cache_inv B X s'" and "frame_of s s'" and "rs_closed s' = rs_closed s"
    and "\<And>m e. map_of (rs_entries s') m = Some e \<Longrightarrow> map_of (rs_entries s) m = Some e \<or> agrees (rs_running s) m e" by blast+
qed

end
