(* ===== verification/Resolver_Properties.thy ===== *)
theory Resolver_Properties
  imports Resolver_Inv
begin

text \<open>Every step of the Secret Resolver keeps its invariant, and what follows for its callers.\<close>

section \<open>Every step keeps the invariant\<close>

definition resolver_inv :: "(string \<Rightarrow> string \<Rightarrow> ns \<Rightarrow> bytes option) \<Rightarrow> rstate \<Rightarrow> bool" where
  "resolver_inv B s \<longleftrightarrow> cache_inv B {#} s
     \<and> (\<not> rs_reloading s \<longrightarrow> (\<forall>n e. map_of (rs_entries s) n = Some e \<longrightarrow> agrees (rs_running s) n e))"

lemma cache_inv_same:
  assumes "cache_inv B X s" and "rs_heap s' = rs_heap s" and "rs_now s' = rs_now s" and "rs_entries s' = rs_entries s"
    and "rs_closed s' = rs_closed s" and "rs_timers s' = rs_timers s" and "rs_fired s' = rs_fired s"
    and "owned X' s' = owned X s" and "\<forall>r \<in> set (rs_requests s'). req_ok B s r"
  shows "cache_inv B X' s'"
proof -
  have "req_ok B s' r = req_ok B s r" for r using assms(2,3) by (intro req_ok_cong) simp_all
  moreover have "mem_inv X' s'" using assms(1,2,4,8) by (simp add: cache_inv_def mem_inv_def)
  moreover have "timers_inv s'" using assms(1,2,4,6,7) by (simp add: cache_inv_def timers_inv_def)
  moreover have "entries_inv B s'"
    using assms(1-4,6,7) by (simp add: cache_inv_def entries_inv_def armed_def from_backend_def)
  ultimately show ?thesis using assms(1,4,5,9) by (simp add: cache_inv_def)
qed

lemma move_inv:
  assumes "cache_inv B X s" and "owned X' (s\<lparr>rs_requests := rs, rs_held := hs\<rparr>) = owned X s" and "\<forall>r \<in> set rs. req_ok B s r"
  shows "cache_inv B X' (s\<lparr>rs_requests := rs, rs_held := hs\<rparr>)"
  by (rule cache_inv_same[OF assms(1)]) (use assms(2,3) in simp_all)

lemma cache_invD: "cache_inv B X s \<Longrightarrow> mem_inv X s \<and> timers_inv s \<and> entries_inv B s \<and> (\<forall>r \<in> set (rs_requests s). req_ok B s r)"
  by (simp add: cache_inv_def)

lemma tick_inv: "cache_inv B X s \<Longrightarrow> 0 \<le> d \<Longrightarrow> cache_inv B X (s\<lparr>rs_now := rs_now s + d\<rparr>)"
proof -
  assume inv: "cache_inv B X s" and d: "0 \<le> d"
  let ?s = "s\<lparr>rs_now := rs_now s + d\<rparr>"
  have fb: "from_backend B s b l t a \<Longrightarrow> from_backend B ?s b l t a" for b l t a
    using d by (force simp: from_backend_def)
  have "req_ok B s r \<Longrightarrow> req_ok B ?s r" for r using fb by (cases r) auto
  with inv fb show ?thesis
    by (auto simp: cache_inv_def mem_inv_def owned_def timers_inv_def entries_inv_def armed_def)
qed

text \<open>A fetch that is answered: the value is in memory of its own and came from the Backend.\<close>

lemma fetched:
  assumes "cache_inv B {#} s" and "newLocked True v (rs_heap s) = (Inr (Some a), h)" and "B b l t = Some v" and "t0 \<le> t" and "t \<le> rs_now s"
  shows "cache_inv B {#a#} (s\<lparr>rs_heap := h\<rparr>)" and "from_backend B (s\<lparr>rs_heap := h\<rparr>) b l t0 a"
  using alloc_inv[OF assms(1,2)] assms(3-5) by (auto simp: from_backend_def)

lemma deliver_inv:
  assumes "cache_inv B {#a#} (s\<lparr>rs_heap := h\<rparr>)" and "r \<in> set (rs_requests s)" and "req_addrs r = {#}"
  shows "cache_inv B {#} (s\<lparr>rs_heap := h, rs_requests := remove1 r (rs_requests s), rs_held := a # rs_held s\<rparr>)"
proof -
  have "\<forall>q \<in> set (remove1 r (rs_requests s)). req_ok B (s\<lparr>rs_heap := h\<rparr>) q"
    using cache_invD[OF assms(1)] set_remove1_subset[of r "rs_requests s"] by auto
  moreover have "owned {#} (s\<lparr>rs_heap := h, rs_requests := remove1 r (rs_requests s), rs_held := a # rs_held s\<rparr>) = owned {#a#} (s\<lparr>rs_heap := h\<rparr>)"
    using reqs_remove1[OF assms(2)] assms(3) by (simp add: owned_def)
  ultimately show ?thesis
    using move_inv[OF assms(1), where X' = "{#}" and rs = "remove1 r (rs_requests s)" and hs = "a # rs_held s"] by simp
qed

lemma clone_inv:
  assumes "cache_inv B X s" and "Secret_Clone ok (Some a) (rs_heap s) = (Inr (Some c), h)"
  shows "cache_inv B (add_mset c X) (s\<lparr>rs_heap := h\<rparr>)" and "contents h (Some c) = contents (rs_heap s) (Some a)"
    and "contents h (Some a) = contents (rs_heap s) (Some a)" and "contents h (Some c) \<noteq> None"
proof -
  obtain v where v: "contents (rs_heap s) (Some a) = Some v" "newLocked ok v (rs_heap s) = (Inr (Some c), h)"
    using assms(2) by (auto simp: Clone_eq split: option.splits)
  then have "ok" by (auto simp: newLocked_def split: if_splits)
  with v have n: "newLocked True v (rs_heap s) = (Inr (Some c), h)" by simp
  note A = alloc_inv[OF assms(1) n]
  show "cache_inv B (add_mset c X) (s\<lparr>rs_heap := h\<rparr>)" by (rule A(1))
  show "contents h (Some c) = contents (rs_heap s) (Some a)" "contents h (Some c) \<noteq> None" using A(2) v by simp_all
  show "contents h (Some a) = contents (rs_heap s) (Some a)" using A(3) v(1) by (simp add: alive_def)
qed

lemma in_flight:
  assumes inv: "cache_inv B {#} s" and r: "Caching name b l ttl t0 a c \<in> set (rs_requests s)"
  defines "s1 \<equiv> s\<lparr>rs_requests := remove1 (Caching name b l ttl t0 a c) (rs_requests s), rs_held := c # rs_held s\<rparr>"
  shows "cache_inv B {#a#} s1" and "\<forall>t \<in> set (rs_timers s1) \<union> set (rs_fired s1). tm_value t \<noteq> a" and "from_backend B s1 b l t0 a"
    and "from_backend B s b l t0 c"
proof -
  note I = cache_invD[OF inv]
  have mem: "mem_inv {#} s" using I by blast
  have "owned {#a#} s1 = owned {#} s" using reqs_remove1[OF r] by (simp add: owned_def s1_def)
  moreover have "\<forall>q \<in> set (remove1 (Caching name b l ttl t0 a c) (rs_requests s)). req_ok B s q"
    using I set_remove1_subset[of "Caching name b l ttl t0 a c" "rs_requests s"] by blast
  ultimately show "cache_inv B {#a#} s1" unfolding s1_def using move_inv[OF inv] by blast
  have ra: "a \<in># reqs (rs_requests s)" using reqs_remove1[OF r] by simp
  then have "a \<in> alive (rs_heap s)" using owned_alive[OF mem, of a] by (simp add: owned_def)
  then show "\<forall>t \<in> set (rs_timers s1) \<union> set (rs_fired s1). tm_value t \<noteq> a"
    using I owned_disjoint(1)[OF mem] ra unfolding timers_inv_def by (fastforce simp: s1_def)
  have "req_ok B s (Caching name b l ttl t0 a c)" using I r by blast
  then show "from_backend B s1 b l t0 a" "from_backend B s b l t0 c" by (simp_all add: s1_def from_backend_def)
qed

lemma resolver_invI: "cache_inv B {#} s' \<Longrightarrow> resolver_inv B s \<Longrightarrow> rs_running s' = rs_running s \<Longrightarrow> rs_reloading s' = rs_reloading s \<Longrightarrow>
    (\<And>n e. map_of (rs_entries s') n = Some e \<Longrightarrow> map_of (rs_entries s) n = Some e \<or> agrees (rs_running s) n e) \<Longrightarrow> resolver_inv B s'"
  unfolding resolver_inv_def by metis

lemma rstep_inv:
  assumes "rstep B s a s'" and "resolver_inv B s"
  shows "resolver_inv B s'"
proof -
  have inv: "cache_inv B {#} s" using assms(2) by (simp add: resolver_inv_def)
  note I = cache_invD[OF inv]
  note keep = resolver_invI[OF _ assms(2)]
  from assms(1) show ?thesis
  proof cases
    case (Tick d)
    then show ?thesis using tick_inv[OF inv] by (intro keep) simp_all
  next
    case (Hit cfg name b l ttl e allocOK a h v)
    from clone_inv(1)[OF inv Hit(5)] have c: "cache_inv B {#a#} (s\<lparr>rs_heap := h\<rparr>)" by simp
    have "cache_inv B {#} (s\<lparr>rs_heap := h\<rparr>\<lparr>rs_requests := rs_requests s, rs_held := a # rs_held s\<rparr>)"
      using cache_invD[OF c] by (intro move_inv[OF c]) (simp_all add: owned_def)
    then show ?thesis using Hit(2) by (intro keep) simp_all
  next
    case (Hit_fails cfg name b l ttl e allocOK err h)
    then show ?thesis using assms(2) by simp
  next
    case (Miss cfg name b l ttl)
    have "cache_inv B {#} (s\<lparr>rs_requests := Fetching name b l ttl (rs_now s) # rs_requests s, rs_held := rs_held s\<rparr>)"
      using I by (intro move_inv[OF inv]) (simp_all add: owned_def)
    then show ?thesis using Miss by (intro keep) simp_all
  next
    case (Uncached cfg name b l)
    have "cache_inv B {#} (s\<lparr>rs_requests := Direct b l (rs_now s) # rs_requests s, rs_held := rs_held s\<rparr>)"
      using I by (intro move_inv[OF inv]) (simp_all add: owned_def)
    then show ?thesis using Uncached by (intro keep) simp_all
  next
    case (Fetch_fails r)
    then have "req_addrs r = {#}" by auto
    then have "cache_inv B {#} (s\<lparr>rs_requests := remove1 r (rs_requests s), rs_held := rs_held s\<rparr>)"
      using I set_remove1_subset[of r "rs_requests s"] reqs_remove1[OF Fetch_fails(3)]
      by (intro move_inv[OF inv]) (auto simp: owned_def)
    then show ?thesis using Fetch_fails by (intro keep) simp_all
  next
    case (Fetch_direct b l t0 t v a h)
    then show ?thesis
      using deliver_inv[OF fetched(1)[OF inv Fetch_direct(7,6,4,5)] Fetch_direct(3)] by (intro keep) simp_all
  next
    case (Fetch_uncloned name b l ttl t0 t v a h)
    then show ?thesis
      using deliver_inv[OF fetched(1)[OF inv Fetch_uncloned(7,6,4,5)] Fetch_uncloned(3)] by (intro keep) simp_all
  next
    case (Fetch_cloned name b l ttl t0 t v a h c h')
    let ?r = "Fetching name b l ttl t0"
    note F = fetched[OF inv Fetch_cloned(7,6,4,5)]
    have cl: "Secret_Clone True (Some a) (rs_heap (s\<lparr>rs_heap := h\<rparr>)) = (Inr (Some c), h')" using Fetch_cloned(8) by simp
    note K = clone_inv[OF F(1) cl]
    have c: "cache_inv B {#c, a#} (s\<lparr>rs_heap := h'\<rparr>)" using K(1) by (simp add: add_mset_commute)
    have "req_ok B (s\<lparr>rs_heap := h'\<rparr>) (Caching name b l ttl t0 a c)" using F(2) K(2,3) by (simp add: from_backend_def)
    then have "\<forall>q \<in> set (Caching name b l ttl t0 a c # remove1 ?r (rs_requests s)). req_ok B (s\<lparr>rs_heap := h'\<rparr>) q"
      using cache_invD[OF c] set_remove1_subset[of ?r "rs_requests s"] by auto
    then have "cache_inv B {#} (s\<lparr>rs_heap := h'\<rparr>\<lparr>rs_requests := Caching name b l ttl t0 a c # remove1 ?r (rs_requests s), rs_held := rs_held s\<rparr>)"
      using reqs_remove1[OF Fetch_cloned(3)] by (intro move_inv[OF c]) (simp_all add: owned_def)
    then show ?thesis using Fetch_cloned(2) by (intro keep) simp_all
  next
    case (Cache name b l ttl t0 a c v s1)
    note F = in_flight[OF inv Cache(3), folded Cache(5)]
    note S = cache_store_ok[OF F(1,2,3), where name = name and ttl = ttl]
    have "rs_entries s1 = rs_entries s" "rs_running s1 = rs_running s" "rs_reloading s1 = rs_reloading s" using Cache(5) by simp_all
    with S Cache(2) show ?thesis by (intro keep) (simp_all add: frame_of_def)
  next
    case (Reload cfg)
    then have "cache_inv B {#} s'" using I by (intro cache_inv_same[OF inv]) (simp_all add: owned_def)
    with Reload show ?thesis by (simp add: resolver_inv_def)
  next
    case Prune
    let ?p = "cache_prune (rs_running s) s"
    note P = cache_prune_ok[OF inv, of "rs_running s"]
    have "cache_inv B {#} s'"
      using Prune cache_invD[OF P(1)] by (intro cache_inv_same[OF P(1)]) (simp_all add: owned_def)
    moreover have "rs_running s' = rs_running s" "rs_entries s' = rs_entries ?p" using P(2) Prune by (simp_all add: frame_of_def)
    ultimately show ?thesis using P(4) by (simp add: resolver_inv_def)
  next
    case (Fire t)
    have "req_ok B s' r = req_ok B s r" for r using Fire by (intro req_ok_cong) simp_all
    moreover have "timers_inv s'" using I Fire set_remove1_subset[of t "rs_timers s"] by (auto simp: timers_inv_def)
    moreover have "armed s' n e" if "armed s n e" for n e
    proof -
      have "u = t \<or> u \<in> set (remove1 t (rs_timers s))" if "u \<in> set (rs_timers s)" for u using that by (metis in_set_remove1)
      with that Fire(2) show ?thesis by (fastforce simp: armed_def)
    qed
    ultimately have "cache_inv B {#} s'"
      using inv Fire by (simp add: cache_inv_def mem_inv_def owned_def entries_inv_def from_backend_def)
    then show ?thesis using Fire by (intro keep) simp_all
  next
    case (Expire t)
    note E = cache_expire_ok[OF inv Expire(3)]
    then show ?thesis using Expire(2) by (intro keep) simp_all
  next
    case Close
    note C = cache_close_ok[OF inv]
    then show ?thesis using Close by (intro keep) (simp_all add: frame_of_def)
  next
    case (Release x)
    let ?s = "s\<lparr>rs_requests := rs_requests s, rs_held := remove1 x (rs_held s)\<rparr>"
    have "cache_inv B {#x#} ?s"
      using I Release(3) by (intro move_inv[OF inv]) (simp_all add: owned_def)
    moreover have "x \<in> alive (rs_heap s)" using owned_alive[of "{#}" s x] I Release(3) by (simp add: owned_def)
    then have "\<forall>t \<in> set (rs_timers ?s) \<union> set (rs_fired ?s). tm_value t \<noteq> x"
      using I owned_disjoint(2)[of "{#}" s] Release(3) unfolding timers_inv_def by fastforce
    ultimately have "cache_inv B {#} (value_Release x ?s)" by (intro release_inv_X) simp_all
    then show ?thesis using Release(2) by (intro keep) simp_all
  qed
qed

lemma reachable_inv: "reachable B s \<Longrightarrow> resolver_inv B s"
proof (induction rule: reachable.induct)
  case (init t cfg)
  then show ?case
    by (simp add: resolver_inv_def cache_inv_def mem_inv_def owned_def vals_def reqs_def timers_inv_def entries_inv_def
        empty_heap_def heap_inv_def alive_def contents_def deref_def)
next
  case (step s a s')
  then show ?case by (blast intro: rstep_inv)
qed

section \<open>An example run\<close>

definition cached_cfg :: Config where
  "cached_cfg = example_cfg\<lparr>cfg_Secrets := [(''gh'', (snd (hd (cfg_Secrets example_cfg)))\<lparr>sn_CacheTTL := 60\<rparr>)]\<rparr>"

definition const_backend :: "string \<Rightarrow> string \<Rightarrow> ns \<Rightarrow> bytes option" where
  "const_backend b l t = Some ''pw''"

text \<open>One request missed, fetched and cached; time passed; the entry is there.\<close>

definition cached_heap :: heap where
  "cached_heap = heap_step (heap_step empty_heap (NewOp True ''pw'')) (CloneOp True (Some 0))"

definition cached_state :: rstate where
  "cached_state = \<lparr>rs_heap = cached_heap, rs_now = 50,
     rs_entries = [(''gh'', \<lparr>ce_backend = ''bao'', ce_location = ''kv/gh'', ce_fetched = 0, ce_ttl = 60, ce_value = 0\<rparr>)],
     rs_closed = False, rs_running = cached_cfg, rs_reloading = False,
     rs_timers = [\<lparr>tm_name = ''gh'', tm_value = 0, tm_due = 60\<rparr>], rs_fired = [], rs_requests = [], rs_held = [1]\<rparr>"

lemma cached_plan: "Resolve cached_cfg ''gh'' = FetchCached ''bao'' ''kv/gh'' 60"
  by (simp add: Resolve_def cached_cfg_def example_cfg_def)

lemma cached_state_reachable: "reachable const_backend cached_state"
proof -
  let ?B = const_backend
  let ?s0 = "\<lparr>rs_heap = empty_heap, rs_now = 0, rs_entries = [], rs_closed = False, rs_running = cached_cfg,
     rs_reloading = False, rs_timers = [], rs_fired = [], rs_requests = [], rs_held = []\<rparr>"
  let ?s1 = "?s0\<lparr>rs_requests := [Fetching ''gh'' ''bao'' ''kv/gh'' 60 0]\<rparr>"
  let ?h1 = "heap_step empty_heap (NewOp True ''pw'')"
  let ?s2 = "?s0\<lparr>rs_heap := cached_heap, rs_requests := [Caching ''gh'' ''bao'' ''kv/gh'' 60 0 0 1]\<rparr>"
  let ?s3 = "cached_state\<lparr>rs_now := 0\<rparr>"
  have n: "newLocked True ''pw'' empty_heap = (Inr (Some 0), ?h1)"
    by (simp add: secret_New_def newLocked_def allocate_copy_def empty_heap_def)
  have c: "Secret_Clone True (Some 0) ?h1 = (Inr (Some 1), cached_heap)"
    by (simp add: cached_heap_def secret_New_def newLocked_def allocate_copy_def empty_heap_def Secret_Clone_def deref_def)
  have v: "contents cached_heap (Some 1) = Some ''pw''"
    by (simp add: cached_heap_def secret_New_def newLocked_def allocate_copy_def empty_heap_def Secret_Clone_def deref_def contents_def)
  have "reachable ?B ?s0" by (rule reachable.init)
  moreover have "rstep ?B ?s0 Silent ?s1"
    using rstep.Miss[OF cached_plan, of ?s0 ?B] by (simp add: cache_hit_def)
  moreover have "rstep ?B ?s1 Silent ?s2"
    using rstep.Fetch_cloned[of "''gh''" "''bao''" "''kv/gh''" 60 0 ?s1 0 ?B "''pw''" 0 ?h1 1 cached_heap] n c
    by (simp add: const_backend_def)
  moreover have "rstep ?B ?s2 (Delivered ''bao'' ''kv/gh'' 60 0 ''pw'') ?s3"
    using rstep.Cache[of "''gh''" "''bao''" "''kv/gh''" 60 0 0 1 ?s2 "''pw''" _ ?B, OF _ _ refl] v
    by (simp add: cache_store_def cached_state_def cached_cfg_def example_cfg_def timer_Start_def)
  ultimately have "reachable ?B ?s3" by (blast intro: reachable.step)
  then show ?thesis
    using reachable.step[OF _ rstep.Tick[of 50 ?B ?s3]] by (simp add: cached_state_def)
qed

section \<open>What callers get\<close>

text \<open>
  C10: no stale Secret is delivered: whatever the interleaving of requests, reloads, timers
  and shutdown, a delivered value is one the Backend held at the requested location either
  while the request ran or less than the Secret Name's TTL before.
\<close>

theorem cache_delivers_fresh:
  assumes "reachable B s" and "rstep B s (Delivered b l ttl t0 v) s'"
  shows "\<exists>t. t \<le> rs_now s \<and> B b l t = Some v \<and> (t0 \<le> t \<or> rs_now s - t < ttl)"
proof -
  have inv: "cache_inv B {#} s" using reachable_inv[OF assms(1)] by (simp add: resolver_inv_def)
  from assms(2) show ?thesis
  proof cases
    case (Hit cfg name e allocOK a h)
    have e: "map_of (rs_entries s) name = Some e" "ce_backend e = b" "ce_location e = l" "rs_now s - ce_fetched e < ttl"
      using Hit(4) by (auto simp: cache_hit_def split: option.splits if_splits)
    have "from_backend B s b l (ce_fetched e) (ce_value e)"
      using cache_invD[OF inv] e(1-3) unfolding entries_inv_def by blast
    then obtain t where t: "ce_fetched e \<le> t" "t \<le> rs_now s" "B b l t = contents (rs_heap s) (Some (ce_value e))"
      by (auto simp: from_backend_def)
    have "contents (rs_heap s) (Some (ce_value e)) = Some v" using clone_inv(2)[OF inv Hit(5)] Hit(6) by simp
    with t e(4) show ?thesis by (intro exI[of _ t] conjI) simp_all
  next
    case (Cache name a c s1)
    from in_flight(4)[OF inv Cache(2)] Cache(3) show ?thesis by (auto simp: from_backend_def)
  qed blast+
qed

theorem cache_delivers_fresh_witness:
  "\<exists>s' t. rstep const_backend cached_state (Delivered ''bao'' ''kv/gh'' 60 50 ''pw'') s'
     \<and> t \<le> 50 \<and> const_backend ''bao'' ''kv/gh'' t = Some ''pw'' \<and> (50 \<le> t \<or> 50 - t < (60 :: int))"
proof -
  obtain h where c: "Secret_Clone True (Some 0) (rs_heap cached_state) = (Inr (Some 2), h)" "contents h (Some 2) = Some ''pw''"
    by (simp add: cached_state_def cached_heap_def secret_New_def newLocked_def allocate_copy_def empty_heap_def
        Secret_Clone_def deref_def contents_def)
  have "cache_hit ''gh'' ''bao'' ''kv/gh'' 60 cached_state
      = Some \<lparr>ce_backend = ''bao'', ce_location = ''kv/gh'', ce_fetched = 0, ce_ttl = 60, ce_value = 0\<rparr>"
    by (simp add: cache_hit_def cached_state_def)
  from rstep.Hit[OF cached_plan this _ c(2), of True const_backend] c(1)
  have "\<exists>s'. rstep const_backend cached_state (Delivered ''bao'' ''kv/gh'' 60 50 ''pw'') s'"
    by (auto simp: cached_state_def)
  then obtain s' where s: "rstep const_backend cached_state (Delivered ''bao'' ''kv/gh'' 60 50 ''pw'') s'" by blast
  from cache_delivers_fresh[OF cached_state_reachable s] s show ?thesis by (auto simp: cached_state_def)
qed

text \<open>
  A reload takes effect on the cache: whenever no reload is between publishing its
  snapshot and pruning, every cached Secret belongs to a Secret Name the running config
  defines, with that Backend and location, a TTL that is on, and at most that TTL; in
  particular a request that began before the reload cannot bring back what it removed.
\<close>

theorem reload_purges_cache:
  assumes "reachable B s" and "\<not> rs_reloading s" and "map_of (rs_entries s) n = Some e"
  shows "\<exists>sn. map_of (cfg_Secrets (rs_running s)) n = Some sn \<and> sn_Backend sn = ce_backend e \<and> sn_Location sn = ce_location e
    \<and> sn_CacheTTL sn \<noteq> 0 \<and> ce_ttl e \<le> sn_CacheTTL sn"
  using reachable_inv[OF assms(1)] assms(2,3) unfolding resolver_inv_def agrees_def by blast

theorem reload_purges_cache_witness:
  "\<exists>sn. map_of (cfg_Secrets cached_cfg) ''gh'' = Some sn \<and> sn_Backend sn = ''bao'' \<and> sn_CacheTTL sn \<noteq> 0"
  using reload_purges_cache[OF cached_state_reachable, of "''gh''"] by (auto simp: cached_state_def)

text \<open>
  No leak, no double use: in every reachable state each Secret in locked memory has
  exactly one owner (a cache entry, a request in flight or a caller), so releasing a
  delivered copy never touches the cached one, and a cache hit never reports \<open>ErrReleased\<close>.
\<close>

theorem memory_has_one_owner:
  assumes "reachable B s"
  shows "vals (rs_entries s) + reqs (rs_requests s) + mset (rs_held s) = mset_set (alive (rs_heap s))
    \<and> (\<forall>name b l ttl e ok h. cache_hit name b l ttl s = Some e \<longrightarrow>
         Secret_Clone ok (Some (ce_value e)) (rs_heap s) \<noteq> (Inl ErrReleased, h))"
proof -
  have M: "mem_inv {#} s" using reachable_inv[OF assms] by (simp add: resolver_inv_def cache_inv_def)
  have "Secret_Clone ok (Some (ce_value e)) (rs_heap s) \<noteq> (Inl ErrReleased, h)" if "cache_hit name b l ttl s = Some e" for name b l ttl e ok h
  proof -
    have "map_of (rs_entries s) name = Some e" using that by (auto simp: cache_hit_def split: option.splits if_splits)
    then have "ce_value e \<in> alive (rs_heap s)" by (rule entry_alive[OF M])
    then show ?thesis by (auto simp: alive_def Clone_eq newLocked_def split: if_splits prod.splits)
  qed
  with M show ?thesis by (auto simp: mem_inv_def owned_def)
qed

theorem memory_has_one_owner_witness:
  "vals (rs_entries cached_state) + reqs (rs_requests cached_state) + mset (rs_held cached_state)
   = mset_set (alive (rs_heap cached_state)) \<and> reachable const_backend cached_state"
  using memory_has_one_owner[OF cached_state_reachable] cached_state_reachable by blast

text \<open>
  Shutdown wipes: after \<open>close\<close> the cache is empty and stays empty whatever happens, and
  the only Secrets left in memory are those of requests in flight and callers.
\<close>

lemma rstep_closed: "rstep B s a s' \<Longrightarrow> resolver_inv B s \<Longrightarrow> rs_closed s \<Longrightarrow> rs_closed s'"
proof -
  assume st: "rstep B s a s'" and r: "resolver_inv B s" and cl: "rs_closed s"
  have inv: "cache_inv B {#} s" using r by (simp add: resolver_inv_def)
  from st show "rs_closed s'"
  proof cases
    case (Cache name b l ttl t0 a c v s1)
    note F = in_flight[OF inv Cache(3), folded Cache(5)]
    from cache_store_ok(3)[OF F(1-3)] Cache(2,5) cl show ?thesis by simp
  next
    case Prune
    with cache_prune_ok(3)[OF inv] cl show ?thesis by simp
  next
    case (Expire t)
    with cache_expire_ok(5)[OF inv] cl show ?thesis by simp
  next
    case Close
    with cache_close_ok(4)[OF inv] show ?thesis by simp
  qed (use cl in simp_all)
qed

theorem close_wipes_cache:
  assumes "reachable B s" and "rtranclp (\<lambda>x y. \<exists>a. rstep B x a y) (cache_close s) s'"
  shows "rs_entries s' = [] \<and> reqs (rs_requests s') + mset (rs_held s') = mset_set (alive (rs_heap s'))"
proof -
  have "reachable B s' \<and> rs_closed s'"
    using assms(2)
  proof (induction rule: rtranclp_induct)
    case base
    have "cache_inv B {#} s" using reachable_inv[OF assms(1)] by (simp add: resolver_inv_def)
    with reachable.step[OF assms(1) rstep.Close] cache_close_ok(4) show ?case by blast
  next
    case (step x y)
    then show ?case using reachable.step rstep_closed reachable_inv by blast
  qed
  then have "cache_inv B {#} s'" "rs_closed s'" using reachable_inv by (auto simp: resolver_inv_def)
  then show ?thesis by (auto simp: cache_inv_def mem_inv_def owned_def vals_def)
qed

theorem close_wipes_cache_witness:
  "rs_entries (cache_close cached_state) = []
   \<and> reqs (rs_requests (cache_close cached_state)) + mset (rs_held (cache_close cached_state)) = mset_set (alive (rs_heap (cache_close cached_state)))"
  using close_wipes_cache[OF cached_state_reachable rtranclp.rtrancl_refl] .

text \<open>
  Cached Secrets expire: once the timers that are due have fired and their \<open>expire\<close> has
  run, no Secret is in the cache longer than its TTL, and each \<open>expire\<close> wipes the memory.
\<close>

theorem cached_secrets_expire:
  assumes "reachable B s" and "rs_fired s = []" and "\<forall>t\<in>set (rs_timers s). rs_now s < tm_due t"
    and "map_of (rs_entries s) n = Some e"
  shows "rs_now s < ce_fetched e + ce_ttl e"
proof -
  have "armed s n e"
    using reachable_inv[OF assms(1)] assms(4) by (auto simp: resolver_inv_def cache_inv_def entries_inv_def)
  with assms(2,3) show ?thesis by (force simp: armed_def)
qed

theorem cached_secrets_expire_witness:
  "\<exists>e. map_of (rs_entries cached_state) ''gh'' = Some e \<and> rs_now cached_state < ce_fetched e + ce_ttl e"
proof -
  obtain e where e: "map_of (rs_entries cached_state) ''gh'' = Some e" by (simp add: cached_state_def)
  with cached_secrets_expire[OF cached_state_reachable _ _ e] show ?thesis by (auto simp: cached_state_def)
qed

text \<open>
  An expired Secret can always be removed: in every reachable state, for every entry past
  its TTL, at most two steps (its timer fires, its \<open>expire\<close> runs) lead to a state in which
  its memory is wiped.
\<close>

theorem expiry_progresses:
  assumes "reachable B s" and "map_of (rs_entries s) n = Some e" and "ce_fetched e + ce_ttl e \<le> rs_now s"
  shows "\<exists>s'. rtranclp (\<lambda>x y. rstep B x Silent y) s s' \<and> ce_value e \<notin> alive (rs_heap s')"
proof -
  have inv: "cache_inv B {#} s" using reachable_inv[OF assms(1)] by (simp add: resolver_inv_def)
  have fired: "\<exists>s'. rtranclp (\<lambda>x y. rstep B x Silent y) u s' \<and> ce_value e \<notin> alive (rs_heap s')"
    if "cache_inv B {#} u" "t \<in> set (rs_fired u)" "tm_value t = ce_value e" for u t
    using cache_expire_ok(6)[OF that(1,2)] rstep.Expire[OF that(2), of B] that(3) by (metis r_into_rtranclp)
  have "armed s n e" using cache_invD[OF inv] assms(2) by (simp add: entries_inv_def)
  then consider t where "t \<in> set (rs_timers s)" "tm_value t = ce_value e" "tm_due t \<le> rs_now s"
    | t where "t \<in> set (rs_fired s)" "tm_value t = ce_value e"
    using assms(3) unfolding armed_def by force
  then show ?thesis
  proof cases
    case 1
    let ?u = "s\<lparr>rs_timers := remove1 t (rs_timers s), rs_fired := t # rs_fired s\<rparr>"
    have st: "rstep B s Silent ?u" by (rule rstep.Fire[OF 1(1,3)])
    then have "cache_inv B {#} ?u" using reachable_inv[OF reachable.step[OF assms(1)]] by (simp add: resolver_inv_def)
    from fired[OF this, of t] 1(2) obtain s' where "rtranclp (\<lambda>x y. rstep B x Silent y) ?u s'" "ce_value e \<notin> alive (rs_heap s')"
      by auto
    moreover have "rtranclp (\<lambda>x y. rstep B x Silent y) s s'" by (rule converse_rtranclp_into_rtranclp[OF st calculation(1)])
    ultimately show ?thesis by blast
  next
    case 2
    then show ?thesis using fired[OF inv] by blast
  qed
qed

theorem expiry_progresses_witness:
  "\<exists>s'. rtranclp (\<lambda>x y. rstep const_backend x Silent y) (cached_state\<lparr>rs_now := 90\<rparr>) s' \<and> 0 \<notin> alive (rs_heap s')"
proof -
  have "reachable const_backend (cached_state\<lparr>rs_now := 90\<rparr>)"
    using reachable.step[OF cached_state_reachable rstep.Tick[of 40]] by (simp add: cached_state_def)
  from expiry_progresses[OF this, of "''gh''"] show ?thesis by (simp add: cached_state_def)
qed

end
