(* ===== verification/Plugin_Contract.thy ===== *)
theory Plugin_Contract
  imports Go_JSON
begin

text \<open>
  \<open>sdk/plugin/internal/contract\<close>: the rules every value crossing the plugin boundary meets,
  and \<open>Sanitize\<close>, which makes untrusted text safe to log.
\<close>

definition MaxLocationBytes :: nat where "MaxLocationBytes = 1024"
definition MaxValueBytes :: nat where "MaxValueBytes = 1048576"
definition MaxListLength :: nat where "MaxListLength = 10000"
definition MaxDetailBytes :: nat where "MaxDetailBytes = 1024"
definition MaxVersionBytes :: nat where "MaxVersionBytes = 64"
definition maxErrorBytes :: nat where "maxErrorBytes = 512"
definition MaxEnvNameBytes :: nat where "MaxEnvNameBytes = 128"
definition MaxEnvValueBytes :: nat where "MaxEnvValueBytes = 4096"

datatype contract_error =
    EmptyLocation
  | OverLimit string nat nat
  | NotValidUTF8 string
  | ControlAt string nat
  | EmptyValue
  | AtIndex nat contract_error
  | NotUnderPrefix nat
  | ListedTwice nat
  | BadEnvName string
  | ReservedEnv string
  | LoaderEnv string

text \<open>\<open>strings.IndexFunc\<close>: the byte offset of the first rune the predicate holds of.\<close>

fun indexFunc :: "(nat \<Rightarrow> bool) \<Rightarrow> (nat \<times> nat) list \<Rightarrow> nat \<Rightarrow> nat option" where
  "indexFunc p [] i = None"
| "indexFunc p ((r, w) # rs) i = (if p r then Some i else indexFunc p rs (i + w))"

definition printable :: "string \<Rightarrow> string \<Rightarrow> (contract_error, unit) result" where
  "printable what s = (
     if \<not> validString s then Inl (NotValidUTF8 what)
     else (case indexFunc isControl (runes s) 0 of Some i \<Rightarrow> Inl (ControlAt what i) | None \<Rightarrow> Inr ()))"

definition Location :: "string \<Rightarrow> (contract_error, unit) result" where
  "Location loc = (
     if loc = [] then Inl EmptyLocation
     else if MaxLocationBytes < length loc then Inl (OverLimit ''location'' (length loc) MaxLocationBytes)
     else printable ''location'' loc)"

definition Prefix :: "string \<Rightarrow> (contract_error, unit) result" where
  "Prefix p = (if p = [] then Inr () else Location p)"

definition Value :: "bytes \<Rightarrow> (contract_error, unit) result" where
  "Value v = (
     if v = [] then Inl EmptyValue
     else if MaxValueBytes < length v then Inl (OverLimit ''value'' (length v) MaxValueBytes)
     else Inr ())"

fun list_loop :: "string \<Rightarrow> nat \<Rightarrow> string list \<Rightarrow> string list \<Rightarrow> (contract_error, unit) result" where
  "list_loop p i seen [] = Inr ()"
| "list_loop p i seen (loc # locs) = (
     case Location loc of
       Inl e \<Rightarrow> Inl (AtIndex i e)
     | Inr _ \<Rightarrow>
         if \<not> hasPrefix loc p then Inl (NotUnderPrefix i)
         else if loc \<in> set seen then Inl (ListedTwice i)
         else list_loop p (i + 1) (loc # seen) locs)"

definition List :: "string \<Rightarrow> string list \<Rightarrow> (contract_error, unit) result" where
  "List p locs = (
     if MaxListLength < length locs then Inl (OverLimit ''list'' (length locs) MaxListLength)
     else list_loop p 0 [] locs)"

definition Detail :: "string \<Rightarrow> (contract_error, unit) result" where
  "Detail d = (
     if MaxDetailBytes < length d then Inl (OverLimit ''health detail'' (length d) MaxDetailBytes)
     else printable ''health detail'' d)"

definition FIPS140Version :: "string \<Rightarrow> (contract_error, unit) result" where
  "FIPS140Version v = (
     if MaxVersionBytes < length v then Inl (OverLimit ''fips140_version'' (length v) MaxVersionBytes)
     else printable ''fips140_version'' v)"

definition reservedEnv :: "string list" where
  "reservedEnv = [''GODEBUG'', ''GOTRACEBACK'', ''GOGC'', ''GOMEMLIMIT'', ''GOMAXPROCS'', ''GORACE'', ''GOCOVERDIR'', ''GOFLAGS'']"

definition env_letter :: "nat \<Rightarrow> bool" where
  "env_letter r \<longleftrightarrow> r = 95 \<or> (65 \<le> r \<and> r \<le> 90) \<or> (97 \<le> r \<and> r \<le> 122)"

text \<open>The loop over the runes of a name: only the first may not be a digit.\<close>

definition env_name_ok :: "string \<Rightarrow> bool" where
  "env_name_ok name = (case runes name of
      [] \<Rightarrow> True
    | (r, _) # rs \<Rightarrow> env_letter r \<and> list_all (\<lambda>(q, _). env_letter q \<or> (48 \<le> q \<and> q \<le> 57)) rs)"

definition Env :: "string \<Rightarrow> string \<Rightarrow> (contract_error, unit) result" where
  "Env name value = (
     if name = [] \<or> MaxEnvNameBytes < length name then Inl (BadEnvName name)
     else if \<not> env_name_ok name then Inl (BadEnvName name)
     else if name \<in> set reservedEnv then Inl (ReservedEnv name)
     else if hasPrefix name ''LD_'' \<or> hasPrefix name ''DYLD_'' then Inl (LoaderEnv name)
     else if MaxEnvValueBytes < length value then Inl (OverLimit (''env '' @ name) (length value) MaxEnvValueBytes)
     else printable (''env '' @ name) value)"

fun sanitize_loop :: "(nat \<times> nat) list \<Rightarrow> string \<Rightarrow> string" where
  "sanitize_loop [] b = b"
| "sanitize_loop ((r, w) # rs) b = (
     if maxErrorBytes \<le> length b then b @ ''...''
     else sanitize_loop rs (b @ encode_rune (if r = rune_error \<or> isControl r then 63 else r)))"

definition Sanitize :: "string \<Rightarrow> string" where
  "Sanitize s = sanitize_loop (runes s) []"

section \<open>Printable text\<close>

lemma indexFunc_None: "indexFunc p rs i = None \<longleftrightarrow> (\<forall>(r, w)\<in>set rs. \<not> p r)"
  by (induction p rs i rule: indexFunc.induct) (auto split: if_splits)

lemma printable_iff: "printable what s = Inr () \<longleftrightarrow> (\<forall>(r, w)\<in>set (runes s). \<not> invalid_rune (r, w) \<and> \<not> isControl r)"
proof -
  have "printable what s = Inr () \<longleftrightarrow> validString s \<and> indexFunc isControl (runes s) 0 = None"
    by (simp add: printable_def split: option.splits)
  then show ?thesis by (auto simp: indexFunc_None validString_def)
qed

text \<open>Text made of whole runes: \<open>runes\<close> of a concatenation.\<close>

definition whole_rune :: "nat \<Rightarrow> bool" where
  "whole_rune r \<longleftrightarrow> (\<forall>t. decode_rune (encode_rune r @ t) = (r, length (encode_rune r))) \<and> \<not> invalid_rune (r, length (encode_rune r))"

lemma whole_rune_append:
  assumes "whole_rune r"
  shows "runes (encode_rune r @ t) = (r, length (encode_rune r)) # runes t"
proof (cases "encode_rune r")
  case Nil
  then show ?thesis by (simp add: encode_rune_def split: if_splits)
next
  case (Cons c cs)
  then have "decode_rune (c # cs @ t) = (r, length (c # cs))" using assms by (metis append_Cons whole_rune_def)
  with Cons show ?thesis by (simp add: runes_Cons)
qed

lemma runes_whole: "\<forall>r\<in>set rs. whole_rune r \<Longrightarrow>
    runes (concat (map encode_rune rs) @ t) = map (\<lambda>r. (r, length (encode_rune r))) rs @ runes t"
  by (induction rs) (simp_all add: whole_rune_append)

lemma decoded_whole:
  assumes "(r, w) \<in> set (runes s)" and "\<not> invalid_rune (r, w)"
  shows "whole_rune r"
  using assms
proof (induction s rule: runes.induct)
  case (2 c s)
  obtain q v where qv: "decode_rune (c # s) = (q, v)" by fastforce
  show ?case
  proof (cases "(r, w) = (q, v)")
    case True
    then have inv: "\<not> invalid_rune (q, v)" using 2(3) by simp
    have w: "v \<le> length (c # s)" using decode_rune_width[of "c # s"] qv by simp
    have "take v (c # s) = encode_rune q" "decode_rune (encode_rune q @ t) = (q, v)" for t
      using encode_decode_rune[OF qv inv, of t] by auto
    moreover have "length (encode_rune q) = v" using calculation(1) w by (metis length_take min.absorb2)
    ultimately show ?thesis using True inv by (simp add: whole_rune_def)
  next
    case False
    then have "(r, w) \<in> set (runes (drop v (c # s)))" using 2(2) qv by (auto simp: runes_Cons)
    with 2(1)[OF refl qv[symmetric]] 2(3) show ?thesis by blast
  qed
qed simp

lemma encode_rune_length: "1 \<le> length (encode_rune r) \<and> length (encode_rune r) \<le> 4"
  by (simp add: encode_rune_def)

lemma encode_rune_ascii: "r < 0x80 \<Longrightarrow> encode_rune r = [char_of r]"
  by (simp add: encode_rune_def)

lemma whole_rune_ascii: "r < 0x80 \<Longrightarrow> whole_rune r"
  by (simp add: whole_rune_def encode_rune_ascii invalid_rune_def rune_error_def)

section \<open>Sanitize\<close>

lemma sanitize_loop_form:
  assumes "\<forall>(r, w)\<in>set rws. \<not> invalid_rune (r, w) \<longrightarrow> whole_rune r" and "\<forall>(r, w)\<in>set rws. r = rune_error \<or> \<not> invalid_rune (r, w)"
  shows "\<exists>rs. (\<forall>r\<in>set rs. whole_rune r \<and> \<not> isControl r) \<and> sanitize_loop rws b = b @ concat (map encode_rune rs)
    \<and> length (sanitize_loop rws b) \<le> max (length b) (maxErrorBytes + 3) + 3"
  using assms
proof (induction rws arbitrary: b)
  case Nil
  show ?case by (intro exI[of _ "[]"]) simp
next
  case (Cons rw rws)
  obtain r w where rw: "rw = (r, w)" by (cases rw)
  let ?q = "if r = rune_error \<or> isControl r then 63 else r"
  have "char_of (46 :: nat) = CHR ''.''" by code_simp
  then have dots: "''...'' = concat (map encode_rune [46, 46, 46])" by (simp add: encode_rune_def)
  have q: "whole_rune ?q \<and> \<not> isControl ?q"
    using Cons.prems rw by (auto simp: whole_rune_ascii isControl_def)
  show ?case
  proof (cases "maxErrorBytes \<le> length b")
    case True
    have "\<forall>r\<in>set [46, 46, 46]. whole_rune r \<and> \<not> isControl r" by (simp add: whole_rune_ascii isControl_def)
    moreover have "sanitize_loop (rw # rws) b = b @ concat (map encode_rune [46, 46, 46])"
      using True rw dots by simp
    ultimately show ?thesis using dots by (intro exI[of _ "[46, 46, 46]"]) (simp add: encode_rune_def)
  next
    case False
    have tl: "\<forall>(r, w)\<in>set rws. \<not> invalid_rune (r, w) \<longrightarrow> whole_rune r" "\<forall>(r, w)\<in>set rws. r = rune_error \<or> \<not> invalid_rune (r, w)"
      using Cons.prems by simp_all
    from Cons.IH[OF tl, of "b @ encode_rune ?q"] obtain rs where
      rs: "\<forall>r\<in>set rs. whole_rune r \<and> \<not> isControl r"
      "sanitize_loop rws (b @ encode_rune ?q) = (b @ encode_rune ?q) @ concat (map encode_rune rs)"
      "length (sanitize_loop rws (b @ encode_rune ?q)) \<le> max (length (b @ encode_rune ?q)) (maxErrorBytes + 3) + 3" by blast
    have "length (b @ encode_rune ?q) \<le> maxErrorBytes + 3" using encode_rune_length[of ?q] False by simp
    with rs q False rw show ?thesis by (intro exI[of _ "?q # rs"]) simp
  qed
qed

lemma Sanitize_form: "printable what (Sanitize s) = Inr ()" "length (Sanitize s) \<le> 518"
proof -
  have "\<forall>(r, w)\<in>set (runes s). \<not> invalid_rune (r, w) \<longrightarrow> whole_rune r" using decoded_whole by blast
  moreover have "\<forall>(r, w)\<in>set (runes s). r = rune_error \<or> \<not> invalid_rune (r, w)" by (auto simp: invalid_rune_def)
  ultimately obtain rs where rs: "\<forall>r\<in>set rs. whole_rune r \<and> \<not> isControl r" "Sanitize s = concat (map encode_rune rs)"
      "length (Sanitize s) \<le> max (length ([] :: string)) (maxErrorBytes + 3) + 3"
    using sanitize_loop_form[of "runes s" "[]"] by (auto simp: Sanitize_def)
  have "runes (Sanitize s) = map (\<lambda>r. (r, length (encode_rune r))) rs"
    using runes_whole[of rs "[]"] rs(1,2) by simp
  with rs show "printable what (Sanitize s) = Inr ()" "length (Sanitize s) \<le> 518" by (auto simp: printable_iff whole_rune_def maxErrorBytes_def)
qed

text \<open>
  What \<open>Sanitize\<close> returns is safe to log and to show whatever a plugin sent: valid UTF-8
  without control characters, of at most 518 bytes.
\<close>

theorem Sanitize_safe: "printable what (Sanitize s) = Inr () \<and> length (Sanitize s) \<le> 518"
  using Sanitize_form by blast

end
