(* ===== verification/Go_Filepath.thy ===== *)
theory Go_Filepath
  imports Go_Strings
begin

text \<open>
  The lexical part of Go's \<open>path/filepath\<close> on Unix: \<open>Clean\<close>, \<open>Join\<close>, \<open>Dir\<close>, \<open>Base\<close>, \<open>IsAbs\<close> and, for
  two absolute paths, \<open>Rel\<close>. \<open>Abs\<close> and \<open>EvalSymlinks\<close> ask the operating system: what it answers is
  a parameter \<open>fslib\<close>.
\<close>

abbreviation slash :: char where "slash \<equiv> CHR ''/''"

fun clean_comps :: "bool \<Rightarrow> string list \<Rightarrow> string list \<Rightarrow> string list" where
  "clean_comps rooted acc [] = rev acc"
| "clean_comps rooted acc (c # cs) = (
     if c = [] \<or> c = ''.'' then clean_comps rooted acc cs
     else if c = ''..'' then
       (case acc of
          [] \<Rightarrow> clean_comps rooted (if rooted then [] else [c]) cs
        | a # as \<Rightarrow> clean_comps rooted (if a = ''..'' then c # acc else as) cs)
     else clean_comps rooted (c # acc) cs)"

definition isAbs :: "string \<Rightarrow> bool" where
  "isAbs p \<longleftrightarrow> hasPrefix p ''/''"

definition path_comps :: "string \<Rightarrow> string list" where
  "path_comps p = clean_comps (isAbs p) [] (splitc slash p)"

definition filepath_Clean :: "string \<Rightarrow> string" where
  "filepath_Clean p = (
     let q = (if isAbs p then ''/'' else []) @ joinc ''/'' (path_comps p) in if q = [] then ''.'' else q)"

definition filepath_Join :: "string list \<Rightarrow> string" where
  "filepath_Join es = (let r = dropWhile (\<lambda>e. e = []) es in if r = [] then [] else filepath_Clean (joinc ''/'' r))"

text \<open>What lies behind the last separator, and before it with the separator.\<close>

definition last_comp :: "string \<Rightarrow> string" where
  "last_comp p = rev (takeWhile (\<lambda>c. c \<noteq> slash) (rev p))"

definition filepath_Dir :: "string \<Rightarrow> string" where
  "filepath_Dir p = filepath_Clean (rev (dropWhile (\<lambda>c. c \<noteq> slash) (rev p)))"

definition filepath_Base :: "string \<Rightarrow> string" where
  "filepath_Base p = (
     if p = [] then ''.''
     else let q = last_comp (rev (dropWhile (\<lambda>c. c = slash) (rev p))) in if q = [] then ''/'' else q)"

fun strip_common :: "string list \<Rightarrow> string list \<Rightarrow> string list \<times> string list" where
  "strip_common (a # as) (b # bs) = (if a = b then strip_common as bs else (a # as, b # bs))"
| "strip_common as bs = (as, bs)"

text \<open>\<open>filepath.Rel\<close> for two absolute paths, which are clean and so hold no dots.\<close>

definition filepath_Rel :: "string \<Rightarrow> string \<Rightarrow> string option" where
  "filepath_Rel base targ = (
     if isAbs base \<noteq> isAbs targ then None
     else let (b, t) = strip_common (path_comps base) (path_comps targ) in
       if b = [] \<and> t = [] then Some ''.'' else Some (joinc ''/'' (replicate (length b) ''..'' @ t)))"

record fslib =
  fs_Getwd :: "string option"
  fs_EvalSymlinks :: "string \<Rightarrow> string option"

definition filepath_Abs :: "fslib \<Rightarrow> string \<Rightarrow> string option" where
  "filepath_Abs fs p = (
     if isAbs p then Some (filepath_Clean p)
     else map_option (\<lambda>wd. filepath_Join [wd, p]) (fs_Getwd fs))"

text \<open>
  What the callers rely on of \<open>EvalSymlinks\<close>: the path it returns for an absolute path is absolute
  and clean, and stands for itself.
\<close>

definition fs_ok :: "fslib \<Rightarrow> bool" where
  "fs_ok fs \<longleftrightarrow> (\<forall>p q. fs_EvalSymlinks fs p = Some q \<longrightarrow> isAbs p \<longrightarrow>
     isAbs q \<and> filepath_Clean q = q \<and> fs_EvalSymlinks fs q = Some q)"

section \<open>Clean paths\<close>

definition plain_comp :: "string \<Rightarrow> bool" where
  "plain_comp c \<longleftrightarrow> c \<noteq> [] \<and> c \<noteq> ''.'' \<and> c \<noteq> ''..'' \<and> slash \<notin> set c"

lemma clean_comps_plain:
  "list_all plain_comp acc \<Longrightarrow> \<forall>c\<in>set cs. slash \<notin> set c \<Longrightarrow> list_all plain_comp (clean_comps True acc cs)"
proof (induction cs arbitrary: acc)
  case (Cons c cs)
  have sl: "\<forall>c\<in>set cs. slash \<notin> set c" "slash \<notin> set c" using Cons.prems(2) by auto
  show ?case
  proof (cases "c = [] \<or> c = ''.'' \<or> c = ''..''")
    case True
    with Cons.IH[OF Cons.prems(1) sl(1)] Cons.IH[of "tl acc", OF _ sl(1)] Cons.prems(1) show ?thesis
      by (cases acc) (auto simp: plain_comp_def)
  next
    case False
    then have "plain_comp c" using sl(2) by (simp add: plain_comp_def)
    with Cons.IH[of "c # acc", OF _ sl(1)] Cons.prems(1) False show ?thesis by simp
  qed
qed (simp add: list_all_iff)

lemma clean_comps_id: "list_all plain_comp cs \<Longrightarrow> clean_comps rooted acc cs = rev acc @ cs"
  by (induction cs arbitrary: acc) (auto simp: plain_comp_def)

lemma path_comps_plain: "isAbs p \<Longrightarrow> list_all plain_comp (path_comps p)"
  using clean_comps_plain[of "[]" "splitc slash p"] splitc_parts[of _ slash p] by (simp add: path_comps_def)

lemma isAbs_iff: "isAbs p \<longleftrightarrow> (\<exists>r. p = slash # r)"
  by (auto simp: isAbs_def hasPrefix_iff)

lemma splitc_slash: "list_all plain_comp cs \<Longrightarrow> cs \<noteq> [] \<Longrightarrow> splitc slash (joinc ''/'' cs) = cs"
  by (rule splitc_joinc) (auto simp: list_all_iff plain_comp_def)

text \<open>An absolute path made of plain components has just those components, and is clean.\<close>

lemma path_comps_abs:
  assumes "list_all plain_comp cs"
  shows "path_comps (slash # joinc ''/'' cs) = cs"
proof (cases "cs = []")
  case False
  with assms splitc_slash[of cs] clean_comps_id[OF assms, of True "[]"] show ?thesis
    by (simp add: path_comps_def isAbs_iff)
qed (simp add: path_comps_def isAbs_iff)

lemma clean_abs: "isAbs p \<Longrightarrow> filepath_Clean p = slash # joinc ''/'' (path_comps p)"
  by (simp add: filepath_Clean_def)

lemma path_comps_clean [simp]: "isAbs p \<Longrightarrow> path_comps (filepath_Clean p) = path_comps p"
  using path_comps_abs[OF path_comps_plain] by (simp add: clean_abs)

lemma clean_isAbs [simp]: "isAbs p \<Longrightarrow> isAbs (filepath_Clean p)"
  by (simp add: clean_abs isAbs_iff)

lemma clean_clean [simp]: "isAbs p \<Longrightarrow> filepath_Clean (filepath_Clean p) = filepath_Clean p"
  by (simp add: clean_abs[of "filepath_Clean p"] clean_abs[of p, symmetric])

text \<open>Whether one clean absolute path is the other or lies below it, by strings and by components.\<close>

definition below :: "string \<Rightarrow> string \<Rightarrow> bool" where
  "below root p \<longleftrightarrow> p = root \<or> hasPrefix p (root @ ''/'')"

lemma joinc_append: "as \<noteq> [] \<Longrightarrow> bs \<noteq> [] \<Longrightarrow> joinc sep (as @ bs) = joinc sep as @ sep @ joinc sep bs"
  by (induction as rule: induct_list012) (auto simp: neq_Nil_conv)

lemma strip_common_prefix: "strip_common as (as @ bs) = ([], bs)"
  by (induction as) (cases bs, auto)

lemma below_comps:
  assumes "isAbs root" "filepath_Clean root = root" "root \<noteq> ''/''" "isAbs p" "filepath_Clean p = p"
  shows "below root p \<longleftrightarrow> prefix (path_comps root) (path_comps p)"
proof -
  let ?r = "path_comps root" and ?p = "path_comps p"
  have r: "root = slash # joinc ''/'' ?r" and p: "p = slash # joinc ''/'' ?p"
    using assms clean_abs by metis+
  have ne: "?r \<noteq> []" using assms(3) r by auto
  have plain: "list_all plain_comp ?r" "list_all plain_comp ?p" using assms path_comps_plain by auto
  show ?thesis
  proof
    assume "below root p"
    then consider "p = root" | s where "p = root @ slash # s" by (auto simp: below_def hasPrefix_iff)
    then show "prefix ?r ?p"
    proof cases
      case 2
      then have "joinc ''/'' ?p = joinc ''/'' ?r @ slash # s" using r p by (metis append_Cons list.inject)
      moreover have "?p \<noteq> []" using calculation by auto
      ultimately have "?p = splitc slash (joinc ''/'' ?r @ slash # s)" using splitc_slash[OF plain(2)] by simp
      then have "?p = ?r @ splitc slash s" using splitc_slash[OF plain(1) ne] by (simp add: splitc_append)
      then show ?thesis by simp
    qed simp
  next
    assume "prefix ?r ?p"
    then obtain s where s: "?p = ?r @ s" by (auto simp: prefix_def)
    show "below root p"
    proof (cases "s = []")
      case True
      with s r p show ?thesis by (metis append_Nil2 below_def)
    next
      case False
      with s ne joinc_append[of ?r s "''/''"] r p have "p = root @ ''/'' @ joinc ''/'' s" by (metis append_Cons)
      then show ?thesis by (simp add: below_def hasPrefix_iff)
    qed
  qed
qed

text \<open>A path below a root is reached from it without a step up.\<close>

lemma rel_below:
  assumes "isAbs root" "filepath_Clean root = root" "root \<noteq> ''/''" "isAbs p" "filepath_Clean p = p" "below root p"
  obtains s where "path_comps p = path_comps root @ s" "list_all plain_comp s"
    "filepath_Rel root p = Some (if s = [] then ''.'' else joinc ''/'' s)"
proof -
  obtain s where s: "path_comps p = path_comps root @ s" using below_comps[OF assms(1-5)] assms(6) by (auto simp: prefix_def)
  moreover have "list_all plain_comp s" using path_comps_plain[OF assms(4)] s by simp
  moreover have "filepath_Rel root p = Some (if s = [] then ''.'' else joinc ''/'' s)"
    using assms(1,4) s strip_common_prefix[of "path_comps root" s] by (simp add: filepath_Rel_def)
  ultimately show thesis by (rule that)
qed

lemma clean_abs_comps: "list_all plain_comp cs \<Longrightarrow> filepath_Clean (slash # joinc ''/'' cs) = slash # joinc ''/'' cs"
  using path_comps_abs[of cs] by (simp add: clean_abs isAbs_iff)

lemma joinc_plain_nonempty: "list_all plain_comp cs \<Longrightarrow> cs \<noteq> [] \<Longrightarrow> joinc ''/'' cs \<noteq> []"
  by (cases cs rule: remdups_adj.cases) (auto simp: plain_comp_def)

end
