(* ===== verification/Config_File.thy ===== *)
theory Config_File
  imports Config_Types Plugin_Contract Go_Filepath "HOL-Library.List_Lexorder" "HOL-Library.Char_ord"
begin

text \<open>
  The config file as \<open>internal/config\<close> decodes it (one record per \<open>file...\<close> struct) and the
  validators of its leaves: names, Injection Templates, Upstreams, Presets, Backend Plugins,
  Secret Names and Policies. YAML decoding is third-party: \<open>node\<close> is what a \<open>yaml.Node\<close> that
  is decoded later holds. The parsers of \<open>net/url\<close>, \<open>net/netip\<close>, \<open>net\<close> and \<open>time\<close>, the file
  system, PEM certificates and Unicode case mapping outside ASCII are fields of \<open>golib\<close>;
  every theorem holds for all of them. An error is its format and arguments.
\<close>

section \<open>Errors\<close>

datatype config_error =
    Errorf string "string list"
  | Wrapf string "string list" config_error
  | ContractError contract_error
  | PrefixError prefix_error
  | LibError string

definition cerr :: "string \<Rightarrow> string list \<Rightarrow> (config_error, 'a) result" where
  "cerr f xs = Inl (Errorf f xs)"

text \<open>\<open>fmt.Errorf("...: %w", err)\<close> around what may fail.\<close>

fun ewrap :: "('e \<Rightarrow> config_error) \<Rightarrow> ('e, 'a) result \<Rightarrow> (config_error, 'a) result" where
  "ewrap g (Inl e) = Inl (g e)"
| "ewrap g (Inr x) = Inr x"

lemma ewrap_eq_Inr [simp]: "ewrap g r = Inr x \<longleftrightarrow> r = Inr x"
  by (cases r) auto

lemma cerr_not_Inr [simp]: "cerr f xs \<noteq> Inr y"
  by (simp add: cerr_def)

section \<open>The libraries the validators call\<close>

record URL =
  u_Scheme :: string
  u_Opaque :: string
  u_User :: bool
  u_Host :: string
  u_Path :: string
  u_RawPath :: string
  u_RawQuery :: string
  u_ForceQuery :: bool
  u_Fragment :: string
  u_EscapedPath :: string
  u_String :: string

record Addr =
  ip_v6 :: bool
  ip_bits :: nat
  ip_zone :: string

record AddrPort =
  ap_Addr :: Addr
  ap_Port :: nat

record golib =
  url_Parse :: "string \<Rightarrow> URL option"
  netip_ParseAddrPort :: "string \<Rightarrow> AddrPort option"
  netip_ParseAddr :: "string \<Rightarrow> Addr option"
  net_ParseIP :: "string \<Rightarrow> bool"
  AddrPort_String :: "AddrPort \<Rightarrow> string"
  time_ParseDuration :: "string \<Rightarrow> ns option"
  os_ReadFile :: "string \<Rightarrow> bytes option"
  pemCerts :: "bytes \<Rightarrow> bytes list"
  rune_ToUpper :: "nat \<Rightarrow> nat"
  rune_ToLower :: "nat \<Rightarrow> nat"
  rune_Fold :: "nat \<Rightarrow> nat"
  os_Getuid :: int

text \<open>\<open>strings.ToUpper\<close> and \<open>strings.ToLower\<close>.\<close>

definition go_ToUpper :: "golib \<Rightarrow> string \<Rightarrow> string" where
  "go_ToUpper G s = (if list_all (\<lambda>c. byte c < 0x80) s then toUpperASCII s
     else concat (map (\<lambda>(r, _). encode_rune (rune_ToUpper G r)) (runes s)))"

definition go_ToLower :: "golib \<Rightarrow> string \<Rightarrow> string" where
  "go_ToLower G s = (if list_all (\<lambda>c. byte c < 0x80) s then toLowerASCII s
     else concat (map (\<lambda>(r, _). encode_rune (rune_ToLower G r)) (runes s)))"

text \<open>\<open>netip.Addr\<close>'s methods.\<close>

definition Is4In6 :: "Addr \<Rightarrow> bool" where
  "Is4In6 a \<longleftrightarrow> ip_v6 a \<and> ip_bits a div 2 ^ 32 = 0xFFFF"

definition Unmap :: "Addr \<Rightarrow> Addr" where
  "Unmap a = (if Is4In6 a then \<lparr>ip_v6 = False, ip_bits = ip_bits a mod 2 ^ 32, ip_zone = []\<rparr> else a)"

definition IsUnspecified :: "Addr \<Rightarrow> bool" where
  "IsUnspecified a \<longleftrightarrow> ip_bits a = 0 \<and> ip_zone a = []"

definition IsLoopback :: "Addr \<Rightarrow> bool" where
  "IsLoopback a = (let b = Unmap a in if ip_v6 b then ip_bits b = 1 else ip_bits b div 2 ^ 24 = 127)"

definition IsMulticast :: "Addr \<Rightarrow> bool" where
  "IsMulticast a = (let b = Unmap a in if ip_v6 b then ip_bits b div 2 ^ 120 = 0xFF else ip_bits b div 2 ^ 28 = 0xE)"

definition resolve :: "string \<Rightarrow> string \<Rightarrow> string" where
  "resolve baseDir path = (if hasPrefix path ''/'' then path else filepath_Join [baseDir, path])"

definition LoadCABundle :: "golib \<Rightarrow> string \<Rightarrow> (config_error, CertPool) result" where
  "LoadCABundle G path = (case os_ReadFile G path of
      None \<Rightarrow> Inl (LibError path)
    | Some data \<Rightarrow> if pemCerts G data = [] then cerr ''%s holds no certificates'' [path] else Inr (pemCerts G data))"

section \<open>The file\<close>

datatype 'a node = Omitted | NullNode | Decoded "'a option"

record fileCourierKey =
  fck_Backend :: string
  fck_Location :: string

record fileCheckpoints =
  fcp_Records :: "int node"
  fcp_Interval :: string

record fileAudit =
  fau_SigningKey :: "fileCourierKey option"
  fau_Checkpoints :: fileCheckpoints

record fileEAB =
  feab_KeyID :: string
  feab_HMACKey :: "fileCourierKey option"

record fileDNS =
  fdns_Provider :: string
  fdns_Credentials :: "fileCourierKey option gomap"
  fdns_Zone :: string
  fdns_Endpoint :: string
  fdns_Authority :: string
  fdns_CABundle :: string
  fdns_Resolvers :: "string list"
  fdns_PropagationTimeout :: string
  fdns_TenantID :: string
  fdns_ClientID :: string
  fdns_SubscriptionID :: string
  fdns_ResourceGroup :: string
  fdns_Project :: string

record fileACME =
  facme_Directory :: string
  facme_Domains :: "string list"
  facme_Contact :: string
  facme_Challenge :: string
  facme_HTTPListen :: string
  facme_DNS :: "fileDNS option"
  facme_CABundle :: string
  facme_AccountKey :: "fileCourierKey option"
  facme_EAB :: "fileEAB option"

record fileAgentTLS =
  fat_Certificate :: "fileCourierKey option"
  fat_Key :: "fileCourierKey option"
  fat_ACME :: "fileACME option"

record fileAgentAPI =
  fapi_Listen :: string
  fapi_Socket :: string
  fapi_PublicURL :: string
  fapi_TLS :: "fileAgentTLS option"

record fileAdminTLS =
  fmt_Certificate :: "fileCourierKey option"
  fmt_Key :: "fileCourierKey option"
  fmt_ClientCA :: string

record fileAdmin =
  fadm_Socket :: string
  fadm_AllowedUIDs :: "int list option"
  fadm_Listen :: string
  fadm_TLS :: "fileAdminTLS option"

record fileHeaderTemplate =
  fht_Name :: string
  fht_Value :: string

record fileQueryTemplate =
  fqt_Name :: string

record fileBasicAuthTemplate =
  fba_Username :: string
  fba_Password :: string

record fileInjectionTemplate =
  fit_Header :: "fileHeaderTemplate option"
  fit_Query :: "fileQueryTemplate option"
  fit_BasicAuth :: "fileBasicAuthTemplate option"

record fileUpstream =
  fup_URL :: string
  fup_CABundle :: string

record fileSecretName =
  fsn_Backend :: string
  fsn_Location :: string
  fsn_CacheTTL :: string
  fsn_Preset :: string
  fsn_InjectionTemplate :: "fileInjectionTemplate option"
  fsn_Upstreams :: "fileUpstream gomap"

record fileBackendPlugin =
  fbp_Path :: string
  fbp_SHA256 :: string
  fbp_User :: string
  fbp_InsecureShareCoreUser :: bool
  fbp_Env :: "string gomap"

record fileSecretAccess =
  fsa_Name :: string
  fsa_Delivery :: "string list"
  fsa_Methods :: "string list node"
  fsa_Paths :: "string list node"

record filePolicy =
  fpol_Secrets :: "fileSecretAccess list"

record fileConfig =
  fc_DataDir :: string
  fc_Admin :: fileAdmin
  fc_AgentAPI :: fileAgentAPI
  fc_Policies :: "filePolicy gomap"
  fc_BackendPlugins :: "fileBackendPlugin gomap"
  fc_Secrets :: "fileSecretName gomap"
  fc_Audit :: fileAudit

text \<open>A stand-in for the libraries, for concrete instances.\<close>

definition example_golib :: golib where
  "example_golib = \<lparr>
     url_Parse = (\<lambda>s. Some \<lparr>u_Scheme = ''https'', u_Opaque = [], u_User = False, u_Host = ''h'', u_Path = [], u_RawPath = [],
       u_RawQuery = [], u_ForceQuery = False, u_Fragment = [], u_EscapedPath = ''/'', u_String = s\<rparr>),
     netip_ParseAddrPort = (\<lambda>s. if s = [] then None else Some \<lparr>ap_Addr = \<lparr>ip_v6 = False, ip_bits = 0x7F000001, ip_zone = []\<rparr>, ap_Port = 80\<rparr>),
     netip_ParseAddr = (\<lambda>_. None), net_ParseIP = (\<lambda>_. False), AddrPort_String = (\<lambda>_. []), time_ParseDuration = (\<lambda>_. Some 30000000000),
     os_ReadFile = (\<lambda>_. Some ''c''), pemCerts = (\<lambda>d. [d]), rune_ToUpper = id, rune_ToLower = id, rune_Fold = id, os_Getuid = 0\<rparr>"

end
