(* ===== verification/Config_Leaves.thy ===== *)
theory Config_Leaves
  imports Config_File
begin

text \<open>
  The validators of Injection Templates, Upstreams, Presets, Backend Plugins, Secret Names
  and Policies in \<open>internal/config/config.go\<close> and \<open>presets.go\<close>, and what a value that passed
  them is known to satisfy.
\<close>

section \<open>Patterns\<close>

definition isAlnum :: "char \<Rightarrow> bool" where
  "isAlnum c \<longleftrightarrow> (48 \<le> byte c \<and> byte c \<le> 57) \<or> (65 \<le> byte c \<and> byte c \<le> 90) \<or> (97 \<le> byte c \<and> byte c \<le> 122)"

definition namePattern :: "string \<Rightarrow> bool" where
  "namePattern s \<longleftrightarrow> s \<noteq> [] \<and> length s \<le> 64 \<and> isAlnum (hd s)
     \<and> list_all (\<lambda>c. isAlnum c \<or> c \<in> set ''._-'') (tl s)"

definition isHexDigit :: "char \<Rightarrow> bool" where
  "isHexDigit c \<longleftrightarrow> (48 \<le> byte c \<and> byte c \<le> 57) \<or> (65 \<le> byte c \<and> byte c \<le> 70) \<or> (97 \<le> byte c \<and> byte c \<le> 102)"

definition sha256Pattern :: "string \<Rightarrow> bool" where
  "sha256Pattern s \<longleftrightarrow> length s = 64 \<and> list_all isHexDigit s"

definition tchar :: "char \<Rightarrow> bool" where
  "tchar c \<longleftrightarrow> isAlnum c \<or> c \<in> set ''!#$%&*+.^_`|~-'' \<or> byte c = 39"

definition headerNamePattern :: "string \<Rightarrow> bool" where
  "headerNamePattern s \<longleftrightarrow> s \<noteq> [] \<and> list_all tchar s"

definition queryNamePattern :: "string \<Rightarrow> bool" where
  "queryNamePattern s \<longleftrightarrow> s \<noteq> [] \<and> length s \<le> 64 \<and> list_all (\<lambda>c. isAlnum c \<or> c \<in> set ''._~-'') s"

definition envNamePattern :: "string \<Rightarrow> bool" where
  "envNamePattern s \<longleftrightarrow> s \<noteq> [] \<and> length s \<le> 64 \<and> (65 \<le> byte (hd s) \<and> byte (hd s) \<le> 90 \<or> hd s = CHR ''_'')
     \<and> list_all (\<lambda>c. (65 \<le> byte c \<and> byte c \<le> 90) \<or> (48 \<le> byte c \<and> byte c \<le> 57) \<or> c = CHR ''_'') (tl s)"

text \<open>\<open>strings.Count\<close> of a non-empty substring.\<close>

fun count_occ :: "'a list \<Rightarrow> nat \<Rightarrow> 'a list \<Rightarrow> nat" where
  "count_occ sub k [] = 0"
| "count_occ sub (Suc k) (c # s) = count_occ sub k s"
| "count_occ sub 0 (c # s) = (if hasPrefix (c # s) sub then 1 + count_occ sub (length sub - 1) s else count_occ sub 0 s)"

definition strings_Count :: "'a list \<Rightarrow> 'a list \<Rightarrow> nat" where
  "strings_Count s sub = count_occ sub 0 s"

text \<open>\<open>http.CanonicalHeaderKey\<close> of a valid field name.\<close>

fun canonical_from :: "bool \<Rightarrow> string \<Rightarrow> string" where
  "canonical_from up [] = []"
| "canonical_from up (c # s) = (if up then toUpperASCII [c] else toLowerASCII [c]) @ canonical_from (c = CHR ''-'') s"

definition CanonicalHeaderKey :: "string \<Rightarrow> string" where
  "CanonicalHeaderKey s = canonical_from True s"

text \<open>Validating the entries of a map in name order.\<close>

definition validate_map :: "(string \<Rightarrow> 'a \<Rightarrow> (config_error, 'b) result) \<Rightarrow> 'a gomap \<Rightarrow> (config_error, 'b gomap) result" where
  "validate_map f m = emap (\<lambda>(k, v). ebind (f k v) (\<lambda>w. Inr (k, w))) (sort_key fst m)"

section \<open>Injection Templates\<close>

definition SecretPlaceholder :: string where
  "SecretPlaceholder = ''{secret}''"

definition reservedHeaders :: "string list" where
  "reservedHeaders = [''Connection'', ''Content-Length'', ''Host'', ''Keep-Alive'', ''Proxy-Authenticate'',
     ''Proxy-Authorization'', ''Proxy-Connection'', ''Te'', ''Trailer'', ''Transfer-Encoding'', ''Upgrade'', ''X-Tc-Agent-Token'']"

definition fileHeaderTemplate_validate :: "fileHeaderTemplate \<Rightarrow> (config_error, HeaderTemplate) result" where
  "fileHeaderTemplate_validate h = (
     let name = CanonicalHeaderKey (fht_Name h) in
     if \<not> headerNamePattern (fht_Name h) then cerr ''invalid header name %q'' [fht_Name h]
     else if name \<in> set reservedHeaders then cerr ''header %q is reserved'' [fht_Name h]
     else if strings_Count (fht_Value h) SecretPlaceholder \<noteq> 1 then cerr ''header value must contain the placeholder once'' []
     else if hasControl (fht_Value h) then cerr ''header value contains a control character'' []
     else (let (prefix, suffix, _) = cut (fht_Value h) SecretPlaceholder
           in Inr \<lparr>ht_Name = name, ht_Prefix = prefix, ht_Suffix = suffix\<rparr>))"

definition fileQueryTemplate_validate :: "fileQueryTemplate \<Rightarrow> (config_error, QueryTemplate) result" where
  "fileQueryTemplate_validate q = (
     if \<not> queryNamePattern (fqt_Name q) then cerr ''invalid query parameter name %q'' [fqt_Name q]
     else Inr \<lparr>qt_Name = fqt_Name q\<rparr>)"

definition fileBasicAuthTemplate_validate :: "fileBasicAuthTemplate \<Rightarrow> (config_error, BasicAuthTemplate) result" where
  "fileBasicAuthTemplate_validate b = (
     if strings_Count (fba_Username b @ [CHR 0x00] @ fba_Password b) SecretPlaceholder \<noteq> 1
     then cerr ''basic_auth must contain the placeholder once'' []
     else ebind (
       if fba_Username b = SecretPlaceholder
         then Inr \<lparr>ba_Username = [], ba_Password = fba_Password b, ba_SecretIsUsername = True\<rparr>
       else if fba_Password b = SecretPlaceholder
         then Inr \<lparr>ba_Username = fba_Username b, ba_Password = [], ba_SecretIsUsername = False\<rparr>
       else cerr ''basic_auth: the placeholder must be the whole username or password'' [])
     (\<lambda>out.
       if contains (ba_Username out) '':'' then cerr ''basic_auth username must not contain a colon'' []
       else if hasControl (ba_Username out) \<or> hasControl (ba_Password out) then cerr ''basic_auth contains a control character'' []
       else Inr out))"

definition fileInjectionTemplate_validate :: "fileInjectionTemplate \<Rightarrow> (config_error, InjectionTemplate) result" where
  "fileInjectionTemplate_validate t = (
     let set = length (filter (\<lambda>k. k) [fit_Header t \<noteq> None, fit_Query t \<noteq> None, fit_BasicAuth t \<noteq> None]) in
     if set = 0 then cerr ''set one of header, query, basic_auth'' []
     else if 1 < set then cerr ''set only one of header, query, basic_auth'' []
     else (case fit_Query t of
        Some q \<Rightarrow> ebind (fileQueryTemplate_validate q) (\<lambda>q. Inr (QueryT q))
      | None \<Rightarrow> (case fit_BasicAuth t of
          Some b \<Rightarrow> ebind (fileBasicAuthTemplate_validate b) (\<lambda>b. Inr (BasicAuthT b))
        | None \<Rightarrow> (case fit_Header t of
            Some h \<Rightarrow> ebind (fileHeaderTemplate_validate h) (\<lambda>h. Inr (HeaderT h))
          | None \<Rightarrow> cerr ''set one of header, query, basic_auth'' []))))"

section \<open>Upstreams\<close>

text \<open>\<open>strings.TrimRight(s, "/")\<close>.\<close>

definition trimRightSlash :: "string \<Rightarrow> string" where
  "trimRightSlash s = rev (dropWhile (\<lambda>c. c = CHR ''/'') (rev s))"

definition fileUpstream_validate :: "golib \<Rightarrow> string \<Rightarrow> string \<Rightarrow> fileUpstream \<Rightarrow> (config_error, Upstream) result" where
  "fileUpstream_validate G baseDir name u = (
     if \<not> namePattern name then cerr ''invalid Upstream name %q'' [name]
     else if fup_URL u = [] then cerr ''Upstream %q: url is required'' [name]
     else (case url_Parse G (fup_URL u) of
        None \<Rightarrow> Inl (Wrapf ''Upstream %q: %w'' [name] (LibError (fup_URL u)))
      | Some p \<Rightarrow>
          if u_Scheme p \<noteq> ''https'' then cerr ''Upstream %q: url must use https'' [name]
          else if u_User p then cerr ''Upstream %q: url must not contain user information'' [name]
          else if u_Host p = [] \<or> u_Opaque p \<noteq> [] then cerr ''Upstream %q: url needs a host'' [name]
          else if u_RawQuery p \<noteq> [] \<or> u_ForceQuery p then cerr ''Upstream %q: url must not contain a query'' [name]
          else if u_Fragment p \<noteq> [] then cerr ''Upstream %q: url must not contain a fragment'' [name]
          else (let out = \<lparr>up_Name = name, up_Scheme = u_Scheme p, up_Host = u_Host p,
                           up_BasePath = trimRightSlash (u_EscapedPath p), up_RootCAs = None\<rparr>
            in if fup_CABundle u \<noteq> []
               then ebind (ewrap (Wrapf ''Upstream %q: ca_bundle: %w'' [name]) (LoadCABundle G (resolve baseDir (fup_CABundle u))))
                      (\<lambda>pool. Inr (out\<lparr>up_RootCAs := Some pool\<rparr>))
               else Inr out)))"

definition validateUpstreams :: "golib \<Rightarrow> string \<Rightarrow> fileUpstream gomap \<Rightarrow> (config_error, Upstream gomap) result" where
  "validateUpstreams G baseDir raw = validate_map (fileUpstream_validate G baseDir) raw"

section \<open>Presets and environment variables\<close>

record filePreset =
  fpr_InjectionTemplate :: "fileInjectionTemplate option"
  fpr_Upstreams :: "fileUpstream gomap"
  fpr_Env :: "string gomap"

record preset =
  pr_template :: InjectionTemplate
  pr_upstreams :: "Upstream gomap"
  pr_env :: "EnvVar list"

definition env_source :: "string \<Rightarrow> EnvSource option" where
  "env_source s = (
     if s = ''base_url'' then Some EnvBaseURL else if s = ''username'' then Some EnvUsername
     else if s = ''password'' then Some EnvPassword else if s = ''agent_token'' then Some EnvAgentToken else None)"

definition envSources :: "EnvSource list" where
  "envSources = [EnvBaseURL, EnvUsername, EnvPassword, EnvAgentToken]"

fun source_index :: "EnvSource \<Rightarrow> nat" where
  "source_index EnvBaseURL = 0" | "source_index EnvUsername = 1"
| "source_index EnvPassword = 2" | "source_index EnvAgentToken = 3"

definition sortEnv :: "EnvVar list \<Rightarrow> EnvVar list" where
  "sortEnv env = sort_key (\<lambda>v. source_index (ev_Source v)) env"

definition env_allowed :: "InjectionTemplate \<Rightarrow> EnvSource \<Rightarrow> bool" where
  "env_allowed t s = (case s of
      EnvBaseURL \<Rightarrow> True
    | EnvAgentToken \<Rightarrow> True
    | EnvUsername \<Rightarrow> (case t of BasicAuthT b \<Rightarrow> \<not> ba_SecretIsUsername b | _ \<Rightarrow> False)
    | EnvPassword \<Rightarrow> (case t of BasicAuthT b \<Rightarrow> ba_SecretIsUsername b | _ \<Rightarrow> False))"

fun env_loop :: "InjectionTemplate \<Rightarrow> string gomap \<Rightarrow> EnvVar list \<Rightarrow> (config_error, EnvVar list) result" where
  "env_loop t [] out = Inr out"
| "env_loop t ((name, source) # env) out = (
     if \<not> envNamePattern name then cerr ''invalid variable name %q'' [name]
     else (case env_source source of
        None \<Rightarrow> cerr ''%s: unknown source %q'' [name, source]
      | Some src \<Rightarrow>
          if \<not> env_allowed t src then cerr ''%s: the Injection Template has no literal %s'' [name, source]
          else if src \<in> ev_Source ` set out then cerr ''%s: %s is named twice'' [name, source]
          else env_loop t env (out @ [\<lparr>ev_Name = name, ev_Source = src\<rparr>])))"

definition validateEnv :: "string gomap \<Rightarrow> InjectionTemplate \<Rightarrow> (config_error, EnvVar list) result" where
  "validateEnv env t = ebind (env_loop t (sort_key fst env) []) (\<lambda>out.
     if EnvBaseURL \<notin> ev_Source ` set out then cerr ''no variable holds %s'' [''base_url'']
     else if EnvAgentToken \<notin> ev_Source ` set out then cerr ''no variable holds %s'' [''agent_token'']
     else Inr (sortEnv out))"

definition filePreset_validate :: "golib \<Rightarrow> filePreset \<Rightarrow> (config_error, preset) result" where
  "filePreset_validate G p = (case fpr_InjectionTemplate p of
      None \<Rightarrow> cerr ''injection_template is required'' []
    | Some it \<Rightarrow>
        if fpr_Upstreams p = [] then cerr ''upstreams is required'' []
        else ebind (ewrap (Wrapf ''injection_template: %w'' []) (fileInjectionTemplate_validate it)) (\<lambda>tmpl.
          case find (\<lambda>(_, up). fup_CABundle up \<noteq> []) (fpr_Upstreams p) of
            Some (name, _) \<Rightarrow> cerr ''Upstream %q: a Preset cannot set ca_bundle'' [name]
          | None \<Rightarrow> ebind (validateUpstreams G [] (fpr_Upstreams p)) (\<lambda>ups.
              ebind (ewrap (Wrapf ''env: %w'' []) (validateEnv (fpr_Env p) tmpl)) (\<lambda>env.
                Inr \<lparr>pr_template = tmpl, pr_upstreams = ups, pr_env = env\<rparr>))))"

definition parsePresets :: "golib \<Rightarrow> filePreset gomap \<Rightarrow> (config_error, preset gomap) result" where
  "parsePresets G raw = validate_map (\<lambda>name p.
     ewrap (Wrapf ''preset %q: %w'' [name])
       (if \<not> namePattern name then cerr ''invalid name'' [] else filePreset_validate G p)) raw"

text \<open>\<open>presets.yaml\<close>, decoded.\<close>

definition header_preset :: "string \<Rightarrow> string \<Rightarrow> string \<Rightarrow> string gomap \<Rightarrow> filePreset" where
  "header_preset header value url env = \<lparr>
     fpr_InjectionTemplate = Some \<lparr>fit_Header = Some \<lparr>fht_Name = header, fht_Value = value\<rparr>, fit_Query = None, fit_BasicAuth = None\<rparr>,
     fpr_Upstreams = [(''api'', \<lparr>fup_URL = url, fup_CABundle = []\<rparr>)], fpr_Env = env\<rparr>"

definition presetsYAML :: "filePreset gomap" where
  "presetsYAML = [
     (''anthropic'', header_preset ''X-Api-Key'' ''{secret}'' ''https://api.anthropic.com''
        [(''ANTHROPIC_BASE_URL'', ''base_url''), (''ANTHROPIC_API_KEY'', ''agent_token'')]),
     (''github'', header_preset ''Authorization'' ''token {secret}'' ''https://api.github.com''
        [(''GITHUB_API_URL'', ''base_url''), (''GITHUB_TOKEN'', ''agent_token'')]),
     (''openai'', header_preset ''Authorization'' ''Bearer {secret}'' ''https://api.openai.com/v1''
        [(''OPENAI_BASE_URL'', ''base_url''), (''OPENAI_API_KEY'', ''agent_token'')])]"

definition builtinPresets :: "golib \<Rightarrow> (config_error, preset gomap) result" where
  "builtinPresets G = ewrap (Wrapf ''built-in presets: %w'' []) (parsePresets G presetsYAML)"

definition env_rune :: "nat \<Rightarrow> char" where
  "env_rune r = (if 97 \<le> r \<and> r \<le> 122 then char_of (r - 32)
     else if (65 \<le> r \<and> r \<le> 90) \<or> (48 \<le> r \<and> r \<le> 57) then char_of r else CHR ''_'')"

definition defaultEnv :: "string \<Rightarrow> InjectionTemplate \<Rightarrow> EnvVar list" where
  "defaultEnv secretName t = (
     let p0 = map (\<lambda>(r, _). env_rune r) (runes secretName);
         prefix = (if 48 \<le> byte (hd p0) \<and> byte (hd p0) \<le> 57 then ''_'' @ p0 else p0);
         var = (\<lambda>suffix src. \<lparr>ev_Name = prefix @ suffix, ev_Source = src\<rparr>)
     in sortEnv ([var ''_BASE_URL'' EnvBaseURL] @ (case t of
          BasicAuthT b \<Rightarrow>
            if ba_SecretIsUsername b
            then [var ''_USERNAME'' EnvAgentToken] @ (if ba_Password b \<noteq> [] then [var ''_PASSWORD'' EnvPassword] else [])
            else (if ba_Username b \<noteq> [] then [var ''_USERNAME'' EnvUsername] else []) @ [var ''_PASSWORD'' EnvAgentToken]
        | _ \<Rightarrow> [var ''_API_KEY'' EnvAgentToken])))"

section \<open>Backend Plugins\<close>

definition fileBackendPlugin_validateEnv :: "string \<Rightarrow> string gomap \<Rightarrow> (config_error, string list) result" where
  "fileBackendPlugin_validateEnv name env = emap (\<lambda>(k, v).
     ebind (ewrap (\<lambda>e. Wrapf ''Backend Plugin %q: %w'' [name] (ContractError e)) (Env k v)) (\<lambda>_. Inr (k @ ''='' @ v)))
     (sort_key fst env)"

definition fileBackendPlugin_validate :: "golib \<Rightarrow> string \<Rightarrow> string \<Rightarrow> fileBackendPlugin \<Rightarrow> (config_error, BackendPlugin) result" where
  "fileBackendPlugin_validate G baseDir name p = (
     if \<not> namePattern name then cerr ''invalid Backend Plugin name %q'' [name]
     else if fbp_Path p = [] then cerr ''Backend Plugin %q: path is required'' [name]
     else if fbp_SHA256 p = [] then cerr ''Backend Plugin %q: sha256 is required'' [name]
     else if \<not> sha256Pattern (fbp_SHA256 p) then cerr ''Backend Plugin %q: sha256 must be 64 hexadecimal digits'' [name]
     else if fbp_User p = [] \<and> \<not> fbp_InsecureShareCoreUser p then cerr ''Backend Plugin %q: user is required'' [name]
     else if fbp_User p \<noteq> [] \<and> fbp_InsecureShareCoreUser p then cerr ''Backend Plugin %q: set user or insecure_share_core_user, not both'' [name]
     else ebind (fileBackendPlugin_validateEnv name (fbp_Env p)) (\<lambda>env.
       Inr \<lparr>bp_Name = name, bp_Path = resolve baseDir (fbp_Path p), bp_SHA256 = go_ToLower G (fbp_SHA256 p),
            bp_User = fbp_User p, bp_InsecureShareCoreUser = fbp_InsecureShareCoreUser p, bp_Env = env\<rparr>))"

section \<open>Secret Names\<close>

abbreviation second :: ns where "second \<equiv> 1000000000"

definition MaxCacheTTL :: ns where
  "MaxCacheTTL = 3600 * second"

definition validate_cacheTTL :: "golib \<Rightarrow> string \<Rightarrow> string \<Rightarrow> (config_error, ns) result" where
  "validate_cacheTTL G name ttl = (
     if ttl = [] then Inr 0
     else (case time_ParseDuration G ttl of
        None \<Rightarrow> cerr ''Secret Name %q: cache_ttl %q is not a duration'' [name, ttl]
      | Some d \<Rightarrow> if d < second \<or> MaxCacheTTL < d then cerr ''Secret Name %q: cache_ttl %q must be from 1s to 1h'' [name, ttl] else Inr d))"

text \<open>The two ways a Secret Name gets its Upstreams: a Preset, or its own Injection Template.\<close>

definition secret_preset :: "golib \<Rightarrow> string \<Rightarrow> string \<Rightarrow> fileSecretName \<Rightarrow> SecretName \<Rightarrow> (config_error, SecretName) result" where
  "secret_preset G baseDir name s out = ebind (builtinPresets G) (\<lambda>presets.
     case map_of presets (fsn_Preset s) of
       None \<Rightarrow> cerr ''Secret Name %q: unknown preset %q'' [name, fsn_Preset s]
     | Some p \<Rightarrow>
         if fsn_InjectionTemplate s \<noteq> None then cerr ''Secret Name %q: set preset or injection_template, not both'' [name]
         else (let out1 = out\<lparr>sn_Preset := fsn_Preset s, sn_InjectionTemplate := Some (pr_template p),
                              sn_Upstreams := pr_upstreams p, sn_Env := pr_env p\<rparr>
           in if fsn_Upstreams s \<noteq> []
              then ebind (ewrap (Wrapf ''Secret Name %q: %w'' [name]) (validateUpstreams G baseDir (fsn_Upstreams s)))
                     (\<lambda>ups. Inr (out1\<lparr>sn_Upstreams := ups\<rparr>))
              else Inr out1))"

definition secret_template :: "golib \<Rightarrow> string \<Rightarrow> string \<Rightarrow> fileSecretName \<Rightarrow> SecretName \<Rightarrow> (config_error, SecretName) result" where
  "secret_template G baseDir name s out = (case fsn_InjectionTemplate s of
      None \<Rightarrow> if fsn_Upstreams s = [] then Inr out
              else cerr ''Secret Name %q: injection_template is required with upstreams'' [name]
    | Some it \<Rightarrow>
        if fsn_Upstreams s = [] then cerr ''Secret Name %q: injection_template needs upstreams'' [name]
        else ebind (ewrap (Wrapf ''Secret Name %q: injection_template: %w'' [name]) (fileInjectionTemplate_validate it)) (\<lambda>tmpl.
          ebind (ewrap (Wrapf ''Secret Name %q: %w'' [name]) (validateUpstreams G baseDir (fsn_Upstreams s))) (\<lambda>ups.
            Inr (out\<lparr>sn_InjectionTemplate := Some tmpl, sn_Upstreams := ups, sn_Env := defaultEnv name tmpl\<rparr>))))"

definition fileSecretName_validate :: "golib \<Rightarrow> string \<Rightarrow> BackendPlugin gomap \<Rightarrow> string \<Rightarrow> fileSecretName \<Rightarrow> (config_error, SecretName) result" where
  "fileSecretName_validate G baseDir plugins name s = (
     if \<not> namePattern name then cerr ''invalid Secret Name %q'' [name]
     else if fsn_Backend s = [] then cerr ''Secret Name %q: backend is required'' [name]
     else if fsn_Location s = [] then cerr ''Secret Name %q: location is required'' [name]
     else ebind (ewrap (\<lambda>e. Wrapf ''Secret Name %q: %w'' [name] (ContractError e)) (Location (fsn_Location s))) (\<lambda>_.
       if map_of plugins (fsn_Backend s) = None then cerr ''Secret Name %q: unknown backend %q'' [name, fsn_Backend s]
       else ebind (validate_cacheTTL G name (fsn_CacheTTL s)) (\<lambda>ttl.
         let out = \<lparr>sn_Name = name, sn_Backend = fsn_Backend s, sn_Location = fsn_Location s, sn_CacheTTL = ttl,
                    sn_InjectionTemplate = None, sn_Upstreams = [], sn_Preset = [], sn_Env = []\<rparr>
         in if fsn_Preset s \<noteq> [] then secret_preset G baseDir name s out else secret_template G baseDir name s out)))"

section \<open>Policies\<close>

definition ProxyMethods :: "string list" where
  "ProxyMethods = [''GET'', ''HEAD'', ''POST'', ''PUT'', ''PATCH'', ''DELETE'', ''OPTIONS'']"

definition delivery_mode :: "string \<Rightarrow> DeliveryMode option" where
  "delivery_mode m = (if m = ''proxy'' then Some DeliveryProxy else if m = ''reveal'' then Some DeliveryReveal else None)"

text \<open>Appending what is not there yet, and the loops over modes and methods.\<close>

definition append_new :: "'a list \<Rightarrow> 'a \<Rightarrow> 'a list" where
  "append_new xs x = (if x \<in> set xs then xs else xs @ [x])"

fun modes_loop :: "string \<Rightarrow> string \<Rightarrow> string list \<Rightarrow> DeliveryMode list \<Rightarrow> (config_error, DeliveryMode list) result" where
  "modes_loop pol name [] out = Inr out"
| "modes_loop pol name (m # ms) out = (case delivery_mode m of
      None \<Rightarrow> cerr ''Policy %q: Secret Name %q: unknown Delivery mode %q'' [pol, name, m]
    | Some d \<Rightarrow> modes_loop pol name ms (append_new out d))"

fun methods_loop :: "golib \<Rightarrow> string list \<Rightarrow> string list \<Rightarrow> (config_error, string list) result" where
  "methods_loop G [] out = Inr out"
| "methods_loop G (m # ms) out = (
     if go_ToUpper G m \<notin> set ProxyMethods then cerr ''unknown method %q'' [m]
     else methods_loop G ms (append_new out (go_ToUpper G m)))"

definition limitList :: "string list node \<Rightarrow> string \<Rightarrow> (config_error, string list option) result" where
  "limitList n key = (case n of
      Omitted \<Rightarrow> Inr None
    | NullNode \<Rightarrow> cerr ''%s is empty'' [key]
    | Decoded None \<Rightarrow> Inl (Wrapf ''%s must be a list: %w'' [key] (LibError key))
    | Decoded (Some xs) \<Rightarrow> if xs = [] then cerr ''%s is empty'' [key] else Inr (Some xs))"

definition validateLimits :: "golib \<Rightarrow> fileSecretAccess \<Rightarrow> SecretAccess \<Rightarrow> (config_error, SecretAccess) result" where
  "validateLimits G s access = ebind (limitList (fsa_Methods s) ''methods'') (\<lambda>methods.
     ebind (limitList (fsa_Paths s) ''paths'') (\<lambda>paths.
       if methods = None \<and> paths = None then Inr access
       else if DeliveryProxy \<notin> set (sa_Delivery access) then cerr ''methods and paths limit Proxy Delivery, which the entry does not allow'' []
       else ebind (case methods of None \<Rightarrow> Inr None | Some ms \<Rightarrow> ebind (methods_loop G ms []) (\<lambda>out. Inr (Some out))) (\<lambda>ms.
         ebind (case paths of
             None \<Rightarrow> Inr None
           | Some ps \<Rightarrow> ebind (emap (\<lambda>p. ewrap (\<lambda>e. Wrapf ''path %q: %w'' [p] (PrefixError e)) (ParsePathPrefix p)) ps) (\<lambda>out. Inr (Some out)))
         (\<lambda>ps. Inr (access\<lparr>sa_Methods := ms, sa_Paths := ps\<rparr>)))))"

fun policy_loop :: "golib \<Rightarrow> string \<Rightarrow> fileSecretAccess list \<Rightarrow> SecretAccess list \<Rightarrow> (config_error, SecretAccess list) result" where
  "policy_loop G name [] out = Inr out"
| "policy_loop G name (s # ss) out = (
     if fsa_Name s = [] then cerr ''Policy %q: Secret Name is required'' [name]
     else if \<not> namePattern (fsa_Name s) then cerr ''Policy %q: invalid Secret Name %q'' [name, fsa_Name s]
     else if fsa_Name s \<in> sa_SecretName ` set out then cerr ''Policy %q lists Secret Name %q more than once'' [name, fsa_Name s]
     else if fsa_Delivery s = [] then cerr ''Policy %q: Secret Name %q needs at least one Delivery mode'' [name, fsa_Name s]
     else ebind (modes_loop name (fsa_Name s) (fsa_Delivery s) []) (\<lambda>modes.
       ebind (ewrap (Wrapf ''Policy %q: Secret Name %q: %w'' [name, fsa_Name s])
           (validateLimits G s \<lparr>sa_SecretName = fsa_Name s, sa_Delivery = modes, sa_Methods = None, sa_Paths = None\<rparr>)) (\<lambda>access.
         policy_loop G name ss (out @ [access]))))"

definition filePolicy_validate :: "golib \<Rightarrow> string \<Rightarrow> filePolicy \<Rightarrow> (config_error, Policy) result" where
  "filePolicy_validate G name p = (
     if \<not> namePattern name then cerr ''invalid Policy name %q'' [name]
     else if fpol_Secrets p = [] then cerr ''Policy %q lists no Secret Names'' [name]
     else ebind (policy_loop G name (fpol_Secrets p) []) (\<lambda>secrets. Inr \<lparr>pol_Name = name, pol_Secrets = secrets\<rparr>))"

end
