(* ===== verification/Config_Validate.thy ===== *)
theory Config_Validate
  imports Config_Leaves
begin

text \<open>
  The rest of \<open>internal/config\<close>: Courier Keys, the listeners, ACME and its DNS providers,
  the audit settings, the whole file, \<open>Load\<close>, and \<open>running.go\<close>'s \<open>Reload\<close>. Each part is
  validated against the \<open>Config\<close> built so far, in the order of \<open>fileConfig.validate\<close>.
\<close>

section \<open>Courier Keys\<close>

definition validateCourierKey :: "fileCourierKey option \<Rightarrow> string \<Rightarrow> string \<Rightarrow> Config \<Rightarrow> (config_error, CourierKey) result" where
  "validateCourierKey k configKey what cfg = (case k of
      None \<Rightarrow> cerr ''%s: backend is required'' [configKey]
    | Some k \<Rightarrow>
        if fck_Backend k = [] then cerr ''%s: backend is required'' [configKey]
        else if fck_Location k = [] then cerr ''%s: location is required'' [configKey]
        else ebind (ewrap (\<lambda>e. Wrapf ''%s: %w'' [configKey] (ContractError e)) (Location (fck_Location k))) (\<lambda>_.
          if map_of (cfg_BackendPlugins cfg) (fck_Backend k) = None then cerr ''%s: unknown backend %q'' [configKey, fck_Backend k]
          else (case find (\<lambda>(n, s). sn_Backend s = fck_Backend k \<and> sn_Location s = fck_Location k) (sort_key fst (cfg_Secrets cfg)) of
              Some (n, _) \<Rightarrow> cerr ''Secret Name %q maps to the location of %s; a Courier Key is never delivered to Agents'' [n, what]
            | None \<Rightarrow> Inr \<lparr>ck_Backend = fck_Backend k, ck_Location = fck_Location k\<rparr>)))"

section \<open>Addresses and names\<close>

definition sameBind :: "golib \<Rightarrow> string \<Rightarrow> string \<Rightarrow> bool" where
  "sameBind G a b = (case (netip_ParseAddrPort G a, netip_ParseAddrPort G b) of
      (Some x, Some y) \<Rightarrow> ap_Port x = ap_Port y \<and> ap_Port x \<noteq> 0
        \<and> (IsUnspecified (ap_Addr x) \<or> IsUnspecified (ap_Addr y) \<or> Unmap (ap_Addr x) = Unmap (ap_Addr y))
    | _ \<Rightarrow> a = b)"

definition domain_char :: "char \<Rightarrow> bool" where
  "domain_char c \<longleftrightarrow> (97 \<le> byte c \<and> byte c \<le> 122) \<or> (48 \<le> byte c \<and> byte c \<le> 57)"

definition domain_label :: "string \<Rightarrow> bool" where
  "domain_label l \<longleftrightarrow> l \<noteq> [] \<and> length l \<le> 63 \<and> domain_char (hd l) \<and> domain_char (last l)
     \<and> list_all (\<lambda>c. domain_char c \<or> c = CHR ''-'') l"

definition domainPattern :: "string \<Rightarrow> bool" where
  "domainPattern s \<longleftrightarrow> list_all domain_label (splitc (CHR ''.'') s)"

text \<open>\<open>url.URL\<close>'s \<open>Hostname\<close> and \<open>Port\<close>.\<close>

definition validOptionalPort :: "string \<Rightarrow> bool" where
  "validOptionalPort p \<longleftrightarrow> p = [] \<or> (hd p = CHR '':'' \<and> list_all isDigit (tl p))"

definition splitHostPort :: "string \<Rightarrow> string \<times> string" where
  "splitHostPort hp = (
     let tail = rev (takeWhile (\<lambda>c. c \<noteq> CHR '':'') (rev hp)); i = length hp - length tail;
         (host, port) = (if contains hp '':'' \<and> validOptionalPort ('':'' @ tail) then (take (i - 1) hp, tail) else (hp, []))
     in (if hasPrefix host ''['' \<and> hasSuffix host '']'' then take (length host - 2) (drop 1 host) else host, port))"

definition validateAgentPublicURL :: "golib \<Rightarrow> string \<Rightarrow> (config_error, string) result" where
  "validateAgentPublicURL G raw = (case url_Parse G raw of
      None \<Rightarrow> cerr ''public_url must be an absolute http or https URL with a host'' []
    | Some u \<Rightarrow>
        if u_Opaque u \<noteq> [] \<or> u_Host u = [] \<or> (u_Scheme u \<noteq> ''https'' \<and> u_Scheme u \<noteq> ''http'')
          then cerr ''public_url must be an absolute http or https URL with a host'' []
        else if u_User u then cerr ''public_url must not contain credentials'' []
        else if (u_Path u \<noteq> [] \<and> u_Path u \<noteq> ''/'') \<or> u_RawPath u \<noteq> [] \<or> u_RawQuery u \<noteq> [] \<or> u_ForceQuery u \<or> contains raw ''#''
          then cerr ''public_url must be an origin without a path, query, or fragment'' []
        else (let (host, port) = splitHostPort (u_Host u); addr = netip_ParseAddr G host in
          if (case addr of
                Some a \<Rightarrow> ip_zone a \<noteq> [] \<or> IsUnspecified (Unmap a) \<or> IsMulticast a
              | None \<Rightarrow> False)
            then cerr ''public_url must name a reachable host'' []
          else if addr = None \<and> (contains (u_Host u) ''['' \<or> contains (u_Host u) '']''
              \<or> \<not> domainPattern (go_ToLower G (trimSuffix host ''.'')) \<or> 253 < length host)
            then cerr ''public_url must name a valid DNS host or IP address'' []
          else if (case addr of Some a \<Rightarrow> ip_v6 a \<noteq> hasPrefix (u_Host u) ''['' | None \<Rightarrow> False)
            then cerr ''public_url must bracket only IPv6 addresses'' []
          else if port \<noteq> [] \<and> (undecimal port < 1 \<or> 65535 < undecimal port)
            then cerr ''public_url port must be from 1 to 65535'' []
          else if port = [] \<and> hasSuffix (u_Host u) '':'' then cerr ''public_url must not contain an empty port'' []
          else if u_Scheme u = ''http'' \<and> (case addr of None \<Rightarrow> True | Some a \<Rightarrow> \<not> IsLoopback (Unmap a))
            then cerr ''public_url requires https except for literal loopback IP addresses'' []
          else Inr (trimSuffix (u_String u) ''/'')))"

section \<open>The remote admin listener\<close>

definition validateListener :: "golib \<Rightarrow> string \<Rightarrow> fileAdmin \<Rightarrow> Config \<Rightarrow> (config_error, Config) result" where
  "validateListener G baseDir a cfg = (case fadm_TLS a of
      None \<Rightarrow> if fadm_Listen a = [] then Inr cfg else cerr ''admin.listen %q is a network listener, so admin.tls is required'' [fadm_Listen a]
    | Some t \<Rightarrow>
        if fadm_Listen a = [] then cerr ''admin.tls needs admin.listen'' []
        else if netip_ParseAddrPort G (fadm_Listen a) = None then cerr ''admin.listen %q must be an IP address and port'' [fadm_Listen a]
        else ebind (validateCourierKey (fmt_Certificate t) ''admin.tls.certificate'' ''the remote admin listener's TLS certificate'' cfg) (\<lambda>cert.
          ebind (validateCourierKey (fmt_Key t) ''admin.tls.key'' ''the remote admin listener's TLS key'' cfg) (\<lambda>key.
            if cert = key then cerr ''admin.tls.certificate and admin.tls.key name the same location'' []
            else if fmt_ClientCA t = [] then cerr ''admin.tls.client_ca is required'' []
            else ebind (ewrap (Wrapf ''admin.tls.client_ca: %w'' []) (LoadCABundle G (resolve baseDir (fmt_ClientCA t)))) (\<lambda>pool.
              Inr (cfg\<lparr>cfg_Admin := (cfg_Admin cfg)\<lparr>admin_Listen := fadm_Listen a,
                admin_TLS := Some \<lparr>mtls_Certificate = cert, mtls_Key = key, mtls_ClientCA = resolve baseDir (fmt_ClientCA t),
                                   mtls_ClientCAs = pool\<rparr>\<rparr>\<rparr>)))))"

section \<open>DNS providers\<close>

definition DNSProviders :: "(string list) gomap" where
  "DNSProviders = [(''cloudflare'', [''api_token'']), (''route53'', [''access_key_id'', ''secret_access_key'']),
     (''azure'', [''client_secret'']), (''google'', [''service_account_key''])]"

definition dnsProviderSettings :: "(bool gomap) gomap" where
  "dnsProviderSettings = [(''cloudflare'', []), (''route53'', []),
     (''azure'', [(''tenant_id'', True), (''client_id'', True), (''subscription_id'', True), (''resource_group'', True), (''authority'', False)]),
     (''google'', [(''project'', False)])]"

definition DefaultDNSPropagationTimeout :: ns where
  "DefaultDNSPropagationTimeout = 120 * second"

definition dns_zone :: "golib \<Rightarrow> string \<Rightarrow> string list \<Rightarrow> (config_error, string) result" where
  "dns_zone G z domains = (
     if z = [] then Inr []
     else (let zone = go_ToLower G (trimSuffix z ''.'') in
       if \<not> domainPattern zone \<or> \<not> contains zone ''.'' then cerr ''dns.zone %q is not a DNS zone name'' [z]
       else (case find (\<lambda>d. trimPrefix d ''*.'' \<noteq> zone \<and> \<not> hasSuffix (trimPrefix d ''*.'') (''.'' @ zone)) domains of
          Some d \<Rightarrow> cerr ''dns.zone %q does not hold %s'' [z, d]
        | None \<Rightarrow> Inr zone)))"

definition dns_url :: "golib \<Rightarrow> string \<Rightarrow> string \<Rightarrow> (config_error, unit) result" where
  "dns_url G key v = (
     if v = [] then Inr ()
     else (case url_Parse G v of
        None \<Rightarrow> cerr ''dns.%s %q must be an https URL'' [key, v]
      | Some u \<Rightarrow> if u_Scheme u \<noteq> ''https'' \<or> u_Host u = [] \<or> u_RawQuery u \<noteq> [] \<or> u_Fragment u \<noteq> [] \<or> u_User u
                  then cerr ''dns.%s %q must be an https URL'' [key, v] else Inr ()))"

definition dns_resolver :: "golib \<Rightarrow> string \<Rightarrow> (config_error, string) result" where
  "dns_resolver G r = (case netip_ParseAddrPort G r of
      Some ap \<Rightarrow> Inr (AddrPort_String G ap)
    | None \<Rightarrow> (case netip_ParseAddr G r of
        None \<Rightarrow> cerr ''dns.resolvers: %q must be an IP address with an optional port'' [r]
      | Some a \<Rightarrow> Inr (AddrPort_String G \<lparr>ap_Addr = a, ap_Port = 53\<rparr>)))"

definition dns_timeout :: "golib \<Rightarrow> string \<Rightarrow> (config_error, ns) result" where
  "dns_timeout G t = (
     if t = [] then Inr DefaultDNSPropagationTimeout
     else (case time_ParseDuration G t of
        None \<Rightarrow> cerr ''dns.propagation_timeout %q is not a duration'' [t]
      | Some d \<Rightarrow> if d < second \<or> 1800 * second < d then cerr ''dns.propagation_timeout %q must be from 1s to 30m'' [t] else Inr d))"

definition dns_setting :: "bool gomap \<Rightarrow> string \<Rightarrow> string \<times> string \<Rightarrow> (config_error, unit) result" where
  "dns_setting takes provider kv = (case map_of takes (fst kv) of
      None \<Rightarrow> if snd kv \<noteq> [] then cerr ''dns.%s is not a setting of %s'' [fst kv, provider] else Inr ()
    | Some required \<Rightarrow> if required \<and> snd kv = [] then cerr ''dns.%s is required for %s'' [fst kv, provider] else Inr ())"

text \<open>A CA bundle of ACME or of its DNS provider.\<close>

definition ca_bundle :: "golib \<Rightarrow> string \<Rightarrow> string \<Rightarrow> string \<Rightarrow> (config_error, string \<times> CertPool option) result" where
  "ca_bundle G baseDir key path = (
     if path = [] then Inr ([], None)
     else ebind (ewrap (Wrapf ''%s: %w'' [key]) (LoadCABundle G (resolve baseDir path)))
            (\<lambda>pool. Inr (resolve baseDir path, Some pool)))"

definition fileDNS_validate :: "golib \<Rightarrow> string \<Rightarrow> Config \<Rightarrow> string list \<Rightarrow> fileDNS \<Rightarrow> (config_error, DNS) result" where
  "fileDNS_validate G baseDir cfg domains d = (
     if fdns_Provider d = [] then cerr ''dns.provider is required'' []
     else (case map_of DNSProviders (fdns_Provider d) of
        None \<Rightarrow> cerr ''dns.provider %q is not a built-in DNS provider'' [fdns_Provider d]
      | Some flds \<Rightarrow>
        (case find (\<lambda>(f, _). f \<notin> set flds) (sort_key fst (fdns_Credentials d)) of
           Some (f, _) \<Rightarrow> cerr ''dns.credentials.%s is not a credential of %s'' [f, fdns_Provider d]
         | None \<Rightarrow>
           ebind (emap (\<lambda>f. ebind (validateCourierKey (case map_of (fdns_Credentials d) f of None \<Rightarrow> None | Some k \<Rightarrow> k)
               (''dns.credentials.'' @ f) (''the DNS credential '' @ f) cfg) (\<lambda>k. Inr (f, k))) flds) (\<lambda>creds.
           ebind (dns_zone G (fdns_Zone d) domains) (\<lambda>zone.
           ebind (dns_url G ''endpoint'' (fdns_Endpoint d)) (\<lambda>_.
           ebind (dns_url G ''authority'' (fdns_Authority d)) (\<lambda>_.
           ebind (ca_bundle G baseDir ''dns.ca_bundle'' (fdns_CABundle d)) (\<lambda>bundle.
           ebind (emap (dns_resolver G) (fdns_Resolvers d)) (\<lambda>resolvers.
           ebind (dns_timeout G (fdns_PropagationTimeout d)) (\<lambda>timeout.
           ebind (emap (dns_setting (case map_of dnsProviderSettings (fdns_Provider d) of None \<Rightarrow> [] | Some t \<Rightarrow> t) (fdns_Provider d))
               [(''authority'', fdns_Authority d), (''client_id'', fdns_ClientID d), (''project'', fdns_Project d),
                (''resource_group'', fdns_ResourceGroup d), (''subscription_id'', fdns_SubscriptionID d), (''tenant_id'', fdns_TenantID d)]) (\<lambda>_.
             Inr \<lparr>dns_Provider = fdns_Provider d, dns_Credentials = creds, dns_Zone = zone,
                  dns_Endpoint = trimSuffix (fdns_Endpoint d) ''/'', dns_Authority = trimSuffix (fdns_Authority d) ''/'',
                  dns_CABundle = fst bundle, dns_RootCAs = snd bundle, dns_Resolvers = resolvers, dns_PropagationTimeout = timeout,
                  dns_TenantID = fdns_TenantID d, dns_ClientID = fdns_ClientID d, dns_SubscriptionID = fdns_SubscriptionID d,
                  dns_ResourceGroup = fdns_ResourceGroup d, dns_Project = fdns_Project d\<rparr>)))))))))))"

section \<open>ACME\<close>

definition ChallengeTLSALPN01 :: string where "ChallengeTLSALPN01 = ''tls-alpn-01''"
definition ChallengeHTTP01 :: string where "ChallengeHTTP01 = ''http-01''"
definition ChallengeDNS01 :: string where "ChallengeDNS01 = ''dns-01''"
definition DefaultACMEDirectory :: string where "DefaultACMEDirectory = ''https://acme-v02.api.letsencrypt.org/directory''"
definition DefaultACMEHTTPListen :: string where "DefaultACMEHTTPListen = ''0.0.0.0:80''"

definition acme_challenge :: "string \<Rightarrow> (config_error, string) result" where
  "acme_challenge c = (
     if c = [] then Inr ChallengeTLSALPN01
     else if c \<notin> {ChallengeTLSALPN01, ChallengeHTTP01, ChallengeDNS01} then cerr ''acme.challenge %q is not a challenge type'' [c]
     else Inr c)"

fun acme_domains :: "golib \<Rightarrow> string \<Rightarrow> string list \<Rightarrow> string list \<Rightarrow> (config_error, string list) result" where
  "acme_domains G challenge [] out = Inr out"
| "acme_domains G challenge (d # ds) out = (
     let domain = go_ToLower G (trimSuffix d ''.''); (name, wildcard) = cutPrefix domain ''*.'' in
     if wildcard \<and> challenge \<noteq> ChallengeDNS01 then cerr ''acme.domains: %q is a wildcard'' [d]
     else if net_ParseIP G name \<or> \<not> domainPattern name \<or> (\<not> contains name ''.'' \<and> (name \<noteq> ''localhost'' \<or> wildcard))
       then cerr ''acme.domains: %q is not a DNS name'' [d]
     else if domain \<in> set out then cerr ''acme.domains lists %q more than once'' [d]
     else acme_domains G challenge ds (out @ [domain]))"

definition acme_directory :: "golib \<Rightarrow> string \<Rightarrow> (config_error, string) result" where
  "acme_directory G d = (
     if d = [] then Inr DefaultACMEDirectory
     else (case url_Parse G d of
        None \<Rightarrow> cerr ''acme.directory %q must be an https URL'' [d]
      | Some u \<Rightarrow> if u_Scheme u \<noteq> ''https'' \<or> u_Host u = [] then cerr ''acme.directory %q must be an https URL'' [d] else Inr d))"

definition acme_contact :: "golib \<Rightarrow> string \<Rightarrow> (config_error, string) result" where
  "acme_contact G c = (
     if c = [] then Inr []
     else (let contact = (if contains c '':'' then c else ''mailto:'' @ c) in
       case url_Parse G contact of
         None \<Rightarrow> cerr ''acme.contact %q must be an email address'' [c]
       | Some u \<Rightarrow> if u_Scheme u \<noteq> ''mailto'' \<or> u_Opaque u = [] \<or> \<not> contains (u_Opaque u) ''@''
                   then cerr ''acme.contact %q must be an email address'' [c] else Inr contact))"

definition acme_http_listen :: "golib \<Rightarrow> Config \<Rightarrow> string \<Rightarrow> string \<Rightarrow> string \<Rightarrow> (config_error, string) result" where
  "acme_http_listen G cfg challenge listen h = (
     if challenge = ChallengeHTTP01 then
       (if h \<noteq> [] \<and> netip_ParseAddrPort G h = None then cerr ''acme.http_listen %q must be an IP address and port'' [h]
        else (let l = (if h \<noteq> [] then h else DefaultACMEHTTPListen) in
          if sameBind G l listen then cerr ''acme.http_listen %q is the Agent API's own address'' [l]
          else if sameBind G l (admin_Listen (cfg_Admin cfg)) then cerr ''acme.http_listen %q is the remote admin listener's address'' [l]
          else Inr l))
     else if h \<noteq> [] then cerr ''acme.http_listen is only for challenge http-01'' []
     else Inr [])"

definition acme_dns :: "golib \<Rightarrow> string \<Rightarrow> Config \<Rightarrow> string \<Rightarrow> string list \<Rightarrow> fileDNS option \<Rightarrow> (config_error, DNS option) result" where
  "acme_dns G baseDir cfg challenge domains d = (case d of
      None \<Rightarrow> if challenge = ChallengeDNS01 then cerr ''acme.dns is required for challenge dns-01'' [] else Inr None
    | Some d \<Rightarrow> if challenge = ChallengeDNS01 then ebind (fileDNS_validate G baseDir cfg domains d) (\<lambda>dns. Inr (Some dns))
                else cerr ''acme.dns is only for challenge dns-01'' [])"

definition acme_eab :: "Config \<Rightarrow> fileEAB option \<Rightarrow> (config_error, ExternalAccountBinding option) result" where
  "acme_eab cfg e = (case e of
      None \<Rightarrow> Inr None
    | Some e \<Rightarrow> if feab_KeyID e = [] then cerr ''acme.external_account_binding.key_id is required'' []
                else ebind (validateCourierKey (feab_HMACKey e) ''acme.external_account_binding.hmac_key'' ''the ACME External Account Binding key'' cfg)
                       (\<lambda>k. Inr (Some \<lparr>eab_KeyID = feab_KeyID e, eab_HMACKey = k\<rparr>)))"

definition fileACME_validate :: "golib \<Rightarrow> string \<Rightarrow> Config \<Rightarrow> string \<Rightarrow> fileACME \<Rightarrow> (config_error, ACME) result" where
  "fileACME_validate G baseDir cfg listen a = (
     if facme_Domains a = [] then cerr ''acme.domains is required'' []
     else ebind (acme_challenge (facme_Challenge a)) (\<lambda>challenge.
     ebind (acme_domains G challenge (facme_Domains a) []) (\<lambda>domains.
     ebind (acme_directory G (facme_Directory a)) (\<lambda>directory.
     ebind (acme_contact G (facme_Contact a)) (\<lambda>contact.
     ebind (acme_http_listen G cfg challenge listen (facme_HTTPListen a)) (\<lambda>httpListen.
     ebind (acme_dns G baseDir cfg challenge domains (facme_DNS a)) (\<lambda>dns.
     ebind (ca_bundle G baseDir ''acme.ca_bundle'' (facme_CABundle a)) (\<lambda>bundle.
     ebind (validateCourierKey (facme_AccountKey a) ''acme.account_key'' ''the ACME account key'' cfg) (\<lambda>accountKey.
     ebind (acme_eab cfg (facme_EAB a)) (\<lambda>eab.
       Inr \<lparr>acme_Directory = directory, acme_Domains = domains, acme_Contact = contact, acme_Challenge = challenge,
            acme_HTTPListen = httpListen, acme_DNS = dns, acme_CABundle = fst bundle, acme_RootCAs = snd bundle,
            acme_AccountKey = accountKey, acme_EAB = eab\<rparr>))))))))))"

section \<open>The Agent API\<close>

definition agent_listen :: "golib \<Rightarrow> fileAgentAPI \<Rightarrow> Config \<Rightarrow> (config_error, string) result" where
  "agent_listen G a cfg = (
     if fapi_Listen a = [] then Inr []
     else (case netip_ParseAddrPort G (fapi_Listen a) of
        None \<Rightarrow> cerr ''agent_api.listen %q must be an IP address and port'' [fapi_Listen a]
      | Some addr \<Rightarrow>
          if fapi_TLS a = None \<and> \<not> IsLoopback (Unmap (ap_Addr addr))
            then cerr ''agent_api.listen %q is not a loopback address, so agent_api.tls is required'' [fapi_Listen a]
          else if sameBind G (fapi_Listen a) (admin_Listen (cfg_Admin cfg))
            then cerr ''agent_api.listen %q is the remote admin listener's address'' [fapi_Listen a]
          else Inr (fapi_Listen a)))"

definition agent_tls :: "golib \<Rightarrow> string \<Rightarrow> fileAgentAPI \<Rightarrow> Config \<Rightarrow> (config_error, AgentTLS option) result" where
  "agent_tls G baseDir a cfg = (case fapi_TLS a of
      None \<Rightarrow> Inr None
    | Some t \<Rightarrow>
        ebind (validateCourierKey (fat_Certificate t) ''agent_api.tls.certificate'' ''the Agent API's TLS certificate'' cfg) (\<lambda>cert.
        ebind (validateCourierKey (fat_Key t) ''agent_api.tls.key'' ''the Agent API's TLS key'' cfg) (\<lambda>key.
        ebind (case fat_ACME t of
            None \<Rightarrow> Inr None
          | Some acme \<Rightarrow> ebind (fileACME_validate G baseDir cfg (fapi_Listen a) acme) (\<lambda>acme. Inr (Some acme))) (\<lambda>acme.
          Inr (Some \<lparr>atls_Certificate = cert, atls_Key = key, atls_ACME = acme\<rparr>)))))"

definition fileAgentAPI_validate :: "golib \<Rightarrow> string \<Rightarrow> fileAgentAPI \<Rightarrow> Config \<Rightarrow> (config_error, Config) result" where
  "fileAgentAPI_validate G baseDir a cfg = (
     if fapi_Listen a \<noteq> [] \<and> fapi_Socket a \<noteq> [] then cerr ''set agent_api.listen or agent_api.socket, not both'' []
     else if fapi_TLS a \<noteq> None \<and> fapi_Listen a = [] then cerr ''agent_api.tls needs agent_api.listen'' []
     else if fapi_PublicURL a \<noteq> [] \<and> fapi_Listen a = [] then cerr ''agent_api.public_url needs agent_api.listen'' []
     else ebind (if fapi_PublicURL a = [] then Inr [] else validateAgentPublicURL G (fapi_PublicURL a)) (\<lambda>publicURL.
     ebind (agent_listen G a cfg) (\<lambda>listen.
     let socket = (if fapi_Socket a = [] then [] else resolve baseDir (fapi_Socket a)) in
     if fapi_Socket a \<noteq> [] \<and> socket = admin_Socket (cfg_Admin cfg) then cerr ''agent_api.socket %s is the admin socket'' [socket]
     else ebind (agent_tls G baseDir a cfg) (\<lambda>tls.
       Inr (cfg\<lparr>cfg_AgentAPI := \<lparr>api_Listen = listen, api_Socket = socket, api_PublicURL = publicURL, api_TLS = tls\<rparr>\<rparr>)))))"

section \<open>Audit\<close>

definition DefaultCheckpointRecords :: int where "DefaultCheckpointRecords = 1000"
definition DefaultCheckpointInterval :: ns where "DefaultCheckpointInterval = 60 * second"

definition checkpoint_records :: "int node \<Rightarrow> (config_error, int) result" where
  "checkpoint_records n = (case n of
      Omitted \<Rightarrow> Inr DefaultCheckpointRecords
    | Decoded (Some r) \<Rightarrow> if r < 1 then cerr ''audit.checkpoints.records must be at least 1'' [] else Inr r
    | _ \<Rightarrow> cerr ''audit.checkpoints.records must be at least 1'' [])"

definition checkpoint_interval :: "golib \<Rightarrow> string \<Rightarrow> (config_error, ns) result" where
  "checkpoint_interval G i = (
     if i = [] then Inr DefaultCheckpointInterval
     else (case time_ParseDuration G i of
        None \<Rightarrow> cerr ''audit.checkpoints.interval %q is not a duration'' [i]
      | Some d \<Rightarrow> if d < second then cerr ''audit.checkpoints.interval %q must be at least 1s'' [i] else Inr d))"

definition fileAudit_validate :: "golib \<Rightarrow> fileAudit \<Rightarrow> Config \<Rightarrow> (config_error, Config) result" where
  "fileAudit_validate G a cfg =
     ebind (case fau_SigningKey a of
         None \<Rightarrow> if Served (cfg_AgentAPI cfg) then cerr ''audit.signing_key is required with agent_api'' [] else Inr None
       | Some k \<Rightarrow> ebind (validateCourierKey (Some k) ''audit.signing_key'' ''the audit signing key'' cfg) (\<lambda>k. Inr (Some k))) (\<lambda>key.
     ebind (checkpoint_records (fcp_Records (fau_Checkpoints a))) (\<lambda>records.
     ebind (checkpoint_interval G (fcp_Interval (fau_Checkpoints a))) (\<lambda>interval.
       Inr (cfg\<lparr>cfg_Audit := \<lparr>audit_SigningKey = key, audit_CheckpointRecords = records, audit_CheckpointInterval = interval\<rparr>\<rparr>))))"

section \<open>Distinct locations\<close>

text \<open>The Courier Keys of the Agent API in the order they are named.\<close>

definition agent_keys :: "AgentTLS \<Rightarrow> (string \<times> CourierKey) list" where
  "agent_keys t = [(''agent_api.tls.certificate'', atls_Certificate t), (''agent_api.tls.key'', atls_Key t)]
     @ (case atls_ACME t of
          None \<Rightarrow> []
        | Some acme \<Rightarrow> [(''agent_api.tls.acme.account_key'', acme_AccountKey acme)]
            @ (case acme_EAB acme of None \<Rightarrow> [] | Some e \<Rightarrow> [(''agent_api.tls.acme.external_account_binding.hmac_key'', eab_HMACKey e)])
            @ (case acme_DNS acme of
                 None \<Rightarrow> []
               | Some d \<Rightarrow> map (\<lambda>(f, k). (''agent_api.tls.acme.dns.credentials.'' @ f, k)) (sort_key fst (dns_Credentials d))))"

fun distinct_keys :: "(string \<times> CourierKey) list \<Rightarrow> (string \<times> CourierKey) list \<Rightarrow> (config_error, unit) result" where
  "distinct_keys before [] = Inr ()"
| "distinct_keys before (k # ks) = (case find (\<lambda>other. snd k = snd other) before of
      Some other \<Rightarrow> cerr ''%s and %s name the same location; each Courier Key needs its own'' [fst other, fst k]
    | None \<Rightarrow> distinct_keys (before @ [k]) ks)"

definition validateCourierKeyLocations :: "Config \<Rightarrow> (config_error, unit) result" where
  "validateCourierKeyLocations cfg = (
     let agent = api_TLS (cfg_AgentAPI cfg);
         keys = (case agent of None \<Rightarrow> [] | Some t \<Rightarrow> agent_keys t);
         audit = (case audit_SigningKey (cfg_Audit cfg) of None \<Rightarrow> [] | Some k \<Rightarrow> [(''audit.signing_key'', k)])
     in case admin_TLS (cfg_Admin cfg) of
          None \<Rightarrow> distinct_keys [] (keys @ audit)
        | Some admin \<Rightarrow>
            if SharesAgentCertificate cfg then distinct_keys [] (keys @ audit)
            else if (case agent of None \<Rightarrow> False
                 | Some t \<Rightarrow> mtls_Certificate admin = atls_Certificate t \<or> mtls_Key admin = atls_Key t)
              then cerr ''admin.tls shares only one of agent_api.tls.certificate and agent_api.tls.key'' []
            else distinct_keys [] (keys @ [(''admin.tls.certificate'', mtls_Certificate admin), (''admin.tls.key'', mtls_Key admin)] @ audit))"

section \<open>The whole file\<close>

definition DefaultAdminSocket :: string where
  "DefaultAdminSocket = ''/run/trustedcourier/admin.sock''"

text \<open>Every Policy entry names a defined Secret Name, and Proxy Delivery has somewhere to go.\<close>

definition policy_entry :: "SecretName gomap \<Rightarrow> string \<Rightarrow> SecretAccess \<Rightarrow> (config_error, unit) result" where
  "policy_entry secrets name a = (case map_of secrets (sa_SecretName a) of
      None \<Rightarrow> cerr ''Policy %q names Secret Name %q, which is not defined under secrets'' [name, sa_SecretName a]
    | Some s \<Rightarrow> if DeliveryProxy \<in> set (sa_Delivery a) \<and> sn_Upstreams s = []
                then cerr ''Policy %q allows Proxy Delivery of Secret Name %q, which has no upstreams'' [name, sa_SecretName a] else Inr ())"

definition empty_Config :: Config where
  "empty_Config = \<lparr>cfg_Path = [], cfg_DataDir = [],
     cfg_Admin = \<lparr>admin_Socket = [], admin_AllowedUIDs = [], admin_Listen = [], admin_TLS = None\<rparr>,
     cfg_AgentAPI = \<lparr>api_Listen = [], api_Socket = [], api_PublicURL = [], api_TLS = None\<rparr>,
     cfg_Policies = [], cfg_BackendPlugins = [], cfg_Secrets = [],
     cfg_Audit = \<lparr>audit_SigningKey = None, audit_CheckpointRecords = 0, audit_CheckpointInterval = 0\<rparr>\<rparr>"

definition fileConfig_validate :: "golib \<Rightarrow> string \<Rightarrow> fileConfig \<Rightarrow> (config_error, Config) result" where
  "fileConfig_validate G baseDir raw = (
     if fc_DataDir raw = [] then cerr ''data_dir is required'' []
     else if fadm_AllowedUIDs (fc_Admin raw) = Some [] then cerr ''admin.allowed_uids is empty'' []
     else ebind (validate_map (filePolicy_validate G) (fc_Policies raw)) (\<lambda>policies.
     ebind (validate_map (fileBackendPlugin_validate G baseDir) (fc_BackendPlugins raw)) (\<lambda>plugins.
     ebind (validate_map (fileSecretName_validate G baseDir plugins) (fc_Secrets raw)) (\<lambda>secrets.
     ebind (emap (\<lambda>(name, p). emap (policy_entry secrets name) (pol_Secrets p)) policies) (\<lambda>_.
     let cfg0 = empty_Config\<lparr>cfg_DataDir := resolve baseDir (fc_DataDir raw),
           cfg_Admin := \<lparr>admin_Socket = (if fadm_Socket (fc_Admin raw) = [] then DefaultAdminSocket else resolve baseDir (fadm_Socket (fc_Admin raw))),
             admin_AllowedUIDs = (case fadm_AllowedUIDs (fc_Admin raw) of None \<Rightarrow> [os_Getuid G] | Some u \<Rightarrow> u),
             admin_Listen = [], admin_TLS = None\<rparr>,
           cfg_Policies := policies, cfg_BackendPlugins := plugins, cfg_Secrets := secrets\<rparr>
     in ebind (validateListener G baseDir (fc_Admin raw) cfg0) (\<lambda>cfg1.
        ebind (fileAgentAPI_validate G baseDir (fc_AgentAPI raw) cfg1) (\<lambda>cfg2.
        ebind (fileAudit_validate G (fc_Audit raw) cfg2) (\<lambda>cfg.
        ebind (validateCourierKeyLocations cfg) (\<lambda>_. Inr cfg)))))))))"

text \<open>
  \<open>Load\<close>: \<open>decode\<close> is the strict YAML decoder, \<open>None\<close> when the file cannot be read, does not
  decode or holds another document; \<open>abs\<close> is \<open>filepath.Abs\<close> and \<open>dir\<close> \<open>filepath.Dir\<close>.
\<close>

record fileenv =
  fe_decode :: "string \<Rightarrow> fileConfig option"
  fe_dir :: "string \<Rightarrow> string"
  fe_abs :: "string \<Rightarrow> string option"

definition Load :: "golib \<Rightarrow> fileenv \<Rightarrow> string \<Rightarrow> (config_error, Config) result" where
  "Load G F path = (case fe_decode F path of
      None \<Rightarrow> Inl (LibError path)
    | Some raw \<Rightarrow> (case fe_abs F (fe_dir F path) of
        None \<Rightarrow> Inl (LibError path)
      | Some baseDir \<Rightarrow>
          ebind (ewrap (Wrapf ''%s: %w'' [path]) (fileConfig_validate G baseDir raw)) (\<lambda>cfg.
            case fe_abs F path of None \<Rightarrow> Inl (LibError path) | Some p \<Rightarrow> Inr (cfg\<lparr>cfg_Path := p\<rparr>))))"

section \<open>Reload\<close>

definition restartKeys :: "Config \<Rightarrow> Config \<Rightarrow> string list" where
  "restartKeys old cfg =
     (if cfg_DataDir old \<noteq> cfg_DataDir cfg then [''data_dir''] else [])
     @ (if \<not> Admin_Equal (cfg_Admin old) (cfg_Admin cfg) then [''admin''] else [])
     @ (if \<not> AgentAPI_Equal (cfg_AgentAPI old) (cfg_AgentAPI cfg) then [''agent_api''] else [])
     @ (if \<not> maps_Equal BackendPlugin_Equal (cfg_BackendPlugins old) (cfg_BackendPlugins cfg) then [''backend_plugins''] else [])
     @ (if audit_SigningKey (cfg_Audit old) \<noteq> audit_SigningKey (cfg_Audit cfg)
           \<or> audit_CheckpointRecords (cfg_Audit old) \<noteq> audit_CheckpointRecords (cfg_Audit cfg)
           \<or> audit_CheckpointInterval (cfg_Audit old) \<noteq> audit_CheckpointInterval (cfg_Audit cfg) then [''audit''] else [])"

text \<open>
  The running snapshot, the callbacks' log of the snapshots they were given, and \<open>Reload\<close> with
  the startup checks as an argument.
\<close>

record Running =
  run_current :: Config
  run_reloaded :: "Config list"

definition NewRunning :: "Config \<Rightarrow> Running" where
  "NewRunning cfg = \<lparr>run_current = cfg, run_reloaded = []\<rparr>"

definition Snapshot :: "Running \<Rightarrow> Config" where
  "Snapshot r = run_current r"

definition Reload :: "golib \<Rightarrow> fileenv \<Rightarrow> (Config \<Rightarrow> (config_error, unit) result) \<Rightarrow> Running \<Rightarrow> (config_error, Config) result \<times> Running" where
  "Reload G F startupCheck r = (
     let old = run_current r in
     case Load G F (cfg_Path old) of
       Inl e \<Rightarrow> (Inl e, r)
     | Inr cfg \<Rightarrow>
         if restartKeys old cfg \<noteq> [] then (cerr ''%s changed, which takes effect only on restart'' (restartKeys old cfg), r)
         else (case startupCheck cfg of
            Inl e \<Rightarrow> (Inl e, r)
          | Inr _ \<Rightarrow> (Inr cfg, \<lparr>run_current = cfg, run_reloaded = run_reloaded r @ [cfg]\<rparr>)))"

end
