(* ===== verification/Config_Properties.thy ===== *)
theory Config_Properties
  imports Config_Validate
begin

text \<open>
  What a config that passed validation guarantees the rest of TrustedCourier: Policies name
  what exists, Courier Keys are never deliverable and never shared, Agent Tokens never cross a
  network in plaintext, and a reload either changes nothing or installs a validated snapshot
  that differs only in Policies and Secret Names.
\<close>

section \<open>Maps\<close>

lemma validate_mapD:
  assumes "validate_map f m = Inr out" and "(k, w) \<in> set out"
  shows "\<exists>v. (k, v) \<in> set m \<and> f k v = Inr w"
proof -
  obtain x where x: "x \<in> set (sort_key fst m)" "(case x of (k, v) \<Rightarrow> ebind (f k v) (\<lambda>w. Inr (k, w))) = Inr (k, w)"
    using emap_Inr_set[OF assms(1)[unfolded validate_map_def] assms(2)] by blast
  then have "fst x = k" "f k (snd x) = Inr w" by (auto simp: case_prod_beta)
  with x(1) show ?thesis by (intro exI[of _ "snd x"]) auto
qed

lemma validate_map_keys:
  assumes "validate_map f m = Inr out"
  shows "map fst out = map fst (sort_key fst m)"
proof -
  have "list_all2 (\<lambda>x y. (case x of (k, v) \<Rightarrow> ebind (f k v) (\<lambda>w. Inr (k, w))) = Inr y) (sort_key fst m) out"
    using assms by (simp add: validate_map_def emap_Inr_iff)
  then show ?thesis by (induction rule: list_all2_induct) auto
qed

lemma validate_map_distinct: "validate_map f m = Inr out \<Longrightarrow> distinct (map fst m) \<Longrightarrow> distinct (map fst out)"
  by (simp add: validate_map_keys distinct_map)

lemma emap_unit: "emap f xs = Inr ys \<Longrightarrow> x \<in> set xs \<Longrightarrow> \<exists>y. f x = Inr y"
  by (auto simp: emap_Inr_iff dest!: list_all2_ex1)

section \<open>The parts of a validated config\<close>

lemma validateListener_keeps:
  "validateListener G baseDir a cfg = Inr cfg' \<Longrightarrow> cfg_Policies cfg' = cfg_Policies cfg \<and> cfg_BackendPlugins cfg' = cfg_BackendPlugins cfg
    \<and> cfg_Secrets cfg' = cfg_Secrets cfg \<and> cfg_DataDir cfg' = cfg_DataDir cfg \<and> admin_Socket (cfg_Admin cfg') = admin_Socket (cfg_Admin cfg)
    \<and> cfg_AgentAPI cfg' = cfg_AgentAPI cfg"
  by (auto simp: validateListener_def split: option.splits if_splits)

lemma fileAgentAPI_keeps:
  "fileAgentAPI_validate G baseDir a cfg = Inr cfg' \<Longrightarrow> cfg_Policies cfg' = cfg_Policies cfg \<and> cfg_BackendPlugins cfg' = cfg_BackendPlugins cfg
    \<and> cfg_Secrets cfg' = cfg_Secrets cfg \<and> cfg_DataDir cfg' = cfg_DataDir cfg \<and> cfg_Admin cfg' = cfg_Admin cfg"
  by (auto simp: fileAgentAPI_validate_def Let_def split: if_splits)

lemma fileAudit_keeps:
  "fileAudit_validate G a cfg = Inr cfg' \<Longrightarrow> cfg_Policies cfg' = cfg_Policies cfg \<and> cfg_BackendPlugins cfg' = cfg_BackendPlugins cfg
    \<and> cfg_Secrets cfg' = cfg_Secrets cfg \<and> cfg_DataDir cfg' = cfg_DataDir cfg \<and> cfg_Admin cfg' = cfg_Admin cfg
    \<and> cfg_AgentAPI cfg' = cfg_AgentAPI cfg"
  by (auto simp: fileAudit_validate_def)

lemma fileConfig_validateE:
  assumes "fileConfig_validate G baseDir raw = Inr cfg"
  obtains cfg0 cfg1 cfg2 where
    "validate_map (filePolicy_validate G) (fc_Policies raw) = Inr (cfg_Policies cfg)"
    "validate_map (fileBackendPlugin_validate G baseDir) (fc_BackendPlugins raw) = Inr (cfg_BackendPlugins cfg)"
    "validate_map (fileSecretName_validate G baseDir (cfg_BackendPlugins cfg)) (fc_Secrets raw) = Inr (cfg_Secrets cfg)"
    "\<And>n p a. (n, p) \<in> set (cfg_Policies cfg) \<Longrightarrow> a \<in> set (pol_Secrets p) \<Longrightarrow> policy_entry (cfg_Secrets cfg) n a = Inr ()"
    "validateListener G baseDir (fc_Admin raw) cfg0 = Inr cfg1" "cfg_Admin cfg1 = cfg_Admin cfg"
    "admin_TLS (cfg_Admin cfg0) = None" "admin_Listen (cfg_Admin cfg0) = []"
    "fileAgentAPI_validate G baseDir (fc_AgentAPI raw) cfg1 = Inr cfg2" "cfg_AgentAPI cfg2 = cfg_AgentAPI cfg"
    "fileAudit_validate G (fc_Audit raw) cfg2 = Inr cfg"
    "validateCourierKeyLocations cfg = Inr ()"
    "cfg_BackendPlugins cfg0 = cfg_BackendPlugins cfg" "cfg_Secrets cfg0 = cfg_Secrets cfg"
    "cfg_BackendPlugins cfg1 = cfg_BackendPlugins cfg" "cfg_Secrets cfg1 = cfg_Secrets cfg"
    "cfg_BackendPlugins cfg2 = cfg_BackendPlugins cfg" "cfg_Secrets cfg2 = cfg_Secrets cfg"
    "admin_Socket (cfg_Admin cfg1) = admin_Socket (cfg_Admin cfg)"
proof -
  obtain policies plugins secrets us cfg0 cfg1 cfg2 where
    1: "validate_map (filePolicy_validate G) (fc_Policies raw) = Inr policies"
    and 2: "validate_map (fileBackendPlugin_validate G baseDir) (fc_BackendPlugins raw) = Inr plugins"
    and 3: "validate_map (fileSecretName_validate G baseDir plugins) (fc_Secrets raw) = Inr secrets"
    and 4: "emap (\<lambda>(name, p). emap (policy_entry secrets name) (pol_Secrets p)) policies = Inr us"
    and 5: "validateListener G baseDir (fc_Admin raw) cfg0 = Inr cfg1" "fileAgentAPI_validate G baseDir (fc_AgentAPI raw) cfg1 = Inr cfg2"
      "fileAudit_validate G (fc_Audit raw) cfg2 = Inr cfg" "validateCourierKeyLocations cfg = Inr ()"
    and 6: "cfg_Policies cfg0 = policies" "cfg_BackendPlugins cfg0 = plugins" "cfg_Secrets cfg0 = secrets"
      "admin_TLS (cfg_Admin cfg0) = None" "admin_Listen (cfg_Admin cfg0) = []"
    using assms by (auto simp: fileConfig_validate_def Let_def split: if_splits)
  note k1 = validateListener_keeps[OF 5(1)] and k2 = fileAgentAPI_keeps[OF 5(2)] and k3 = fileAudit_keeps[OF 5(3)]
  have fin: "cfg_Policies cfg = policies" "cfg_BackendPlugins cfg = plugins" "cfg_Secrets cfg = secrets" "cfg_Admin cfg1 = cfg_Admin cfg"
    "cfg_AgentAPI cfg2 = cfg_AgentAPI cfg"
    using k1 k2 k3 6 by auto
  have "policy_entry (cfg_Secrets cfg) n a = Inr ()" if "(n, p) \<in> set (cfg_Policies cfg)" "a \<in> set (pol_Secrets p)" for n p a
  proof -
    note entry = that
    obtain ys where "emap (policy_entry secrets n) (pol_Secrets p) = Inr ys"
      using emap_unit[OF 4, of "(n, p)"] entry(1) fin by auto
    from emap_unit[OF this entry(2)] fin show ?thesis by (metis (full_types) old.unit.exhaust)
  qed
  then show thesis
    using 1 2 3 5 6 fin k1 k2 k3 by (intro that[of cfg0 cfg1 cfg2]) auto
qed

section \<open>Courier Keys\<close>

text \<open>A key in a known Backend, at a valid location no Secret Name maps to.\<close>

definition safe_key :: "Config \<Rightarrow> CourierKey \<Rightarrow> bool" where
  "safe_key cfg k \<longleftrightarrow> map_of (cfg_BackendPlugins cfg) (ck_Backend k) \<noteq> None \<and> Location (ck_Location k) = Inr ()
     \<and> (\<forall>(n, s)\<in>set (cfg_Secrets cfg). \<not> (sn_Backend s = ck_Backend k \<and> sn_Location s = ck_Location k))"

lemma safe_key_cong: "cfg_BackendPlugins cfg = cfg_BackendPlugins cfg' \<Longrightarrow> cfg_Secrets cfg = cfg_Secrets cfg' \<Longrightarrow> safe_key cfg = safe_key cfg'"
  by (simp add: safe_key_def fun_eq_iff)

lemma validateCourierKey_safe:
  assumes "validateCourierKey f configKey what cfg = Inr k"
  shows "safe_key cfg k"
proof -
  obtain f' where f: "f = Some f'" "k = \<lparr>ck_Backend = fck_Backend f', ck_Location = fck_Location f'\<rparr>"
      "Location (fck_Location f') = Inr ()" "map_of (cfg_BackendPlugins cfg) (fck_Backend f') \<noteq> None"
      "find (\<lambda>(n, s). sn_Backend s = fck_Backend f' \<and> sn_Location s = fck_Location f') (sort_key fst (cfg_Secrets cfg)) = None"
    using assms by (auto simp: validateCourierKey_def split: option.splits if_splits)
  have "\<not> (\<exists>x\<in>set (sort_key fst (cfg_Secrets cfg)). case x of (n, s) \<Rightarrow> sn_Backend s = fck_Backend f' \<and> sn_Location s = fck_Location f')"
    using f(5) unfolding find_None_iff by blast
  moreover have "set (sort_key fst (cfg_Secrets cfg)) = set (cfg_Secrets cfg)" by simp
  ultimately have "\<forall>(n, s)\<in>set (cfg_Secrets cfg). \<not> (sn_Backend s = fck_Backend f' \<and> sn_Location s = fck_Location f')" by fastforce
  with f show ?thesis by (simp add: safe_key_def)
qed

lemma fileDNS_keys:
  assumes "fileDNS_validate G baseDir cfg domains d = Inr out" and "(f, k) \<in> set (dns_Credentials out)"
  shows "safe_key cfg k"
proof -
  obtain flds where "emap (\<lambda>f. ebind (validateCourierKey (case map_of (fdns_Credentials d) f of None \<Rightarrow> None | Some k \<Rightarrow> k)
      (''dns.credentials.'' @ f) (''the DNS credential '' @ f) cfg) (\<lambda>k. Inr (f, k))) flds = Inr (dns_Credentials out)"
    using assms(1) by (auto simp: fileDNS_validate_def split: if_splits option.splits)
  from emap_Inr_set[OF this assms(2)] show ?thesis by (auto intro: validateCourierKey_safe)
qed

lemma fileACME_keys:
  assumes "fileACME_validate G baseDir cfg listen a = Inr out"
  shows "safe_key cfg (acme_AccountKey out)" and "\<And>e. acme_EAB out = Some e \<Longrightarrow> safe_key cfg (eab_HMACKey e)"
    and "\<And>d f k. acme_DNS out = Some d \<Longrightarrow> (f, k) \<in> set (dns_Credentials d) \<Longrightarrow> safe_key cfg k"
proof -
  obtain challenge domains what where
    A: "validateCourierKey (facme_AccountKey a) ''acme.account_key'' what cfg = Inr (acme_AccountKey out)"
    and E: "acme_eab cfg (facme_EAB a) = Inr (acme_EAB out)" and D: "acme_dns G baseDir cfg challenge domains (facme_DNS a) = Inr (acme_DNS out)"
    using assms by (cases "facme_Domains a = []") (auto simp: fileACME_validate_def)
  show "safe_key cfg (acme_AccountKey out)" using A by (rule validateCourierKey_safe)
  show "safe_key cfg (eab_HMACKey e)" if "acme_EAB out = Some e" for e
    using E that by (cases "facme_EAB a") (auto simp: acme_eab_def dest!: validateCourierKey_safe split: if_splits)
  show "safe_key cfg k" if "acme_DNS out = Some d" "(f, k) \<in> set (dns_Credentials d)" for d f k
  proof -
    note dns = that
    obtain r where "fileDNS_validate G baseDir cfg domains r = Inr d"
      using D dns(1) by (cases "facme_DNS a") (auto simp: acme_dns_def split: if_splits)
    from fileDNS_keys[OF this dns(2)] show ?thesis .
  qed
qed

lemma agent_tls_keys:
  assumes "agent_tls G baseDir a cfg = Inr (Some t)" and "(n, k) \<in> set (agent_keys t)"
  shows "safe_key cfg k"
proof -
  obtain f where f: "fapi_TLS a = Some f" using assms(1) by (cases "fapi_TLS a") (auto simp: agent_tls_def)
  have ck: "safe_key cfg (atls_Certificate t)" "safe_key cfg (atls_Key t)"
    using assms(1) f by (auto simp: agent_tls_def intro: validateCourierKey_safe)
  have "safe_key cfg k" if "atls_ACME t = Some acme" "(n, k) \<in> set (agent_keys t)" for acme
  proof -
    note acme = that
    obtain r where r: "fileACME_validate G baseDir cfg (fapi_Listen a) r = Inr acme"
      using assms(1) f acme(1) by (auto simp: agent_tls_def split: option.splits)
    show ?thesis using fileACME_keys[OF r] ck acme
      by (cases "acme_DNS acme"; cases "acme_EAB acme") (auto simp: agent_keys_def)
  qed
  with assms(2) ck show ?thesis by (cases "atls_ACME t") (auto simp: agent_keys_def)
qed

definition courier_keys :: "Config \<Rightarrow> CourierKey list" where
  "courier_keys cfg = (case api_TLS (cfg_AgentAPI cfg) of None \<Rightarrow> [] | Some t \<Rightarrow> map snd (agent_keys t))
     @ (case admin_TLS (cfg_Admin cfg) of None \<Rightarrow> [] | Some a \<Rightarrow> [mtls_Certificate a, mtls_Key a])
     @ (case audit_SigningKey (cfg_Audit cfg) of None \<Rightarrow> [] | Some k \<Rightarrow> [k])"

lemma fileAgentAPI_tls: "fileAgentAPI_validate G baseDir a cfg = Inr cfg' \<Longrightarrow> agent_tls G baseDir a cfg = Inr (api_TLS (cfg_AgentAPI cfg'))"
  by (auto simp: fileAgentAPI_validate_def Let_def split: if_splits)

lemma fileAudit_key: "fileAudit_validate G a cfg = Inr cfg' \<Longrightarrow> audit_SigningKey (cfg_Audit cfg') = Some k \<Longrightarrow> safe_key cfg k"
  by (auto simp: fileAudit_validate_def intro: validateCourierKey_safe split: option.splits if_splits)

lemma validateListener_keys:
  "validateListener G baseDir a cfg = Inr cfg' \<Longrightarrow> admin_TLS (cfg_Admin cfg) = None \<Longrightarrow> admin_TLS (cfg_Admin cfg') = Some t \<Longrightarrow>
     safe_key cfg (mtls_Certificate t) \<and> safe_key cfg (mtls_Key t)"
  by (auto simp: validateListener_def dest!: validateCourierKey_safe split: option.splits if_splits)

text \<open>
  C37: a Courier Key is never delivered to Agents: in a validated config no Secret Name maps
  to the location of any TLS key or certificate, ACME or DNS credential or the audit signing
  key, and each of them is in a configured Backend at a valid location.
\<close>

theorem courier_keys_never_delivered:
  assumes "fileConfig_validate G baseDir raw = Inr cfg" and "k \<in> set (courier_keys cfg)"
  shows "map_of (cfg_BackendPlugins cfg) (ck_Backend k) \<noteq> None \<and> Location (ck_Location k) = Inr ()
    \<and> (\<forall>n s. map_of (cfg_Secrets cfg) n = Some s \<longrightarrow> (sn_Backend s, sn_Location s) \<noteq> (ck_Backend k, ck_Location k))"
proof -
  obtain cfg0 cfg1 cfg2 where L: "validateListener G baseDir (fc_Admin raw) cfg0 = Inr cfg1" "admin_TLS (cfg_Admin cfg0) = None"
      "fileAgentAPI_validate G baseDir (fc_AgentAPI raw) cfg1 = Inr cfg2" "fileAudit_validate G (fc_Audit raw) cfg2 = Inr cfg"
    and S: "cfg_Admin cfg1 = cfg_Admin cfg" "cfg_AgentAPI cfg2 = cfg_AgentAPI cfg"
    and P: "cfg_BackendPlugins cfg0 = cfg_BackendPlugins cfg" "cfg_Secrets cfg0 = cfg_Secrets cfg"
      "cfg_BackendPlugins cfg1 = cfg_BackendPlugins cfg" "cfg_Secrets cfg1 = cfg_Secrets cfg"
      "cfg_BackendPlugins cfg2 = cfg_BackendPlugins cfg" "cfg_Secrets cfg2 = cfg_Secrets cfg"
    by (rule fileConfig_validateE[OF assms(1)]) blast
  have same: "safe_key cfg0 = safe_key cfg" "safe_key cfg1 = safe_key cfg" "safe_key cfg2 = safe_key cfg"
    using P by (auto intro: safe_key_cong)
  note agent = fileAgentAPI_tls[OF L(3), unfolded S]
  have "safe_key cfg (snd x)" if "api_TLS (cfg_AgentAPI cfg) = Some t" "x \<in> set (agent_keys t)" for t x
    using agent_tls_keys[of G baseDir "fc_AgentAPI raw" cfg1 t "fst x" "snd x"] agent that same by simp
  then have "safe_key cfg k"
    using assms(2) validateListener_keys[OF L(1,2)] fileAudit_key[OF L(4)]
    unfolding same S
    by (cases "api_TLS (cfg_AgentAPI cfg)"; cases "admin_TLS (cfg_Admin cfg)"; cases "audit_SigningKey (cfg_Audit cfg)")
      (auto simp: courier_keys_def)
  then show ?thesis by (auto simp: safe_key_def dest!: map_of_SomeD)
qed

lemma distinct_keys_ok:
  "distinct_keys before ks = Inr () \<Longrightarrow> distinct (map snd before) \<Longrightarrow> distinct (map snd (before @ ks))"
proof (induction before ks rule: distinct_keys.induct)
  case (2 before k ks)
  then have n: "find (\<lambda>other. snd k = snd other) before = None" by (auto split: option.splits)
  then have "snd k \<notin> snd ` set before" by (auto simp: find_None_iff)
  with 2 n show ?case by simp
qed simp

text \<open>
  Courier Keys never overwrite one another: every two references of a validated config
  name different locations, the remote admin listener's pair included, unless it names the
  Agent API's whole pair to share it.
\<close>

theorem courier_keys_distinct:
  assumes "fileConfig_validate G baseDir raw = Inr cfg"
  shows "if SharesAgentCertificate cfg then distinct (courier_keys (cfg\<lparr>cfg_Admin := (cfg_Admin cfg)\<lparr>admin_TLS := None\<rparr>\<rparr>))
    else distinct (courier_keys cfg)"
proof -
  have V: "validateCourierKeyLocations cfg = Inr ()" by (rule fileConfig_validateE[OF assms])
  note D = distinct_keys_ok[of "[]", simplified]
  let ?agent = "case api_TLS (cfg_AgentAPI cfg) of None \<Rightarrow> [] | Some t \<Rightarrow> agent_keys t"
  let ?audit = "case audit_SigningKey (cfg_Audit cfg) of None \<Rightarrow> [] | Some k \<Rightarrow> [(''audit.signing_key'', k)]"
  have ck: "courier_keys cfg = map snd (?agent @ (case admin_TLS (cfg_Admin cfg) of None \<Rightarrow> []
      | Some a \<Rightarrow> [(''admin.tls.certificate'', mtls_Certificate a), (''admin.tls.key'', mtls_Key a)]) @ ?audit)"
    "courier_keys (cfg\<lparr>cfg_Admin := (cfg_Admin cfg)\<lparr>admin_TLS := None\<rparr>\<rparr>) = map snd (?agent @ ?audit)"
    by (simp_all add: courier_keys_def split: option.splits)
  show ?thesis
  proof (cases "admin_TLS (cfg_Admin cfg)")
    case None
    have "\<not> SharesAgentCertificate cfg" using None by (simp add: SharesAgentCertificate_def)
    moreover have "distinct (map snd (?agent @ ?audit))" using V None by (intro D) (simp add: validateCourierKeyLocations_def)
    ultimately show ?thesis unfolding ck using None by simp
  next
    case (Some t)
    have "SharesAgentCertificate cfg \<Longrightarrow> distinct (map snd (?agent @ ?audit))"
      using V Some by (intro D) (simp add: validateCourierKeyLocations_def)
    moreover have "\<not> SharesAgentCertificate cfg \<Longrightarrow> distinct (map snd (?agent @ [(''admin.tls.certificate'', mtls_Certificate t),
        (''admin.tls.key'', mtls_Key t)] @ ?audit))"
      using V Some by (intro D) (simp add: validateCourierKeyLocations_def Let_def split: if_splits)
    ultimately show ?thesis unfolding ck using Some by simp
  qed
qed

section \<open>Transport\<close>

lemma agent_listen_ok:
  assumes "agent_listen G a cfg = Inr l" and "l \<noteq> []"
  shows "l = fapi_Listen a \<and> \<not> sameBind G l (admin_Listen (cfg_Admin cfg))
    \<and> (\<exists>ap. netip_ParseAddrPort G l = Some ap \<and> (fapi_TLS a = None \<longrightarrow> IsLoopback (Unmap (ap_Addr ap))))"
  using assms by (auto simp: agent_listen_def split: if_splits option.splits)

lemma fileAgentAPI_ok:
  assumes "fileAgentAPI_validate G baseDir a cfg = Inr cfg'"
  shows "agent_listen G a cfg = Inr (api_Listen (cfg_AgentAPI cfg'))" and "api_TLS (cfg_AgentAPI cfg') = None \<longleftrightarrow> fapi_TLS a = None"
    and "api_Socket (cfg_AgentAPI cfg') \<noteq> [] \<Longrightarrow> api_Socket (cfg_AgentAPI cfg') \<noteq> admin_Socket (cfg_Admin cfg)"
    and "api_Listen (cfg_AgentAPI cfg') = [] \<or> api_Socket (cfg_AgentAPI cfg') = []"
proof -
  have t: "api_TLS (cfg_AgentAPI cfg') = None \<longleftrightarrow> fapi_TLS a = None"
    using fileAgentAPI_tls[OF assms] by (cases "fapi_TLS a"; cases "api_TLS (cfg_AgentAPI cfg')") (auto simp: agent_tls_def)
  show "api_TLS (cfg_AgentAPI cfg') = None \<longleftrightarrow> fapi_TLS a = None" by (rule t)
  show l: "agent_listen G a cfg = Inr (api_Listen (cfg_AgentAPI cfg'))"
    using assms by (auto simp: fileAgentAPI_validate_def Let_def split: if_splits)
  show "api_Socket (cfg_AgentAPI cfg') \<noteq> [] \<Longrightarrow> api_Socket (cfg_AgentAPI cfg') \<noteq> admin_Socket (cfg_Admin cfg)"
    using assms by (auto simp: fileAgentAPI_validate_def Let_def split: if_splits)
  show "api_Listen (cfg_AgentAPI cfg') = [] \<or> api_Socket (cfg_AgentAPI cfg') = []"
    using assms agent_listen_ok[OF l] by (auto simp: fileAgentAPI_validate_def Let_def split: if_splits)
qed

lemma validateListener_ok:
  assumes "validateListener G baseDir a cfg = Inr cfg'" and "admin_Listen (cfg_Admin cfg) = []" and "admin_Listen (cfg_Admin cfg') \<noteq> []"
  shows "\<exists>t. admin_TLS (cfg_Admin cfg') = Some t \<and> mtls_ClientCAs t \<noteq> []"
  using assms by (auto simp: validateListener_def LoadCABundle_def split: option.splits if_splits)

lemma fileAudit_served: "fileAudit_validate G a cfg = Inr cfg' \<Longrightarrow> Served (cfg_AgentAPI cfg) \<Longrightarrow> audit_SigningKey (cfg_Audit cfg') \<noteq> None"
  by (auto simp: fileAudit_validate_def split: option.splits if_splits)

text \<open>
  The network listeners of a config: the Agent API, the remote Admin API and, for ACME with the
  HTTP-01 challenge, the one that answers challenges over plain HTTP. A listener takes the
  connections to its port, at every address when its own is unspecified.
\<close>

definition agent_acme :: "Config \<Rightarrow> ACME option" where
  "agent_acme cfg = Option.bind (api_TLS (cfg_AgentAPI cfg)) atls_ACME"

definition http01_listen :: "Config \<Rightarrow> string" where
  "http01_listen cfg = (case agent_acme cfg of None \<Rightarrow> [] | Some acme \<Rightarrow> acme_HTTPListen acme)"

definition network_listeners :: "Config \<Rightarrow> string list" where
  "network_listeners cfg = filter (\<lambda>l. l \<noteq> []) [http01_listen cfg, api_Listen (cfg_AgentAPI cfg), admin_Listen (cfg_Admin cfg)]"

definition takes_connection :: "AddrPort \<Rightarrow> Addr \<Rightarrow> nat \<Rightarrow> bool" where
  "takes_connection l to port \<longleftrightarrow> port = ap_Port l \<and> (IsUnspecified (ap_Addr l) \<or> Unmap to = Unmap (ap_Addr l))"

definition apart :: "golib \<Rightarrow> string \<Rightarrow> string \<Rightarrow> bool" where
  "apart G a b \<longleftrightarrow> (\<forall>x y to port. netip_ParseAddrPort G a = Some x \<longrightarrow> netip_ParseAddrPort G b = Some y \<longrightarrow> port \<noteq> 0 \<longrightarrow>
     \<not> (takes_connection x to port \<and> takes_connection y to port))"

lemma sameBind_apart: "\<not> sameBind G a b \<Longrightarrow> apart G a b"
  by (auto simp: sameBind_def apart_def takes_connection_def)

lemma acme_http_listen_ok:
  assumes "acme_http_listen G cfg challenge listen h = Inr l" "l \<noteq> []"
  shows "challenge = ChallengeHTTP01 \<and> \<not> sameBind G l listen \<and> \<not> sameBind G l (admin_Listen (cfg_Admin cfg))"
  using assms by (auto simp: acme_http_listen_def Let_def split: if_splits)

lemma fileACME_listen:
  assumes "fileACME_validate G baseDir cfg listen a = Inr acme" "acme_HTTPListen acme \<noteq> []"
  shows "acme_Challenge acme = ChallengeHTTP01 \<and> \<not> sameBind G (acme_HTTPListen acme) listen
    \<and> \<not> sameBind G (acme_HTTPListen acme) (admin_Listen (cfg_Admin cfg))"
proof -
  obtain h where "acme_http_listen G cfg (acme_Challenge acme) listen h = Inr (acme_HTTPListen acme)"
    using assms(1) by (auto simp: fileACME_validate_def split: if_splits)
  from acme_http_listen_ok[OF this assms(2)] show ?thesis .
qed

lemma http01_ok:
  assumes "fileAgentAPI_validate G baseDir a cfg = Inr cfg'" "http01_listen cfg' \<noteq> []"
  shows "\<exists>acme. agent_acme cfg' = Some acme \<and> acme_Challenge acme = ChallengeHTTP01
    \<and> \<not> sameBind G (http01_listen cfg') (api_Listen (cfg_AgentAPI cfg')) \<and> \<not> sameBind G (http01_listen cfg') (admin_Listen (cfg_Admin cfg))"
proof -
  obtain t acme where t: "api_TLS (cfg_AgentAPI cfg') = Some t" "atls_ACME t = Some acme" "acme_HTTPListen acme \<noteq> []"
    using assms(2) by (auto simp: http01_listen_def agent_acme_def split: option.splits bind_splits)
  have "agent_tls G baseDir a cfg = Inr (Some t)" using fileAgentAPI_tls[OF assms(1)] t(1) by simp
  then obtain f where f: "fileACME_validate G baseDir cfg (fapi_Listen a) f = Inr acme" "fapi_TLS a \<noteq> None"
    using t(2) by (auto simp: agent_tls_def split: option.splits)
  then have "fapi_Listen a \<noteq> []" using assms(1) by (auto simp: fileAgentAPI_validate_def split: if_splits)
  moreover have "agent_listen G a cfg = Inr (api_Listen (cfg_AgentAPI cfg'))"
    using assms(1) by (auto simp: fileAgentAPI_validate_def Let_def split: if_splits)
  ultimately have "api_Listen (cfg_AgentAPI cfg') = fapi_Listen a" by (auto simp: agent_listen_def split: if_splits option.splits)
  with fileACME_listen[OF f(1) t(3)] t show ?thesis by (simp add: http01_listen_def agent_acme_def)
qed


section \<open>Policies and Secret Names\<close>

lemma modes_loop_ok: "modes_loop pol name ms out = Inr modes \<Longrightarrow> distinct out \<Longrightarrow> distinct modes \<and> set out \<subseteq> set modes \<and> (ms \<noteq> [] \<longrightarrow> modes \<noteq> [])"
proof (induction ms arbitrary: out)
  case (Cons m ms)
  then obtain d where d: "modes_loop pol name ms (append_new out d) = Inr modes" by (auto split: option.splits)
  have "distinct (append_new out d)" "set out \<subseteq> set (append_new out d)" "append_new out d \<noteq> []"
    using Cons.prems(2) by (auto simp: append_new_def)
  with Cons.IH[OF d] show ?case by fastforce
qed simp

lemma methods_loop_ok: "methods_loop G ms out = Inr r \<Longrightarrow> set out \<subseteq> set ProxyMethods \<Longrightarrow> set r \<subseteq> set ProxyMethods"
  by (induction ms arbitrary: out) (auto simp: append_new_def split: if_splits)

lemma validateLimits_ok:
  assumes "validateLimits G s a = Inr a'"
  shows "sa_SecretName a' = sa_SecretName a" and "sa_Delivery a' = sa_Delivery a"
    and "sa_Methods a = None \<Longrightarrow> sa_Methods a' = Some ms \<Longrightarrow> set ms \<subseteq> set ProxyMethods \<and> DeliveryProxy \<in> set (sa_Delivery a)"
proof -
  show "sa_SecretName a' = sa_SecretName a" "sa_Delivery a' = sa_Delivery a"
    using assms by (auto simp: validateLimits_def split: if_splits)
  show "set ms \<subseteq> set ProxyMethods \<and> DeliveryProxy \<in> set (sa_Delivery a)" if "sa_Methods a = None" "sa_Methods a' = Some ms"
  proof -
    note meth = that
    obtain x where "methods_loop G x [] = Inr ms" "DeliveryProxy \<in> set (sa_Delivery a)"
      using assms meth by (auto simp: validateLimits_def split: if_splits option.splits)
    with methods_loop_ok[of G x "[]" ms] show ?thesis by simp
  qed
qed

text \<open>What a Policy entry that passed validation satisfies.\<close>

definition entry_wf :: "SecretAccess \<Rightarrow> bool" where
  "entry_wf a \<longleftrightarrow> namePattern (sa_SecretName a) \<and> sa_Delivery a \<noteq> [] \<and> distinct (sa_Delivery a)
     \<and> (case sa_Methods a of None \<Rightarrow> True | Some ms \<Rightarrow> set ms \<subseteq> set ProxyMethods \<and> DeliveryProxy \<in> set (sa_Delivery a))"

lemma policy_loop_ok:
  "policy_loop G name ss out = Inr r \<Longrightarrow> distinct (map sa_SecretName out) \<Longrightarrow> \<forall>a\<in>set out. entry_wf a \<Longrightarrow>
     distinct (map sa_SecretName r) \<and> (\<forall>a\<in>set r. entry_wf a) \<and> length r = length out + length ss"
proof (induction ss arbitrary: out)
  case (Cons s ss)
  from Cons.prems(1) obtain modes access where st: "namePattern (fsa_Name s)" "fsa_Name s \<notin> sa_SecretName ` set out" "fsa_Delivery s \<noteq> []"
      "modes_loop name (fsa_Name s) (fsa_Delivery s) [] = Inr modes"
      "validateLimits G s \<lparr>sa_SecretName = fsa_Name s, sa_Delivery = modes, sa_Methods = None, sa_Paths = None\<rparr> = Inr access"
      "policy_loop G name ss (out @ [access]) = Inr r"
    by (auto split: if_splits)
  note V = validateLimits_ok[OF st(5)] and M = modes_loop_ok[OF st(4)]
  have "entry_wf access" using V M st(1,3) by (auto simp: entry_wf_def split: option.splits)
  with Cons.IH[OF st(6)] Cons.prems(2,3) st(2) V(1) show ?case by simp
qed simp

text \<open>
  In a validated config every Policy names only Secret Names that exist, each at most
  once, with at least one Delivery mode, limits only where Proxy Delivery is allowed and only
  to known methods; and Proxy Delivery is allowed only where there is an Upstream.
\<close>

theorem validated_policies:
  assumes "fileConfig_validate G baseDir raw = Inr cfg" and "(name, p) \<in> set (cfg_Policies cfg)"
  shows "pol_Name p = name \<and> namePattern name \<and> pol_Secrets p \<noteq> [] \<and> distinct (map sa_SecretName (pol_Secrets p))
    \<and> (\<forall>a. a \<in> set (pol_Secrets p) \<longrightarrow> entry_wf a \<and> (\<exists>s. map_of (cfg_Secrets cfg) (sa_SecretName a) = Some s
        \<and> (DeliveryProxy \<in> set (sa_Delivery a) \<longrightarrow> sn_Upstreams s \<noteq> [])))"
proof -
  obtain P: "validate_map (filePolicy_validate G) (fc_Policies raw) = Inr (cfg_Policies cfg)"
    and E: "\<And>a. a \<in> set (pol_Secrets p) \<Longrightarrow> policy_entry (cfg_Secrets cfg) name a = Inr ()"
    by (rule fileConfig_validateE[OF assms(1)]) (use assms(2) in blast)
  obtain raw_p where "filePolicy_validate G name raw_p = Inr p" using validate_mapD[OF P assms(2)] by blast
  then have n: "namePattern name" "fpol_Secrets raw_p \<noteq> []" "pol_Name p = name" "policy_loop G name (fpol_Secrets raw_p) [] = Inr (pol_Secrets p)"
    by (auto simp: filePolicy_validate_def split: if_splits)
  from policy_loop_ok[OF n(4)] n(2) have loop: "distinct (map sa_SecretName (pol_Secrets p))" "\<forall>a\<in>set (pol_Secrets p). entry_wf a"
    "length (pol_Secrets p) \<noteq> 0" by simp_all
  have "\<exists>s. map_of (cfg_Secrets cfg) (sa_SecretName a) = Some s \<and> (DeliveryProxy \<in> set (sa_Delivery a) \<longrightarrow> sn_Upstreams s \<noteq> [])"
    if "a \<in> set (pol_Secrets p)" for a
    using E[OF that] by (auto simp: policy_entry_def split: option.splits if_splits)
  with n loop show ?thesis by auto
qed

section \<open>An example file\<close>

text \<open>Libraries that read every address as a loopback one and every URL as an https origin.\<close>

definition example_key :: "string \<Rightarrow> fileCourierKey" where
  "example_key l = \<lparr>fck_Backend = ''b'', fck_Location = l\<rparr>"

definition example_file :: fileConfig where
  "example_file = \<lparr>fc_DataDir = ''/d'',
     fc_Admin = \<lparr>fadm_Socket = [], fadm_AllowedUIDs = None, fadm_Listen = [], fadm_TLS = None\<rparr>,
     fc_AgentAPI = \<lparr>fapi_Listen = ''l'', fapi_Socket = [], fapi_PublicURL = [], fapi_TLS = None\<rparr>,
     fc_Policies = [(''c'', \<lparr>fpol_Secrets = [\<lparr>fsa_Name = ''g'', fsa_Delivery = [''reveal''], fsa_Methods = Omitted, fsa_Paths = Omitted\<rparr>]\<rparr>)],
     fc_BackendPlugins = [(''b'', \<lparr>fbp_Path = ''/p'', fbp_SHA256 = replicate 64 (CHR ''a''), fbp_User = ''u'', fbp_InsecureShareCoreUser = False, fbp_Env = []\<rparr>)],
     fc_Secrets = [(''g'', \<lparr>fsn_Backend = ''b'', fsn_Location = ''k'', fsn_CacheTTL = ''t'', fsn_Preset = [], fsn_InjectionTemplate = None, fsn_Upstreams = []\<rparr>)],
     fc_Audit = \<lparr>fau_SigningKey = Some (example_key ''a''), fau_Checkpoints = \<lparr>fcp_Records = Omitted, fcp_Interval = []\<rparr>\<rparr>\<rparr>"

definition example_valid :: Config where
  "example_valid = \<lparr>cfg_Path = [], cfg_DataDir = ''/d'',
     cfg_Admin = \<lparr>admin_Socket = DefaultAdminSocket, admin_AllowedUIDs = [0], admin_Listen = [], admin_TLS = None\<rparr>,
     cfg_AgentAPI = \<lparr>api_Listen = ''l'', api_Socket = [], api_PublicURL = [], api_TLS = None\<rparr>,
     cfg_Policies = [(''c'', \<lparr>pol_Name = ''c'', pol_Secrets = [\<lparr>sa_SecretName = ''g'', sa_Delivery = [DeliveryReveal], sa_Methods = None, sa_Paths = None\<rparr>]\<rparr>)],
     cfg_BackendPlugins = [(''b'', \<lparr>bp_Name = ''b'', bp_Path = ''/p'', bp_SHA256 = toLowerASCII (replicate 64 (CHR ''a'')), bp_User = ''u'', bp_InsecureShareCoreUser = False, bp_Env = []\<rparr>)],
     cfg_Secrets = [(''g'', \<lparr>sn_Name = ''g'', sn_Backend = ''b'', sn_Location = ''k'', sn_CacheTTL = 30 * second, sn_InjectionTemplate = None, sn_Upstreams = [], sn_Preset = [], sn_Env = []\<rparr>)],
     cfg_Audit = \<lparr>audit_SigningKey = Some \<lparr>ck_Backend = ''b'', ck_Location = ''a''\<rparr>, audit_CheckpointRecords = 1000, audit_CheckpointInterval = 60 * second\<rparr>\<rparr>"

lemma example_location: "Location ''k'' = Inr ()" "Location ''a'' = Inr ()"
  by (simp_all add: Location_def MaxLocationBytes_def printable_iff runes_ascii invalid_rune_def isControl_def rune_error_def)

lemma example_validates: "fileConfig_validate example_golib ''/'' example_file = Inr example_valid"
proof -
  let ?G = example_golib
  have n: "namePattern ''c''" "namePattern ''g''" "namePattern ''b''" by (simp_all add: namePattern_def isAlnum_def)
  have sha: "sha256Pattern (replicate 64 (CHR ''a''))" by (simp add: sha256Pattern_def isHexDigit_def list_all_iff)
  have low: "go_ToLower ?G (replicate 64 (CHR ''a'')) = toLowerASCII (replicate 64 (CHR ''a''))"
    by (simp add: go_ToLower_def list_all_iff)
  have pol: "validate_map (filePolicy_validate ?G) (fc_Policies example_file) = Inr (cfg_Policies example_valid)"
    using n by (simp add: validate_map_def example_file_def example_valid_def filePolicy_validate_def delivery_mode_def append_new_def
        validateLimits_def limitList_def)
  have plug: "validate_map (fileBackendPlugin_validate ?G ''/'') (fc_BackendPlugins example_file) = Inr (cfg_BackendPlugins example_valid)"
    using n sha low by (simp add: validate_map_def example_file_def example_valid_def fileBackendPlugin_validate_def
        fileBackendPlugin_validateEnv_def resolve_def hasPrefix_def)
  have sec: "validate_map (fileSecretName_validate ?G ''/'' (cfg_BackendPlugins example_valid)) (fc_Secrets example_file) = Inr (cfg_Secrets example_valid)"
    using n example_location by (simp add: validate_map_def example_file_def example_valid_def fileSecretName_validate_def validate_cacheTTL_def
        MaxCacheTTL_def secret_template_def) (simp add: example_golib_def MaxCacheTTL_def)
  show ?thesis
    using example_location
    by (simp add: fileConfig_validate_def pol plug sec)
      (simp add: example_file_def example_valid_def policy_entry_def empty_Config_def validateListener_def fileAgentAPI_validate_def
        agent_listen_def agent_tls_def example_golib_def IsLoopback_def Unmap_def Is4In6_def sameBind_def resolve_def hasPrefix_def
        fileAudit_validate_def example_key_def validateCourierKey_def checkpoint_records_def checkpoint_interval_def
        DefaultCheckpointRecords_def DefaultCheckpointInterval_def validateCourierKeyLocations_def Let_def)
qed

theorem courier_keys_never_delivered_witness:
  "\<exists>k. k \<in> set (courier_keys example_valid) \<and> map_of (cfg_BackendPlugins example_valid) (ck_Backend k) \<noteq> None
     \<and> fileConfig_validate example_golib ''/'' example_file = Inr example_valid"
proof -
  have k: "\<lparr>ck_Backend = ''b'', ck_Location = ''a''\<rparr> \<in> set (courier_keys example_valid)"
    by (simp add: courier_keys_def example_valid_def)
  from courier_keys_never_delivered[OF example_validates k] k example_validates show ?thesis by blast
qed

theorem courier_keys_distinct_witness: "distinct (courier_keys example_valid) \<and> courier_keys example_valid \<noteq> []"
  using courier_keys_distinct[OF example_validates]
  by (simp add: SharesAgentCertificate_def example_valid_def courier_keys_def)


theorem validated_policies_witness:
  "\<exists>p. map_of (cfg_Policies example_valid) ''c'' = Some p \<and> pol_Name p = ''c'' \<and> pol_Secrets p \<noteq> []"
proof -
  have p: "(''c'', snd (hd (cfg_Policies example_valid))) \<in> set (cfg_Policies example_valid)" by (simp add: example_valid_def)
  from validated_policies[OF example_validates p] show ?thesis by (simp add: example_valid_def)
qed

section \<open>Secret Names\<close>

lemma Upstream_ok:
  assumes "fileUpstream_validate G baseDir name u = Inr up"
  shows "up_Name up = name \<and> up_Scheme up = ''https'' \<and> up_Host up \<noteq> []"
proof -
  obtain p where p: "url_Parse G (fup_URL u) = Some p" "u_Scheme p = ''https''" "u_Host p \<noteq> []"
      "up = \<lparr>up_Name = name, up_Scheme = u_Scheme p, up_Host = u_Host p, up_BasePath = trimRightSlash (u_EscapedPath p), up_RootCAs = up_RootCAs up\<rparr>"
    using assms by (cases "url_Parse G (fup_URL u)") (auto simp: fileUpstream_validate_def Let_def split: if_splits)
  then show ?thesis by (metis Upstream.select_convs(1-3))
qed

lemma validateUpstreams_ok:
  assumes "validateUpstreams G baseDir m = Inr ups"
  shows "length ups = length m" and "\<And>n up. (n, up) \<in> set ups \<Longrightarrow> up_Name up = n \<and> up_Scheme up = ''https'' \<and> up_Host up \<noteq> []"
proof -
  show "length ups = length m" using emap_Inr_length[OF assms[unfolded validateUpstreams_def validate_map_def]] by simp
  show "up_Name up = n \<and> up_Scheme up = ''https'' \<and> up_Host up \<noteq> []" if "(n, up) \<in> set ups" for n up
    using validate_mapD[OF assms[unfolded validateUpstreams_def] that] Upstream_ok by blast
qed

lemma builtinPresets_ok:
  assumes "builtinPresets G = Inr ps" and "map_of ps n = Some p"
  shows "pr_upstreams p \<noteq> [] \<and> (\<forall>(k, up)\<in>set (pr_upstreams p). up_Name up = k \<and> up_Scheme up = ''https'' \<and> up_Host up \<noteq> [])"
proof -
  have "validate_map (\<lambda>name p. ewrap (Wrapf ''preset %q: %w'' [name]) (if \<not> namePattern name then cerr ''invalid name'' [] else filePreset_validate G p)) presetsYAML = Inr ps"
    using assms(1) by (simp add: builtinPresets_def parsePresets_def)
  from validate_mapD[OF this map_of_SomeD[OF assms(2)]] obtain f where "filePreset_validate G f = Inr p" by (auto split: if_splits)
  then have f: "fpr_Upstreams f \<noteq> []" "validateUpstreams G [] (fpr_Upstreams f) = Inr (pr_upstreams p)"
    by (auto simp: filePreset_validate_def split: option.splits if_splits)
  note V = validateUpstreams_ok[OF f(2)]
  have "pr_upstreams p \<noteq> []" using V(1) f(1) by auto
  moreover have "\<forall>(k, up)\<in>set (pr_upstreams p). up_Name up = k \<and> up_Scheme up = ''https'' \<and> up_Host up \<noteq> []" using V(2) by blast
  ultimately show ?thesis by blast
qed

text \<open>What a Secret Name that passed validation satisfies.\<close>

definition secret_wf :: "string \<Rightarrow> SecretName \<Rightarrow> bool" where
  "secret_wf n s \<longleftrightarrow> sn_Name s = n \<and> namePattern n \<and> Location (sn_Location s) = Inr ()
     \<and> (sn_CacheTTL s = 0 \<or> second \<le> sn_CacheTTL s \<and> sn_CacheTTL s \<le> 3600 * second)
     \<and> (sn_InjectionTemplate s = None \<longleftrightarrow> sn_Upstreams s = [])
     \<and> (\<forall>(k, up)\<in>set (sn_Upstreams s). up_Name up = k \<and> up_Scheme up = ''https'' \<and> up_Host up \<noteq> [])"

lemma secret_preset_ok:
  assumes "secret_preset G baseDir name f out = Inr s"
  shows "sn_Name s = sn_Name out \<and> sn_Location s = sn_Location out \<and> sn_Backend s = sn_Backend out \<and> sn_CacheTTL s = sn_CacheTTL out
    \<and> sn_InjectionTemplate s \<noteq> None \<and> sn_Upstreams s \<noteq> []
    \<and> (\<forall>(k, up)\<in>set (sn_Upstreams s). up_Name up = k \<and> up_Scheme up = ''https'' \<and> up_Host up \<noteq> [])"
proof -
  obtain ps p where p: "builtinPresets G = Inr ps" "map_of ps (fsn_Preset f) = Some p"
    using assms by (auto simp: secret_preset_def split: option.splits)
  note B = builtinPresets_ok[OF p]
  show ?thesis
  proof (cases "fsn_Upstreams f = []")
    case True
    with assms p B show ?thesis by (auto simp: secret_preset_def Let_def split: if_splits)
  next
    case False
    then obtain ups where u: "validateUpstreams G baseDir (fsn_Upstreams f) = Inr ups"
      using assms p by (auto simp: secret_preset_def Let_def split: if_splits)
    note V = validateUpstreams_ok[OF u]
    have s: "s = out\<lparr>sn_Preset := fsn_Preset f, sn_InjectionTemplate := Some (pr_template p), sn_Upstreams := ups, sn_Env := pr_env p\<rparr>"
      using assms p u False by (auto simp: secret_preset_def Let_def split: if_splits)
    have "ups \<noteq> []" using V(1) False by auto
    with V(2) show ?thesis by (auto simp: s)
  qed
qed

lemma secret_template_ok:
  assumes "secret_template G baseDir name f out = Inr s" and "sn_InjectionTemplate out = None" and "sn_Upstreams out = []"
  shows "sn_Name s = sn_Name out \<and> sn_Location s = sn_Location out \<and> sn_Backend s = sn_Backend out \<and> sn_CacheTTL s = sn_CacheTTL out
    \<and> (sn_InjectionTemplate s = None \<longleftrightarrow> sn_Upstreams s = [])
    \<and> (\<forall>(k, up)\<in>set (sn_Upstreams s). up_Name up = k \<and> up_Scheme up = ''https'' \<and> up_Host up \<noteq> [])"
proof (cases "fsn_InjectionTemplate f")
  case None
  with assms show ?thesis by (auto simp: secret_template_def split: if_splits)
next
  case (Some it)
  then obtain tmpl ups where u: "fsn_Upstreams f \<noteq> []" "validateUpstreams G baseDir (fsn_Upstreams f) = Inr ups"
      "s = out\<lparr>sn_InjectionTemplate := Some tmpl, sn_Upstreams := ups, sn_Env := defaultEnv name tmpl\<rparr>"
    using assms(1) by (auto simp: secret_template_def split: if_splits)
  note V = validateUpstreams_ok[OF u(2)]
  have "ups \<noteq> []" using V(1) u(1) by auto
  with u(3) V(2) show ?thesis by auto
qed

text \<open>
  C39: the type of a validated Secret Name: its name is safe in a URL, a command line and a
  log, its Backend is configured and its location valid, its cache TTL is off or from one
  second to one hour, it has an Injection Template exactly when it has Upstreams, and every
  Upstream is an https origin with a host.
\<close>

theorem validated_secret_names:
  assumes "fileConfig_validate G baseDir raw = Inr cfg" and "(n, s) \<in> set (cfg_Secrets cfg)"
  shows "secret_wf n s \<and> map_of (cfg_BackendPlugins cfg) (sn_Backend s) \<noteq> None"
proof -
  have "validate_map (fileSecretName_validate G baseDir (cfg_BackendPlugins cfg)) (fc_Secrets raw) = Inr (cfg_Secrets cfg)"
    by (rule fileConfig_validateE[OF assms(1)])
  from validate_mapD[OF this assms(2)] obtain f where f: "fileSecretName_validate G baseDir (cfg_BackendPlugins cfg) n f = Inr s" by blast
  let ?out = "\<lambda>ttl. \<lparr>sn_Name = n, sn_Backend = fsn_Backend f, sn_Location = fsn_Location f, sn_CacheTTL = ttl,
      sn_InjectionTemplate = None, sn_Upstreams = [], sn_Preset = [], sn_Env = []\<rparr>"
  obtain ttl where t: "namePattern n" "Location (fsn_Location f) = Inr ()" "map_of (cfg_BackendPlugins cfg) (fsn_Backend f) \<noteq> None"
      "validate_cacheTTL G n (fsn_CacheTTL f) = Inr ttl"
      "secret_preset G baseDir n f (?out ttl) = Inr s \<or> secret_template G baseDir n f (?out ttl) = Inr s"
    using f by (auto simp: fileSecretName_validate_def Let_def split: if_splits)
  have "ttl = 0 \<or> second \<le> ttl \<and> ttl \<le> 3600 * second"
    using t(4) by (auto simp: validate_cacheTTL_def MaxCacheTTL_def split: if_splits option.splits)
  moreover have "sn_Name s = n \<and> sn_Location s = fsn_Location f \<and> sn_Backend s = fsn_Backend f \<and> sn_CacheTTL s = ttl
      \<and> (sn_InjectionTemplate s = None \<longleftrightarrow> sn_Upstreams s = [])
      \<and> (\<forall>(k, up)\<in>set (sn_Upstreams s). up_Name up = k \<and> up_Scheme up = ''https'' \<and> up_Host up \<noteq> [])"
    using t(5)
  proof
    assume "secret_preset G baseDir n f (?out ttl) = Inr s"
    from secret_preset_ok[OF this] show ?thesis by auto
  next
    assume "secret_template G baseDir n f (?out ttl) = Inr s"
    from secret_template_ok[OF this] show ?thesis by auto
  qed
  ultimately show ?thesis using t(1-3) by (simp add: secret_wf_def)
qed

theorem validated_secret_names_witness:
  "\<exists>s. map_of (cfg_Secrets example_valid) ''g'' = Some s \<and> secret_wf ''g'' s"
proof -
  have "(''g'', snd (hd (cfg_Secrets example_valid))) \<in> set (cfg_Secrets example_valid)" by (simp add: example_valid_def)
  from validated_secret_names[OF example_validates this] show ?thesis by (simp add: example_valid_def)
qed

section \<open>Reload\<close>

text \<open>
  A reload is atomic: on any error the running snapshot stays and no callback runs;
  otherwise the new snapshot is one that \<open>Load\<close> validated and the startup checks accepted, it
  agrees with the old one on everything that binds a listener, opens the database, launches a
  Backend Plugin or signs the audit chain, and every callback gets it.
\<close>

theorem reload_is_atomic:
  assumes "Reload G F startupCheck r = (res, r')" and "distinct (map fst (cfg_BackendPlugins (Snapshot r)))"
  shows "(\<exists>e. res = Inl e \<and> r' = r) \<or> (\<exists>cfg. res = Inr cfg \<and> Snapshot r' = cfg \<and> run_reloaded r' = run_reloaded r @ [cfg]
    \<and> Load G F (cfg_Path (Snapshot r)) = Inr cfg \<and> startupCheck cfg = Inr ()
    \<and> cfg_DataDir cfg = cfg_DataDir (Snapshot r) \<and> Admin_Equal (cfg_Admin (Snapshot r)) (cfg_Admin cfg)
    \<and> AgentAPI_Equal (cfg_AgentAPI (Snapshot r)) (cfg_AgentAPI cfg) \<and> cfg_Audit cfg = cfg_Audit (Snapshot r)
    \<and> (distinct (map fst (cfg_BackendPlugins cfg)) \<longrightarrow> (\<forall>b. map_of (cfg_BackendPlugins cfg) b = map_of (cfg_BackendPlugins (Snapshot r)) b)))"
proof (cases "Load G F (cfg_Path (run_current r))")
  case (Inl e)
  with assms(1) have "res = Inl e \<and> r' = r" by (simp add: Reload_def)
  then show ?thesis by blast
next
  case (Inr cfg)
  show ?thesis
  proof (cases "restartKeys (run_current r) cfg = [] \<and> startupCheck cfg = Inr ()")
    case False
    with assms(1) Inr show ?thesis by (auto simp: Reload_def cerr_def Let_def split: if_splits sum.splits)
  next
    case True
    then have k: "restartKeys (run_current r) cfg = []" by simp
    have "cfg_Audit cfg = cfg_Audit (run_current r)" "cfg_DataDir cfg = cfg_DataDir (run_current r)"
      "Admin_Equal (cfg_Admin (run_current r)) (cfg_Admin cfg)" "AgentAPI_Equal (cfg_AgentAPI (run_current r)) (cfg_AgentAPI cfg)"
      "maps_Equal BackendPlugin_Equal (cfg_BackendPlugins (run_current r)) (cfg_BackendPlugins cfg)"
      using k by (auto simp: restartKeys_def split: if_splits)
    moreover have "map_of (cfg_BackendPlugins cfg) b = map_of (cfg_BackendPlugins (run_current r)) b"
      if "distinct (map fst (cfg_BackendPlugins cfg))" for b
    proof -
      have "rel_option BackendPlugin_Equal (map_of (cfg_BackendPlugins (run_current r)) b) (map_of (cfg_BackendPlugins cfg) b)"
        using maps_Equal_lookup[OF calculation(5)] assms(2) that by (simp add: Snapshot_def)
      moreover have "BackendPlugin_Equal = (=)" by (intro ext) (rule BackendPlugin_Equal_eq)
      ultimately show ?thesis by (simp add: option.rel_eq)
    qed
    moreover have "res = Inr cfg" "r' = \<lparr>run_current = cfg, run_reloaded = run_reloaded r @ [cfg]\<rparr>"
      using assms(1) Inr True by (simp_all add: Reload_def)
    ultimately show ?thesis using Inr True by (auto simp: Snapshot_def)
  qed
qed

definition example_fileenv :: fileenv where
  "example_fileenv = \<lparr>fe_decode = (\<lambda>_. Some example_file), fe_dir = (\<lambda>_. ''/''), fe_abs = Some\<rparr>"

theorem reload_is_atomic_witness:
  "\<exists>cfg r'. Reload example_golib example_fileenv (\<lambda>_. Inr ()) (NewRunning (example_valid\<lparr>cfg_Policies := []\<rparr>)) = (Inr cfg, r')
     \<and> Snapshot r' = cfg \<and> cfg = example_valid \<and> run_reloaded r' = [cfg]"
proof -
  let ?r = "NewRunning (example_valid\<lparr>cfg_Policies := []\<rparr>)"
  have load: "Load example_golib example_fileenv [] = Inr example_valid"
    by (simp add: Load_def example_fileenv_def example_validates) (simp add: example_valid_def)
  have "restartKeys (run_current ?r) example_valid = []"
    by (simp add: restartKeys_def NewRunning_def example_valid_def Admin_Equal_def AgentAPI_Equal_def maps_Equal_def BackendPlugin_Equal_def)
  then have R: "Reload example_golib example_fileenv (\<lambda>_. Inr ()) ?r = (Inr example_valid, \<lparr>run_current = example_valid, run_reloaded = [example_valid]\<rparr>)"
    using load by (simp add: Reload_def NewRunning_def) (simp add: example_valid_def)
  have d: "distinct (map fst (cfg_BackendPlugins (Snapshot ?r)))" by (simp add: NewRunning_def Snapshot_def example_valid_def)
  from reload_is_atomic[OF R d] R show ?thesis by auto
qed

end
