(* ===== verification/HTTP_Model.thy ===== *)
theory HTTP_Model
  imports Config_Leaves Secrets
begin

text \<open>
  What the Agent API uses of \<open>net/http\<close>, \<open>net/url\<close> and \<open>strings\<close>: header maps, query
  strings, and the response writer. A header map is an association list from canonical names
  to values; the writer keeps the live header map, every head handed to the connection (1xx
  responses included) and the body bytes handed to it.
\<close>

section \<open>Strings\<close>

text \<open>\<open>strings.EqualFold\<close>; \<open>rune_Fold\<close> gives a representative of a rune's case-folding orbit.\<close>

definition EqualFold :: "golib \<Rightarrow> string \<Rightarrow> string \<Rightarrow> bool" where
  "EqualFold G s t \<longleftrightarrow> map (rune_Fold G \<circ> fst) (runes s) = map (rune_Fold G \<circ> fst) (runes t)"

lemma EqualFold_refl [simp]: "EqualFold G s s"
  by (simp add: EqualFold_def)

text \<open>\<open>strings.TrimSpace\<close>.\<close>

definition space_width :: "(nat \<times> nat) list \<Rightarrow> nat" where
  "space_width rs = sum_list (map snd (takeWhile (\<lambda>(r, _). unicode_space r) rs))"

definition trimSpace :: "string \<Rightarrow> string" where
  "trimSpace s = (let a = space_width (runes s); b = space_width (rev (runes s))
     in take (length s - a - b) (drop a s))"

section \<open>Header maps\<close>

type_synonym Header = "string list gomap"

text \<open>\<open>textproto.CanonicalMIMEHeaderKey\<close>: a name with an invalid byte stays as it is.\<close>

definition canonicalKey :: "string \<Rightarrow> string" where
  "canonicalKey k = (if list_all tchar k then CanonicalHeaderKey k else k)"

definition Header_Values :: "Header \<Rightarrow> string \<Rightarrow> string list" where
  "Header_Values h k = (case map_of h (canonicalKey k) of None \<Rightarrow> [] | Some vs \<Rightarrow> vs)"

definition Header_Get :: "Header \<Rightarrow> string \<Rightarrow> string" where
  "Header_Get h k = (case Header_Values h k of [] \<Rightarrow> [] | v # _ \<Rightarrow> v)"

definition Header_Del :: "Header \<Rightarrow> string \<Rightarrow> Header" where
  "Header_Del h k = filter (\<lambda>(n, _). n \<noteq> canonicalKey k) h"

definition Header_Set :: "Header \<Rightarrow> string \<Rightarrow> string \<Rightarrow> Header" where
  "Header_Set h k v = Header_Del h k @ [(canonicalKey k, [v])]"

definition Header_Add :: "Header \<Rightarrow> string \<Rightarrow> string \<Rightarrow> Header" where
  "Header_Add h k v = Header_Del h k @ [(canonicalKey k, Header_Values h k @ [v])]"

definition copyHeader :: "Header \<Rightarrow> Header \<Rightarrow> Header" where
  "copyHeader dst src = fold (\<lambda>(k, vs) h. fold (\<lambda>v h. Header_Add h k v) vs h) src dst"

lemma map_of_Del: "map_of (Header_Del h k) n = (if n = canonicalKey k then None else map_of h n)"
  by (induction h) (auto simp: Header_Del_def)

lemma Values_Del [simp]: "Header_Values (Header_Del h k) n = (if canonicalKey n = canonicalKey k then [] else Header_Values h n)"
  by (simp add: Header_Values_def map_of_Del)

lemma Values_Set [simp]: "Header_Values (Header_Set h k v) n = (if canonicalKey n = canonicalKey k then [v] else Header_Values h n)"
  by (auto simp: Header_Values_def Header_Set_def map_of_Del map_add_def split: option.splits)

lemma Values_Add [simp]:
  "Header_Values (Header_Add h k v) n = (if canonicalKey n = canonicalKey k then Header_Values h n @ [v] else Header_Values h n)"
  by (auto simp: Header_Values_def Header_Add_def map_of_Del map_add_def split: option.splits)

lemma Get_Set [simp]: "canonicalKey n = canonicalKey k \<Longrightarrow> Header_Get (Header_Set h k v) n = v"
  by (simp add: Header_Get_def)

text \<open>Whatever holds of every name and value of a header map holds after deleting, and after adding such a value.\<close>

definition header_all :: "(string \<Rightarrow> string \<Rightarrow> bool) \<Rightarrow> Header \<Rightarrow> bool" where
  "header_all P h \<longleftrightarrow> (\<forall>k vs. map_of h k = Some vs \<longrightarrow> (\<forall>v\<in>set vs. P k v))"

lemma header_all_Nil [simp]: "header_all P []"
  by (simp add: header_all_def)

lemma header_all_Del: "header_all P h \<Longrightarrow> header_all P (Header_Del h k)"
  by (simp add: header_all_def map_of_Del)

lemma map_of_Set: "map_of (Header_Set h k v) n = (if n = canonicalKey k then Some [v] else map_of h n)"
  by (auto simp: Header_Set_def map_of_Del map_add_def split: option.splits)

lemma header_all_Set: "header_all P h \<Longrightarrow> P (canonicalKey k) v \<Longrightarrow> header_all P (Header_Set h k v)"
  by (simp add: header_all_def map_of_Set)

lemma map_of_filter_key: "map_of (filter (\<lambda>(k, _). P k) h) n = (if P n then map_of h n else None)"
  by (induction h) auto

lemma map_of_map_values: "map_of (map (\<lambda>(k, vs). (k, f vs)) h) n = map_option f (map_of h n)"
  by (induction h) auto

section \<open>Query strings\<close>

text \<open>\<open>url.ParseQuery\<close>, as the pairs it accepts, in order: it drops a pair with a semicolon or that does not unescape.\<close>

definition parse_pair :: "string \<Rightarrow> (string \<times> string) option" where
  "parse_pair p = (
     if CHR '';'' \<in> set p \<or> p = [] then None
     else (case cut p ''='' of (k, v, _) \<Rightarrow>
       (case (queryUnescape k, queryUnescape v) of (Some k', Some v') \<Rightarrow> Some (k', v') | _ \<Rightarrow> None)))"

definition ParseQuery :: "string \<Rightarrow> (string \<times> string) list" where
  "ParseQuery q = List.map_filter parse_pair (splitc (CHR ''&'') q)"

text \<open>\<open>query[name]\<close>.\<close>

definition query_values :: "string \<Rightarrow> string \<Rightarrow> string list" where
  "query_values q name = map snd (filter (\<lambda>(k, _). k = name) (ParseQuery q))"

text \<open>\<open>url.Values.Encode\<close>: by name, the values of one name in their order.\<close>

definition Values_Encode :: "(string \<times> string) list \<Rightarrow> string" where
  "Values_Encode ps = joinc ''&'' (map (\<lambda>(k, v). queryEscape k @ ''='' @ queryEscape v) (sort_key fst ps))"

text \<open>\<open>cleanQueryParams\<close> of \<open>net/http/httputil\<close>.\<close>

fun query_clean :: "string \<Rightarrow> bool" where
  "query_clean [] = True"
| "query_clean (c # s) = (
     if c = CHR '';'' then False
     else if c = CHR ''%'' then (case s of a # b # r \<Rightarrow> ishex a \<and> ishex b \<and> query_clean r | _ \<Rightarrow> False)
     else query_clean s)"

definition cleanQueryParams :: "string \<Rightarrow> string" where
  "cleanQueryParams q = (if query_clean q then q else Values_Encode (ParseQuery q))"

lemma query_values_append_pair:
  "query_values (q @ CHR ''&'' # p) name = query_values q name @ query_values p name"
  by (simp add: query_values_def ParseQuery_def splitc_append map_filter_def)

section \<open>The response writer\<close>

record ResponseWriter =
  rw_Header :: Header
  rw_heads :: "(int \<times> Header) list"
  rw_wroteHeader :: bool
  rw_body :: bytes

definition new_writer :: ResponseWriter where
  "new_writer = \<lparr>rw_Header = [], rw_heads = [], rw_wroteHeader = False, rw_body = []\<rparr>"

definition set_header :: "string \<Rightarrow> string \<Rightarrow> ResponseWriter \<Rightarrow> ResponseWriter" where
  "set_header k v w = w\<lparr>rw_Header := Header_Set (rw_Header w) k v\<rparr>"

text \<open>\<open>WriteHeader\<close>: an informational status may be followed by others; the final one is written once.\<close>

definition WriteHeader :: "int \<Rightarrow> ResponseWriter \<Rightarrow> ResponseWriter" where
  "WriteHeader code w = (
     if rw_wroteHeader w then w
     else w\<lparr>rw_heads := rw_heads w @ [(code, rw_Header w)], rw_wroteHeader := \<not> (100 \<le> code \<and> code \<le> 199 \<and> code \<noteq> 101)\<rparr>)"

definition write_body :: "bytes \<Rightarrow> ResponseWriter \<Rightarrow> ResponseWriter" where
  "write_body p w = (let w' = (if rw_wroteHeader w then w else WriteHeader 200 w) in w'\<lparr>rw_body := rw_body w' @ p\<rparr>)"

text \<open>The status of the final head, if it was written.\<close>

definition rw_status :: "ResponseWriter \<Rightarrow> int option" where
  "rw_status w = (if rw_wroteHeader w then Some (fst (last (rw_heads w))) else None)"

lemma write_body_fields [simp]:
  "rw_body (write_body p w) = rw_body w @ p" "rw_Header (write_body p w) = rw_Header w"
  by (simp_all add: write_body_def WriteHeader_def Let_def)

lemma WriteHeader_fields [simp]: "rw_body (WriteHeader c w) = rw_body w" "rw_Header (WriteHeader c w) = rw_Header w"
  by (simp_all add: WriteHeader_def)

lemma set_header_fields [simp]:
  "rw_body (set_header k v w) = rw_body w" "rw_heads (set_header k v w) = rw_heads w" "rw_wroteHeader (set_header k v w) = rw_wroteHeader w"
  "rw_Header (set_header k v w) = Header_Set (rw_Header w) k v"
  by (simp_all add: set_header_def)

section \<open>Requests\<close>

text \<open>
  A request as the handlers read it: \<open>req_SecretName\<close> and \<open>req_Upstream\<close> are the path values
  of the pattern the multiplexer matched, \<open>req_EscapedPath\<close> is \<open>r.URL.EscapedPath()\<close>.
\<close>

record http_request =
  req_Method :: string
  req_EscapedPath :: string
  req_RawQuery :: string
  req_Header :: Header
  req_Body :: bytes
  req_SecretName :: string
  req_Upstream :: string

end
