(* ===== verification/Proxy_Credential.thy ===== *)
theory Proxy_Credential
  imports HTTP_Model Path_Prefix Access
begin

text \<open>
  The pure parts of \<open>internal/agentapi/proxy.go\<close>: rendering a Secret by an Injection
  Template, finding an Agent Token where the template would put the Secret, dropping a query
  parameter, and the path that is forwarded.
\<close>

section \<open>Rendering\<close>

record credential =
  cred_header :: string
  cred_headerValue :: string
  cred_query :: string
  cred_queryValue :: string
  cred_needles :: "string list"

datatype render_error = errReleased | errHeaderControl | errUsernameColon

text \<open>\<open>headerValueWriter.Write\<close>: what it adds to the builder.\<close>

definition headerValueWriter_Write :: "bytes \<Rightarrow> (render_error, bytes) result" where
  "headerValueWriter_Write p = (if list_ex (\<lambda>c. byte c < 0x20 \<or> byte c = 0x7F) p then Inl errHeaderControl else Inr p)"

text \<open>\<open>value.WriteTo\<close> into a builder through such a writer.\<close>

definition builder_WriteTo :: "(bytes \<Rightarrow> (render_error, bytes) result) \<Rightarrow> Secret \<Rightarrow> heap \<Rightarrow> (render_error, bytes) result" where
  "builder_WriteTo write s h = (case contents h s of None \<Rightarrow> Inl errReleased | Some v \<Rightarrow> write v)"

definition renderBasicAuth :: "BasicAuthTemplate \<Rightarrow> Secret \<Rightarrow> heap \<Rightarrow> (render_error, credential) result" where
  "renderBasicAuth t s h = ebind (builder_WriteTo Inr s h) (\<lambda>v.
     let pair = ba_Username t @ (if ba_SecretIsUsername t then [] else '':'') @ v
                  @ (if ba_SecretIsUsername t then '':'' else []) @ ba_Password t;
         raw = (if ba_SecretIsUsername t then take (length pair - length (ba_Password t) - 1) pair
                else drop (length (ba_Username t) + 1) pair);
         scheme = ''Basic '';
         header = scheme @ base64_encode pair
     in if ba_SecretIsUsername t \<and> contains raw '':'' then Inl errUsernameColon
        else Inr \<lparr>cred_header = ''Authorization'', cred_headerValue = header, cred_query = [], cred_queryValue = [],
                  cred_needles = [raw, drop (length scheme) header]\<rparr>)"

definition render :: "InjectionTemplate \<Rightarrow> Secret \<Rightarrow> heap \<Rightarrow> (render_error, credential) result" where
  "render t s h = (case t of
      BasicAuthT b \<Rightarrow> renderBasicAuth b s h
    | QueryT q \<Rightarrow> ebind (builder_WriteTo Inr s h) (\<lambda>raw.
        Inr \<lparr>cred_header = [], cred_headerValue = [], cred_query = qt_Name q, cred_queryValue = queryEscape raw,
             cred_needles = [raw, queryEscape raw]\<rparr>)
    | HeaderT ht \<Rightarrow> ebind (builder_WriteTo headerValueWriter_Write s h) (\<lambda>p.
        let v = ht_Prefix ht @ p @ ht_Suffix ht
        in Inr \<lparr>cred_header = ht_Name ht, cred_headerValue = v, cred_query = [], cred_queryValue = [],
                cred_needles = [take (length v - length (ht_Suffix ht) - length (ht_Prefix ht)) (drop (length (ht_Prefix ht)) v)]\<rparr>))"

section \<open>Reading an Agent Token back\<close>

definition extractHeader :: "golib \<Rightarrow> string \<Rightarrow> HeaderTemplate \<Rightarrow> string option" where
  "extractHeader G value t = (
     if length value < length (ht_Prefix t) + length (ht_Suffix t)
        \<or> \<not> EqualFold G (take (length (ht_Prefix t)) value) (ht_Prefix t)
        \<or> \<not> EqualFold G (drop (length value - length (ht_Suffix t)) value) (ht_Suffix t) then None
     else Some (take (length value - length (ht_Suffix t) - length (ht_Prefix t)) (drop (length (ht_Prefix t)) value)))"

definition extractBasicAuth :: "golib \<Rightarrow> string \<Rightarrow> BasicAuthTemplate \<Rightarrow> string option" where
  "extractBasicAuth G value t = (case cut value '' '' of (scheme, encoded, ok) \<Rightarrow>
     if \<not> ok \<or> \<not> EqualFold G scheme ''Basic'' then None
     else (case base64_decode encoded of
        None \<Rightarrow> None
      | Some decoded \<Rightarrow> (case cut decoded '':'' of (username, password, ok) \<Rightarrow>
          if \<not> ok then None
          else if ba_SecretIsUsername t then (if password = ba_Password t then Some username else None)
          else (if username = ba_Username t then Some password else None))))"

section \<open>Paths and queries\<close>

definition withoutParam :: "string \<Rightarrow> string \<Rightarrow> string" where
  "withoutParam rawQuery name = joinc ''&'' (filter (\<lambda>pair.
     let key = fst (cut pair ''='');
         key = (case queryUnescape key of Some k \<Rightarrow> k | None \<Rightarrow> key)
     in key \<noteq> name) (splitc (CHR ''&'') rawQuery))"

text \<open>The check of one segment of \<open>forwardedPath\<close>.\<close>

definition forwardable :: "string \<Rightarrow> bool" where
  "forwardable seg \<longleftrightarrow> (case pathUnescape seg of
      None \<Rightarrow> False
    | Some decoded \<Rightarrow> \<not> list_ex (\<lambda>part. isDots (fst (cut part '';''))) (fieldsFunc isSlash decoded))"

definition forwardedPath :: "string \<Rightarrow> string option" where
  "forwardedPath escaped = (
     let parts = splitN (CHR ''/'') 5 escaped in
     if length parts < 5 then Some []
     else (let rest = parts ! 4 in
       if list_all forwardable (splitc (CHR ''/'') rest) then Some (''/'' @ rest) else None))"

section \<open>Lemmas\<close>

lemma queryEscape_chars: "set (queryEscape s) \<subseteq> {c. unreserved c \<or> c = CHR ''+'' \<or> c = CHR ''%''}"
proof -
  have "unreserved (hexdigit_upper n)" if "n < 16" for n
    using that by (auto simp: hexdigit_upper_def unreserved_def)
  then have "set (escape_byte c) \<subseteq> {c. unreserved c \<or> c = CHR ''+'' \<or> c = CHR ''%''}" for c
    using less_mult_imp_div_less[of "byte c" 16 16] byte_lt[of c] by (simp add: escape_byte_def)
  then show ?thesis by (auto simp: queryEscape_def)
qed

lemma queryEscape_no_sep: "CHR ''&'' \<notin> set (queryEscape s)" "CHR '';'' \<notin> set (queryEscape s)"
  using queryEscape_chars[of s] by (auto simp: unreserved_def)

lemma queryName_plain:
  assumes "queryNamePattern n"
  shows "queryUnescape n = Some n" "CHR ''='' \<notin> set n" "CHR ''&'' \<notin> set n" "CHR '';'' \<notin> set n" "n \<noteq> []"
proof -
  have c: "isAlnum c \<or> c \<in> set ''._~-''" if "c \<in> set n" for c
    using assms that by (auto simp: queryNamePattern_def list_all_iff)
  show "CHR ''='' \<notin> set n" using c[of "CHR ''=''"] by (auto simp: isAlnum_def)
  show "CHR ''&'' \<notin> set n" using c[of "CHR ''&''"] by (auto simp: isAlnum_def)
  show "CHR '';'' \<notin> set n" using c[of "CHR '';''"] by (auto simp: isAlnum_def)
  show "n \<noteq> []" using assms by (simp add: queryNamePattern_def)
  have "CHR ''%'' \<notin> set n" using c[of "CHR ''%''"] by (auto simp: isAlnum_def)
  moreover have "CHR ''+'' \<notin> set n" using c[of "CHR ''+''"] by (auto simp: isAlnum_def)
  ultimately show "queryUnescape n = Some n" by (induction n) auto
qed

lemma credential_pair:
  assumes "queryNamePattern n"
  shows "query_values (n @ ''='' @ queryEscape v) m = (if m = n then [v] else [])"
proof -
  let ?p = "n @ ''='' @ queryEscape v"
  have "CHR ''&'' \<notin> set ?p" using queryName_plain[OF assms] queryEscape_no_sep by auto
  then have "splitc (CHR ''&'') ?p = [?p]" by (rule splitc_no_sep)
  moreover have "cut ?p ''='' = (n, queryEscape v, True)"
    using cut_single[OF queryName_plain(2)[OF assms], of "queryEscape v"] by simp
  then have "parse_pair ?p = Some (n, v)"
    using queryName_plain[OF assms] queryEscape_no_sep by (auto simp: parse_pair_def queryUnescape_queryEscape)
  ultimately show ?thesis by (simp add: query_values_def ParseQuery_def map_filter_def)
qed

lemma parse_pair_Nil [simp]: "parse_pair [] = None"
  by (simp add: parse_pair_def)

lemma query_values_Nil [simp]: "query_values [] n = []"
  by (simp add: query_values_def ParseQuery_def map_filter_def)

lemma splitc_withoutParam:
  "splitc (CHR ''&'') (joinc ''&'' (filter P (splitc (CHR ''&'') q))) =
     (if filter P (splitc (CHR ''&'') q) = [] then [[]] else filter P (splitc (CHR ''&'') q))"
  using splitc_joinc[of "filter P (splitc (CHR ''&'') q)" "CHR ''&''"] splitc_parts[of _ "CHR ''&''" q] by auto

lemma ParseQuery_filter:
  "ParseQuery (joinc ''&'' (filter P (splitc (CHR ''&'') q))) = List.map_filter parse_pair (filter P (splitc (CHR ''&'') q))"
  by (simp add: ParseQuery_def splitc_withoutParam map_filter_simps)

lemma parse_pair_key:
  "parse_pair p = Some (k, v) \<Longrightarrow> (case queryUnescape (fst (cut p ''='')) of Some k \<Rightarrow> k | None \<Rightarrow> fst (cut p ''='')) = k"
  by (auto simp: parse_pair_def split: if_splits option.splits prod.splits)

lemma query_values_withoutParam:
  "query_values (withoutParam q n) m = (if m = n then [] else query_values q m)"
proof -
  let ?key = "\<lambda>p. case queryUnescape (fst (cut p ''='')) of Some k \<Rightarrow> k | None \<Rightarrow> fst (cut p ''='')"
  have f: "filter (\<lambda>(k, _). k = m) (List.map_filter parse_pair (filter (\<lambda>p. ?key p \<noteq> n) ps))
      = (if m = n then [] else filter (\<lambda>(k, _). k = m) (List.map_filter parse_pair ps))" for ps
  proof (induction ps)
    case (Cons p ps)
    then show ?case using parse_pair_key[of p] by (cases "parse_pair p") (auto simp: map_filter_simps)
  qed (simp add: map_filter_simps)
  show ?thesis
    by (simp only: query_values_def withoutParam_def Let_def ParseQuery_filter f) (simp add: ParseQuery_def)
qed

text \<open>What validation guarantees of a template.\<close>

definition template_ok :: "InjectionTemplate \<Rightarrow> bool" where
  "template_ok t = (case t of
      HeaderT ht \<Rightarrow> headerNamePattern (ht_Name ht) \<and> canonicalKey (ht_Name ht) = ht_Name ht \<and> ht_Name ht \<notin> set reservedHeaders
    | QueryT q \<Rightarrow> queryNamePattern (qt_Name q)
    | BasicAuthT b \<Rightarrow> CHR '':'' \<notin> set (ba_Username b) \<and> (ba_SecretIsUsername b \<longrightarrow> ba_Username b = [])
        \<and> (\<not> ba_SecretIsUsername b \<longrightarrow> ba_Password b = []))"

lemma case_byte:
  "96 < byte c \<Longrightarrow> byte c < 123 \<Longrightarrow> byte (char_of (byte c - 32) :: char) = byte c - 32"
  "64 < byte c \<Longrightarrow> byte c < 91 \<Longrightarrow> byte (char_of (byte c + 32) :: char) = byte c + 32"
  by (rule byte_char_of, simp)+

lemma case_idem:
  "toUpperASCII (toUpperASCII s) = toUpperASCII s" "toLowerASCII (toLowerASCII s) = toLowerASCII s"
  by (induction s) (auto simp: toUpperASCII_def toLowerASCII_def case_byte)

lemma case_dash: "toUpperASCII [c] = ''-'' \<longleftrightarrow> c = CHR ''-''" "toLowerASCII [c] = ''-'' \<longleftrightarrow> c = CHR ''-''"
  by (auto simp: toUpperASCII_def toLowerASCII_def char_of_eq_iff)

lemma case_single: "\<exists>d. toUpperASCII [c] = [d]" "\<exists>d. toLowerASCII [c] = [d]"
  by (simp_all add: toUpperASCII_def toLowerASCII_def)

lemma canonical_from_idem: "canonical_from up (canonical_from up s) = canonical_from up s"
proof (induction s arbitrary: up)
  case (Cons c s)
  show ?case
  proof (cases up)
    case True
    obtain d where d: "toUpperASCII [c] = [d]" using case_single by blast
    then have "toUpperASCII [d] = [d]" "d = CHR ''-'' \<longleftrightarrow> c = CHR ''-''"
      using case_idem(1)[of "[c]"] case_dash(1)[of c] by auto
    with True d Cons show ?thesis by simp
  next
    case False
    obtain d where d: "toLowerASCII [c] = [d]" using case_single by blast
    then have "toLowerASCII [d] = [d]" "d = CHR ''-'' \<longleftrightarrow> c = CHR ''-''"
      using case_idem(2)[of "[c]"] case_dash(2)[of c] by auto
    with False d Cons show ?thesis by simp
  qed
qed simp

lemma tchar_case: "tchar c \<Longrightarrow> list_all tchar (toUpperASCII [c])" "tchar c \<Longrightarrow> list_all tchar (toLowerASCII [c])"
  by (auto simp: toUpperASCII_def toLowerASCII_def case_byte, auto simp: tchar_def isAlnum_def case_byte)

lemma canonical_from_tchar: "list_all tchar s \<Longrightarrow> list_all tchar (canonical_from up s)"
  by (induction s arbitrary: up) (auto simp: tchar_case)

lemma canonical_from_Nil: "canonical_from up s = [] \<longleftrightarrow> s = []"
  by (cases s) (auto simp: toUpperASCII_def toLowerASCII_def)

lemma canonicalKey_idem [simp]: "canonicalKey (canonicalKey k) = canonicalKey k"
  by (simp add: canonicalKey_def CanonicalHeaderKey_def canonical_from_idem canonical_from_tchar)

lemma validated_template: "fileInjectionTemplate_validate ft = Inr t \<Longrightarrow> template_ok t"
proof -
  have h: "template_ok (HeaderT x)" if "fileHeaderTemplate_validate a = Inr x" for a x
    using that by (auto simp: fileHeaderTemplate_validate_def template_ok_def cerr_def Let_def headerNamePattern_def canonicalKey_def
        CanonicalHeaderKey_def canonical_from_tchar canonical_from_Nil canonical_from_idem split: if_splits prod.splits)
  have b: "template_ok (BasicAuthT x)" if "fileBasicAuthTemplate_validate a = Inr x" for a x
    using that by (auto simp: fileBasicAuthTemplate_validate_def template_ok_def cerr_def contains_single split: if_splits)
  have q: "template_ok (QueryT x)" if "fileQueryTemplate_validate a = Inr x" for a x
    using that by (auto simp: fileQueryTemplate_validate_def template_ok_def cerr_def split: if_splits)
  assume "fileInjectionTemplate_validate ft = Inr t"
  then show ?thesis using h b q
    by (auto simp: fileInjectionTemplate_validate_def cerr_def Let_def split: if_splits option.splits)
qed

section \<open>Properties\<close>

text \<open>
  A validated Injection Template is read back as it is written. An SDK that puts the Agent
  Token where the Secret belongs is understood: extracting from the rendered credential gives
  the token, in a header, in a query parameter and in basic auth; and the rendered value itself
  is the first needle of Redaction.
\<close>

theorem template_roundtrip:
  assumes "fileInjectionTemplate_validate ft = Inr t" and "contents h s = Some tok" and "render t s h = Inr c"
  shows "(case t of
      HeaderT ht \<Rightarrow> cred_header c = ht_Name ht \<and> extractHeader G (cred_headerValue c) ht = Some tok
    | QueryT q \<Rightarrow> cred_query c = qt_Name q \<and> query_values (cred_query c @ ''='' @ cred_queryValue c) (qt_Name q) = [tok]
    | BasicAuthT b \<Rightarrow> cred_header c = ''Authorization'' \<and> extractBasicAuth G (cred_headerValue c) b = Some tok)
    \<and> cred_needles c ! 0 = tok"
proof (cases t)
  case (HeaderT ht)
  with assms(2,3) show ?thesis
    by (auto simp: render_def builder_WriteTo_def headerValueWriter_Write_def extractHeader_def Let_def split: if_splits)
next
  case (QueryT q)
  with validated_template[OF assms(1)] have "queryNamePattern (qt_Name q)" by (simp add: template_ok_def)
  from credential_pair[OF this, of tok "qt_Name q"] QueryT assms(2,3) show ?thesis
    by (auto simp: render_def builder_WriteTo_def)
next
  case (BasicAuthT b)
  have cutB: "cut (''Basic '' @ e) '' '' = (''Basic'', e, True)" for e :: string
    using cut_single[of "CHR '' ''" "''Basic''" e] by simp
  have cutC: "CHR '':'' \<notin> set u \<Longrightarrow> cut (u @ '':'' @ p) '':'' = (u, p, True)" for u p :: string
    using cut_single[of "CHR '':''" u p] by simp
  have ok: "template_ok (BasicAuthT b)" using validated_template[OF assms(1)] BasicAuthT by simp
  show ?thesis
  proof (cases "ba_SecretIsUsername b")
    case True
    with ok BasicAuthT assms(2,3) have u: "CHR '':'' \<notin> set tok" and c: "cred_headerValue c = ''Basic '' @ base64_encode (tok @ '':'' @ ba_Password b)"
      "cred_header c = ''Authorization''" "cred_needles c ! 0 = tok"
      by (auto simp: render_def renderBasicAuth_def builder_WriteTo_def template_ok_def contains_single Let_def split: if_splits)
    show ?thesis unfolding extractBasicAuth_def c cutB using cutC[OF u] True BasicAuthT c by (simp add: base64_decode_encode)
  next
    case False
    with ok BasicAuthT assms(2,3) have u: "CHR '':'' \<notin> set (ba_Username b)" and c: "cred_headerValue c = ''Basic '' @ base64_encode (ba_Username b @ '':'' @ tok)"
      "cred_header c = ''Authorization''" "cred_needles c ! 0 = tok"
      by (auto simp: render_def renderBasicAuth_def builder_WriteTo_def template_ok_def Let_def split: if_splits)
    show ?thesis unfolding extractBasicAuth_def c cutB using cutC[OF u] False BasicAuthT c by (simp add: base64_decode_encode)
  qed
qed

definition example_heap :: "bytes \<Rightarrow> heap" where
  "example_heap v = snd (newLocked True v empty_heap)"

lemma example_heap_contents: "contents (example_heap v) (Some 0) = Some v"
  by (simp add: example_heap_def newLocked_def allocate_copy_def contents_def deref_def empty_heap_def Let_def)

theorem template_roundtrip_witness:
  "extractBasicAuth example_golib ''Basic YzprZXk='' \<lparr>ba_Username = ''c'', ba_Password = [], ba_SecretIsUsername = False\<rparr> = Some ''key''"
proof -
  let ?t = "BasicAuthT \<lparr>ba_Username = ''c'', ba_Password = [], ba_SecretIsUsername = False\<rparr>"
  have v: "fileInjectionTemplate_validate \<lparr>fit_Header = None, fit_Query = None,
      fit_BasicAuth = Some \<lparr>fba_Username = ''c'', fba_Password = ''{secret}''\<rparr>\<rparr> = Inr ?t"
    by (simp add: fileInjectionTemplate_validate_def fileBasicAuthTemplate_validate_def strings_Count_def SecretPlaceholder_def hasPrefix_def
        contains_single hasControl_def runes_ascii)
  have r: "render ?t (Some 0) (example_heap ''key'') = Inr \<lparr>cred_header = ''Authorization'', cred_headerValue = ''Basic YzprZXk='', cred_query = [],
      cred_queryValue = [], cred_needles = [''key'', ''YzprZXk='']\<rparr>"
    by (simp add: render_def renderBasicAuth_def builder_WriteTo_def example_heap_contents b64_def char_of_numeral_eq)
  from template_roundtrip[OF v example_heap_contents r, of example_golib] show ?thesis by simp
qed

text \<open>The escaped path unescapes segment by segment.\<close>

lemma unescape_joinc:
  "list_all2 (\<lambda>r d. pathUnescape r = Some d) raws ds \<Longrightarrow> pathUnescape (joinc ''/'' raws) = Some (joinc ''/'' ds)"
proof (induction "''/''" raws arbitrary: ds rule: joinc.induct)
  case (2 p)
  then show ?case by (auto simp: list_all2_Cons1)
next
  case (3 p q ps)
  then obtain d e es where ds: "ds = d # e # es" "pathUnescape p = Some d" "list_all2 (\<lambda>r d. pathUnescape r = Some d) (q # ps) (e # es)"
    by (auto simp: list_all2_Cons1)
  from "3.hyps"[OF ds(3)] ds show ?case using unescape_append[OF ds(2)] by simp
qed auto

lemma forwardable_parts:
  assumes "forwardable r"
  obtains d where "pathUnescape r = Some d" "\<And>bs params q. q \<in> set (upstream_parts bs params d) \<Longrightarrow> \<not> isDots q"
proof -
  obtain d where d: "pathUnescape r = Some d" "\<not> list_ex (\<lambda>part. isDots (fst (cut part '';''))) (fieldsFunc isSlash d)"
    using assms by (auto simp: forwardable_def split: option.splits)
  have "\<not> isDots q" if "q \<in> set (upstream_parts bs params d)" for bs params q
    using dots_found[OF that] d(2) by (auto simp: list_ex_iff)
  with d(1) show thesis by (rule that)
qed

lemma forwardable_path:
  assumes "list_all forwardable (splitc (CHR ''/'') raw)"
  obtains d where "pathUnescape raw = Some d" "\<And>bs params q. q \<in> set (upstream_parts bs params d) \<Longrightarrow> \<not> isDots q"
proof -
  define f where "f r = (SOME d. pathUnescape r = Some d \<and> (\<forall>bs params. \<forall>q\<in>set (upstream_parts bs params d). \<not> isDots q))" for r
  have f: "pathUnescape r = Some (f r) \<and> (\<forall>bs params. \<forall>q\<in>set (upstream_parts bs params (f r)). \<not> isDots q)"
    if "r \<in> set (splitc (CHR ''/'') raw)" for r
    unfolding f_def by (rule someI_ex) (use assms that forwardable_parts in \<open>auto simp: list_all_iff\<close>, metis)
  let ?ds = "map f (splitc (CHR ''/'') raw)"
  have "pathUnescape (joinc ''/'' (splitc (CHR ''/'') raw)) = Some (joinc ''/'' ?ds)"
    by (rule unescape_joinc) (use f in \<open>auto simp: list_all2_map2 list.rel_refl_strong\<close>)
  moreover have "\<not> isDots q" if "q \<in> set (upstream_parts bs params (joinc ''/'' ?ds))" for bs params q
    using that f by (auto simp: upstream_parts_joinc)
  ultimately show thesis using that by (simp add: joinc_splitc)
qed

text \<open>
  C12: the path forwarded to an Upstream cannot climb out of the Upstream's base path. It
  percent-decodes; and whatever base path it is appended to, an Upstream that decodes it once,
  whether or not it takes backslashes for slashes and drops parameters after a semicolon, and
  then resolves dot segments, ends below what the base path alone resolves to: every part of the
  forwarded path is kept, in order, after it.
\<close>

theorem forwarded_path_confined:
  assumes "forwardedPath escaped = Some rest"
  shows "\<exists>decoded. pathUnescape rest = Some decoded \<and> (\<forall>bs params base.
    resolve_dots (upstream_parts bs params (base @ decoded))
      = resolve_dots (upstream_parts bs params base) @ drop 1 (upstream_parts bs params decoded))"
proof (cases "rest = []")
  case True
  then show ?thesis by (simp add: upstream_parts_def)
next
  case False
  then obtain raw where raw: "rest = CHR ''/'' # raw" "list_all forwardable (splitc (CHR ''/'') raw)"
    using assms by (auto simp: forwardedPath_def Let_def split: if_splits)
  obtain d where d: "pathUnescape raw = Some d" "\<And>bs params q. q \<in> set (upstream_parts bs params d) \<Longrightarrow> \<not> isDots q"
    by (rule forwardable_path[OF raw(2)]) blast
  have "resolve_dots (upstream_parts bs params (base @ CHR ''/'' # d))
      = resolve_dots (upstream_parts bs params base) @ drop 1 (upstream_parts bs params (CHR ''/'' # d))" for bs params base
    using upstream_parts_slash[of bs params "[]" d] resolve_dots_append[of "upstream_parts bs params d" "upstream_parts bs params base"] d(2)
    by (simp add: upstream_parts_slash) (simp add: upstream_parts_def)
  with raw(1) d(1) show ?thesis by simp
qed

theorem forwarded_path_confined_witness:
  "\<exists>decoded. pathUnescape ''/v1/a%2Fb'' = Some decoded \<and> (\<forall>bs params base.
    resolve_dots (upstream_parts bs params (base @ decoded))
      = resolve_dots (upstream_parts bs params base) @ drop 1 (upstream_parts bs params decoded))"
  by (rule forwarded_path_confined[of "''/proxy/n/u/v1/a%2Fb''"])
    (simp add: forwardedPath_def cut_def eval_nat_numeral hasPrefix_def forwardable_def ishex_def unhex_def fieldsFunc_def isSlash_def isDots_def)

end
