(* ===== verification/Agent_API.thy ===== *)
theory Agent_API
  imports Proxy_Credential Audit_Log Resolver
begin

text \<open>
  \<open>internal/agentapi/agentapi.go\<close>: the listener, authentication, Reveal Delivery and the
  wrappers around every handler. What happens around one request (the clock, the database,
  whether the Agent is still there, what the Secret Resolver gets, how much of the response
  is written) is a \<open>surroundings\<close>; the handlers act on an \<open>exchange\<close>: the response, the
  audit log with its database, the locked memory, what was asked of the Secret Resolver and
  what was sent to Upstreams.
\<close>

section \<open>The listener\<close>

datatype listener = UnixListener string | TLSListener string | PlainListener string

datatype listen_error = TLSMismatch | TLSOnSocket | ListenFailed string | NotLoopback string

text \<open>\<open>unix\<close> says whether the socket can be bound, \<open>bind\<close> gives the bound address.\<close>

definition Listen :: "golib \<Rightarrow> (string \<Rightarrow> bool) \<Rightarrow> (string \<Rightarrow> string option) \<Rightarrow> AgentAPI \<Rightarrow> bool \<Rightarrow> (listen_error, listener) result" where
  "Listen G unix bind cfg tlsConfig = (
     if (api_TLS cfg \<noteq> None) \<noteq> tlsConfig then Inl TLSMismatch
     else if api_Socket cfg \<noteq> [] then
       (if api_TLS cfg \<noteq> None then Inl TLSOnSocket
        else if unix (api_Socket cfg) then Inr (UnixListener (api_Socket cfg)) else Inl (ListenFailed (api_Socket cfg)))
     else (case bind (api_Listen cfg) of
        None \<Rightarrow> Inl (ListenFailed (api_Listen cfg))
      | Some addr \<Rightarrow>
          if api_TLS cfg \<noteq> None then Inr (TLSListener addr)
          else (case netip_ParseAddrPort G addr of
             None \<Rightarrow> Inl (NotLoopback addr)
           | Some bound \<Rightarrow> if IsLoopback (Unmap (ap_Addr bound)) then Inr (PlainListener addr) else Inl (NotLoopback addr))))"

section \<open>An exchange\<close>

datatype fetch_error = FetchLockedMemory | FetchFailed

record surroundings =
  e_golib :: golib
  e_crypto :: crypto
  e_outcomes :: outcomes
  e_every :: int
  e_authOK :: "nat \<Rightarrow> bool"
  e_now :: ns
  e_gone :: bool
  e_fetch :: "plan \<Rightarrow> (fetch_error, bytes) result"
  e_memOK :: bool
  e_cutAt :: "nat option"

record out_request =
  out_Transport :: nat
  out_Method :: string
  out_Scheme :: string
  out_Host :: string
  out_Path :: "string option"
  out_RawPath :: string
  out_RawQuery :: string
  out_Header :: Header
  out_Body :: bytes

record exchange =
  x_w :: ResponseWriter
  x_log :: Log
  x_heap :: heap
  x_fetched :: "plan list"
  x_out :: "out_request list"

text \<open>A change of the response only.\<close>

definition respond :: "(ResponseWriter \<Rightarrow> ResponseWriter) \<Rightarrow> exchange \<Rightarrow> exchange" where
  "respond f x = x\<lparr>x_w := f (x_w x)\<rparr>"

section \<open>Errors\<close>

definition AgentTokenHeader :: string where
  "AgentTokenHeader = ''X-TC-Agent-Token''"

definition deniedMessage :: string where
  "deniedMessage = ''denied: no Policy on this Agent Token allows this Delivery''"

definition errorResponse :: "string \<Rightarrow> bytes" where
  "errorResponse msg = ''{'' @ json_string ''error'' @ '':'' @ json_string msg @ ''}'' @ [CHR 0x0A]"

definition writeError :: "int \<Rightarrow> string \<Rightarrow> ResponseWriter \<Rightarrow> ResponseWriter" where
  "writeError status msg w = write_body (errorResponse msg) (WriteHeader status (set_header ''Content-Type'' ''application/json'' w))"

definition unauthorized :: "string \<Rightarrow> ResponseWriter \<Rightarrow> ResponseWriter" where
  "unauthorized msg w = writeError 401 msg (set_header ''WWW-Authenticate'' (''Bearer realm='' @ [dquote] @ ''TrustedCourier'' @ [dquote]) w)"

section \<open>Authentication\<close>

definition verifyAgentToken :: "surroundings \<Rightarrow> string list \<Rightarrow> exchange \<Rightarrow> AgentToken option \<times> exchange" where
  "verifyAgentToken E presented x = (case presented of
      [] \<Rightarrow> (None, respond (unauthorized ''Agent Token required'') x)
    | [p] \<Rightarrow>
        (case AuthenticateAgentToken (sha256 (e_crypto E)) (e_authOK E) (e_now E) p (l_db (x_log x)) of (res, db) \<Rightarrow>
           let x = x\<lparr>x_log := (x_log x)\<lparr>l_db := db\<rparr>\<rparr> in
           (case res of
              Inr tok \<Rightarrow> (Some tok, x)
            | Inl ErrAgentTokenInvalid \<Rightarrow> (None, respond (unauthorized ''invalid Agent Token'') x)
            | Inl ErrAgentTokenExpired \<Rightarrow> (None, respond (unauthorized ''Agent Token expired'') x)
            | Inl ErrAgentTokenRevoked \<Rightarrow> (None, respond (unauthorized ''Agent Token revoked'') x)
            | Inl e \<Rightarrow> (None, if e_gone E then x else respond (writeError 500 ''internal error'') x)))
    | _ \<Rightarrow> (None, respond (unauthorized ''present the Agent Token once'') x))"

text \<open>The Bearer tokens of the Authorization headers, unless one has another scheme.\<close>

fun bearer_tokens :: "golib \<Rightarrow> string list \<Rightarrow> string list option" where
  "bearer_tokens G [] = Some []"
| "bearer_tokens G (v # vs) = (case cut v '' '' of (scheme, token, _) \<Rightarrow>
     if \<not> EqualFold G scheme ''Bearer'' then None else map_option (Cons token) (bearer_tokens G vs))"

definition authenticate :: "surroundings \<Rightarrow> http_request \<Rightarrow> exchange \<Rightarrow> AgentToken option \<times> exchange" where
  "authenticate E r x = (case bearer_tokens (e_golib E) (Header_Values (req_Header r) ''Authorization'') of
      None \<Rightarrow> (None, respond (unauthorized ''Authorization must be a Bearer Agent Token'') x)
    | Some presented \<Rightarrow> verifyAgentToken E (presented @ Header_Values (req_Header r) AgentTokenHeader) x)"

section \<open>Fetching the Secret and recording the attempt\<close>

text \<open>The resolver's answer arrives in locked memory of its own.\<close>

definition resolver_Resolve :: "surroundings \<Rightarrow> Config \<Rightarrow> string \<Rightarrow> exchange \<Rightarrow> (fetch_error, Secret) result \<times> exchange" where
  "resolver_Resolve E cfg name x = (
     let x = x\<lparr>x_fetched := x_fetched x @ [Resolve cfg name]\<rparr> in
     if Resolve cfg name = UnknownSecretName then (Inl FetchFailed, x)
     else (case e_fetch E (Resolve cfg name) of
           Inl e \<Rightarrow> (Inl e, x)
         | Inr v \<Rightarrow> (case newLocked (e_memOK E) v (x_heap x) of
              (Inl _, h) \<Rightarrow> (Inl FetchLockedMemory, x\<lparr>x_heap := h\<rparr>)
            | (Inr s, h) \<Rightarrow> (Inr s, x\<lparr>x_heap := h\<rparr>))))"

definition Server_resolve :: "surroundings \<Rightarrow> Config \<Rightarrow> string \<Rightarrow> Record \<Rightarrow> exchange \<Rightarrow> Secret option \<times> Record \<times> exchange" where
  "Server_resolve E cfg name rcd x = (case resolver_Resolve E cfg name x of
      (Inl FetchLockedMemory, x) \<Rightarrow> (None, rcd\<lparr>rec_Failure := ''no locked memory to hold the Secret''\<rparr>,
         respond (writeError 503 ''the Secret cannot be held safely right now; try again later'') x)
    | (Inl FetchFailed, x) \<Rightarrow> (None, rcd\<lparr>rec_Failure := ''the Secret could not be fetched''\<rparr>,
         respond (writeError 502 ''the Secret could not be fetched'') x)
    | (Inr s, x) \<Rightarrow> (Some s, rcd, x))"

definition Server_record :: "surroundings \<Rightarrow> Record \<Rightarrow> exchange \<Rightarrow> exchange" where
  "Server_record E rcd x = x\<lparr>x_log := snd (Log_Append (e_crypto E) (e_outcomes E) (e_every E) rcd (x_log x))\<rparr>"

section \<open>Reveal Delivery\<close>

definition denial_text :: "Denial \<Rightarrow> string" where
  "denial_text d = (case d of
      DenialUnknownSecretName \<Rightarrow> ''unknown Secret Name''
    | DenialPolicy \<Rightarrow> ''no Policy allows it''
    | DenialMethod \<Rightarrow> ''no Policy allows the method''
    | DenialPath \<Rightarrow> ''no Policy allows the path'')"

definition reveal_record :: "AgentToken \<Rightarrow> string \<Rightarrow> Record" where
  "reveal_record tok name = \<lparr>rec_AgentTokenID = at_ID tok, rec_SecretName = name, rec_Delivery = ''reveal'', rec_Upstream = [],
     rec_UpstreamHost = [], rec_Decision = [], rec_Reason = [], rec_UpstreamStatus = 0, rec_Failure = []\<rparr>"

text \<open>Writing the Secret: all of it, or the part before the connection was cut.\<close>

definition reveal_write :: "surroundings \<Rightarrow> Secret \<Rightarrow> Record \<Rightarrow> exchange \<Rightarrow> Record \<times> exchange" where
  "reveal_write E s rcd x = (
     let x = respond (\<lambda>w. WriteHeader 200 (set_header ''Content-Length'' (decimal (Secret_Len s (x_heap x)))
                       (set_header ''Content-Type'' ''application/octet-stream'' w))) x
     in case contents (x_heap x) s of
          None \<Rightarrow> (rcd\<lparr>rec_Failure := ''the Secret could not be written to the Agent''\<rparr>, x)
        | Some v \<Rightarrow> (case e_cutAt E of
            None \<Rightarrow> (rcd, respond (write_body v) x)
          | Some n \<Rightarrow> (rcd\<lparr>rec_Failure := ''the Secret could not be written to the Agent''\<rparr>, respond (write_body (take n v)) x)))"

text \<open>The attempt of an authenticated Agent, between the Audit Record's creation and its \<open>defer\<close>.\<close>

definition reveal_attempt :: "surroundings \<Rightarrow> Config \<Rightarrow> AgentToken \<Rightarrow> string \<Rightarrow> exchange \<Rightarrow> Record \<times> exchange" where
  "reveal_attempt E cfg tok name x = (
     let rcd = reveal_record tok name in
     case Authorize cfg tok name DeliveryReveal of
       Inl reason \<Rightarrow> (rcd\<lparr>rec_Decision := ''denied'', rec_Reason := denial_text reason\<rparr>, respond (writeError 403 deniedMessage) x)
     | Inr _ \<Rightarrow> (case Server_resolve E cfg name (rcd\<lparr>rec_Decision := ''allowed''\<rparr>) x of
           (None, rcd, x) \<Rightarrow> (rcd, x)
         | (Some s, rcd, x) \<Rightarrow> (case reveal_write E s rcd x of (rcd, x) \<Rightarrow> (rcd, x\<lparr>x_heap := Secret_Release s (x_heap x)\<rparr>))))"

definition reveal :: "surroundings \<Rightarrow> Config \<Rightarrow> http_request \<Rightarrow> exchange \<Rightarrow> exchange" where
  "reveal E cfg r x = (
     if req_Method r \<noteq> ''GET'' then respond (\<lambda>w. writeError 405 ''method not allowed'' (set_header ''Allow'' ''GET'' w)) x
     else (case authenticate E r x of
        (None, x) \<Rightarrow> x
      | (Some tok, x) \<Rightarrow> (case reveal_attempt E cfg tok (req_SecretName r) x of (rcd, x) \<Rightarrow> Server_record E rcd x)))"

section \<open>The wrappers\<close>

definition noStore :: "(exchange \<Rightarrow> exchange) \<Rightarrow> exchange \<Rightarrow> exchange" where
  "noStore handler x = handler (respond (\<lambda>w. set_header ''X-Content-Type-Options'' ''nosniff'' (set_header ''Cache-Control'' ''no-store'' w)) x)"

definition audit_message :: "audit_error \<Rightarrow> string" where
  "audit_message e = (case e of ErrKeyNotLoaded \<Rightarrow> ''the audit signing key is not loaded'' | _ \<Rightarrow> ''Audit Records cannot be stored'')"

definition requireAudit :: "(exchange \<Rightarrow> exchange) \<Rightarrow> exchange \<Rightarrow> exchange" where
  "requireAudit handler x = (case Log_Ready (x_log x) of
      Inl e \<Rightarrow> respond (\<lambda>w. writeError 503 (''TrustedCourier is not serving Deliveries: '' @ audit_message e) (set_header ''Retry-After'' ''5'' w)) x
    | Inr _ \<Rightarrow> handler x)"

section \<open>What an attempt may touch\<close>

text \<open>The parts of an exchange a change of the response leaves alone.\<close>

lemma respond_fields [simp]:
  "x_log (respond f x) = x_log x" "x_heap (respond f x) = x_heap x" "x_fetched (respond f x) = x_fetched x"
  "x_out (respond f x) = x_out x" "x_w (respond f x) = f (x_w x)"
  by (simp_all add: respond_def)

lemma verify_fields:
  assumes "verifyAgentToken E presented x = (t, y)"
  shows "x_heap y = x_heap x" "x_fetched y = x_fetched x" "x_out y = x_out x"
    "\<exists>db. x_log y = (x_log x)\<lparr>l_db := db\<rparr>"
    "t = Some tok \<Longrightarrow> x_w y = x_w x"
    "t = Some tok \<Longrightarrow> \<exists>p. presented = [p] \<and> fst (AuthenticateAgentToken (sha256 (e_crypto E)) (e_authOK E) (e_now E) p (l_db (x_log x))) = Inr tok"
proof -
  have d: "\<exists>db. x_log x = (x_log x)\<lparr>l_db := db\<rparr>" by (rule exI[of _ "l_db (x_log x)"]) simp
  have "x_heap y = x_heap x \<and> x_fetched y = x_fetched x \<and> x_out y = x_out x \<and> (\<exists>db. x_log y = (x_log x)\<lparr>l_db := db\<rparr>)
    \<and> (t = Some tok \<longrightarrow> x_w y = x_w x) \<and> (t = Some tok \<longrightarrow> (\<exists>p. presented = [p]
        \<and> fst (AuthenticateAgentToken (sha256 (e_crypto E)) (e_authOK E) (e_now E) p (l_db (x_log x))) = Inr tok))"
  proof (cases "\<exists>p. presented = [p]")
    case False
    with assms show ?thesis using d by (auto simp: verifyAgentToken_def split: list.splits)
  next
    case True
    then obtain p res db where p: "presented = [p]"
      "AuthenticateAgentToken (sha256 (e_crypto E)) (e_authOK E) (e_now E) p (l_db (x_log x)) = (res, db)" by fastforce
    with assms show ?thesis by (auto simp: verifyAgentToken_def Let_def split: sum.splits access_error.splits if_splits)
  qed
  then show "x_heap y = x_heap x" "x_fetched y = x_fetched x" "x_out y = x_out x" "\<exists>db. x_log y = (x_log x)\<lparr>l_db := db\<rparr>"
    "t = Some tok \<Longrightarrow> x_w y = x_w x"
    "t = Some tok \<Longrightarrow> \<exists>p. presented = [p] \<and> fst (AuthenticateAgentToken (sha256 (e_crypto E)) (e_authOK E) (e_now E) p (l_db (x_log x))) = Inr tok"
    by auto
qed

lemma newLocked_cases: "newLocked ok v h = (if ok then (Inr (Some (h_next h)), snd (newLocked True v h)) else (Inl ErrLockedMemory, h))"
  by (simp add: newLocked_def allocate_copy_def)

lemma resolver_Resolve_cases:
  assumes "resolver_Resolve E cfg name x = (res, y)"
  shows "(\<exists>e. res = Inl e \<and> y = x\<lparr>x_fetched := x_fetched x @ [Resolve cfg name]\<rparr>) \<or>
    (\<exists>v. res = Inr (Some (h_next (x_heap x))) \<and> e_fetch E (Resolve cfg name) = Inr v \<and> Resolve cfg name \<noteq> UnknownSecretName
      \<and> y = x\<lparr>x_fetched := x_fetched x @ [Resolve cfg name], x_heap := snd (newLocked True v (x_heap x))\<rparr>)"
proof (cases "Resolve cfg name = UnknownSecretName")
  case True
  with assms show ?thesis by (auto simp: resolver_Resolve_def Let_def)
next
  case False
  with assms False show ?thesis
    by (cases "e_fetch E (Resolve cfg name)") (auto simp: resolver_Resolve_def Let_def newLocked_cases[of "e_memOK E"] split: if_splits)
qed

lemma Server_resolve_cases:
  assumes "Server_resolve E cfg name rcd x = (so, rcd', y)"
  obtains (failed) f w where "so = None" "rcd' = rcd\<lparr>rec_Failure := f\<rparr>" "f \<noteq> []"
      "y = respond w (x\<lparr>x_fetched := x_fetched x @ [Resolve cfg name]\<rparr>)" "\<And>v. rw_heads v = [] \<Longrightarrow> \<not> rw_wroteHeader v \<Longrightarrow> rw_status (w v) \<in> {Some 502, Some 503}"
  | (fetched) v where "so = Some (Some (h_next (x_heap x)))" "rcd' = rcd" "e_fetch E (Resolve cfg name) = Inr v"
      "Resolve cfg name \<noteq> UnknownSecretName"
      "y = x\<lparr>x_fetched := x_fetched x @ [Resolve cfg name], x_heap := snd (newLocked True v (x_heap x))\<rparr>"
proof -
  obtain res z where z: "resolver_Resolve E cfg name x = (res, z)" by fastforce
  have st: "rw_status (writeError c m v) = Some c" if "c = 502 \<or> c = 503" "\<not> rw_wroteHeader v" for c m v
    using that by (auto simp: rw_status_def writeError_def write_body_def WriteHeader_def set_header_def Let_def)
  from resolver_Resolve_cases[OF z] show thesis
  proof (elim disjE exE conjE)
    fix e assume e: "res = Inl e" "z = x\<lparr>x_fetched := x_fetched x @ [Resolve cfg name]\<rparr>"
    show thesis
    proof (cases e)
      case FetchLockedMemory
      with assms z e show thesis using st
        by (intro failed[of "''no locked memory to hold the Secret''"
              "writeError 503 ''the Secret cannot be held safely right now; try again later''"]) (auto simp: Server_resolve_def)
    next
      case FetchFailed
      with assms z e show thesis using st
        by (intro failed[of "''the Secret could not be fetched''" "writeError 502 ''the Secret could not be fetched''"])
          (auto simp: Server_resolve_def)
    qed
  next
    fix v assume "res = Inr (Some (h_next (x_heap x)))" "e_fetch E (Resolve cfg name) = Inr v" "Resolve cfg name \<noteq> UnknownSecretName"
      "z = x\<lparr>x_fetched := x_fetched x @ [Resolve cfg name], x_heap := snd (newLocked True v (x_heap x))\<rparr>"
    with assms z show thesis by (intro fetched[of v]) (auto simp: Server_resolve_def)
  qed
qed

lemma locked_then_released:
  assumes "heap_inv h"
  shows "alive (release_at (h_next h) (snd (newLocked True v h))) = alive h" "heap_inv (release_at (h_next h) (snd (newLocked True v h)))"
    "contents (snd (newLocked True v h)) (Some (h_next h)) = Some v"
proof -
  obtain r h' where n: "newLocked True v h = (r, h')" by fastforce
  from newLocked_ok[OF n] have c: "contents h' (Some (h_next h)) = Some v" "\<And>a. a \<noteq> h_next h \<Longrightarrow> contents h' (Some a) = contents h (Some a)" by auto
  have "h_next h \<notin> alive h" using alive_less[OF assms] by blast
  with c show "alive (release_at (h_next h) (snd (newLocked True v h))) = alive h"
    using n by (auto simp: alive_iff) (metis option.distinct(1))+
  show "heap_inv (release_at (h_next h) (snd (newLocked True v h)))"
    using release_inv[OF newLocked_inv[OF n assms]] n by simp
  show "contents (snd (newLocked True v h)) (Some (h_next h)) = Some v" using c n by simp
qed

end
