(* ===== verification/Proxy_Response.thy ===== *)
theory Proxy_Response
  imports Agent_API Redact
begin

text \<open>
  The response side of Proxy Delivery in \<open>internal/agentapi/proxy.go\<close>: the writer that redacts
  headers, body and trailers, the writer that notes failed writes, the decoding of response
  bodies, and what \<open>httputil.ReverseProxy\<close> does with an Upstream's answer. The Upstream is a
  \<open>behaviour\<close>: the informational responses it sends, its answer if it gives one, how the body
  arrives and ends, the trailers, and which writes to the Agent succeed.
\<close>

section \<open>The redacting writer\<close>

record redactingWriter =
  r_w :: ResponseWriter
  r_needles :: "string list"
  r_body :: Writer
  r_wroteHeader :: bool

definition newRedactingWriter :: "ResponseWriter \<Rightarrow> string list \<Rightarrow> redactingWriter" where
  "newRedactingWriter w ns = \<lparr>r_w = w, r_needles = ns, r_body = NewWriter ns, r_wroteHeader = False\<rparr>"

definition namesSecret :: "golib \<Rightarrow> string list \<Rightarrow> string \<Rightarrow> bool" where
  "namesSecret G ns name = (let name = go_ToLower G name in list_ex (\<lambda>n. n \<noteq> [] \<and> contains name (go_ToLower G n)) ns)"

text \<open>The names \<open>Trailer\<close> announces that do not name the Secret.\<close>

definition kept_trailers :: "golib \<Rightarrow> string list \<Rightarrow> string list \<Rightarrow> string list" where
  "kept_trailers G ns announced = concat (map (\<lambda>v.
     filter (\<lambda>name. name \<noteq> [] \<and> \<not> namesSecret G ns name) (map trimSpace (splitc (CHR '','') v))) announced)"

definition redactHeader :: "golib \<Rightarrow> redactingWriter \<Rightarrow> redactingWriter" where
  "redactHeader G rw = (
     let ns = r_needles rw;
         h = map (\<lambda>(name, values). (name, map (\<lambda>v. redact_String v ns) values))
               (filter (\<lambda>(name, _). \<not> namesSecret G ns name) (rw_Header (r_w rw)));
         announced = Header_Values h ''Trailer'';
         h = (if announced = [] then h
              else (let kept = kept_trailers G ns announced; h = Header_Del h ''Trailer''
                    in if kept = [] then h else Header_Set h ''Trailer'' (joinc '', '' kept)))
     in rw\<lparr>r_w := (r_w rw)\<lparr>rw_Header := h\<rparr>\<rparr>)"

definition rw_WriteHeader :: "golib \<Rightarrow> int \<Rightarrow> redactingWriter \<Rightarrow> redactingWriter" where
  "rw_WriteHeader G code rw = (
     let rw = redactHeader G rw;
         rw = (if 200 \<le> code
               then rw\<lparr>r_wroteHeader := True,
                       r_w := set_header ''X-Content-Type-Options'' ''nosniff'' (set_header ''Cache-Control'' ''no-store'' (r_w rw))\<rparr>
               else rw)
     in rw\<lparr>r_w := WriteHeader code (r_w rw)\<rparr>)"

text \<open>\<open>ok\<close> says whether the Agent's connection takes what is handed to it.\<close>

definition rw_Write :: "golib \<Rightarrow> bool \<Rightarrow> bytes \<Rightarrow> redactingWriter \<Rightarrow> (unit, nat) result \<times> redactingWriter" where
  "rw_Write G ok p rw = (
     let rw = (if r_wroteHeader rw then rw else rw_WriteHeader G 200 rw)
     in case Writer_Write ok (r_body rw) p of (res, sent, body) \<Rightarrow>
          (res, rw\<lparr>r_body := body, r_w := write_body sent (r_w rw)\<rparr>))"

definition rw_finish :: "golib \<Rightarrow> bool \<Rightarrow> redactingWriter \<Rightarrow> redactingWriter" where
  "rw_finish G ok rw = (case Writer_Close ok (r_body rw) of (_, sent, body) \<Rightarrow>
     redactHeader G (rw\<lparr>r_body := body, r_w := (if pending (r_body rw) = 0 then r_w rw else write_body sent (r_w rw))\<rparr>))"

section \<open>The progress writer\<close>

text \<open>\<open>err\<close> is only compared with nil. The timer and the write deadlines show in which writes fail.\<close>

record progressWriter =
  p_rw :: redactingWriter
  p_err :: bool

definition pw_WriteHeader :: "golib \<Rightarrow> int \<Rightarrow> progressWriter \<Rightarrow> progressWriter" where
  "pw_WriteHeader G code pw = pw\<lparr>p_rw := rw_WriteHeader G code (p_rw pw)\<rparr>"

definition pw_record :: "bool \<Rightarrow> progressWriter \<Rightarrow> progressWriter" where
  "pw_record failed pw = (if failed then pw\<lparr>p_err := True\<rparr> else pw)"

definition pw_Write :: "golib \<Rightarrow> bool \<Rightarrow> bytes \<Rightarrow> progressWriter \<Rightarrow> (unit, nat) result \<times> progressWriter" where
  "pw_Write G ok b pw = (case rw_Write G ok b (p_rw pw) of (res, rw) \<Rightarrow> (res, pw_record (isl res) (pw\<lparr>p_rw := rw\<rparr>)))"

definition pw_FlushError :: "bool \<Rightarrow> progressWriter \<Rightarrow> progressWriter" where
  "pw_FlushError ok pw = pw_record (\<not> ok) pw"

definition pw_header :: "(Header \<Rightarrow> Header) \<Rightarrow> progressWriter \<Rightarrow> progressWriter" where
  "pw_header f pw = pw\<lparr>p_rw := (p_rw pw)\<lparr>r_w := (r_w (p_rw pw))\<lparr>rw_Header := f (rw_Header (r_w (p_rw pw)))\<rparr>\<rparr>\<rparr>"

text \<open>\<open>writeError\<close> on this writer.\<close>

definition pw_writeError :: "golib \<Rightarrow> bool \<Rightarrow> int \<Rightarrow> string \<Rightarrow> progressWriter \<Rightarrow> progressWriter" where
  "pw_writeError G ok status msg pw = snd (pw_Write G ok (errorResponse msg)
     (pw_WriteHeader G status (pw_header (\<lambda>h. Header_Set h ''Content-Type'' ''application/json'') pw)))"

section \<open>Response bodies\<close>

datatype proxy_error = errUnreadableEncoding | UpstreamError

record upstream_response =
  ur_Status :: int
  ur_Header :: Header
  ur_Body :: "bytes list"
  ur_Complete :: bool
  ur_TrailerNames :: "string list"
  ur_Trailer :: Header

text \<open>The bodies that cannot be read are refused; \<open>gunzip\<close> is \<open>compress/gzip\<close>'s reader on the reads of another.\<close>

definition encodings :: "golib \<Rightarrow> Header \<Rightarrow> string list" where
  "encodings G h = concat (map (\<lambda>v. filter (\<lambda>enc. enc \<noteq> [] \<and> \<not> EqualFold G enc ''identity'')
     (map trimSpace (splitc (CHR '','') v))) (Header_Values h ''Content-Encoding''))"

definition decodeBody :: "golib \<Rightarrow> (bytes list \<times> bool \<Rightarrow> bytes list \<times> bool) \<Rightarrow> string \<Rightarrow> upstream_response \<Rightarrow> (proxy_error, upstream_response) result" where
  "decodeBody G gunzip mthd res = (
     if mthd = ''HEAD'' \<or> ur_Status res = 204 \<or> ur_Status res = 304 then Inr res
     else (let encs = encodings G (ur_Header res) in
       if encs = [] then Inr res
       else if length encs = 1 \<and> EqualFold G (encs ! 0) ''gzip'' then
         (case gunzip (ur_Body res, ur_Complete res) of (body, complete) \<Rightarrow>
            Inr (res\<lparr>ur_Header := Header_Del (Header_Del (ur_Header res) ''Content-Encoding'') ''Content-Length'',
                     ur_Body := body, ur_Complete := complete\<rparr>))
       else Inl errUnreadableEncoding))"

section \<open>What ReverseProxy does\<close>

record behaviour =
  b_1xx :: "(int \<times> Header) list"
  b_answer :: "upstream_response option"
  b_gunzip :: "bytes list \<times> bool \<Rightarrow> bytes list \<times> bool"
  b_writeOK :: "nat \<Rightarrow> bool"
  b_flushOK :: "nat \<Rightarrow> bool"
  b_idle :: bool
  b_gone :: bool
  b_stopping :: bool

text \<open>\<open>removeHopByHopHeaders\<close>.\<close>

definition hopHeaders :: "string list" where
  "hopHeaders = [''Connection'', ''Proxy-Connection'', ''Keep-Alive'', ''Proxy-Authenticate'', ''Proxy-Authorization'',
     ''Te'', ''Trailer'', ''Transfer-Encoding'', ''Upgrade'']"

definition trimString :: "string \<Rightarrow> string" where
  "trimString s = rev (dropWhile pem_space (rev (dropWhile pem_space s)))"

definition removeHopByHopHeaders :: "Header \<Rightarrow> Header" where
  "removeHopByHopHeaders h = (
     let listed = filter (\<lambda>f. f \<noteq> []) (map trimString (concat (map (splitc (CHR '','')) (Header_Values h ''Connection''))))
     in foldl Header_Del h (listed @ hopHeaders))"

text \<open>An informational response: its headers go out and the map is cleared.\<close>

definition got1xx :: "golib \<Rightarrow> progressWriter \<Rightarrow> int \<times> Header \<Rightarrow> progressWriter" where
  "got1xx G pw r = pw_header (\<lambda>_. []) (pw_WriteHeader G (fst r) (pw_header (\<lambda>h. copyHeader h (snd r)) pw))"

text \<open>
  \<open>copyResponse\<close>: the reads of the body, in turn; \<open>i\<close> counts them. The result is whether the
  copy ended without an error.
\<close>

fun copyResponse :: "golib \<Rightarrow> behaviour \<Rightarrow> nat \<Rightarrow> bytes list \<Rightarrow> bool \<Rightarrow> progressWriter \<Rightarrow> bool \<times> progressWriter" where
  "copyResponse G B i [] complete pw = (complete, pw)"
| "copyResponse G B i (p # ps) complete pw = (
     if p = [] then copyResponse G B (Suc i) ps complete pw
     else (case pw_Write G (b_writeOK B i) p pw of
        (Inl _, pw) \<Rightarrow> (False, pw)
      | (Inr _, pw) \<Rightarrow> copyResponse G B (Suc i) ps complete (pw_FlushError (b_flushOK B i) pw)))"

text \<open>Announced trailers keep their names; others get the prefix \<open>http.TrailerPrefix\<close>.\<close>

definition copyTrailers :: "upstream_response \<Rightarrow> Header \<Rightarrow> Header" where
  "copyTrailers res h = (
     if length (ur_Trailer res) = length (ur_TrailerNames res) then copyHeader h (ur_Trailer res)
     else copyHeader h (map (\<lambda>(k, vs). (''Trailer:'' @ k, vs)) (ur_Trailer res)))"

definition ErrorHandler :: "golib \<Rightarrow> behaviour \<Rightarrow> proxy_error \<Rightarrow> Record \<Rightarrow> progressWriter \<Rightarrow> Record \<times> progressWriter" where
  "ErrorHandler G B err rcd pw = (
     if err = errUnreadableEncoding then
       (rcd\<lparr>rec_Failure := ''Redaction cannot read the Upstream's response''\<rparr>,
        pw_writeError G (b_writeOK B 0) 502 ''the Upstream's response could not be delivered'' pw)
     else if b_idle B then
       (rcd\<lparr>rec_Failure := ''the Upstream sent nothing in time''\<rparr>,
        pw_writeError G (b_writeOK B 0) 504 ''the Upstream did not respond in time'' pw)
     else if b_gone B \<and> b_stopping B then (rcd\<lparr>rec_Failure := ''cut off by server shutdown''\<rparr>, pw)
     else if b_gone B then (rcd\<lparr>rec_Failure := ''abandoned by the Agent''\<rparr>, pw)
     else (rcd\<lparr>rec_Failure := ''the Upstream could not be reached''\<rparr>,
           pw_writeError G (b_writeOK B 0) 502 ''the Upstream could not be reached'' pw))"

text \<open>The failure the recovery handler records when the response is aborted.\<close>

definition abort_failure :: "behaviour \<Rightarrow> progressWriter \<Rightarrow> string" where
  "abort_failure B pw = (
     if b_idle B then ''the Upstream sent nothing in time''
     else if b_gone B \<and> b_stopping B then ''cut off by server shutdown''
     else if b_gone B then ''abandoned by the Agent''
     else if p_err pw then ''the response could not be written to the Agent''
     else ''the Upstream's response broke off'')"

text \<open>
  An answer. A 101 can only end in the error handler: the request asked for no upgrade. The
  last component says whether the response was aborted.
\<close>

definition start_response :: "golib \<Rightarrow> upstream_response \<Rightarrow> progressWriter \<Rightarrow> progressWriter" where
  "start_response G res pw = pw_WriteHeader G (ur_Status res) (pw_header (\<lambda>h.
     let h = copyHeader h (ur_Header res)
     in if ur_TrailerNames res = [] then h else Header_Add h ''Trailer'' (joinc '', '' (ur_TrailerNames res))) pw)"

definition handle_answer :: "golib \<Rightarrow> behaviour \<Rightarrow> string \<Rightarrow> upstream_response \<Rightarrow> Record \<Rightarrow> progressWriter \<Rightarrow> Record \<times> progressWriter \<times> bool" where
  "handle_answer G B mthd res rcd pw = (
     let res = (if ur_Status res = 101 then res else res\<lparr>ur_Header := removeHopByHopHeaders (ur_Header res)\<rparr>);
         rcd = rcd\<lparr>rec_UpstreamStatus := ur_Status res\<rparr>
     in case decodeBody G (b_gunzip B) mthd res of
          Inl e \<Rightarrow> (case ErrorHandler G B e rcd pw of (rcd, pw) \<Rightarrow> (rcd, pw, False))
        | Inr res \<Rightarrow>
            if ur_Status res = 101 then (case ErrorHandler G B UpstreamError rcd pw of (rcd, pw) \<Rightarrow> (rcd, pw, False))
            else (case copyResponse G B 0 (ur_Body res) (ur_Complete res) (start_response G res pw) of
               (False, pw) \<Rightarrow> (rcd\<lparr>rec_Failure := abort_failure B pw\<rparr>, pw, True)
             | (True, pw) \<Rightarrow> (rcd, pw_header (copyTrailers res) pw, False)))"

definition ReverseProxy_respond :: "golib \<Rightarrow> behaviour \<Rightarrow> string \<Rightarrow> Record \<Rightarrow> progressWriter \<Rightarrow> Record \<times> progressWriter \<times> bool" where
  "ReverseProxy_respond G B mthd rcd pw = (
     let pw = foldl (got1xx G) pw (b_1xx B) in
     case b_answer B of
       None \<Rightarrow> (case ErrorHandler G B UpstreamError rcd pw of (rcd, pw) \<Rightarrow> (rcd, pw, False))
     | Some res \<Rightarrow> handle_answer G B mthd res rcd pw)"

text \<open>The response of a Proxy Delivery, from the redacting writer to \<open>finish\<close>.\<close>

definition proxy_respond :: "golib \<Rightarrow> behaviour \<Rightarrow> string list \<Rightarrow> bool \<Rightarrow> string \<Rightarrow> Record \<Rightarrow> ResponseWriter \<Rightarrow> Record \<times> ResponseWriter \<times> bool" where
  "proxy_respond G B ns closeOK mthd rcd w = (
     case ReverseProxy_respond G B mthd rcd \<lparr>p_rw = newRedactingWriter w ns, p_err = False\<rparr> of (rcd, pw, aborted) \<Rightarrow>
       (rcd, r_w (if aborted then p_rw pw else rw_finish G closeOK (p_rw pw)), aborted))"

section \<open>What the Agent can see\<close>

text \<open>
  A header that went through Redaction: no name holds a needle in any case, no value holds one
  but those the writer sets itself, and \<open>Trailer\<close> announces only names that hold none.
\<close>

definition clean_value :: "string list \<Rightarrow> string \<Rightarrow> bool" where
  "clean_value ns v \<longleftrightarrow> v \<in> {''no-store'', ''nosniff''} \<or> (\<forall>n\<in>set ns. n \<noteq> [] \<longrightarrow> \<not> contains v n)"

definition clean_header :: "golib \<Rightarrow> string list \<Rightarrow> Header \<Rightarrow> bool" where
  "clean_header G ns h \<longleftrightarrow> header_all (\<lambda>k v. k \<in> {''Trailer'', ''Cache-Control'', ''X-Content-Type-Options''} \<or> \<not> namesSecret G ns k) h
     \<and> header_all (\<lambda>k v. if k = ''Trailer'' then (\<exists>names. v = joinc '', '' names \<and> (\<forall>name\<in>set names. \<not> namesSecret G ns name))
                        else clean_value ns v) h"

definition heads_clean :: "golib \<Rightarrow> string list \<Rightarrow> ResponseWriter \<Rightarrow> bool" where
  "heads_clean G ns w \<longleftrightarrow> (\<forall>(code, h)\<in>set (rw_heads w). clean_header G ns h)"

lemma redact_clean:
  assumes "c \<in> set maskBytes" and "\<forall>k\<in>set ns. c \<notin> set k"
  shows "clean_value ns (redact_String v ns)"
  using redaction_no_needle maskFor_fresh[OF assms(1)] assms(2) by (fastforce simp: clean_value_def String_redaction)

lemma canonical_consts:
  "canonicalKey ''Trailer'' = ''Trailer''" "canonicalKey ''Cache-Control'' = ''Cache-Control''"
  "canonicalKey ''X-Content-Type-Options'' = ''X-Content-Type-Options''"
  by (simp_all add: canonicalKey_def CanonicalHeaderKey_def toUpperASCII_def toLowerASCII_def tchar_def isAlnum_def char_of_numeral_eq)

lemma redactHeader_clean:
  assumes "c \<in> set maskBytes" and "\<forall>k\<in>set (r_needles rw). c \<notin> set k"
  shows "clean_header G (r_needles rw) (rw_Header (r_w (redactHeader G rw)))"
proof -
  let ?ns = "r_needles rw"
  define h where "h = map (\<lambda>(name, values). (name, map (\<lambda>v. redact_String v ?ns) values)) (filter (\<lambda>(name, _). \<not> namesSecret G ?ns name) (rw_Header (r_w rw)))"
  have names: "header_all (\<lambda>k v. k \<in> {''Trailer'', ''Cache-Control'', ''X-Content-Type-Options''} \<or> \<not> namesSecret G ?ns k) h"
    by (auto simp: h_def header_all_def map_of_map_values map_of_filter_key split: if_splits)
  have vals: "header_all (\<lambda>k v. clean_value ?ns v) h"
    using redact_clean[OF assms] by (auto simp: h_def header_all_def map_of_map_values map_of_filter_key split: if_splits)
  let ?Q = "\<lambda>k v. if k = ''Trailer'' then (\<exists>names. v = joinc '', '' names \<and> (\<forall>name\<in>set names. \<not> namesSecret G ?ns name)) else clean_value ?ns v"
  have out: "rw_Header (r_w (redactHeader G rw)) = (if Header_Values h ''Trailer'' = [] then h
      else if kept_trailers G ?ns (Header_Values h ''Trailer'') = [] then Header_Del h ''Trailer''
      else Header_Set (Header_Del h ''Trailer'') ''Trailer'' (joinc '', '' (kept_trailers G ?ns (Header_Values h ''Trailer''))))"
    by (simp add: redactHeader_def h_def Let_def)
  have del: "header_all ?Q (Header_Del h ''Trailer'')"
    using vals by (auto simp: header_all_def map_of_Del canonical_consts)
  have kept: "\<forall>name\<in>set (kept_trailers G ?ns a). \<not> namesSecret G ?ns name" for a by (auto simp: kept_trailers_def)
  have "header_all ?Q (rw_Header (r_w (redactHeader G rw)))"
  proof (cases "Header_Values h ''Trailer'' = []")
    case True
    with vals out show ?thesis by (auto simp: header_all_def Header_Values_def canonical_consts split: option.splits)
  next
    case False
    have "?Q (canonicalKey ''Trailer'') (joinc '', '' (kept_trailers G ?ns (Header_Values h ''Trailer'')))"
      using kept by (auto simp: canonical_consts)
    from header_all_Set[OF del this] False out del show ?thesis by simp
  qed
  moreover have "header_all (\<lambda>k v. k \<in> {''Trailer'', ''Cache-Control'', ''X-Content-Type-Options''} \<or> \<not> namesSecret G ?ns k) (rw_Header (r_w (redactHeader G rw)))"
    unfolding out using names by (auto intro!: header_all_Set header_all_Del simp: canonical_consts)
  ultimately show ?thesis by (simp add: clean_header_def)
qed

lemma clean_header_set:
  assumes "clean_header G ns h" and "k \<in> {''Cache-Control'', ''X-Content-Type-Options''}" and "v \<in> {''no-store'', ''nosniff''}"
  shows "clean_header G ns (Header_Set h k v)"
proof -
  have k: "canonicalKey k = k" "k \<noteq> ''Trailer''" using assms(2) by (auto simp: canonical_consts)
  have v: "clean_value ns v" using assms(3) by (simp add: clean_value_def)
  show ?thesis unfolding clean_header_def
    by (intro conjI header_all_Set) (use assms(1,2) k v in \<open>simp_all add: clean_header_def\<close>)
qed

section \<open>The writer's invariant\<close>

text \<open>
  Every head handed to the connection is clean, and the body is part of what Redaction makes of
  some stream. Between writes the redactor is in step with that stream, or holds nothing back.
\<close>

definition response_safe :: "golib \<Rightarrow> string list \<Rightarrow> ResponseWriter \<Rightarrow> bool" where
  "response_safe G ns w \<longleftrightarrow> heads_clean G ns w \<and> (\<exists>all. prefix (rw_body w) (redaction ns (maskFor ns) all))"

definition writer_inv :: "golib \<Rightarrow> string list \<Rightarrow> redactingWriter \<Rightarrow> bool" where
  "writer_inv G ns rw \<longleftrightarrow> r_needles rw = ns \<and> response_safe G ns (r_w rw) \<and> needles (r_body rw) = views ns \<and> mask (r_body rw) = maskFor ns
     \<and> (r_wroteHeader rw \<longrightarrow> rw_wroteHeader (r_w rw)) \<and> (pending (r_body rw) = 0 \<or> r_wroteHeader rw \<and> (\<exists>all. synced (r_body rw) all (rw_body (r_w rw))))"

definition writer_live :: "redactingWriter \<Rightarrow> bool" where
  "writer_live rw \<longleftrightarrow> (\<exists>all. synced (r_body rw) all (rw_body (r_w rw)))"

lemma writer_inv_header [simp]:
  "writer_inv G ns (rw\<lparr>r_w := (r_w rw)\<lparr>rw_Header := h\<rparr>\<rparr>) = writer_inv G ns rw"
  "writer_live (rw\<lparr>r_w := (r_w rw)\<lparr>rw_Header := h\<rparr>\<rparr>) = writer_live rw"
  by (simp_all add: writer_inv_def writer_live_def heads_clean_def response_safe_def)

lemma redactHeader_other: "\<exists>h. redactHeader G rw = rw\<lparr>r_w := (r_w rw)\<lparr>rw_Header := h\<rparr>\<rparr>"
  unfolding redactHeader_def Let_def by (rule exI, rule refl)

lemma redactHeader_inv [simp]:
  "writer_inv G ns (redactHeader G rw) = writer_inv G ns rw" "writer_live (redactHeader G rw) = writer_live rw"
  "r_needles (redactHeader G rw) = r_needles rw" "r_body (redactHeader G rw) = r_body rw" "rw_body (r_w (redactHeader G rw)) = rw_body (r_w rw)"
  "rw_heads (r_w (redactHeader G rw)) = rw_heads (r_w rw)" "r_wroteHeader (redactHeader G rw) = r_wroteHeader rw"
  "rw_wroteHeader (r_w (redactHeader G rw)) = rw_wroteHeader (r_w rw)"
  using redactHeader_other[of G rw] by auto

lemma new_writer_inv:
  assumes "rw_heads w = []" and "rw_body w = []"
  shows "writer_inv G ns (newRedactingWriter w ns)" "writer_live (newRedactingWriter w ns)"
proof -
  have "pending (NewWriter ns) = 0" by (simp add: NewWriter_def)
  with assms synced_New[of ns] show "writer_inv G ns (newRedactingWriter w ns)" "writer_live (newRedactingWriter w ns)"
    by (auto simp: writer_inv_def writer_live_def newRedactingWriter_def heads_clean_def response_safe_def)
qed

lemma rw_WriteHeader_inv:
  assumes "c \<in> set maskBytes" and "\<forall>k\<in>set ns. c \<notin> set k" and "writer_inv G ns rw"
  shows "writer_inv G ns (rw_WriteHeader G code rw)" "writer_live (rw_WriteHeader G code rw) = writer_live rw"
    "r_body (rw_WriteHeader G code rw) = r_body rw" "200 \<le> code \<Longrightarrow> r_wroteHeader (rw_WriteHeader G code rw)"
proof -
  let ?r = "redactHeader G rw"
  have ns: "r_needles rw = ns" using assms(3) by (simp add: writer_inv_def)
  then have cl: "clean_header G ns (rw_Header (r_w ?r))" using redactHeader_clean[of c rw G] assms(1,2) by simp
  then have cl2: "clean_header G ns (Header_Set (Header_Set (rw_Header (r_w ?r)) ''Cache-Control'' ''no-store'') ''X-Content-Type-Options'' ''nosniff'')"
    by (intro clean_header_set) simp_all
  have inv: "writer_inv G ns ?r" using assms(3) by simp
  then show "writer_inv G ns (rw_WriteHeader G code rw)"
    using cl cl2 by (auto simp: rw_WriteHeader_def Let_def writer_inv_def heads_clean_def WriteHeader_def response_safe_def)
  show "writer_live (rw_WriteHeader G code rw) = writer_live rw"
    using redactHeader_inv(2)[of G rw] unfolding writer_live_def by (auto simp: rw_WriteHeader_def Let_def)
  show "r_body (rw_WriteHeader G code rw) = r_body rw" "200 \<le> code \<Longrightarrow> r_wroteHeader (rw_WriteHeader G code rw)"
    by (simp_all add: rw_WriteHeader_def Let_def)
qed

lemma write_body_heads: "rw_wroteHeader w \<Longrightarrow> heads_clean G ns (write_body p w) = heads_clean G ns w"
  "rw_wroteHeader w \<Longrightarrow> rw_wroteHeader (write_body p w)"
  by (auto simp: heads_clean_def write_body_def Let_def)

lemma Writer_Write_failed: "Writer_Write False w p = (res, sent, w') \<Longrightarrow> pending w' = pending w"
  by (auto simp: Writer_Write_def Let_def split: if_splits)

text \<open>
  A write keeps the response safe. One that succeeds keeps the redactor in step; one that fails
  on a redactor that holds nothing back leaves it so.
\<close>

lemma rw_Write_inv:
  assumes "c \<in> set maskBytes" and "\<forall>k\<in>set ns. c \<notin> set k" and "writer_inv G ns rw" and "writer_live rw"
    and "rw_Write G ok p rw = (res, rw')"
  shows "response_safe G ns (r_w rw')" "\<not> isl res \<longleftrightarrow> ok" "ok \<Longrightarrow> writer_inv G ns rw' \<and> writer_live rw'"
    "pending (r_body rw) = 0 \<Longrightarrow> writer_inv G ns rw'" "r_needles rw' = ns"
proof -
  define r1 where "r1 = (if r_wroteHeader rw then rw else rw_WriteHeader G 200 rw)"
  have r1: "writer_inv G ns r1" "writer_live r1" "r_body r1 = r_body rw" "r_wroteHeader r1"
    using rw_WriteHeader_inv[OF assms(1-3)] assms(3,4) by (auto simp: r1_def)
  obtain sent b where wr: "Writer_Write ok (r_body r1) p = (res, sent, b)" and rw': "rw' = r1\<lparr>r_body := b, r_w := write_body sent (r_w r1)\<rparr>"
    using assms(5) by (auto simp: rw_Write_def r1_def[symmetric] split: prod.splits)
  obtain t where t: "synced (r_body r1) t (rw_body (r_w r1))" using r1(2) by (auto simp: writer_live_def)
  have nm: "needles (r_body r1) = views ns" "mask (r_body r1) = maskFor ns" using r1(1) by (auto simp: writer_inv_def)
  note W = Write_synced[OF t wr]
  have hw: "rw_wroteHeader (r_w r1)" using r1(1,4) by (simp add: writer_inv_def)
  have hc: "heads_clean G ns (r_w rw')" "rw_wroteHeader (r_w rw')"
    using r1(1) write_body_heads[OF hw] by (auto simp: rw' writer_inv_def response_safe_def)
  have "rw_body (r_w rw') = final_part (r_body r1) (t @ p)" using W(1) by (simp add: rw')
  then have pre: "prefix (rw_body (r_w rw')) (redaction ns (maskFor ns) (t @ p))" using nm by (simp add: final_part_def take_is_prefix)
  then show safe: "response_safe G ns (r_w rw')" using hc by (auto simp: response_safe_def)
  show "\<not> isl res \<longleftrightarrow> ok" using W(2,3) by (cases ok) auto
  have nd: "r_needles rw' = ns" using r1(1) by (simp add: rw' writer_inv_def)
  then show "r_needles rw' = ns" .
  have nb: "needles b = views ns" "mask b = maskFor ns" using W(4) nm by auto
  show "ok \<Longrightarrow> writer_inv G ns rw' \<and> writer_live rw'"
    using W(2) safe nd nb hc r1(4) by (auto simp: writer_inv_def writer_live_def rw')
  show "pending (r_body rw) = 0 \<Longrightarrow> writer_inv G ns rw'"
  proof (cases ok)
    case True
    with \<open>ok \<Longrightarrow> writer_inv G ns rw' \<and> writer_live rw'\<close> show ?thesis by simp
  next
    case False
    moreover assume "pending (r_body rw) = 0"
    ultimately have "pending b = 0" using Writer_Write_failed wr r1(3) by simp
    then show ?thesis using safe nd nb hc r1(4) by (simp add: writer_inv_def rw')
  qed
qed

lemma rw_finish_safe:
  assumes "c \<in> set maskBytes" and "\<forall>k\<in>set ns. c \<notin> set k" and "writer_inv G ns rw"
  shows "response_safe G ns (r_w (rw_finish G ok rw))" "clean_header G ns (rw_Header (r_w (rw_finish G ok rw)))"
proof -
  obtain res sent b where cl: "Writer_Close ok (r_body rw) = (res, sent, b)" by (cases "Writer_Close ok (r_body rw)")
  define r1 where "r1 = rw\<lparr>r_body := b, r_w := (if pending (r_body rw) = 0 then r_w rw else write_body sent (r_w rw))\<rparr>"
  have fin: "rw_finish G ok rw = redactHeader G r1" using cl by (simp add: rw_finish_def r1_def)
  have ns: "r_needles r1 = ns" using assms(3) by (simp add: writer_inv_def r1_def)
  have "response_safe G ns (r_w r1)"
  proof (cases "pending (r_body rw) = 0")
    case True
    then show ?thesis using assms(3) by (simp add: r1_def writer_inv_def)
  next
    case False
    then obtain t where t: "synced (r_body rw) t (rw_body (r_w rw))" and h: "rw_wroteHeader (r_w rw)" "heads_clean G ns (r_w rw)"
      "needles (r_body rw) = views ns" "mask (r_body rw) = maskFor ns"
      using assms(3) by (auto simp: writer_inv_def response_safe_def)
    from Close_synced[OF t cl] h have "rw_body (r_w rw) @ sent = redaction ns (maskFor ns) t" by simp
    with False h write_body_heads[OF h(1)] show ?thesis by (auto simp: r1_def response_safe_def)
  qed
  then show "response_safe G ns (r_w (rw_finish G ok rw))" by (simp add: fin response_safe_def heads_clean_def)
  show "clean_header G ns (rw_Header (r_w (rw_finish G ok rw)))"
    using redactHeader_clean[of c r1 G] assms(1,2) ns by (simp add: fin)
qed

section \<open>The proxy keeps the invariant\<close>

definition pw_live :: "golib \<Rightarrow> string list \<Rightarrow> progressWriter \<Rightarrow> bool" where
  "pw_live G ns pw \<longleftrightarrow> writer_inv G ns (p_rw pw) \<and> writer_live (p_rw pw)"

lemma pw_header_live [simp]: "pw_live G ns (pw_header f pw) = pw_live G ns pw" "r_body (p_rw (pw_header f pw)) = r_body (p_rw pw)"
  by (simp_all add: pw_live_def pw_header_def)

lemma pw_record_live [simp]: "pw_live G ns (pw_record b pw) = pw_live G ns pw" "p_rw (pw_record b pw) = p_rw pw"
  by (simp_all add: pw_live_def pw_record_def)

lemma pw_WriteHeader_live:
  assumes "c \<in> set maskBytes" and "\<forall>k\<in>set ns. c \<notin> set k" and "pw_live G ns pw"
  shows "pw_live G ns (pw_WriteHeader G code pw)" "r_body (p_rw (pw_WriteHeader G code pw)) = r_body (p_rw pw)"
  using rw_WriteHeader_inv[OF assms(1,2)] assms(3) by (simp_all add: pw_live_def pw_WriteHeader_def)

lemma got1xx_live:
  assumes "c \<in> set maskBytes" and "\<forall>k\<in>set ns. c \<notin> set k" and "pw_live G ns pw"
  shows "pw_live G ns (foldl (got1xx G) pw rs) \<and> r_body (p_rw (foldl (got1xx G) pw rs)) = r_body (p_rw pw)"
  using assms(3)
proof (induction rs arbitrary: pw)
  case (Cons r rs)
  have "pw_live G ns (got1xx G pw r)" "r_body (p_rw (got1xx G pw r)) = r_body (p_rw pw)"
    using pw_WriteHeader_live[OF assms(1,2)] Cons.prems by (simp_all add: got1xx_def)
  with Cons.IH show ?case by simp
qed simp

lemma ErrorHandler_inv:
  assumes "c \<in> set maskBytes" and "\<forall>k\<in>set ns. c \<notin> set k" and "pw_live G ns pw" and "pending (r_body (p_rw pw)) = 0"
    and "ErrorHandler G B e rcd pw = (rcd', pw')"
  shows "writer_inv G ns (p_rw pw')"
proof -
  have w: "writer_inv G ns (p_rw (pw_writeError G ok code msg pw))" for ok code msg
  proof -
    let ?q = "pw_WriteHeader G code (pw_header (\<lambda>h. Header_Set h ''Content-Type'' ''application/json'') pw)"
    have q: "pw_live G ns ?q" "pending (r_body (p_rw ?q)) = 0"
      using pw_WriteHeader_live[OF assms(1,2)] assms(3,4) by simp_all
    obtain res rw where "rw_Write G ok (errorResponse msg) (p_rw ?q) = (res, rw)" by fastforce
    with rw_Write_inv(4)[OF assms(1,2) _ _ this] q show ?thesis
      by (simp add: pw_writeError_def pw_Write_def pw_live_def)
  qed
  have "writer_inv G ns (p_rw pw)" using assms(3) by (simp add: pw_live_def)
  with assms(5) w show ?thesis by (auto simp: ErrorHandler_def split: if_splits)
qed

lemma copyResponse_inv:
  assumes "c \<in> set maskBytes" and "\<forall>k\<in>set ns. c \<notin> set k"
  shows "pw_live G ns pw \<Longrightarrow> copyResponse G B i ps complete pw = (done, pw') \<Longrightarrow>
    response_safe G ns (r_w (p_rw pw')) \<and> (done \<longrightarrow> pw_live G ns pw')"
proof (induction G B i ps complete pw rule: copyResponse.induct)
  case (1 G B i complete pw)
  then show ?case by (auto simp: pw_live_def writer_inv_def)
next
  case (2 G B i p ps complete pw)
  show ?case
  proof (cases "p = []")
    case True
    with 2 show ?thesis by simp
  next
    case False
    obtain res rw where w: "rw_Write G (b_writeOK B i) p (p_rw pw) = (res, rw)" by fastforce
    let ?q = "pw_record (isl res) (pw\<lparr>p_rw := rw\<rparr>)"
    have q: "pw_Write G (b_writeOK B i) p pw = (res, ?q)" by (simp add: pw_Write_def w)
    from 2(3) have l: "writer_inv G ns (p_rw pw)" "writer_live (p_rw pw)" by (auto simp: pw_live_def)
    note W = rw_Write_inv[OF assms l w]
    show ?thesis
    proof (cases res)
      case (Inl u)
      with 2(4) False q W(1) show ?thesis by auto
    next
      case (Inr n)
      then have "pw_live G ns (pw_FlushError (b_flushOK B i) ?q)" using W(2,3) by (simp add: pw_live_def pw_FlushError_def)
      moreover have "copyResponse G B (Suc i) ps complete (pw_FlushError (b_flushOK B i) ?q) = (done, pw')"
        using 2(4) False q Inr by simp
      ultimately show ?thesis using 2(2)[OF False q[symmetric] Inr] by simp
    qed
  qed
qed

lemma ReverseProxy_respond_inv:
  assumes "c \<in> set maskBytes" and "\<forall>k\<in>set ns. c \<notin> set k" and "pw_live G ns pw" and "pending (r_body (p_rw pw)) = 0"
    and "ReverseProxy_respond G B mthd rcd pw = (rcd', pw', aborted)"
  shows "response_safe G ns (r_w (p_rw pw')) \<and> (\<not> aborted \<longrightarrow> writer_inv G ns (p_rw pw'))"
proof -
  define p1 where "p1 = foldl (got1xx G) pw (b_1xx B)"
  have p1: "pw_live G ns p1" "pending (r_body (p_rw p1)) = 0" using got1xx_live[OF assms(1-3)] assms(4) by (simp_all add: p1_def)
  have err: "writer_inv G ns (p_rw q) \<and> response_safe G ns (r_w (p_rw q))" if "ErrorHandler G B e r p1 = (r', q)" for e r r' q
    using ErrorHandler_inv[OF assms(1,2) p1 that] by (simp add: writer_inv_def)
  show ?thesis
  proof (cases "b_answer B")
    case None
    with assms(5) err show ?thesis by (auto simp: ReverseProxy_respond_def p1_def[symmetric] split: prod.splits)
  next
    case (Some res0)
    define res where "res = (if ur_Status res0 = 101 then res0 else res0\<lparr>ur_Header := removeHopByHopHeaders (ur_Header res0)\<rparr>)"
    have h: "handle_answer G B mthd res0 rcd p1 = (rcd', pw', aborted)"
      using assms(5) Some by (simp add: ReverseProxy_respond_def p1_def[symmetric])
    show ?thesis
    proof (cases "decodeBody G (b_gunzip B) mthd res")
      case (Inl e)
      with h err show ?thesis by (auto simp: handle_answer_def res_def[symmetric] Let_def split: prod.splits)
    next
      case (Inr res')
      show ?thesis
      proof (cases "ur_Status res' = 101")
        case True
        with h Inr err show ?thesis by (auto simp: handle_answer_def res_def[symmetric] Let_def split: prod.splits)
      next
        case False
        have st: "pw_live G ns (start_response G res' p1)"
          using pw_WriteHeader_live[OF assms(1,2)] p1(1) by (simp add: start_response_def)
        obtain d q where q: "copyResponse G B 0 (ur_Body res') (ur_Complete res') (start_response G res' p1) = (d, q)" by fastforce
        with copyResponse_inv[OF assms(1,2) st q] h Inr False show ?thesis
          by (cases d) (auto simp: handle_answer_def res_def[symmetric] Let_def pw_live_def pw_header_def response_safe_def heads_clean_def)
      qed
    qed
  qed
qed

section \<open>Properties\<close>


definition example_response :: upstream_response where
  "example_response = \<lparr>ur_Status = 200, ur_Header = [(''X'', [''sk-1''])], ur_Body = [''a sk'', ''-1 b''],
     ur_Complete = True, ur_TrailerNames = [], ur_Trailer = []\<rparr>"

definition example_behaviour :: behaviour where
  "example_behaviour = \<lparr>b_1xx = [], b_answer = Some example_response, b_gunzip = id, b_writeOK = (\<lambda>_. True), b_flushOK = (\<lambda>_. True),
     b_idle = False, b_gone = False, b_stopping = False\<rparr>"

definition example_rec :: Record where
  "example_rec = \<lparr>rec_AgentTokenID = [], rec_SecretName = [], rec_Delivery = [], rec_Upstream = [], rec_UpstreamHost = [], rec_Decision = [],
     rec_Reason = [], rec_UpstreamStatus = 0, rec_Failure = []\<rparr>"


section \<open>A complete response\<close>

lemma Values_foldl_Del:
  "Header_Values (foldl Header_Del h ks) n = (if \<exists>k\<in>set ks. canonicalKey n = canonicalKey k then [] else Header_Values h n)"
  by (induction ks arbitrary: h) auto

lemma rw_Write_ok:
  assumes "r_wroteHeader rw" and "rw_wroteHeader (r_w rw)" and "synced (r_body rw) t (rw_body (r_w rw))" and "rw_Write G True p rw = (res, rw')"
  shows "res = Inr (length p) \<and> r_wroteHeader rw' \<and> rw_wroteHeader (r_w rw') \<and> synced (r_body rw') (t @ p) (rw_body (r_w rw'))
    \<and> rw_heads (r_w rw') = rw_heads (r_w rw) \<and> needles (r_body rw') = needles (r_body rw) \<and> mask (r_body rw') = mask (r_body rw)"
proof -
  obtain sent b where wr: "Writer_Write True (r_body rw) p = (res, sent, b)" and rw': "rw' = rw\<lparr>r_body := b, r_w := write_body sent (r_w rw)\<rparr>"
    using assms(1,4) by (auto simp: rw_Write_def split: prod.splits)
  from Write_synced(2,4)[OF assms(3) wr] assms(1,2) show ?thesis by (simp add: rw' write_body_def Let_def)
qed

lemma copyResponse_ok:
  assumes "\<And>i. b_writeOK B i"
  shows "r_wroteHeader (p_rw pw) \<Longrightarrow> rw_wroteHeader (r_w (p_rw pw)) \<Longrightarrow> synced (r_body (p_rw pw)) t (rw_body (r_w (p_rw pw))) \<Longrightarrow>
    \<exists>pw'. copyResponse G B i ps True pw = (True, pw') \<and> synced (r_body (p_rw pw')) (t @ concat ps) (rw_body (r_w (p_rw pw')))
      \<and> rw_heads (r_w (p_rw pw')) = rw_heads (r_w (p_rw pw)) \<and> rw_wroteHeader (r_w (p_rw pw'))
      \<and> needles (r_body (p_rw pw')) = needles (r_body (p_rw pw)) \<and> mask (r_body (p_rw pw')) = mask (r_body (p_rw pw))"
proof (induction ps arbitrary: i pw t)
  case (Cons p ps)
  show ?case
  proof (cases "p = []")
    case True
    with Cons show ?thesis by simp
  next
    case False
    obtain res rw where w: "rw_Write G True p (p_rw pw) = (res, rw)" by fastforce
    note W = rw_Write_ok[OF Cons.prems w]
    let ?q = "pw_FlushError (b_flushOK B i) (pw_record (isl res) (pw\<lparr>p_rw := rw\<rparr>))"
    have "copyResponse G B i (p # ps) True pw = copyResponse G B (Suc i) ps True ?q"
      using False W by (simp add: assms pw_Write_def w)
    moreover have "p_rw ?q = rw" by (simp add: pw_FlushError_def)
    ultimately show ?thesis using Cons.IH[of ?q "t @ p" "Suc i"] W by simp
  qed
qed simp

text \<open>
  An Upstream's complete answer reaches the Agent whole: the status is the Upstream's, the
  body is \<open>redact.String\<close> of the decoded body, byte for byte as long, and the attempt is
  recorded with the status and without a failure.
\<close>

theorem proxy_delivers:
  assumes "b_answer B = Some res" and "200 \<le> ur_Status res" and "b_1xx B = []" and "\<forall>i. b_writeOK B i"
    and "decodeBody G (b_gunzip B) mthd (res\<lparr>ur_Header := removeHopByHopHeaders (ur_Header res)\<rparr>) = Inr res'" and "ur_Complete res'"
    and "rw_heads w = []" and "rw_body w = []" and "\<not> rw_wroteHeader w"
  shows "\<exists>w'. proxy_respond G B ns closeOK mthd rcd w = (rcd\<lparr>rec_UpstreamStatus := ur_Status res\<rparr>, w', False)
    \<and> rw_status w' = Some (ur_Status res) \<and> rw_body w' = redact_String (concat (ur_Body res')) ns"
proof -
  let ?p = "\<lparr>p_rw = newRedactingWriter w ns, p_err = False\<rparr>"
  have st: "ur_Status res' = ur_Status res"
    using assms(5) by (auto simp: decodeBody_def Let_def split: if_splits prod.splits)
  define p1 where "p1 = start_response G res' ?p"
  have p1: "r_wroteHeader (p_rw p1)" "rw_wroteHeader (r_w (p_rw p1))" "r_body (p_rw p1) = NewWriter ns" "rw_body (r_w (p_rw p1)) = []"
    "\<exists>h. rw_heads (r_w (p_rw p1)) = [(ur_Status res, h)]"
    using assms(2,7,8,9) st by (simp_all add: p1_def start_response_def pw_WriteHeader_def rw_WriteHeader_def pw_header_def newRedactingWriter_def Let_def WriteHeader_def)
  have "synced (r_body (p_rw p1)) [] (rw_body (r_w (p_rw p1)))" using synced_New p1 by simp
  then obtain p2 where p2: "copyResponse G B 0 (ur_Body res') True p1 = (True, p2)"
    "synced (r_body (p_rw p2)) (concat (ur_Body res')) (rw_body (r_w (p_rw p2)))" "rw_heads (r_w (p_rw p2)) = rw_heads (r_w (p_rw p1))"
    "rw_wroteHeader (r_w (p_rw p2))" "needles (r_body (p_rw p2)) = views ns" "mask (r_body (p_rw p2)) = maskFor ns"
    using copyResponse_ok[of B p1 "[]" G 0 "ur_Body res'"] assms(4) p1 by auto
  define p3 where "p3 = p_rw (pw_header (copyTrailers res') p2)"
  obtain r sent b where cl: "Writer_Close closeOK (r_body p3) = (r, sent, b)" by (cases "Writer_Close closeOK (r_body p3)")
  have "r_body p3 = r_body (p_rw p2)" by (simp add: p3_def pw_header_def)
  then have body: "rw_body (r_w (p_rw p2)) @ sent = redact_String (concat (ur_Body res')) ns"
    using Close_synced[OF _ cl[unfolded \<open>r_body p3 = _\<close>]] p2 by (simp add: String_redaction)
  have R: "ReverseProxy_respond G B mthd rcd ?p = (rcd\<lparr>rec_UpstreamStatus := ur_Status res\<rparr>, pw_header (copyTrailers res') p2, False)"
    using assms(1,2,3,5,6) st p2(1) p1_def by (simp add: ReverseProxy_respond_def handle_answer_def)
  have "rw_body (r_w (rw_finish G closeOK p3)) = redact_String (concat (ur_Body res')) ns"
    using body cl by (auto simp: rw_finish_def p3_def pw_header_def Writer_Close_def split: if_splits)
  moreover have "rw_status (r_w (rw_finish G closeOK p3)) = Some (ur_Status res)"
    using p2(3,4) p1(5) cl by (auto simp: rw_finish_def rw_status_def p3_def pw_header_def write_body_def)
  ultimately show ?thesis using R by (simp add: proxy_respond_def p3_def)
qed

theorem proxy_delivers_witness:
  "\<exists>w'. proxy_respond example_golib example_behaviour [''sk-1''] True ''GET'' example_rec new_writer = (example_rec\<lparr>rec_UpstreamStatus := 200\<rparr>, w', False)
    \<and> rw_status w' = Some 200 \<and> rw_body w' = redact_String ''a sk-1 b'' [''sk-1'']"
proof -
  have "Header_Values [(''X'', [''sk-1''])] ''Content-Encoding'' = []"
    by (simp add: Header_Values_def canonicalKey_def CanonicalHeaderKey_def toUpperASCII_def toLowerASCII_def tchar_def isAlnum_def char_of_numeral_eq)
  then have "Header_Values (removeHopByHopHeaders [(''X'', [''sk-1''])]) ''Content-Encoding'' = []"
    by (simp add: removeHopByHopHeaders_def Values_foldl_Del del: foldl_append)
  then have "decodeBody example_golib (b_gunzip example_behaviour) ''GET'' (example_response\<lparr>ur_Header := removeHopByHopHeaders (ur_Header example_response)\<rparr>)
      = Inr (example_response\<lparr>ur_Header := removeHopByHopHeaders (ur_Header example_response)\<rparr>)"
    by (simp add: decodeBody_def encodings_def example_response_def)
  from proxy_delivers[OF _ _ _ _ this, of new_writer "[''sk-1'']" True example_rec] show ?thesis
    by (simp add: example_behaviour_def example_response_def new_writer_def)
qed

end
