(* ===== verification/Agent_Routes.thy ===== *)
theory Agent_Routes
  imports Config_Validate HTTP_Model "HOL-Library.AList"
begin

text \<open>
  The snapshot a request works with, from \<open>internal/agentapi\<close>: the routes with one transport per
  Upstream, the credential slots, and how both follow a reload (\<open>newRoutes\<close>, \<open>sameTransport\<close>,
  \<open>closeUnused\<close>, \<open>newTransport\<close>, \<open>newSlots\<close>, \<open>currentSnapshot\<close>). A config pointer is its
  position in the sequence of published snapshots, so comparing pointers is comparing numbers.
\<close>

section \<open>Transports and routes\<close>

text \<open>A transport, with the scheme and host of the Upstream it was made for.\<close>

record transport =
  tr_Scheme :: string
  tr_Host :: string
  tr_RootCAs :: "CertPool option"
  tr_MinVersionTLS12 :: bool
  tr_DisableCompression :: bool

record transports =
  t_table :: "transport list"
  t_closed :: "nat set"

record route =
  rt_template :: InjectionTemplate
  rt_upstream :: Upstream
  rt_transport :: nat

type_synonym routeKey = "string \<times> string"
type_synonym routes = "(routeKey \<times> route) list"

definition newTransport :: "Upstream \<Rightarrow> transports \<Rightarrow> nat \<times> transports" where
  "newTransport up T = (length (t_table T), T\<lparr>t_table := t_table T @ [\<lparr>tr_Scheme = up_Scheme up, tr_Host = up_Host up,
     tr_RootCAs = up_RootCAs up, tr_MinVersionTLS12 = True, tr_DisableCompression = True\<rparr>]\<rparr>)"

definition sameTransport :: "Upstream \<Rightarrow> Upstream \<Rightarrow> bool" where
  "sameTransport a b \<longleftrightarrow> up_Scheme a = up_Scheme b \<and> up_Host a = up_Host b \<and> opt_Equal CertPool_Equal (up_RootCAs a) (up_RootCAs b)"

text \<open>
  \<open>newRoutes\<close>, one Upstream after another. A Secret Name with Upstreams and no template would
  be a nil dereference: \<open>None\<close>.
\<close>

definition route_entries :: "Config \<Rightarrow> (routeKey \<times> InjectionTemplate option \<times> Upstream) list" where
  "route_entries cfg = concat (map (\<lambda>(name, s). map (\<lambda>(upName, up). ((name, upName), sn_InjectionTemplate s, up)) (sn_Upstreams s)) (cfg_Secrets cfg))"

fun routes_loop :: "routes \<Rightarrow> (routeKey \<times> InjectionTemplate option \<times> Upstream) list \<Rightarrow> transports \<Rightarrow> (routes \<times> transports) option" where
  "routes_loop old [] T = Some ([], T)"
| "routes_loop old ((key, tmpl, up) # es) T = (case tmpl of
      None \<Rightarrow> None
    | Some t \<Rightarrow>
        (let (tr, T) = (case map_of old key of
             Some prev \<Rightarrow> if sameTransport (rt_upstream prev) up then (rt_transport prev, T) else newTransport up T
           | None \<Rightarrow> newTransport up T)
         in map_option (\<lambda>(rs, T). ((key, \<lparr>rt_template = t, rt_upstream = up, rt_transport = tr\<rparr>) # rs, T)) (routes_loop old es T)))"

definition newRoutes :: "Config \<Rightarrow> routes \<Rightarrow> transports \<Rightarrow> (routes \<times> transports) option" where
  "newRoutes cfg old T = routes_loop old (route_entries cfg) T"

definition used :: "routes \<Rightarrow> nat set" where
  "used rs = rt_transport ` snd ` set rs"

definition closeUnused :: "routes \<Rightarrow> routes \<Rightarrow> transports \<Rightarrow> transports" where
  "closeUnused old rs T = T\<lparr>t_closed := t_closed T \<union> (used old - used rs)\<rparr>"

section \<open>Credential slots\<close>

record slots =
  sl_headers :: "HeaderTemplate list gomap"
  sl_queries :: "string list"
  sl_basicAuth :: "BasicAuthTemplate list"

definition add_slot :: "InjectionTemplate option \<Rightarrow> slots \<Rightarrow> slots" where
  "add_slot t out = (case t of
      None \<Rightarrow> out
    | Some (HeaderT ht) \<Rightarrow>
        (let cur = (case map_of (sl_headers out) (ht_Name ht) of None \<Rightarrow> [] | Some ts \<Rightarrow> ts)
         in if ht \<in> set cur then out
            else out\<lparr>sl_headers := AList.update (ht_Name ht) (cur @ [ht]) (sl_headers out)\<rparr>)
    | Some (QueryT q) \<Rightarrow> if qt_Name q \<in> set (sl_queries out) then out else out\<lparr>sl_queries := sl_queries out @ [qt_Name q]\<rparr>
    | Some (BasicAuthT b) \<Rightarrow> if b \<in> set (sl_basicAuth out) then out else out\<lparr>sl_basicAuth := sl_basicAuth out @ [b]\<rparr>)"

definition newSlots :: "Config \<Rightarrow> slots" where
  "newSlots cfg = (let out = fold (\<lambda>(_, s). add_slot (sn_InjectionTemplate s)) (sort_key fst (cfg_Secrets cfg))
       \<lparr>sl_headers = [], sl_queries = [], sl_basicAuth = []\<rparr>
     in out\<lparr>sl_queries := sort (sl_queries out)\<rparr>)"

section \<open>Snapshots\<close>

record snapshot =
  snap_pos :: nat
  snap_cfg :: Config
  snap_routes :: routes
  snap_slots :: slots

record server =
  srv_snapshot :: snapshot
  srv_transports :: transports

text \<open>The pointer a \<open>Running\<close> holds, as a position.\<close>

definition run_pos :: "Running \<Rightarrow> nat" where
  "run_pos r = length (run_reloaded r)"

definition NewServer :: "Running \<Rightarrow> server option" where
  "NewServer r = map_option (\<lambda>(rs, T).
     \<lparr>srv_snapshot = \<lparr>snap_pos = run_pos r, snap_cfg = Snapshot r, snap_routes = rs, snap_slots = newSlots (Snapshot r)\<rparr>, srv_transports = T\<rparr>)
     (newRoutes (Snapshot r) [] \<lparr>t_table = [], t_closed = {}\<rparr>)"

text \<open>
  \<open>currentSnapshot\<close>: the running config is read without the lock (\<open>r1\<close>) and, when it is not the
  one served, again under the lock (\<open>r2\<close>).
\<close>

definition currentSnapshot :: "Running \<Rightarrow> Running \<Rightarrow> server \<Rightarrow> (snapshot \<times> server) option" where
  "currentSnapshot r1 r2 s = (
     let old = srv_snapshot s in
     if snap_pos old = run_pos r1 then Some (old, s)
     else if snap_pos old = run_pos r2 then Some (old, s)
     else map_option (\<lambda>(rs, T).
       let snap = \<lparr>snap_pos = run_pos r2, snap_cfg = Snapshot r2, snap_routes = rs, snap_slots = newSlots (Snapshot r2)\<rparr>
       in (snap, \<lparr>srv_snapshot = snap, srv_transports = closeUnused (snap_routes old) rs T\<rparr>))
       (newRoutes (Snapshot r2) (snap_routes old) (srv_transports s)))"

section \<open>The routes are the config's, and transports are not shared\<close>

definition serves :: "transports \<Rightarrow> route \<Rightarrow> bool" where
  "serves T rt \<longleftrightarrow> rt_transport rt < length (t_table T) \<and> (let tr = t_table T ! rt_transport rt; up = rt_upstream rt in
     tr_Scheme tr = up_Scheme up \<and> tr_Host tr = up_Host up \<and> opt_Equal CertPool_Equal (tr_RootCAs tr) (up_RootCAs up)
     \<and> tr_MinVersionTLS12 tr \<and> tr_DisableCompression tr)"

lemma CertPool_Equal_refl: "CertPool_Equal a a"
  by (simp add: CertPool_Equal_def)

lemma CertPool_Equal_trans: "CertPool_Equal a b \<Longrightarrow> CertPool_Equal b c \<Longrightarrow> CertPool_Equal a c"
  by (auto simp: CertPool_Equal_def)

lemma roots_trans: "opt_Equal CertPool_Equal a b \<Longrightarrow> opt_Equal CertPool_Equal b c \<Longrightarrow> opt_Equal CertPool_Equal a c"
  by (cases a; cases b; cases c) (auto intro: CertPool_Equal_trans)

lemma serves_new: "newTransport up T = (tr, T') \<Longrightarrow> serves T' \<lparr>rt_template = t, rt_upstream = up, rt_transport = tr\<rparr>"
  by (auto simp: newTransport_def serves_def opt_Equal_refl[of CertPool_Equal, OF CertPool_Equal_refl])

lemma serves_kept:
  "serves T prev \<Longrightarrow> sameTransport (rt_upstream prev) up \<Longrightarrow> serves T \<lparr>rt_template = t, rt_upstream = up, rt_transport = rt_transport prev\<rparr>"
  by (auto simp: serves_def sameTransport_def Let_def intro: roots_trans)

lemma serves_extend: "serves T rt \<Longrightarrow> prefix (t_table T) (t_table T') \<Longrightarrow> serves T' rt"
  by (auto simp: serves_def prefix_def nth_append)

text \<open>Two routes of one map never have the same transport, and every route's transport serves it.\<close>

definition routes_inv :: "routes \<Rightarrow> transports \<Rightarrow> bool" where
  "routes_inv rs T \<longleftrightarrow> distinct (map fst rs) \<and> distinct (map (rt_transport \<circ> snd) rs) \<and> (\<forall>(k, rt)\<in>set rs. serves T rt)
     \<and> used rs \<inter> t_closed T = {} \<and> (\<forall>i\<in>t_closed T. i < length (t_table T))"

lemma serves_less: "serves T rt \<Longrightarrow> rt_transport rt < length (t_table T)"
  by (simp add: serves_def)

lemma routes_loop_ok:
  assumes "routes_inv old T0" and "prefix (t_table T0) (t_table T)" and "distinct (map fst es)" and "\<forall>(k, t, up)\<in>set es. t \<noteq> None"
  shows "\<exists>rs T'. routes_loop old es T = Some (rs, T') \<and> map (\<lambda>(k, rt). (k, Some (rt_template rt), rt_upstream rt)) rs = es
    \<and> prefix (t_table T) (t_table T') \<and> t_closed T' = t_closed T \<and> distinct (map (rt_transport \<circ> snd) rs)
    \<and> (\<forall>(k, rt)\<in>set rs. serves T' rt \<and> (length (t_table T) \<le> rt_transport rt \<or> (\<exists>prev. map_of old k = Some prev \<and> rt_transport rt = rt_transport prev)))"
  using assms(2-4)
proof (induction es arbitrary: T)
  case (Cons e es)
  obtain key t up where e: "e = (key, Some t, up)" using Cons.prems(3) by (cases e) auto
  obtain tr T1 where t1: "(case map_of old key of Some prev \<Rightarrow> if sameTransport (rt_upstream prev) up then (rt_transport prev, T) else newTransport up T
           | None \<Rightarrow> newTransport up T) = (tr, T1)" by fastforce
  let ?rt = "\<lparr>rt_template = t, rt_upstream = up, rt_transport = tr\<rparr>"
  have old: "serves T prev" if "map_of old k = Some prev" for k prev
    using assms(1) map_of_SomeD[OF that] serves_extend[OF _ Cons.prems(1)] by (auto simp: routes_inv_def)
  have "serves T1 ?rt"
  proof (cases "\<exists>prev. map_of old key = Some prev \<and> sameTransport (rt_upstream prev) up")
    case True
    then obtain prev where p: "map_of old key = Some prev" "sameTransport (rt_upstream prev) up" by blast
    with t1 serves_kept[OF old[OF p(1)] p(2), of t] show ?thesis by simp
  next
    case False
    with t1 have "newTransport up T = (tr, T1)" by (auto split: option.splits if_splits)
    then show ?thesis by (rule serves_new)
  qed
  then have head: "serves T1 ?rt" "prefix (t_table T) (t_table T1)" "t_closed T1 = t_closed T"
    "(\<exists>prev. map_of old key = Some prev \<and> tr = rt_transport prev) \<or> tr = length (t_table T) \<and> length (t_table T1) = Suc (length (t_table T))"
    using t1 by (auto simp: newTransport_def split: option.splits if_splits)
  have "prefix (t_table T0) (t_table T1)" using Cons.prems(1) head(2) prefix_order.trans by blast
  moreover have "distinct (map fst es)" "\<forall>(k, t, up)\<in>set es. t \<noteq> None" using Cons.prems by auto
  ultimately obtain rs T' where IH: "routes_loop old es T1 = Some (rs, T')"
    "map (\<lambda>(k, rt). (k, Some (rt_template rt), rt_upstream rt)) rs = es" "prefix (t_table T1) (t_table T')" "t_closed T' = t_closed T1"
    "distinct (map (rt_transport \<circ> snd) rs)"
    "\<forall>(k, rt)\<in>set rs. serves T' rt \<and> (length (t_table T1) \<le> rt_transport rt \<or> (\<exists>prev. map_of old k = Some prev \<and> rt_transport rt = rt_transport prev))"
    using Cons.IH[of T1] by blast
  have keys: "k \<noteq> key" if "(k, rt) \<in> set rs" for k rt
  proof -
    have "(k, Some (rt_template rt), rt_upstream rt) \<in> set es" using that IH(2) by force
    with Cons.prems(2) e show ?thesis by (auto simp: image_iff)
  qed
  have inj: "k = k'" if "map_of old k = Some p" "map_of old k' = Some p'" "rt_transport p = rt_transport p'" for k k' p p'
  proof -
    have "(k, p) \<in> set old" "(k', p') \<in> set old" using that map_of_SomeD by fast+
    moreover have "inj_on (rt_transport \<circ> snd) (set old)" using assms(1) by (simp add: routes_inv_def distinct_map)
    ultimately have "(k, p) = (k', p')" using that(3) inj_onD[of "rt_transport \<circ> snd" "set old" "(k, p)" "(k', p')"] by simp
    then show ?thesis by simp
  qed
  have fresh: "rt_transport rt \<noteq> tr" if "(k, rt) \<in> set rs" for k rt
  proof
    assume eq: "rt_transport rt = tr"
    from IH(6) that have "length (t_table T1) \<le> tr \<or> (\<exists>prev. map_of old k = Some prev \<and> tr = rt_transport prev)" using eq by auto
    moreover have "tr < length (t_table T1)" using serves_less[OF head(1)] by simp
    ultimately obtain p where p: "map_of old k = Some p" "tr = rt_transport p" by auto
    then have "tr < length (t_table T)" using serves_less[OF old] by simp
    with head(4) obtain q where "map_of old key = Some q" "tr = rt_transport q" by auto
    with inj p keys[OF that] show False by metis
  qed
  have pre: "prefix (t_table T) (t_table T')" using head(2) IH(3) prefix_order.trans by blast
  let ?new = "\<lambda>k rt. length (t_table T) \<le> rt_transport rt \<or> (\<exists>prev. map_of old k = Some prev \<and> rt_transport rt = rt_transport prev)"
  have loop: "routes_loop old (e # es) T = Some ((key, ?rt) # rs, T')" using t1 IH(1) e by (simp add: Let_def)
  have len: "length (t_table T) \<le> length (t_table T1)" using head(2) prefix_length_le by blast
  have rest: "serves T' rt \<and> ?new k rt" if "(k, rt) \<in> set rs" for k rt using IH(6) that len by fastforce
  have first: "serves T' ?rt \<and> ?new key ?rt" using serves_extend[OF head(1) IH(3)] head(4) by auto
  have dist: "distinct (map (rt_transport \<circ> snd) ((key, ?rt) # rs))" using IH(5) fresh by force
  have all: "\<forall>(k, rt)\<in>set ((key, ?rt) # rs). serves T' rt \<and> ?new k rt"
  proof
    fix y assume y: "y \<in> set ((key, ?rt) # rs)"
    obtain k rt where k: "y = (k, rt)" by fastforce
    from y k have "(k, rt) = (key, ?rt) \<or> (k, rt) \<in> set rs" by simp
    with k first rest show "case y of (k, rt) \<Rightarrow> serves T' rt \<and> ?new k rt" by (elim disjE) simp_all
  qed
  have es: "map (\<lambda>(k, rt). (k, Some (rt_template rt), rt_upstream rt)) ((key, ?rt) # rs) = e # es" using IH(2) e by simp
  from loop es pre IH(4) head(3) dist all show ?case by (intro exI[of _ "(key, ?rt) # rs"] exI[of _ T'] conjI) (simp_all add: comp_def)
qed simp

section \<open>The server as a machine\<close>

text \<open>\<open>H i\<close> is the \<open>i\<close>-th published config.\<close>

definition routable :: "Config \<Rightarrow> bool" where
  "routable cfg \<longleftrightarrow> distinct (map fst (route_entries cfg)) \<and> (\<forall>(k, t, up)\<in>set (route_entries cfg). t \<noteq> None)"

definition published :: "(nat \<Rightarrow> Config) \<Rightarrow> Running \<Rightarrow> bool" where
  "published H r \<longleftrightarrow> Snapshot r = H (run_pos r) \<and> routable (Snapshot r)"

definition srv_step :: "(nat \<Rightarrow> Config) \<Rightarrow> server \<Rightarrow> Running \<times> Running \<Rightarrow> server" where
  "srv_step H s rr = (if published H (fst rr) \<and> published H (snd rr) then
     (case currentSnapshot (fst rr) (snd rr) s of Some (_, s') \<Rightarrow> s' | None \<Rightarrow> s) else s)"

definition snapshot_of :: "(nat \<Rightarrow> Config) \<Rightarrow> snapshot \<Rightarrow> bool" where
  "snapshot_of H snap \<longleftrightarrow> snap_cfg snap = H (snap_pos snap) \<and> snap_slots snap = newSlots (snap_cfg snap)
     \<and> map (\<lambda>(k, rt). (k, Some (rt_template rt), rt_upstream rt)) (snap_routes snap) = route_entries (snap_cfg snap)"

definition srv_inv :: "(nat \<Rightarrow> Config) \<Rightarrow> server \<Rightarrow> bool" where
  "srv_inv H s \<longleftrightarrow> snapshot_of H (srv_snapshot s) \<and> routes_inv (snap_routes (srv_snapshot s)) (srv_transports s)"

definition srv_le :: "server \<Rightarrow> server \<Rightarrow> bool" where
  "srv_le s s' \<longleftrightarrow> prefix (t_table (srv_transports s)) (t_table (srv_transports s')) \<and> t_closed (srv_transports s) \<subseteq> t_closed (srv_transports s')"

lemma newRoutes_inv:
  assumes "routes_inv old T" and "routable cfg"
  shows "\<exists>rs T'. newRoutes cfg old T = Some (rs, T') \<and> routes_inv rs (closeUnused old rs T')
    \<and> map (\<lambda>(k, rt). (k, Some (rt_template rt), rt_upstream rt)) rs = route_entries cfg
    \<and> prefix (t_table T) (t_table T') \<and> t_closed T \<subseteq> t_closed (closeUnused old rs T')"
proof -
  obtain rs T' where R: "routes_loop old (route_entries cfg) T = Some (rs, T')"
    "map (\<lambda>(k, rt). (k, Some (rt_template rt), rt_upstream rt)) rs = route_entries cfg" "prefix (t_table T) (t_table T')" "t_closed T' = t_closed T"
    "distinct (map (rt_transport \<circ> snd) rs)"
    "\<forall>(k, rt)\<in>set rs. serves T' rt \<and> (length (t_table T) \<le> rt_transport rt \<or> (\<exists>prev. map_of old k = Some prev \<and> rt_transport rt = rt_transport prev))"
    using routes_loop_ok[OF assms(1), of T "route_entries cfg"] assms(2) by (auto simp: routable_def)
  have "map fst (route_entries cfg) = map fst rs" by (simp flip: R(2) add: comp_def case_prod_beta')
  then have "distinct (map fst rs)" using assms(2) by (simp add: routable_def)
  have len: "length (t_table T) \<le> length (t_table T')" using R(3) prefix_length_le by blast
  have closed: "rt_transport rt \<notin> t_closed T" if "(k, rt) \<in> set rs" for k rt
  proof -
    have "length (t_table T) \<le> rt_transport rt \<or> (\<exists>prev. map_of old k = Some prev \<and> rt_transport rt = rt_transport prev)" using R(6) that by auto
    then show ?thesis
    proof
      assume "length (t_table T) \<le> rt_transport rt"
      with assms(1) show ?thesis by (fastforce simp: routes_inv_def)
    next
      assume "\<exists>prev. map_of old k = Some prev \<and> rt_transport rt = rt_transport prev"
      then obtain prev where "(k, prev) \<in> set old" "rt_transport rt = rt_transport prev" using map_of_SomeD by fast
      then have "rt_transport rt \<in> used old" by (force simp: used_def)
      with assms(1) show ?thesis by (auto simp: routes_inv_def)
    qed
  qed
  have "used rs \<inter> t_closed (closeUnused old rs T') = {}"
    using closed R(4) by (auto simp: closeUnused_def used_def)
  moreover have "i < length (t_table T')" if "i \<in> t_closed (closeUnused old rs T')" for i
  proof -
    have "i < length (t_table T)" if "i \<in> used old" for i
      using that assms(1) by (fastforce simp: used_def routes_inv_def dest: serves_less)
    with that assms(1) R(4) len show ?thesis by (force simp: closeUnused_def routes_inv_def)
  qed
  moreover have "serves (closeUnused old rs T') rt" if "(k, rt) \<in> set rs" for k rt
    using R(6) that by (auto simp: serves_def closeUnused_def)
  ultimately have "routes_inv rs (closeUnused old rs T')"
    using \<open>distinct (map fst rs)\<close> R(5) by (auto simp: routes_inv_def closeUnused_def)
  with R(1-4) show ?thesis by (auto simp: newRoutes_def closeUnused_def)
qed

lemma currentSnapshot_ok:
  assumes "srv_inv H s" and "published H r1" and "published H r2"
  shows "\<exists>snap s'. currentSnapshot r1 r2 s = Some (snap, s') \<and> srv_inv H s' \<and> srv_le s s' \<and> srv_snapshot s' = snap
    \<and> snap_pos snap \<in> {run_pos r1, run_pos r2}"
proof (cases "snap_pos (srv_snapshot s) \<in> {run_pos r1, run_pos r2}")
  case True
  then have "currentSnapshot r1 r2 s = Some (srv_snapshot s, s)" by (auto simp: currentSnapshot_def Let_def)
  with True show ?thesis using assms(1) by (auto simp: srv_le_def)
next
  case False
  have inv: "routes_inv (snap_routes (srv_snapshot s)) (srv_transports s)" using assms(1) by (simp add: srv_inv_def)
  from newRoutes_inv[OF inv, of "Snapshot r2"] assms(3) obtain rs T where R: "newRoutes (Snapshot r2) (snap_routes (srv_snapshot s)) (srv_transports s) = Some (rs, T)"
    "routes_inv rs (closeUnused (snap_routes (srv_snapshot s)) rs T)"
    "map (\<lambda>(k, rt). (k, Some (rt_template rt), rt_upstream rt)) rs = route_entries (Snapshot r2)"
    "prefix (t_table (srv_transports s)) (t_table T)" "t_closed (srv_transports s) \<subseteq> t_closed (closeUnused (snap_routes (srv_snapshot s)) rs T)"
    by (auto simp: published_def)
  have "Snapshot r2 = H (run_pos r2)" using assms(3) by (simp add: published_def)
  with R False show ?thesis
    by (simp add: currentSnapshot_def Let_def srv_inv_def snapshot_of_def srv_le_def) (simp add: closeUnused_def)
qed

lemma srv_le_refl: "srv_le s s"
  by (simp add: srv_le_def)

lemma srv_le_trans: "srv_le s t \<Longrightarrow> srv_le t u \<Longrightarrow> srv_le s u"
  by (auto simp: srv_le_def)

lemma srv_step_ok: "srv_inv H s \<Longrightarrow> srv_inv H (srv_step H s rr) \<and> srv_le s (srv_step H s rr)"
proof -
  assume "srv_inv H s"
  show ?thesis
  proof (cases "published H (fst rr) \<and> published H (snd rr)")
    case True
    with currentSnapshot_ok[OF \<open>srv_inv H s\<close>, of "fst rr" "snd rr"] show ?thesis by (auto simp: srv_step_def)
  next
    case False
    then have "srv_step H s rr = s" by (auto simp: srv_step_def)
    then show ?thesis using \<open>srv_inv H s\<close> srv_le_refl by simp
  qed
qed

interpretation snapshots: machine "srv_step H" "srv_inv H" srv_le
  using srv_step_ok by unfold_locales (auto intro: srv_le_refl srv_le_trans)

lemma NewServer_inv:
  assumes "published H r"
  shows "\<exists>s. NewServer r = Some s \<and> srv_inv H s"
proof -
  have "routes_inv [] \<lparr>t_table = [], t_closed = {}\<rparr>" by (simp add: routes_inv_def used_def)
  from newRoutes_inv[OF this, of "Snapshot r"] assms obtain rs T where R: "newRoutes (Snapshot r) [] \<lparr>t_table = [], t_closed = {}\<rparr> = Some (rs, T)"
    "routes_inv rs (closeUnused [] rs T)" "map (\<lambda>(k, rt). (k, Some (rt_template rt), rt_upstream rt)) rs = route_entries (Snapshot r)"
    by (auto simp: published_def)
  have "closeUnused [] rs T = T" by (simp add: closeUnused_def used_def)
  with R assms show ?thesis by (auto simp: NewServer_def srv_inv_def snapshot_of_def published_def)
qed

text \<open>
  However requests and reloads follow each other, a request gets the routes of a config that
  was running during its call, completely and without a nil template; every route has a transport
  of its own, made for that scheme and host and verifying with that Upstream's roots only, with
  TLS 1.2 at least; and no transport a current route uses is ever closed.
\<close>

theorem snapshot_follows_config:
  assumes "published H r0" and "NewServer r0 = Some s0" and "s = foldl (srv_step H) s0 ops" and "published H r1" and "published H r2"
  shows "\<exists>snap s'. currentSnapshot r1 r2 s = Some (snap, s') \<and> snap_pos snap \<in> {run_pos r1, run_pos r2} \<and> snapshot_of H snap
    \<and> routes_inv (snap_routes snap) (srv_transports s')"
proof -
  have "srv_inv H s" using NewServer_inv[OF assms(1)] assms(2,3) snapshots.inv_run by auto
  from currentSnapshot_ok[OF this assms(4,5)] show ?thesis by (auto simp: srv_inv_def)
qed

definition example_routed :: Config where
  "example_routed = example_cfg\<lparr>cfg_Secrets := [(''gh'', \<lparr>sn_Name = ''gh'', sn_Backend = ''bao'', sn_Location = ''kv/gh'', sn_CacheTTL = 0,
     sn_InjectionTemplate = Some (HeaderT \<lparr>ht_Name = ''Authorization'', ht_Prefix = ''Bearer '', ht_Suffix = []\<rparr>),
     sn_Upstreams = [(''api'', \<lparr>up_Name = ''api'', up_Scheme = ''https'', up_Host = ''api.example.com'', up_BasePath = [], up_RootCAs = None\<rparr>)],
     sn_Preset = [], sn_Env = []\<rparr>)]\<rparr>"

theorem snapshot_follows_config_witness:
  "\<exists>snap s'. currentSnapshot (NewRunning example_routed) (NewRunning example_routed) (the (NewServer (NewRunning example_routed))) = Some (snap, s')
    \<and> snapshot_of (\<lambda>_. example_routed) snap"
proof -
  have p: "published (\<lambda>_. example_routed) (NewRunning example_routed)"
    by (simp add: published_def routable_def route_entries_def NewRunning_def Snapshot_def example_routed_def)
  from NewServer_inv[OF p] have "NewServer (NewRunning example_routed) = Some (the (NewServer (NewRunning example_routed)))" by auto
  from snapshot_follows_config[OF p this, of _ "[]", OF _ p p] show ?thesis by fastforce
qed

end
