(* ===== verification/Agent_Proxy.thy ===== *)
theory Agent_Proxy
  imports Proxy_Response Agent_Routes
begin

text \<open>
  Proxy Delivery in \<open>internal/agentapi/proxy.go\<close>: finding the Agent Token in a credential slot,
  the request that is sent to the Upstream, the handler, and the handlers composed as \<open>Serve\<close>
  composes them. A request works with the one snapshot it took.
\<close>

section \<open>Finding the Agent Token\<close>

record slot =
  slot_header :: string
  slot_query :: string

fun first_some :: "('a \<Rightarrow> 'b option) \<Rightarrow> 'a list \<Rightarrow> 'b option" where
  "first_some f [] = None"
| "first_some f (x # xs) = (case f x of Some y \<Rightarrow> Some y | None \<Rightarrow> first_some f xs)"

definition shaped :: "string option \<Rightarrow> string option" where
  "shaped t = (case t of Some tok \<Rightarrow> if hasPrefix tok AgentTokenPrefix then Some tok else None | None \<Rightarrow> None)"

definition in_header :: "string \<Rightarrow> string \<Rightarrow> string \<times> slot" where
  "in_header name tok = (tok, \<lparr>slot_header = name, slot_query = []\<rparr>)"

definition header_tokens :: "golib \<Rightarrow> slots \<Rightarrow> Header \<Rightarrow> (string \<times> slot) list" where
  "header_tokens G sl h = concat (map (\<lambda>(name, ts). map (in_header name)
     (List.map_filter (\<lambda>v. first_some (\<lambda>t. shaped (extractHeader G v t)) ts) (Header_Values h name))) (sort_key fst (sl_headers sl)))"

definition basic_tokens :: "golib \<Rightarrow> slots \<Rightarrow> Header \<Rightarrow> (string \<times> slot) list" where
  "basic_tokens G sl h = map (in_header ''Authorization'')
     (List.map_filter (\<lambda>v. first_some (\<lambda>t. shaped (extractBasicAuth G v t)) (sl_basicAuth sl)) (Header_Values h ''Authorization''))"

definition query_tokens :: "slots \<Rightarrow> string \<Rightarrow> (string \<times> slot) list" where
  "query_tokens sl q = concat (map (\<lambda>name. map (\<lambda>v. (v, \<lparr>slot_header = [], slot_query = name\<rparr>))
     (filter (\<lambda>v. hasPrefix v AgentTokenPrefix) (query_values q name))) (sl_queries sl))"

definition authenticateProxy :: "surroundings \<Rightarrow> slots \<Rightarrow> http_request \<Rightarrow> exchange \<Rightarrow> (AgentToken \<times> slot) option \<times> exchange" where
  "authenticateProxy E sl r x = (
     let presented = header_tokens (e_golib E) sl (req_Header r) @ basic_tokens (e_golib E) sl (req_Header r)
           @ query_tokens sl (req_RawQuery r) @ map (in_header AgentTokenHeader) (Header_Values (req_Header r) AgentTokenHeader)
     in case verifyAgentToken E (map fst presented) x of
          (None, x) \<Rightarrow> (None, x)
        | (Some tok, x) \<Rightarrow> (Some (tok, snd (presented ! 0)), x))"

section \<open>The request that is sent\<close>

text \<open>What \<open>ReverseProxy\<close> does to the headers before \<open>Rewrite\<close>; \<open>te_trailers\<close> is \<open>HeaderValuesContainsToken\<close>.\<close>

definition te_trailers :: "Header \<Rightarrow> bool" where
  "te_trailers h \<longleftrightarrow> list_ex (\<lambda>v. list_ex (\<lambda>t. toLowerASCII (trimString t) = ''trailers'') (splitc (CHR '','') v)) (Header_Values h ''Te'')"

definition proxy_headers :: "Header \<Rightarrow> Header" where
  "proxy_headers h = (
     let h' = removeHopByHopHeaders h;
         h' = (if te_trailers h then Header_Set h' ''Te'' ''trailers'' else h')
     in foldl Header_Del h' [''Forwarded'', ''X-Forwarded-For'', ''X-Forwarded-Host'', ''X-Forwarded-Proto''])"

definition rewrite_query :: "slot \<Rightarrow> credential \<Rightarrow> string \<Rightarrow> string" where
  "rewrite_query from cred q = (
     let q = (if slot_query from = [] then q else withoutParam q (slot_query from))
     in if cred_query cred = [] then q
        else (let q = withoutParam q (cred_query cred)
              in (if q = [] then [] else q @ ''&'') @ cred_query cred @ ''='' @ cred_queryValue cred))"

definition rewrite_header :: "slot \<Rightarrow> credential \<Rightarrow> Header \<Rightarrow> Header" where
  "rewrite_header from cred h = (
     let h = Header_Del h AgentTokenHeader;
         h = (if slot_header from = [] then h else Header_Del h (slot_header from));
         h = (if cred_header cred = [] then h else Header_Set h (cred_header cred) (cred_headerValue cred));
         h = Header_Set h ''Accept-Encoding'' ''gzip''
     in Header_Del (Header_Del h ''Range'') ''If-Range'')"

text \<open>A request without a \<open>User-Agent\<close> gets an empty one, so that the transport adds none.\<close>

definition Rewrite :: "route \<Rightarrow> slot \<Rightarrow> credential \<Rightarrow> string \<Rightarrow> http_request \<Rightarrow> out_request" where
  "Rewrite rt from cred rest r = (
     let up = rt_upstream rt;
         escaped = up_BasePath up @ rest;
         escaped = (if escaped = [] then ''/'' else escaped);
         h = rewrite_header from cred (proxy_headers (req_Header r));
         h = (if Header_Values h ''User-Agent'' = [] then Header_Set h ''User-Agent'' [] else h)
     in \<lparr>out_Transport = rt_transport rt, out_Method = req_Method r, out_Scheme = up_Scheme up, out_Host = up_Host up,
         out_Path = pathUnescape escaped, out_RawPath = escaped,
         out_RawQuery = rewrite_query from cred (cleanQueryParams (req_RawQuery r)), out_Header = h, out_Body = req_Body r\<rparr>)"

lemma Rewrite_fields:
  "out_Transport (Rewrite rt from cred rest r) = rt_transport rt" "out_Scheme (Rewrite rt from cred rest r) = up_Scheme (rt_upstream rt)"
  "out_Host (Rewrite rt from cred rest r) = up_Host (rt_upstream rt)"
  by (simp_all add: Rewrite_def Let_def)

section \<open>The handler\<close>

definition proxy_record :: "AgentToken \<Rightarrow> http_request \<Rightarrow> route option \<Rightarrow> Record" where
  "proxy_record tok r rt = \<lparr>rec_AgentTokenID = at_ID tok, rec_SecretName = req_SecretName r, rec_Delivery = ''proxy'', rec_Upstream = req_Upstream r,
     rec_UpstreamHost = (case rt of None \<Rightarrow> [] | Some rt \<Rightarrow> up_Host (rt_upstream rt)), rec_Decision = [], rec_Reason = [],
     rec_UpstreamStatus = 0, rec_Failure = []\<rparr>"

definition refuse :: "string \<Rightarrow> int \<Rightarrow> string \<Rightarrow> Record \<Rightarrow> exchange \<Rightarrow> Record \<times> exchange" where
  "refuse reason status msg rcd x = (rcd\<lparr>rec_Decision := ''denied'', rec_Reason := reason\<rparr>, respond (writeError status msg) x)"

text \<open>An h2c offer is dropped.\<close>

definition drop_h2c :: "golib \<Rightarrow> http_request \<Rightarrow> http_request" where
  "drop_h2c G r = (if EqualFold G (Header_Get (req_Header r) ''Upgrade'') ''h2c''
     then r\<lparr>req_Header := Header_Del (Header_Del (req_Header r) ''Upgrade'') ''Http2-Settings''\<rparr> else r)"

text \<open>
  What an allowed attempt does: fetch, render, release, forward. \<open>x_out\<close> has the requests handed to
  the transport, also those it fails to bring to the Upstream; what came back, if anything, is the
  behaviour \<open>B\<close>.
\<close>

definition proxy_deliver :: "surroundings \<Rightarrow> behaviour \<Rightarrow> bool \<Rightarrow> Config \<Rightarrow> route \<Rightarrow> slot \<Rightarrow> string \<Rightarrow> http_request \<Rightarrow> Record \<Rightarrow> exchange \<Rightarrow> Record \<times> exchange" where
  "proxy_deliver E B closeOK cfg rt from rest r rcd x = (case Server_resolve E cfg (req_SecretName r) rcd x of
      (None, rcd, x) \<Rightarrow> (rcd, x)
    | (Some s, rcd, x) \<Rightarrow>
        (let cred = render (rt_template rt) s (x_heap x);
             x = x\<lparr>x_heap := Secret_Release s (x_heap x)\<rparr>
         in case cred of
              Inl _ \<Rightarrow> (rcd\<lparr>rec_Failure := ''the Secret cannot go where the Injection Template puts it''\<rparr>,
                        respond (writeError 502 ''the Secret could not be delivered'') x)
            | Inr cred \<Rightarrow>
                (case proxy_respond (e_golib E) B (cred_needles cred) closeOK (req_Method r) rcd (x_w x) of (rcd, w, _) \<Rightarrow>
                   (rcd, x\<lparr>x_w := w, x_out := x_out x @ [Rewrite rt from cred rest r]\<rparr>))))"

definition proxy_attempt :: "surroundings \<Rightarrow> behaviour \<Rightarrow> bool \<Rightarrow> snapshot \<Rightarrow> AgentToken \<Rightarrow> slot \<Rightarrow> http_request \<Rightarrow> exchange \<Rightarrow> Record \<times> exchange" where
  "proxy_attempt E B closeOK snap tok from r0 x = (
     let rt = map_of (snap_routes snap) (req_SecretName r0, req_Upstream r0);
         rcd = proxy_record tok r0 rt;
         r = drop_h2c (e_golib E) r0
     in if Header_Get (req_Header r) ''Upgrade'' \<noteq> []
        then refuse ''protocol upgrade'' 400 ''Proxy Delivery does not support protocol upgrades'' rcd x
        else (case forwardedPath (req_EscapedPath r) of
           None \<Rightarrow> refuse ''the path contains a dot segment'' 400 ''the path must not contain dot segments'' rcd x
         | Some rest \<Rightarrow> (case AuthorizeProxy (snap_cfg snap) tok (req_SecretName r) (req_Method r) rest of
             Inl reason \<Rightarrow> refuse (denial_text reason) 403 deniedMessage rcd x
           | Inr _ \<Rightarrow> (case rt of
               None \<Rightarrow> refuse ''unknown Upstream'' 403 deniedMessage rcd x
             | Some rt \<Rightarrow> proxy_deliver E B closeOK (snap_cfg snap) rt from rest r (rcd\<lparr>rec_Decision := ''allowed''\<rparr>) x))))"

definition proxy :: "surroundings \<Rightarrow> behaviour \<Rightarrow> bool \<Rightarrow> snapshot \<Rightarrow> http_request \<Rightarrow> exchange \<Rightarrow> exchange" where
  "proxy E B closeOK snap r x = (case authenticateProxy E (snap_slots snap) r x of
      (None, x) \<Rightarrow> x
    | (Some (tok, from), x) \<Rightarrow> (case proxy_attempt E B closeOK snap tok from r x of (rcd, x) \<Rightarrow> Server_record E rcd x))"

section \<open>The composed handlers\<close>

datatype endpoint = RevealEndpoint | ProxyEndpoint

text \<open>
  \<open>Serve\<close>'s handler for a request the multiplexer gave to an endpoint; the 404 and 405 answers of the
  multiplexer itself are not modelled.
\<close>

definition Serve :: "surroundings \<Rightarrow> behaviour \<Rightarrow> bool \<Rightarrow> endpoint \<Rightarrow> snapshot \<Rightarrow> http_request \<Rightarrow> exchange \<Rightarrow> exchange" where
  "Serve E B closeOK ep snap r x = noStore (requireAudit (\<lambda>x. case ep of
      RevealEndpoint \<Rightarrow> reveal E (snap_cfg snap) r x
    | ProxyEndpoint \<Rightarrow> proxy E B closeOK snap r x)) x"

end
