(* ===== verification/Agent_Properties.thy ===== *)
theory Agent_Properties
  imports Agent_Proxy Audit_Properties
begin

text \<open>
  What the Agent API promises. The abstract broker only knows the audit trail, what was fetched
  and what was handed to the transport for an Upstream: a request is turned away, or denied and
  recorded, or allowed, recorded and fetched with at most one request sent on. Both handlers with
  their wrappers refine it, over the audit log with every failure it can have. A step of the
  broker is a whole request; the handlers append the record when the request ends.
\<close>

section \<open>The abstract broker\<close>

record broker =
  br_trail :: "Record list"
  br_fetched :: "plan list"
  br_sent :: "out_request list"

datatype verdict = Turned_away | Denied_to AgentToken | Allowed_to AgentToken

definition concerns :: "AgentToken \<Rightarrow> string \<Rightarrow> string \<Rightarrow> Record \<Rightarrow> bool" where
  "concerns tok name decision rcd \<longleftrightarrow> rec_AgentTokenID rcd = at_ID tok \<and> rec_SecretName rcd = name \<and> rec_Decision rcd = decision"

inductive broker_step :: "Config \<Rightarrow> string \<Rightarrow> verdict \<Rightarrow> broker \<Rightarrow> broker \<Rightarrow> bool" for cfg name where
  away: "broker_step cfg name Turned_away b b"
| denied: "concerns tok name ''denied'' rcd \<Longrightarrow> broker_step cfg name (Denied_to tok) b (b\<lparr>br_trail := br_trail b @ [rcd]\<rparr>)"
| allowed: "concerns tok name ''allowed'' rcd \<Longrightarrow> length sent \<le> 1 \<Longrightarrow>
    broker_step cfg name (Allowed_to tok) b
      (b\<lparr>br_trail := br_trail b @ [rcd], br_fetched := br_fetched b @ [Resolve cfg name], br_sent := br_sent b @ sent\<rparr>)"

inductive_cases awayE: "broker_step cfg name Turned_away b b'"
inductive_cases deniedE: "broker_step cfg name (Denied_to tok) b b'"
inductive_cases allowedE: "broker_step cfg name (Allowed_to tok) b b'"

definition broker_of :: "exchange \<Rightarrow> broker" where
  "broker_of x = \<lparr>br_trail = map pend_r (account (x_log x)), br_fetched = x_fetched x, br_sent = x_out x\<rparr>"

text \<open>The verdict: the audit log's state, the Agent Token table and the config decide it.\<close>

definition proxy_allowed :: "golib \<Rightarrow> snapshot \<Rightarrow> AgentToken \<Rightarrow> http_request \<Rightarrow> bool" where
  "proxy_allowed G snap tok r \<longleftrightarrow> Header_Get (req_Header (drop_h2c G r)) ''Upgrade'' = []
     \<and> (case forwardedPath (req_EscapedPath r) of None \<Rightarrow> False
        | Some rest \<Rightarrow> AuthorizeProxy (snap_cfg snap) tok (req_SecretName r) (req_Method r) rest = Inr ())
     \<and> map_of (snap_routes snap) (req_SecretName r, req_Upstream r) \<noteq> None"

definition verdict_of :: "surroundings \<Rightarrow> endpoint \<Rightarrow> snapshot \<Rightarrow> http_request \<Rightarrow> exchange \<Rightarrow> verdict" where
  "verdict_of E ep snap r x = (
     if Log_Ready (x_log x) \<noteq> Inr () then Turned_away
     else (case ep of
        RevealEndpoint \<Rightarrow>
          if req_Method r \<noteq> ''GET'' then Turned_away
          else (case fst (authenticate E r x) of None \<Rightarrow> Turned_away
             | Some tok \<Rightarrow> if Authorize (snap_cfg snap) tok (req_SecretName r) DeliveryReveal = Inr () then Allowed_to tok else Denied_to tok)
      | ProxyEndpoint \<Rightarrow> (case fst (authenticateProxy E (snap_slots snap) r x) of None \<Rightarrow> Turned_away
             | Some (tok, _) \<Rightarrow> if proxy_allowed (e_golib E) snap tok r then Allowed_to tok else Denied_to tok)))"

section \<open>What one attempt does\<close>

text \<open>Both handlers' attempts satisfy one contract.\<close>

definition attempt_ok :: "Config \<Rightarrow> string \<Rightarrow> AgentToken \<Rightarrow> bool \<Rightarrow> exchange \<Rightarrow> Record \<Rightarrow> exchange \<Rightarrow> bool" where
  "attempt_ok cfg name tok ok x rcd y \<longleftrightarrow> concerns tok name (if ok then ''allowed'' else ''denied'') rcd \<and> x_log y = x_log x
     \<and> x_fetched y = x_fetched x @ (if ok then [Resolve cfg name] else [])
     \<and> (heap_inv (x_heap x) \<longrightarrow> heap_inv (x_heap y) \<and> alive (x_heap y) = alive (x_heap x))
     \<and> (\<not> ok \<longrightarrow> x_heap y = x_heap x \<and> x_out y = x_out x)"

lemma reveal_write_fields:
  assumes "reveal_write E s rcd x = (rcd', y)"
  shows "x_log y = x_log x \<and> x_fetched y = x_fetched x \<and> x_heap y = x_heap x \<and> x_out y = x_out x
    \<and> concerns tok name d rcd' = concerns tok name d rcd"
  using assms by (auto simp: reveal_write_def concerns_def Let_def split: option.splits)

lemma reveal_attempt_ok:
  assumes "reveal_attempt E cfg tok name x = (rcd, y)"
  shows "attempt_ok cfg name tok (Authorize cfg tok name DeliveryReveal = Inr ()) x rcd y \<and> x_out y = x_out x"
proof (cases "Authorize cfg tok name DeliveryReveal")
  case (Inl reason)
  with assms show ?thesis by (auto simp: reveal_attempt_def attempt_ok_def concerns_def reveal_record_def Let_def)
next
  case (Inr u)
  define r0 where "r0 = (reveal_record tok name)\<lparr>rec_Decision := ''allowed''\<rparr>"
  have c0: "concerns tok name ''allowed'' r0" by (simp add: r0_def concerns_def reveal_record_def)
  obtain so r1 x1 where sr: "Server_resolve E cfg name r0 x = (so, r1, x1)" by (metis prod_cases3)
  from sr show ?thesis
  proof (cases rule: Server_resolve_cases)
    case (failed f w)
    with assms Inr sr c0 show ?thesis by (auto simp: reveal_attempt_def attempt_ok_def concerns_def r0_def[symmetric] Let_def)
  next
    case (fetched v)
    obtain r2 x2 where rw: "reveal_write E (Some (h_next (x_heap x))) r1 x1 = (r2, x2)" by fastforce
    have "y = x2\<lparr>x_heap := Secret_Release (Some (h_next (x_heap x))) (x_heap x2)\<rparr>" "rcd = r2"
      using assms Inr sr fetched(1) rw by (auto simp: reveal_attempt_def r0_def[symmetric] Let_def)
    with reveal_write_fields[OF rw, of tok name "''allowed''"] fetched c0 Inr locked_then_released[of "x_heap x" v] show ?thesis
      by (auto simp: attempt_ok_def Secret_Release_def)
  qed
qed

lemma ErrorHandler_concerns: "ErrorHandler G B e rcd pw = (rcd', pw') \<Longrightarrow> concerns tok name d rcd' = concerns tok name d rcd"
  by (auto simp: ErrorHandler_def concerns_def split: if_splits)

lemma proxy_respond_concerns:
  assumes "proxy_respond G B ns closeOK mthd rcd w = (rcd', w', ab)"
  shows "concerns tok name d rcd' = concerns tok name d rcd"
proof -
  obtain pw' where r: "ReverseProxy_respond G B mthd rcd \<lparr>p_rw = newRedactingWriter w ns, p_err = False\<rparr> = (rcd', pw', ab)"
    using assms by (auto simp: proxy_respond_def split: prod.splits)
  have st: "concerns tok name d (rcd\<lparr>rec_UpstreamStatus := n\<rparr>) = concerns tok name d rcd"
    "concerns tok name d (rcd\<lparr>rec_UpstreamStatus := n, rec_Failure := f\<rparr>) = concerns tok name d rcd" for n f by (simp_all add: concerns_def)
  have h: "concerns tok name d rcd2 = concerns tok name d rcd" if "handle_answer G B mthd res rcd pw = (rcd2, pw2, ab2)" for res pw rcd2 pw2 ab2
  proof -
    define res1 where "res1 = (if ur_Status res = 101 then res else res\<lparr>ur_Header := removeHopByHopHeaders (ur_Header res)\<rparr>)"
    show ?thesis
    proof (cases "decodeBody G (b_gunzip B) mthd res1")
      case (Inl e)
      with that show ?thesis using ErrorHandler_concerns st by (auto simp: handle_answer_def res1_def[symmetric] Let_def split: prod.splits)
    next
      case (Inr res2)
      with that show ?thesis using ErrorHandler_concerns st
        by (auto simp: handle_answer_def res1_def[symmetric] Let_def split: prod.splits if_splits bool.splits)
    qed
  qed
  with r show ?thesis using ErrorHandler_concerns by (auto simp: ReverseProxy_respond_def Let_def split: option.splits prod.splits)
qed

text \<open>What is sent to an Upstream goes to the route of the request, and only from an allowed attempt.\<close>

definition sent_to :: "snapshot \<Rightarrow> http_request \<Rightarrow> exchange \<Rightarrow> exchange \<Rightarrow> bool" where
  "sent_to snap r x y \<longleftrightarrow> x_out y = x_out x \<or> (\<exists>rt o1. map_of (snap_routes snap) (req_SecretName r, req_Upstream r) = Some rt
     \<and> x_out y = x_out x @ [o1] \<and> out_Transport o1 = rt_transport rt \<and> out_Scheme o1 = up_Scheme (rt_upstream rt) \<and> out_Host o1 = up_Host (rt_upstream rt))"

lemma drop_h2c_fields [simp]:
  "req_SecretName (drop_h2c G r) = req_SecretName r" "req_Upstream (drop_h2c G r) = req_Upstream r" "req_Method (drop_h2c G r) = req_Method r"
  "req_EscapedPath (drop_h2c G r) = req_EscapedPath r" "req_RawQuery (drop_h2c G r) = req_RawQuery r" "req_Body (drop_h2c G r) = req_Body r"
  by (simp_all add: drop_h2c_def)

lemma proxy_deliver_ok:
  assumes "proxy_deliver E B closeOK cfg rt from rest r rcd0 x = (rcd, y)" and "concerns tok (req_SecretName r) ''allowed'' rcd0"
  shows "attempt_ok cfg (req_SecretName r) tok True x rcd y"
    "x_out y = x_out x \<or> (\<exists>cred. x_out y = x_out x @ [Rewrite rt from cred rest r])"
proof -
  obtain so r1 x1 where sr: "Server_resolve E cfg (req_SecretName r) rcd0 x = (so, r1, x1)" by (metis prod_cases3)
  from sr have "attempt_ok cfg (req_SecretName r) tok True x rcd y
    \<and> (x_out y = x_out x \<or> (\<exists>cred. x_out y = x_out x @ [Rewrite rt from cred rest r]))"
  proof (cases rule: Server_resolve_cases)
    case (failed f w)
    have "rcd = r1 \<and> y = x1" using assms(1) sr failed(1) by (simp add: proxy_deliver_def)
    with assms(2) failed show ?thesis by (simp add: attempt_ok_def concerns_def)
  next
    case (fetched v)
    let ?s = "Some (h_next (x_heap x))"
    define x2 where "x2 = x1\<lparr>x_heap := Secret_Release ?s (x_heap x1)\<rparr>"
    have x2: "x_log x2 = x_log x" "x_fetched x2 = x_fetched x @ [Resolve cfg (req_SecretName r)]" "x_out x2 = x_out x"
      "heap_inv (x_heap x) \<longrightarrow> heap_inv (x_heap x2) \<and> alive (x_heap x2) = alive (x_heap x)"
      using fetched locked_then_released[of "x_heap x" v] by (auto simp: x2_def Secret_Release_def)
    show ?thesis
    proof (cases "render (rt_template rt) ?s (x_heap x1)")
      case (Inl e)
      then have "rcd = rcd0\<lparr>rec_Failure := ''the Secret cannot go where the Injection Template puts it''\<rparr>
          \<and> y = respond (writeError 502 ''the Secret could not be delivered'') x2"
        using assms(1) sr fetched(1,2) by (simp add: proxy_deliver_def x2_def[symmetric])
      with assms(2) x2 show ?thesis by (simp add: attempt_ok_def concerns_def)
    next
      case (Inr cred)
      obtain r3 w ab where pr: "proxy_respond (e_golib E) B (cred_needles cred) closeOK (req_Method r) rcd0 (x_w x2) = (r3, w, ab)"
        by (metis prod_cases3)
      have "rcd = r3" "y = x2\<lparr>x_w := w, x_out := x_out x2 @ [Rewrite rt from cred rest r]\<rparr>"
        using assms(1) sr fetched(1,2) Inr pr by (simp_all add: proxy_deliver_def x2_def[symmetric])
      with x2 proxy_respond_concerns[OF pr] assms(2) show ?thesis by (simp add: attempt_ok_def) blast
    qed
  qed
  then show "attempt_ok cfg (req_SecretName r) tok True x rcd y"
    "x_out y = x_out x \<or> (\<exists>cred. x_out y = x_out x @ [Rewrite rt from cred rest r])" by auto
qed

lemma refuse_ok:
  "refuse reason st msg (proxy_record tok r rt) x = (rcd, y) \<Longrightarrow> attempt_ok cfg (req_SecretName r) tok False x rcd y \<and> x_out y = x_out x"
  by (auto simp: refuse_def attempt_ok_def concerns_def proxy_record_def)

lemma proxy_attempt_ok:
  assumes "proxy_attempt E B closeOK snap tok from r x = (rcd, y)"
  shows "attempt_ok (snap_cfg snap) (req_SecretName r) tok (proxy_allowed (e_golib E) snap tok r) x rcd y \<and> sent_to snap r x y"
proof (cases "proxy_allowed (e_golib E) snap tok r")
  case False
  have "\<exists>reason st msg. proxy_attempt E B closeOK snap tok from r x
      = refuse reason st msg (proxy_record tok r (map_of (snap_routes snap) (req_SecretName r, req_Upstream r))) x"
  proof (cases "Header_Get (req_Header (drop_h2c (e_golib E) r)) ''Upgrade'' = []")
    case False
    then show ?thesis by (auto simp: proxy_attempt_def Let_def)
  next
    case up: True
    show ?thesis
    proof (cases "forwardedPath (req_EscapedPath r)")
      case None
      with up show ?thesis by (auto simp: proxy_attempt_def Let_def)
    next
      case (Some rest)
      with up False show ?thesis
        by (cases "AuthorizeProxy (snap_cfg snap) tok (req_SecretName r) (req_Method r) rest") (auto simp: proxy_attempt_def proxy_allowed_def Let_def)
    qed
  qed
  then obtain reason st msg where "refuse reason st msg (proxy_record tok r (map_of (snap_routes snap) (req_SecretName r, req_Upstream r))) x = (rcd, y)"
    using assms by auto
  from refuse_ok[OF this] False show ?thesis by (simp add: sent_to_def)
next
  case True
  then obtain rest rt where a: "Header_Get (req_Header (drop_h2c (e_golib E) r)) ''Upgrade'' = []" "forwardedPath (req_EscapedPath r) = Some rest"
    "AuthorizeProxy (snap_cfg snap) tok (req_SecretName r) (req_Method r) rest = Inr ()"
    "map_of (snap_routes snap) (req_SecretName r, req_Upstream r) = Some rt"
    by (auto simp: proxy_allowed_def split: option.splits)
  let ?r = "drop_h2c (e_golib E) r"
  let ?rcd = "(proxy_record tok r (Some rt))\<lparr>rec_Decision := ''allowed''\<rparr>"
  have d: "proxy_deliver E B closeOK (snap_cfg snap) rt from rest ?r ?rcd x = (rcd, y)"
    using assms a by (simp add: proxy_attempt_def Let_def)
  have c: "concerns tok (req_SecretName ?r) ''allowed'' ?rcd" by (simp add: concerns_def proxy_record_def)
  from proxy_deliver_ok[OF d c] True a(4) show ?thesis by (auto simp: sent_to_def Rewrite_fields)
qed

section \<open>The handlers with their wrappers\<close>

lemma verify_respond: "fst (verifyAgentToken E ps (respond f x)) = fst (verifyAgentToken E ps x)"
proof (cases "\<exists>p. ps = [p]")
  case False
  then show ?thesis by (auto simp: verifyAgentToken_def split: list.splits)
next
  case True
  then obtain p res db where p: "ps = [p]"
    "AuthenticateAgentToken (sha256 (e_crypto E)) (e_authOK E) (e_now E) p (l_db (x_log x)) = (res, db)" by fastforce
  show ?thesis
  proof (cases res)
    case (Inl e)
    with p show ?thesis by (cases e) (simp_all add: verifyAgentToken_def Let_def)
  qed (simp add: p verifyAgentToken_def Let_def)
qed

lemma authenticate_respond: "fst (authenticate E r (respond f x)) = fst (authenticate E r x)"
  using verify_respond by (simp add: authenticate_def split: option.splits)

lemma authenticateProxy_respond: "fst (authenticateProxy E sl r (respond f x)) = fst (authenticateProxy E sl r x)"
proof -
  define ps where "ps = header_tokens (e_golib E) sl (req_Header r) @ basic_tokens (e_golib E) sl (req_Header r)
           @ query_tokens sl (req_RawQuery r) @ map (in_header AgentTokenHeader) (Header_Values (req_Header r) AgentTokenHeader)"
  have "fst (authenticateProxy E sl r z) = map_option (\<lambda>tok. (tok, snd (ps ! 0))) (fst (verifyAgentToken E (map fst ps) z))" for z
    by (auto simp: authenticateProxy_def ps_def[symmetric] Let_def split: prod.splits option.splits)
  then show ?thesis by (simp add: verify_respond)
qed

text \<open>Authentication changes only the response and the token table.\<close>

definition table_only :: "exchange \<Rightarrow> exchange \<Rightarrow> bool" where
  "table_only x y \<longleftrightarrow> x_heap y = x_heap x \<and> x_fetched y = x_fetched x \<and> x_out y = x_out x
     \<and> (\<exists>db. x_log y = (x_log x)\<lparr>l_db := (l_db (x_log x))\<lparr>agent_tokens := db\<rparr>\<rparr>)"

lemma Authenticate_table: "AuthenticateAgentToken sha ok t p db = (res, db') \<Longrightarrow> \<exists>ts. db' = db\<lparr>agent_tokens := ts\<rparr>"
proof -
  have same: "\<exists>ts. db = db\<lparr>agent_tokens := ts\<rparr>" by (rule exI[of _ "agent_tokens db"]) simp
  assume "AuthenticateAgentToken sha ok t p db = (res, db')"
  then have "db' = db \<or> (\<exists>ts. db' = db\<lparr>agent_tokens := ts\<rparr>)"
    by (auto simp: AuthenticateAgentToken_def Let_def split: if_splits option.splits)
  with same show ?thesis by auto
qed

lemma verify_table_only:
  assumes "verifyAgentToken E ps x = (t, y)"
  shows "table_only x y"
proof -
  have same: "table_only x (respond f x)" for f x
    unfolding table_only_def by (simp, rule exI[of _ "agent_tokens (l_db (x_log x))"], simp)
  show ?thesis
  proof (cases "\<exists>p. ps = [p]")
    case False
    with assms same show ?thesis by (auto simp: verifyAgentToken_def split: list.splits)
  next
    case True
    then obtain p res db where p: "ps = [p]"
      "AuthenticateAgentToken (sha256 (e_crypto E)) (e_authOK E) (e_now E) p (l_db (x_log x)) = (res, db)" by fastforce
    then obtain ts where "db = (l_db (x_log x))\<lparr>agent_tokens := ts\<rparr>" using Authenticate_table by blast
    with assms p show ?thesis
      by (auto simp: verifyAgentToken_def table_only_def Let_def split: sum.splits access_error.splits if_splits)
  qed
qed

lemma table_only_log:
  assumes "table_only x y"
  shows "broker_of y = broker_of x" "log_inv C key (x_log x) \<Longrightarrow> log_inv C key (x_log y)" "map pend_r (account (x_log y)) = map pend_r (account (x_log x))"
  using assms by (auto simp: table_only_def broker_of_def account_def stored_def log_inv_def chain_inv_def queue_inv_def)

text \<open>Everything a request can end in, on either endpoint.\<close>

lemma Serve_cases:
  assumes "Serve E B closeOK ep snap r x = y"
  obtains (away) "verdict_of E ep snap r x = Turned_away" "table_only x y"
  | (attempt) tok ok z z' rcd where "verdict_of E ep snap r x = (if ok then Allowed_to tok else Denied_to tok)" "table_only x z"
      "attempt_ok (snap_cfg snap) (req_SecretName r) tok ok z rcd z'" "y = Server_record E rcd z'" "sent_to snap r z z'"
      "Log_Ready (x_log x) = Inr ()"
proof -
  define f where "f = (\<lambda>w. set_header ''X-Content-Type-Options'' ''nosniff'' (set_header ''Cache-Control'' ''no-store'' w))"
  have same: "table_only x (respond g (respond f x))" for g
    unfolding table_only_def by (simp, rule exI[of _ "agent_tokens (l_db (x_log x))"], simp)
  have S: "Serve E B closeOK ep snap r x = requireAudit (\<lambda>x. case ep of RevealEndpoint \<Rightarrow> reveal E (snap_cfg snap) r x
      | ProxyEndpoint \<Rightarrow> proxy E B closeOK snap r x) (respond f x)" by (simp add: Serve_def noStore_def f_def)
  have to: "table_only (respond f x) z \<Longrightarrow> table_only x z" for z by (auto simp: table_only_def)
  show thesis
  proof (cases "Log_Ready (x_log x)")
    case (Inl e)
    with assms S same show ?thesis by (intro away) (auto simp: verdict_of_def requireAudit_def)
  next
    case (Inr u)
    then have ready: "Log_Ready (x_log x) = Inr ()" by simp
    show ?thesis
    proof (cases ep)
      case RevealEndpoint
      have y: "y = reveal E (snap_cfg snap) r (respond f x)" using assms S Inr RevealEndpoint by (simp add: requireAudit_def)
      show ?thesis
      proof (cases "req_Method r = ''GET''")
        case False
        with y same ready RevealEndpoint show ?thesis by (intro away) (auto simp: reveal_def verdict_of_def)
      next
        case True
        obtain t z where a: "authenticate E r (respond f x) = (t, z)" by fastforce
        have tz: "table_only x z"
          using a verify_table_only to same by (auto simp: authenticate_def split: option.splits)
        have t: "fst (authenticate E r x) = t" using authenticate_respond[of E r f x] a by simp
        show ?thesis
        proof (cases t)
          case None
          with y a True tz t ready RevealEndpoint show ?thesis by (intro away) (auto simp: reveal_def verdict_of_def)
        next
          case (Some tok)
          obtain rcd z' where at: "reveal_attempt E (snap_cfg snap) tok (req_SecretName r) z = (rcd, z')" by fastforce
          from reveal_attempt_ok[OF at] show ?thesis
            using y a True tz t ready RevealEndpoint Some at
            by (intro attempt[of "Authorize (snap_cfg snap) tok (req_SecretName r) DeliveryReveal = Inr ()" tok z rcd z'])
              (auto simp: reveal_def verdict_of_def sent_to_def)
        qed
      qed
    next
      case ProxyEndpoint
      have y: "y = proxy E B closeOK snap r (respond f x)" using assms S Inr ProxyEndpoint by (simp add: requireAudit_def)
      obtain t z where a: "authenticateProxy E (snap_slots snap) r (respond f x) = (t, z)" by fastforce
      have tz: "table_only x z"
        using a verify_table_only to by (auto simp: authenticateProxy_def Let_def split: prod.splits option.splits)
      have t: "fst (authenticateProxy E (snap_slots snap) r x) = t" using authenticateProxy_respond[of E "snap_slots snap" r f x] a by simp
      show ?thesis
      proof (cases t)
        case None
        with y a tz t ready ProxyEndpoint show ?thesis by (intro away) (auto simp: proxy_def verdict_of_def)
      next
        case (Some tf)
        obtain tok fr where tf: "tf = (tok, fr)" by fastforce
        obtain rcd z' where at: "proxy_attempt E B closeOK snap tok fr r z = (rcd, z')" by fastforce
        from proxy_attempt_ok[OF at] show ?thesis
          using y a tz t ready ProxyEndpoint Some tf at
          by (intro attempt[of "proxy_allowed (e_golib E) snap tok r" tok z rcd z']) (auto simp: proxy_def verdict_of_def)
      qed
    qed
  qed
qed

lemma record_account:
  assumes "log_inv (e_crypto E) key (x_log x)"
  shows "map pend_r (account (x_log (Server_record E rcd x))) = map pend_r (account (x_log x)) @ [rcd]"
    "log_inv (e_crypto E) key (x_log (Server_record E rcd x))"
  using log_step_ok[OF assms, of "e_outcomes E" "e_every E" "AppendOp rcd"] by (simp_all add: Server_record_def)

section \<open>Properties\<close>

text \<open>
  C1: the Agent API refines the abstract broker. Whatever the request, the Upstream, the
  database, the audit stream, the signing key and the Agent's connection do, one request on
  either endpoint is one step of the broker: turned away without a trace, or denied with exactly
  one \<open>denied\<close> record and nothing fetched or sent, or allowed with exactly one \<open>allowed\<close> record for
  that Agent Token and Secret Name, one fetch of that Secret Name and at most one request handed to
  the transport for an Upstream.
\<close>

theorem Serve_refines_broker:
  assumes "log_inv (e_crypto E) key (x_log x)"
  shows "broker_step (snap_cfg snap) (req_SecretName r) (verdict_of E ep snap r x) (broker_of x) (broker_of (Serve E B closeOK ep snap r x))
    \<and> log_inv (e_crypto E) key (x_log (Serve E B closeOK ep snap r x))"
  using refl[of "Serve E B closeOK ep snap r x"]
proof (cases rule: Serve_cases)
  case away
  then show ?thesis using table_only_log[OF away(2)] assms by (simp add: broker_step.away)
next
  case (attempt tok ok z z' rcd)
  have z: "broker_of z = broker_of x" "log_inv (e_crypto E) key (x_log z)" using table_only_log[OF attempt(2)] assms by auto
  have z': "x_log z' = x_log z" using attempt(3) by (simp add: attempt_ok_def)
  note R = record_account[of E key z', unfolded z', OF z(2)]
  have "x_out z = x_out x" using attempt(2) by (simp add: table_only_def)
  with attempt(5) obtain sent where sent: "x_out z' = x_out x @ sent" "length sent \<le> 1" by (auto simp: sent_to_def)
  have "\<not> ok \<Longrightarrow> x_out z' = x_out x" using attempt(3) \<open>x_out z = x_out x\<close> by (simp add: attempt_ok_def)
  then have none: "\<not> ok \<Longrightarrow> sent = []" using sent(1) by simp
  have B: "broker_of (Serve E B closeOK ep snap r x) = (broker_of x)\<lparr>br_trail := br_trail (broker_of x) @ [rcd],
      br_fetched := br_fetched (broker_of x) @ (if ok then [Resolve (snap_cfg snap) (req_SecretName r)] else []), br_sent := br_sent (broker_of x) @ sent\<rparr>"
    using R(1) attempt(3,4) z(1) sent(1) by (simp add: broker_of_def attempt_ok_def Server_record_def)
  have "concerns tok (req_SecretName r) (if ok then ''allowed'' else ''denied'') rcd" using attempt(3) by (simp add: attempt_ok_def)
  then have "broker_step (snap_cfg snap) (req_SecretName r) (verdict_of E ep snap r x) (broker_of x) (broker_of (Serve E B closeOK ep snap r x))"
    unfolding B using attempt(1) none broker_step.denied[of tok "req_SecretName r" rcd "snap_cfg snap" "broker_of x"]
      broker_step.allowed[of tok "req_SecretName r" rcd sent "snap_cfg snap" "broker_of x", OF _ sent(2)]
    by (cases ok) (simp_all add: broker_of_def)
  with R(2) attempt(4) show ?thesis by simp
qed

text \<open>
  C2: a Secret leaves its Backend only with authority, and not unrecorded. If a request fetches a
  Secret or sends anything to an Upstream, then the audit log was ready, the Agent Token
  authenticated, and the token's Policies in the request's one config snapshot allow that Delivery;
  what is sent goes to the host of the named Upstream of the named Secret Name; and when the request
  ends the audit log has taken exactly one more record, stored or waiting, an \<open>allowed\<close> one of that
  Agent Token and Secret Name.
\<close>

theorem delivery_needs_authority:
  assumes "Serve E B closeOK ep snap r x = y" and "x_fetched y \<noteq> x_fetched x \<or> x_out y \<noteq> x_out x" and "log_inv (e_crypto E) key (x_log x)"
  shows "Log_Ready (x_log x) = Inr () \<and> sent_to snap r x y
    \<and> (\<exists>tok rcd. map pend_r (account (x_log y)) = map pend_r (account (x_log x)) @ [rcd] \<and> concerns tok (req_SecretName r) ''allowed'' rcd
      \<and> (case ep of
        RevealEndpoint \<Rightarrow> fst (authenticate E r x) = Some tok \<and> Authorize (snap_cfg snap) tok (req_SecretName r) DeliveryReveal = Inr ()
      | ProxyEndpoint \<Rightarrow> (\<exists>slot. fst (authenticateProxy E (snap_slots snap) r x) = Some (tok, slot)) \<and> proxy_allowed (e_golib E) snap tok r))"
  using assms(1)
proof (cases rule: Serve_cases)
  case away
  with assms(2) show ?thesis by (simp add: table_only_def)
next
  case (attempt tok ok z z' rcd)
  have z: "x_fetched z = x_fetched x" "x_out z = x_out x" using attempt(2) by (auto simp: table_only_def)
  have ok: "ok" using assms(2) attempt(3,4) z by (auto simp: attempt_ok_def Server_record_def)
  have s: "sent_to snap r x y" using attempt(4,5) z by (simp add: sent_to_def Server_record_def)
  have z': "x_log z' = x_log z" "concerns tok (req_SecretName r) ''allowed'' rcd" using attempt(3) ok by (simp_all add: attempt_ok_def)
  have "log_inv (e_crypto E) key (x_log z')" using table_only_log(2)[OF attempt(2) assms(3)] z'(1) by simp
  then have a: "map pend_r (account (x_log y)) = map pend_r (account (x_log x)) @ [rcd]"
    using record_account(1)[of E key z' rcd] attempt(4) table_only_log(3)[OF attempt(2)] z'(1) by simp
  from attempt(1) ok have "verdict_of E ep snap r x = Allowed_to tok" by simp
  with attempt(6) s a z'(2) show ?thesis
    by (cases ep) (auto simp: verdict_of_def split: if_splits option.splits)
qed

text \<open>
  C13: every Secret a request holds in locked memory is released when it ends, on every path:
  exactly the Secrets alive before are alive after.
\<close>

theorem secret_memory_released:
  assumes "heap_inv (x_heap x)"
  shows "alive (x_heap (Serve E B closeOK ep snap r x)) = alive (x_heap x) \<and> heap_inv (x_heap (Serve E B closeOK ep snap r x))"
  using refl[of "Serve E B closeOK ep snap r x"]
proof (cases rule: Serve_cases)
  case away
  with assms show ?thesis by (simp add: table_only_def)
next
  case (attempt tok ok z z' rcd)
  then have "x_heap z = x_heap x" by (simp add: table_only_def)
  with attempt(3,4) assms show ?thesis by (simp add: attempt_ok_def Server_record_def)
qed

text \<open>The one refusal a request that is not allowed gets, whatever the Secret Name.\<close>

definition refusal :: "golib \<Rightarrow> http_request \<Rightarrow> ResponseWriter \<Rightarrow> ResponseWriter" where
  "refusal G r w = (
     if Header_Get (req_Header (drop_h2c G r)) ''Upgrade'' \<noteq> [] then writeError 400 ''Proxy Delivery does not support protocol upgrades'' w
     else if forwardedPath (req_EscapedPath r) = None then writeError 400 ''the path must not contain dot segments'' w
     else writeError 403 deniedMessage w)"

lemma proxy_refusal:
  assumes "\<not> proxy_allowed (e_golib E) snap tok r"
  shows "x_w (snd (proxy_attempt E B closeOK snap tok fr r x)) = refusal (e_golib E) r (x_w x)"
proof (cases "Header_Get (req_Header (drop_h2c (e_golib E) r)) ''Upgrade'' = []")
  case False
  then show ?thesis by (simp add: proxy_attempt_def refusal_def refuse_def Let_def)
next
  case True
  show ?thesis
  proof (cases "forwardedPath (req_EscapedPath r)")
    case None
    with True show ?thesis by (simp add: proxy_attempt_def refusal_def refuse_def Let_def)
  next
    case (Some rest)
    with True assms show ?thesis
      by (cases "AuthorizeProxy (snap_cfg snap) tok (req_SecretName r) (req_Method r) rest")
        (auto simp: proxy_attempt_def refusal_def refuse_def proxy_allowed_def Let_def)
  qed
qed

lemma reveal_refusal:
  "Authorize cfg tok name DeliveryReveal \<noteq> Inr () \<Longrightarrow> x_w (snd (reveal_attempt E cfg tok name x)) = writeError 403 deniedMessage (x_w x)"
  by (cases "Authorize cfg tok name DeliveryReveal") (auto simp: reveal_attempt_def Let_def)

lemma record_w [simp]: "x_w (Server_record E rcd x) = x_w x"
  by (simp add: Server_record_def)

text \<open>
  C14: an Agent cannot find out which Secret Names exist. Two requests that differ only in the
  Secret Name and the Upstream they name, neither of them allowed, get the same response,
  whether the names are unknown, not in any Policy, or without that Upstream.
\<close>

theorem denials_look_alike:
  assumes "r' = r\<lparr>req_SecretName := name, req_Upstream := up, req_EscapedPath := p\<rparr>" and "forwardedPath p = forwardedPath (req_EscapedPath r)"
    and "\<forall>tok. verdict_of E ep snap r x \<noteq> Allowed_to tok" and "\<forall>tok. verdict_of E ep snap r' x \<noteq> Allowed_to tok"
  shows "x_w (Serve E B closeOK ep snap r x) = x_w (Serve E B closeOK ep snap r' x)"
proof -
  define f where "f = (\<lambda>w. set_header ''X-Content-Type-Options'' ''nosniff'' (set_header ''Cache-Control'' ''no-store'' w))"
  have S: "Serve E B closeOK ep snap q x = requireAudit (\<lambda>x. case ep of RevealEndpoint \<Rightarrow> reveal E (snap_cfg snap) q x
      | ProxyEndpoint \<Rightarrow> proxy E B closeOK snap q x) (respond f x)" for q by (simp add: Serve_def noStore_def f_def)
  have same: "req_Method r' = req_Method r" "req_Header r' = req_Header r" "req_RawQuery r' = req_RawQuery r" using assms(1) by simp_all
  have au: "authenticate E r' z = authenticate E r z" "authenticateProxy E sl r' z = authenticateProxy E sl r z" for z sl
    unfolding authenticate_def authenticateProxy_def same by (rule refl)+
  have "req_Header (drop_h2c G r') = req_Header (drop_h2c G r)" for G by (simp add: drop_h2c_def same)
  then have ref: "refusal G r' w = refusal G r w" for G w using assms(1,2) by (simp add: refusal_def)
  show ?thesis
  proof (cases "Log_Ready (x_log x)")
    case (Inl e)
    then show ?thesis by (simp add: S requireAudit_def)
  next
    case (Inr u)
    show ?thesis
    proof (cases ep)
      case RevealEndpoint
      obtain t z where a: "authenticate E r (respond f x) = (t, z)" by fastforce
      have t: "fst (authenticate E r x) = t" using authenticate_respond[of E r f x] a by simp
      have no: "Authorize (snap_cfg snap) tok (req_SecretName q) DeliveryReveal \<noteq> Inr ()"
        if "req_Method r = ''GET''" "t = Some tok" "q \<in> {r, r'}" for tok q
        using assms(3,4) that t Inr RevealEndpoint au same by (auto simp: verdict_of_def split: if_splits)
      have w: "x_w (reveal E (snap_cfg snap) q (respond f x)) = (if req_Method r \<noteq> ''GET'' then writeError 405 ''method not allowed'' (set_header ''Allow'' ''GET'' (f (x_w x)))
          else if t = None then x_w z else writeError 403 deniedMessage (x_w z))" if "q \<in> {r, r'}" for q
        using that a au no[of _ q] reveal_refusal[of "snap_cfg snap" _ "req_SecretName q" E z] same
        by (cases t) (auto simp: reveal_def case_prod_beta)
      with S Inr RevealEndpoint show ?thesis by (simp add: requireAudit_def)
    next
      case ProxyEndpoint
      obtain t z where a: "authenticateProxy E (snap_slots snap) r (respond f x) = (t, z)" by fastforce
      have t: "fst (authenticateProxy E (snap_slots snap) r x) = t" using authenticateProxy_respond[of E "snap_slots snap" r f x] a by simp
      have no: "\<not> proxy_allowed (e_golib E) snap tok q" if "t = Some (tok, fr)" "q \<in> {r, r'}" for tok fr q
        using assms(3,4) that t Inr ProxyEndpoint au by (auto simp: verdict_of_def split: if_splits)
      have w: "x_w (proxy E B closeOK snap q (respond f x)) = (if t = None then x_w z else refusal (e_golib E) r (x_w z))" if "q \<in> {r, r'}" for q
        using that a au no[of _ _ q] proxy_refusal[of E snap _ q B closeOK _ z] ref
        by (cases t) (auto simp: proxy_def case_prod_beta)
      with S Inr ProxyEndpoint show ?thesis by (simp add: requireAudit_def)
    qed
  qed
qed

section \<open>An example exchange\<close>

definition example_request :: http_request where
  "example_request = \<lparr>req_Method = ''GET'', req_EscapedPath = ''/proxy/gh/api/repos/x'', req_RawQuery = [],
     req_Header = [(''X-Tc-Agent-Token'', [''tcat_a''])], req_Body = [], req_SecretName = ''gh'', req_Upstream = ''api''\<rparr>"

definition example_snapshot :: snapshot where
  "example_snapshot = \<lparr>snap_pos = 0, snap_cfg = example_routed, snap_routes = [((''gh'', ''api''),
     \<lparr>rt_template = HeaderT \<lparr>ht_Name = ''Authorization'', ht_Prefix = ''Bearer '', ht_Suffix = []\<rparr>,
      rt_upstream = \<lparr>up_Name = ''api'', up_Scheme = ''https'', up_Host = ''api.example.com'', up_BasePath = [], up_RootCAs = None\<rparr>, rt_transport = 0\<rparr>)],
     snap_slots = newSlots example_routed\<rparr>"

definition example_surroundings :: surroundings where
  "example_surroundings = \<lparr>e_golib = example_golib, e_crypto = example_crypto, e_outcomes = example_outcomes, e_every = 1, e_authOK = (\<lambda>_. True),
     e_now = 0, e_gone = False, e_fetch = (\<lambda>_. Inr ''sk-1''), e_memOK = True, e_cutAt = None\<rparr>"

definition example_exchange :: exchange where
  "example_exchange = \<lparr>x_w = new_writer, x_log = example_log\<lparr>l_db := (l_db example_log)\<lparr>agent_tokens := [\<lparr>tok_id = ''i'', tok_hash = ''digest'',
     tok_policies = json_strings [''ci''], tok_created_at = 1, tok_expires_at = 5, tok_last_used_at = None, tok_revoked_at = None\<rparr>]\<rparr>\<rparr>,
     x_heap = empty_heap, x_fetched = [], x_out = []\<rparr>"

lemma example_exchange_inv: "log_inv (e_crypto example_surroundings) ''k'' (x_log example_exchange)" "Log_Ready (x_log example_exchange) = Inr ()"
proof -
  show inv: "log_inv (e_crypto example_surroundings) ''k'' (x_log example_exchange)"
    using example_log_inv by (simp add: example_surroundings_def example_exchange_def log_inv_def chain_inv_def queue_inv_def)
  then have "\<not> l_backlogged (x_log example_exchange)"
    by (simp add: log_inv_def queue_inv_def) (simp add: example_exchange_def example_log_fields)
  then show "Log_Ready (x_log example_exchange) = Inr ()" by (simp add: Log_Ready_def example_exchange_def example_log_fields)
qed

lemma example_headers:
  "Header_Values (req_Header example_request) ''Authorization'' = []" "Header_Values (req_Header example_request) AgentTokenHeader = [''tcat_a'']"
  "Header_Values (req_Header example_request) ''Upgrade'' = []"
  by (simp_all add: example_request_def Header_Values_def canonicalKey_def CanonicalHeaderKey_def AgentTokenHeader_def
      toUpperASCII_def toLowerASCII_def tchar_def isAlnum_def char_of_numeral_eq)

lemma example_verdict: "\<exists>tok. verdict_of example_surroundings ProxyEndpoint example_snapshot example_request example_exchange = Allowed_to tok"
proof -
  let ?tok = "\<lparr>at_ID = ''i'', at_Policies = [''ci''], at_CreatedAt = 1, at_ExpiresAt = 5, at_LastUsedAt = Some 0, at_RevokedAt = None\<rparr>"
  have slots: "newSlots example_routed = \<lparr>sl_headers = [(''Authorization'', [\<lparr>ht_Name = ''Authorization'', ht_Prefix = ''Bearer '', ht_Suffix = []\<rparr>])],
      sl_queries = [], sl_basicAuth = []\<rparr>"
    by (simp add: newSlots_def example_routed_def add_slot_def)
  have scan: "json_read_strings (json_strings [''ci'']) = Some [''ci'']"
    by (rule json_read_strings_strings) (simp add: validString_ascii)
  have "fst (AuthenticateAgentToken (sha256 (e_crypto example_surroundings)) (e_authOK example_surroundings) (e_now example_surroundings)
      ''tcat_a'' (l_db (x_log example_exchange))) = Inr ?tok"
    unfolding Authenticate_Inr_iff
    by (simp add: example_exchange_def example_surroundings_def hasPrefix_def AgentTokenPrefix_def UnixMilli_def scanAgentToken_def scan example_crypto_def)
  then have "fst (verifyAgentToken example_surroundings [''tcat_a''] example_exchange) = Some ?tok"
    by (auto simp: verifyAgentToken_def Let_def split: prod.splits)
  then have auth: "\<exists>sl. fst (authenticateProxy example_surroundings (snap_slots example_snapshot) example_request example_exchange) = Some (?tok, sl)"
    by (auto simp: authenticateProxy_def example_snapshot_def slots header_tokens_def basic_tokens_def query_tokens_def example_headers in_header_def
        map_filter_simps Let_def split: prod.splits option.splits)
  have "EqualFold example_golib [] ''h2c'' = False" by (simp add: EqualFold_def runes_ascii example_golib_def)
  then have d: "drop_h2c example_golib example_request = example_request"
    by (simp add: drop_h2c_def Header_Get_def example_headers)
  have fp: "forwardedPath (req_EscapedPath example_request) = Some ''/repos/x''"
    by (simp add: example_request_def forwardedPath_def cut_def eval_nat_numeral hasPrefix_def forwardable_def fieldsFunc_def isSlash_def isDots_def)
  have dp: "decodePath ''/repos/x'' = Some [''repos'', ''x'']"
    by (simp add: decodePath_def trimPrefix_def hasPrefix_def decode_segment_def fieldsFunc_def isSlash_def isDots_def cut_def validString_ascii)
  have "AuthorizeProxy example_routed ?tok ''gh'' ''GET'' ''/repos/x'' = Inr ()"
    by (simp add: AuthorizeProxy_def example_routed_def entries_def example_cfg_def PathPrefix_Matches_def dp)
  then have "proxy_allowed (e_golib example_surroundings) example_snapshot ?tok example_request"
    using d fp by (simp add: proxy_allowed_def example_surroundings_def example_snapshot_def Header_Get_def example_headers)
      (simp add: example_request_def)
  with auth example_exchange_inv(2) show ?thesis by (auto simp: verdict_of_def)
qed

definition example_served :: exchange where
  "example_served = Serve example_surroundings example_behaviour True ProxyEndpoint example_snapshot example_request example_exchange"

lemma example_fetches: "x_fetched example_served \<noteq> x_fetched example_exchange"
  using example_served_def[symmetric]
proof (cases rule: Serve_cases)
  case away
  with example_verdict show ?thesis by simp
next
  case (attempt tok ok z z' rcd)
  then have "ok" using example_verdict by (auto split: if_splits)
  moreover have "x_fetched example_served = x_fetched z'" unfolding attempt(4) by (simp add: Server_record_def)
  moreover have "x_fetched z = x_fetched example_exchange" using attempt(2) by (simp add: table_only_def)
  ultimately show ?thesis using attempt(3) by (simp add: attempt_ok_def)
qed

theorem Serve_refines_broker_witness:
  "\<exists>rcd. br_trail (broker_of example_served) = br_trail (broker_of example_exchange) @ [rcd] \<and> rec_Decision rcd = ''allowed''
     \<and> br_fetched (broker_of example_served) = br_fetched (broker_of example_exchange) @ [Resolve example_routed ''gh'']
     \<and> length (br_sent (broker_of example_served)) \<le> 1"
proof -
  obtain tok where v: "verdict_of example_surroundings ProxyEndpoint example_snapshot example_request example_exchange = Allowed_to tok"
    using example_verdict by blast
  have "broker_step (snap_cfg example_snapshot) (req_SecretName example_request) (Allowed_to tok) (broker_of example_exchange) (broker_of example_served)"
    using Serve_refines_broker[OF example_exchange_inv(1), of example_snapshot example_request ProxyEndpoint example_behaviour True] v
    by (simp add: example_served_def)
  moreover have "snap_cfg example_snapshot = example_routed" "req_SecretName example_request = ''gh''"
    by (simp_all add: example_snapshot_def example_request_def)
  moreover have "br_sent (broker_of example_exchange) = []" by (simp add: broker_of_def example_exchange_def)
  ultimately show ?thesis by (auto simp: concerns_def elim!: allowedE)
qed

theorem delivery_needs_authority_witness:
  "\<exists>tok slot rcd. fst (authenticateProxy example_surroundings (snap_slots example_snapshot) example_request example_exchange) = Some (tok, slot)
     \<and> proxy_allowed example_golib example_snapshot tok example_request \<and> rec_AgentTokenID rcd = at_ID tok
     \<and> map pend_r (account (x_log example_served)) = map pend_r (account (x_log example_exchange)) @ [rcd]"
  using delivery_needs_authority[OF example_served_def[symmetric] _ example_exchange_inv(1)] example_fetches
  by (auto simp: example_surroundings_def concerns_def)

theorem secret_memory_released_witness: "alive (x_heap example_served) = {}"
proof -
  have "heap_inv (x_heap example_exchange)" "alive (x_heap example_exchange) = {}"
    by (simp_all add: example_exchange_def empty_heap_def heap_inv_def alive_def contents_def deref_def)
  with secret_memory_released[OF this(1), of example_surroundings example_behaviour True ProxyEndpoint example_snapshot example_request]
  show ?thesis by (simp add: example_served_def)
qed

theorem denials_look_alike_witness:
  "x_w (Serve example_surroundings example_behaviour True ProxyEndpoint example_snapshot (example_request\<lparr>req_SecretName := ''a''\<rparr>) example_exchange)
   = x_w (Serve example_surroundings example_behaviour True ProxyEndpoint example_snapshot
       (example_request\<lparr>req_SecretName := ''b'', req_Upstream := ''u'', req_EscapedPath := ''/proxy/b/u/repos/x''\<rparr>) example_exchange)"
proof -
  have no: "\<forall>tok. verdict_of example_surroundings ProxyEndpoint example_snapshot r example_exchange \<noteq> Allowed_to tok"
    if "req_SecretName r \<noteq> ''gh''" for r
    using that by (auto simp: verdict_of_def proxy_allowed_def example_snapshot_def split: option.splits if_splits)
  have "forwardedPath ''/proxy/b/u/repos/x'' = Some ''/repos/x''" "forwardedPath (req_EscapedPath example_request) = Some ''/repos/x''"
    by (simp_all add: example_request_def forwardedPath_def cut_def eval_nat_numeral hasPrefix_def forwardable_def fieldsFunc_def isSlash_def isDots_def)
  then show ?thesis by (intro denials_look_alike[OF _ _ no no]) simp_all
qed

section \<open>The credential at the Upstream\<close>

text \<open>The headers \<open>Rewrite\<close> sets or drops whatever the template says.\<close>

definition overridden :: "string list" where
  "overridden = [''Accept-Encoding'', ''Range'', ''If-Range'']"

lemma rewrite_header_values:
  "Header_Values (rewrite_header fr cred h) n = (
     if canonicalKey n \<in> {canonicalKey ''Range'', canonicalKey ''If-Range''} then []
     else if canonicalKey n = canonicalKey ''Accept-Encoding'' then [''gzip'']
     else if cred_header cred \<noteq> [] \<and> canonicalKey n = canonicalKey (cred_header cred) then [cred_headerValue cred]
     else if slot_header fr \<noteq> [] \<and> canonicalKey n = canonicalKey (slot_header fr) \<or> canonicalKey n = canonicalKey AgentTokenHeader then []
     else Header_Values h n)"
  by (cases "cred_header cred = []"; cases "slot_header fr = []") (simp_all add: rewrite_header_def)

lemma Rewrite_header_values:
  "Header_Values (out_Header (Rewrite rt fr cred rest r)) n = (
     let vs = Header_Values (rewrite_header fr cred (proxy_headers (req_Header r))) n
     in if canonicalKey n = canonicalKey ''User-Agent'' \<and> vs = [] then [[]] else vs)"
proof -
  have "Header_Values h n = Header_Values h ''User-Agent''" if "canonicalKey n = canonicalKey ''User-Agent''" for h
    using that by (simp add: Header_Values_def)
  then show ?thesis by (auto simp: Rewrite_def Let_def)
qed

lemma overridden_canonical:
  "canonicalKey ''Range'' = ''Range''" "canonicalKey ''If-Range'' = ''If-Range''" "canonicalKey ''Accept-Encoding'' = ''Accept-Encoding''"
  "canonicalKey ''User-Agent'' = ''User-Agent''" "canonicalKey ''Authorization'' = ''Authorization''" "canonicalKey AgentTokenHeader = ''X-Tc-Agent-Token''"
  by (simp_all add: canonicalKey_def CanonicalHeaderKey_def AgentTokenHeader_def toUpperASCII_def toLowerASCII_def tchar_def isAlnum_def char_of_numeral_eq)

lemma rewrite_query_values:
  assumes "cred_query cred = [] \<or> queryNamePattern (cred_query cred) \<and> cred_queryValue cred = queryEscape v"
  shows "query_values (rewrite_query fr cred q) m = (
     if cred_query cred \<noteq> [] \<and> m = cred_query cred then [v]
     else if slot_query fr \<noteq> [] \<and> m = slot_query fr then [] else query_values q m)"
proof -
  define q1 where "q1 = (if slot_query fr = [] then q else withoutParam q (slot_query fr))"
  have q1: "query_values q1 m = (if slot_query fr \<noteq> [] \<and> m = slot_query fr then [] else query_values q m)" for m
    by (simp add: q1_def query_values_withoutParam)
  show ?thesis
  proof (cases "cred_query cred = []")
    case True
    with q1 show ?thesis by (simp add: rewrite_query_def q1_def)
  next
    case False
    with assms have p: "query_values (cred_query cred @ ''='' @ cred_queryValue cred) m = (if m = cred_query cred then [v] else [])" for m
      using credential_pair by auto
    define q2 where "q2 = withoutParam q1 (cred_query cred)"
    have "rewrite_query fr cred q = (if q2 = [] then [] else q2 @ ''&'') @ cred_query cred @ ''='' @ cred_queryValue cred"
      using False by (simp add: rewrite_query_def q1_def[symmetric] q2_def[symmetric] Let_def)
    then have "query_values (rewrite_query fr cred q) m = query_values q2 m @ (if m = cred_query cred then [v] else [])"
      using p by (cases "q2 = []") (simp_all add: query_values_append_pair)
    then show ?thesis using q1 False by (simp add: q2_def query_values_withoutParam)
  qed
qed

lemma Rewrite_credential:
  assumes "template_ok t" and "contents h s = Some v" and "render t s h = Inr cred"
    and "cred_header cred \<notin> set overridden" and "out = Rewrite rt fr cred rest r"
  shows "(case t of QueryT q \<Rightarrow> query_values (out_RawQuery out) (qt_Name q) = [v]
      | _ \<Rightarrow> Header_Values (out_Header out) (cred_header cred) = [cred_headerValue cred])
    \<and> Header_Values (out_Header out) AgentTokenHeader = []
    \<and> (slot_header fr \<noteq> [] \<and> canonicalKey (slot_header fr) \<noteq> cred_header cred \<longrightarrow>
        Header_Values (out_Header out) (slot_header fr) \<in> {[], [[]], [''gzip'']})
    \<and> (slot_query fr \<noteq> [] \<and> slot_query fr \<noteq> cred_query cred \<longrightarrow> query_values (out_RawQuery out) (slot_query fr) = [])"
proof -
  note ok = assms(1)
  have c: "cred_header cred = [] \<or> canonicalKey (cred_header cred) = cred_header cred \<and> cred_header cred \<noteq> ''X-Tc-Agent-Token''"
    "cred_query cred = [] \<or> queryNamePattern (cred_query cred) \<and> cred_queryValue cred = queryEscape v"
    "cred_header cred = [] \<longleftrightarrow> (\<exists>q. t = QueryT q)" "t = QueryT q \<Longrightarrow> cred_query cred = qt_Name q" for q
    using ok assms(2,3) by (cases t; auto simp: template_ok_def render_def renderBasicAuth_def builder_WriteTo_def headerValueWriter_Write_def
        reservedHeaders_def headerNamePattern_def overridden_canonical Let_def split: if_splits)+
  have over: "cred_header cred \<noteq> ''Range'' \<and> cred_header cred \<noteq> ''If-Range'' \<and> cred_header cred \<noteq> ''Accept-Encoding''"
    using assms(4) by (simp add: overridden_def)
  have cr: "Header_Values (out_Header out) (cred_header cred) = [cred_headerValue cred]" if "cred_header cred \<noteq> []"
    using that c(1) over assms(5) by (simp add: Rewrite_header_values rewrite_header_values overridden_canonical)
  have at: "Header_Values (out_Header out) AgentTokenHeader = []"
    using c(1) assms(5) by (auto simp: Rewrite_header_values rewrite_header_values overridden_canonical)
  have sl: "Header_Values (out_Header out) (slot_header fr) \<in> {[], [[]], [''gzip'']}" if "slot_header fr \<noteq> []" "canonicalKey (slot_header fr) \<noteq> cred_header cred"
    using that c(1) assms(5) by (auto simp: Rewrite_header_values rewrite_header_values Let_def)
  have rq: "out_RawQuery out = rewrite_query fr cred (cleanQueryParams (req_RawQuery r))" using assms(5) by (simp add: Rewrite_def Let_def)
  have qv: "query_values (out_RawQuery out) (qt_Name q) = [v]" if "t = QueryT q" for q
    using rewrite_query_values[OF c(2)] c(4)[OF that] that c(2) ok queryName_plain(5)[of "qt_Name q"] by (simp add: rq template_ok_def)
  have qs: "query_values (out_RawQuery out) (slot_query fr) = []" if "slot_query fr \<noteq> []" "slot_query fr \<noteq> cred_query cred"
    using rewrite_query_values[OF c(2)] that by (simp add: rq)
  from c(3) cr at sl qv qs show ?thesis by (cases t) simp_all
qed

text \<open>
  Which Secrets go where a template puts them: no control bytes in a header, no colon in a user
  name. \<open>deliverable\<close> is the Secret an allowed request can deliver, if there is one: its name is
  known, the Backend gave a value, locked memory could be had, and the value fits the template.
\<close>

definition fits :: "InjectionTemplate \<Rightarrow> bytes \<Rightarrow> bool" where
  "fits t v \<longleftrightarrow> (case t of
      HeaderT ht \<Rightarrow> (\<forall>c\<in>set v. 0x20 \<le> byte c \<and> byte c \<noteq> 0x7F)
    | QueryT q \<Rightarrow> True
    | BasicAuthT b \<Rightarrow> ba_SecretIsUsername b \<longrightarrow> CHR '':'' \<notin> set v)"

definition deliverable :: "surroundings \<Rightarrow> Config \<Rightarrow> string \<Rightarrow> InjectionTemplate \<Rightarrow> bytes option" where
  "deliverable E cfg name t = (
     if Resolve cfg name = UnknownSecretName \<or> \<not> e_memOK E then None
     else (case e_fetch E (Resolve cfg name) of Inl e \<Rightarrow> None | Inr v \<Rightarrow> if fits t v then Some v else None))"

text \<open>Where a template puts a Secret, and how the request shows it.\<close>

fun template_header :: "InjectionTemplate \<Rightarrow> string" where
  "template_header (HeaderT ht) = ht_Name ht"
| "template_header (QueryT q) = []"
| "template_header (BasicAuthT b) = ''Authorization''"

fun template_query :: "InjectionTemplate \<Rightarrow> string" where
  "template_query (QueryT q) = qt_Name q"
| "template_query _ = []"

fun carries :: "InjectionTemplate \<Rightarrow> bytes \<Rightarrow> out_request \<Rightarrow> bool" where
  "carries (HeaderT ht) v out = (Header_Values (out_Header out) (ht_Name ht) = [ht_Prefix ht @ v @ ht_Suffix ht])"
| "carries (QueryT q) v out = (query_values (out_RawQuery out) (qt_Name q) = [v])"
| "carries (BasicAuthT b) v out = (Header_Values (out_Header out) ''Authorization''
     = [''Basic '' @ base64_encode (if ba_SecretIsUsername b then v @ '':'' @ ba_Password b else ba_Username b @ '':'' @ v)])"

lemma render_fits:
  assumes "template_ok t" "contents h s = Some v"
  shows "if fits t v then \<exists>cred. render t s h = Inr cred \<and> cred_header cred = template_header t \<and> cred_query cred = template_query t
      \<and> (case t of HeaderT ht \<Rightarrow> cred_headerValue cred = ht_Prefix ht @ v @ ht_Suffix ht
         | BasicAuthT b \<Rightarrow> cred_headerValue cred = ''Basic '' @ base64_encode (if ba_SecretIsUsername b then v @ '':'' @ ba_Password b else ba_Username b @ '':'' @ v)
         | QueryT q \<Rightarrow> True)
    else \<exists>e. render t s h = Inl e"
proof (cases t)
  case (HeaderT ht)
  then have "list_ex (\<lambda>c. byte c < 0x20 \<or> byte c = 0x7F) v \<longleftrightarrow> \<not> fits t v"
    by (auto simp: fits_def list_ex_iff not_le)
  then show ?thesis using assms(2) HeaderT by (simp add: render_def builder_WriteTo_def headerValueWriter_Write_def Let_def)
next
  case (QueryT q)
  then show ?thesis using assms by (simp add: fits_def render_def builder_WriteTo_def)
next
  case (BasicAuthT b)
  then show ?thesis using assms
    by (auto simp: fits_def template_ok_def render_def renderBasicAuth_def builder_WriteTo_def contains_single Let_def)
qed

lemma proxy_deliver_out:
  assumes "proxy_deliver E B closeOK cfg rt fr rest r rcd0 x = (rcd, y)" and "template_ok (rt_template rt)"
  shows "case deliverable E cfg (req_SecretName r) (rt_template rt) of None \<Rightarrow> x_out y = x_out x
    | Some v \<Rightarrow> \<exists>h s cred. contents h s = Some v \<and> render (rt_template rt) s h = Inr cred \<and> x_out y = x_out x @ [Rewrite rt fr cred rest r]"
proof (cases "Resolve cfg (req_SecretName r) \<noteq> UnknownSecretName \<and> e_memOK E \<and> (\<exists>v. e_fetch E (Resolve cfg (req_SecretName r)) = Inr v)")
  case False
  then have d: "deliverable E cfg (req_SecretName r) (rt_template rt) = None" by (auto simp: deliverable_def split: sum.splits)
  obtain so r1 x1 where sr: "Server_resolve E cfg (req_SecretName r) rcd0 x = (so, r1, x1)" by (metis prod_cases3)
  from sr have "x_out y = x_out x"
  proof (cases rule: Server_resolve_cases)
    case (failed f w)
    have "y = x1" using sr assms(1) failed(1) by (simp add: proxy_deliver_def)
    then show ?thesis by (simp add: failed(4))
  next
    case (fetched v)
    then have "\<not> e_memOK E" using False by blast
    then have "fst (Server_resolve E cfg (req_SecretName r) rcd0 x) = None"
      using fetched(3,4) by (simp add: Server_resolve_def resolver_Resolve_def newLocked_def Let_def)
    with sr fetched(1) show ?thesis by simp
  qed
  with d show ?thesis by simp
next
  case True
  then obtain v where v: "e_fetch E (Resolve cfg (req_SecretName r)) = Inr v" by blast
  define h where "h = snd (newLocked True v (x_heap x))"
  let ?s = "Some (h_next (x_heap x))"
  define x1 where "x1 = x\<lparr>x_fetched := x_fetched x @ [Resolve cfg (req_SecretName r)], x_heap := h\<rparr>"
  have sr: "Server_resolve E cfg (req_SecretName r) rcd0 x = (Some ?s, rcd0, x1)"
    using True v newLocked_cases[of "True" v "x_heap x"] by (simp add: Server_resolve_def resolver_Resolve_def Let_def h_def[symmetric] x1_def)
  have c: "contents h ?s = Some v" using newLocked_ok[of True v "x_heap x" "fst (newLocked True v (x_heap x))" h] by (simp add: h_def)
  note R = render_fits[OF assms(2) c]
  show ?thesis
  proof (cases "fits (rt_template rt) v")
    case False
    then obtain e where "render (rt_template rt) ?s h = Inl e" using R by auto
    moreover have "x_heap x1 = h" "x_out x1 = x_out x" by (simp_all add: x1_def)
    ultimately have "x_out y = x_out x" using assms(1) sr by (simp add: proxy_deliver_def) fastforce
    with False v show ?thesis by (simp add: deliverable_def)
  next
    case fit: True
    then obtain cred where cred: "render (rt_template rt) ?s h = Inr cred" using R by auto
    moreover have "x_heap x1 = h" "x_out x1 = x_out x" by (simp_all add: x1_def)
    ultimately have out: "x_out y = x_out x @ [Rewrite rt fr cred rest r]"
      using assms(1) sr by (simp add: proxy_deliver_def split: prod.splits) fastforce
    have "deliverable E cfg (req_SecretName r) (rt_template rt) = Some v" using fit v True by (simp add: deliverable_def)
    with c cred out show ?thesis by (simp only: option.case) blast
  qed
qed

lemma allowed_proxy_delivers:
  assumes "verdict_of E ProxyEndpoint snap r x = Allowed_to tok" and "fst (authenticateProxy E (snap_slots snap) r x) = Some (tok, fr)"
    and "map_of (snap_routes snap) (req_SecretName r, req_Upstream r) = Some rt"
  obtains rest rcd0 z rcd y where "x_out z = x_out x" "forwardedPath (req_EscapedPath r) = Some rest"
    "proxy_deliver E B closeOK (snap_cfg snap) rt fr rest (drop_h2c (e_golib E) r) rcd0 z = (rcd, y)"
    "x_out (Serve E B closeOK ProxyEndpoint snap r x) = x_out y"
proof -
  define f where "f = (\<lambda>w. set_header ''X-Content-Type-Options'' ''nosniff'' (set_header ''Cache-Control'' ''no-store'' w))"
  have ready: "Log_Ready (x_log x) = Inr ()" and ok: "proxy_allowed (e_golib E) snap tok r"
    using assms(1,2) by (auto simp: verdict_of_def split: if_splits)
  have S: "Serve E B closeOK ProxyEndpoint snap r x = proxy E B closeOK snap r (respond f x)"
    using ready by (simp add: Serve_def noStore_def requireAudit_def f_def)
  obtain z where a: "authenticateProxy E (snap_slots snap) r (respond f x) = (Some (tok, fr), z)"
    using authenticateProxy_respond[of E "snap_slots snap" r f x] assms(2) by (metis prod.collapse)
  have "table_only (respond f x) z"
    using a verify_table_only by (auto simp: authenticateProxy_def Let_def split: prod.splits option.splits)
  then have z: "x_out z = x_out x" by (simp add: table_only_def)
  obtain rest where r: "Header_Get (req_Header (drop_h2c (e_golib E) r)) ''Upgrade'' = []" "forwardedPath (req_EscapedPath r) = Some rest"
    "AuthorizeProxy (snap_cfg snap) tok (req_SecretName r) (req_Method r) rest = Inr ()"
    using ok by (auto simp: proxy_allowed_def split: option.splits)
  let ?rcd = "(proxy_record tok r (Some rt))\<lparr>rec_Decision := ''allowed''\<rparr>"
  obtain rcd y where d: "proxy_deliver E B closeOK (snap_cfg snap) rt fr rest (drop_h2c (e_golib E) r) ?rcd z = (rcd, y)" by fastforce
  have "proxy_attempt E B closeOK snap tok fr r z = (rcd, y)" using r d assms(3) by (simp add: proxy_attempt_def Let_def)
  then have "x_out (Serve E B closeOK ProxyEndpoint snap r x) = x_out y" unfolding S by (simp add: proxy_def a Server_record_def)
  with z r(2) d show thesis by (rule that)
qed



text \<open>
  C40: a header template may name \<open>Range\<close>: validation accepts it, and Proxy Delivery then drops the
  credential it has just set.
\<close>

lemma range_template_dropped:
  "fileHeaderTemplate_validate \<lparr>fht_Name = ''range'', fht_Value = ''{secret}''\<rparr> = Inr \<lparr>ht_Name = ''Range'', ht_Prefix = [], ht_Suffix = []\<rparr>
   \<and> Header_Values (out_Header (Rewrite rt fr \<lparr>cred_header = ''Range'', cred_headerValue = v, cred_query = [], cred_queryValue = [], cred_needles = ns\<rparr> rest r)) ''Range'' = []"
proof
  have n: "CanonicalHeaderKey ''range'' = ''Range''" by (simp add: CanonicalHeaderKey_def toUpperASCII_def toLowerASCII_def char_of_numeral_eq)
  show "fileHeaderTemplate_validate \<lparr>fht_Name = ''range'', fht_Value = ''{secret}''\<rparr> = Inr \<lparr>ht_Name = ''Range'', ht_Prefix = [], ht_Suffix = []\<rparr>"
    by (simp add: fileHeaderTemplate_validate_def n headerNamePattern_def tchar_def isAlnum_def reservedHeaders_def strings_Count_def SecretPlaceholder_def
        hasPrefix_def hasControl_def runes_ascii cut_def)
qed (simp add: overridden_canonical Rewrite_header_values rewrite_header_values)

end
