(* ===== verification/Plugin_SDK.thy ===== *)
theory Plugin_SDK
  imports Plugin_Contract
begin

text \<open>
  \<open>sdk/plugin\<close>: what a Backend Plugin serves (\<open>plugin.go\<close>) and the client the server calls it
  with (\<open>client/client.go\<close>). A Backend is a record of its methods over a state \<open>'s\<close>; the calls
  a client makes are another, which \<open>sdk_rpc\<close> fills with the SDK's handlers and a hostile plugin
  with anything at all. gRPC and go-plugin are library code: what a call or a launch returns is
  an argument.
\<close>

section \<open>Errors\<close>

text \<open>The texts of the contract's errors; \<open>Q\<close> is \<open>%q\<close>.\<close>

fun contract_Error :: "(string \<Rightarrow> string) \<Rightarrow> contract_error \<Rightarrow> string" where
  "contract_Error Q EmptyLocation = ''location is empty''"
| "contract_Error Q (OverLimit what n m) = (
     if what = ''list'' then ''list has '' @ decimal n @ '' locations, over the '' @ decimal m @ '' limit''
     else what @ '' is '' @ decimal n @ '' bytes, over the '' @ decimal m @ '' byte limit'')"
| "contract_Error Q (NotValidUTF8 what) = what @ '' is not valid UTF-8''"
| "contract_Error Q (ControlAt what i) = what @ '' contains a control character at byte '' @ decimal i"
| "contract_Error Q EmptyValue = ''value is empty''"
| "contract_Error Q (AtIndex i e) = ''locations['' @ decimal i @ '']: '' @ contract_Error Q e"
| "contract_Error Q (NotUnderPrefix i) = ''locations['' @ decimal i @ ''] does not start with the requested prefix''"
| "contract_Error Q (ListedTwice i) = ''locations['' @ decimal i @ ''] is listed more than once''"
| "contract_Error Q (BadEnvName name) = ''env '' @ Q name @
     (if name = [] \<or> MaxEnvNameBytes < length name then '': use 1 to '' @ decimal MaxEnvNameBytes @ '' letters, digits, and '' else '': use letters, digits, and '')
     @ [CHR 0x27, CHR ''_'', CHR 0x27] @ '', not starting with a digit''"
| "contract_Error Q (ReservedEnv name) = ''env '' @ name @ '' is a Go runtime setting the server controls and cannot be configured''"
| "contract_Error Q (LoaderEnv name) = ''env '' @ name @ '' is a loader setting and cannot be configured; the plugin binary is pinned by its hash''"

text \<open>
  An error a Backend returns: whether it wraps \<open>ErrNotFound\<close>, whether it wraps
  \<open>ErrUnsupported\<close>, and its text.
\<close>

record backend_error =
  be_isNotFound :: bool
  be_isUnsupported :: bool
  be_text :: string

definition ErrNotFound_text :: string where
  "ErrNotFound_text = ''not found''"

definition ErrUnsupported_text :: string where
  "ErrUnsupported_text = ''not supported by this Backend Plugin''"

definition MalformedPrefix :: string where
  "MalformedPrefix = ''Backend Plugin produced a malformed response: ''"

datatype code = Code_InvalidArgument | Code_NotFound | Code_Unimplemented | Code_Internal | Code_Unavailable | Code_Other nat

datatype rpc_error = Status code string | NoStatus string

section \<open>The plugin's side\<close>

record Capabilities =
  caps_CourierKeyWrite :: bool

definition Capabilities_Names :: "Capabilities \<Rightarrow> string list" where
  "Capabilities_Names c = (if caps_CourierKeyWrite c then [''courier-key-write''] else [])"

text \<open>
  The \<open>Backend\<close> interface, and the \<open>CourierKeyWriter\<close> method of a Backend that has it.
\<close>

record 's Backend =
  be_Get :: "string \<Rightarrow> 's \<Rightarrow> (backend_error, bytes) result \<times> 's"
  be_List :: "string \<Rightarrow> 's \<Rightarrow> (backend_error, string list) result \<times> 's"
  be_Health :: "'s \<Rightarrow> (string \<times> backend_error option) \<times> 's"
  be_Capabilities :: Capabilities
  be_WriteCourierKey :: "(string \<Rightarrow> bytes \<Rightarrow> 's \<Rightarrow> backend_error option \<times> 's) option"

record CapabilitiesResponse =
  cr_CourierKeyWrite :: bool
  cr_Fips140Enabled :: bool
  cr_Fips140Version :: string
  cr_Fips140Only :: bool

record HealthResponse =
  hr_Healthy :: bool
  hr_Detail :: string

text \<open>\<open>Serve\<close>: the exit status when the plugin refuses to serve.\<close>

definition plugin_Serve :: "bool \<Rightarrow> 's Backend \<Rightarrow> (int, 's Backend) result" where
  "plugin_Serve coreDumpsOff b = (
     if \<not> coreDumpsOff then Inl 1
     else if caps_CourierKeyWrite (be_Capabilities b) \<and> be_WriteCourierKey b = None then Inl 1
     else Inr b)"

definition server_malformed :: "(string \<Rightarrow> string) \<Rightarrow> contract_error \<Rightarrow> rpc_error" where
  "server_malformed Q e = Status Code_Internal (MalformedPrefix @ contract_Error Q e)"

definition toStatus :: "backend_error \<Rightarrow> rpc_error" where
  "toStatus e = (
     if be_isNotFound e then Status Code_NotFound (Sanitize (be_text e))
     else if be_isUnsupported e then Status Code_Unimplemented ErrUnsupported_text
     else Status Code_Unavailable (Sanitize (be_text e)))"

text \<open>FIPS 140-3 mode of a process: what \<open>crypto/fips140\<close> reports.\<close>

record FIPS140 =
  fips_Enabled :: bool
  fips_Only :: bool
  fips_Version :: string

definition server_Capabilities :: "FIPS140 \<Rightarrow> 's Backend \<Rightarrow> CapabilitiesResponse" where
  "server_Capabilities own b = \<lparr>cr_CourierKeyWrite = caps_CourierKeyWrite (be_Capabilities b),
     cr_Fips140Enabled = fips_Enabled own, cr_Fips140Version = fips_Version own, cr_Fips140Only = fips_Only own\<rparr>"

definition server_Health :: "(string \<Rightarrow> string) \<Rightarrow> 's Backend \<Rightarrow> 's \<Rightarrow> (rpc_error, HealthResponse) result \<times> 's" where
  "server_Health Q b s = (case be_Health b s of ((detail, err), s') \<Rightarrow>
     (case Detail detail of
        Inl e \<Rightarrow> Inl (server_malformed Q e)
      | Inr _ \<Rightarrow> (case err of
          None \<Rightarrow> Inr \<lparr>hr_Healthy = True, hr_Detail = detail\<rparr>
        | Some e \<Rightarrow> Inr \<lparr>hr_Healthy = False, hr_Detail =
            Sanitize (if detail = [] then be_text e else be_text e @ '' ('' @ detail @ '')'')\<rparr>), s'))"

definition server_Get :: "(string \<Rightarrow> string) \<Rightarrow> 's Backend \<Rightarrow> string \<Rightarrow> 's \<Rightarrow> (rpc_error, bytes) result \<times> 's" where
  "server_Get Q b loc s = (case Location loc of
      Inl e \<Rightarrow> (Inl (Status Code_InvalidArgument (contract_Error Q e)), s)
    | Inr _ \<Rightarrow> (case be_Get b loc s of
        (Inl e, s') \<Rightarrow> (Inl (toStatus e), s')
      | (Inr v, s') \<Rightarrow> (case Value v of Inl e \<Rightarrow> Inl (server_malformed Q e) | Inr _ \<Rightarrow> Inr v, s')))"

definition server_List :: "(string \<Rightarrow> string) \<Rightarrow> 's Backend \<Rightarrow> string \<Rightarrow> 's \<Rightarrow> (rpc_error, string list) result \<times> 's" where
  "server_List Q b p s = (case Prefix p of
      Inl e \<Rightarrow> (Inl (Status Code_InvalidArgument (contract_Error Q e)), s)
    | Inr _ \<Rightarrow> (case be_List b p s of
        (Inl e, s') \<Rightarrow> (Inl (toStatus e), s')
      | (Inr ls, s') \<Rightarrow> (case List p ls of Inl e \<Rightarrow> Inl (server_malformed Q e) | Inr _ \<Rightarrow> Inr ls, s')))"

definition server_WriteCourierKey :: "(string \<Rightarrow> string) \<Rightarrow> 's Backend \<Rightarrow> string \<Rightarrow> bytes \<Rightarrow> 's \<Rightarrow> (rpc_error, unit) result \<times> 's" where
  "server_WriteCourierKey Q b loc v s = (case be_WriteCourierKey b of
      None \<Rightarrow> (Inl (Status Code_Unimplemented ErrUnsupported_text), s)
    | Some w \<Rightarrow>
        if \<not> caps_CourierKeyWrite (be_Capabilities b) then (Inl (Status Code_Unimplemented ErrUnsupported_text), s)
        else (case Location loc of
          Inl e \<Rightarrow> (Inl (Status Code_InvalidArgument (contract_Error Q e)), s)
        | Inr _ \<Rightarrow> (case Value v of
            Inl e \<Rightarrow> (Inl (Status Code_InvalidArgument (contract_Error Q e)), s)
          | Inr _ \<Rightarrow> (case w loc v s of
              (Some e, s') \<Rightarrow> (Inl (toStatus e), s')
            | (None, s') \<Rightarrow> (Inr (), s')))))"

section \<open>The server's side\<close>

text \<open>The generated \<open>BackendClient\<close>: whatever is at the other end of the connection.\<close>

record 's rpc =
  rpc_Capabilities :: "(rpc_error, CapabilitiesResponse) result"
  rpc_Get :: "string \<Rightarrow> 's \<Rightarrow> (rpc_error, bytes) result \<times> 's"
  rpc_List :: "string \<Rightarrow> 's \<Rightarrow> (rpc_error, string list) result \<times> 's"
  rpc_Health :: "'s \<Rightarrow> (rpc_error, HealthResponse) result \<times> 's"
  rpc_WriteCourierKey :: "string \<Rightarrow> bytes \<Rightarrow> 's \<Rightarrow> (rpc_error, unit) result \<times> 's"

text \<open>A plugin built on the SDK, over a connection that works.\<close>

definition sdk_rpc :: "(string \<Rightarrow> string) \<Rightarrow> FIPS140 \<Rightarrow> 's Backend \<Rightarrow> 's rpc" where
  "sdk_rpc Q own b = \<lparr>rpc_Capabilities = Inr (server_Capabilities own b), rpc_Get = server_Get Q b, rpc_List = server_List Q b,
     rpc_Health = server_Health Q b, rpc_WriteCourierKey = server_WriteCourierKey Q b\<rparr>"

text \<open>
  The client's errors by what \<open>errors.Is\<close> and \<open>errors.As\<close> tell of them; the last string of
  each is the text after the method and the sentinel.
\<close>

datatype client_error =
    BadCall string contract_error
  | CallNotFound string string
  | CallUnsupported string
  | MalformedResponse string contract_error
  | MalformedReported string string
  | CallFailed string code string
  | CallBroken string string
  | Unhealthy string
  | StartFailed string
  | UnexpectedClient

definition FIPS140_Mode :: "FIPS140 \<Rightarrow> string" where
  "FIPS140_Mode f = (if fips_Only f then ''only'' else if fips_Enabled f then ''on'' else ''off'')"

definition FIPS140_Covers :: "FIPS140 \<Rightarrow> FIPS140 \<Rightarrow> bool" where
  "FIPS140_Covers f host \<longleftrightarrow> (fips_Enabled f \<or> \<not> fips_Enabled host) \<and> (fips_Only f \<or> \<not> fips_Only host)"

text \<open>\<open>GODEBUG\<close>: the environment variable of that name and the process's own mode.\<close>

definition client_GODEBUG :: "string \<Rightarrow> FIPS140 \<Rightarrow> string" where
  "client_GODEBUG v host = (
     if list_ex (\<lambda>setting. hasPrefix setting ''fips140='') (splitc (CHR '','') v) then v
     else (let mode = ''fips140='' @ FIPS140_Mode host in if v = [] then mode else v @ '','' @ mode))"

definition callError :: "string \<Rightarrow> rpc_error \<Rightarrow> client_error" where
  "callError mthd err = (case err of
      NoStatus msg \<Rightarrow> CallBroken mthd (Sanitize msg)
    | Status c msg \<Rightarrow>
        if c = Code_NotFound then CallNotFound mthd (if msg \<noteq> [] \<and> msg \<noteq> ErrNotFound_text then Sanitize msg else [])
        else if c = Code_Unimplemented then CallUnsupported mthd
        else if c = Code_Internal \<and> hasPrefix msg MalformedPrefix then MalformedReported mthd (Sanitize (trimPrefix msg MalformedPrefix))
        else CallFailed mthd c (Sanitize msg))"

text \<open>
  \<open>Get\<close>: the last component is what the buffer of the response holds afterwards, which the
  code clears when it refuses the value.
\<close>

definition Client_Get :: "'s rpc \<Rightarrow> string \<Rightarrow> 's \<Rightarrow> (client_error, bytes) result \<times> 's \<times> bytes" where
  "Client_Get R loc s = (case Location loc of
      Inl e \<Rightarrow> (Inl (BadCall ''Get'' e), s, [])
    | Inr _ \<Rightarrow> (case rpc_Get R loc s of
        (Inl err, s') \<Rightarrow> (Inl (callError ''Get'' err), s', [])
      | (Inr v, s') \<Rightarrow> (case Value v of
          Inl e \<Rightarrow> (Inl (MalformedResponse ''Get'' e), s', replicate (length v) (CHR 0x00))
        | Inr _ \<Rightarrow> (Inr v, s', v))))"

definition Client_List :: "'s rpc \<Rightarrow> string \<Rightarrow> 's \<Rightarrow> (client_error, string list) result \<times> 's" where
  "Client_List R p s = (case Prefix p of
      Inl e \<Rightarrow> (Inl (BadCall ''List'' e), s)
    | Inr _ \<Rightarrow> (case rpc_List R p s of
        (Inl err, s') \<Rightarrow> (Inl (callError ''List'' err), s')
      | (Inr ls, s') \<Rightarrow> (case List p ls of Inl e \<Rightarrow> Inl (MalformedResponse ''List'' e) | Inr _ \<Rightarrow> Inr ls, s')))"

definition Client_Health :: "'s rpc \<Rightarrow> 's \<Rightarrow> (client_error, string) result \<times> 's" where
  "Client_Health R s = (case rpc_Health R s of
      (Inl err, s') \<Rightarrow> (Inl (callError ''Health'' err), s')
    | (Inr resp, s') \<Rightarrow> (case Detail (hr_Detail resp) of
        Inl e \<Rightarrow> Inl (MalformedResponse ''Health'' e)
      | Inr _ \<Rightarrow> if \<not> hr_Healthy resp then Inl (Unhealthy (hr_Detail resp)) else Inr (hr_Detail resp), s'))"

definition Client_WriteCourierKey :: "'s rpc \<Rightarrow> Capabilities \<Rightarrow> string \<Rightarrow> bytes \<Rightarrow> 's \<Rightarrow> (client_error, unit) result \<times> 's" where
  "Client_WriteCourierKey R caps loc v s = (
     if \<not> caps_CourierKeyWrite caps then (Inl (CallUnsupported ''WriteCourierKey''), s)
     else (case Location loc of
        Inl e \<Rightarrow> (Inl (BadCall ''WriteCourierKey'' e), s)
      | Inr _ \<Rightarrow> (case Value v of
          Inl e \<Rightarrow> (Inl (BadCall ''WriteCourierKey'' e), s)
        | Inr _ \<Rightarrow> (case rpc_WriteCourierKey R loc v s of
            (Inl err, s') \<Rightarrow> (Inl (callError ''WriteCourierKey'' err), s')
          | (Inr _, s') \<Rightarrow> (Inr (), s')))))"

section \<open>Launching a plugin\<close>

text \<open>
  An \<open>exec.Cmd\<close> that runs an open file: the file's bytes, the path it was found at, the working
  directory, the environment and the OS credential. \<open>processes\<close> is the machine's process table;
  it also remembers every command ever started.
\<close>

record os_credential =
  oc_Uid :: nat
  oc_Gid :: nat
  oc_Groups :: "nat list"

record command =
  cmd_binary :: bytes
  cmd_arg0 :: string
  cmd_Dir :: string
  cmd_Env :: "string list"
  cmd_cred :: "os_credential option"

record processes =
  ps_next :: nat
  ps_running :: "(nat \<times> command) list"
  ps_started :: "command list"

definition exec_Start :: "command \<Rightarrow> processes \<Rightarrow> nat \<times> processes" where
  "exec_Start c ps = (ps_next ps, ps\<lparr>ps_next := ps_next ps + 1, ps_running := (ps_next ps, c) # ps_running ps, ps_started := c # ps_started ps\<rparr>)"

text \<open>\<open>Kill\<close>, which waits until the process is gone; also what is left when it exits by itself.\<close>

definition Client_Kill :: "nat \<Rightarrow> processes \<Rightarrow> processes" where
  "Client_Kill i ps = ps\<lparr>ps_running := filter (\<lambda>(j, _). j \<noteq> i) (ps_running ps)\<rparr>"

definition Client_Exited :: "nat \<Rightarrow> processes \<Rightarrow> bool" where
  "Client_Exited i ps \<longleftrightarrow> i \<notin> fst ` set (ps_running ps)"

record Client =
  cl_process :: nat
  cl_caps :: Capabilities
  cl_fips :: FIPS140

text \<open>
  What go-plugin reports of one launch: the error of the handshake, of dispensing the plugin,
  whether the dispensed client has the expected type, and the answer to the first call.
\<close>

record launch_report =
  lr_Client :: "string option"
  lr_Dispense :: "string option"
  lr_isBackend :: bool
  lr_Capabilities :: "(rpc_error, CapabilitiesResponse) result"

definition dispense :: "launch_report \<Rightarrow> nat \<Rightarrow> (client_error, Client) result" where
  "dispense L i = (case lr_Client L of
      Some err \<Rightarrow> Inl (StartFailed (Sanitize err))
    | None \<Rightarrow> (case lr_Dispense L of
        Some err \<Rightarrow> Inl (StartFailed (Sanitize err))
      | None \<Rightarrow>
          if \<not> lr_isBackend L then Inl UnexpectedClient
          else (case lr_Capabilities L of
            Inl err \<Rightarrow> Inl (callError ''Capabilities'' err)
          | Inr resp \<Rightarrow> (case FIPS140Version (cr_Fips140Version resp) of
              Inl e \<Rightarrow> Inl (MalformedResponse ''Capabilities'' e)
            | Inr _ \<Rightarrow> Inr \<lparr>cl_process = i, cl_caps = \<lparr>caps_CourierKeyWrite = cr_CourierKeyWrite resp\<rparr>,
                cl_fips = \<lparr>fips_Enabled = cr_Fips140Enabled resp \<or> cr_Fips140Only resp, fips_Only = cr_Fips140Only resp,
                  fips_Version = cr_Fips140Version resp\<rparr>\<rparr>))))"

definition Client_Start :: "command \<Rightarrow> launch_report \<Rightarrow> processes \<Rightarrow> (client_error, Client) result \<times> processes" where
  "Client_Start cmd L ps = (case exec_Start cmd ps of (i, ps') \<Rightarrow>
     (case dispense L i of Inl e \<Rightarrow> (Inl e, Client_Kill i ps') | Inr c \<Rightarrow> (Inr c, ps')))"

section \<open>What the contract accepts\<close>

lemma Location_iff: "Location loc = Inr () \<longleftrightarrow> loc \<noteq> [] \<and> length loc \<le> MaxLocationBytes \<and> printable ''location'' loc = Inr ()"
  by (auto simp: Location_def)

lemma Value_iff: "Value v = Inr () \<longleftrightarrow> v \<noteq> [] \<and> length v \<le> MaxValueBytes"
  by (auto simp: Value_def)

lemma list_loop_iff: "list_loop p i seen ls = Inr () \<longleftrightarrow>
    (\<forall>l\<in>set ls. Location l = Inr () \<and> hasPrefix l p) \<and> distinct ls \<and> set ls \<inter> set seen = {}"
  by (induction p i seen ls rule: list_loop.induct) (auto split: sum.splits)

lemma List_iff: "List p ls = Inr () \<longleftrightarrow>
    length ls \<le> MaxListLength \<and> distinct ls \<and> (\<forall>l\<in>set ls. Location l = Inr () \<and> hasPrefix l p)"
  by (auto simp: List_def list_loop_iff)

lemma Sanitize_Detail: "Detail (Sanitize s) = Inr ()"
  using Sanitize_form(2)[of s] by (auto simp: Detail_def MaxDetailBytes_def Sanitize_form(1))

section \<open>Untrusted responses\<close>

text \<open>Text a plugin chose, fit to be logged and shown.\<close>

definition safe_text :: "string \<Rightarrow> bool" where
  "safe_text t \<longleftrightarrow> printable [] t = Inr () \<and> length t \<le> MaxDetailBytes"

fun safe_error :: "client_error \<Rightarrow> bool" where
  "safe_error (CallNotFound m t) = safe_text t"
| "safe_error (MalformedReported m t) = safe_text t"
| "safe_error (CallFailed m c t) = safe_text t"
| "safe_error (CallBroken m t) = safe_text t"
| "safe_error (StartFailed t) = safe_text t"
| "safe_error (Unhealthy t) = safe_text t"
| "safe_error _ = True"

lemma safe_text_Sanitize [simp]: "safe_text (Sanitize s)"
  using Sanitize_form(2)[of s] by (simp add: safe_text_def Sanitize_form(1) MaxDetailBytes_def)

lemma safe_text_Nil [simp]: "safe_text []"
  by (simp add: safe_text_def printable_iff)

lemma printable_what: "printable w s = Inr () \<longleftrightarrow> printable w' s = Inr ()"
  by (simp add: printable_iff)

lemma safe_text_Detail: "Detail d = Inr () \<longleftrightarrow> safe_text d"
  unfolding safe_text_def Detail_def using printable_what[of "''health detail''" d "[]"] by auto

lemma safe_callError [simp]: "safe_error (callError m e)"
  by (cases e) (auto simp: callError_def)

text \<open>
  A client whose answers have been checked: what the Plugin Host and everything above it may
  rely on, whatever the plugin is.
\<close>

locale checked_client =
  fixes get :: "string \<Rightarrow> 's \<Rightarrow> (client_error, bytes) result \<times> 's \<times> bytes"
    and health :: "'s \<Rightarrow> (client_error, string) result \<times> 's"
  assumes get_Inr: "get loc s = (Inr v, s', buf) \<Longrightarrow> Location loc = Inr () \<and> Value v = Inr () \<and> buf = v"
    and get_Inl: "get loc s = (Inl e, s', buf) \<Longrightarrow> safe_error e \<and> set buf \<subseteq> {CHR 0x00}"
    and health_safe: "health s = (r, s') \<Longrightarrow> (case r of Inr d \<Rightarrow> safe_text d | Inl e \<Rightarrow> safe_error e)"
begin

lemma get_bounded: "get loc s = (Inr v, s', buf) \<Longrightarrow> v \<noteq> [] \<and> length v \<le> MaxValueBytes"
  using get_Inr[of loc s v s' buf] by (simp add: Value_iff)

end

lemma Client_Get_Inr: "Client_Get R loc s = (Inr v, s', buf) \<Longrightarrow> Location loc = Inr () \<and> Value v = Inr () \<and> buf = v"
  by (auto simp: Client_Get_def split: sum.splits prod.splits)

lemma Client_Get_Inl: "Client_Get R loc s = (Inl e, s', buf) \<Longrightarrow> safe_error e \<and> set buf \<subseteq> {CHR 0x00}"
  by (auto simp: Client_Get_def split: sum.splits prod.splits)

lemma Client_Health_safe: "Client_Health R s = (r, s') \<Longrightarrow> (case r of Inr d \<Rightarrow> safe_text d | Inl e \<Rightarrow> safe_error e)"
  by (auto simp: Client_Health_def safe_text_Detail split: sum.splits prod.splits if_splits)

interpretation cc: checked_client "Client_Get R" "Client_Health R" for R
  by unfold_locales (erule Client_Get_Inr Client_Get_Inl Client_Health_safe)+

lemma Client_List_safe: "case fst (Client_List R p s) of
    Inr ls \<Rightarrow> length ls \<le> MaxListLength \<and> distinct ls \<and> list_all (\<lambda>l. Location l = Inr () \<and> hasPrefix l p) ls
  | Inl e \<Rightarrow> safe_error e"
  by (auto simp: Client_List_def List_iff list_all_iff split: sum.splits prod.splits)

lemma Client_Write_safe: "case fst (Client_WriteCourierKey R caps loc v s) of
    Inr _ \<Rightarrow> caps_CourierKeyWrite caps \<and> Location loc = Inr () \<and> Value v = Inr () | Inl e \<Rightarrow> safe_error e"
  by (auto simp: Client_WriteCourierKey_def split: sum.splits prod.splits)

lemma dispense_safe: "case dispense L i of
    Inr c \<Rightarrow> cl_process c = i \<and> (fips_Only (cl_fips c) \<longrightarrow> fips_Enabled (cl_fips c)) \<and> safe_text (fips_Version (cl_fips c))
  | Inl e \<Rightarrow> safe_error e"
proof -
  have "safe_text v" if "FIPS140Version v = Inr ()" for v
    using that printable_what[of "''fips140_version''" v "[]"]
    by (auto simp: FIPS140Version_def safe_text_def MaxVersionBytes_def MaxDetailBytes_def split: if_splits)
  then show ?thesis by (auto simp: dispense_def split: option.splits sum.splits)
qed

text \<open>
  C18: no response of a plugin is trusted. Whatever the plugin answers, a value the client
  returns meets the protocol's limits, a list holds distinct locations under the prefix asked
  for, only a plugin with the capability is written to, and every piece of text the plugin chose
  that is passed on in an answer or an error is printable and bounded.
\<close>

theorem plugin_responses_checked:
  "(case Client_Get R loc s of
      (Inr v, _, buf) \<Rightarrow> v \<noteq> [] \<and> length v \<le> MaxValueBytes \<and> buf = v
    | (Inl e, _, buf) \<Rightarrow> safe_error e \<and> set buf \<subseteq> {CHR 0x00})
   \<and> (case fst (Client_List R p s) of
      Inr ls \<Rightarrow> length ls \<le> MaxListLength \<and> distinct ls \<and> list_all (\<lambda>l. Location l = Inr () \<and> hasPrefix l p) ls
    | Inl e \<Rightarrow> safe_error e)
   \<and> (case fst (Client_Health R s) of Inr d \<Rightarrow> safe_text d | Inl e \<Rightarrow> safe_error e)
   \<and> (case fst (Client_WriteCourierKey R caps loc v s) of Inr _ \<Rightarrow> caps_CourierKeyWrite caps | Inl e \<Rightarrow> safe_error e)
   \<and> (case dispense L i of Inr c \<Rightarrow> safe_text (fips_Version (cl_fips c)) | Inl e \<Rightarrow> safe_error e)"
proof -
  have "case Client_Get R loc s of (Inr v, _, buf) \<Rightarrow> v \<noteq> [] \<and> length v \<le> MaxValueBytes \<and> buf = v
    | (Inl e, _, buf) \<Rightarrow> safe_error e \<and> set buf \<subseteq> {CHR 0x00}"
    using Client_Get_Inl[of R loc s] Client_Get_Inr[of R loc s] cc.get_bounded[of R loc s] by (auto split: prod.splits sum.splits)
  moreover have "case fst (Client_Health R s) of Inr d \<Rightarrow> safe_text d | Inl e \<Rightarrow> safe_error e"
    using cc.health_safe[of R s "fst (Client_Health R s)" "snd (Client_Health R s)"] by (auto split: sum.splits)
  moreover have "case fst (Client_WriteCourierKey R caps loc v s) of Inr _ \<Rightarrow> caps_CourierKeyWrite caps | Inl e \<Rightarrow> safe_error e"
    using Client_Write_safe[where R = R and caps = caps and loc = loc and v = v and s = s] by (auto split: sum.splits)
  moreover have "case dispense L i of Inr c \<Rightarrow> safe_text (fips_Version (cl_fips c)) | Inl e \<Rightarrow> safe_error e"
    using dispense_safe[where L = L and i = i] by (auto split: sum.splits)
  ultimately show ?thesis using Client_List_safe[where R = R and p = p and s = s] by simp
qed

section \<open>A plugin built on the SDK\<close>

text \<open>How a Backend's error reaches the caller.\<close>

definition reported :: "string \<Rightarrow> backend_error \<Rightarrow> client_error \<Rightarrow> bool" where
  "reported m e ce \<longleftrightarrow> (
     if be_isNotFound e then \<exists>t. ce = CallNotFound m t
     else if be_isUnsupported e then ce = CallUnsupported m
     else \<exists>t. ce = CallFailed m Code_Unavailable t)"

lemma callError_toStatus [simp]: "reported m e (callError m (toStatus e))"
  by (simp add: reported_def toStatus_def callError_def)

lemma callError_malformed [simp]: "callError m (server_malformed Q e) = MalformedReported m (Sanitize (contract_Error Q e))"
  by (simp add: callError_def server_malformed_def)

text \<open>What the SDK promises of a call, as a relation between the Backend's answer and the caller's.\<close>

definition answered :: "string \<Rightarrow> ('a \<Rightarrow> bool) \<Rightarrow> (backend_error, 'a) result \<Rightarrow> (client_error, 'a) result \<Rightarrow> bool" where
  "answered m ok b r = (case b of
      Inl e \<Rightarrow> (\<exists>ce. r = Inl ce \<and> reported m e ce)
    | Inr v \<Rightarrow> if ok v then r = Inr v else \<exists>t. r = Inl (MalformedReported m t))"

lemma sdk_Get:
  assumes "Location loc = Inr ()"
  shows "answered ''Get'' (\<lambda>v. Value v = Inr ()) (fst (be_Get b loc s)) (fst (Client_Get (sdk_rpc Q own b) loc s))"
    and "fst (snd (Client_Get (sdk_rpc Q own b) loc s)) = snd (be_Get b loc s)"
  using assms by (auto simp: answered_def sdk_rpc_def Client_Get_def server_Get_def split: sum.splits prod.splits)

lemma sdk_List:
  assumes "Prefix p = Inr ()"
  shows "answered ''List'' (\<lambda>ls. List p ls = Inr ()) (fst (be_List b p s)) (fst (Client_List (sdk_rpc Q own b) p s))"
    and "snd (Client_List (sdk_rpc Q own b) p s) = snd (be_List b p s)"
  using assms by (auto simp: answered_def sdk_rpc_def Client_List_def server_List_def split: sum.splits prod.splits)

lemma sdk_Health: "fst (Client_Health (sdk_rpc Q own b) s) = (case fst (be_Health b s) of (detail, err) \<Rightarrow>
    (case Detail detail of
       Inl e \<Rightarrow> Inl (MalformedReported ''Health'' (Sanitize (contract_Error Q e)))
     | Inr _ \<Rightarrow> (case err of
         None \<Rightarrow> Inr detail
       | Some e \<Rightarrow> Inl (Unhealthy (Sanitize (if detail = [] then be_text e else be_text e @ '' ('' @ detail @ '')''))))))"
  by (auto simp: sdk_rpc_def Client_Health_def server_Health_def Sanitize_Detail case_prod_beta split: sum.splits prod.splits option.splits)

lemma sdk_Write:
  assumes "plugin_Serve True b = Inr b" and "caps_CourierKeyWrite (be_Capabilities b)" and "Location loc = Inr ()" and "Value v = Inr ()"
  shows "\<exists>w. be_WriteCourierKey b = Some w \<and>
    answered ''WriteCourierKey'' (\<lambda>_. True) (case fst (w loc v s) of None \<Rightarrow> Inr () | Some e \<Rightarrow> Inl e)
      (fst (Client_WriteCourierKey (sdk_rpc Q own b) (be_Capabilities b) loc v s))
    \<and> snd (Client_WriteCourierKey (sdk_rpc Q own b) (be_Capabilities b) loc v s) = snd (w loc v s)"
proof -
  obtain w where w: "be_WriteCourierKey b = Some w" using assms(1,2) by (cases "be_WriteCourierKey b") (auto simp: plugin_Serve_def)
  then show ?thesis using assms(2-)
    by (auto simp: answered_def sdk_rpc_def Client_WriteCourierKey_def server_WriteCourierKey_def split: sum.splits prod.splits option.splits)
qed

text \<open>
  Through the SDK a call reaches the Backend once and its answer arrives as it is: the
  value, the list, or an error of the same kind (not found, not supported, unavailable). An
  answer that breaks the contract arrives as a malformed response and nothing else does, and an
  unhealthy report always arrives as one.
\<close>

theorem sdk_calls_faithful:
  assumes "plugin_Serve True b = Inr b" and "Location loc = Inr ()" and "Value v = Inr ()"
  shows "answered ''Get'' (\<lambda>v. Value v = Inr ()) (fst (be_Get b loc s)) (fst (Client_Get (sdk_rpc Q own b) loc s))
    \<and> fst (snd (Client_Get (sdk_rpc Q own b) loc s)) = snd (be_Get b loc s)
    \<and> answered ''List'' (\<lambda>ls. List loc ls = Inr ()) (fst (be_List b loc s)) (fst (Client_List (sdk_rpc Q own b) loc s))
    \<and> (\<forall>detail e. fst (be_Health b s) = (detail, Some e) \<longrightarrow> safe_text detail \<longrightarrow> (\<exists>t. fst (Client_Health (sdk_rpc Q own b) s) = Inl (Unhealthy t)))
    \<and> (\<forall>detail. fst (be_Health b s) = (detail, None) \<longrightarrow> safe_text detail \<longrightarrow> fst (Client_Health (sdk_rpc Q own b) s) = Inr detail)
    \<and> (caps_CourierKeyWrite (be_Capabilities b) \<longrightarrow> (\<exists>w. be_WriteCourierKey b = Some w
        \<and> answered ''WriteCourierKey'' (\<lambda>_. True) (case fst (w loc v s) of None \<Rightarrow> Inr () | Some e \<Rightarrow> Inl e)
            (fst (Client_WriteCourierKey (sdk_rpc Q own b) (be_Capabilities b) loc v s))))
    \<and> (\<not> caps_CourierKeyWrite (be_Capabilities b) \<longrightarrow>
        Client_WriteCourierKey (sdk_rpc Q own b) (be_Capabilities b) loc v s = (Inl (CallUnsupported ''WriteCourierKey''), s))"
proof -
  have "Prefix loc = Inr ()" using assms(2) by (simp add: Prefix_def)
  note List = sdk_List(1)[OF this, where b = b and s = s and Q = Q and own = own]
  have "fst (Client_Health (sdk_rpc Q own b) s) = Inr detail" if "fst (be_Health b s) = (detail, None)" "safe_text detail" for detail
    using that by (simp add: sdk_Health safe_text_Detail[symmetric])
  moreover have "\<exists>t. fst (Client_Health (sdk_rpc Q own b) s) = Inl (Unhealthy t)" if "fst (be_Health b s) = (detail, Some e)" "safe_text detail" for detail e
    using that by (simp add: sdk_Health safe_text_Detail[symmetric])
  moreover have "Client_WriteCourierKey (sdk_rpc Q own b) (be_Capabilities b) loc v s = (Inl (CallUnsupported ''WriteCourierKey''), s)"
    if "\<not> caps_CourierKeyWrite (be_Capabilities b)" using that by (simp add: Client_WriteCourierKey_def)
  ultimately show ?thesis using sdk_Get[OF assms(2), where b = b and s = s and Q = Q and own = own] List
      sdk_Write[OF assms(1) _ assms(2,3), where s = s and Q = Q and own = own]
    by (intro conjI allI impI) (assumption | blast)+
qed

definition example_backend :: "unit Backend" where
  "example_backend = \<lparr>be_Get = (\<lambda>loc s. (if loc = ''kv/a'' then Inr ''sk-1'' else Inl \<lparr>be_isNotFound = True, be_isUnsupported = False, be_text = ''no''\<rparr>, s)),
     be_List = (\<lambda>p s. (Inr [''kv/a''], s)), be_Health = (\<lambda>s. ((''sealed'', None), s)), be_Capabilities = \<lparr>caps_CourierKeyWrite = False\<rparr>,
     be_WriteCourierKey = None\<rparr>"

theorem sdk_calls_faithful_witness:
  "fst (Client_Get (sdk_rpc (\<lambda>s. s) \<lparr>fips_Enabled = False, fips_Only = False, fips_Version = []\<rparr> example_backend) ''kv/a'' ()) = Inr ''sk-1''"
proof -
  have "Location ''kv/a'' = Inr ()" "Value ''sk-1'' = Inr ()" "plugin_Serve True example_backend = Inr example_backend"
    by (simp_all add: Location_iff Value_iff printable_iff runes_ascii MaxLocationBytes_def MaxValueBytes_def isControl_def invalid_rune_def rune_error_def
        plugin_Serve_def example_backend_def)
  note h = this
  from sdk_calls_faithful[OF h(3,1,2)] h(2) show ?thesis by (simp add: answered_def example_backend_def)
qed

end
