(* ===== verification/Plugin_Users.thy ===== *)
theory Plugin_Users
  imports Plugin_SDK Config_Types
begin

text \<open>
  \<open>internal/pluginhost/user_unix.go\<close>: the OS user a Backend Plugin runs as, and the check that
  this user can neither read the config file nor owns the data directory. The user database and
  the file system are the fields of \<open>oslib\<close>; user and group ids are below \<open>2 ^ 32\<close>, mode bits
  are a 32-bit word.
\<close>

unbundle bit_operations_syntax

section \<open>The operating system\<close>

record user =
  u_Uid :: string
  u_Gid :: string

record file_info =
  fi_sys :: "(nat \<times> nat) option"
  fi_perm :: "32 word"

datatype stat_error = NotExist | StatFailed

record oslib =
  user_Lookup :: "string \<Rightarrow> user option"
  user_LookupId :: "string \<Rightarrow> user option"
  GroupIds :: "user \<Rightarrow> string list option"
  os_Stat :: "string \<Rightarrow> (stat_error, file_info) result"
  os_Geteuid :: int
  os_Open :: "string \<Rightarrow> (bytes \<times> bool) option"

text \<open>\<open>strconv.ParseUint(s, 10, 32)\<close>.\<close>

definition ParseUint32 :: "string \<Rightarrow> nat option" where
  "ParseUint32 s = (if s \<noteq> [] \<and> list_all isDigit s \<and> undecimal s < 2 ^ 32 then Some (undecimal s) else None)"

section \<open>The plugin's user\<close>

datatype user_error =
    UnknownUser string
  | BadUserID string
  | NoGroupList string
  | OwnUser string
  | ConfigReadable string string
  | DataDirOwned string string
  | NeedsRoot string
  | CannotStat string
  | NoOwnership
  | ChownFailed string

definition lookupUser :: "oslib \<Rightarrow> string \<Rightarrow> (user_error, user) result" where
  "lookupUser sys name = (case user_Lookup sys name of
      Some u \<Rightarrow> Inr u
    | None \<Rightarrow>
        if ParseUint32 name = None then Inl (UnknownUser name)
        else (case user_LookupId sys name of Some u \<Rightarrow> Inr u | None \<Rightarrow> Inl (UnknownUser name)))"

definition parse_id :: "string \<Rightarrow> string \<Rightarrow> (user_error, nat) result" where
  "parse_id userName s = (case ParseUint32 s of None \<Rightarrow> Inl (BadUserID userName) | Some n \<Rightarrow> Inr n)"

definition toCredential :: "oslib \<Rightarrow> string \<Rightarrow> user \<Rightarrow> (user_error, os_credential) result" where
  "toCredential sys userName u =
     ebind (parse_id userName (u_Uid u)) (\<lambda>uid.
     ebind (parse_id userName (u_Gid u)) (\<lambda>gid.
     (case GroupIds sys u of
        None \<Rightarrow> Inl (NoGroupList userName)
      | Some ids \<Rightarrow> ebind (emap (parse_id userName) ids) (\<lambda>gs. Inr \<lparr>oc_Uid = uid, oc_Gid = gid, oc_Groups = gs\<rparr>))))"

definition readableBy :: "oslib \<Rightarrow> string \<Rightarrow> os_credential \<Rightarrow> (user_error, bool) result" where
  "readableBy sys path cred = (case os_Stat sys path of
      Inl _ \<Rightarrow> Inl (CannotStat path)
    | Inr info \<Rightarrow> (case fi_sys info of
        None \<Rightarrow> Inl NoOwnership
      | Some (uid, gid) \<Rightarrow>
          if uid = oc_Uid cred then Inr True
          else if gid = oc_Gid cred \<or> gid \<in> set (oc_Groups cred) then Inr (fi_perm info AND 0x20 \<noteq> 0)
          else Inr (fi_perm info AND 0x04 \<noteq> 0)))"

definition ownedBy :: "oslib \<Rightarrow> string \<Rightarrow> nat \<Rightarrow> (user_error, bool) result" where
  "ownedBy sys path uid = (case os_Stat sys path of
      Inl NotExist \<Rightarrow> Inr False
    | Inl StatFailed \<Rightarrow> Inl (CannotStat path)
    | Inr info \<Rightarrow> (case fi_sys info of None \<Rightarrow> Inr False | Some (u, _) \<Rightarrow> Inr (u = uid)))"

definition checkSeparation :: "oslib \<Rightarrow> Config \<Rightarrow> os_credential \<Rightarrow> string \<Rightarrow> (user_error, unit) result" where
  "checkSeparation sys cfg cred userName =
     ebind (readableBy sys (cfg_Path cfg) cred) (\<lambda>readable.
     if readable then Inl (ConfigReadable (cfg_Path cfg) userName)
     else ebind (ownedBy sys (cfg_DataDir cfg) (oc_Uid cred)) (\<lambda>owned.
       if owned then Inl (DataDirOwned (cfg_DataDir cfg) userName) else Inr ()))"

definition pluginCredential :: "oslib \<Rightarrow> Config \<Rightarrow> BackendPlugin \<Rightarrow> (user_error, os_credential option) result" where
  "pluginCredential sys cfg pc = (
     if bp_InsecureShareCoreUser pc then Inr None
     else ebind (lookupUser sys (bp_User pc)) (\<lambda>u.
       ebind (toCredential sys (bp_User pc) u) (\<lambda>cred.
       if int (oc_Uid cred) = os_Geteuid sys then Inl (OwnUser (bp_User pc))
       else ebind (checkSeparation sys cfg cred (bp_User pc)) (\<lambda>_.
         if os_Geteuid sys \<noteq> 0 then Inl (NeedsRoot (bp_User pc)) else Inr (Some cred)))))"

text \<open>\<open>GiveFile\<close>: the owner the file gets, \<open>None\<close> when it keeps its own.\<close>

definition GiveFile :: "oslib \<Rightarrow> bool \<Rightarrow> string \<Rightarrow> BackendPlugin \<Rightarrow> (user_error, (nat \<times> nat) option) result" where
  "GiveFile sys chownOK file pc = (
     if bp_InsecureShareCoreUser pc then Inr None
     else ebind (lookupUser sys (bp_User pc)) (\<lambda>u.
       ebind (toCredential sys (bp_User pc) u) (\<lambda>cred.
       if \<not> chownOK then Inl (ChownFailed file) else Inr (Some (oc_Uid cred, oc_Gid cred)))))"

section \<open>What the checks establish\<close>

text \<open>
  The permission check of a Unix kernel for reading a file: the owner's, the group's or the
  others' bit decides, whichever class the process falls into first; root reads everything.
\<close>

definition unix_may_read :: "os_credential \<Rightarrow> file_info \<Rightarrow> bool" where
  "unix_may_read cred info = (case fi_sys info of
      None \<Rightarrow> True
    | Some (uid, gid) \<Rightarrow>
        oc_Uid cred = 0
        \<or> (if uid = oc_Uid cred then fi_perm info AND 0x100 \<noteq> 0
           else if gid = oc_Gid cred \<or> gid \<in> set (oc_Groups cred) then fi_perm info AND 0x20 \<noteq> 0
           else fi_perm info AND 0x04 \<noteq> 0))"

lemma readableBy_False:
  assumes "readableBy sys path cred = Inr False" and "oc_Uid cred \<noteq> 0"
  shows "\<exists>info. os_Stat sys path = Inr info \<and> \<not> unix_may_read cred info \<and> fst (the (fi_sys info)) \<noteq> oc_Uid cred"
  using assms by (auto simp: readableBy_def unix_may_read_def split: sum.splits option.splits if_splits)

definition separated :: "oslib \<Rightarrow> Config \<Rightarrow> os_credential \<Rightarrow> bool" where
  "separated sys cfg cred \<longleftrightarrow>
     (\<exists>info. os_Stat sys (cfg_Path cfg) = Inr info \<and> \<not> unix_may_read cred info \<and> fst (the (fi_sys info)) \<noteq> oc_Uid cred)
     \<and> (\<forall>info. os_Stat sys (cfg_DataDir cfg) = Inr info \<longrightarrow> map_option fst (fi_sys info) \<noteq> Some (oc_Uid cred))"

lemma checkSeparation_separated:
  assumes "checkSeparation sys cfg cred userName = Inr ()" and "oc_Uid cred \<noteq> 0"
  shows "separated sys cfg cred"
proof -
  have r: "readableBy sys (cfg_Path cfg) cred = Inr False" and o: "ownedBy sys (cfg_DataDir cfg) (oc_Uid cred) = Inr False"
    using assms(1) by (auto simp: checkSeparation_def split: if_splits)
  from o have "map_option fst (fi_sys info) \<noteq> Some (oc_Uid cred)" if "os_Stat sys (cfg_DataDir cfg) = Inr info" for info
    using that by (auto simp: ownedBy_def split: option.splits)
  with readableBy_False[OF r assms(2)] show ?thesis by (simp add: separated_def)
qed

lemma pluginCredential_Some:
  assumes "pluginCredential sys cfg pc = Inr (Some cred)"
  shows "os_Geteuid sys = 0" and "oc_Uid cred \<noteq> 0" and "separated sys cfg cred" and "\<not> bp_InsecureShareCoreUser pc"
proof -
  have e: "os_Geteuid sys = 0" and u: "int (oc_Uid cred) \<noteq> os_Geteuid sys" and c: "checkSeparation sys cfg cred (bp_User pc) = Inr ()"
    and "\<not> bp_InsecureShareCoreUser pc"
    using assms by (auto simp: pluginCredential_def split: if_splits)
  then show "os_Geteuid sys = 0" "\<not> bp_InsecureShareCoreUser pc" by simp_all
  from e u show nz: "oc_Uid cred \<noteq> 0" by simp
  from checkSeparation_separated[OF c nz] show "separated sys cfg cred" .
qed

lemma pluginCredential_None: "pluginCredential sys cfg pc = Inr None \<Longrightarrow> bp_InsecureShareCoreUser pc"
  by (auto simp: pluginCredential_def split: if_splits)

end
