(* ===== verification/Plugin_Host.thy ===== *)
theory Plugin_Host
  imports Plugin_Users Secrets
begin

text \<open>
  \<open>internal/pluginhost/host.go\<close>: the Plugin Host. It checks every Backend Plugin before anything
  is launched, supervises each in a goroutine that launches, watches, kills and relaunches it,
  and relays calls to the running ones. A supervisor is the step relation \<open>sup_step\<close>: one rule
  per critical section or wait of \<open>run\<close>, interleaved with the clock, cancellation and the
  plugin's own exit. The file system of a launch and what go-plugin reports of it are chosen
  anew at every launch.
\<close>

section \<open>State\<close>

definition StateStarting :: string where "StateStarting = ''starting''"
definition StateRunning :: string where "StateRunning = ''running''"
definition StateRestarting :: string where "StateRestarting = ''restarting''"
definition StateStopped :: string where "StateStopped = ''stopped''"
definition StateRefused :: string where "StateRefused = ''refused''"

definition minBackoff :: ns where "minBackoff = 250000000"
definition maxBackoff :: ns where "maxBackoff = 30000000000"
definition stableAfter :: ns where "stableAfter = 60000000000"

lemmas state_defs = StateStarting_def StateRunning_def StateRestarting_def StateStopped_def StateRefused_def

datatype launch_error =
    BinaryNotOpened string
  | BinaryNotRead string string
  | WrongHash string string string string
  | StartError client_error
  | NotFIPS string string

text \<open>The last error of a supervisor: none, a failed launch, or an exit nobody asked for.\<close>

datatype last_error = NoError | LaunchFailed launch_error | ExitedUnexpectedly

record supervised =
  sp_cfg :: BackendPlugin
  sp_cred :: "os_credential option"
  sp_client :: "Client option"
  sp_state :: string
  sp_restarts :: int
  sp_lastErr :: last_error

type_synonym Host = "supervised list"

text \<open>The server's process: SHA-256, its \<open>GODEBUG\<close> and its FIPS 140-3 mode.\<close>

record host_env =
  he_sha :: "bytes \<Rightarrow> bytes"
  he_GODEBUG :: string
  he_fips :: FIPS140

section \<open>Checking the configured plugins\<close>

text \<open>
  \<open>FileSHA256\<close> and \<open>openVerified\<close>. The open file is its bytes at that moment: that someone with write
  permission rewrites the file in place between its hash and its execution is not represented.
\<close>

definition FileSHA256 :: "(bytes \<Rightarrow> bytes) \<Rightarrow> oslib \<Rightarrow> string \<Rightarrow> string option" where
  "FileSHA256 sha sys path = (case os_Open sys path of Some (b, True) \<Rightarrow> Some (hex_encode (sha b)) | _ \<Rightarrow> None)"

definition openVerified :: "(bytes \<Rightarrow> bytes) \<Rightarrow> oslib \<Rightarrow> BackendPlugin \<Rightarrow> (launch_error, bytes) result" where
  "openVerified sha sys pc = (case os_Open sys (bp_Path pc) of
      None \<Rightarrow> Inl (BinaryNotOpened (bp_Name pc))
    | Some (b, readOK) \<Rightarrow>
        if \<not> readOK then Inl (BinaryNotRead (bp_Name pc) (bp_Path pc))
        else (let got = hex_encode (sha b) in
          if got \<noteq> bp_SHA256 pc then Inl (WrongHash (bp_Name pc) (bp_Path pc) got (bp_SHA256 pc))
          else Inr b))"

datatype host_error =
    BadBinary launch_error
  | BadUser string user_error
  | NotConfigured string
  | ErrNotRunning string
  | CallError string client_error
  | ErrReadOnly string
  | SecretError secret_error

definition new_supervised :: "host_env \<Rightarrow> oslib \<Rightarrow> Config \<Rightarrow> string \<times> BackendPlugin \<Rightarrow> (host_error, supervised) result" where
  "new_supervised E sys cfg np = (case np of (name, pc) \<Rightarrow>
     (case openVerified (he_sha E) sys pc of
        Inl e \<Rightarrow> Inl (BadBinary e)
      | Inr _ \<Rightarrow> (case pluginCredential sys cfg pc of
          Inl e \<Rightarrow> Inl (BadUser name e)
        | Inr cred \<Rightarrow> Inr \<lparr>sp_cfg = pc, sp_cred = cred, sp_client = None, sp_state = StateStarting, sp_restarts = 0, sp_lastErr = NoError\<rparr>)))"

definition Host_New :: "host_env \<Rightarrow> oslib \<Rightarrow> Config \<Rightarrow> (host_error, Host) result" where
  "Host_New E sys cfg = emap (new_supervised E sys cfg) (sort_key fst (cfg_BackendPlugins cfg))"

fun CheckConfig :: "oslib \<Rightarrow> Config \<Rightarrow> Host \<Rightarrow> (host_error, unit) result" where
  "CheckConfig sys cfg [] = Inr ()"
| "CheckConfig sys cfg (p # ps) = (case sp_cred p of
      None \<Rightarrow> CheckConfig sys cfg ps
    | Some cred \<Rightarrow> (case checkSeparation sys cfg cred (bp_User (sp_cfg p)) of
        Inl e \<Rightarrow> Inl (BadUser (bp_Name (sp_cfg p)) e)
      | Inr _ \<Rightarrow> CheckConfig sys cfg ps))"

section \<open>Launching\<close>

text \<open>\<open>verifiedCommand\<close> executes the open file, not what its path names by then.\<close>

definition verifiedCommand :: "host_env \<Rightarrow> bytes \<Rightarrow> supervised \<Rightarrow> command" where
  "verifiedCommand E f p = \<lparr>cmd_binary = f, cmd_arg0 = bp_Path (sp_cfg p), cmd_Dir = ''/'',
     cmd_Env = bp_Env (sp_cfg p) @ [''GODEBUG='' @ client_GODEBUG (he_GODEBUG E) (he_fips E)], cmd_cred = sp_cred p\<rparr>"

definition launch :: "host_env \<Rightarrow> oslib \<Rightarrow> launch_report \<Rightarrow> supervised \<Rightarrow> processes \<Rightarrow> (launch_error, Client) result \<times> processes" where
  "launch E sys L p ps = (case openVerified (he_sha E) sys (sp_cfg p) of
      Inl e \<Rightarrow> (Inl e, ps)
    | Inr f \<Rightarrow> (case Client_Start (verifiedCommand E f p) L ps of
        (Inl e, ps') \<Rightarrow> (Inl (StartError e), ps')
      | (Inr c, ps') \<Rightarrow>
          if \<not> FIPS140_Covers (cl_fips c) (he_fips E)
          then (Inl (NotFIPS (FIPS140_Mode (cl_fips c)) (FIPS140_Mode (he_fips E))), Client_Kill (cl_process c) ps')
          else (Inr c, ps')))"

definition setState :: "string \<Rightarrow> last_error \<Rightarrow> supervised \<Rightarrow> supervised" where
  "setState st e p = p\<lparr>sp_state := st, sp_lastErr := e\<rparr>"

section \<open>The supervisor\<close>

text \<open>
  Where the goroutine is: at the loop's condition, before \<open>launch\<close>, in \<open>waitExit\<close>, before
  \<open>Kill\<close>, after it, in the final \<open>select\<close> with the time it began, or returned. The numbers are
  \<open>attempt\<close>, \<open>backoff\<close> and \<open>started\<close>. \<open>su_launches\<close> records when every launch began.
\<close>

datatype run_at =
    AtLoop nat ns
  | AtLaunch nat ns
  | Watching nat ns ns Client
  | ToKill nat ns ns Client bool
  | ToClear nat ns ns Client bool
  | Pausing nat ns ns
  | Returned

record sup =
  su_p :: supervised
  su_at :: run_at
  su_ps :: processes
  su_now :: ns
  su_cancelled :: bool
  su_launches :: "ns list"

definition sup_start :: "supervised \<Rightarrow> ns \<Rightarrow> sup" where
  "sup_start p now = \<lparr>su_p = p, su_at = AtLoop 0 minBackoff, su_ps = \<lparr>ps_next = 0, ps_running = [], ps_started = []\<rparr>,
     su_now = now, su_cancelled = False, su_launches = []\<rparr>"

text \<open>Returning from \<open>run\<close>, with its deferred function.\<close>

definition run_return :: "sup \<Rightarrow> sup" where
  "run_return s = s\<lparr>su_at := Returned,
     su_p := (if sp_state (su_p s) \<noteq> StateRefused then setState StateStopped NoError (su_p s) else su_p s)\<rparr>"

text \<open>The end of an attempt: a plugin that ran long enough starts again at the shortest backoff.\<close>

definition run_pause :: "nat \<Rightarrow> ns \<Rightarrow> ns \<Rightarrow> sup \<Rightarrow> sup" where
  "run_pause attempt backoff started s =
     s\<lparr>su_at := Pausing attempt (if stableAfter \<le> su_now s - started then minBackoff else backoff) (su_now s)\<rparr>"

definition begin_attempt :: "nat \<Rightarrow> supervised \<Rightarrow> supervised" where
  "begin_attempt attempt p = (if 0 < attempt then p\<lparr>sp_restarts := sp_restarts p + 1, sp_state := StateStarting\<rparr> else p)"

definition launched :: "nat \<Rightarrow> ns \<Rightarrow> ns \<Rightarrow> (launch_error, Client) result \<Rightarrow> sup \<Rightarrow> sup" where
  "launched attempt backoff started r s = (case r of
      Inr c \<Rightarrow> s\<lparr>su_p := (su_p s)\<lparr>sp_client := Some c, sp_state := StateRunning, sp_lastErr := NoError\<rparr>, su_at := Watching attempt backoff started c\<rparr>
    | Inl (NotFIPS m h) \<Rightarrow> run_return (s\<lparr>su_p := setState StateRefused (LaunchFailed (NotFIPS m h)) (su_p s)\<rparr>)
    | Inl e \<Rightarrow> run_pause attempt backoff started (s\<lparr>su_p := setState StateRestarting (LaunchFailed e) (su_p s)\<rparr>))"

definition cleared :: "nat \<Rightarrow> ns \<Rightarrow> ns \<Rightarrow> bool \<Rightarrow> sup \<Rightarrow> sup" where
  "cleared attempt backoff started exited s = (
     let s = s\<lparr>su_p := (su_p s)\<lparr>sp_client := None\<rparr>\<rparr> in
     if \<not> exited then run_return s
     else run_pause attempt backoff started (s\<lparr>su_p := setState StateRestarting ExitedUnexpectedly (su_p s)\<rparr>))"

inductive sup_step :: "host_env \<Rightarrow> by_whom \<Rightarrow> sup \<Rightarrow> sup \<Rightarrow> bool" for E where
  Clock: "0 \<le> d \<Longrightarrow> sup_step E World s (s\<lparr>su_now := su_now s + d\<rparr>)"
| Cancel: "sup_step E World s (s\<lparr>su_cancelled := True\<rparr>)"
| Exit: "sup_step E World s (s\<lparr>su_ps := Client_Kill i (su_ps s)\<rparr>)"
| Loop_ends: "su_at s = AtLoop attempt backoff \<Longrightarrow> su_cancelled s \<Longrightarrow> sup_step E Own s (run_return s)"
| Loop: "su_at s = AtLoop attempt backoff \<Longrightarrow> \<not> su_cancelled s
    \<Longrightarrow> sup_step E Own s (s\<lparr>su_p := begin_attempt attempt (su_p s), su_at := AtLaunch attempt backoff\<rparr>)"
| Launch: "su_at s = AtLaunch attempt backoff \<Longrightarrow> 0 \<le> d \<Longrightarrow> launch E sys L (su_p s) (su_ps s) = (r, ps)
    \<Longrightarrow> sup_step E Own s (launched attempt backoff (su_now s) r
          (s\<lparr>su_ps := ps, su_now := su_now s + d, su_launches := su_now s # su_launches s\<rparr>))"
| Watch_cancelled: "su_at s = Watching attempt backoff started c \<Longrightarrow> su_cancelled s
    \<Longrightarrow> sup_step E Own s (s\<lparr>su_at := ToKill attempt backoff started c False\<rparr>)"
| Watch_exited: "su_at s = Watching attempt backoff started c \<Longrightarrow> Client_Exited (cl_process c) (su_ps s)
    \<Longrightarrow> sup_step E Own s (s\<lparr>su_at := ToKill attempt backoff started c True\<rparr>)"
| Kill: "su_at s = ToKill attempt backoff started c exited
    \<Longrightarrow> sup_step E Own s (s\<lparr>su_ps := Client_Kill (cl_process c) (su_ps s), su_at := ToClear attempt backoff started c exited\<rparr>)"
| Clear: "su_at s = ToClear attempt backoff started c exited
    \<Longrightarrow> sup_step E Own s (cleared attempt backoff started exited s)"
| Pause_cancelled: "su_at s = Pausing attempt backoff since \<Longrightarrow> su_cancelled s \<Longrightarrow> sup_step E Own s (run_return s)"
| Pause_over: "su_at s = Pausing attempt backoff since \<Longrightarrow> since + backoff \<le> su_now s
    \<Longrightarrow> sup_step E Own s (s\<lparr>su_at := AtLoop (attempt + 1) (min (backoff * 2) maxBackoff)\<rparr>)"

text \<open>The states a supervisor goes through from the start of \<open>run\<close>.\<close>

inductive sup_reachable :: "host_env \<Rightarrow> supervised \<Rightarrow> sup \<Rightarrow> bool" for E p where
  Start: "sup_reachable E p (sup_start p now)"
| Step: "sup_reachable E p s \<Longrightarrow> sup_step E w s s' \<Longrightarrow> sup_reachable E p s'"

section \<open>Calls\<close>

definition Host_running :: "Host \<Rightarrow> string \<Rightarrow> (host_error, Client) result" where
  "Host_running h name = (case find (\<lambda>p. bp_Name (sp_cfg p) = name) h of
      None \<Rightarrow> Inl (NotConfigured name)
    | Some p \<Rightarrow> (case sp_client p of None \<Rightarrow> Inl (ErrNotRunning name) | Some c \<Rightarrow> Inr c))"

text \<open>
  \<open>Get\<close>: \<open>R\<close> is what answers each client, \<open>allocOK\<close> whether locked memory is to be had; the
  last component is what the response's buffer holds afterwards.
\<close>

definition Host_Get :: "(Client \<Rightarrow> 's rpc) \<Rightarrow> bool \<Rightarrow> Host \<Rightarrow> string \<Rightarrow> string \<Rightarrow> 's \<Rightarrow> heap \<Rightarrow> (host_error, Secret) result \<times> 's \<times> heap \<times> bytes" where
  "Host_Get R allocOK h name loc s hp = (case Host_running h name of
      Inl e \<Rightarrow> (Inl e, s, hp, [])
    | Inr c \<Rightarrow> (case Client_Get (R c) loc s of
        (Inl e, s', buf) \<Rightarrow> (Inl (CallError name e), s', hp, buf)
      | (Inr v, s', _) \<Rightarrow> (case secret_New allocOK v hp of
          (Inl e, hp', buf) \<Rightarrow> (Inl (SecretError e), s', hp', buf)
        | (Inr sec, hp', buf) \<Rightarrow> (Inr sec, s', hp', buf))))"

definition CanWriteCourierKeys :: "Host \<Rightarrow> string \<Rightarrow> (host_error, unit) result" where
  "CanWriteCourierKeys h name = ebind (Host_running h name) (\<lambda>c.
     if \<not> caps_CourierKeyWrite (cl_caps c) then Inl (ErrReadOnly name) else Inr ())"

definition Host_WriteCourierKey :: "(Client \<Rightarrow> 's rpc) \<Rightarrow> Host \<Rightarrow> string \<Rightarrow> string \<Rightarrow> bytes \<Rightarrow> 's \<Rightarrow> (host_error, unit) result \<times> 's" where
  "Host_WriteCourierKey R h name loc v s = (case Host_running h name of
      Inl e \<Rightarrow> (Inl e, s)
    | Inr c \<Rightarrow>
        if \<not> caps_CourierKeyWrite (cl_caps c) then (Inl (ErrReadOnly name), s)
        else (case Client_WriteCourierKey (R c) (cl_caps c) loc v s of
          (Inl e, s') \<Rightarrow> (Inl (CallError name e), s')
        | (Inr _, s') \<Rightarrow> (Inr (), s')))"

datatype detail = LastError last_error | HealthError client_error | HealthDetail string

record Status =
  st_Name :: string
  st_State :: string
  st_PID :: int
  st_Healthy :: bool
  st_Detail :: detail
  st_Capabilities :: "string list"
  st_FIPS140 :: string
  st_Restarts :: int

text \<open>\<open>status\<close>; \<open>PID\<close> is the operating system's number of a process.\<close>

definition supervised_status :: "(Client \<Rightarrow> 's rpc) \<Rightarrow> (nat \<Rightarrow> int) \<Rightarrow> supervised \<Rightarrow> 's \<Rightarrow> Status \<times> 's" where
  "supervised_status R PID p s = (
     let st = \<lparr>st_Name = bp_Name (sp_cfg p), st_State = sp_state p, st_PID = 0, st_Healthy = False, st_Detail = LastError (sp_lastErr p),
               st_Capabilities = [], st_FIPS140 = [], st_Restarts = sp_restarts p\<rparr>
     in case sp_client p of
          None \<Rightarrow> (st, s)
        | Some c \<Rightarrow>
            (let st = st\<lparr>st_PID := PID (cl_process c), st_Capabilities := Capabilities_Names (cl_caps c), st_FIPS140 := FIPS140_Mode (cl_fips c)\<rparr>
             in case Client_Health (R c) s of
                  (Inl e, s') \<Rightarrow> (st\<lparr>st_Detail := HealthError e\<rparr>, s')
                | (Inr d, s') \<Rightarrow> (st\<lparr>st_Healthy := True, st_Detail := HealthDetail d\<rparr>, s')))"

text \<open>\<open>Status\<close> of every plugin, each at its own state of the world.\<close>

definition Host_Status :: "(Client \<Rightarrow> 's rpc) \<Rightarrow> (nat \<Rightarrow> int) \<Rightarrow> (string \<Rightarrow> 's) \<Rightarrow> Host \<Rightarrow> Status list" where
  "Host_Status R PID S h = map (\<lambda>p. fst (supervised_status R PID p (S (bp_Name (sp_cfg p))))) h"

text \<open>\<open>sanitizingWriter\<close>, over what \<open>strings.Map\<close> does.\<close>

definition sanitize_line :: "bytes \<Rightarrow> bytes" where
  "sanitize_line b = (
     let newline = hasSuffix b [CHR 0x0A];
         body = trimSuffix b [CHR 0x0A];
         clean = concat (map (\<lambda>(r, _). encode_rune (if r = rune_error \<or> (isControl r \<and> r \<noteq> 9) then 63 else r)) (runes body))
     in if newline then clean @ [CHR 0x0A] else clean)"

end
