(* ===== verification/Plugin_Supervision.thy ===== *)
theory Plugin_Supervision
  imports Plugin_Host
begin

text \<open>
  The invariant of a plugin's supervisor and what follows from it: only the pinned binary runs,
  under the plugin's own user and in the server's FIPS 140-3 mode, one process at a time,
  relaunched at a bounded pace; and \<open>run\<close> returns once its context is done.
\<close>

section \<open>Launches\<close>

definition pinned :: "host_env \<Rightarrow> supervised \<Rightarrow> command \<Rightarrow> bool" where
  "pinned E p c \<longleftrightarrow> hex_encode (he_sha E (cmd_binary c)) = bp_SHA256 (sp_cfg p) \<and> c = verifiedCommand E (cmd_binary c) p"

lemma pinnedD:
  assumes "pinned E p c"
  shows "hex_encode (he_sha E (cmd_binary c)) = bp_SHA256 (sp_cfg p) \<and> cmd_cred c = sp_cred p \<and> cmd_Dir c = ''/''
    \<and> cmd_Env c = bp_Env (sp_cfg p) @ [''GODEBUG='' @ client_GODEBUG (he_GODEBUG E) (he_fips E)]"
proof -
  have c: "c = verifiedCommand E (cmd_binary c) p" using assms by (simp add: pinned_def)
  have "cmd_cred c = sp_cred p" "cmd_Dir c = ''/''"
      "cmd_Env c = bp_Env (sp_cfg p) @ [''GODEBUG='' @ client_GODEBUG (he_GODEBUG E) (he_fips E)]"
    by (subst c, simp add: verifiedCommand_def)+
  then show ?thesis using assms by (simp add: pinned_def)
qed

lemma openVerified_Inr: "openVerified sha sys pc = Inr b \<Longrightarrow> hex_encode (sha b) = bp_SHA256 pc"
  by (auto simp: openVerified_def Let_def split: option.splits if_splits)

lemma verifiedCommand_binary [simp]: "cmd_binary (verifiedCommand E f p) = f"
  by (simp add: verifiedCommand_def)

lemma Client_Kill_simps [simp]:
  "ps_started (Client_Kill i ps) = ps_started ps" "ps_next (Client_Kill i ps) = ps_next ps"
  "fst ` set (ps_running (Client_Kill i ps)) = fst ` set (ps_running ps) - {i}"
  by (auto simp: Client_Kill_def)

lemma Client_Kill_distinct: "distinct (map fst (ps_running ps)) \<Longrightarrow> distinct (map fst (ps_running (Client_Kill i ps)))"
  by (simp add: Client_Kill_def distinct_map_filter)

lemma dispense_process: "dispense L i = Inr c \<Longrightarrow> cl_process c = i"
  using dispense_safe[where L = L and i = i] by simp

text \<open>
  A launch starts at most one command, a pinned one. It leaves a process running exactly when
  it returns its client.
\<close>

lemma launch_result:
  assumes "launch E sys L p ps = (r, ps')" and "fst ` set (ps_running ps) = {}"
  shows "(\<forall>c\<in>set (ps_started ps'). c \<in> set (ps_started ps) \<or> pinned E p c)
    \<and> (case r of Inl _ \<Rightarrow> ps_running ps' = []
        | Inr c \<Rightarrow> fst ` set (ps_running ps') = {cl_process c} \<and> distinct (map fst (ps_running ps')) \<and> FIPS140_Covers (cl_fips c) (he_fips E))"
proof (cases "openVerified (he_sha E) sys (sp_cfg p)")
  case (Inl e)
  with assms show ?thesis by (auto simp: launch_def)
next
  case (Inr f)
  let ?cmd = "verifiedCommand E f p"
  have pin: "pinned E p ?cmd" using openVerified_Inr[OF Inr] by (simp add: pinned_def)
  have e: "ps_running ps = []" using assms(2) by simp
  show ?thesis
  proof (cases "dispense L (ps_next ps)")
    case (Inl e')
    with assms(1) Inr e pin show ?thesis by (auto simp: launch_def Client_Start_def exec_Start_def Client_Kill_def)
  next
    case (Inr c)
    note d = dispense_process[OF Inr]
    show ?thesis
    proof (cases "FIPS140_Covers (cl_fips c) (he_fips E)")
      case True
      then have "r = Inr c \<and> ps' = snd (exec_Start ?cmd ps)"
        using assms(1) Inr \<open>openVerified _ _ _ = Inr f\<close> by (auto simp: launch_def Client_Start_def exec_Start_def)
      with True e d pin show ?thesis by (auto simp: exec_Start_def)
    next
      case False
      then have "isl r \<and> ps' = Client_Kill (ps_next ps) (snd (exec_Start ?cmd ps))"
        using assms(1) Inr d \<open>openVerified _ _ _ = Inr f\<close> by (auto simp: launch_def Client_Start_def exec_Start_def)
      with e pin show ?thesis by (auto simp: exec_Start_def Client_Kill_def isl_def)
    qed
  qed
qed

section \<open>The invariant\<close>

fun client_at :: "run_at \<Rightarrow> Client option" where
  "client_at (Watching a b t c) = Some c"
| "client_at (ToKill a b t c x) = Some c"
| "client_at (ToClear a b t c x) = Some c"
| "client_at _ = None"

fun process_at :: "run_at \<Rightarrow> nat set" where
  "process_at (Watching a b t c) = {cl_process c}"
| "process_at (ToKill a b t c x) = {cl_process c}"
| "process_at _ = {}"

fun backoff_at :: "run_at \<Rightarrow> ns option" where
  "backoff_at (AtLoop a b) = Some b"
| "backoff_at (AtLaunch a b) = Some b"
| "backoff_at (Watching a b t c) = Some b"
| "backoff_at (ToKill a b t c x) = Some b"
| "backoff_at (ToClear a b t c x) = Some b"
| "backoff_at (Pausing a b t) = Some b"
| "backoff_at Returned = None"

text \<open>How the launches so far, newest first, relate to where the goroutine is and the time.\<close>

fun paced_at :: "ns list \<Rightarrow> ns \<Rightarrow> run_at \<Rightarrow> bool" where
  "paced_at ts now (AtLoop a b) = (length ts = a \<and> (ts \<noteq> [] \<longrightarrow> hd ts + minBackoff \<le> now))"
| "paced_at ts now (AtLaunch a b) = (length ts = a \<and> (ts \<noteq> [] \<longrightarrow> hd ts + minBackoff \<le> now))"
| "paced_at ts now (Watching a b t c) = (length ts = a + 1 \<and> hd ts = t \<and> t \<le> now)"
| "paced_at ts now (ToKill a b t c x) = (length ts = a + 1 \<and> hd ts = t \<and> t \<le> now)"
| "paced_at ts now (ToClear a b t c x) = (length ts = a + 1 \<and> hd ts = t \<and> t \<le> now)"
| "paced_at ts now (Pausing a b since) = (length ts = a + 1 \<and> hd ts \<le> since \<and> since \<le> now)"
| "paced_at ts now Returned = True"

fun restarts_at :: "ns list \<Rightarrow> int \<Rightarrow> run_at \<Rightarrow> bool" where
  "restarts_at ts n (AtLaunch a b) = (n = int a)"
| "restarts_at ts n _ = (n = int (length ts - 1))"

definition sup_inv :: "host_env \<Rightarrow> supervised \<Rightarrow> sup \<Rightarrow> bool" where
  "sup_inv E p s \<longleftrightarrow>
     sp_cfg (su_p s) = sp_cfg p \<and> sp_cred (su_p s) = sp_cred p
     \<and> (\<forall>c\<in>set (ps_started (su_ps s)). pinned E p c)
     \<and> sp_client (su_p s) = client_at (su_at s)
     \<and> (\<forall>c. client_at (su_at s) = Some c \<longrightarrow> FIPS140_Covers (cl_fips c) (he_fips E) \<and> sp_state (su_p s) = StateRunning)
     \<and> fst ` set (ps_running (su_ps s)) \<subseteq> process_at (su_at s) \<and> distinct (map fst (ps_running (su_ps s)))
     \<and> (\<forall>b. backoff_at (su_at s) = Some b \<longrightarrow> minBackoff \<le> b \<and> b \<le> maxBackoff \<and> sp_state (su_p s) \<noteq> StateRefused)
     \<and> (su_at s = Returned \<longrightarrow> sp_state (su_p s) \<in> {StateStopped, StateRefused})
     \<and> paced_at (su_launches s) (su_now s) (su_at s)
     \<and> successively (\<lambda>new old. old + minBackoff \<le> new) (su_launches s)
     \<and> restarts_at (su_launches s) (sp_restarts (su_p s)) (su_at s)"

lemma sup_invD:
  assumes "sup_inv E p s"
  shows "\<And>c. c \<in> set (ps_started (su_ps s)) \<Longrightarrow> pinned E p c"
    and "sp_client (su_p s) = client_at (su_at s)"
    and "\<And>c. sp_client (su_p s) = Some c \<Longrightarrow> FIPS140_Covers (cl_fips c) (he_fips E)"
    and "fst ` set (ps_running (su_ps s)) \<subseteq> process_at (su_at s)" and "distinct (map fst (ps_running (su_ps s)))"
    and "sp_state (su_p s) = StateRefused \<Longrightarrow> su_at s = Returned"
    and "su_at s = Returned \<Longrightarrow> sp_state (su_p s) \<in> {StateStopped, StateRefused} \<and> ps_running (su_ps s) = [] \<and> sp_client (su_p s) = None"
    and "successively (\<lambda>new old. old + minBackoff \<le> new) (su_launches s)"
  using assms by (cases "su_at s"; simp add: sup_inv_def)+

definition fresh :: "supervised \<Rightarrow> bool" where
  "fresh p \<longleftrightarrow> sp_client p = None \<and> sp_state p = StateStarting \<and> sp_restarts p = 0"

lemma pinned_cong: "sp_cfg q = sp_cfg p \<Longrightarrow> sp_cred q = sp_cred p \<Longrightarrow> pinned E q c = pinned E p c"
  by (simp add: pinned_def verifiedCommand_def)

lemma sup_start_inv: "fresh p \<Longrightarrow> sup_inv E p (sup_start p now)"
  by (simp add: sup_inv_def sup_start_def fresh_def state_defs minBackoff_def maxBackoff_def)

lemma paced_later: "paced_at ts now x \<Longrightarrow> now \<le> now' \<Longrightarrow> paced_at ts now' x"
  by (cases x) auto

lemma run_return_inv:
  assumes "sup_inv E p s" and "client_at (su_at s) = None" and "su_at s \<noteq> Returned" and "\<And>a b. su_at s \<noteq> AtLaunch a b"
  shows "sup_inv E p (run_return s)"
  using assms by (cases "su_at s") (auto simp: sup_inv_def run_return_def setState_def state_defs)

lemma launched_inv:
  assumes "sup_inv E p s" and "su_at s = AtLaunch a b" and "0 \<le> d" and "launch E sys L (su_p s) (su_ps s) = (r, ps)"
  shows "sup_inv E p (launched a b (su_now s) r (s\<lparr>su_ps := ps, su_now := su_now s + d, su_launches := su_now s # su_launches s\<rparr>))"
proof -
  have i: "sp_cfg (su_p s) = sp_cfg p" "sp_cred (su_p s) = sp_cred p" "\<forall>c\<in>set (ps_started (su_ps s)). pinned E p c"
      "sp_client (su_p s) = None" "fst ` set (ps_running (su_ps s)) = {}" "minBackoff \<le> b" "b \<le> maxBackoff"
      "length (su_launches s) = a" "su_launches s \<noteq> [] \<Longrightarrow> hd (su_launches s) + minBackoff \<le> su_now s"
      "successively (\<lambda>new old. old + minBackoff \<le> new) (su_launches s)" "sp_restarts (su_p s) = int a" "sp_state (su_p s) \<noteq> StateRefused"
    using assms(1,2) by (auto simp: sup_inv_def)
  have l: "\<forall>c\<in>set (ps_started ps). pinned E p c"
      "case r of Inl _ \<Rightarrow> ps_running ps = [] | Inr c \<Rightarrow> fst ` set (ps_running ps) = {cl_process c} \<and> distinct (map fst (ps_running ps)) \<and> FIPS140_Covers (cl_fips c) (he_fips E)"
    using launch_result[OF assms(4) i(5)] i(1-3) pinned_cong[of "su_p s" p] by auto
  have g: "successively (\<lambda>new old. old + minBackoff \<le> new) (su_now s # su_launches s)"
    using i(9,10) by (cases "su_launches s") auto
  have "sup_inv E p (launched a b (su_now s) (Inr c) (s\<lparr>su_ps := ps, su_now := su_now s + d, su_launches := su_now s # su_launches s\<rparr>))" if "r = Inr c" for c
    using i l g that assms(3) by (simp add: sup_inv_def launched_def state_defs)
  moreover have "sup_inv E p (launched a b (su_now s) (Inl e) (s\<lparr>su_ps := ps, su_now := su_now s + d, su_launches := su_now s # su_launches s\<rparr>))" if "r = Inl e" for e
    using i l g that assms(3)
    by (cases e) (simp_all add: sup_inv_def launched_def run_return_def run_pause_def setState_def state_defs minBackoff_def maxBackoff_def)
  ultimately show ?thesis by (cases r) blast+
qed

lemma cleared_inv:
  assumes "sup_inv E p s" and "su_at s = ToClear a b t c x"
  shows "sup_inv E p (cleared a b t x s)"
  using assms by (cases x) (auto simp: sup_inv_def cleared_def Let_def run_return_def run_pause_def setState_def state_defs minBackoff_def maxBackoff_def)

lemma world_inv: "sup_inv E p s \<Longrightarrow> 0 \<le> d \<Longrightarrow> sup_inv E p (s\<lparr>su_now := su_now s + d\<rparr>)"
  "sup_inv E p s \<Longrightarrow> sup_inv E p (s\<lparr>su_cancelled := True\<rparr>)"
  "sup_inv E p s \<Longrightarrow> sup_inv E p (s\<lparr>su_ps := Client_Kill i (su_ps s)\<rparr>)"
  by (auto simp: sup_inv_def Client_Kill_distinct intro: paced_later)

lemma sup_step_inv:
  assumes "sup_step E w s s'" and "sup_inv E p s"
  shows "sup_inv E p s'"
  using assms
proof (cases rule: sup_step.cases)
  case (Loop a b)
  with assms(2) show ?thesis by (cases a) (auto simp: sup_inv_def begin_attempt_def state_defs)
next
  case (Launch a b d sys L r ps)
  with launched_inv[OF assms(2)] show ?thesis by blast
next
  case (Kill a b t c x)
  with assms(2) show ?thesis by (auto simp: sup_inv_def Client_Kill_distinct)
next
  case (Clear a b t c x)
  with cleared_inv[OF assms(2)] show ?thesis by blast
next
  case (Pause_over a b since)
  with assms(2) show ?thesis by (auto simp: sup_inv_def minBackoff_def maxBackoff_def)
next
  case (Watch_cancelled a b t c)
  with assms(2) show ?thesis by (simp add: sup_inv_def state_defs)
next
  case (Watch_exited a b t c)
  with assms(2) show ?thesis by (simp add: sup_inv_def state_defs)
qed (use assms(2) in \<open>simp_all add: world_inv run_return_inv\<close>)

lemma sup_reachable_inv: "sup_reachable E p s \<Longrightarrow> fresh p \<Longrightarrow> sup_inv E p s"
  by (induction rule: sup_reachable.induct) (auto intro: sup_start_inv sup_step_inv)

section \<open>Returning\<close>

inductive_cases own_stepE: "sup_step E Own s s'"
inductive_cases world_stepE: "sup_step E World s s'"

text \<open>How many of its own steps \<open>run\<close> takes at most once its context is done.\<close>

fun steps_left :: "run_at \<Rightarrow> nat" where
  "steps_left Returned = 0"
| "steps_left (AtLoop a b) = 1"
| "steps_left (Pausing a b t) = 2"
| "steps_left (ToClear a b t c x) = 3"
| "steps_left (ToKill a b t c x) = 4"
| "steps_left (Watching a b t c) = 5"
| "steps_left (AtLaunch a b) = 6"

lemma steps_left_pos: "0 < steps_left x \<longleftrightarrow> x \<noteq> Returned"
  by (cases x) auto

lemma cancelled_stays: "sup_step E w s s' \<Longrightarrow> su_cancelled s \<Longrightarrow> su_cancelled s'"
  by (induction rule: sup_step.induct)
    (auto simp: run_return_def launched_def cleared_def run_pause_def Let_def split: sum.splits launch_error.splits)

lemma run_return_at [simp]: "su_at (run_return s) = Returned"
  by (simp add: run_return_def)

lemma run_pause_at [simp]: "steps_left (su_at (run_pause a b t s)) = 2"
  by (simp add: run_pause_def)

lemma launched_left: "steps_left (su_at (launched a b t r s)) < 6"
  by (auto simp: launched_def split: sum.splits launch_error.splits)

lemma own_step_decreases: "sup_step E Own s s' \<Longrightarrow> su_cancelled s \<Longrightarrow> steps_left (su_at s') < steps_left (su_at s)"
  by (erule own_stepE) (auto simp: cleared_def Let_def launched_left)

lemma world_step_at: "sup_step E World s s' \<Longrightarrow> su_at s' = su_at s"
  by (erule world_stepE) auto

lemma own_step_enabled:
  assumes "su_cancelled s" and "su_at s \<noteq> Returned"
  shows "\<exists>s'. sup_step E Own s s'"
proof (cases "su_at s")
  case (AtLaunch a b)
  obtain sys :: oslib where True by simp
  obtain L :: launch_report where True by simp
  obtain r ps where "launch E sys L (su_p s) (su_ps s) = (r, ps)" by (cases "launch E sys L (su_p s) (su_ps s)")
  from sup_step.Launch[OF AtLaunch order.refl this] show ?thesis by blast
qed (use assms in \<open>blast intro: sup_step.intros\<close>)+

interpretation supervisor: goroutine "sup_step E" su_cancelled "\<lambda>s. steps_left (su_at s)" for E
  using own_step_decreases world_step_at cancelled_stays own_step_enabled by unfold_locales (auto simp: steps_left_pos)

lemma sup_run_reachable: "runs (sup_step E) s n t \<Longrightarrow> sup_reachable E p s \<Longrightarrow> sup_reachable E p t"
  by (induction rule: runs.induct) (auto intro: sup_reachable.Step)

lemma own_step_Returned: "sup_step E Own s t \<Longrightarrow> su_at s \<noteq> Returned"
  by (erule own_stepE) auto

lemma Returned_stays:
  assumes "runs (sup_step E) s n t" and "su_at s = Returned"
  shows "n = 0 \<and> su_at t = Returned \<and> su_p t = su_p s \<and> ps_started (su_ps t) = ps_started (su_ps s)"
  using assms by (induction rule: runs.induct) (auto dest: own_step_Returned elim: world_stepE)

section \<open>The Plugin Host\<close>

lemma Host_New_member:
  assumes "Host_New E sys cfg = Inr h" and "p \<in> set h"
  shows "\<exists>name pc. (name, pc) \<in> set (cfg_BackendPlugins cfg) \<and> new_supervised E sys cfg (name, pc) = Inr p"
  using emap_Inr_set[OF assms(1)[unfolded Host_New_def] assms(2)] by force

lemma new_supervised_fresh: "new_supervised E sys cfg np = Inr p \<Longrightarrow> fresh p"
  by (auto simp: new_supervised_def fresh_def split: prod.splits sum.splits)

lemma Host_New_fresh: "Host_New E sys cfg = Inr h \<Longrightarrow> p \<in> set h \<Longrightarrow> fresh p"
  using Host_New_member new_supervised_fresh by blast

lemmas host_inv = sup_reachable_inv[OF _ Host_New_fresh]

lemma running_le_one:
  assumes "fst ` set xs \<subseteq> {i}" and "distinct (map fst xs)"
  shows "length xs \<le> 1"
proof -
  have "length xs = card (fst ` set xs)" using assms(2) by (metis distinct_card length_map set_map)
  also have "\<dots> \<le> card {i}" using assms(1) by (intro card_mono) simp_all
  finally show ?thesis by simp
qed

text \<open>
  C15: whatever happens to a plugin's binary, its process and the clock, the Plugin Host only
  ever executes bytes with the SHA-256 the config pins, as the plugin's OS user, in the root
  directory and with the configured environment and the server's FIPS 140-3 mode; at most one
  process of a plugin runs, none once its supervisor has returned; and launches are at least
  250 ms apart.
\<close>

theorem only_pinned_plugins_run:
  assumes "Host_New E sys cfg = Inr h" and "p \<in> set h" and "sup_reachable E p s"
  shows "(\<forall>c\<in>set (ps_started (su_ps s)). hex_encode (he_sha E (cmd_binary c)) = bp_SHA256 (sp_cfg p) \<and> cmd_cred c = sp_cred p
        \<and> cmd_Dir c = ''/'' \<and> cmd_Env c = bp_Env (sp_cfg p) @ [''GODEBUG='' @ client_GODEBUG (he_GODEBUG E) (he_fips E)])
    \<and> length (ps_running (su_ps s)) \<le> 1 \<and> (su_at s = Returned \<longrightarrow> ps_running (su_ps s) = [] \<and> sp_client (su_p s) = None)
    \<and> successively (\<lambda>new old. old + minBackoff \<le> new) (su_launches s)"
proof -
  note i = sup_invD[OF host_inv[OF assms(3,1,2)]]
  have "\<exists>i. process_at (su_at s) \<subseteq> {i}" by (cases "su_at s") auto
  then obtain i where "fst ` set (ps_running (su_ps s)) \<subseteq> {i}" using i(4) by (meson subset_trans)
  from running_le_one[OF this i(5)] have "length (ps_running (su_ps s)) \<le> 1" .
  with pinnedD[OF i(1)] i(7,8) show ?thesis by simp
qed

text \<open>
  A plugin outside the server's FIPS 140-3 mode never serves. Every client a caller can be
  handed covers the server's mode; once a plugin is refused, its supervisor takes no further
  step, nothing of it runs and nothing is started again.
\<close>

theorem fips_boundary:
  assumes "Host_New E sys cfg = Inr h" and "p \<in> set h" and "sup_reachable E p s"
  shows "(\<forall>c. sp_client (su_p s) = Some c \<longrightarrow> FIPS140_Covers (cl_fips c) (he_fips E))
    \<and> (\<forall>n t. sp_state (su_p s) = StateRefused \<longrightarrow> runs (sup_step E) s n t \<longrightarrow>
         n = 0 \<and> su_p t = su_p s \<and> ps_started (su_ps t) = ps_started (su_ps s) \<and> ps_running (su_ps t) = [])"
proof -
  note i = sup_invD[OF host_inv[OF assms(3,1,2)]]
  have "n = 0 \<and> su_p t = su_p s \<and> ps_started (su_ps t) = ps_started (su_ps s) \<and> ps_running (su_ps t) = []"
    if "sp_state (su_p s) = StateRefused" "runs (sup_step E) s n t" for n t
    using Returned_stays[OF that(2) i(6)[OF that(1)]] sup_invD(7)[OF host_inv[OF sup_run_reachable[OF that(2) assms(3)] assms(1,2)]] by simp
  with i(3) show ?thesis by blast
qed

text \<open>
  C16: once its context is done, a supervisor returns. However its steps interleave with the
  clock and the plugin's exit it takes at most six more of its own, some run reaches the end,
  and when no step is left it has returned with the plugin stopped or refused, no process
  running and no client handed out.
\<close>

theorem supervisor_returns:
  assumes "Host_New E sys cfg = Inr h" and "p \<in> set h" and "sup_reachable E p s" and "su_cancelled s"
  shows "(\<exists>n t. runs (sup_step E) s n t \<and> su_at t = Returned)
    \<and> (\<forall>n t. runs (sup_step E) s n t \<longrightarrow> n \<le> 6 \<and> ((\<nexists>u. sup_step E Own t u) \<longrightarrow>
         sp_state (su_p t) \<in> {StateStopped, StateRefused} \<and> ps_running (su_ps t) = [] \<and> sp_client (su_p t) = None))"
proof -
  have "n \<le> 6 \<and> ((\<nexists>u. sup_step E Own t u) \<longrightarrow>
         sp_state (su_p t) \<in> {StateStopped, StateRefused} \<and> ps_running (su_ps t) = [] \<and> sp_client (su_p t) = None)"
    if r: "runs (sup_step E) s n t" for n t
  proof -
    have "steps_left (su_at s) \<le> 6" by (cases "su_at s") auto
    with supervisor.runs_left[OF r assms(4)] have n: "n \<le> 6" by auto
    have "sp_state (su_p t) \<in> {StateStopped, StateRefused} \<and> ps_running (su_ps t) = [] \<and> sp_client (su_p t) = None"
      if "\<nexists>u. sup_step E Own t u"
    proof -
      have "su_at t = Returned" using supervisor.stuck_done[OF r assms(4) that] by (cases "su_at t") auto
      from sup_invD(7)[OF host_inv[OF sup_run_reachable[OF r assms(3)] assms(1,2)] this] show ?thesis .
    qed
    with n show ?thesis by blast
  qed
  moreover have "\<exists>n t. runs (sup_step E) s n t \<and> su_at t = Returned"
    using supervisor.runs_end[OF assms(4)] steps_left_pos by (metis less_irrefl)
  ultimately show ?thesis by blast
qed

section \<open>Calls through the Plugin Host\<close>

lemma Host_running_Inr: "Host_running h name = Inr c \<Longrightarrow> \<exists>p\<in>set h. bp_Name (sp_cfg p) = name \<and> sp_client p = Some c"
  by (auto simp: Host_running_def split: option.splits dest: find_SomeD)

lemma secret_New_result: "secret_New ok v hp = (r, hp', buf) \<Longrightarrow> set buf \<subseteq> {CHR 0x00} \<and> (case r of Inl e \<Rightarrow> hp' = hp | Inr sec \<Rightarrow> contents hp' sec = Some v)"
  by (auto simp: secret_New_def newLocked_def allocate_copy_def clear_bytes_def contents_def deref_def Let_def split: if_splits)

text \<open>
  A Secret fetched through the Plugin Host is what the running plugin of that name answered,
  non-empty and within the protocol's size limit, held in locked memory; in every case, errors
  included, the buffer it arrived in holds only zeros afterwards, and a call to a plugin that is
  not configured or not running reaches nobody.
\<close>

theorem host_get_checked:
  "case Host_Get R ok h name loc s hp of (r, s', hp', buf) \<Rightarrow> set buf \<subseteq> {CHR 0x00}
     \<and> (case r of
          Inr sec \<Rightarrow> \<exists>p c v. p \<in> set h \<and> bp_Name (sp_cfg p) = name \<and> sp_client p = Some c \<and> rpc_Get (R c) loc s = (Inr v, s')
            \<and> contents hp' sec = Some v \<and> v \<noteq> [] \<and> length v \<le> MaxValueBytes
        | Inl e \<Rightarrow> hp' = hp \<and> (case e of CallError n ce \<Rightarrow> n = name \<and> safe_error ce | NotConfigured n \<Rightarrow> s' = s | ErrNotRunning n \<Rightarrow> s' = s | _ \<Rightarrow> True))"
proof (cases "Host_running h name")
  case (Inl e)
  then show ?thesis by (auto simp: Host_Get_def Host_running_def split: option.splits)
next
  case (Inr c)
  from Host_running_Inr[OF Inr] obtain p where p: "p \<in> set h" "bp_Name (sp_cfg p) = name" "sp_client p = Some c" by blast
  obtain r s' buf where g: "Client_Get (R c) loc s = (r, s', buf)" by (metis prod_cases3)
  show ?thesis
  proof (cases r)
    case (Inl e)
    with g Inr Client_Get_Inl[of "R c" loc s e s' buf] show ?thesis by (simp add: Host_Get_def)
  next
    case (Inr v)
    obtain q hp' buf' where n: "secret_New ok v hp = (q, hp', buf')" by (metis prod_cases3)
    have "rpc_Get (R c) loc s = (Inr v, s')" using g Inr by (auto simp: Client_Get_def split: sum.splits prod.splits)
    with cc.get_bounded[of "R c" loc s v s' buf] g Inr n \<open>Host_running h name = Inr c\<close> secret_New_result[OF n] p
    show ?thesis by (cases q) (auto simp: Host_Get_def)
  qed
qed

text \<open>
  C17: a config the Plugin Host accepts keeps its plugins apart from the server. Every plugin
  binary matched its pin, and unless the Operator chose to share the server's user, the plugin
  runs as an OS user that is neither root nor the server's own, that the kernel's permission
  check denies the config file, and that owns neither that file nor the data directory.
\<close>

theorem plugins_separated:
  assumes "Host_New E sys cfg = Inr h" and "p \<in> set h"
  shows "(\<exists>name. (name, sp_cfg p) \<in> set (cfg_BackendPlugins cfg))
    \<and> FileSHA256 (he_sha E) sys (bp_Path (sp_cfg p)) = Some (bp_SHA256 (sp_cfg p))
    \<and> (case sp_cred p of
         None \<Rightarrow> bp_InsecureShareCoreUser (sp_cfg p)
       | Some cred \<Rightarrow> oc_Uid cred \<noteq> 0 \<and> int (oc_Uid cred) \<noteq> os_Geteuid sys
           \<and> (\<exists>info. os_Stat sys (cfg_Path cfg) = Inr info \<and> \<not> unix_may_read cred info \<and> fst (the (fi_sys info)) \<noteq> oc_Uid cred)
           \<and> (\<forall>info. os_Stat sys (cfg_DataDir cfg) = Inr info \<longrightarrow> map_option fst (fi_sys info) \<noteq> Some (oc_Uid cred)))"
proof -
  obtain name pc where np: "(name, pc) \<in> set (cfg_BackendPlugins cfg)" "new_supervised E sys cfg (name, pc) = Inr p"
    using Host_New_member[OF assms] by blast
  then have c: "sp_cfg p = pc" and v: "\<exists>b. openVerified (he_sha E) sys pc = Inr b" and cr: "pluginCredential sys cfg pc = Inr (sp_cred p)"
    by (auto simp: new_supervised_def split: sum.splits)
  from v have "FileSHA256 (he_sha E) sys (bp_Path pc) = Some (bp_SHA256 pc)"
    by (auto simp: openVerified_def FileSHA256_def Let_def split: option.splits if_splits)
  with np(1) c pluginCredential_None pluginCredential_Some[of sys cfg pc] cr show ?thesis
    by (cases "sp_cred p") (auto simp: separated_def)
qed

section \<open>A plugin that runs\<close>

definition example_plugin :: BackendPlugin where
  "example_plugin = \<lparr>bp_Name = ''bao'', bp_Path = ''/opt/bao'', bp_SHA256 = hex_encode ''bin'', bp_User = ''bao'',
     bp_InsecureShareCoreUser = False, bp_Env = []\<rparr>"

definition example_os :: oslib where
  "example_os = \<lparr>user_Lookup = (\<lambda>_. Some \<lparr>u_Uid = ''7'', u_Gid = ''7''\<rparr>), user_LookupId = (\<lambda>_. None), GroupIds = (\<lambda>_. Some []),
     os_Stat = (\<lambda>p. if p = ''/etc/tc.yaml'' then Inr \<lparr>fi_sys = Some (0, 0), fi_perm = 0x180\<rparr> else Inl NotExist),
     os_Geteuid = 0, os_Open = (\<lambda>_. Some (''bin'', True))\<rparr>"

definition example_host_env :: host_env where
  "example_host_env = \<lparr>he_sha = (\<lambda>x. x), he_GODEBUG = [], he_fips = \<lparr>fips_Enabled = False, fips_Only = False, fips_Version = []\<rparr>\<rparr>"

definition example_plugin_cfg :: Config where
  "example_plugin_cfg = example_cfg\<lparr>cfg_BackendPlugins := [(''bao'', example_plugin)]\<rparr>"

definition example_sp :: supervised where
  "example_sp = \<lparr>sp_cfg = example_plugin, sp_cred = Some \<lparr>oc_Uid = 7, oc_Gid = 7, oc_Groups = []\<rparr>, sp_client = None, sp_state = StateStarting,
     sp_restarts = 0, sp_lastErr = NoError\<rparr>"

definition example_report :: launch_report where
  "example_report = \<lparr>lr_Client = None, lr_Dispense = None, lr_isBackend = True, lr_Capabilities =
     Inr \<lparr>cr_CourierKeyWrite = False, cr_Fips140Enabled = False, cr_Fips140Version = [], cr_Fips140Only = False\<rparr>\<rparr>"

lemma example_host: "Host_New example_host_env example_os example_plugin_cfg = Inr [example_sp]"
proof -
  have "ParseUint32 ''7'' = Some 7" by (simp add: ParseUint32_def isDigit_def undecimal_def)
  then have "pluginCredential example_os example_plugin_cfg example_plugin = Inr (Some \<lparr>oc_Uid = 7, oc_Gid = 7, oc_Groups = []\<rparr>)"
    by (simp add: pluginCredential_def lookupUser_def toCredential_def parse_id_def checkSeparation_def readableBy_def ownedBy_def
        example_os_def example_plugin_def example_plugin_cfg_def example_cfg_def)
  then show ?thesis
    by (simp add: Host_New_def new_supervised_def openVerified_def example_host_env_def example_sp_def example_plugin_cfg_def)
       (simp add: example_os_def example_plugin_def)
qed

theorem plugins_separated_witness:
  "FileSHA256 (\<lambda>x. x) example_os ''/opt/bao'' = Some (hex_encode ''bin'')
   \<and> (\<exists>info. os_Stat example_os ''/etc/tc.yaml'' = Inr info \<and> \<not> unix_may_read \<lparr>oc_Uid = 7, oc_Gid = 7, oc_Groups = []\<rparr> info)"
  using plugins_separated[OF example_host, of example_sp]
  by (simp add: example_sp_def example_plugin_def example_host_env_def) (auto simp: example_plugin_cfg_def example_cfg_def)

definition example_running :: sup where
  "example_running = (let s = sup_start example_sp 0; r = launch example_host_env example_os example_report example_sp (su_ps s)
     in launched 0 minBackoff 0 (fst r) (s\<lparr>su_at := AtLaunch 0 minBackoff, su_ps := snd r, su_launches := [0]\<rparr>))"

lemma example_running_reachable: "sup_reachable example_host_env example_sp example_running"
proof -
  let ?s = "sup_start example_sp 0"
  have "sup_step example_host_env Own ?s (?s\<lparr>su_at := AtLaunch 0 minBackoff\<rparr>)"
    using sup_step.Loop[of ?s 0 minBackoff] by (simp add: sup_start_def begin_attempt_def)
  then have a: "sup_reachable example_host_env example_sp (?s\<lparr>su_at := AtLaunch 0 minBackoff\<rparr>)"
    by (rule sup_reachable.Step[OF sup_reachable.Start])
  have "sup_step example_host_env Own (?s\<lparr>su_at := AtLaunch 0 minBackoff\<rparr>) example_running"
    using sup_step.Launch[of "?s\<lparr>su_at := AtLaunch 0 minBackoff\<rparr>" 0 minBackoff 0 example_host_env example_os example_report]
    by (simp add: example_running_def sup_start_def Let_def)
  from sup_reachable.Step[OF a this] show ?thesis .
qed

definition example_client :: Client where
  "example_client = \<lparr>cl_process = 0, cl_caps = \<lparr>caps_CourierKeyWrite = False\<rparr>, cl_fips = \<lparr>fips_Enabled = False, fips_Only = False, fips_Version = []\<rparr>\<rparr>"

lemma example_launch: "launch example_host_env example_os example_report example_sp \<lparr>ps_next = 0, ps_running = [], ps_started = []\<rparr>
    = (Inr example_client, snd (exec_Start (verifiedCommand example_host_env ''bin'' example_sp) \<lparr>ps_next = 0, ps_running = [], ps_started = []\<rparr>))"
proof -
  have "openVerified (he_sha example_host_env) example_os (sp_cfg example_sp) = Inr ''bin''"
    by (simp add: openVerified_def example_host_env_def example_os_def example_sp_def example_plugin_def)
  moreover have "dispense example_report 0 = Inr example_client"
    by (simp add: dispense_def example_report_def example_client_def FIPS140Version_def printable_def validString_def)
  ultimately show ?thesis by (simp add: launch_def Client_Start_def exec_Start_def FIPS140_Covers_def example_client_def example_host_env_def)
qed

lemma example_running_eval:
  "su_at example_running = Watching 0 minBackoff 0 example_client" "sp_client (su_p example_running) = Some example_client"
  "ps_started (su_ps example_running) = [verifiedCommand example_host_env ''bin'' example_sp]"
  by (simp_all add: example_running_def sup_start_def Let_def example_launch launched_def exec_Start_def)

theorem only_pinned_plugins_run_witness:
  "\<exists>c. set (ps_started (su_ps example_running)) = {c} \<and> hex_encode (cmd_binary c) = hex_encode ''bin'' \<and> length (ps_running (su_ps example_running)) \<le> 1"
  using only_pinned_plugins_run[OF example_host _ example_running_reachable] example_running_eval(3)
  by (auto simp: example_host_env_def example_sp_def example_plugin_def)

theorem fips_boundary_witness: "FIPS140_Covers (cl_fips example_client) (he_fips example_host_env)"
  using fips_boundary[OF example_host _ example_running_reachable] example_running_eval(2) by simp

theorem supervisor_returns_witness: "\<exists>n t. runs (sup_step example_host_env) (example_running\<lparr>su_cancelled := True\<rparr>) n t \<and> su_at t = Returned"
proof -
  have "sup_reachable example_host_env example_sp (example_running\<lparr>su_cancelled := True\<rparr>)"
    by (rule sup_reachable.Step[OF example_running_reachable sup_step.Cancel])
  from supervisor_returns[OF example_host _ this] show ?thesis by simp
qed

section \<open>Log lines\<close>

text \<open>What plugin output becomes in the server's log: no control character but tabs and the final newline.\<close>

lemma sanitize_line_clean:
  "\<exists>body. sanitize_line b \<in> {body, body @ [CHR 0x0A]} \<and> (\<forall>(r, w)\<in>set (runes body). \<not> invalid_rune (r, w) \<and> (isControl r \<longrightarrow> r = 9))"
proof -
  define rs where "rs = map (\<lambda>(r, w :: nat). if r = rune_error \<or> (isControl r \<and> r \<noteq> 9) then 63 else r) (runes (trimSuffix b [CHR 0x0A]))"
  have w: "\<forall>r\<in>set rs. whole_rune r \<and> (isControl r \<longrightarrow> r = 9)"
    using decoded_whole[of _ _ "trimSuffix b [CHR 0x0A]"]
    by (auto simp: rs_def whole_rune_ascii isControl_def invalid_rune_def split: if_splits)
  let ?body = "concat (map encode_rune rs)"
  have "concat (map (\<lambda>(r, _). encode_rune (if r = rune_error \<or> (isControl r \<and> r \<noteq> 9) then 63 else r)) (runes (trimSuffix b [CHR 0x0A]))) = ?body"
    unfolding rs_def map_map comp_def by (rule arg_cong[of _ _ concat], rule map_cong) auto
  then have "sanitize_line b \<in> {?body, ?body @ [CHR 0x0A]}" by (simp add: sanitize_line_def Let_def)
  moreover have "runes ?body = map (\<lambda>r. (r, length (encode_rune r))) rs" using runes_whole[of rs "[]"] w by simp
  ultimately show ?thesis using w by (intro exI[of _ ?body]) (auto simp: whole_rune_def)
qed

end
