(* ===== verification/PEM_Key.thy ===== *)
theory PEM_Key
  imports Secrets
begin

text \<open>
  \<open>internal/pemkey\<close>: certificate chains and private keys in PEM. \<open>encoding/pem\<close>, \<open>crypto/x509\<close>
  and the key types are the fields of \<open>certlib\<close>; a public or private key is its encoding.
\<close>

record leaf =
  lf_NotBefore :: ns
  lf_NotAfter :: ns
  lf_DNSNames :: "string list"
  lf_PublicKey :: bytes

text \<open>
  \<open>ParsePKCS8\<close> gives a key that can sign, \<open>Inl\<close> the type of one that cannot, \<open>None\<close> when it
  does not parse; \<open>public_Equal\<close> is false for key types without \<open>Equal\<close>.
\<close>

record certlib =
  pem_decode :: "bytes \<Rightarrow> (string \<times> bytes) option \<times> bytes"
  pem_encode :: "string \<Rightarrow> bytes \<Rightarrow> bytes"
  ParseCertificate :: "bytes \<Rightarrow> leaf option"
  ParsePKCS8 :: "bytes \<Rightarrow> (string + bytes) option"
  ParsePKCS1 :: "bytes \<Rightarrow> bytes option"
  ParseEC :: "bytes \<Rightarrow> bytes option"
  MarshalPKCS8 :: "bytes \<Rightarrow> bytes option"
  signer_Public :: "bytes \<Rightarrow> bytes"
  public_Equal :: "bytes \<Rightarrow> bytes \<Rightarrow> bool"

datatype pem_error =
    NotPEMOrDataBefore string
  | HasNoPEM string
  | OtherBlock string string
  | DataAfterPEM string
  | NotPrivateKey string
  | CannotSign string string

definition IsPEM :: "bytes \<Rightarrow> bool" where
  "IsPEM data \<longleftrightarrow> hasPrefix (dropWhile pem_space data) ''-----BEGIN ''"

text \<open>
  The loop over the blocks of a chain. \<open>Decode\<close> returns less than it was given whenever it
  finds a block, so as many turns as the data has bytes, and one, are enough.
\<close>

fun chain_loop :: "certlib \<Rightarrow> string \<Rightarrow> nat \<Rightarrow> bytes \<Rightarrow> bytes list \<Rightarrow> (pem_error, bytes list \<times> bytes) result" where
  "chain_loop L what 0 data chain = Inr (chain, data)"
| "chain_loop L what (Suc n) data chain = (case pem_decode L data of
      (None, rest) \<Rightarrow> Inr (chain, rest)
    | (Some (typ, der), rest) \<Rightarrow>
        if typ \<noteq> ''CERTIFICATE'' then Inl (OtherBlock what typ)
        else chain_loop L what n rest (chain @ [der]))"

definition ParseChain :: "certlib \<Rightarrow> bytes \<Rightarrow> string \<Rightarrow> (pem_error, bytes list) result" where
  "ParseChain L data what = (
     if \<not> IsPEM data then Inl (NotPEMOrDataBefore what)
     else ebind (chain_loop L what (length data + 1) data []) (\<lambda>(chain, rest).
       if chain = [] then Inl (HasNoPEM what)
       else if \<not> all_space rest then Inl (DataAfterPEM what)
       else Inr chain))"

definition ParseSigner :: "certlib \<Rightarrow> bytes \<Rightarrow> string \<Rightarrow> (pem_error, bytes) result" where
  "ParseSigner L data what = (
     if \<not> IsPEM data then Inl (NotPEMOrDataBefore what)
     else (case pem_decode L data of
        (None, rest) \<Rightarrow> Inl (HasNoPEM what)
      | (Some (typ, der), rest) \<Rightarrow>
          if \<not> all_space rest then Inl (DataAfterPEM what)
          else if typ = ''PRIVATE KEY'' then
            (case ParsePKCS8 L der of
               None \<Rightarrow> Inl (NotPrivateKey what) | Some (Inl t) \<Rightarrow> Inl (CannotSign what t) | Some (Inr k) \<Rightarrow> Inr k)
          else if typ = ''RSA PRIVATE KEY'' then (case ParsePKCS1 L der of None \<Rightarrow> Inl (NotPrivateKey what) | Some k \<Rightarrow> Inr k)
          else if typ = ''EC PRIVATE KEY'' then (case ParseEC L der of None \<Rightarrow> Inl (NotPrivateKey what) | Some k \<Rightarrow> Inr k)
          else Inl (OtherBlock what typ)))"

definition MarshalSigner :: "certlib \<Rightarrow> bytes \<Rightarrow> bytes option" where
  "MarshalSigner L key = map_option (pem_encode L ''PRIVATE KEY'') (MarshalPKCS8 L key)"

definition MarshalChain :: "certlib \<Rightarrow> bytes list \<Rightarrow> bytes" where
  "MarshalChain L chain = concat (map (pem_encode L ''CERTIFICATE'') chain)"

definition KeyMatches :: "certlib \<Rightarrow> bytes \<Rightarrow> bytes \<Rightarrow> bool" where
  "KeyMatches L public private \<longleftrightarrow> public_Equal L public (signer_Public L private)"

section \<open>Round trips\<close>

text \<open>
  What the documentation of \<open>encoding/pem\<close> and \<open>crypto/x509\<close> says: a block that was encoded is
  decoded from the front of any input, with the rest of it; nothing is found in no input, which
  is returned; a found block was not empty; an encoded block starts with its header line; and a
  marshalled key parses.
\<close>

definition pem_laws :: "certlib \<Rightarrow> bool" where
  "pem_laws L \<longleftrightarrow>
     (\<forall>t b r. t \<in> {''CERTIFICATE'', ''PRIVATE KEY''} \<longrightarrow> pem_decode L (pem_encode L t b @ r) = (Some (t, b), r))
     \<and> pem_decode L [] = (None, [])
     \<and> (\<forall>d b r. pem_decode L d = (Some b, r) \<longrightarrow> length r < length d)
     \<and> (\<forall>t b. hasPrefix (pem_encode L t b) ''-----BEGIN '')
     \<and> (\<forall>k d. MarshalPKCS8 L k = Some d \<longrightarrow> ParsePKCS8 L d = Some (Inr k))"

lemma pem_lawsD:
  assumes "pem_laws L"
  shows "t \<in> {''CERTIFICATE'', ''PRIVATE KEY''} \<Longrightarrow> pem_decode L (pem_encode L t b @ r) = (Some (t, b), r)"
    and "pem_decode L [] = (None, [])"
    and "pem_decode L d = (Some tb, r) \<Longrightarrow> length r < length d"
    and "\<exists>z. pem_encode L t b = ''-----BEGIN '' @ z"
    and "MarshalPKCS8 L k = Some d \<Longrightarrow> ParsePKCS8 L d = Some (Inr k)"
  using assms unfolding pem_laws_def hasPrefix_def prefix_def by blast+

lemma IsPEM_encode: "pem_laws L \<Longrightarrow> IsPEM (pem_encode L t b @ r)"
proof -
  assume "pem_laws L"
  from pem_lawsD(4)[OF this] obtain z where z: "pem_encode L t b = ''-----BEGIN '' @ z" by blast
  then show ?thesis by (simp add: IsPEM_def hasPrefix_def pem_space_def)
qed

text \<open>More turns than the data has bytes change nothing: the loop ends by itself.\<close>

lemma chain_loop_enough:
  assumes "pem_laws L" and "length data < n" and "length data < n'"
  shows "chain_loop L what n data chain = chain_loop L what n' data chain"
  using assms(2,3)
proof (induction n arbitrary: n' data chain)
  case (Suc n)
  then obtain m where m: "n' = Suc m" by (cases n') auto
  have "chain_loop L what n rest c = chain_loop L what m rest c" if "pem_decode L data = (Some b, rest)" for b rest c
    using pem_lawsD(3)[OF assms(1) that] Suc.prems m by (intro Suc.IH) auto
  with m show ?case by (auto split: option.splits prod.splits)
qed simp

lemma chain_loop_MarshalChain:
  assumes "pem_laws L" and "length chain < n"
  shows "chain_loop L what n (MarshalChain L chain) acc = Inr (acc @ chain, [])"
  using assms(2)
proof (induction chain arbitrary: n acc)
  case Nil
  with assms(1) show ?case by (cases n) (auto simp: MarshalChain_def pem_lawsD(2))
next
  case (Cons d ds)
  then obtain m where m: "n = Suc m" "length ds < m" by (cases n) auto
  have "pem_decode L (MarshalChain L (d # ds)) = (Some (''CERTIFICATE'', d), MarshalChain L ds)"
    using pem_lawsD(1)[OF assms(1), of "''CERTIFICATE''" d "MarshalChain L ds"] by (simp add: MarshalChain_def)
  with Cons.IH[OF m(2), of "acc @ [d]"] m(1) show ?case by simp
qed

lemma MarshalChain_length: "pem_laws L \<Longrightarrow> length chain \<le> length (MarshalChain L chain)"
proof (induction chain)
  case (Cons d ds)
  from pem_lawsD(4)[OF Cons.prems, of "''CERTIFICATE''" d] have "pem_encode L ''CERTIFICATE'' d \<noteq> []" by auto
  with Cons show ?case by (cases "pem_encode L ''CERTIFICATE'' d") (auto simp: MarshalChain_def)
qed (simp add: MarshalChain_def)

lemma ParseChain_MarshalChain:
  assumes "pem_laws L" and "chain \<noteq> []"
  shows "ParseChain L (MarshalChain L chain) what = Inr chain"
proof -
  have "IsPEM (MarshalChain L chain)" using assms by (cases chain) (simp_all add: MarshalChain_def IsPEM_encode)
  moreover have "chain_loop L what (length (MarshalChain L chain) + 1) (MarshalChain L chain) [] = Inr (chain, [])"
    using chain_loop_MarshalChain[OF assms(1), of chain "length (MarshalChain L chain) + 1" what "[]"] MarshalChain_length[OF assms(1), of chain]
    by (simp del: chain_loop.simps)
  ultimately show ?thesis using assms(2) by (simp add: ParseChain_def all_space_def del: chain_loop.simps)
qed

lemma ParseSigner_MarshalSigner:
  assumes "pem_laws L" and "MarshalSigner L k = Some p"
  shows "ParseSigner L p what = Inr k"
proof -
  obtain d where d: "MarshalPKCS8 L k = Some d" "p = pem_encode L ''PRIVATE KEY'' d @ []" using assms(2) by (auto simp: MarshalSigner_def)
  have "pem_decode L p = (Some (''PRIVATE KEY'', d), [])" unfolding d(2) by (rule pem_lawsD(1)[OF assms(1)]) simp
  moreover have "ParsePKCS8 L d = Some (Inr k)" using pem_lawsD(5)[OF assms(1) d(1)] .
  ultimately show ?thesis using IsPEM_encode[OF assms(1), of "''PRIVATE KEY''" d "[]"] d(2) by (simp add: ParseSigner_def all_space_def)
qed

lemma ParseChain_nonempty: "ParseChain L data what = Inr chain \<Longrightarrow> chain \<noteq> []"
  by (auto simp: ParseChain_def split: if_splits)

end
