(* ===== verification/Cert_Manager.thy ===== *)
theory Cert_Manager
  imports PEM_Key HTTP_Model Config_Types "HOL-Library.AList"
begin

text \<open>
  \<open>internal/certmanager\<close>: the certificate manager. It loads the TLS pair of a listener from the
  Backend, serves it to handshakes, and with ACME obtains, stores and renews it. The background
  goroutine is the step relation \<open>cm_step\<close>: one rule per call it makes or wait it enters. What
  the Backend and the ACME issuer answer is chosen anew at every call; \<open>cm_store\<close> is what the
  Backend holds.
\<close>

section \<open>Certificates\<close>

definition minRetry :: ns where "minRetry = 250000000"
definition maxRetry :: ns where "maxRetry = 5000000000"
definition acmeMinRetry :: ns where "acmeMinRetry = 30000000000"
definition acmeMaxRetry :: ns where "acmeMaxRetry = 3600000000000"
definition HTTP01Path :: string where "HTTP01Path = ''/.well-known/acme-challenge/''"
definition ALPNProto :: string where "ALPNProto = ''acme-tls/1''"

text \<open>The zero \<open>time.Time\<close>, and \<open>Time.Sub\<close>, which saturates.\<close>

definition zeroTime :: ns where "zeroTime = - 62135596800000000000"

definition time_Sub :: "ns \<Rightarrow> ns \<Rightarrow> ns" where
  "time_Sub a b = max (- (2 ^ 63)) (min (2 ^ 63 - 1) (a - b))"

record tls_cert =
  tc_chain :: "bytes list"
  tc_key :: bytes
  tc_leaf :: leaf

datatype cert_error =
    errNotLoaded
  | errNoChallenge
  | PEMError pem_error
  | BadX509
  | ExpiredAt ns
  | NotValidUntil ns
  | KeyMismatch
  | CannotRead string
  | FetchError string
  | NotWritable
  | OrderFailed string
  | ObtainedUnusable cert_error
  | CannotStore string

definition cert_expired :: "leaf \<Rightarrow> ns \<Rightarrow> cert_error option" where
  "cert_expired lf now = (
     if lf_NotAfter lf < now then Some (ExpiredAt (lf_NotAfter lf))
     else if now < lf_NotBefore lf then Some (NotValidUntil (lf_NotBefore lf))
     else None)"

definition longest :: ns where "longest = 3153600000 * 1000000000"

definition lifetime :: "leaf \<Rightarrow> ns" where
  "lifetime lf = min (max (time_Sub (lf_NotAfter lf) (lf_NotBefore lf)) 1000000000) longest"

definition renewAt :: "leaf \<Rightarrow> ns" where
  "renewAt lf = lf_NotBefore lf + lifetime lf div 3 * 2"

definition parsePEM :: "certlib \<Rightarrow> ns \<Rightarrow> bytes \<Rightarrow> bytes \<Rightarrow> (cert_error, tls_cert) result" where
  "parsePEM L now certPEM keyPEM = (case ParseChain L certPEM ''the TLS certificate'' of
      Inl e \<Rightarrow> Inl (PEMError e)
    | Inr chain \<Rightarrow> (case ParseCertificate L (hd chain) of
        None \<Rightarrow> Inl BadX509
      | Some lf \<Rightarrow> (case cert_expired lf now of
          Some e \<Rightarrow> Inl e
        | None \<Rightarrow> (case ParseSigner L keyPEM ''the TLS key'' of
            Inl e \<Rightarrow> Inl (PEMError e)
          | Inr private \<Rightarrow>
              if \<not> KeyMatches L (lf_PublicKey lf) private then Inl KeyMismatch
              else Inr \<lparr>tc_chain = chain, tc_key = private, tc_leaf = lf\<rparr>))))"

definition parse :: "certlib \<Rightarrow> ns \<Rightarrow> Secret \<Rightarrow> Secret \<Rightarrow> heap \<Rightarrow> (cert_error, tls_cert) result" where
  "parse L now certificate key h = (case contents h certificate of
      None \<Rightarrow> Inl (CannotRead ''certificate'')
    | Some certPEM \<Rightarrow> (case contents h key of
        None \<Rightarrow> Inl (CannotRead ''key'')
      | Some keyPEM \<Rightarrow> parsePEM L now certPEM keyPEM))"

text \<open>\<open>fetchAndParse\<close> of what \<open>fetch\<close> returned: both Secrets are released, the key first.\<close>

definition fetchAndParse :: "certlib \<Rightarrow> ns \<Rightarrow> Secret \<Rightarrow> Secret \<Rightarrow> cert_error option \<Rightarrow> heap \<Rightarrow> (cert_error, tls_cert) result \<times> heap" where
  "fetchAndParse L now certificate key err h =
     ((case err of Some e \<Rightarrow> Inl e | None \<Rightarrow> parse L now certificate key h), Secret_Release certificate (Secret_Release key h))"

section \<open>The manager\<close>

datatype m_detail = NoDetail | LoadingDetail | Because cert_error

record Manager =
  m_cert :: "tls_cert option"
  m_detail :: m_detail
  m_renewAt :: ns
  m_renewalErr :: "cert_error option"
  m_alpn :: "tls_cert gomap"
  m_http01 :: "string gomap"

definition Manager_New :: Manager where
  "Manager_New = \<lparr>m_cert = None, m_detail = NoDetail, m_renewAt = zeroTime, m_renewalErr = None, m_alpn = [], m_http01 = []\<rparr>"

definition setDetail :: "m_detail \<Rightarrow> Manager \<Rightarrow> Manager" where
  "setDetail d m = m\<lparr>m_detail := d\<rparr>"

definition Manager_serve :: "tls_cert \<Rightarrow> ns \<Rightarrow> Manager \<Rightarrow> Manager" where
  "Manager_serve c renew m = m\<lparr>m_cert := Some c, m_detail := NoDetail, m_renewalErr := None, m_renewAt := renew\<rparr>"

definition Certificate :: "ns \<Rightarrow> Manager \<Rightarrow> (cert_error, tls_cert) result" where
  "Certificate now m = (case m_cert m of
      None \<Rightarrow> Inl errNotLoaded
    | Some c \<Rightarrow> (case cert_expired (tc_leaf c) now of Some e \<Rightarrow> Inl e | None \<Rightarrow> Inr c))"

record client_hello =
  hello_SupportedProtos :: "string list"
  hello_ServerName :: string

text \<open>\<open>TLSConfig\<close>'s \<open>GetCertificate\<close>.\<close>

definition GetCertificate :: "golib \<Rightarrow> ns \<Rightarrow> client_hello \<Rightarrow> Manager \<Rightarrow> (cert_error, tls_cert) result" where
  "GetCertificate G now hello m = (
     if hello_SupportedProtos hello = [ALPNProto] then
       (case map_of (m_alpn m) (go_ToLower G (hello_ServerName hello)) of Some c \<Rightarrow> Inr c | None \<Rightarrow> Inl errNoChallenge)
     else Certificate now m)"

definition http_NotFound :: "ResponseWriter \<Rightarrow> ResponseWriter" where
  "http_NotFound w = write_body (''404 page not found'' @ [CHR 0x0A])
     (WriteHeader 404 (set_header ''X-Content-Type-Options'' ''nosniff'' (set_header ''Content-Type'' ''text/plain; charset=utf-8'' w)))"

definition HTTP01Handler :: "string \<Rightarrow> string \<Rightarrow> Manager \<Rightarrow> ResponseWriter \<Rightarrow> ResponseWriter" where
  "HTTP01Handler mthd path m w = (case cutPrefix path HTTP01Path of (token, ok) \<Rightarrow>
     if \<not> ok \<or> token = [] \<or> (mthd \<noteq> ''GET'' \<and> mthd \<noteq> ''HEAD'') then http_NotFound w
     else (case map_of (m_http01 m) token of
        None \<Rightarrow> http_NotFound w
      | Some keyAuth \<Rightarrow> write_body keyAuth (set_header ''Content-Type'' ''text/plain'' w)))"

definition PresentTLSALPN :: "golib \<Rightarrow> string \<Rightarrow> tls_cert \<Rightarrow> Manager \<Rightarrow> Manager" where
  "PresentTLSALPN G domain c m = m\<lparr>m_alpn := AList.update (go_ToLower G domain) c (m_alpn m)\<rparr>"

definition RemoveTLSALPN :: "golib \<Rightarrow> string \<Rightarrow> Manager \<Rightarrow> Manager" where
  "RemoveTLSALPN G domain m = m\<lparr>m_alpn := AList.delete (go_ToLower G domain) (m_alpn m)\<rparr>"

definition PresentHTTP :: "string \<Rightarrow> string \<Rightarrow> Manager \<Rightarrow> Manager" where
  "PresentHTTP token keyAuth m = m\<lparr>m_http01 := AList.update token keyAuth (m_http01 m)\<rparr>"

definition RemoveHTTP :: "string \<Rightarrow> Manager \<Rightarrow> Manager" where
  "RemoveHTTP token m = m\<lparr>m_http01 := AList.delete token (m_http01 m)\<rparr>"

record cert_status =
  cs_Loaded :: bool
  cs_Detail :: m_detail
  cs_NotAfter :: ns
  cs_RenewAt :: ns
  cs_RenewalError :: "cert_error option"

definition Manager_Status :: "ns \<Rightarrow> Manager \<Rightarrow> cert_status" where
  "Manager_Status now m = (case m_cert m of
      Some c \<Rightarrow>
        (let s = \<lparr>cs_Loaded = True, cs_Detail = NoDetail, cs_NotAfter = lf_NotAfter (tc_leaf c), cs_RenewAt = m_renewAt m, cs_RenewalError = m_renewalErr m\<rparr>
         in case cert_expired (tc_leaf c) now of None \<Rightarrow> s | Some e \<Rightarrow> s\<lparr>cs_Loaded := False, cs_Detail := Because e\<rparr>)
    | None \<Rightarrow> \<lparr>cs_Loaded = False, cs_Detail = m_detail m, cs_NotAfter = zeroTime, cs_RenewAt = zeroTime, cs_RenewalError = None\<rparr>)"

section \<open>Loading and obtaining\<close>

record cert_env =
  cx_lib :: certlib
  cx_Domains :: "string list"
  cx_Certificate :: CourierKey
  cx_Key :: CourierKey

type_synonym key_store = "CourierKey \<Rightarrow> bytes option"

datatype key_failure = KeyNotFound | KeyUnavailable

text \<open>\<open>KeyStore.CourierKey\<close>: a Secret of what the Backend holds, unless it does not answer.\<close>

definition fetch_key :: "bool \<Rightarrow> CourierKey \<Rightarrow> key_store \<Rightarrow> heap \<Rightarrow> (key_failure, Secret) result \<times> heap" where
  "fetch_key answers k st h = (
     if \<not> answers then (Inl KeyUnavailable, h)
     else (case st k of
        None \<Rightarrow> (Inl KeyNotFound, h)
      | Some v \<Rightarrow> (case newLocked True v h of (Inl _, h') \<Rightarrow> (Inl KeyUnavailable, h') | (Inr s, h') \<Rightarrow> (Inr s, h'))))"

definition loadStored :: "cert_env \<Rightarrow> ns \<Rightarrow> bool \<Rightarrow> bool \<Rightarrow> key_store \<Rightarrow> heap \<Rightarrow> (cert_error, tls_cert option) result \<times> heap" where
  "loadStored X now a1 a2 st h = (case fetch_key a1 (cx_Certificate X) st h of
      (Inl KeyNotFound, h) \<Rightarrow> (Inr None, h)
    | (Inl KeyUnavailable, h) \<Rightarrow> (Inl (FetchError ''fetch the TLS certificate''), h)
    | (Inr certificate, h) \<Rightarrow> (case fetch_key a2 (cx_Key X) st h of
        (Inl KeyNotFound, h) \<Rightarrow> (Inr None, Secret_Release certificate h)
      | (Inl KeyUnavailable, h) \<Rightarrow> (Inl (FetchError ''fetch the TLS key''), Secret_Release certificate h)
      | (Inr key, h) \<Rightarrow>
          (Inr (case parse (cx_lib X) now certificate key h of
             Inl _ \<Rightarrow> None
           | Inr c \<Rightarrow> if list_all (\<lambda>d. d \<in> set (lf_DNSNames (tc_leaf c))) (cx_Domains X) then Some c else None),
           Secret_Release certificate (Secret_Release key h))))"

record issued =
  is_Chain :: bytes
  is_Key :: bytes

text \<open>\<open>obtain\<close> of what the issuer answered; an unusable pair's key is wiped.\<close>

definition obtain_issued :: "cert_env \<Rightarrow> ns \<Rightarrow> bool \<Rightarrow> string + issued \<Rightarrow> (cert_error, issued) result" where
  "obtain_issued X now writable r = (
     if \<not> writable then Inl NotWritable
     else (case r of
        Inl e \<Rightarrow> Inl (OrderFailed e)
      | Inr i \<Rightarrow> (case parsePEM (cx_lib X) now (is_Chain i) (is_Key i) of
          Inl e \<Rightarrow> Inl (ObtainedUnusable e)
        | Inr _ \<Rightarrow> Inr i)))"

section \<open>The background goroutine\<close>

text \<open>
  Where it is: loading an Operator's pair or waiting to retry; loading the stored pair or
  waiting to retry; at the condition of the ACME loop, waiting for the renewal time, in
  \<open>obtain\<close>, before each of the two writes of \<open>store\<close>, waiting after a failure; or returned. The
  numbers are \<open>retry\<close> or \<open>backoff\<close>, \<open>earliest\<close>, and when a wait began.
\<close>

datatype cm_at =
    OpLoad ns
  | OpWait ns ns
  | AcLoad ns
  | AcLoadWait ns ns
  | AcLoop ns ns "issued option"
  | AcRenewWait ns ns ns
  | AcObtain ns ns
  | AcStoreKey ns ns issued
  | AcStoreCert ns ns issued
  | AcWait ns ns "issued option" ns
  | CmReturned

text \<open>
  \<open>cm_orders\<close> records when every order was placed and, once its certificate is served, that
  certificate's lifetime; \<open>cm_plain\<close> is the issued keys still in ordinary memory.
\<close>

record cm =
  cm_m :: Manager
  cm_at :: cm_at
  cm_now :: ns
  cm_cancelled :: bool
  cm_store :: key_store
  cm_heap :: heap
  cm_orders :: "(ns \<times> ns option) list"
  cm_plain :: "bytes list"

definition cm_manager :: "(Manager \<Rightarrow> Manager) \<Rightarrow> cm \<Rightarrow> cm" where
  "cm_manager f s = s\<lparr>cm_m := f (cm_m s)\<rparr>"

text \<open>A load that failed: report why and wait, unless the manager is closing.\<close>

definition load_failed :: "(ns \<Rightarrow> cm_at) \<Rightarrow> cert_error \<Rightarrow> cm \<Rightarrow> cm" where
  "load_failed wait e s = (
     if cm_cancelled s then s\<lparr>cm_at := CmReturned\<rparr>
     else (cm_manager (setDetail (Because e)) s)\<lparr>cm_at := wait (cm_now s)\<rparr>)"

text \<open>An order or a write that failed.\<close>

definition acme_failed :: "ns \<Rightarrow> ns \<Rightarrow> issued option \<Rightarrow> cert_error \<Rightarrow> cm \<Rightarrow> cm" where
  "acme_failed backoff earliest pend e s = (
     if cm_cancelled s then s\<lparr>cm_at := CmReturned\<rparr>
     else (cm_manager (\<lambda>m. if m_cert m = None then setDetail (Because e) m else m\<lparr>m_renewalErr := Some e\<rparr>) s)
       \<lparr>cm_at := AcWait backoff earliest pend (cm_now s)\<rparr>)"

definition due :: "ns \<Rightarrow> tls_cert \<Rightarrow> ns" where
  "due earliest c = (if renewAt (tc_leaf c) < earliest then earliest else renewAt (tc_leaf c))"

definition acme_turn :: "ns \<Rightarrow> ns \<Rightarrow> issued option \<Rightarrow> cm \<Rightarrow> cm" where
  "acme_turn backoff earliest pend s = (
     if cm_cancelled s then s\<lparr>cm_at := CmReturned\<rparr>
     else (case pend of
        Some i \<Rightarrow> s\<lparr>cm_at := AcStoreKey backoff earliest i\<rparr>
      | None \<Rightarrow> (case m_cert (cm_m s) of
          Some c \<Rightarrow> if cm_now s < due earliest c then s\<lparr>cm_at := AcRenewWait backoff earliest (due earliest c)\<rparr>
                    else s\<lparr>cm_at := AcObtain backoff earliest\<rparr>
        | None \<Rightarrow> s\<lparr>cm_at := AcObtain backoff earliest\<rparr>)))"

definition order_placed :: "bool \<Rightarrow> ns \<Rightarrow> cm \<Rightarrow> cm" where
  "order_placed writable d s = s\<lparr>cm_now := cm_now s + d, cm_orders := (if writable then (cm_now s, None) # cm_orders s else cm_orders s)\<rparr>"

definition obtained :: "ns \<Rightarrow> ns \<Rightarrow> (cert_error, issued) result \<Rightarrow> cm \<Rightarrow> cm" where
  "obtained backoff earliest r s = (case r of
      Inl e \<Rightarrow> acme_failed backoff earliest None e s
    | Inr i \<Rightarrow> s\<lparr>cm_at := AcStoreKey backoff earliest i, cm_plain := is_Key i # cm_plain s\<rparr>)"

text \<open>Both writes done: the pair is parsed again and served.\<close>

definition stored :: "cert_env \<Rightarrow> ns \<Rightarrow> ns \<Rightarrow> issued \<Rightarrow> cm \<Rightarrow> cm" where
  "stored X backoff earliest i s = (case parsePEM (cx_lib X) (cm_now s) (is_Chain i) (is_Key i) of
      Inl e \<Rightarrow> acme_failed backoff earliest (Some i) (ObtainedUnusable e) s
    | Inr c \<Rightarrow> (cm_manager (Manager_serve c (renewAt (tc_leaf c))) s)
        \<lparr>cm_at := AcLoop acmeMinRetry (cm_now s + lifetime (tc_leaf c) div 3) None, cm_plain := remove1 (is_Key i) (cm_plain s),
         cm_orders := (case cm_orders s of [] \<Rightarrow> [] | (t, _) # os \<Rightarrow> (t, Some (lifetime (tc_leaf c))) # os)\<rparr>)"

definition new_secret :: "bytes option \<Rightarrow> heap \<Rightarrow> Secret \<times> heap" where
  "new_secret v h = (case v of None \<Rightarrow> (None, h) | Some v \<Rightarrow> (case allocate_copy (max (length v) 1) v h of (a, h') \<Rightarrow> (Some a, h')))"

inductive cm_step :: "golib \<Rightarrow> cert_env \<Rightarrow> by_whom \<Rightarrow> cm \<Rightarrow> cm \<Rightarrow> bool" for G X where
  Clock: "0 \<le> d \<Longrightarrow> cm_step G X World s (s\<lparr>cm_now := cm_now s + d\<rparr>)"
| Cancel: "cm_step G X World s (s\<lparr>cm_cancelled := True\<rparr>)"
| Present_alpn: "cm_step G X World s (cm_manager (PresentTLSALPN G domain c) s)"
| Remove_alpn: "cm_step G X World s (cm_manager (RemoveTLSALPN G domain) s)"
| Present_http: "cm_step G X World s (cm_manager (PresentHTTP token keyAuth) s)"
| Remove_http: "cm_step G X World s (cm_manager (RemoveHTTP token) s)"
| Load: "\<lbrakk>cm_at s = OpLoad retry; new_secret v1 (cm_heap s) = (s1, h1); new_secret v2 h1 = (s2, h2);
    fetchAndParse (cx_lib X) (cm_now s) s1 s2 err h2 = (r, h3)\<rbrakk>
    \<Longrightarrow> cm_step G X Own s (case r of
          Inr c \<Rightarrow> (cm_manager (Manager_serve c zeroTime) s)\<lparr>cm_heap := h3, cm_at := CmReturned\<rparr>
        | Inl e \<Rightarrow> load_failed (OpWait retry) e (s\<lparr>cm_heap := h3\<rparr>))"
| Load_retry: "cm_at s = OpWait retry since \<Longrightarrow> since + retry \<le> cm_now s
    \<Longrightarrow> cm_step G X Own s (s\<lparr>cm_at := OpLoad (min (retry * 2) maxRetry)\<rparr>)"
| Load_cancelled: "cm_at s = OpWait retry since \<Longrightarrow> cm_cancelled s \<Longrightarrow> cm_step G X Own s (s\<lparr>cm_at := CmReturned\<rparr>)"
| Stored: "cm_at s = AcLoad retry \<Longrightarrow> loadStored X (cm_now s) a1 a2 (cm_store s) (cm_heap s) = (r, h)
    \<Longrightarrow> cm_step G X Own s (case r of
          Inr None \<Rightarrow> s\<lparr>cm_heap := h, cm_at := AcLoop acmeMinRetry zeroTime None\<rparr>
        | Inr (Some c) \<Rightarrow> (cm_manager (Manager_serve c (renewAt (tc_leaf c))) s)\<lparr>cm_heap := h, cm_at := AcLoop acmeMinRetry zeroTime None\<rparr>
        | Inl e \<Rightarrow> load_failed (AcLoadWait retry) e (s\<lparr>cm_heap := h\<rparr>))"
| Stored_retry: "cm_at s = AcLoadWait retry since \<Longrightarrow> since + retry \<le> cm_now s
    \<Longrightarrow> cm_step G X Own s (s\<lparr>cm_at := AcLoad (min (retry * 2) maxRetry)\<rparr>)"
| Stored_cancelled: "cm_at s = AcLoadWait retry since \<Longrightarrow> cm_cancelled s \<Longrightarrow> cm_step G X Own s (s\<lparr>cm_at := CmReturned\<rparr>)"
| Turn: "cm_at s = AcLoop backoff earliest pend \<Longrightarrow> cm_step G X Own s (acme_turn backoff earliest pend s)"
| Renew: "cm_at s = AcRenewWait backoff earliest t \<Longrightarrow> t \<le> cm_now s
    \<Longrightarrow> cm_step G X Own s (s\<lparr>cm_at := AcLoop backoff earliest None\<rparr>)"
| Renew_cancelled: "cm_at s = AcRenewWait backoff earliest t \<Longrightarrow> cm_cancelled s \<Longrightarrow> cm_step G X Own s (s\<lparr>cm_at := CmReturned\<rparr>)"
| Obtain: "cm_at s = AcObtain backoff earliest \<Longrightarrow> 0 \<le> d
    \<Longrightarrow> cm_step G X Own s (obtained backoff earliest (obtain_issued X (cm_now s + d) writable r) (order_placed writable d s))"
| Store_key: "cm_at s = AcStoreKey backoff earliest i
    \<Longrightarrow> cm_step G X Own s (if ok then s\<lparr>cm_store := (cm_store s)(cx_Key X \<mapsto> is_Key i), cm_at := AcStoreCert backoff earliest i\<rparr>
          else acme_failed backoff earliest (Some i) (CannotStore ''the TLS key'') s)"
| Store_cert: "cm_at s = AcStoreCert backoff earliest i
    \<Longrightarrow> cm_step G X Own s (if ok then stored X backoff earliest i (s\<lparr>cm_store := (cm_store s)(cx_Certificate X \<mapsto> is_Chain i)\<rparr>)
          else acme_failed backoff earliest (Some i) (CannotStore ''the TLS certificate'') s)"
| Retry: "cm_at s = AcWait backoff earliest pend since \<Longrightarrow> since + backoff \<le> cm_now s
    \<Longrightarrow> cm_step G X Own s (s\<lparr>cm_at := AcLoop (min (backoff * 2) acmeMaxRetry) earliest pend\<rparr>)"
| Retry_cancelled: "cm_at s = AcWait backoff earliest pend since \<Longrightarrow> cm_cancelled s \<Longrightarrow> cm_step G X Own s (s\<lparr>cm_at := CmReturned\<rparr>)"

text \<open>\<open>Start\<close> and \<open>StartACME\<close>, with what the Backend holds then.\<close>

definition cm_start :: "cm_at \<Rightarrow> key_store \<Rightarrow> ns \<Rightarrow> cm" where
  "cm_start a st now = \<lparr>cm_m = setDetail LoadingDetail Manager_New, cm_at = a, cm_now = now, cm_cancelled = False, cm_store = st,
     cm_heap = empty_heap, cm_orders = [], cm_plain = []\<rparr>"

inductive cm_reachable :: "golib \<Rightarrow> cert_env \<Rightarrow> cm \<Rightarrow> bool" for G X where
  Start: "cm_reachable G X (cm_start (OpLoad minRetry) st now)"
| StartACME: "cm_reachable G X (cm_start (AcLoad minRetry) st now)"
| Step: "cm_reachable G X s \<Longrightarrow> cm_step G X w s s' \<Longrightarrow> cm_reachable G X s'"

end
