(* ===== verification/Cert_Properties.thy ===== *)
theory Cert_Properties
  imports Cert_Manager
begin

text \<open>
  What the certificate manager guarantees: only valid pairs are served, orders are paced, a
  restart finds the pair it stored, the Secrets it fetched are released, and it stops when
  closed.
\<close>

lemmas cm_defs = cm_manager_def load_failed_def acme_failed_def acme_turn_def order_placed_def obtained_def stored_def
  Manager_serve_def setDetail_def PresentTLSALPN_def RemoveTLSALPN_def PresentHTTP_def RemoveHTTP_def

section \<open>Served pairs\<close>

definition usable :: "certlib \<Rightarrow> tls_cert \<Rightarrow> bool" where
  "usable L c \<longleftrightarrow> tc_chain c \<noteq> [] \<and> ParseCertificate L (hd (tc_chain c)) = Some (tc_leaf c) \<and> KeyMatches L (lf_PublicKey (tc_leaf c)) (tc_key c)"

lemma parsePEM_Inr: "parsePEM L now cp kp = Inr c \<longleftrightarrow> ParseChain L cp ''the TLS certificate'' = Inr (tc_chain c)
    \<and> ParseCertificate L (hd (tc_chain c)) = Some (tc_leaf c) \<and> cert_expired (tc_leaf c) now = None
    \<and> ParseSigner L kp ''the TLS key'' = Inr (tc_key c) \<and> KeyMatches L (lf_PublicKey (tc_leaf c)) (tc_key c)"
  by (auto simp: parsePEM_def split: sum.splits option.splits if_splits)

lemma parsePEM_usable: "parsePEM L now cp kp = Inr c \<Longrightarrow> usable L c"
  using ParseChain_nonempty by (auto simp: parsePEM_Inr usable_def)

lemma parse_usable: "parse L now a b h = Inr c \<Longrightarrow> usable L c"
  by (auto simp: parse_def parsePEM_usable split: option.splits)

lemma loadStored_usable: "loadStored X now a1 a2 st h = (Inr (Some c), h') \<Longrightarrow> usable (cx_lib X) c"
  by (auto simp: loadStored_def parse_usable split: prod.splits sum.splits key_failure.splits if_splits)

lemma fetchAndParse_usable: "fetchAndParse L now a b err h = (Inr c, h') \<Longrightarrow> usable L c"
  by (auto simp: fetchAndParse_def parse_usable split: option.splits)

definition certs_inv :: "cert_env \<Rightarrow> cm \<Rightarrow> bool" where
  "certs_inv X s \<longleftrightarrow> (\<forall>c. m_cert (cm_m s) = Some c \<longrightarrow> usable (cx_lib X) c)"

lemma certs_step: "cm_step G X w s s' \<Longrightarrow> certs_inv X s \<Longrightarrow> certs_inv X s'"
proof (induction rule: cm_step.induct)
  case (Load s retry v1 s1 h1 v2 s2 h2 err r h3)
  then show ?case by (cases r) (auto simp: certs_inv_def cm_defs dest: fetchAndParse_usable)
next
  case (Stored s retry a1 a2 r h)
  then show ?case by (auto simp: certs_inv_def cm_defs dest: loadStored_usable split: sum.splits option.splits)
next
  case (Store_cert s b e i ok)
  then show ?case by (auto simp: certs_inv_def cm_defs dest: parsePEM_usable split: sum.splits)
qed (auto simp: certs_inv_def cm_defs split: sum.splits option.splits)

lemma certs_reachable: "cm_reachable G X s \<Longrightarrow> certs_inv X s"
  by (induction rule: cm_reachable.induct) (auto simp: certs_step, simp_all add: certs_inv_def cm_start_def setDetail_def Manager_New_def)

section \<open>The pace of retries and orders\<close>

fun retry_at :: "cm_at \<Rightarrow> ns option" where
  "retry_at (OpLoad r) = Some r"
| "retry_at (OpWait r t) = Some r"
| "retry_at (AcLoad r) = Some r"
| "retry_at (AcLoadWait r t) = Some r"
| "retry_at _ = None"

fun backoff_of :: "cm_at \<Rightarrow> ns option" where
  "backoff_of (AcLoop b e p) = Some b"
| "backoff_of (AcRenewWait b e t) = Some b"
| "backoff_of (AcObtain b e) = Some b"
| "backoff_of (AcStoreKey b e i) = Some b"
| "backoff_of (AcStoreCert b e i) = Some b"
| "backoff_of (AcWait b e p t) = Some b"
| "backoff_of _ = None"

fun order_gap :: "ns \<times> ns option \<Rightarrow> ns" where
  "order_gap (t, None) = t + acmeMinRetry"
| "order_gap (t, Some l) = t + l div 3"

text \<open>
  What holds of the last order where the goroutine is: with a pair still to store it is that
  pair's; otherwise the next may be placed, or will not be before \<open>earliest\<close>.
\<close>

fun order_at :: "Manager \<Rightarrow> (ns \<times> ns option) list \<Rightarrow> ns \<Rightarrow> cm_at \<Rightarrow> bool" where
  "order_at m os now (AcLoop b e None) = (os \<noteq> [] \<longrightarrow> order_gap (hd os) \<le> now \<or> (m_cert m \<noteq> None \<and> order_gap (hd os) \<le> e))"
| "order_at m os now (AcRenewWait b e t) = (os \<noteq> [] \<longrightarrow> order_gap (hd os) \<le> now \<or> (m_cert m \<noteq> None \<and> order_gap (hd os) \<le> e))"
| "order_at m os now (AcObtain b e) = (os \<noteq> [] \<longrightarrow> order_gap (hd os) \<le> now)"
| "order_at m os now (AcWait b e None since) = (since \<le> now \<and> (os \<noteq> [] \<longrightarrow> order_gap (hd os) \<le> since + acmeMinRetry))"
| "order_at m os now (AcLoop b e (Some i)) = (\<exists>t os'. os = (t, None) # os' \<and> t \<le> now)"
| "order_at m os now (AcStoreKey b e i) = (\<exists>t os'. os = (t, None) # os' \<and> t \<le> now)"
| "order_at m os now (AcStoreCert b e i) = (\<exists>t os'. os = (t, None) # os' \<and> t \<le> now)"
| "order_at m os now (AcWait b e (Some i) since) = (\<exists>t os'. os = (t, None) # os' \<and> t \<le> now)"
| "order_at m os now CmReturned = True"
| "order_at m os now _ = (os = [])"

definition spaced :: "(ns \<times> ns option) list \<Rightarrow> bool" where
  "spaced os \<longleftrightarrow> successively (\<lambda>new old. order_gap old \<le> fst new) os"

definition pace_inv :: "cm \<Rightarrow> bool" where
  "pace_inv s \<longleftrightarrow> (\<forall>r. retry_at (cm_at s) = Some r \<longrightarrow> minRetry \<le> r \<and> r \<le> maxRetry)
     \<and> (\<forall>b. backoff_of (cm_at s) = Some b \<longrightarrow> acmeMinRetry \<le> b \<and> b \<le> acmeMaxRetry)
     \<and> order_at (cm_m s) (cm_orders s) (cm_now s) (cm_at s) \<and> spaced (cm_orders s)"

lemma order_at_later: "order_at m os now a \<Longrightarrow> now \<le> now' \<Longrightarrow> order_at m os now' a"
  by (induction m os now a rule: order_at.induct) auto

lemma order_at_cert: "order_at m os now a \<Longrightarrow> m_cert m' = m_cert m \<Longrightarrow> order_at m' os now a"
  by (induction m os now a rule: order_at.induct) auto

lemma spaced_Cons: "spaced os \<Longrightarrow> (os \<noteq> [] \<Longrightarrow> order_gap (hd os) \<le> t) \<Longrightarrow> spaced ((t, r) # os)"
  by (cases os) (auto simp: spaced_def)

lemma spaced_hd: "spaced ((t, r) # os) \<Longrightarrow> spaced ((t, r') # os)"
  by (cases os) (auto simp: spaced_def)

lemma due_bound: "\<not> now < due e c \<Longrightarrow> e \<le> now"
  by (auto simp: due_def split: if_splits)

lemma pace_start: "pace_inv (cm_start (OpLoad minRetry) st now)" "pace_inv (cm_start (AcLoad minRetry) st now)"
  by (simp_all add: pace_inv_def cm_start_def spaced_def minRetry_def maxRetry_def)

lemma pace_turn:
  assumes "pace_inv s" and "cm_at s = AcLoop b e pend"
  shows "pace_inv (acme_turn b e pend s)"
  using assms by (cases pend) (auto simp: pace_inv_def acme_turn_def split: option.splits dest: due_bound)

lemma pace_obtained:
  assumes "pace_inv s" and "cm_at s = AcObtain b e" and "0 \<le> d"
  shows "pace_inv (obtained b e (obtain_issued X t writable r) (order_placed writable d s))"
proof -
  have i: "acmeMinRetry \<le> b" "b \<le> acmeMaxRetry" "cm_orders s \<noteq> [] \<Longrightarrow> order_gap (hd (cm_orders s)) \<le> cm_now s" "spaced (cm_orders s)"
    using assms(1,2) by (auto simp: pace_inv_def)
  show ?thesis
  proof (cases writable)
    case True
    from spaced_Cons[OF i(4,3)] have sp: "spaced ((cm_now s, None) # cm_orders s)" by simp
    show ?thesis using True i(1,2) sp assms(3)
      by (cases "obtain_issued X t writable r") (auto simp: pace_inv_def cm_defs minRetry_def acmeMinRetry_def)
  next
    case False
    then show ?thesis using i assms(3)
      by (auto simp: pace_inv_def cm_defs obtain_issued_def acmeMinRetry_def)
  qed
qed

lemma pace_stored:
  assumes "pace_inv s" and "cm_at s = AcStoreCert b e i"
  shows "pace_inv (stored X b e i s)"
proof -
  obtain t os where o: "cm_orders s = (t, None) # os" "t \<le> cm_now s" using assms by (auto simp: pace_inv_def)
  have i: "acmeMinRetry \<le> b" "b \<le> acmeMaxRetry" "spaced ((t, None) # os)" using assms o(1) by (auto simp: pace_inv_def)
  show ?thesis using i o spaced_hd[OF i(3)]
    by (cases "parsePEM (cx_lib X) (cm_now s) (is_Chain i) (is_Key i)") (auto simp: pace_inv_def cm_defs acmeMinRetry_def acmeMaxRetry_def)
qed

lemma pace_failed:
  assumes "pace_inv s" and "cm_at s \<in> {AcStoreKey b e i, AcStoreCert b e i}"
  shows "pace_inv (acme_failed b e (Some i) err s)"
  using assms by (auto simp: pace_inv_def acme_failed_def cm_manager_def setDetail_def)

lemma pace_step: "cm_step G X w s s' \<Longrightarrow> pace_inv s \<Longrightarrow> pace_inv s'"
proof (induction rule: cm_step.induct)
  case (Turn s b e pend)
  then show ?case by (blast intro: pace_turn)
next
  case (Obtain s b e d writable r)
  then show ?case by (blast intro: pace_obtained)
next
  case (Store_key s b e i ok)
  then show ?case using pace_failed[of s b e i] by (auto simp: pace_inv_def)
next
  case (Store_cert s b e i ok)
  have "pace_inv (s\<lparr>cm_store := f\<rparr>)" for f using Store_cert(2) by (simp add: pace_inv_def)
  with Store_cert show ?case using pace_failed[of s b e i] pace_stored[of _ b e i X] by auto
next
  case (Retry s b e pend since)
  then show ?case by (cases pend) (auto simp: pace_inv_def acmeMinRetry_def acmeMaxRetry_def)
next
  case (Load s retry v1 s1 h1 v2 s2 h2 err r h3)
  then show ?case by (cases r) (auto simp: pace_inv_def cm_defs)
next
  case (Stored s retry a1 a2 r h)
  then show ?case by (auto simp: pace_inv_def cm_defs acmeMinRetry_def acmeMaxRetry_def split: sum.splits option.splits)
next
  case (Load_retry s retry since)
  then show ?case by (auto simp: pace_inv_def minRetry_def maxRetry_def)
next
  case (Stored_retry s retry since)
  then show ?case by (auto simp: pace_inv_def minRetry_def maxRetry_def)
qed (auto simp: pace_inv_def cm_defs elim: order_at_later order_at_cert)

lemma pace_reachable: "cm_reachable G X s \<Longrightarrow> pace_inv s"
  by (induction rule: cm_reachable.induct) (auto intro: pace_start pace_step)

section \<open>Memory\<close>

definition secret_set :: "Secret \<Rightarrow> nat set" where
  "secret_set s = (case s of None \<Rightarrow> {} | Some a \<Rightarrow> {a})"

lemma newLocked_alive:
  assumes "newLocked True v h = (r, h')" and "heap_inv h"
  shows "heap_inv h' \<and> (\<exists>a. r = Inr (Some a) \<and> alive h' = insert a (alive h) \<and> contents h' (Some a) = Some v)"
proof -
  have n: "r = Inr (Some (h_next h))" "contents h' (Some (h_next h)) = Some v" "\<forall>a. a \<noteq> h_next h \<longrightarrow> contents h' (Some a) = contents h (Some a)"
    using newLocked_ok[OF assms(1)] by auto
  then have "x \<in> alive h' \<longleftrightarrow> x = h_next h \<or> x \<in> alive h" for x by (cases "x = h_next h") (auto simp: alive_iff)
  with newLocked_inv[OF assms] n(1,2) show ?thesis by auto
qed

lemma new_secret_alive:
  assumes "new_secret v h = (s, h')" and "heap_inv h"
  shows "heap_inv h' \<and> alive h' = secret_set s \<union> alive h"
proof (cases v)
  case None
  with assms show ?thesis by (simp add: new_secret_def secret_set_def)
next
  case (Some b)
  with assms(1) obtain a where a: "s = Some a" "newLocked True b h = (Inr (Some a), h')"
    by (auto simp: new_secret_def newLocked_def split: prod.splits)
  from newLocked_alive[OF a(2) assms(2)] a(1) show ?thesis by (auto simp: secret_set_def)
qed

lemma release_alive: "heap_inv h \<Longrightarrow> heap_inv (Secret_Release s h) \<and> alive (Secret_Release s h) = alive h - secret_set s"
  by (cases s) (auto simp: Secret_Release_def secret_set_def release_inv)

lemma fetch_key_alive:
  assumes "fetch_key ok k st h = (r, h')" and "heap_inv h"
  shows "heap_inv h' \<and> (case r of Inl _ \<Rightarrow> h' = h | Inr s \<Rightarrow> alive h' = secret_set s \<union> alive h \<and> (\<exists>v. st k = Some v \<and> contents h' s = Some v))"
proof (cases "ok \<and> st k \<noteq> None")
  case False
  with assms show ?thesis by (auto simp: fetch_key_def split: if_splits option.splits)
next
  case True
  then obtain v where v: "st k = Some v" by auto
  obtain r' h1 where n: "newLocked True v h = (r', h1)" by fastforce
  from newLocked_alive[OF n assms(2)] True v n assms(1) show ?thesis by (auto simp: fetch_key_def secret_set_def)
qed

lemma loadStored_alive:
  assumes "loadStored X now a1 a2 st h = (r, h')" and "heap_inv h" and "alive h = {}"
  shows "heap_inv h' \<and> alive h' = {}"
proof -
  obtain q1 h1 where f1: "fetch_key a1 (cx_Certificate X) st h = (q1, h1)" by fastforce
  note k1 = fetch_key_alive[OF f1 assms(2)]
  show ?thesis
  proof (cases q1)
    case (Inl e)
    with k1 f1 assms show ?thesis by (cases e) (auto simp: loadStored_def)
  next
    case (Inr c)
    obtain q2 h2 where f2: "fetch_key a2 (cx_Key X) st h1 = (q2, h2)" by fastforce
    have h1: "heap_inv h1" "alive h1 = secret_set c" using k1 Inr assms(3) by auto
    note k2 = fetch_key_alive[OF f2 h1(1)]
    show ?thesis
    proof (cases q2)
      case (Inl e)
      with k2 h1 \<open>q1 = Inr c\<close> f1 f2 assms(1) release_alive[of h1 c] show ?thesis by (cases e) (auto simp: loadStored_def)
    next
      case (Inr k)
      then have "heap_inv h2" "alive h2 = secret_set k \<union> secret_set c" using k2 h1 by auto
      with \<open>q1 = Inr c\<close> Inr f1 f2 assms(1) release_alive[of h2 k] release_alive[of "Secret_Release k h2" c]
      show ?thesis by (auto simp: loadStored_def)
    qed
  qed
qed

definition memory_inv :: "cm \<Rightarrow> bool" where
  "memory_inv s \<longleftrightarrow> heap_inv (cm_heap s) \<and> alive (cm_heap s) = {}"

lemma memory_step: "cm_step G X w s s' \<Longrightarrow> memory_inv s \<Longrightarrow> memory_inv s'"
proof (induction rule: cm_step.induct)
  case (Load s retry v1 s1 h1 v2 s2 h2 err r h3)
  have i: "heap_inv (cm_heap s)" "alive (cm_heap s) = {}" using Load.prems by (auto simp: memory_inv_def)
  note n1 = new_secret_alive[OF Load.hyps(2) i(1)]
  note n2 = new_secret_alive[OF Load.hyps(3) conjunct1[OF n1]]
  have "h3 = Secret_Release s1 (Secret_Release s2 h2)" using Load.hyps(4) by (simp add: fetchAndParse_def)
  with n1 n2 i(2) release_alive[of h2 s2] release_alive[of "Secret_Release s2 h2" s1] have "heap_inv h3 \<and> alive h3 = {}" by auto
  then show ?case by (cases r) (auto simp: memory_inv_def cm_defs)
next
  case (Stored s retry a1 a2 r h)
  then have "heap_inv h \<and> alive h = {}" using loadStored_alive by (auto simp: memory_inv_def)
  then show ?case by (auto simp: memory_inv_def cm_defs split: sum.splits option.splits)
qed (auto simp: memory_inv_def cm_defs split: sum.splits option.splits)

lemma memory_reachable: "cm_reachable G X s \<Longrightarrow> memory_inv s"
  by (induction rule: cm_reachable.induct) (auto simp: memory_step, simp_all add: memory_inv_def cm_start_def empty_heap_def heap_inv_def alive_def contents_def deref_def)

section \<open>What the Backend holds\<close>

lemma parsePEM_time: "parsePEM L t cp kp = Inr c \<Longrightarrow> cert_expired (tc_leaf c) now = None \<Longrightarrow> parsePEM L now cp kp = Inr c"
  by (simp add: parsePEM_Inr)

definition backed :: "cert_env \<Rightarrow> key_store \<Rightarrow> tls_cert \<Rightarrow> bool" where
  "backed X st c \<longleftrightarrow> (\<exists>cp kp t. st (cx_Certificate X) = Some cp \<and> st (cx_Key X) = Some kp \<and> parsePEM (cx_lib X) t cp kp = Inr c)"

fun settled :: "cm_at \<Rightarrow> bool" where
  "settled (AcLoop b e None) = True"
| "settled (AcRenewWait b e t) = True"
| "settled (AcObtain b e) = True"
| "settled (AcWait b e None t) = True"
| "settled _ = False"

fun early :: "cm_at \<Rightarrow> bool" where
  "early (OpLoad r) = True"
| "early (OpWait r t) = True"
| "early (AcLoad r) = True"
| "early (AcLoadWait r t) = True"
| "early _ = False"

definition backed_inv :: "cert_env \<Rightarrow> cm \<Rightarrow> bool" where
  "backed_inv X s \<longleftrightarrow> (early (cm_at s) \<longrightarrow> m_cert (cm_m s) = None)
     \<and> (\<forall>c. settled (cm_at s) \<longrightarrow> m_cert (cm_m s) = Some c \<longrightarrow> backed X (cm_store s) c)
     \<and> (\<forall>b e i. cm_at s = AcStoreCert b e i \<longrightarrow> cm_store s (cx_Key X) = Some (is_Key i))"

lemma loadStored_backed:
  assumes "loadStored X now a1 a2 st h = (Inr (Some c), h')" and "heap_inv h"
  shows "backed X st c"
proof -
  obtain cs h1 where f1: "fetch_key a1 (cx_Certificate X) st h = (Inr cs, h1)"
    using assms(1) by (auto simp: loadStored_def split: prod.splits sum.splits key_failure.splits)
  then obtain ks h2 where f2: "fetch_key a2 (cx_Key X) st h1 = (Inr ks, h2)"
    using assms(1) by (auto simp: loadStored_def split: prod.splits sum.splits key_failure.splits)
  have p: "parse (cx_lib X) now cs ks h2 = Inr c"
    using assms(1) f1 f2 by (auto simp: loadStored_def split: sum.splits if_splits)
  note k1 = fetch_key_alive[OF f1 assms(2)]
  then obtain cp where cp: "st (cx_Certificate X) = Some cp" "contents h1 cs = Some cp" "heap_inv h1" by auto
  from fetch_key_alive[OF f2 cp(3)] obtain kp where kp: "st (cx_Key X) = Some kp" "contents h2 ks = Some kp" by auto
  have "contents h2 cs = Some cp"
  proof -
    obtain a where a: "cs = Some a" using cp(2) by (cases cs) (auto simp: contents_def deref_def)
    obtain v where "newLocked True v h1 = (Inr ks, h2)" using f2 kp(1) by (auto simp: fetch_key_def split: if_splits prod.splits sum.splits)
    from newLocked_ok[OF this] have "a \<noteq> h_next h1 \<Longrightarrow> contents h2 (Some a) = contents h1 (Some a)" by auto
    moreover have "a < h_next h1" using alive_less[OF cp(3)] cp(2) a by (auto simp: alive_iff)
    ultimately show ?thesis using a cp(2) by simp
  qed
  with p kp(2) have "parsePEM (cx_lib X) now cp kp = Inr c" by (simp add: parse_def)
  with cp(1) kp(1) show ?thesis by (auto simp: backed_def)
qed

lemma backed_step:
  assumes "cm_step G X w s s'" and "backed_inv X s" and "memory_inv s" and "cx_Certificate X \<noteq> cx_Key X"
  shows "backed_inv X s'"
  using assms(1-3)
proof (induction rule: cm_step.induct)
  case (Load s retry v1 s1 h1 v2 s2 h2 err r h3)
  then show ?case by (cases r) (auto simp: backed_inv_def cm_defs)
next
  case (Stored s retry a1 a2 r h)
  then show ?case using loadStored_backed by (auto simp: backed_inv_def memory_inv_def cm_defs split: sum.splits option.splits)
next
  case (Turn s b e pend)
  then show ?case by (cases pend) (auto simp: backed_inv_def cm_defs split: option.splits)
next
  case (Obtain s b e d writable r)
  then show ?case by (auto simp: backed_inv_def cm_defs split: sum.splits)
next
  case (Store_key s b e i ok)
  then show ?case by (auto simp: backed_inv_def cm_defs)
next
  case (Store_cert s b e i ok)
  then have k: "cm_store s (cx_Key X) = Some (is_Key i)" by (simp add: backed_inv_def)
  show ?case using Store_cert k assms(4)
    by (cases "parsePEM (cx_lib X) (cm_now s) (is_Chain i) (is_Key i)") (auto simp: backed_inv_def backed_def cm_defs)
next
  case (Retry s b e pend since)
  then show ?case by (cases pend) (auto simp: backed_inv_def)
qed (auto simp: backed_inv_def cm_defs)

lemma backed_reachable: "cm_reachable G X s \<Longrightarrow> cx_Certificate X \<noteq> cx_Key X \<Longrightarrow> backed_inv X s"
proof (induction rule: cm_reachable.induct)
  case (Step s w s')
  then show ?case using backed_step memory_reachable by blast
qed (simp_all add: backed_inv_def cm_start_def setDetail_def Manager_New_def)

section \<open>Closing\<close>

fun cm_left :: "cm_at \<Rightarrow> nat" where
  "cm_left CmReturned = 0"
| "cm_left (AcLoop b e p) = 1"
| "cm_left (OpLoad r) = 1"
| "cm_left (OpWait r t) = 2"
| "cm_left (AcLoad r) = 2"
| "cm_left (AcLoadWait r t) = 3"
| "cm_left (AcRenewWait b e t) = 2"
| "cm_left (AcWait b e p t) = 2"
| "cm_left (AcStoreCert b e i) = 2"
| "cm_left (AcStoreKey b e i) = 3"
| "cm_left (AcObtain b e) = 4"

inductive_cases cm_ownE: "cm_step G X Own s s'"
inductive_cases cm_worldE: "cm_step G X World s s'"

lemma cm_own_less: "cm_step G X Own s t \<Longrightarrow> cm_cancelled s \<Longrightarrow> cm_left (cm_at t) < cm_left (cm_at s)"
  by (erule cm_ownE) (auto simp: cm_defs split: sum.splits option.splits)

lemma cm_world_at: "cm_step G X World s t \<Longrightarrow> cm_at t = cm_at s"
  by (erule cm_worldE) (auto simp: cm_defs)

lemma cm_stays: "cm_step G X w s t \<Longrightarrow> cm_cancelled s \<Longrightarrow> cm_cancelled t"
  by (induction rule: cm_step.induct) (auto simp: cm_defs split: sum.splits option.splits)

lemma cm_enabled:
  assumes "cm_cancelled s" and "cm_at s \<noteq> CmReturned"
  shows "\<exists>t. cm_step G X Own s t"
proof (cases "cm_at s")
  case (OpLoad r)
  obtain q h3 where "fetchAndParse (cx_lib X) (cm_now s) None None None (cm_heap s) = (q, h3)" by fastforce
  from cm_step.Load[OF OpLoad _ _ this, where ?v1.0 = None and ?v2.0 = None] show ?thesis by (auto simp: new_secret_def)
next
  case (AcLoad r)
  obtain q h where "loadStored X (cm_now s) True True (cm_store s) (cm_heap s) = (q, h)" by fastforce
  from cm_step.Stored[OF AcLoad this] show ?thesis by blast
next
  case (AcObtain b e)
  from cm_step.Obtain[OF this order.refl] show ?thesis by blast
qed (use assms in \<open>blast intro: cm_step.intros\<close>)+

interpretation manager: goroutine "cm_step G X" cm_cancelled "\<lambda>s. cm_left (cm_at s)" for G X
proof
  fix s :: cm assume "cm_cancelled s" "0 < cm_left (cm_at s)"
  then show "\<exists>t. cm_step G X Own s t" by (intro cm_enabled) auto
qed (auto simp: cm_own_less cm_world_at cm_stays)

lemma cm_left_le: "cm_left a \<le> 4"
  by (cases a) auto

lemma cm_left_0: "cm_left a = 0 \<longleftrightarrow> a = CmReturned"
  by (cases a) auto

text \<open>
  \<open>Close\<close> returns. Once the manager is closing, the goroutine takes at most four more of its
  own steps whatever the Backend, the issuer and the clock do, some run reaches its end, it is
  stuck only once it has returned, and no Secret it fetched stays in locked memory.
\<close>

theorem manager_closes:
  assumes "cm_reachable G X s" and "cm_cancelled s"
  shows "(\<exists>n t. runs (cm_step G X) s n t \<and> cm_at t = CmReturned)
    \<and> (\<forall>n t. runs (cm_step G X) s n t \<longrightarrow> n \<le> 4 \<and> ((\<nexists>u. cm_step G X Own t u) \<longrightarrow> cm_at t = CmReturned) \<and> alive (cm_heap t) = {})"
proof -
  have "cm_reachable G X t" if "runs (cm_step G X) s n t" for n t
    using that assms(1) by (induction rule: runs.induct) (auto intro: cm_reachable.Step)
  then have "alive (cm_heap t) = {}" if "runs (cm_step G X) s n t" for n t
    using memory_reachable that unfolding memory_inv_def by blast
  moreover have "n \<le> 4" if "runs (cm_step G X) s n t" for n t
    using manager.runs_left[OF that assms(2)] cm_left_le[of "cm_at s"] by linarith
  moreover have "cm_at t = CmReturned" if "runs (cm_step G X) s n t" "\<nexists>u. cm_step G X Own t u" for n t
    using manager.stuck_done[OF that(1) assms(2) that(2)] by (simp add: cm_left_0)
  ultimately show ?thesis using manager.runs_end[OF assms(2), of G X] by (auto simp: cm_left_0)
qed

section \<open>What handshakes get\<close>

lemma Certificate_Inr: "Certificate now m = Inr c \<longleftrightarrow> m_cert m = Some c \<and> lf_NotBefore (tc_leaf c) \<le> now \<and> now \<le> lf_NotAfter (tc_leaf c)"
  by (auto simp: Certificate_def cert_expired_def split: option.splits if_splits)

text \<open>
  C31: a handshake completes only with a pair that is good at that moment. Whatever the Backend
  and the issuer have answered, the certificate a handshake gets is either the challenge
  certificate presented for the name a TLS-ALPN-01 validation asks for, or one that parsed, is
  within its validity and matches its private key; and the status the Operator reads says
  loaded exactly when ordinary handshakes get a certificate.
\<close>

theorem served_certificates_valid:
  assumes "cm_reachable G X s" and "GetCertificate G now hello (cm_m s) = Inr c"
  shows "if hello_SupportedProtos hello = [ALPNProto] then map_of (m_alpn (cm_m s)) (go_ToLower G (hello_ServerName hello)) = Some c
    else cs_Loaded (Manager_Status now (cm_m s)) \<and> lf_NotBefore (tc_leaf c) \<le> now \<and> now \<le> lf_NotAfter (tc_leaf c)
      \<and> ParseCertificate (cx_lib X) (hd (tc_chain c)) = Some (tc_leaf c) \<and> KeyMatches (cx_lib X) (lf_PublicKey (tc_leaf c)) (tc_key c)"
proof (cases "hello_SupportedProtos hello = [ALPNProto]")
  case True
  with assms(2) show ?thesis by (auto simp: GetCertificate_def split: option.splits)
next
  case False
  with assms(2) have c: "m_cert (cm_m s) = Some c" "lf_NotBefore (tc_leaf c) \<le> now" "now \<le> lf_NotAfter (tc_leaf c)"
    by (auto simp: GetCertificate_def Certificate_Inr)
  with certs_reachable[OF assms(1)] have "usable (cx_lib X) c" by (simp add: certs_inv_def)
  with False c show ?thesis by (simp add: usable_def Manager_Status_def cert_expired_def)
qed

text \<open>
  C33: the CA is not flooded. Over every run, an order is placed only after the Backend has
  answered, at least 30 seconds after one that failed, and after one whose certificate went into
  service not before a third of that certificate's lifetime, even when the certificate or the
  clock says it is already due; an issued pair waiting to be stored is never ordered again.
\<close>

theorem orders_paced:
  assumes "cm_reachable G X s"
  shows "successively (\<lambda>(t', _) (t, outcome). t + (case outcome of None \<Rightarrow> acmeMinRetry | Some l \<Rightarrow> l div 3) \<le> t') (cm_orders s)
    \<and> (early (cm_at s) \<longrightarrow> cm_orders s = [])
    \<and> (\<forall>b e. cm_at s = AcObtain b e \<longrightarrow> cm_orders s \<noteq> [] \<longrightarrow>
         fst (hd (cm_orders s)) + (case snd (hd (cm_orders s)) of None \<Rightarrow> acmeMinRetry | Some l \<Rightarrow> l div 3) \<le> cm_now s)"
proof -
  have g: "order_gap (t, r) = t + (case r of None \<Rightarrow> acmeMinRetry | Some l \<Rightarrow> l div 3)" for t r by (cases r) auto
  have i: "order_at (cm_m s) (cm_orders s) (cm_now s) (cm_at s)" "spaced (cm_orders s)" using pace_reachable[OF assms] by (auto simp: pace_inv_def)
  have "successively (\<lambda>(t', _) (t, outcome). t + (case outcome of None \<Rightarrow> acmeMinRetry | Some l \<Rightarrow> l div 3) \<le> t') (cm_orders s)"
    using i(2) unfolding spaced_def by (rule successively_mono) (auto simp: g)
  moreover have "early (cm_at s) \<longrightarrow> cm_orders s = []" using i(1) by (cases "cm_at s") auto
  moreover have "fst (hd (cm_orders s)) + (case snd (hd (cm_orders s)) of None \<Rightarrow> acmeMinRetry | Some l \<Rightarrow> l div 3) \<le> cm_now s"
    if "cm_at s = AcObtain b e" "cm_orders s \<noteq> []" for b e
    using i(1) that g[of "fst (hd (cm_orders s))" "snd (hd (cm_orders s))"] by simp
  ultimately show ?thesis by blast
qed

lemma loadStored_finds:
  assumes "backed X st c" and "heap_inv h" and "cert_expired (tc_leaf c) now = None" and "set (cx_Domains X) \<subseteq> set (lf_DNSNames (tc_leaf c))"
  shows "fst (loadStored X now True True st h) = Inr (Some c)"
proof -
  obtain cp kp t where b: "st (cx_Certificate X) = Some cp" "st (cx_Key X) = Some kp" "parsePEM (cx_lib X) t cp kp = Inr c"
    using assms(1) by (auto simp: backed_def)
  obtain r1 h1 where n1: "newLocked True cp h = (r1, h1)" by fastforce
  from newLocked_alive[OF this assms(2)] obtain a where a: "r1 = Inr (Some a)" "contents h1 (Some a) = Some cp" "heap_inv h1" by auto
  obtain r2 h2 where n2: "newLocked True kp h1 = (r2, h2)" by fastforce
  from newLocked_alive[OF this a(3)] obtain k where k: "r2 = Inr (Some k)" "contents h2 (Some k) = Some kp" by auto
  have "a < h_next h1" using alive_less[OF a(3)] a(2) by (auto simp: alive_iff)
  then have "contents h2 (Some a) = Some cp" using newLocked_ok[OF n2] a(2) by auto
  then have "parse (cx_lib X) now (Some a) (Some k) h2 = Inr c" using k(2) parsePEM_time[OF b(3) assms(3)] by (simp add: parse_def)
  moreover have "list_all (\<lambda>d. d \<in> set (lf_DNSNames (tc_leaf c))) (cx_Domains X)" using assms(4) by (auto simp: list_all_iff)
  ultimately show ?thesis using b(1,2) n1 n2 a(1) k(1) by (simp add: loadStored_def fetch_key_def)
qed

text \<open>
  C32: a restart does not order again. Whenever the ACME manager serves a certificate and no
  pair is waiting to be stored, the Backend holds that pair: reading it back yields the very
  certificate, as long as it names the configured domains and is within its validity.
\<close>

theorem restart_finds_pair:
  assumes "cm_reachable G X s" and "settled (cm_at s)" and "m_cert (cm_m s) = Some c" and "cx_Certificate X \<noteq> cx_Key X"
    and "lf_NotBefore (tc_leaf c) \<le> now" and "now \<le> lf_NotAfter (tc_leaf c)" and "set (cx_Domains X) \<subseteq> set (lf_DNSNames (tc_leaf c))"
  shows "fst (loadStored X now True True (cm_store s) empty_heap) = Inr (Some c)"
proof -
  have "backed X (cm_store s) c" using backed_reachable[OF assms(1,4)] assms(2,3) by (simp add: backed_inv_def)
  moreover have "heap_inv empty_heap" by (simp add: empty_heap_def heap_inv_def)
  ultimately show ?thesis using loadStored_finds assms(5-7) by (simp add: cert_expired_def)
qed

section \<open>A pair that expires before it is stored\<close>

fun pending_at :: "cm_at \<Rightarrow> issued option" where
  "pending_at (AcLoop b e p) = p"
| "pending_at (AcStoreKey b e i) = Some i"
| "pending_at (AcStoreCert b e i) = Some i"
| "pending_at (AcWait b e p t) = p"
| "pending_at _ = None"

definition overdue :: "cert_env \<Rightarrow> issued \<Rightarrow> ns \<Rightarrow> bool" where
  "overdue X i now \<longleftrightarrow> (\<exists>t c. parsePEM (cx_lib X) t (is_Chain i) (is_Key i) = Inr c \<and> lf_NotAfter (tc_leaf c) < now)"

lemma overdue_unusable:
  assumes "overdue X i now"
  shows "\<exists>e. parsePEM (cx_lib X) now (is_Chain i) (is_Key i) = Inl e"
proof -
  obtain t c where c: "parsePEM (cx_lib X) t (is_Chain i) (is_Key i) = Inr c" "lf_NotAfter (tc_leaf c) < now" using assms by (auto simp: overdue_def)
  have False if "parsePEM (cx_lib X) now (is_Chain i) (is_Key i) = Inr c'" for c'
    using that c by (auto simp: parsePEM_Inr cert_expired_def split: if_splits)
  then show ?thesis by (cases "parsePEM (cx_lib X) now (is_Chain i) (is_Key i)") auto
qed

definition trapped :: "cert_env \<Rightarrow> issued \<Rightarrow> cm \<Rightarrow> bool" where
  "trapped X i s \<longleftrightarrow> (cm_at s = CmReturned \<or> pending_at (cm_at s) = Some i) \<and> overdue X i (cm_now s)"

lemma trapped_step:
  assumes "cm_step G X w s s'" and "trapped X i s"
  shows "trapped X i s' \<and> cm_orders s' = cm_orders s \<and> m_cert (cm_m s') = m_cert (cm_m s)"
  using assms
proof (induction rule: cm_step.induct)
  case (Clock d s)
  then show ?case by (fastforce simp: trapped_def overdue_def)
next
  case (Store_cert s b e j ok)
  then have "j = i" "overdue X i (cm_now s)" by (auto simp: trapped_def)
  with Store_cert overdue_unusable[of X i "cm_now s"] show ?case by (cases "cm_cancelled s") (auto simp: trapped_def cm_defs)
qed (auto simp: trapped_def cm_defs split: sum.splits option.splits)

text \<open>
  C34: a pair that expires before the Backend stored it blocks renewal. Once the certificate of
  the pair waiting to be stored has expired, no run of the manager ever places another order or
  puts another certificate into service: storing it can succeed, but the stored pair then fails
  to parse as expired and stays the one to store.
\<close>

theorem expired_pair_blocks_renewal:
  assumes "pending_at (cm_at s) = Some i" and "parsePEM (cx_lib X) t (is_Chain i) (is_Key i) = Inr c" and "lf_NotAfter (tc_leaf c) < cm_now s"
    and "runs (cm_step G X) s n s'"
  shows "cm_orders s' = cm_orders s \<and> m_cert (cm_m s') = m_cert (cm_m s)"
proof -
  have "trapped X i s" using assms(1-3) by (auto simp: trapped_def overdue_def)
  with assms(4) have "trapped X i s' \<and> cm_orders s' = cm_orders s \<and> m_cert (cm_m s') = m_cert (cm_m s)"
    by (induction rule: runs.induct) (auto dest: trapped_step)
  then show ?thesis by blast
qed

text \<open>Renewal starts before the certificate expires, however long it is valid.\<close>

lemma renewAt_bounds:
  assumes "lf_NotBefore lf + 1000000000 \<le> lf_NotAfter lf"
  shows "lf_NotBefore lf < renewAt lf \<and> renewAt lf < lf_NotAfter lf"
proof -
  have l: "1000000000 \<le> lifetime lf" "lifetime lf \<le> lf_NotAfter lf - lf_NotBefore lf"
    using assms by (auto simp: lifetime_def time_Sub_def longest_def)
  have "0 < lifetime lf div 3" using l(1) by simp
  moreover have "lifetime lf div 3 * 2 < lifetime lf" using l(1) by linarith
  ultimately show ?thesis using l(2) by (simp add: renewAt_def)
qed

section \<open>An example\<close>

definition example_leaf :: leaf where
  "example_leaf = \<lparr>lf_NotBefore = 0, lf_NotAfter = 7776000000000000, lf_DNSNames = [''tc.example''], lf_PublicKey = ''k''\<rparr>"

definition example_certlib :: certlib where
  "example_certlib = \<lparr>pem_decode = (\<lambda>d. if d = ''-----BEGIN C'' then (Some (''CERTIFICATE'', ''c''), [])
       else if d = ''-----BEGIN K'' then (Some (''PRIVATE KEY'', ''k''), []) else (None, d)),
     pem_encode = (\<lambda>t b. []), ParseCertificate = (\<lambda>_. Some example_leaf), ParsePKCS8 = (\<lambda>d. Some (Inr d)), ParsePKCS1 = (\<lambda>_. None),
     ParseEC = (\<lambda>_. None), MarshalPKCS8 = (\<lambda>_. None), signer_Public = (\<lambda>k. k), public_Equal = (=)\<rparr>"

definition example_tls :: tls_cert where
  "example_tls = \<lparr>tc_chain = [''c''], tc_key = ''k'', tc_leaf = example_leaf\<rparr>"

definition example_cx :: cert_env where
  "example_cx = \<lparr>cx_lib = example_certlib, cx_Domains = [''tc.example''], cx_Certificate = \<lparr>ck_Backend = ''bao'', ck_Location = ''tls/cert''\<rparr>,
     cx_Key = \<lparr>ck_Backend = ''bao'', ck_Location = ''tls/key''\<rparr>\<rparr>"

definition example_issued_pair :: issued where
  "example_issued_pair = \<lparr>is_Chain = ''-----BEGIN C'', is_Key = ''-----BEGIN K''\<rparr>"

definition example_store :: key_store where
  "example_store = [cx_Certificate example_cx \<mapsto> is_Chain example_issued_pair, cx_Key example_cx \<mapsto> is_Key example_issued_pair]"

lemma example_parse: "parsePEM example_certlib 10 ''-----BEGIN C'' ''-----BEGIN K'' = Inr example_tls"
  by (simp add: parsePEM_Inr example_tls_def example_certlib_def example_leaf_def cert_expired_def ParseChain_def ParseSigner_def IsPEM_def
      hasPrefix_def pem_space_def KeyMatches_def all_space_def)

lemma example_distinct: "cx_Certificate example_cx \<noteq> cx_Key example_cx"
  by (simp add: example_cx_def)

lemma example_backed: "backed example_cx example_store example_tls"
  unfolding backed_def
  by (rule exI[of _ "''-----BEGIN C''"], rule exI[of _ "''-----BEGIN K''"], rule exI[of _ 10])
    (simp add: example_store_def example_cx_def example_issued_pair_def example_parse)

definition example_serving :: cm where
  "example_serving = (let s = cm_start (AcLoad minRetry) example_store 10 in
     (cm_manager (Manager_serve example_tls (renewAt example_leaf)) s)
       \<lparr>cm_heap := snd (loadStored example_cx 10 True True example_store empty_heap), cm_at := AcLoop acmeMinRetry zeroTime None\<rparr>)"

lemma example_serving_reachable: "cm_reachable G example_cx example_serving"
proof -
  let ?s = "cm_start (AcLoad minRetry) example_store 10"
  have e: "heap_inv empty_heap" "cert_expired (tc_leaf example_tls) 10 = None" "set (cx_Domains example_cx) \<subseteq> set (lf_DNSNames (tc_leaf example_tls))"
    by (simp_all add: heap_inv_def empty_heap_def cert_expired_def example_tls_def example_leaf_def example_cx_def)
  obtain h where "loadStored example_cx 10 True True example_store empty_heap = (Inr (Some example_tls), h)"
    using loadStored_finds[OF example_backed e] by (metis prod.collapse)
  with cm_step.Stored[of ?s minRetry example_cx True True "Inr (Some example_tls)" h G] have "cm_step G example_cx Own ?s example_serving"
    by (simp add: example_serving_def cm_start_def Let_def cm_manager_def example_tls_def)
  from cm_reachable.Step[OF cm_reachable.StartACME this] show ?thesis .
qed

lemma example_serving_cert: "m_cert (cm_m example_serving) = Some example_tls" "settled (cm_at example_serving)"
  by (simp_all add: example_serving_def cm_start_def cm_manager_def Manager_serve_def Let_def)

theorem served_certificates_valid_witness:
  "GetCertificate example_golib 20 \<lparr>hello_SupportedProtos = [''h2''], hello_ServerName = ''tc.example''\<rparr> (cm_m example_serving) = Inr example_tls
   \<and> KeyMatches example_certlib ''k'' ''k''"
proof -
  have g: "GetCertificate example_golib 20 \<lparr>hello_SupportedProtos = [''h2''], hello_ServerName = ''tc.example''\<rparr> (cm_m example_serving) = Inr example_tls"
    by (simp add: GetCertificate_def ALPNProto_def Certificate_Inr example_serving_cert example_tls_def example_leaf_def)
  from served_certificates_valid[OF example_serving_reachable g] g show ?thesis
    by (simp add: ALPNProto_def example_tls_def example_leaf_def example_cx_def)
qed

theorem restart_finds_pair_witness:
  "fst (loadStored example_cx 30 True True (cm_store example_serving) empty_heap) = Inr (Some example_tls)"
  by (rule restart_finds_pair[OF example_serving_reachable[of example_golib] example_serving_cert(2,1) example_distinct])
    (simp_all add: example_tls_def example_leaf_def example_cx_def)

theorem manager_closes_witness:
  "\<exists>n t. runs (cm_step example_golib example_cx) (example_serving\<lparr>cm_cancelled := True\<rparr>) n t \<and> cm_at t = CmReturned"
  using manager_closes[OF cm_reachable.Step[OF example_serving_reachable cm_step.Cancel]] by simp

definition example_ordered :: cm where
  "example_ordered = (cm_start (AcLoad minRetry) (\<lambda>_. None) 10)\<lparr>cm_at := AcStoreKey acmeMinRetry zeroTime example_issued_pair,
     cm_orders := [(10, None)], cm_plain := [''-----BEGIN K'']\<rparr>"

lemma example_ordered_reachable: "cm_reachable G example_cx example_ordered"
proof -
  let ?s = "cm_start (AcLoad minRetry) (\<lambda>_. None) 10"
  let ?t = "?s\<lparr>cm_at := AcLoop acmeMinRetry zeroTime None\<rparr>"
  let ?u = "?s\<lparr>cm_at := AcObtain acmeMinRetry zeroTime\<rparr>"
  have "cm_step G example_cx Own ?s ?t"
    using cm_step.Stored[of ?s minRetry example_cx True True "Inr None" empty_heap G] by (simp add: cm_start_def loadStored_def fetch_key_def)
  then have a: "cm_reachable G example_cx ?t" by (rule cm_reachable.Step[OF cm_reachable.StartACME])
  have "cm_step G example_cx Own ?t ?u"
    using cm_step.Turn[of ?t acmeMinRetry zeroTime None G example_cx] by (simp add: cm_start_def acme_turn_def Manager_New_def setDetail_def)
  from cm_reachable.Step[OF a this] have b: "cm_reachable G example_cx ?u" .
  have "cm_step G example_cx Own ?u example_ordered"
    using cm_step.Obtain[of ?u acmeMinRetry zeroTime 0 G example_cx True "Inr example_issued_pair"]
    by (simp add: example_ordered_def cm_start_def obtained_def obtain_issued_def order_placed_def example_issued_pair_def example_cx_def example_parse)
  from cm_reachable.Step[OF b this] show ?thesis .
qed

theorem orders_paced_witness:
  "cm_orders example_ordered = [(10, None)]
   \<and> successively (\<lambda>(t', _) (t, outcome). t + (case outcome of None \<Rightarrow> acmeMinRetry | Some l \<Rightarrow> l div 3) \<le> t') (cm_orders example_ordered)"
  using orders_paced[OF example_ordered_reachable[of example_golib]] by (simp add: example_ordered_def)

theorem expired_pair_blocks_renewal_witness:
  "\<exists>s'. runs (cm_step example_golib example_cx) (example_ordered\<lparr>cm_now := 7776000000000001\<rparr>) 1 s' \<and> cm_orders s' = [(10, None)] \<and> m_cert (cm_m s') = None"
proof -
  let ?s = "example_ordered\<lparr>cm_now := 7776000000000001\<rparr>"
  have "cm_step example_golib example_cx Own ?s (?s\<lparr>cm_store := (cm_store ?s)(cx_Key example_cx \<mapsto> is_Key example_issued_pair),
      cm_at := AcStoreCert acmeMinRetry zeroTime example_issued_pair\<rparr>)"
    using cm_step.Store_key[of ?s acmeMinRetry zeroTime example_issued_pair example_golib example_cx True] by (simp add: example_ordered_def)
  from runs.Own_step[where step = "cm_step example_golib example_cx", OF runs.Here this]
  obtain s' where r: "runs (cm_step example_golib example_cx) ?s 1 s'" by auto
  have "pending_at (cm_at ?s) = Some example_issued_pair" "lf_NotAfter (tc_leaf example_tls) < cm_now ?s"
    by (simp_all add: example_ordered_def example_tls_def example_leaf_def)
  moreover have "parsePEM (cx_lib example_cx) 10 (is_Chain example_issued_pair) (is_Key example_issued_pair) = Inr example_tls"
    using example_parse by (simp add: example_cx_def example_issued_pair_def)
  ultimately have "cm_orders s' = cm_orders ?s \<and> m_cert (cm_m s') = m_cert (cm_m ?s)" using expired_pair_blocks_renewal r by blast
  with r show ?thesis by (auto simp: example_ordered_def cm_start_def setDetail_def Manager_New_def)
qed

end
