(* ===== verification/Go_JSON_UTF8.thy ===== *)
theory Go_JSON_UTF8
  imports Go_JSON
begin

text \<open>
  What \<open>encoding/json\<close> does to any Go string, valid UTF-8 or not: what it writes reads back with
  every invalid byte replaced by U+FFFD (\<open>to_valid\<close>), takes at most six bytes for each byte of
  the string, and holds no control byte.
\<close>

definition to_valid :: "string \<Rightarrow> string" where
  "to_valid s = concat (map (encode_rune \<circ> fst) (runes s))"

lemma json_rune_unit_any:
  assumes d: "decode_rune s = (r, w)" and s: "s \<noteq> []"
  shows "json_unit (json_rune r w (take w s) @ t) = Some (encode_rune r, length (json_rune r w (take w s)))
    \<and> hd (json_rune r w (take w s)) \<noteq> dquote \<and> json_rune r w (take w s) \<noteq> []"
proof (cases "invalid_rune (r, w)")
  case True
  then have "json_rune r w (take w s) = backslash # ''ufffd''"
    by (simp add: invalid_rune_def json_rune_def rune_error_def)
  with True show ?thesis
    by (simp add: invalid_rune_def json_unit_def unhex_def ishex_def rune_error_def)
next
  case False
  with json_rune_unit[OF d False s] encode_decode_rune[OF d False s] show ?thesis by simp
qed

lemma json_unquote_segs_any: "json_unquote (json_segs (runes s) s @ dquote # t) = Some (to_valid s, t)"
proof (induction s rule: runes.induct)
  case 1
  then show ?case by (simp add: json_unquote.simps to_valid_def)
next
  case (2 c s)
  obtain r w where rw: "decode_rune (c # s) = (r, w)" by fastforce
  let ?rest = "drop w (c # s)"
  define x where "x = json_rune r w (take w (c # s))"
  define u where "u = json_segs (runes ?rest) ?rest @ dquote # t"
  have x: "json_unit (x @ u) = Some (encode_rune r, length x)" "hd x \<noteq> dquote" "x \<noteq> []"
    using json_rune_unit_any[OF rw] by (auto simp: x_def)
  have "json_segs (runes (c # s)) (c # s) @ dquote # t = x @ u"
    using rw by (simp add: runes_Cons x_def u_def)
  moreover obtain h xs where "x = h # xs" "h \<noteq> dquote" using x by (cases x) auto
  then have "json_unquote (x @ u) = Some (encode_rune r @ to_valid ?rest, t)"
    using x(1) "2.IH"[OF refl rw[symmetric]] by (subst json_unquote.simps) (auto simp: u_def)
  ultimately show ?case using rw by (simp add: to_valid_def runes_Cons)
qed

lemma json_read_any [codec_rules]: "json_read (json_string s @ t) = Some (to_valid s, t)"
  using json_unquote_segs_any[of s t] by (simp add: json_string_def)

lemma to_valid_valid [simp]: "validString s \<Longrightarrow> to_valid s = s"
  using json_read_any[of s "[]"] json_read_string[of s "[]"] by simp

lemma to_valid_Nil [simp]: "to_valid [] = []"
  by (simp add: to_valid_def)

lemma to_valid_step:
  assumes "decode_rune (c # s) = (r, w)"
  shows "to_valid (c # s) = encode_rune r @ to_valid (drop w (c # s))"
  using assms by (simp add: to_valid_def runes_Cons)

text \<open>A byte that starts no rune takes three bytes when it is replaced.\<close>

lemma to_valid_bad_byte:
  assumes "0xF5 \<le> byte c"
  shows "to_valid (c # s) = encode_rune rune_error @ to_valid s" "length (encode_rune rune_error) = 3"
  using assms to_valid_step[of c s rune_error 1]
  by (simp_all add: decode_rune_def Let_def encode_rune_def rune_error_def)

lemma to_valid_bad_bytes: "0xF5 \<le> byte c \<Longrightarrow> length (to_valid (replicate n c)) = 3 * n"
  by (induction n) (simp_all add: to_valid_bad_byte)

text \<open>What \<open>json.Marshal\<close> writes of a string takes at most six bytes for each of its bytes.\<close>

lemma json_ascii_length: "length (json_ascii b) \<le> 6"
  by (simp add: json_ascii_def)

lemma json_rune_length:
  assumes "decode_rune s = (r, w)" "s \<noteq> []"
  shows "length (json_rune r w (take w s)) \<le> 6 * w"
proof -
  have w: "1 \<le> w" "w \<le> length s" using decode_rune_width[OF assms(2)] assms(1) by auto
  have "length (json_rune r w (take w s)) \<le> max 6 w"
    using json_ascii_length[of r] w by (simp add: json_rune_def rune_error_def le_max_iff_disj)
  with w show ?thesis by linarith
qed

lemma json_segs_length: "length (json_segs (runes s) s) \<le> 6 * length s"
proof (induction s rule: runes.induct)
  case (2 c s)
  obtain r w where rw: "decode_rune (c # s) = (r, w)" by fastforce
  have "w \<le> length (c # s)" using decode_rune_width[of "c # s"] rw by simp
  moreover have "length (json_segs (runes (c # s)) (c # s))
      = length (json_rune r w (take w (c # s))) + length (json_segs (runes (drop w (c # s))) (drop w (c # s)))"
    using rw by (simp add: runes_Cons)
  ultimately show ?case using json_rune_length[OF rw] "2.IH"[OF refl rw[symmetric]] by simp
qed simp

lemma json_string_max: "length (json_string s) \<le> 6 * length s + 2"
  using json_segs_length[of s] by (simp add: json_string_def)

text \<open>A JSON string holds no control byte, so no line end.\<close>

lemma hexdigit_graph: "n < 16 \<Longrightarrow> 0x20 \<le> byte (hexdigit n)"
  by (auto simp: hexdigit_def)

lemma json_ascii_no_control: "b < 0x80 \<Longrightarrow> c \<in> set (json_ascii b) \<Longrightarrow> 0x20 \<le> byte c"
  using hexdigit_graph[of "b div 16"] hexdigit_graph[of "b mod 16"]
  by (auto simp: json_ascii_def split: if_splits)

lemma decode_rune_bytes:
  assumes "decode_rune s = (r, w)" "s \<noteq> []" "0x80 \<le> r" "\<not> invalid_rune (r, w)" "c \<in> set (take w s)"
  shows "0x80 \<le> byte c"
  using assms(1,4,2)
proof (cases rule: decode_rune_cases)
  case (one a t)
  with assms(3) show ?thesis by simp
next
  case (two a b t)
  with assms(5) show ?thesis by (auto simp: cont_byte_def)
next
  case (three a b d t)
  with assms(5) second_ok_cont[OF three(5)] show ?thesis by (auto simp: cont_byte_def numeral_3_eq_3)
next
  case (four a b d e t)
  then have "take w s = [a, b, d, e]" by simp
  with assms(5) four second_ok_cont[OF four(5)] show ?thesis by (auto simp: cont_byte_def)
qed

lemma json_rune_no_control:
  assumes "decode_rune s = (r, w)" "s \<noteq> []" "c \<in> set (json_rune r w (take w s))"
  shows "0x20 \<le> byte c"
proof (cases "r < 0x80")
  case True
  with assms(3) json_ascii_no_control show ?thesis by (simp add: json_rune_def)
next
  case False
  show ?thesis
  proof (cases "json_rune r w (take w s) = take w s")
    case True
    then have "invalid_rune (r, w) \<Longrightarrow> False" using False assms(3) decode_rune_width[OF assms(2)] assms(1)
      by (auto simp: invalid_rune_def json_rune_def rune_error_def dest!: arg_cong[where f = length])
    with decode_rune_bytes[OF assms(1,2) _ _ assms(3)[unfolded True]] False show ?thesis by fastforce
  next
    case False
    with assms(3) \<open>\<not> r < 0x80\<close> show ?thesis by (auto simp: json_rune_def split: if_splits)
  qed
qed

lemma json_segs_no_control: "c \<in> set (json_segs (runes s) s) \<Longrightarrow> 0x20 \<le> byte c"
proof (induction s rule: runes.induct)
  case (2 b s)
  obtain r w where rw: "decode_rune (b # s) = (r, w)" by fastforce
  with json_rune_no_control[OF rw, of c] "2.IH"[OF refl rw[symmetric]] "2.prems" show ?case
    by (auto simp: runes_Cons)
qed simp

lemma json_string_no_control: "c \<in> set (json_string s) \<Longrightarrow> 0x20 \<le> byte c"
  using json_segs_no_control[of c s] by (auto simp: json_string_def)

end
