(* ===== verification/Go_JSON_Object.thy ===== *)
theory Go_JSON_Object
  imports Go_JSON_UTF8
begin

text \<open>
  JSON values as \<open>encoding/json\<close> reads and writes them: the grammar with its white space and
  numbers, the compact form \<open>json.Marshal\<close> writes, and how the members of an object fill the
  fields of a Go struct. What is written reads back as the same value up to \<open>to_valid\<close>. Nesting is
  not limited, where the library stops at 10000 levels.
\<close>

datatype json =
    JNull
  | JBool bool
  | JNum string
  | JStr string
  | JArr "json list"
  | JObj "(string \<times> json) list"

section \<open>Reading\<close>

definition json_space :: "char \<Rightarrow> bool" where
  "json_space c \<longleftrightarrow> c = CHR '' '' \<or> byte c = 9 \<or> byte c = 10 \<or> byte c = 13"

abbreviation skip_ws :: "string \<Rightarrow> string" where
  "skip_ws \<equiv> dropWhile json_space"

definition digits1 :: "string \<Rightarrow> (string \<times> string) option" where
  "digits1 s = (if takeWhile isDigit s = [] then None else Some (takeWhile isDigit s, dropWhile isDigit s))"

definition num_int :: "string \<Rightarrow> (string \<times> string) option" where
  "num_int s = (case s of c # r \<Rightarrow> if c = CHR ''0'' then Some ([c], r) else digits1 s | [] \<Rightarrow> None)"

definition num_frac :: "string \<Rightarrow> (string \<times> string) option" where
  "num_frac s = (case s of
      c # r \<Rightarrow> if c = CHR ''.'' then map_option (apfst (Cons c)) (digits1 r) else Some ([], s)
    | [] \<Rightarrow> Some ([], []))"

definition num_exp :: "string \<Rightarrow> (string \<times> string) option" where
  "num_exp s = (case s of
      c # r \<Rightarrow>
        if c = CHR ''e'' \<or> c = CHR ''E'' then
          (case r of
             d # t \<Rightarrow> if d = CHR ''+'' \<or> d = CHR ''-'' then map_option (apfst (\<lambda>x. c # d # x)) (digits1 t)
                     else map_option (apfst (Cons c)) (digits1 r)
           | [] \<Rightarrow> None)
        else Some ([], s)
    | [] \<Rightarrow> Some ([], []))"

text \<open>A number, as the text it has.\<close>

definition json_number :: "string \<Rightarrow> (string \<times> string) option" where
  "json_number s = (
     let neg = (case s of c # r \<Rightarrow> c = CHR ''-'' | [] \<Rightarrow> False) in
     case num_int (if neg then tl s else s) of
       None \<Rightarrow> None
     | Some (i, r) \<Rightarrow> (case num_frac r of
         None \<Rightarrow> None
       | Some (f, r2) \<Rightarrow> (case num_exp r2 of
           None \<Rightarrow> None
         | Some (e, r3) \<Rightarrow> Some ((if neg then ''-'' else []) @ i @ f @ e, r3))))"

fun json_val :: "nat \<Rightarrow> string \<Rightarrow> (json \<times> string) option"
  and json_elems :: "nat \<Rightarrow> string \<Rightarrow> (json list \<times> string) option"
  and json_members :: "nat \<Rightarrow> string \<Rightarrow> ((string \<times> json) list \<times> string) option" where
  "json_val 0 s = None"
| "json_val (Suc n) s = (case skip_ws s of
      [] \<Rightarrow> None
    | c # r \<Rightarrow>
        if c = dquote then map_option (apfst JStr) (json_unquote r)
        else if c = CHR ''{'' then
          (case skip_ws r of
             d # t \<Rightarrow> if d = CHR ''}'' then Some (JObj [], t) else map_option (apfst JObj) (json_members n r)
           | [] \<Rightarrow> None)
        else if c = CHR ''['' then
          (case skip_ws r of
             d # t \<Rightarrow> if d = CHR '']'' then Some (JArr [], t) else map_option (apfst JArr) (json_elems n r)
           | [] \<Rightarrow> None)
        else if hasPrefix (c # r) ''true'' then Some (JBool True, drop 4 (c # r))
        else if hasPrefix (c # r) ''false'' then Some (JBool False, drop 5 (c # r))
        else if hasPrefix (c # r) ''null'' then Some (JNull, drop 4 (c # r))
        else map_option (apfst JNum) (json_number (c # r)))"
| "json_elems 0 s = None"
| "json_elems (Suc n) s = (case json_val n s of
      None \<Rightarrow> None
    | Some (v, r) \<Rightarrow> (case skip_ws r of
        c # t \<Rightarrow> if c = CHR '']'' then Some ([v], t)
                else if c = CHR '','' then map_option (apfst (Cons v)) (json_elems n t) else None
      | [] \<Rightarrow> None))"
| "json_members 0 s = None"
| "json_members (Suc n) s = (case skip_ws s of
      [] \<Rightarrow> None
    | c # r \<Rightarrow> if c \<noteq> dquote then None else (case json_unquote r of
        None \<Rightarrow> None
      | Some (k, r1) \<Rightarrow> (case skip_ws r1 of
          [] \<Rightarrow> None
        | d # r2 \<Rightarrow> if d \<noteq> CHR '':'' then None else (case json_val n r2 of
            None \<Rightarrow> None
          | Some (v, r3) \<Rightarrow> (case skip_ws r3 of
              [] \<Rightarrow> None
            | e # r4 \<Rightarrow> if e = CHR ''}'' then Some ([(k, v)], r4)
                       else if e = CHR '','' then map_option (apfst (Cons (k, v))) (json_members n r4)
                       else None)))))"

text \<open>\<open>Decoder.Decode\<close>: the first value of the input and what is left.\<close>

definition json_decode :: "string \<Rightarrow> (json \<times> string) option" where
  "json_decode s = json_val (Suc (length s)) s"

text \<open>\<open>json.Unmarshal\<close>: one value and nothing but white space behind it.\<close>

definition json_unmarshal :: "string \<Rightarrow> json option" where
  "json_unmarshal s = (case json_decode s of Some (v, r) \<Rightarrow> if skip_ws r = [] then Some v else None | None \<Rightarrow> None)"

section \<open>Writing\<close>

fun json_print :: "json \<Rightarrow> string" where
  "json_print JNull = ''null''"
| "json_print (JBool b) = (if b then ''true'' else ''false'')"
| "json_print (JNum l) = l"
| "json_print (JStr s) = json_string s"
| "json_print (JArr vs) = ''['' @ joinc '','' (map json_print vs) @ '']''"
| "json_print (JObj ms) = ''{'' @ joinc '','' (map (\<lambda>m. json_string (fst m) @ '':'' @ json_print (snd m)) ms) @ ''}''"

text \<open>What a written value reads back as, and the values \<open>json.Marshal\<close> makes of Go's integers.\<close>

fun json_norm :: "json \<Rightarrow> json" where
  "json_norm (JStr s) = JStr (to_valid s)"
| "json_norm (JArr vs) = JArr (map json_norm vs)"
| "json_norm (JObj ms) = JObj (map (\<lambda>m. (to_valid (fst m), json_norm (snd m))) ms)"
| "json_norm v = v"

fun json_ints :: "json \<Rightarrow> bool" where
  "json_ints (JNum l) = (l = decimal_int (fst (read_int l)))"
| "json_ints (JArr vs) = list_all json_ints vs"
| "json_ints (JObj ms) = list_all (\<lambda>m. json_ints (snd m)) ms"
| "json_ints v = True"

section \<open>Round trip\<close>

definition num_stop :: "string \<Rightarrow> bool" where
  "num_stop t \<longleftrightarrow> (case t of [] \<Rightarrow> True | c # r \<Rightarrow> \<not> isDigit c \<and> c \<notin> set ''.eE'')"

lemma decimal_hd0: "hd (decimal n) = CHR ''0'' \<Longrightarrow> n = 0"
proof (induction n rule: decimal.induct)
  case (1 n)
  show ?case
  proof (cases "n < 10")
    case True
    with "1.prems" have "byte (char_of (48 + n)) = byte CHR ''0''" by (simp add: decimal.simps[of n])
    with True show ?thesis by simp
  next
    case False
    with 1 have "n div 10 = 0" by (simp add: decimal.simps[of n])
    with False show ?thesis by simp
  qed
qed

lemma decimal_shape: obtains d ds where "decimal n = d # ds" "isDigit d" "\<forall>x\<in>set ds. isDigit x"
  using decimal_digits[of _ n] by (cases "decimal n") auto

lemma num_int_decimal: "num_stop t \<Longrightarrow> num_int (decimal n @ t) = Some (decimal n, t)"
proof -
  assume t: "num_stop t"
  obtain d ds where d: "decimal n = d # ds" "isDigit d" "\<forall>x\<in>set ds. isDigit x" by (rule decimal_shape)
  show ?thesis
  proof (cases "d = CHR ''0''")
    case True
    then have "decimal n = ''0''" using decimal_hd0[of n] d by (simp add: decimal.simps[of 0])
    then show ?thesis by (simp add: num_int_def)
  next
    case False
    have "takeWhile isDigit (ds @ t) = ds" "dropWhile isDigit (ds @ t) = t"
      using d(3) t by (cases t; simp add: num_stop_def takeWhile_append2 dropWhile_append2)+
    with False d show ?thesis by (simp add: num_int_def digits1_def)
  qed
qed

lemma json_number_decimal: "num_stop t \<Longrightarrow> json_number (decimal_int i @ t) = Some (decimal_int i, t)"
proof -
  assume t: "num_stop t"
  have f: "num_frac t = Some ([], t)" "num_exp t = Some ([], t)"
    using t by (auto simp: num_stop_def num_frac_def num_exp_def split: list.splits)
  obtain d ds where d: "decimal (nat i) = d # ds" "isDigit d" by (rule decimal_shape)
  then have "d \<noteq> CHR ''-''" by (auto simp: isDigit_def)
  with num_int_decimal[OF t, of "nat i"] num_int_decimal[OF t, of "nat (- i)"] d f show ?thesis
    by (auto simp: json_number_def decimal_int_def Let_def)
qed

lemma decimal_int_hd: obtains c r where "decimal_int i = c # r" "isDigit c \<or> c = CHR ''-''"
proof (cases "i < 0")
  case True
  with that[of "CHR ''-''"] show thesis by (simp add: decimal_int_def)
next
  case False
  obtain d ds where "decimal (nat i) = d # ds" "isDigit d" by (rule decimal_shape)
  with False that[of d ds] show thesis by (simp add: decimal_int_def)
qed

lemma json_print_hd:
  assumes "json_ints v"
  obtains c r where "json_print v = c # r" "\<not> json_space c" "c \<noteq> CHR '']''" "c \<noteq> CHR ''}''"
proof (cases v)
  case (JNum l)
  with assms obtain c r where "l = c # r" "isDigit c \<or> c = CHR ''-''" using decimal_int_hd by (metis json_ints.simps(1))
  moreover from this have "\<not> json_space c" "c \<noteq> CHR '']''" "c \<noteq> CHR ''}''" by (auto simp: json_space_def isDigit_def)
  ultimately show thesis using JNum that[of c r] by simp
next
  case (JBool b)
  with that show thesis by (cases b) (auto simp: json_space_def)
qed (use that in \<open>auto simp: json_space_def json_string_def\<close>)

lemma skip_ws_print: "json_ints v \<Longrightarrow> skip_ws (json_print v @ t) = json_print v @ t"
  by (rule json_print_hd[of v]) auto

lemma json_val_number:
  assumes "num_stop t"
  shows "json_val (Suc n) (decimal_int i @ t) = Some (JNum (decimal_int i), t)"
proof -
  obtain c r where c: "decimal_int i = c # r" "isDigit c \<or> c = CHR ''-''" by (rule decimal_int_hd)
  then have "\<not> json_space c" "c \<noteq> dquote" "c \<notin> set ''{[tfn''" by (auto simp: json_space_def isDigit_def)
  with json_number_decimal[OF assms, of i] c show ?thesis by (simp add: hasPrefix_iff)
qed

lemma json_unquote_string:
  "json_unquote (tl (json_string k) @ t) = Some (to_valid k, t)" "json_string k = dquote # tl (json_string k)"
  using json_unquote_segs_any[of k t] by (simp_all add: json_string_def)

lemma json_elems_print:
  assumes "vs \<noteq> []" "length (joinc '','' (map json_print vs)) + 1 < n" "\<forall>v\<in>set vs. json_ints v"
    "\<And>v n t. v \<in> set vs \<Longrightarrow> length (json_print v) < n \<Longrightarrow> num_stop t \<Longrightarrow> json_val n (json_print v @ t) = Some (json_norm v, t)"
  shows "json_elems n (joinc '','' (map json_print vs) @ CHR '']'' # t) = Some (map json_norm vs, t)"
  using assms
proof (induction vs arbitrary: n)
  case (Cons v vs)
  obtain m where n: "n = Suc m" using Cons.prems(2) by (cases n) auto
  have stop: "num_stop (CHR '']'' # t)" "num_stop (CHR '','' # s)" for s by (auto simp: num_stop_def isDigit_def)
  show ?case
  proof (cases vs)
    case Nil
    with Cons.prems(2) Cons.prems(4)[of v m, OF _ _ stop(1)] n show ?thesis by (simp add: json_space_def)
  next
    case (Cons w ws)
    let ?rest = "joinc '','' (map json_print vs) @ CHR '']'' # t"
    have "json_val m (json_print v @ CHR '','' # ?rest) = Some (json_norm v, CHR '','' # ?rest)"
      using Cons.prems(2) n \<open>vs = w # ws\<close> by (intro Cons.prems(4)[OF _ _ stop(2)]) auto
    moreover have "json_elems m ?rest = Some (map json_norm vs, t)"
      using Cons.prems n \<open>vs = w # ws\<close> by (intro Cons.IH) auto
    ultimately show ?thesis using n \<open>vs = w # ws\<close> by (simp add: json_space_def)
  qed
qed simp

abbreviation json_member :: "string \<times> json \<Rightarrow> string" where
  "json_member m \<equiv> json_string (fst m) @ '':'' @ json_print (snd m)"

lemma json_members_print:
  assumes "ms \<noteq> []" "length (joinc '','' (map json_member ms)) + 1 < n"
    "\<And>m n t. m \<in> set ms \<Longrightarrow> length (json_print (snd m)) < n \<Longrightarrow> num_stop t \<Longrightarrow> json_val n (json_print (snd m) @ t) = Some (json_norm (snd m), t)"
  shows "json_members n (joinc '','' (map json_member ms) @ CHR ''}'' # t) = Some (map (\<lambda>m. (to_valid (fst m), json_norm (snd m))) ms, t)"
  using assms
proof (induction ms arbitrary: n)
  case (Cons m ms)
  obtain k where n: "n = Suc k" using Cons.prems(2) by (cases n) auto
  have stop: "num_stop (CHR ''}'' # t)" "num_stop (CHR '','' # s)" for s by (auto simp: num_stop_def isDigit_def)
  have key: "json_string (fst m) = dquote # tl (json_string (fst m))" by (simp add: json_string_def)
  have unq: "json_unquote (tl (json_string (fst m)) @ s) = Some (to_valid (fst m), s)" for s by (rule json_unquote_string)
  show ?case
  proof (cases ms)
    case Nil
    have "json_val k (json_print (snd m) @ CHR ''}'' # t) = Some (json_norm (snd m), CHR ''}'' # t)"
      using Cons.prems(2) Nil n by (intro Cons.prems(3)[OF _ _ stop(1)]) auto
    moreover have "joinc '','' (map json_member (m # ms)) @ CHR ''}'' # t
        = dquote # tl (json_string (fst m)) @ CHR '':'' # json_print (snd m) @ CHR ''}'' # t"
      using key Nil by simp
    ultimately show ?thesis using Nil n unq by (simp only: json_members.simps) (simp add: json_space_def)
  next
    case (Cons w ws)
    let ?rest = "joinc '','' (map json_member ms) @ CHR ''}'' # t"
    have "json_val k (json_print (snd m) @ CHR '','' # ?rest) = Some (json_norm (snd m), CHR '','' # ?rest)"
      using Cons.prems(2) n \<open>ms = w # ws\<close> by (intro Cons.prems(3)[OF _ _ stop(2)]) auto
    moreover have "json_members k ?rest = Some (map (\<lambda>m. (to_valid (fst m), json_norm (snd m))) ms, t)"
      using Cons.prems n \<open>ms = w # ws\<close> by (intro Cons.IH) auto
    moreover have "joinc '','' (map json_member (m # ms)) @ CHR ''}'' # t
        = dquote # tl (json_string (fst m)) @ CHR '':'' # json_print (snd m) @ CHR '','' # ?rest"
      using key \<open>ms = w # ws\<close> by simp
    ultimately show ?thesis using n unq by (simp only: json_members.simps) (simp add: json_space_def)
  qed
qed simp

lemma json_val_print:
  "json_ints v \<Longrightarrow> length (json_print v) < n \<Longrightarrow> num_stop t \<Longrightarrow> json_val n (json_print v @ t) = Some (json_norm v, t)"
proof (induction v arbitrary: n t)
  case (JNum l)
  then show ?case using json_val_number[of t _ "fst (read_int l)"] by (cases n) auto
next
  case (JStr s)
  obtain m where n: "n = Suc m" using JStr.prems(2) by (cases n) auto
  then show ?case using json_unquote_string[of s] by (simp add: json_string_def json_space_def)
next
  case (JArr vs)
  obtain m where n: "n = Suc m" using JArr.prems(2) by (cases n) auto
  show ?case
  proof (cases vs)
    case Nil
    with n show ?thesis by (simp add: json_space_def)
  next
    case (Cons w ws)
    have ints: "\<forall>v\<in>set vs. json_ints v" using JArr.prems(1) by (simp add: list_all_iff)
    have "json_elems m (joinc '','' (map json_print vs) @ CHR '']'' # t) = Some (map json_norm vs, t)"
      using JArr.prems(2) n Cons ints JArr.IH by (intro json_elems_print) auto
    moreover obtain c r where "json_print w = c # r" "\<not> json_space c" "c \<noteq> CHR '']''" "c \<noteq> CHR ''}''"
      using json_print_hd[of w] ints Cons by auto
    then obtain u where "joinc '','' (map json_print vs) = c # u" "\<not> json_space c" "c \<noteq> CHR '']''" using Cons by (cases ws) auto
    ultimately show ?thesis using n by (simp add: json_space_def)
  qed
next
  case (JObj ms)
  obtain m where n: "n = Suc m" using JObj.prems(2) by (cases n) auto
  show ?case
  proof (cases ms)
    case Nil
    with n show ?thesis by (simp add: json_space_def)
  next
    case (Cons w ws)
    have "json_members m (joinc '','' (map json_member ms) @ CHR ''}'' # t) = Some (map (\<lambda>m. (to_valid (fst m), json_norm (snd m))) ms, t)"
      using JObj.prems n Cons by (intro json_members_print) (auto simp: list_all_iff intro!: JObj.IH)
    moreover obtain u where "joinc '','' (map json_member ms) = dquote # u" using Cons by (cases ws) (auto simp: json_string_def)
    ultimately show ?thesis using n by (simp add: json_space_def)
  qed
qed (case_tac n, simp, simp add: json_space_def hasPrefix_iff)+

lemma json_decode_print [codec_rules]:
  "json_ints v \<Longrightarrow> num_stop t \<Longrightarrow> json_decode (json_print v @ t) = Some (json_norm v, t)"
  using json_val_print[of v "Suc (length (json_print v @ t))" t] by (simp add: json_decode_def)

lemma json_unmarshal_print [codec_rules]: "json_ints v \<Longrightarrow> json_unmarshal (json_print v) = Some (json_norm v)"
  using json_decode_print[of v "[]"] by (simp add: json_unmarshal_def num_stop_def)

section \<open>Filling a struct\<close>

text \<open>
  A key names the field with exactly that name, else the first whose name differs in case only;
  the Kelvin sign and the long s count as cases of k and s. Other keys are skipped, a later key
  overrides an earlier one, and a value of the wrong type is an error: \<open>None\<close>.
\<close>

definition fold_rune :: "nat \<Rightarrow> nat" where
  "fold_rune r = (if 97 \<le> r \<and> r \<le> 122 then r - 32 else if r = 0x17F then 83 else if r = 0x212A then 75 else r)"

definition fold_name :: "string \<Rightarrow> nat list" where
  "fold_name s = map (fold_rune \<circ> fst) (runes s)"

definition field_for :: "string list \<Rightarrow> string \<Rightarrow> string option" where
  "field_for names k = (if k \<in> set names then Some k else find (\<lambda>n. fold_name n = fold_name k) names)"

fun fill :: "(string \<Rightarrow> json \<Rightarrow> 's \<Rightarrow> 's option) \<Rightarrow> string list \<Rightarrow> (string \<times> json) list \<Rightarrow> 's \<Rightarrow> 's option" where
  "fill set_field names [] s = Some s"
| "fill set_field names (m # ms) s = (case field_for names (fst m) of
      None \<Rightarrow> fill set_field names ms s
    | Some f \<Rightarrow> (case set_field f (snd m) s of None \<Rightarrow> None | Some s' \<Rightarrow> fill set_field names ms s'))"

definition fill_struct :: "(string \<Rightarrow> json \<Rightarrow> 's \<Rightarrow> 's option) \<Rightarrow> string list \<Rightarrow> json \<Rightarrow> 's \<Rightarrow> 's option" where
  "fill_struct set_field names v s = (case v of JObj ms \<Rightarrow> fill set_field names ms s | JNull \<Rightarrow> Some s | _ \<Rightarrow> None)"

definition as_string :: "string \<Rightarrow> json \<Rightarrow> string option" where
  "as_string old v = (case v of JStr s \<Rightarrow> Some s | JNull \<Rightarrow> Some old | _ \<Rightarrow> None)"

definition as_bool :: "bool \<Rightarrow> json \<Rightarrow> bool option" where
  "as_bool old v = (case v of JBool b \<Rightarrow> Some b | JNull \<Rightarrow> Some old | _ \<Rightarrow> None)"

definition int_literal :: "string \<Rightarrow> bool" where
  "int_literal l \<longleftrightarrow> (let d = (case l of c # r \<Rightarrow> if c = CHR ''-'' then r else l | [] \<Rightarrow> l) in d \<noteq> [] \<and> list_all isDigit d)"

definition as_int :: "int \<Rightarrow> int \<Rightarrow> int \<Rightarrow> json \<Rightarrow> int option" where
  "as_int lo hi old v = (case v of
      JNum l \<Rightarrow> (let i = fst (read_int l) in if int_literal l \<and> lo \<le> i \<and> i \<le> hi then Some i else None)
    | JNull \<Rightarrow> Some old
    | _ \<Rightarrow> None)"

definition as_strings :: "string list \<Rightarrow> json \<Rightarrow> string list option" where
  "as_strings old v = (case v of
      JArr vs \<Rightarrow> those (map (as_string []) vs)
    | JNull \<Rightarrow> Some []
    | _ \<Rightarrow> None)"

lemma field_for_exact [simp]: "k \<in> set names \<Longrightarrow> field_for names k = Some k"
  by (simp add: field_for_def)

lemma int_literal_decimal: "int_literal (decimal_int i)"
proof -
  obtain d ds where d: "decimal (nat i) = d # ds" "isDigit d" "\<forall>x\<in>set ds. isDigit x" by (rule decimal_shape)
  then have "d \<noteq> CHR ''-''" by (auto simp: isDigit_def)
  with d decimal_digits[of _ "nat (- i)"] show ?thesis
    by (auto simp: int_literal_def decimal_int_def list_all_iff)
qed

lemma read_int_print [simp]: "fst (read_int (decimal_int i)) = i"
proof -
  obtain d ds where d: "decimal (nat i) = d # ds" "isDigit d" "\<forall>x\<in>set ds. isDigit x" by (rule decimal_shape)
  then have m: "d \<noteq> CHR ''-''" by (auto simp: isDigit_def)
  have tw: "takeWhile isDigit (decimal n) = decimal n" for n by (simp add: takeWhile_eq_all_conv decimal_digits)
  show ?thesis
  proof (cases "i < 0")
    case True
    then show ?thesis by (simp add: read_int_def decimal_int_def tw)
  next
    case False
    with m d(1) tw[of "nat i"] undecimal_decimal[of "nat i"] show ?thesis
      by (simp add: read_int_def decimal_int_def del: undecimal_decimal)
  qed
qed

lemma json_ints_decimal [simp]: "json_ints (JNum (decimal_int i))"
  by simp

lemma as_int_decimal [simp]: "lo \<le> i \<Longrightarrow> i \<le> hi \<Longrightarrow> as_int lo hi old (JNum (decimal_int i)) = Some i"
  by (simp add: as_int_def int_literal_decimal)

lemma as_simps [simp]:
  "as_string old (JStr s) = Some s" "as_bool flag (JBool b) = Some b"
  by (simp_all add: as_string_def as_bool_def)

end
