(* ===== verification/Exec_Messages.thy ===== *)
theory Exec_Messages
  imports Go_JSON_Object Go_Filepath
begin

text \<open>
  The data of \<open>cmd/tc-exec/main.go\<close>: the configuration, the messages to the broker and its
  replies, with the JSON they travel as, jobs, and the broker itself.
\<close>

record resource =
  rs_SecretName :: string
  rs_Upstream :: string
  rs_Methods :: "string list"
  rs_PathPrefixes :: "string list"

record exec_config =
  ec_Workspace :: string
  ec_Socket :: string
  ec_AgentURL :: string
  ec_AgentTokenFile :: string
  ec_Resources :: "resource gomap"
  ec_Mailbox :: string

record message =
  m_Action :: string
  m_Command :: string
  m_Workdir :: string
  m_Job :: string
  m_Resource :: string
  m_Method :: string
  m_Path :: string

record mailboxRef =
  mr_Path :: string
  mr_Device :: "64 word"
  mr_Request :: "64 word"
  mr_Response :: "64 word"

record reply =
  r_Job :: string
  r_Mailbox :: "mailboxRef option"
  r_Status :: int
  r_Output :: string
  r_Truncated :: bool
  r_Error :: string

definition no_message :: message where
  "no_message = \<lparr>m_Action = [], m_Command = [], m_Workdir = [], m_Job = [], m_Resource = [], m_Method = [], m_Path = []\<rparr>"

definition no_reply :: reply where
  "no_reply = \<lparr>r_Job = [], r_Mailbox = None, r_Status = 0, r_Output = [], r_Truncated = False, r_Error = []\<rparr>"

definition no_ref :: mailboxRef where
  "no_ref = \<lparr>mr_Path = [], mr_Device = 0, mr_Request = 0, mr_Response = 0\<rparr>"

abbreviation reply_error :: "string \<Rightarrow> reply" where
  "reply_error e \<equiv> no_reply\<lparr>r_Error := e\<rparr>"

record job =
  j_command :: string
  j_workdir :: string
  j_created :: ns

text \<open>
  The broker. The buffered channels \<open>workers\<close> and \<open>connections\<close> count what they hold; an open
  directory is told apart from nil by a Boolean.
\<close>

record exec_broker =
  b_cfg :: exec_config
  b_configPath :: string
  b_token :: string
  b_jobs :: "job gomap"
  b_workers :: nat
  b_connections :: nat
  b_workspaceDir :: bool
  b_mailboxRoot :: bool
  b_mailboxPath :: string
  b_mailboxClosing :: bool
  b_mailboxActive :: nat

definition maxJobs :: nat where "maxJobs = 128"
definition maxWorkers :: nat where "maxWorkers = 8"
definition maxConnections :: nat where "maxConnections = 32"
definition jobTTL :: ns where "jobTTL = 10 * 60 * 1000000000"
definition outputLimit :: nat where "outputLimit = 2 ^ 20"

section \<open>On the wire\<close>

definition json_opt :: "string \<Rightarrow> bool \<Rightarrow> json \<Rightarrow> (string \<times> json) list" where
  "json_opt k present v = (if present then [(k, v)] else [])"

definition message_json :: "message \<Rightarrow> json" where
  "message_json m = JObj ([(''action'', JStr (m_Action m))]
     @ json_opt ''command'' (m_Command m \<noteq> []) (JStr (m_Command m))
     @ json_opt ''workdir'' (m_Workdir m \<noteq> []) (JStr (m_Workdir m))
     @ json_opt ''job'' (m_Job m \<noteq> []) (JStr (m_Job m))
     @ json_opt ''resource'' (m_Resource m \<noteq> []) (JStr (m_Resource m))
     @ json_opt ''method'' (m_Method m \<noteq> []) (JStr (m_Method m))
     @ json_opt ''path'' (m_Path m \<noteq> []) (JStr (m_Path m)))"

definition ref_json :: "mailboxRef \<Rightarrow> json" where
  "ref_json r = JObj [(''path'', JStr (mr_Path r)), (''device'', JNum (decimal_int (uint (mr_Device r)))),
     (''request_inode'', JNum (decimal_int (uint (mr_Request r)))), (''response_inode'', JNum (decimal_int (uint (mr_Response r))))]"

definition reply_json :: "reply \<Rightarrow> json" where
  "reply_json r = JObj (
       json_opt ''job'' (r_Job r \<noteq> []) (JStr (r_Job r))
     @ (case r_Mailbox r of None \<Rightarrow> [] | Some m \<Rightarrow> [(''mailbox'', ref_json m)])
     @ json_opt ''status'' (r_Status r \<noteq> 0) (JNum (decimal_int (r_Status r)))
     @ json_opt ''output'' (r_Output r \<noteq> []) (JStr (r_Output r))
     @ json_opt ''truncated'' (r_Truncated r) (JBool True)
     @ json_opt ''error'' (r_Error r \<noteq> []) (JStr (r_Error r)))"

definition set_message :: "string \<Rightarrow> json \<Rightarrow> message \<Rightarrow> message option" where
  "set_message f v m = (
     if f = ''action'' then map_option (\<lambda>s. m\<lparr>m_Action := s\<rparr>) (as_string (m_Action m) v)
     else if f = ''command'' then map_option (\<lambda>s. m\<lparr>m_Command := s\<rparr>) (as_string (m_Command m) v)
     else if f = ''workdir'' then map_option (\<lambda>s. m\<lparr>m_Workdir := s\<rparr>) (as_string (m_Workdir m) v)
     else if f = ''job'' then map_option (\<lambda>s. m\<lparr>m_Job := s\<rparr>) (as_string (m_Job m) v)
     else if f = ''resource'' then map_option (\<lambda>s. m\<lparr>m_Resource := s\<rparr>) (as_string (m_Resource m) v)
     else if f = ''method'' then map_option (\<lambda>s. m\<lparr>m_Method := s\<rparr>) (as_string (m_Method m) v)
     else map_option (\<lambda>s. m\<lparr>m_Path := s\<rparr>) (as_string (m_Path m) v))"

definition message_of :: "json \<Rightarrow> message option" where
  "message_of v = fill_struct set_message [''action'', ''command'', ''workdir'', ''job'', ''resource'', ''method'', ''path''] v no_message"

definition as_uint64 :: "64 word \<Rightarrow> json \<Rightarrow> 64 word option" where
  "as_uint64 old v = map_option word_of_int (as_int 0 (2 ^ 64 - 1) (uint old) v)"

definition set_ref :: "string \<Rightarrow> json \<Rightarrow> mailboxRef \<Rightarrow> mailboxRef option" where
  "set_ref f v r = (
     if f = ''path'' then map_option (\<lambda>s. r\<lparr>mr_Path := s\<rparr>) (as_string (mr_Path r) v)
     else if f = ''device'' then map_option (\<lambda>n. r\<lparr>mr_Device := n\<rparr>) (as_uint64 (mr_Device r) v)
     else if f = ''request_inode'' then map_option (\<lambda>n. r\<lparr>mr_Request := n\<rparr>) (as_uint64 (mr_Request r) v)
     else map_option (\<lambda>n. r\<lparr>mr_Response := n\<rparr>) (as_uint64 (mr_Response r) v))"

definition ref_of :: "json \<Rightarrow> mailboxRef \<Rightarrow> mailboxRef option" where
  "ref_of v r = fill_struct set_ref [''path'', ''device'', ''request_inode'', ''response_inode''] v r"

definition as_ref :: "mailboxRef option \<Rightarrow> json \<Rightarrow> mailboxRef option option" where
  "as_ref old v = (if v = JNull then Some None else map_option Some (ref_of v (case old of None \<Rightarrow> no_ref | Some r \<Rightarrow> r)))"

definition set_reply :: "string \<Rightarrow> json \<Rightarrow> reply \<Rightarrow> reply option" where
  "set_reply f v r = (
     if f = ''job'' then map_option (\<lambda>s. r\<lparr>r_Job := s\<rparr>) (as_string (r_Job r) v)
     else if f = ''mailbox'' then map_option (\<lambda>m. r\<lparr>r_Mailbox := m\<rparr>) (as_ref (r_Mailbox r) v)
     else if f = ''status'' then map_option (\<lambda>i. r\<lparr>r_Status := i\<rparr>) (as_int (- (2 ^ 63)) (2 ^ 63 - 1) (r_Status r) v)
     else if f = ''output'' then map_option (\<lambda>s. r\<lparr>r_Output := s\<rparr>) (as_string (r_Output r) v)
     else if f = ''truncated'' then map_option (\<lambda>b. r\<lparr>r_Truncated := b\<rparr>) (as_bool (r_Truncated r) v)
     else map_option (\<lambda>s. r\<lparr>r_Error := s\<rparr>) (as_string (r_Error r) v))"

definition reply_of :: "json \<Rightarrow> reply option" where
  "reply_of v = fill_struct set_reply [''job'', ''mailbox'', ''status'', ''output'', ''truncated'', ''error''] v no_reply"

section \<open>What arrives\<close>

definition valid_message :: "message \<Rightarrow> message" where
  "valid_message m = \<lparr>m_Action = to_valid (m_Action m), m_Command = to_valid (m_Command m), m_Workdir = to_valid (m_Workdir m),
     m_Job = to_valid (m_Job m), m_Resource = to_valid (m_Resource m), m_Method = to_valid (m_Method m), m_Path = to_valid (m_Path m)\<rparr>"

definition valid_reply :: "reply \<Rightarrow> reply" where
  "valid_reply r = r\<lparr>r_Job := to_valid (r_Job r), r_Mailbox := map_option (\<lambda>m. m\<lparr>mr_Path := to_valid (mr_Path m)\<rparr>) (r_Mailbox r),
     r_Output := to_valid (r_Output r), r_Error := to_valid (r_Error r)\<rparr>"

definition status_ok :: "reply \<Rightarrow> bool" where
  "status_ok r \<longleftrightarrow> - (2 ^ 63) \<le> r_Status r \<and> r_Status r < 2 ^ 63"

text \<open>The members one after the other, so that a round trip is read off member by member.\<close>

lemma fill_append: "fill sf names (as @ bs) s = (case fill sf names as s of None \<Rightarrow> None | Some s' \<Rightarrow> fill sf names bs s')"
  by (induction as arbitrary: s) (auto split: option.splits)

lemma map_json_opt: "map f (json_opt k p v) = (if p then [f (k, v)] else [])"
  by (simp add: json_opt_def)

lemma to_valid_names [simp]: "\<forall>c\<in>set s. byte c < 0x80 \<Longrightarrow> to_valid s = s"
  by (simp add: validString_ascii)

lemma message_ints: "json_ints (message_json m)"
  by (auto simp: message_json_def json_opt_def list_all_iff)

lemma message_of_json: "message_of (json_norm (message_json m)) = Some (valid_message m)"
  by (simp add: message_json_def message_of_def fill_struct_def fill_append map_json_opt set_message_def
      no_message_def valid_message_def)

lemma as_uint64_decimal [simp]: "as_uint64 old (JNum (decimal_int (uint w))) = Some w"
proof -
  have "uint w \<le> 2 ^ 64 - 1" using uint_bounded[of w] by simp
  then have "as_int 0 (2 ^ 64 - 1) (uint old) (JNum (decimal_int (uint w))) = Some (uint w)" by (intro as_int_decimal) auto
  then show ?thesis by (simp add: as_uint64_def)
qed

lemma ref_ints: "json_ints (ref_json r)"
  by (simp add: ref_json_def list_all_iff)

lemma ref_of_json: "ref_of (json_norm (ref_json r)) s = Some (r\<lparr>mr_Path := to_valid (mr_Path r)\<rparr>)"
  by (simp add: ref_json_def ref_of_def fill_struct_def set_ref_def)

lemma reply_ints: "json_ints (reply_json r)"
  using ref_ints by (auto simp: reply_json_def json_opt_def list_all_iff split: option.splits)

lemma reply_of_json: "status_ok r \<Longrightarrow> reply_of (json_norm (reply_json r)) = Some (valid_reply r)"
  using ref_of_json
  by (cases "r_Mailbox r") (simp_all add: reply_json_def reply_of_def fill_struct_def fill_append map_json_opt set_reply_def
      no_reply_def valid_reply_def status_ok_def as_ref_def ref_json_def)

section \<open>How long a reply is\<close>

lemma decimal_length: "n < 10 ^ k \<Longrightarrow> 0 < k \<Longrightarrow> length (decimal n) \<le> k"
proof (induction n arbitrary: k rule: decimal.induct)
  case (1 n)
  show ?case
  proof (cases "n < 10")
    case False
    then have k: "1 < k" using "1.prems" by (cases "k = 1") auto
    then have "n div 10 < 10 ^ (k - 1)" using "1.prems"(1) by (cases k) (auto simp: less_mult_imp_div_less mult.commute)
    then have "length (decimal (n div 10)) \<le> k - 1" using False k by (intro "1.IH") auto
    with False k show ?thesis by (simp add: decimal.simps[of n])
  qed (use 1 in \<open>simp add: decimal.simps[of n]\<close>)
qed

lemma joinc_length: "length (joinc '','' xs) \<le> sum_list (map (\<lambda>x. length x + 1) xs)"
  by (induction "'',''" xs rule: joinc.induct) auto

text \<open>
  The reply a worker gives back names no job and no mailbox: of its JSON only the output and the
  error can be long, at six bytes for each of theirs.
\<close>

lemma reply_json_length:
  assumes "r_Job r = []" "r_Mailbox r = None" "\<bar>r_Status r\<bar> < 10 ^ 9"
  shows "length (json_print (reply_json r)) \<le> 6 * length (r_Output r) + 6 * length (r_Error r) + 120"
proof -
  have d: "length (decimal_int (r_Status r)) \<le> 10"
    using decimal_length[of "nat (r_Status r)" 9] decimal_length[of "nat (- r_Status r)" 9] assms(3)
    by (cases "r_Status r < 0") (simp_all add: decimal_int_def nat_less_iff)
  let ?ms = "json_opt ''status'' (r_Status r \<noteq> 0) (JNum (decimal_int (r_Status r)))
     @ json_opt ''output'' (r_Output r \<noteq> []) (JStr (r_Output r)) @ json_opt ''truncated'' (r_Truncated r) (JBool True)
     @ json_opt ''error'' (r_Error r \<noteq> []) (JStr (r_Error r))"
  let ?len = "\<lambda>m. length (json_member m) + 1"
  have k: "length (json_string ''status'') = 8" "length (json_string ''output'') = 8"
    "length (json_string ''truncated'') = 11" "length (json_string ''error'') = 7"
    by code_simp+
  have "length (joinc '','' (map json_member ?ms)) \<le> sum_list (map ?len ?ms)"
    using joinc_length[of "map json_member ?ms"] by (simp add: comp_def)
  also have "\<dots> \<le> (8 + 1 + 10 + 1) + (8 + 1 + length (json_string (r_Output r)) + 1) + (11 + 1 + 4 + 1) + (7 + 1 + length (json_string (r_Error r)) + 1)"
    using d k by (simp add: json_opt_def)
  finally show ?thesis
    using json_string_max[of "r_Output r"] json_string_max[of "r_Error r"] assms(1,2) by (simp add: reply_json_def json_opt_def)
qed

lemma joinc_set: "c \<in> set (joinc sep xs) \<Longrightarrow> c \<in> set sep \<or> (\<exists>x\<in>set xs. c \<in> set x)"
  by (induction sep xs rule: joinc.induct) auto

lemma json_print_no_control: "json_ints v \<Longrightarrow> c \<in> set (json_print v) \<Longrightarrow> 0x20 \<le> byte c"
proof (induction v)
  case (JNum l)
  then have "c \<in> set (decimal_int (fst (read_int l)))" by simp
  then have "isDigit c \<or> c = CHR ''-''" using decimal_digits by (auto simp: decimal_int_def split: if_splits)
  then show ?case by (auto simp: isDigit_def)
next
  case (JArr vs)
  then show ?case by (auto simp: list_all_iff dest!: joinc_set)
next
  case (JObj ms)
  then have "c = CHR ''{'' \<or> c = CHR ''}'' \<or> c \<in> set (joinc '','' (map json_member ms))" by auto
  then consider "c \<in> set ''{},:''" | m where "m \<in> set ms" "c \<in> set (json_string (fst m)) \<or> c \<in> set (json_print (snd m))"
    by (auto dest!: joinc_set)
  then show ?case
  proof cases
    case 2
    then show ?thesis using JObj.IH[of m "snd m"] JObj.prems(1) json_string_no_control by (auto simp: list_all_iff snds.simps)
  qed auto
qed (auto dest: json_string_no_control split: if_splits)

end
