(* ===== verification/Exec_Config.thy ===== *)
theory Exec_Config
  imports Exec_Messages Config_File "HOL-Library.AList"
begin

text \<open>
  The configuration file of tc-exec, from \<open>load\<close> of \<open>cmd/tc-exec/main.go\<close>, with the path helpers
  it and the broker use: \<open>canonical\<close>, \<open>separated\<close> and \<open>within\<close>. A configuration that loads keeps the
  file itself, the broker's socket and the Agent Token file outside the workspace, and names an
  Agent API on the loopback interface.
\<close>

section \<open>Paths\<close>

definition canonical :: "fslib \<Rightarrow> string \<Rightarrow> bool \<Rightarrow> string option" where
  "canonical fs path existing = (case filepath_Abs fs path of
      None \<Rightarrow> None
    | Some p \<Rightarrow>
        if existing then fs_EvalSymlinks fs p
        else (case fs_EvalSymlinks fs (filepath_Dir p) of
           None \<Rightarrow> None
         | Some parent \<Rightarrow> Some (filepath_Join [parent, filepath_Base p])))"

definition separated :: "string \<Rightarrow> string \<Rightarrow> bool" where
  "separated root path \<longleftrightarrow> path \<noteq> root \<and> \<not> hasPrefix path (root @ ''/'')"

definition within :: "fslib \<Rightarrow> string \<Rightarrow> string \<Rightarrow> bool" where
  "within fs root path = (case filepath_Abs fs path of
      None \<Rightarrow> False
    | Some p \<Rightarrow> (case fs_EvalSymlinks fs root of
        None \<Rightarrow> False
      | Some r \<Rightarrow> (case fs_EvalSymlinks fs p of
          None \<Rightarrow> False
        | Some q \<Rightarrow> q = r \<or> hasPrefix q (r @ ''/''))))"

lemma separated_below: "separated root p \<longleftrightarrow> \<not> below root p"
  by (simp add: separated_def below_def)

lemma within_canonical:
  assumes "within fs root path" "fs_EvalSymlinks fs root = Some root"
  obtains q where "canonical fs path True = Some q" "below root q"
  using assms by (auto simp: within_def canonical_def below_def split: option.splits)

lemma abs_isAbs:
  assumes "filepath_Abs fs p = Some q" "\<And>wd. fs_Getwd fs = Some wd \<Longrightarrow> isAbs wd"
  shows "isAbs q"
proof (cases "isAbs p")
  case True
  with assms(1) show ?thesis by (auto simp: filepath_Abs_def)
next
  case False
  then obtain wd where wd: "fs_Getwd fs = Some wd" "q = filepath_Join [wd, p]" using assms(1) by (auto simp: filepath_Abs_def)
  then have "isAbs wd" "wd \<noteq> []" using assms(2) by (auto simp: isAbs_iff)
  then have "isAbs (joinc ''/'' (dropWhile (\<lambda>e. e = []) [wd, p]))" by (auto simp: isAbs_iff)
  then show ?thesis using wd \<open>wd \<noteq> []\<close> by (simp add: filepath_Join_def)
qed

section \<open>The file\<close>

definition no_resource :: resource where
  "no_resource = \<lparr>rs_SecretName = [], rs_Upstream = [], rs_Methods = [], rs_PathPrefixes = []\<rparr>"

definition no_config :: exec_config where
  "no_config = \<lparr>ec_Workspace = [], ec_Socket = [], ec_AgentURL = [], ec_AgentTokenFile = [], ec_Resources = [], ec_Mailbox = []\<rparr>"

definition set_resource :: "string \<Rightarrow> json \<Rightarrow> resource \<Rightarrow> resource option" where
  "set_resource f v r = (
     if f = ''secret_name'' then map_option (\<lambda>s. r\<lparr>rs_SecretName := s\<rparr>) (as_string (rs_SecretName r) v)
     else if f = ''upstream'' then map_option (\<lambda>s. r\<lparr>rs_Upstream := s\<rparr>) (as_string (rs_Upstream r) v)
     else if f = ''methods'' then map_option (\<lambda>s. r\<lparr>rs_Methods := s\<rparr>) (as_strings (rs_Methods r) v)
     else map_option (\<lambda>s. r\<lparr>rs_PathPrefixes := s\<rparr>) (as_strings (rs_PathPrefixes r) v))"

text \<open>A map's members, each decoded into a fresh element; a later one replaces an earlier.\<close>

fun fill_resources :: "(string \<times> json) list \<Rightarrow> resource gomap \<Rightarrow> resource gomap option" where
  "fill_resources [] rs = Some rs"
| "fill_resources (m # ms) rs = (case fill_struct set_resource [''secret_name'', ''upstream'', ''methods'', ''path_prefixes''] (snd m) no_resource of
      None \<Rightarrow> None
    | Some r \<Rightarrow> fill_resources ms (AList.update (fst m) r rs))"

definition as_resources :: "resource gomap \<Rightarrow> json \<Rightarrow> resource gomap option" where
  "as_resources old v = (case v of JObj ms \<Rightarrow> fill_resources ms old | JNull \<Rightarrow> Some [] | _ \<Rightarrow> None)"

definition set_config :: "string \<Rightarrow> json \<Rightarrow> exec_config \<Rightarrow> exec_config option" where
  "set_config f v c = (
     if f = ''workspace'' then map_option (\<lambda>s. c\<lparr>ec_Workspace := s\<rparr>) (as_string (ec_Workspace c) v)
     else if f = ''socket'' then map_option (\<lambda>s. c\<lparr>ec_Socket := s\<rparr>) (as_string (ec_Socket c) v)
     else if f = ''agent_url'' then map_option (\<lambda>s. c\<lparr>ec_AgentURL := s\<rparr>) (as_string (ec_AgentURL c) v)
     else if f = ''agent_token_file'' then map_option (\<lambda>s. c\<lparr>ec_AgentTokenFile := s\<rparr>) (as_string (ec_AgentTokenFile c) v)
     else if f = ''resources'' then map_option (\<lambda>s. c\<lparr>ec_Resources := s\<rparr>) (as_resources (ec_Resources c) v)
     else map_option (\<lambda>s. c\<lparr>ec_Mailbox := s\<rparr>) (as_string (ec_Mailbox c) v))"

definition exec_config_of :: "json \<Rightarrow> exec_config option" where
  "exec_config_of v = fill_struct set_config [''workspace'', ''socket'', ''agent_url'', ''agent_token_file'', ''resources'', ''mailbox''] v no_config"

datatype exec_error = Exec_library | Exec_error string

text \<open>
  The loop over the three protected paths. A path is compared with the fields as the turns before
  have left them, as the code does.
\<close>

definition load_turn :: "string \<Rightarrow> string \<Rightarrow> exec_config \<Rightarrow> exec_config" where
  "load_turn path p c = (
     let c1 = (if path = ec_Socket c then c\<lparr>ec_Socket := p\<rparr> else c)
     in if path = ec_AgentTokenFile c1 then c1\<lparr>ec_AgentTokenFile := p\<rparr> else c1)"

fun load_protect :: "fslib \<Rightarrow> (string \<times> bool) list \<Rightarrow> exec_config \<Rightarrow> (exec_error, exec_config) result" where
  "load_protect fs [] c = Inr c"
| "load_protect fs ((path, existing) # ps) c = (case canonical fs path existing of
      None \<Rightarrow> Inl Exec_library
    | Some p \<Rightarrow>
        if \<not> separated (ec_Workspace c) p then Inl (Exec_error ''config, socket, and Agent Token file must be outside workspace'')
        else load_protect fs ps (load_turn path p c))"

text \<open>\<open>u.Hostname()\<close>: the host without its port and the brackets of an IPv6 address.\<close>

definition hostname :: "string \<Rightarrow> string" where
  "hostname h = (
     if hasPrefix h ''['' then takeWhile (\<lambda>c. c \<noteq> CHR '']'') (tl h)
     else if CHR '':'' \<in> set h then rev (tl (dropWhile (\<lambda>c. c \<noteq> CHR '':'') (rev h))) else h)"

definition loopback_url :: "golib \<Rightarrow> string \<Rightarrow> bool" where
  "loopback_url G s = (case url_Parse G s of
      None \<Rightarrow> False
    | Some u \<Rightarrow> (u_Scheme u = ''http'' \<or> u_Scheme u = ''https'') \<and> u_Host u \<noteq> [] \<and> \<not> u_User u \<and> u_RawQuery u = [] \<and> u_Fragment u = []
        \<and> hostname (u_Host u) \<in> {''localhost'', ''127.0.0.1'', ''::1''})"

definition exec_load :: "golib \<Rightarrow> fslib \<Rightarrow> string \<Rightarrow> (exec_error, exec_config) result" where
  "exec_load G fs path = (case os_ReadFile G path of
      None \<Rightarrow> Inl Exec_library
    | Some b \<Rightarrow> (case Option.bind (json_unmarshal b) exec_config_of of
        None \<Rightarrow> Inl Exec_library
      | Some c \<Rightarrow> (case canonical fs (ec_Workspace c) True of
          None \<Rightarrow> Inl Exec_library
        | Some ws \<Rightarrow> (let c = c\<lparr>ec_Workspace := ws\<rparr> in
            if ec_Workspace c = ''/'' \<or> ec_Socket c = [] \<or> ec_AgentURL c = [] \<or> ec_AgentTokenFile c = [] then Inl (Exec_error ''incomplete config'')
            else ebind (load_protect fs [(path, True), (ec_Socket c, False), (ec_AgentTokenFile c, True)] c) (\<lambda>c.
              if loopback_url G (ec_AgentURL c) then Inr c else Inl (Exec_error ''agent_url must be local loopback HTTP(S)''))))))"

section \<open>What a loaded configuration promises\<close>

text \<open>
  A configuration that loads: its workspace is not the root directory and is the real path the
  file system gives, the Agent API is on the loopback interface, and the file, the socket and the
  Agent Token file are outside the workspace.
\<close>

definition config_ok :: "golib \<Rightarrow> fslib \<Rightarrow> exec_config \<Rightarrow> bool" where
  "config_ok G fs c \<longleftrightarrow> ec_Workspace c \<noteq> ''/'' \<and> (\<exists>p. canonical fs p True = Some (ec_Workspace c))
     \<and> \<not> below (ec_Workspace c) (ec_Socket c) \<and> \<not> below (ec_Workspace c) (ec_AgentTokenFile c) \<and> loopback_url G (ec_AgentURL c)"

lemma load_turn_frame [simp]:
  "ec_Workspace (load_turn path p c) = ec_Workspace c" "ec_AgentURL (load_turn path p c) = ec_AgentURL c"
  "ec_Resources (load_turn path p c) = ec_Resources c" "ec_Mailbox (load_turn path p c) = ec_Mailbox c"
  "ec_Socket (load_turn path p c) = (if path = ec_Socket c then p else ec_Socket c)"
  "ec_AgentTokenFile (load_turn path p c) = (if path = ec_AgentTokenFile c then p else ec_AgentTokenFile c)"
  by (simp_all add: load_turn_def Let_def)

lemma load_protect_frame:
  assumes "load_protect fs ps c = Inr c'"
  shows "ec_Workspace c' = ec_Workspace c \<and> ec_AgentURL c' = ec_AgentURL c
    \<and> (\<forall>pe\<in>set ps. \<exists>p. canonical fs (fst pe) (snd pe) = Some p \<and> separated (ec_Workspace c) p)"
  using assms
proof (induction fs ps c rule: load_protect.induct)
  case (2 fs path existing ps c)
  then obtain p where "canonical fs path existing = Some p" "separated (ec_Workspace c) p" "load_protect fs ps (load_turn path p c) = Inr c'"
    by (auto split: option.splits if_splits)
  with "2.IH"[of p] show ?case by simp
qed simp

lemma load_protect_fields:
  assumes "load_protect fs ps c = Inr c'"
  shows "(ec_Socket c' = ec_Socket c \<and> ec_Socket c \<notin> fst ` set ps \<or> separated (ec_Workspace c) (ec_Socket c'))
    \<and> (ec_AgentTokenFile c' = ec_AgentTokenFile c \<and> ec_AgentTokenFile c \<notin> fst ` set ps \<or> separated (ec_Workspace c) (ec_AgentTokenFile c'))"
  using assms
proof (induction fs ps c rule: load_protect.induct)
  case (2 fs path existing ps c)
  then obtain p where "canonical fs path existing = Some p" "separated (ec_Workspace c) p" "load_protect fs ps (load_turn path p c) = Inr c'"
    by (auto split: option.splits if_splits)
  with "2.IH"[of p] show ?case by (auto split: if_splits)
qed simp

lemma exec_load_ok:
  assumes "exec_load G fs path = Inr c"
  shows "config_ok G fs c \<and> (\<exists>p. canonical fs path True = Some p \<and> \<not> below (ec_Workspace c) p)"
proof -
  from assms obtain c0 ws where c0: "canonical fs (ec_Workspace c0) True = Some ws" "ws \<noteq> ''/''"
    and l: "load_protect fs [(path, True), (ec_Socket c0, False), (ec_AgentTokenFile c0, True)] (c0\<lparr>ec_Workspace := ws\<rparr>) = Inr c"
    and u: "loopback_url G (ec_AgentURL c)"
    by (auto simp: exec_load_def Let_def split: option.splits if_splits)
  have "ec_Workspace c = ws" "\<exists>p. canonical fs path True = Some p \<and> separated ws p" using load_protect_frame[OF l] by auto
  moreover have "separated ws (ec_Socket c)" "separated ws (ec_AgentTokenFile c)" using load_protect_fields[OF l] by auto
  ultimately show ?thesis using c0 u by (auto simp: config_ok_def separated_below)
qed

end
