(* ===== verification/Exec_Sandbox.thy ===== *)
theory Exec_Sandbox
  imports Exec_Config
begin

text \<open>
  The worker of \<open>cmd/tc-exec/main.go\<close>: the seccomp filter that keeps it off the network, with the
  classic BPF machine the kernel runs it on; the bounded buffer its output goes to; and
  \<open>shellContext\<close>, which builds the \<open>bwrap\<close> command line, runs it and makes the reply of what came
  out. A worker sees its workspace and the broker's socket for writing, and for reading only the
  system directories, the configuration file and tc-exec itself.
\<close>

unbundle bit_operations_syntax

section \<open>The network filter\<close>

record sock_filter =
  sf_Code :: "16 word"
  sf_Jt :: "8 word"
  sf_Jf :: "8 word"
  sf_K :: "32 word"

datatype goarch = Amd64 | Arm64 | OtherArch

text \<open>The kernel's numbers for the architectures the filter supports.\<close>

definition AUDIT_ARCH :: "goarch \<Rightarrow> 32 word" where
  "AUDIT_ARCH a = (case a of Amd64 \<Rightarrow> 0xC000003E | Arm64 \<Rightarrow> 0xC00000B7 | OtherArch \<Rightarrow> 0)"

definition SYS_SOCKET :: "goarch \<Rightarrow> 32 word" where
  "SYS_SOCKET a = (if a = Amd64 then 41 else 198)"

definition SYS_SOCKETPAIR :: "goarch \<Rightarrow> 32 word" where
  "SYS_SOCKETPAIR a = (if a = Amd64 then 53 else 199)"

definition SYS_IO_URING_SETUP :: "32 word" where "SYS_IO_URING_SETUP = 425"
definition AF_UNIX :: "32 word" where "AF_UNIX = 1"
definition SECCOMP_RET_KILL_PROCESS :: "32 word" where "SECCOMP_RET_KILL_PROCESS = 0x80000000"
definition SECCOMP_RET_ALLOW :: "32 word" where "SECCOMP_RET_ALLOW = 0x7FFF0000"
definition SECCOMP_RET_ERRNO :: "32 word" where "SECCOMP_RET_ERRNO = 0x00050000"
definition EPERM :: "32 word" where "EPERM = 1"

definition BPF_load :: "16 word" where "BPF_load = 0x20"
definition BPF_jeq :: "16 word" where "BPF_jeq = 0x15"
definition BPF_jset :: "16 word" where "BPF_jset = 0x45"
definition BPF_ret :: "16 word" where "BPF_ret = 0x06"

definition stmt :: "16 word \<Rightarrow> 32 word \<Rightarrow> sock_filter" where
  "stmt c k = \<lparr>sf_Code = c, sf_Jt = 0, sf_Jf = 0, sf_K = k\<rparr>"

definition networkSocketFilter :: "goarch \<Rightarrow> sock_filter list option" where
  "networkSocketFilter a = (if a = OtherArch then None else Some [
     stmt BPF_load 4,
     (stmt BPF_jeq (AUDIT_ARCH a))\<lparr>sf_Jt := 1\<rparr>,
     stmt BPF_ret SECCOMP_RET_KILL_PROCESS,
     stmt BPF_load 0,
     (stmt BPF_jset 0x40000000)\<lparr>sf_Jf := 1\<rparr>,
     stmt BPF_ret SECCOMP_RET_KILL_PROCESS,
     (stmt BPF_jeq (SYS_SOCKET a))\<lparr>sf_Jt := 3\<rparr>,
     (stmt BPF_jeq (SYS_SOCKETPAIR a))\<lparr>sf_Jt := 2\<rparr>,
     (stmt BPF_jeq SYS_IO_URING_SETUP)\<lparr>sf_Jt := 3\<rparr>,
     stmt BPF_ret SECCOMP_RET_ALLOW,
     stmt BPF_load 16,
     (stmt BPF_jeq AF_UNIX)\<lparr>sf_Jt := 1\<rparr>,
     stmt BPF_ret (SECCOMP_RET_ERRNO OR EPERM),
     stmt BPF_ret SECCOMP_RET_ALLOW])"

text \<open>
  What the kernel shows a filter of a system call, and the classic BPF machine: one
  accumulator, loads of 32-bit words of that record, forward jumps only. A program that runs off
  its end, or holds another instruction, is refused by the kernel: \<open>None\<close>.
\<close>

record seccomp_data =
  sd_nr :: "32 word"
  sd_arch :: "32 word"
  sd_ip :: "64 word"
  sd_args :: "64 word list"

definition low32 :: "64 word \<Rightarrow> 32 word" where "low32 w = ucast w"
definition high32 :: "64 word \<Rightarrow> 32 word" where "high32 w = ucast (drop_bit 32 w)"

definition seccomp_load :: "seccomp_data \<Rightarrow> 32 word \<Rightarrow> 32 word option" where
  "seccomp_load d k = (
     if k = 0 then Some (sd_nr d)
     else if k = 4 then Some (sd_arch d)
     else if k = 8 then Some (low32 (sd_ip d))
     else if k = 12 then Some (high32 (sd_ip d))
     else (let i = (unat k - 16) div 8 in
       if unat k < 16 \<or> 64 \<le> unat k \<or> unat k mod 4 \<noteq> 0 \<or> length (sd_args d) \<le> i then None
       else if unat k mod 8 = 0 then Some (low32 (sd_args d ! i)) else Some (high32 (sd_args d ! i))))"

function bpf_run :: "sock_filter list \<Rightarrow> seccomp_data \<Rightarrow> nat \<Rightarrow> 32 word \<Rightarrow> 32 word option" where
  "bpf_run prog d pc acc = (
     if length prog \<le> pc then None
     else (let i = prog ! pc in
       if sf_Code i = BPF_load then
         (case seccomp_load d (sf_K i) of None \<Rightarrow> None | Some w \<Rightarrow> bpf_run prog d (pc + 1) w)
       else if sf_Code i = BPF_jeq then bpf_run prog d (pc + 1 + unat (if acc = sf_K i then sf_Jt i else sf_Jf i)) acc
       else if sf_Code i = BPF_jset then bpf_run prog d (pc + 1 + unat (if acc AND sf_K i \<noteq> 0 then sf_Jt i else sf_Jf i)) acc
       else if sf_Code i = BPF_ret then Some (sf_K i)
       else None))"
  by pat_completeness auto
termination by (relation "measure (\<lambda>(prog, d, pc, acc). length prog - pc)") auto

declare bpf_run.simps [simp del]

lemmas bpf_codes = BPF_load_def BPF_jeq_def BPF_jset_def BPF_ret_def

lemma bpf_steps:
  "pc < length prog \<Longrightarrow> prog ! pc = stmt BPF_load k \<Longrightarrow> bpf_run prog d pc acc =
     (case seccomp_load d k of None \<Rightarrow> None | Some w \<Rightarrow> bpf_run prog d (pc + 1) w)"
  "pc < length prog \<Longrightarrow> prog ! pc = stmt BPF_ret k \<Longrightarrow> bpf_run prog d pc acc = Some k"
  "pc < length prog \<Longrightarrow> prog ! pc = (stmt BPF_jeq k)\<lparr>sf_Jt := n\<rparr> \<Longrightarrow> bpf_run prog d pc acc = bpf_run prog d (if acc = k then pc + 1 + unat n else pc + 1) acc"
  "pc < length prog \<Longrightarrow> prog ! pc = (stmt BPF_jset k)\<lparr>sf_Jf := n\<rparr> \<Longrightarrow> bpf_run prog d pc acc = bpf_run prog d (if acc AND k = 0 then pc + 1 + unat n else pc + 1) acc"
  by (subst bpf_run.simps, simp add: stmt_def bpf_codes Let_def)+

lemma stmt_update: "(stmt c k)\<lparr>sf_Jt := n\<rparr> = \<lparr>sf_Code = c, sf_Jt = n, sf_Jf = 0, sf_K = k\<rparr>"
  "(stmt c k)\<lparr>sf_Jf := n\<rparr> = \<lparr>sf_Code = c, sf_Jt = 0, sf_Jf = n, sf_K = k\<rparr>"
  by (simp_all add: stmt_def)

lemma filter_tail:
  assumes "networkSocketFilter a = Some prog" and "sd_args d = x # xs"
  shows "bpf_run prog d 10 acc = Some (if low32 x = AF_UNIX then SECCOMP_RET_ALLOW else SECCOMP_RET_ERRNO OR EPERM)"
proof -
  have p: "length prog = 14" "prog ! 10 = stmt BPF_load 16" "prog ! 11 = (stmt BPF_jeq AF_UNIX)\<lparr>sf_Jt := 1\<rparr>"
      "prog ! 12 = stmt BPF_ret (SECCOMP_RET_ERRNO OR EPERM)" "prog ! 13 = stmt BPF_ret SECCOMP_RET_ALLOW"
    using assms(1) by (auto simp: networkSocketFilter_def split: if_splits)
  have l: "seccomp_load d 16 = Some (low32 x)" using assms(2) by (simp add: seccomp_load_def)
  have "bpf_run prog d 11 (low32 x) = Some (if low32 x = AF_UNIX then SECCOMP_RET_ALLOW else SECCOMP_RET_ERRNO OR EPERM)"
    using bpf_steps(3)[OF _ p(3)] bpf_steps(2)[OF _ p(4)] bpf_steps(2)[OF _ p(5)] p(1) by simp
  then show ?thesis using bpf_steps(1)[OF _ p(2)] p(1) l by simp
qed

lemma filter_syscall:
  assumes "networkSocketFilter a = Some prog" and "sd_args d = x # xs"
  shows "bpf_run prog d 6 nr = Some (
    if nr = SYS_SOCKET a \<or> nr = SYS_SOCKETPAIR a then if low32 x = AF_UNIX then SECCOMP_RET_ALLOW else SECCOMP_RET_ERRNO OR EPERM
    else if nr = SYS_IO_URING_SETUP then SECCOMP_RET_ERRNO OR EPERM else SECCOMP_RET_ALLOW)"
proof -
  have p: "length prog = 14" "prog ! 6 = (stmt BPF_jeq (SYS_SOCKET a))\<lparr>sf_Jt := 3\<rparr>" "prog ! 7 = (stmt BPF_jeq (SYS_SOCKETPAIR a))\<lparr>sf_Jt := 2\<rparr>"
      "prog ! 8 = (stmt BPF_jeq SYS_IO_URING_SETUP)\<lparr>sf_Jt := 3\<rparr>" "prog ! 9 = stmt BPF_ret SECCOMP_RET_ALLOW"
      "prog ! 12 = stmt BPF_ret (SECCOMP_RET_ERRNO OR EPERM)"
    using assms(1) by (auto simp: networkSocketFilter_def split: if_splits)
  have r8: "bpf_run prog d 8 nr = Some (if nr = SYS_IO_URING_SETUP then SECCOMP_RET_ERRNO OR EPERM else SECCOMP_RET_ALLOW)"
    using bpf_steps(3)[OF _ p(4)] bpf_steps(2)[OF _ p(5)] bpf_steps(2)[OF _ p(6)] p(1) by simp
  have r7: "bpf_run prog d 7 nr = (if nr = SYS_SOCKETPAIR a then bpf_run prog d 10 nr else bpf_run prog d 8 nr)"
    using bpf_steps(3)[OF _ p(3)] p(1) by simp
  have "bpf_run prog d 6 nr = (if nr = SYS_SOCKET a then bpf_run prog d 10 nr else bpf_run prog d 7 nr)"
    using bpf_steps(3)[OF _ p(2)] p(1) by simp
  then show ?thesis using r7 r8 filter_tail[OF assms] by simp
qed

text \<open>
  C25: a worker cannot reach the network. For every system call of the worker the filter
  returns a verdict, and it allows the call exactly when it is of the native architecture and
  not of the x32 ABI, does not set up an io_uring, and, if it creates a socket or a pair of
  them, the family is \<open>AF_UNIX\<close>; every other call is killed or refused.
\<close>

theorem worker_has_no_network:
  assumes "networkSocketFilter a = Some prog" and "sd_args d = x # xs"
  shows "\<exists>v. bpf_run prog d 0 0 = Some v \<and> v \<in> {SECCOMP_RET_ALLOW, SECCOMP_RET_ERRNO OR EPERM, SECCOMP_RET_KILL_PROCESS}
    \<and> (v = SECCOMP_RET_ALLOW \<longleftrightarrow> sd_arch d = AUDIT_ARCH a \<and> \<not> bit (sd_nr d) 30 \<and> sd_nr d \<noteq> SYS_IO_URING_SETUP
         \<and> (sd_nr d \<in> {SYS_SOCKET a, SYS_SOCKETPAIR a} \<longrightarrow> low32 x = AF_UNIX))"
proof -
  have p: "length prog = 14" "prog ! 0 = stmt BPF_load 4" "prog ! 1 = (stmt BPF_jeq (AUDIT_ARCH a))\<lparr>sf_Jt := 1\<rparr>"
      "prog ! 2 = stmt BPF_ret SECCOMP_RET_KILL_PROCESS" "prog ! 3 = stmt BPF_load 0" "prog ! 4 = (stmt BPF_jset 0x40000000)\<lparr>sf_Jf := 1\<rparr>"
      "prog ! 5 = stmt BPF_ret SECCOMP_RET_KILL_PROCESS" "a \<noteq> OtherArch"
    using assms(1) by (auto simp: networkSocketFilter_def split: if_splits)
  have b30: "sd_nr d AND 0x40000000 = 0 \<longleftrightarrow> \<not> bit (sd_nr d) 30"
    using and_exp_eq_0_iff_not_bit[of "sd_nr d" 30] by simp
  have l: "seccomp_load d 0 = Some (sd_nr d)" "seccomp_load d 4 = Some (sd_arch d)" by (simp_all add: seccomp_load_def)
  have r4: "bpf_run prog d 4 (sd_nr d) = (if bit (sd_nr d) 30 then Some SECCOMP_RET_KILL_PROCESS else bpf_run prog d 6 (sd_nr d))"
    using bpf_steps(4)[OF _ p(6)] bpf_steps(2)[OF _ p(7)] p(1) b30 by simp
  have r3: "bpf_run prog d 3 acc = bpf_run prog d 4 (sd_nr d)" for acc using bpf_steps(1)[OF _ p(5)] p(1) l(1) by simp
  have r1: "bpf_run prog d 1 acc = (if acc = AUDIT_ARCH a then bpf_run prog d 3 acc else Some SECCOMP_RET_KILL_PROCESS)" for acc
    using bpf_steps(3)[OF _ p(3)] bpf_steps(2)[OF _ p(4)] p(1) by (simp add: numeral_2_eq_2 numeral_3_eq_3)
  have "bpf_run prog d 0 0 = bpf_run prog d 1 (sd_arch d)" using bpf_steps(1)[OF _ p(2)] p(1) l(2) by simp
  then have run: "bpf_run prog d 0 0 = (if sd_arch d \<noteq> AUDIT_ARCH a \<or> bit (sd_nr d) 30 then Some SECCOMP_RET_KILL_PROCESS else bpf_run prog d 6 (sd_nr d))"
    using r1 r3 r4 by simp
  have ne: "SECCOMP_RET_ALLOW \<noteq> SECCOMP_RET_KILL_PROCESS" "SECCOMP_RET_ALLOW \<noteq> SECCOMP_RET_ERRNO OR EPERM"
    by (simp_all add: SECCOMP_RET_ALLOW_def SECCOMP_RET_KILL_PROCESS_def SECCOMP_RET_ERRNO_def EPERM_def)
  have dis: "SYS_SOCKET a \<noteq> SYS_IO_URING_SETUP" "SYS_SOCKETPAIR a \<noteq> SYS_IO_URING_SETUP"
    using p(8) by (simp_all add: SYS_SOCKET_def SYS_SOCKETPAIR_def SYS_IO_URING_SETUP_def)
  show ?thesis
  proof (cases "sd_arch d \<noteq> AUDIT_ARCH a \<or> bit (sd_nr d) 30")
    case True
    then show ?thesis using ne(1)[symmetric] unfolding run by simp
  next
    case False
    then show ?thesis using ne(2)[symmetric] dis unfolding run filter_syscall[OF assms] by simp
  qed
qed

theorem worker_has_no_network_witness:
  "\<exists>prog v. networkSocketFilter Amd64 = Some prog \<and> v \<noteq> SECCOMP_RET_ALLOW
     \<and> bpf_run prog \<lparr>sd_nr = 41, sd_arch = 0xC000003E, sd_ip = 0, sd_args = [2, 1, 6, 0, 0, 0]\<rparr> 0 0 = Some v"
proof -
  obtain prog where p: "networkSocketFilter Amd64 = Some prog" by (simp add: networkSocketFilter_def)
  from worker_has_no_network[OF p, of "\<lparr>sd_nr = 41, sd_arch = 0xC000003E, sd_ip = 0, sd_args = [2, 1, 6, 0, 0, 0]\<rparr>" 2] p
  show ?thesis by (auto simp: SYS_SOCKET_def low32_def AF_UNIX_def)
qed

section \<open>The output buffer\<close>

record boundedOutput =
  bo_buf :: bytes
  bo_truncated :: bool

definition boundedOutput_Write :: "bytes \<Rightarrow> boundedOutput \<Rightarrow> nat \<times> boundedOutput" where
  "boundedOutput_Write p w = (
     let n = length p;
         written = min (outputLimit - length (bo_buf w)) n;
         w' = w\<lparr>bo_buf := bo_buf w @ take written p\<rparr>
     in (n, if written < n then w'\<lparr>bo_truncated := True\<rparr> else w'))"

definition output_of :: "bytes list \<Rightarrow> boundedOutput" where
  "output_of ps = foldl (\<lambda>w p. snd (boundedOutput_Write p w)) \<lparr>bo_buf = [], bo_truncated = False\<rparr> ps"

lemma output_of_buf:
  "bo_buf (output_of ps) = take outputLimit (concat ps) \<and> (bo_truncated (output_of ps) \<longleftrightarrow> outputLimit < length (concat ps))"
proof (induction ps rule: rev_induct)
  case (snoc p ps)
  let ?w = "output_of ps" and ?c = "concat ps"
  have s: "output_of (ps @ [p]) = snd (boundedOutput_Write p ?w)" by (simp add: output_of_def)
  show ?case
  proof (cases "outputLimit \<le> length ?c")
    case True
    then show ?thesis using snoc unfolding s by (cases p) (auto simp: boundedOutput_Write_def Let_def)
  next
    case False
    then show ?thesis using snoc unfolding s by (auto simp: boundedOutput_Write_def Let_def min_def)
  qed
qed (simp add: output_of_def)

section \<open>The command line\<close>

datatype extra_file = WorkspaceDir | FilterFile "sock_filter list"

record bwrap_cmd =
  bc_args :: "string list"
  bc_extra :: "extra_file list"
  bc_env :: "string list"

datatype run_end = Run_ok | Run_exit int | Run_failed

text \<open>
  What the broker's surroundings answer to one \<open>shellContext\<close>: whether \<open>/lib64\<close> exists, the path
  of tc-exec, the architecture, whether the memory file for the filter could be made, and what a
  run of \<open>bwrap\<close> writes, how it ends and whether its context had ended by then.
\<close>

record worker_world =
  ww_lib64 :: bool
  ww_Executable :: "string option"
  ww_arch :: goarch
  ww_memfd :: bool
  ww_run :: "bwrap_cmd \<Rightarrow> bytes list \<times> run_end \<times> bool"

definition bwrap_binds :: "exec_broker \<Rightarrow> string \<Rightarrow> string list" where
  "bwrap_binds b exe = (if b_configPath b = [] then [] else
     [''--ro-bind'', b_configPath b, ''/tc-exec.json'', ''--bind'', ec_Socket (b_cfg b), ''/tc-broker.sock'', ''--ro-bind'', exe, ''/tc-exec''])"

definition filterFD :: "exec_broker \<Rightarrow> nat" where
  "filterFD b = (if b_workspaceDir b then 4 else 3)"

definition bwrap_args :: "exec_broker \<Rightarrow> worker_world \<Rightarrow> string \<Rightarrow> string \<Rightarrow> job \<Rightarrow> string list" where
  "bwrap_args b W exe wd j =
     [''--unshare-all'', ''--share-net'', ''--die-with-parent'', ''--new-session'', ''--ro-bind'', ''/usr'', ''/usr'',
      ''--ro-bind'', ''/bin'', ''/bin'', ''--ro-bind'', ''/lib'', ''/lib'']
     @ (if ww_lib64 W then [''--ro-bind'', ''/lib64'', ''/lib64''] else [])
     @ [''--dev'', ''/dev'', ''--proc'', ''/proc'', ''--tmpfs'', ''/tmp'', ''--tmpfs'', ''/home'', ''--bind'',
        if b_workspaceDir b then ''/proc/self/fd/3'' else ec_Workspace (b_cfg b), ''/workspace'']
     @ bwrap_binds b exe
     @ [''--chdir'', wd, ''--setenv'', ''HOME'', ''/home'', ''--setenv'', ''PATH'', ''/usr/bin:/bin'',
        ''--setenv'', ''TC_EXEC_CONFIG'', ''/tc-exec.json'', ''--setenv'', ''TC_EXEC_SOCKET'', ''/tc-broker.sock'',
        ''--seccomp'', decimal (filterFD b), ''--'', ''/bin/bash'', ''--noprofile'', ''--norc'', ''-c'', j_command j]"

text \<open>The command \<open>shellContext\<close> runs, or the reply it gives without running one.\<close>

definition worker_command :: "exec_broker \<Rightarrow> worker_world \<Rightarrow> job \<Rightarrow> (reply, bwrap_cmd) result" where
  "worker_command b W j = (case filepath_Rel (ec_Workspace (b_cfg b)) (j_workdir j) of
      None \<Rightarrow> Inl (reply_error ''invalid workdir'')
    | Some rel \<Rightarrow>
        if b_configPath b \<noteq> [] \<and> ww_Executable W = None then Inl (reply_error ''cannot locate tc-exec binary'')
        else (case networkSocketFilter (ww_arch W) of
           None \<Rightarrow> Inl (reply_error ''cannot create network filter'')
         | Some prog \<Rightarrow>
             if \<not> ww_memfd W then Inl (reply_error ''cannot create network filter'')
             else Inr \<lparr>bc_args = bwrap_args b W (case ww_Executable W of None \<Rightarrow> [] | Some e \<Rightarrow> e) (filepath_Join [''/workspace'', rel]) j,
                       bc_extra = (if b_workspaceDir b then [WorkspaceDir] else []) @ [FilterFile prog],
                       bc_env = [''PATH=/usr/bin:/bin'', ''HOME=/home'', ''LANG=C.UTF-8'']\<rparr>))"

definition run_reply :: "bytes list \<Rightarrow> run_end \<Rightarrow> bool \<Rightarrow> reply" where
  "run_reply chunks fin ctx_err = (
     let out = output_of chunks; code = (case fin of Run_ok \<Rightarrow> 0 | Run_exit c \<Rightarrow> c | Run_failed \<Rightarrow> 1)
     in if ctx_err then no_reply\<lparr>r_Status := 124, r_Error := ''command timed out''\<rparr>
        else no_reply\<lparr>r_Status := code, r_Output := bo_buf out, r_Truncated := bo_truncated out\<rparr>)"

definition shellContext :: "exec_broker \<Rightarrow> worker_world \<Rightarrow> job \<Rightarrow> reply" where
  "shellContext b W j = (case worker_command b W j of
      Inl r \<Rightarrow> r
    | Inr c \<Rightarrow> (case ww_run W c of (chunks, fin, ctx_err) \<Rightarrow> run_reply chunks fin ctx_err))"

section \<open>What a worker can reach\<close>

text \<open>
  The sandbox a command line asks for: its mounts in order, its working directory, the descriptor
  of its filter and the program with its arguments.
\<close>

datatype mount = RoBind string string | Bind string string | Special string string

fun mount_args :: "mount \<Rightarrow> string list" where
  "mount_args (RoBind s d) = [''--ro-bind'', s, d]"
| "mount_args (Bind s d) = [''--bind'', s, d]"
| "mount_args (Special k d) = [k, d]"

definition worker_mounts :: "exec_broker \<Rightarrow> worker_world \<Rightarrow> string \<Rightarrow> mount list" where
  "worker_mounts b W exe =
     [RoBind ''/usr'' ''/usr'', RoBind ''/bin'' ''/bin'', RoBind ''/lib'' ''/lib'']
     @ (if ww_lib64 W then [RoBind ''/lib64'' ''/lib64''] else [])
     @ [Special ''--dev'' ''/dev'', Special ''--proc'' ''/proc'', Special ''--tmpfs'' ''/tmp'', Special ''--tmpfs'' ''/home'',
        Bind (if b_workspaceDir b then ''/proc/self/fd/3'' else ec_Workspace (b_cfg b)) ''/workspace'']
     @ (if b_configPath b = [] then [] else
         [RoBind (b_configPath b) ''/tc-exec.json'', Bind (ec_Socket (b_cfg b)) ''/tc-broker.sock'', RoBind exe ''/tc-exec''])"

text \<open>
  The directory or file of the host a bind shows: \<open>/proc/self/fd/n\<close> is what the command passes as
  its descriptor \<open>n\<close>, counted from 3 as \<open>os/exec\<close> does.
\<close>

definition host_source :: "exec_broker \<Rightarrow> extra_file list \<Rightarrow> string \<Rightarrow> string" where
  "host_source b extra s = (if s = ''/proc/self/fd/3'' \<and> extra \<noteq> [] \<and> hd extra = WorkspaceDir then ec_Workspace (b_cfg b) else s)"

fun readable_source :: "mount \<Rightarrow> string option" where
  "readable_source (RoBind s d) = Some s"
| "readable_source (Bind s d) = Some s"
| "readable_source (Special k d) = None"

lemma bwrap_args_mounts:
  "bwrap_args b W exe wd j = [''--unshare-all'', ''--share-net'', ''--die-with-parent'', ''--new-session'']
     @ concat (map mount_args (worker_mounts b W exe))
     @ [''--chdir'', wd, ''--setenv'', ''HOME'', ''/home'', ''--setenv'', ''PATH'', ''/usr/bin:/bin'',
        ''--setenv'', ''TC_EXEC_CONFIG'', ''/tc-exec.json'', ''--setenv'', ''TC_EXEC_SOCKET'', ''/tc-broker.sock'',
        ''--seccomp'', decimal (filterFD b), ''--'', ''/bin/bash'', ''--noprofile'', ''--norc'', ''-c'', j_command j]"
  by (simp add: bwrap_args_def worker_mounts_def bwrap_binds_def)

lemma join_workspace:
  assumes "list_all plain_comp s"
  shows "filepath_Join [''/workspace'', if s = [] then ''.'' else joinc ''/'' s] = slash # joinc ''/'' (''workspace'' # s)"
proof -
  have w: "plain_comp ''workspace''" by (simp add: plain_comp_def)
  show ?thesis
  proof (cases "s = []")
    case True
    then show ?thesis by (simp add: filepath_Join_def) code_simp
  next
    case False
    then have "joinc ''/'' (''workspace'' # s) = ''workspace/'' @ joinc ''/'' s" by (cases s) auto
    with False clean_abs_comps[of "''workspace'' # s"] w assms show ?thesis by (simp add: filepath_Join_def)
  qed
qed

text \<open>A job the broker accepted: its directory is a real path at or below the workspace.\<close>

definition job_ok :: "exec_config \<Rightarrow> job \<Rightarrow> bool" where
  "job_ok cfg j \<longleftrightarrow> isAbs (j_workdir j) \<and> filepath_Clean (j_workdir j) = j_workdir j \<and> below (ec_Workspace cfg) (j_workdir j)"

definition workspace_ok :: "exec_config \<Rightarrow> bool" where
  "workspace_ok cfg \<longleftrightarrow> isAbs (ec_Workspace cfg) \<and> filepath_Clean (ec_Workspace cfg) = ec_Workspace cfg \<and> ec_Workspace cfg \<noteq> ''/''"

text \<open>A configuration that loads has a workspace that is a clean absolute path.\<close>

lemma loaded_workspace_ok:
  assumes "config_ok G fs cfg" "fs_ok fs" "\<forall>wd. fs_Getwd fs = Some wd \<longrightarrow> isAbs wd"
  shows "workspace_ok cfg"
proof -
  obtain p q where "filepath_Abs fs p = Some q" "fs_EvalSymlinks fs q = Some (ec_Workspace cfg)" "ec_Workspace cfg \<noteq> ''/''"
    using assms(1) by (auto simp: config_ok_def canonical_def split: option.splits)
  moreover from this have "isAbs q" using abs_isAbs[of fs p q] assms(3) by blast
  ultimately have "isAbs (ec_Workspace cfg) \<and> filepath_Clean (ec_Workspace cfg) = ec_Workspace cfg" "ec_Workspace cfg \<noteq> ''/''"
    using assms(2) unfolding fs_ok_def by blast+
  then show ?thesis by (simp add: workspace_ok_def)
qed

text \<open>What a worker is given of the host besides its workspace.\<close>

lemma readable_sources:
  "m \<in> set ([RoBind u u', RoBind v v', RoBind w w'] @ (if l then [RoBind x x'] else [])
       @ [Special k1 d1, Special k2 d2, Special k3 d3, Special k4 d4, Bind ws d5] @ (if p then [] else [RoBind cp e1, Bind so e2, RoBind exe e3]))
   \<Longrightarrow> readable_source m = Some s \<Longrightarrow> s = ws \<or> s \<in> {u, v, w, x, cp, so, exe}"
  by (auto split: if_splits)

lemma worker_mounts_sources:
  assumes "m \<in> set (worker_mounts b W exe)" "readable_source m = Some s" "b_workspaceDir b \<longrightarrow> extra \<noteq> [] \<and> hd extra = WorkspaceDir"
  shows "host_source b extra s \<in> {ec_Workspace (b_cfg b), ''/usr'', ''/bin'', ''/lib'', ''/lib64'', b_configPath b, ec_Socket (b_cfg b), exe}"
proof -
  define dirs where "dirs = {''/usr'', ''/bin'', ''/lib'', ''/lib64'', b_configPath b, ec_Socket (b_cfg b), exe}"
  have "s = (if b_workspaceDir b then ''/proc/self/fd/3'' else ec_Workspace (b_cfg b)) \<or> s \<in> dirs"
    unfolding dirs_def by (rule readable_sources[OF assms(1)[unfolded worker_mounts_def] assms(2)])
  then have "host_source b extra s = ec_Workspace (b_cfg b) \<or> host_source b extra s \<in> dirs"
    using assms(3) by (cases "b_workspaceDir b"; elim disjE) (simp_all add: host_source_def)
  then show ?thesis by (simp only: dirs_def[symmetric] insert_iff)
qed

lemma worker_mounts_writable:
  assumes "Bind s d \<in> set (worker_mounts b W exe)" "b_workspaceDir b \<longrightarrow> extra \<noteq> [] \<and> hd extra = WorkspaceDir"
  shows "host_source b extra s \<in> {ec_Workspace (b_cfg b), ec_Socket (b_cfg b)}"
  using assms by (auto simp: worker_mounts_def host_source_def split: if_splits)

lemma worker_chdir:
  assumes "workspace_ok (b_cfg b)" "job_ok (b_cfg b) j" "filepath_Rel (ec_Workspace (b_cfg b)) (j_workdir j) = Some rel"
  shows "below ''/workspace'' (filepath_Join [''/workspace'', rel])"
proof -
  obtain s where s: "list_all plain_comp s" "rel = (if s = [] then ''.'' else joinc ''/'' s)"
    using rel_below[of "ec_Workspace (b_cfg b)" "j_workdir j"] assms by (auto simp: job_ok_def workspace_ok_def)
  then show ?thesis using join_workspace[OF s(1)] by (cases s) (auto simp: below_def hasPrefix_iff)
qed

text \<open>
  C26: a worker runs in its cage. Whenever a broker whose configuration \<open>load\<close> accepted runs an
  accepted job, the program it starts is \<open>bash\<close> with the job's command, in \<open>/workspace\<close> or below;
  the only host paths it can write are the workspace and the broker's socket, and the workspace
  does not hold the Agent Token; it can read the Agent Token's file only if the Operator put that
  file below \<open>/usr\<close>, \<open>/bin\<close>, \<open>/lib\<close> or \<open>/lib64\<close>, or made it the configuration file, the socket or
  tc-exec itself, which \<open>load\<close> does not check; and the descriptor given to \<open>bwrap\<close> as the filter
  is the one that carries the network filter.
\<close>

theorem worker_confined:
  assumes "exec_load G fs path = Inr (b_cfg b)" and "fs_ok fs" and "\<forall>wd. fs_Getwd fs = Some wd \<longrightarrow> isAbs wd"
    and "b_configPath b \<noteq> []" and "worker_command b W j = Inr c" and "job_ok (b_cfg b) j"
  shows "\<exists>exe wd prog. ww_Executable W = Some exe \<and> below ''/workspace'' wd
    \<and> bc_args c = [''--unshare-all'', ''--share-net'', ''--die-with-parent'', ''--new-session'']
         @ concat (map mount_args (worker_mounts b W exe))
         @ [''--chdir'', wd, ''--setenv'', ''HOME'', ''/home'', ''--setenv'', ''PATH'', ''/usr/bin:/bin'',
            ''--setenv'', ''TC_EXEC_CONFIG'', ''/tc-exec.json'', ''--setenv'', ''TC_EXEC_SOCKET'', ''/tc-broker.sock'',
            ''--seccomp'', decimal (filterFD b), ''--'', ''/bin/bash'', ''--noprofile'', ''--norc'', ''-c'', j_command j]
    \<and> (\<forall>s d. Bind s d \<in> set (worker_mounts b W exe) \<longrightarrow> host_source b (bc_extra c) s \<in> {ec_Workspace (b_cfg b), ec_Socket (b_cfg b)})
    \<and> \<not> below (ec_Workspace (b_cfg b)) (ec_AgentTokenFile (b_cfg b))
    \<and> (\<forall>m\<in>set (worker_mounts b W exe). \<forall>s. readable_source m = Some s \<and> below (host_source b (bc_extra c) s) (ec_AgentTokenFile (b_cfg b)) \<longrightarrow>
         (\<exists>d\<in>{''/usr'', ''/bin'', ''/lib'', ''/lib64'', b_configPath b, ec_Socket (b_cfg b), exe}. below d (ec_AgentTokenFile (b_cfg b))))
    \<and> networkSocketFilter (ww_arch W) = Some prog \<and> bc_extra c ! (filterFD b - 3) = FilterFile prog"
proof -
  obtain exe where exe: "ww_Executable W = Some exe"
    using assms(4,5) by (auto simp: worker_command_def split: option.splits if_splits)
  obtain rel prog where rel: "filepath_Rel (ec_Workspace (b_cfg b)) (j_workdir j) = Some rel" and prog: "networkSocketFilter (ww_arch W) = Some prog"
    and c: "bc_args c = bwrap_args b W exe (filepath_Join [''/workspace'', rel]) j"
      "bc_extra c = (if b_workspaceDir b then [WorkspaceDir] else []) @ [FilterFile prog]"
    using assms(5) exe by (auto simp: worker_command_def split: option.splits if_splits)
  have x: "b_workspaceDir b \<longrightarrow> bc_extra c \<noteq> [] \<and> hd (bc_extra c) = WorkspaceDir" by (simp add: c)
  have ok: "config_ok G fs (b_cfg b)" using exec_load_ok[OF assms(1)] by blast
  then have out: "\<not> below (ec_Workspace (b_cfg b)) (ec_AgentTokenFile (b_cfg b))" by (simp add: config_ok_def)
  have hidden: "\<exists>d\<in>{''/usr'', ''/bin'', ''/lib'', ''/lib64'', b_configPath b, ec_Socket (b_cfg b), exe}. below d (ec_AgentTokenFile (b_cfg b))"
    if "m \<in> set (worker_mounts b W exe)" "readable_source m = Some s" "below (host_source b (bc_extra c) s) (ec_AgentTokenFile (b_cfg b))" for m s
    using worker_mounts_sources[OF that(1,2) x] that(3) out by auto
  have "bc_extra c ! (filterFD b - 3) = FilterFile prog" by (simp add: c filterFD_def)
  moreover have "bc_args c = [''--unshare-all'', ''--share-net'', ''--die-with-parent'', ''--new-session'']
         @ concat (map mount_args (worker_mounts b W exe))
         @ [''--chdir'', filepath_Join [''/workspace'', rel], ''--setenv'', ''HOME'', ''/home'', ''--setenv'', ''PATH'', ''/usr/bin:/bin'',
            ''--setenv'', ''TC_EXEC_CONFIG'', ''/tc-exec.json'', ''--setenv'', ''TC_EXEC_SOCKET'', ''/tc-broker.sock'',
            ''--seccomp'', decimal (filterFD b), ''--'', ''/bin/bash'', ''--noprofile'', ''--norc'', ''-c'', j_command j]"
    unfolding c(1) by (rule bwrap_args_mounts)
  ultimately show ?thesis
    using worker_chdir[OF loaded_workspace_ok[OF ok assms(2,3)] assms(6) rel] hidden worker_mounts_writable[OF _ x] exe prog out by blast
qed

definition example_exec_config :: exec_config where
  "example_exec_config = \<lparr>ec_Workspace = ''/w'', ec_Socket = ''/p/broker.sock'', ec_AgentURL = ''http://127.0.0.1:8200'',
     ec_AgentTokenFile = ''/t'', ec_Resources = [(''gh'', \<lparr>rs_SecretName = ''s'', rs_Upstream = ''u'', rs_Methods = [''GET''], rs_PathPrefixes = [''/a'']\<rparr>)],
     ec_Mailbox = []\<rparr>"

definition example_exec_broker :: exec_broker where
  "example_exec_broker = \<lparr>b_cfg = example_exec_config, b_configPath = ''/p/tc-exec.json'', b_token = ''tok'', b_jobs = [], b_workers = 0,
     b_connections = 0, b_workspaceDir = True, b_mailboxRoot = False, b_mailboxPath = [], b_mailboxClosing = False, b_mailboxActive = 0\<rparr>"

definition example_worker_world :: worker_world where
  "example_worker_world = \<lparr>ww_lib64 = True, ww_Executable = Some ''/opt/tc-exec'', ww_arch = Amd64, ww_memfd = True,
     ww_run = (\<lambda>c. ([''hello''], Run_ok, False))\<rparr>"

definition example_job :: job where
  "example_job = \<lparr>j_command = ''ls'', j_workdir = ''/w/d'', j_created = 0\<rparr>"

lemmas exec_examples = example_exec_config_def example_exec_broker_def example_worker_world_def example_job_def

text \<open>The configuration as \<open>load\<close> reads it from its file.\<close>

definition example_fs :: fslib where
  "example_fs = \<lparr>fs_Getwd = None, fs_EvalSymlinks = (\<lambda>p. Some (filepath_Clean p))\<rparr>"

definition example_config_json :: json where
  "example_config_json = JObj [(''workspace'', JStr ''/w''), (''socket'', JStr ''/p/s''), (''agent_url'', JStr ''http://127.0.0.1:8200''), (''agent_token_file'', JStr ''/t'')]"

definition example_loaded :: exec_config where
  "example_loaded = \<lparr>ec_Workspace = ''/w'', ec_Socket = ''/p/s'', ec_AgentURL = ''http://127.0.0.1:8200'', ec_AgentTokenFile = ''/t'', ec_Resources = [], ec_Mailbox = []\<rparr>"

definition example_exec_golib :: golib where
  "example_exec_golib = example_golib\<lparr>url_Parse := (\<lambda>s. Some \<lparr>u_Scheme = ''http'', u_Opaque = [], u_User = False, u_Host = ''127.0.0.1:8200'',
     u_Path = [], u_RawPath = [], u_RawQuery = [], u_ForceQuery = False, u_Fragment = [], u_EscapedPath = [], u_String = s\<rparr>)\<rparr>"

definition example_hook_golib :: golib where
  "example_hook_golib = example_exec_golib\<lparr>os_ReadFile := (\<lambda>p. Some (json_print example_config_json))\<rparr>"

lemma example_load: "exec_load example_hook_golib example_fs ''/p/c'' = Inr example_loaded"
proof -
  have "json_unmarshal (json_print example_config_json) = Some (json_norm example_config_json)"
    by (rule json_unmarshal_print) (simp add: example_config_json_def)
  moreover have "exec_config_of (json_norm example_config_json) = Some example_loaded"
    by (simp add: example_config_json_def exec_config_of_def fill_struct_def set_config_def no_config_def example_loaded_def)
  moreover have "canonical example_fs ''/w'' True = Some ''/w''"
    "load_protect example_fs [(''/p/c'', True), (''/p/s'', False), (''/t'', True)] example_loaded = Inr example_loaded" by code_simp+
  moreover have "loopback_url example_hook_golib ''http://127.0.0.1:8200''" by code_simp
  ultimately show ?thesis by (simp add: exec_load_def example_hook_golib_def example_loaded_def)
qed

theorem worker_confined_witness:
  "\<exists>c wd. worker_command (example_exec_broker\<lparr>b_cfg := example_loaded\<rparr>) example_worker_world example_job = Inr c \<and> below ''/workspace'' wd
     \<and> ''--bind'' \<in> set (bc_args c) \<and> \<not> below ''/w'' ''/t''"
proof -
  let ?b = "example_exec_broker\<lparr>b_cfg := example_loaded\<rparr>"
  have load: "exec_load example_hook_golib example_fs ''/p/c'' = Inr (b_cfg ?b)" by (simp add: example_load)
  have fs: "fs_ok example_fs" "\<forall>wd. fs_Getwd example_fs = Some wd \<longrightarrow> isAbs wd" by (simp_all add: fs_ok_def example_fs_def)
  have rel: "filepath_Rel ''/w'' ''/w/d'' = Some ''d''" by code_simp
  have ok: "job_ok (b_cfg ?b) example_job" by code_simp
  obtain c where c: "worker_command ?b example_worker_world example_job = Inr c"
    using rel by (simp add: exec_examples example_loaded_def worker_command_def networkSocketFilter_def)
  have p: "b_configPath ?b \<noteq> []" by (simp add: exec_examples)
  from worker_confined[OF load fs p c ok] obtain exe wd where w: "below ''/workspace'' wd"
    "\<not> below (ec_Workspace (b_cfg ?b)) (ec_AgentTokenFile (b_cfg ?b))" and "\<exists>a z. bc_args c = a @ concat (map mount_args (worker_mounts ?b example_worker_world exe)) @ z"
    by blast
  moreover have "''--bind'' \<in> set (concat (map mount_args (worker_mounts ?b example_worker_world exe)))" by (simp add: worker_mounts_def)
  ultimately have "''--bind'' \<in> set (bc_args c)" by fastforce
  with w c show ?thesis by (auto simp: example_loaded_def)
qed

end
