(* ===== verification/Exec_Mailbox.thy ===== *)
theory Exec_Mailbox
  imports Exec_Sandbox
begin

text \<open>
  The FIFO mailbox of \<open>cmd/tc-exec/mailbox.go\<close>: the checks on descriptors and directories, a job's
  pair of FIFOs made and unmade, the goroutine that serves it, the loop that writes a FIFO, and the
  dispatcher's end, which reads the reply.
\<close>

section \<open>Descriptors and directories\<close>

datatype file_kind = S_IFDIR | S_IFIFO | S_IFREG | S_IFLNK | S_IFOTHER

record stat_t =
  st_kind :: file_kind
  st_Perm :: "12 word"
  st_Uid :: nat
  st_Dev :: "64 word"
  st_Ino :: "64 word"

text \<open>\<open>Fstat\<close> on a descriptor, failing or not, the type wanted, and the process's user.\<close>

definition privateFD :: "nat \<Rightarrow> stat_t option \<Rightarrow> file_kind \<Rightarrow> stat_t option" where
  "privateFD euid st kind = (case st of
      None \<Rightarrow> None
    | Some s \<Rightarrow> if st_kind s \<noteq> kind \<or> st_Uid s \<noteq> euid \<or> and (st_Perm s) 0x3F \<noteq> 0 then None else Some s)"

text \<open>\<open>open\<close> is what opening the path without following a link gives, as the file's status.\<close>

definition openDir :: "fslib \<Rightarrow> nat \<Rightarrow> (string \<Rightarrow> stat_t option) \<Rightarrow> string \<Rightarrow> stat_t option" where
  "openDir fs euid opens path = (
     if canonical fs path True \<noteq> Some path then None
     else (case opens path of
        None \<Rightarrow> None
      | Some s \<Rightarrow> if st_kind s \<noteq> S_IFDIR then None else privateFD euid (Some s) S_IFDIR))"

definition validJobID :: "string \<Rightarrow> bool" where
  "validJobID s \<longleftrightarrow> length s = 48 \<and> list_all (\<lambda>c. c \<in> set ''0123456789abcdef'') s"

section \<open>A job's FIFOs\<close>

text \<open>
  The session directory: its entries, each a directory with the names in it, and the open
  descriptors. The system calls fail as \<open>fails\<close> says, by their place in the function; removing
  what was made does not fail, and removing what is not there changes nothing.
\<close>

record session =
  ss_dirs :: "string list gomap"
  ss_fds :: "string list"

definition ss_unlink :: "string \<Rightarrow> string \<Rightarrow> session \<Rightarrow> session" where
  "ss_unlink dir file s = s\<lparr>ss_dirs := map (\<lambda>(n, fs). (n, if n = dir then removeAll file fs else fs)) (ss_dirs s)\<rparr>"

definition ss_rmdir :: "string \<Rightarrow> session \<Rightarrow> session" where
  "ss_rmdir dir s = s\<lparr>ss_dirs := filter (\<lambda>(n, fs). \<not> (n = dir \<and> fs = [])) (ss_dirs s)\<rparr>"

definition ss_mkdir :: "string \<Rightarrow> session \<Rightarrow> session" where
  "ss_mkdir dir s = s\<lparr>ss_dirs := ss_dirs s @ [(dir, [])]\<rparr>"

definition ss_mkfifo :: "string \<Rightarrow> string \<Rightarrow> session \<Rightarrow> session" where
  "ss_mkfifo dir file s = s\<lparr>ss_dirs := map (\<lambda>(n, fs). (n, if n = dir then fs @ [file] else fs)) (ss_dirs s)\<rparr>"

definition ss_rename :: "string \<Rightarrow> string \<Rightarrow> session \<Rightarrow> session" where
  "ss_rename a b s = s\<lparr>ss_dirs := map (\<lambda>(n, fs). (if n = a then b else n, fs)) (ss_dirs s)\<rparr>"

definition ss_open :: "string \<Rightarrow> session \<Rightarrow> session" where
  "ss_open fd s = s\<lparr>ss_fds := fd # ss_fds s\<rparr>"

definition ss_close :: "string \<Rightarrow> session \<Rightarrow> session" where
  "ss_close fd s = s\<lparr>ss_fds := remove1 fd (ss_fds s)\<rparr>"

text \<open>The closure \<open>cleanup\<close>, for the name the directory has by then.\<close>

definition mailbox_cleanup :: "string \<Rightarrow> string \<Rightarrow> session \<Rightarrow> session" where
  "mailbox_cleanup jid name s =
     ss_rmdir name (ss_close (jid @ ''/'') (ss_unlink name ''response'' (ss_unlink name ''request'' s)))"

definition pending_name :: "string \<Rightarrow> string" where
  "pending_name jid = ''.pending-'' @ jid"

text \<open>
  \<open>newMailboxJob\<close>. What \<open>Fstat\<close> says of the two FIFOs is an argument; the descriptors are named
  after what they open.
\<close>

definition newMailboxJob :: "(nat \<Rightarrow> bool) \<Rightarrow> nat \<Rightarrow> stat_t option \<Rightarrow> stat_t option \<Rightarrow> string \<Rightarrow> exec_broker \<Rightarrow> session
    \<Rightarrow> mailboxRef option \<times> exec_broker \<times> session" where
  "newMailboxJob fails euid st1 st2 jid b s = (
     let name = pending_name jid; dirfd = jid @ ''/''; reqfd = jid @ ''/request''; respfd = jid @ ''/response'' in
     if b_mailboxClosing b then (None, b, s)
     else if fails 0 \<or> name \<in> fst ` set (ss_dirs s) then (None, b, s)
     else let s = ss_mkdir name s in
     if fails 1 then (None, b, ss_rmdir name s)
     else let s = ss_open dirfd s in
     if fails 2 then (None, b, mailbox_cleanup jid name s)
     else let s = ss_mkfifo name ''request'' s in
     if fails 3 then (None, b, mailbox_cleanup jid name s)
     else let s = ss_mkfifo name ''response'' s in
     if fails 4 then (None, b, mailbox_cleanup jid name s)
     else let s = ss_open reqfd s in
     if fails 5 then (None, b, mailbox_cleanup jid name (ss_close reqfd s))
     else let s = ss_open respfd s in
     (case privateFD euid st1 S_IFIFO of
        None \<Rightarrow> (None, b, mailbox_cleanup jid name (ss_close respfd (ss_close reqfd s)))
      | Some req \<Rightarrow> (case privateFD euid st2 S_IFIFO of
          None \<Rightarrow> (None, b, mailbox_cleanup jid name (ss_close respfd (ss_close reqfd s)))
        | Some resp \<Rightarrow>
            if fails 6 \<or> jid \<in> fst ` set (ss_dirs s) then (None, b, mailbox_cleanup jid name (ss_close respfd (ss_close reqfd s)))
            else (Some \<lparr>mr_Path = filepath_Join [b_mailboxPath b, jid], mr_Device = st_Dev req, mr_Request = st_Ino req, mr_Response = st_Ino resp\<rparr>,
                  b\<lparr>b_mailboxActive := b_mailboxActive b + 1\<rparr>, ss_rename name jid s))))"

text \<open>What the goroutine's deferred calls do when it ends, in their order.\<close>

definition mailbox_end :: "string \<Rightarrow> exec_broker \<Rightarrow> session \<Rightarrow> exec_broker \<times> session" where
  "mailbox_end jid b s = (
     b\<lparr>b_jobs := AList.delete jid (b_jobs b), b_mailboxActive := b_mailboxActive b - 1\<rparr>,
     mailbox_cleanup jid jid (ss_close (jid @ ''/request'') (ss_close (jid @ ''/response'') s)))"

lemmas ss_defs = ss_unlink_def ss_rmdir_def ss_mkdir_def ss_mkfifo_def ss_rename_def ss_open_def ss_close_def mailbox_cleanup_def

lemma map_other: "n \<notin> fst ` set ds \<Longrightarrow> map (\<lambda>(m, fs). (m, if m = n then g fs else fs)) ds = ds"
  by (induction ds) (auto split: prod.splits)

lemma filter_other: "n \<notin> fst ` set ds \<Longrightarrow> filter (\<lambda>(m, fs). m = n \<longrightarrow> fs \<noteq> []) ds = ds"
  by (induction ds) auto

lemma rename_other: "n \<notin> fst ` set ds \<Longrightarrow> map (\<lambda>(m, fs). (if m = n then k else m, fs)) ds = ds"
  by (induction ds) (auto split: prod.splits)

text \<open>The calls on a directory whose last entry is the job's.\<close>

lemma new_entry:
  assumes "n \<notin> fst ` set ds"
  shows "ss_mkdir n \<lparr>ss_dirs = ds, ss_fds = fds\<rparr> = \<lparr>ss_dirs = ds @ [(n, [])], ss_fds = fds\<rparr>"
    "ss_mkfifo n f \<lparr>ss_dirs = ds @ [(n, fs)], ss_fds = fds\<rparr> = \<lparr>ss_dirs = ds @ [(n, fs @ [f])], ss_fds = fds\<rparr>"
    "ss_rename n k \<lparr>ss_dirs = ds @ [(n, fs)], ss_fds = fds\<rparr> = \<lparr>ss_dirs = ds @ [(k, fs)], ss_fds = fds\<rparr>"
    "ss_rmdir n \<lparr>ss_dirs = ds @ [(n, [])], ss_fds = fds\<rparr> = \<lparr>ss_dirs = ds, ss_fds = fds\<rparr>"
    "ss_open fd \<lparr>ss_dirs = ds', ss_fds = fds\<rparr> = \<lparr>ss_dirs = ds', ss_fds = fd # fds\<rparr>"
    "ss_close fd \<lparr>ss_dirs = ds', ss_fds = fds\<rparr> = \<lparr>ss_dirs = ds', ss_fds = remove1 fd fds\<rparr>"
  using assms by (simp_all add: ss_defs map_other filter_other rename_other)

lemma cleanup_entry:
  assumes "n \<notin> fst ` set ds" "set fs \<subseteq> {''request'', ''response''}"
  shows "mailbox_cleanup jid n \<lparr>ss_dirs = ds @ [(n, fs)], ss_fds = (jid @ ''/'') # fds\<rparr> = \<lparr>ss_dirs = ds, ss_fds = fds\<rparr>"
proof -
  have "removeAll ''response'' (removeAll ''request'' fs) = []" using assms(2) by (induction fs) auto
  with assms(1) show ?thesis by (simp add: ss_defs map_other filter_other)
qed

text \<open>
  A failed mailbox leaves nothing behind, and a mailbox that ended neither. Wherever one of the
  system calls fails, the session directory and the open descriptors are as they were before the job
  and no mailbox is counted; when all succeed, the directory gains one entry with the two FIFOs under
  the job's identifier, and the goroutine's end takes away just what was made.
\<close>

theorem mailbox_leaves_nothing:
  assumes "newMailboxJob fails euid st1 st2 jid b s = (ref, b', s')"
  shows "(ref = None \<longrightarrow> b' = b \<and> s' = s)
    \<and> (ref \<noteq> None \<longrightarrow> ss_dirs s' = ss_dirs s @ [(jid, [''request'', ''response''])] \<and> b_mailboxActive b' = b_mailboxActive b + 1
         \<and> mailbox_end jid b' s' = (b\<lparr>b_jobs := AList.delete jid (b_jobs b)\<rparr>, s))"
proof -
  let ?n = "pending_name jid"
  obtain ds fds where s: "s = \<lparr>ss_dirs = ds, ss_fds = fds\<rparr>" by (cases s) auto
  have fd: "jid @ ''/'' \<noteq> jid @ ''/request''" "jid @ ''/'' \<noteq> jid @ ''/response''" "jid @ ''/request'' \<noteq> jid @ ''/response''" by simp_all
  note calls = new_entry cleanup_entry[where fs = "[]"] cleanup_entry[where fs = "[''request'']"] cleanup_entry[where fs = "[''request'', ''response'']"]
  show ?thesis
  proof (cases "b_mailboxClosing b \<or> fails 0 \<or> ?n \<in> fst ` set ds")
    case True
    then have "newMailboxJob fails euid st1 st2 jid b s = (None, b, s)" using s by (elim disjE) (simp_all add: newMailboxJob_def Let_def)
    with assms show ?thesis by simp
  next
    case False
    then have n: "?n \<notin> fst ` set ds" by simp
    show ?thesis
    proof (cases "ref = None")
      case True
      then have "b' = b \<and> s' = s" using assms False unfolding newMailboxJob_def s
        by (auto simp: Let_def calls[OF n] fd split: if_splits option.splits)
      with True show ?thesis by simp
    next
      case False
      with assms n have j: "jid \<notin> fst ` set ds" and s': "s' = \<lparr>ss_dirs = ds @ [(jid, [''request'', ''response''])],
          ss_fds = (jid @ ''/response'') # (jid @ ''/request'') # (jid @ ''/'') # fds\<rparr>"
        and b': "b' = b\<lparr>b_mailboxActive := b_mailboxActive b + 1\<rparr>"
        unfolding newMailboxJob_def s by (auto simp: Let_def calls[OF n] fd split: if_splits option.splits)
      then have "mailbox_end jid b' s' = (b\<lparr>b_jobs := AList.delete jid (b_jobs b)\<rparr>, s)"
        by (simp add: mailbox_end_def calls[OF j] fd s)
      with False s' b' s show ?thesis by simp
    qed
  qed
qed

text \<open>A FIFO of the broker's own, and the two FIFOs of the example.\<close>

definition fifo_stat :: "64 word \<Rightarrow> stat_t" where
  "fifo_stat ino = \<lparr>st_kind = S_IFIFO, st_Perm = 0x180, st_Uid = 7, st_Dev = 1, st_Ino = ino\<rparr>"

theorem mailbox_leaves_nothing_witness:
  "\<exists>ref b' s'. newMailboxJob (\<lambda>n. False) 7 (Some (fifo_stat 5)) (Some (fifo_stat 6)) ''j'' example_exec_broker \<lparr>ss_dirs = [], ss_fds = []\<rparr>
       = (Some ref, b', s')
     \<and> ss_dirs s' = [(''j'', [''request'', ''response''])] \<and> snd (mailbox_end ''j'' b' s') = \<lparr>ss_dirs = [], ss_fds = []\<rparr>"
proof -
  let ?s = "\<lparr>ss_dirs = [], ss_fds = []\<rparr>"
  have p: "privateFD 7 (Some (fifo_stat n)) S_IFIFO = Some (fifo_stat n)" for n by (simp add: privateFD_def fifo_stat_def)
  obtain ref b' s' where r: "newMailboxJob (\<lambda>n. False) 7 (Some (fifo_stat 5)) (Some (fifo_stat 6)) ''j'' example_exec_broker ?s = (Some ref, b', s')"
    using p by (auto simp: newMailboxJob_def Let_def ss_defs pending_name_def exec_examples)
  from mailbox_leaves_nothing[OF r] have "ss_dirs s' = [(''j'', [''request'', ''response''])]" "snd (mailbox_end ''j'' b' s') = ?s" by auto
  with r show ?thesis by blast
qed

section \<open>Serving a mailbox\<close>

text \<open>
  The goroutine \<open>serveMailbox\<close>, from its first look at the job table to its return: polling for the
  start signal, the worker it starts, the wait for the worker, for a signal to cancel or for the end
  of the broker, and the reply going into the FIFO. \<open>mb_in\<close> is what the request FIFO holds, \<open>mb_got\<close>
  what was read of it, \<open>mb_out\<close> what was put into the response FIFO, \<open>mb_starts\<close> how often the worker
  was started. The clock's ticks, the dispatcher, the broker's shutdown and the worker's end are
  steps of the world.
\<close>

datatype mb_pc = MB_Poll | MB_Read | MB_Start | MB_Wait | MB_Drain | MB_Write bytes | MB_Return

datatype mb_worker = Not_started | Working | Replied reply

record mbox =
  mb_at :: mb_pc
  mb_in :: bytes
  mb_writer :: bool
  mb_got :: bytes
  mb_pending :: bool
  mb_expired :: bool
  mb_shutdown :: bool
  mb_cancel :: bool
  mb_worker :: mb_worker
  mb_starts :: nat
  mb_out :: bytes

definition reply_line :: "reply \<Rightarrow> bytes" where
  "reply_line r = json_print (reply_json r) @ [char_of (10 :: nat)]"

definition ctx_done :: "mbox \<Rightarrow> bool" where
  "ctx_done s \<longleftrightarrow> mb_shutdown s \<or> mb_cancel s"

inductive mb_step :: "by_whom \<Rightarrow> mbox \<Rightarrow> mbox \<Rightarrow> bool" where
  poll_gone: "mb_at s = MB_Poll \<Longrightarrow> \<not> mb_pending s \<Longrightarrow> mb_step Own s (s\<lparr>mb_at := MB_Return\<rparr>)"
| poll_expired: "mb_at s = MB_Poll \<Longrightarrow> mb_pending s \<Longrightarrow> mb_expired s \<or> mb_shutdown s \<Longrightarrow> mb_step Own s (s\<lparr>mb_at := MB_Return\<rparr>)"
| poll: "mb_at s = MB_Poll \<Longrightarrow> mb_pending s \<Longrightarrow> \<not> mb_expired s \<Longrightarrow> \<not> mb_shutdown s \<Longrightarrow> mb_step Own s (s\<lparr>mb_at := MB_Read\<rparr>)"
| read_start: "mb_at s = MB_Read \<Longrightarrow> mb_in s = CHR ''D'' # r \<Longrightarrow>
    mb_step Own s (s\<lparr>mb_at := MB_Start, mb_in := r, mb_got := mb_got s @ ''D''\<rparr>)"
| read_other: "mb_at s = MB_Read \<Longrightarrow> mb_in s = c # r \<Longrightarrow> c \<noteq> CHR ''D'' \<Longrightarrow>
    mb_step Own s (s\<lparr>mb_at := MB_Return, mb_in := r, mb_got := mb_got s @ [c]\<rparr>)"
| read_none: "mb_at s = MB_Read \<Longrightarrow> mb_in s = [] \<Longrightarrow> mb_step Own s (s\<lparr>mb_at := MB_Poll\<rparr>)"
| read_error: "mb_at s = MB_Read \<Longrightarrow> mb_step Own s (s\<lparr>mb_at := MB_Return\<rparr>)"
| start: "mb_at s = MB_Start \<Longrightarrow> mb_step Own s (s\<lparr>mb_at := MB_Wait, mb_worker := Working, mb_starts := mb_starts s + 1\<rparr>)"
| wait_done: "mb_at s = MB_Wait \<Longrightarrow> mb_worker s = Replied r \<Longrightarrow> mb_step Own s (s\<lparr>mb_at := MB_Write (reply_line r)\<rparr>)"
| wait_cancelled: "mb_at s = MB_Wait \<Longrightarrow> ctx_done s \<Longrightarrow> mb_step Own s (s\<lparr>mb_at := MB_Drain\<rparr>)"
| reaped: "mb_at s = MB_Drain \<Longrightarrow> mb_step Own s (s\<lparr>mb_at := MB_Return, mb_worker := (case mb_worker s of Working \<Rightarrow> Replied r | w \<Rightarrow> w)\<rparr>)"
| write_some: "mb_at s = MB_Write (x @ y) \<Longrightarrow> x \<noteq> [] \<Longrightarrow> \<not> ctx_done s \<Longrightarrow>
    mb_step Own s (s\<lparr>mb_at := MB_Write y, mb_out := mb_out s @ x\<rparr>)"
| write_end: "mb_at s = MB_Write [] \<Longrightarrow> mb_step Own s (s\<lparr>mb_at := MB_Return\<rparr>)"
| write_stop: "mb_at s = MB_Write x \<Longrightarrow> mb_step Own s (s\<lparr>mb_at := MB_Return\<rparr>)"
| tick_cancel: "mb_at s = MB_Wait \<Longrightarrow> mb_in s = c # r \<Longrightarrow> mb_step World s (s\<lparr>mb_in := r, mb_got := mb_got s @ [c], mb_cancel := True\<rparr>)"
| tick_closed: "mb_at s = MB_Wait \<Longrightarrow> mb_in s = [] \<Longrightarrow> \<not> mb_writer s \<Longrightarrow> mb_step World s (s\<lparr>mb_cancel := True\<rparr>)"
| tick_error: "mb_at s = MB_Wait \<Longrightarrow> mb_step World s (s\<lparr>mb_cancel := True\<rparr>)"
| dispatcher_opens: "mb_step World s (s\<lparr>mb_writer := True\<rparr>)"
| dispatcher_writes: "mb_writer s \<Longrightarrow> mb_step World s (s\<lparr>mb_in := mb_in s @ [c]\<rparr>)"
| dispatcher_closes: "mb_step World s (s\<lparr>mb_writer := False\<rparr>)"
| job_gone: "mb_step World s (s\<lparr>mb_pending := False\<rparr>)"
| job_expires: "mb_step World s (s\<lparr>mb_expired := True\<rparr>)"
| shutdown: "mb_step World s (s\<lparr>mb_shutdown := True\<rparr>)"
| worker_done: "mb_worker s = Working \<Longrightarrow> mb_step World s (s\<lparr>mb_worker := Replied r\<rparr>)"

inductive_cases mb_OwnE: "mb_step Own s t"
inductive_cases mb_WorldE: "mb_step World s t"

text \<open>How many of its own steps the goroutine can still make once the broker shuts down.\<close>

definition mb_left :: "mbox \<Rightarrow> nat" where
  "mb_left s = (case mb_at s of MB_Read \<Rightarrow> 6 | MB_Start \<Rightarrow> 5 | MB_Poll \<Rightarrow> 1 | MB_Wait \<Rightarrow> 4 | MB_Drain \<Rightarrow> 1
     | MB_Write x \<Rightarrow> 1 | MB_Return \<Rightarrow> 0)"

lemma mb_own_less: "mb_step Own s t \<Longrightarrow> mb_shutdown s \<Longrightarrow> mb_left t < mb_left s"
  by (erule mb_OwnE) (auto simp: mb_left_def ctx_done_def)

lemma mb_world_le: "mb_step World s t \<Longrightarrow> mb_left t \<le> mb_left s"
  by (erule mb_WorldE) (auto simp: mb_left_def)

lemma mb_stays: "mb_step w s t \<Longrightarrow> mb_shutdown s \<Longrightarrow> mb_shutdown t"
  by (induction rule: mb_step.induct) auto

lemma mb_enabled: "mb_shutdown s \<Longrightarrow> 0 < mb_left s \<Longrightarrow> \<exists>t. mb_step Own s t"
proof (cases "mb_at s")
  case MB_Poll
  assume "mb_shutdown s"
  with MB_Poll show ?thesis using poll_gone poll_expired by blast
next
  case MB_Wait
  assume "mb_shutdown s"
  then show ?thesis using MB_Wait wait_cancelled[of s] by (auto simp: ctx_done_def)
qed (auto simp: mb_left_def intro: read_error start reaped write_stop)

interpretation mailbox: goroutine mb_step mb_shutdown mb_left
  by unfold_locales (simp_all add: mb_own_less mb_world_le mb_stays mb_enabled)

definition mb_init :: "mbox \<Rightarrow> bool" where
  "mb_init s \<longleftrightarrow> mb_at s = MB_Poll \<and> mb_got s = [] \<and> mb_worker s = Not_started \<and> mb_starts s = 0 \<and> mb_out s = [] \<and> \<not> mb_cancel s"

text \<open>
  The worker is started once at most, and only by a \<open>D\<close> that comes first; what went into the response
  FIFO is the beginning of the line for the worker's reply, and nothing before there is one.
\<close>

definition mb_inv :: "mbox \<Rightarrow> bool" where
  "mb_inv s \<longleftrightarrow> (case mb_at s of
        MB_Poll \<Rightarrow> mb_got s = [] \<and> mb_worker s = Not_started
      | MB_Read \<Rightarrow> mb_got s = [] \<and> mb_worker s = Not_started
      | MB_Start \<Rightarrow> mb_got s = ''D'' \<and> mb_worker s = Not_started
      | MB_Write y \<Rightarrow> (\<exists>r. mb_worker s = Replied r \<and> mb_out s @ y = reply_line r)
      | _ \<Rightarrow> True)
     \<and> mb_starts s = (if mb_worker s = Not_started then 0 else 1)
     \<and> (mb_worker s \<noteq> Not_started \<longrightarrow> (\<exists>r. mb_got s = CHR ''D'' # r))
     \<and> ((\<forall>y. mb_at s \<noteq> MB_Write y) \<and> mb_at s \<noteq> MB_Return \<longrightarrow> mb_out s = [])
     \<and> (mb_at s \<in> {MB_Wait, MB_Drain} \<longrightarrow> mb_worker s \<noteq> Not_started)
     \<and> (mb_out s \<noteq> [] \<longrightarrow> (\<exists>r. mb_worker s = Replied r \<and> prefix (mb_out s) (reply_line r)))"

lemma mb_inv_step: "mb_step w s t \<Longrightarrow> mb_inv s \<Longrightarrow> mb_inv t"
proof (induction rule: mb_step.induct)
  case (write_some s x y)
  then obtain r where r: "mb_worker s = Replied r" "mb_out s @ x @ y = reply_line r" by (auto simp: mb_inv_def)
  then have "prefix (mb_out s @ x) (reply_line r)" by (metis append_assoc prefix_def)
  with r write_some show ?case by (auto simp: mb_inv_def)
qed (auto simp: mb_inv_def split: mb_worker.splits mb_pc.splits)

lemma mb_inv_runs: "runs mb_step s n t \<Longrightarrow> mb_inv s \<Longrightarrow> mb_inv t"
  by (induction rule: runs.induct) (auto dest: mb_inv_step)

lemma mb_init_inv: "mb_init s \<Longrightarrow> mb_inv s"
  by (simp add: mb_inv_def mb_init_def)

text \<open>
  A mailbox runs its job once at most, and only when it is told to. In every run, however the
  dispatcher, the clock, other dispatches and the broker's shutdown interleave, the worker was started
  at most once, and only after a \<open>D\<close> as the first byte of the request FIFO; what the dispatcher can
  read is the beginning of one line, the reply of that worker; and once the broker shuts down the
  goroutine returns within six of its own steps and is never stuck before.
\<close>

theorem mailbox_serves_once:
  assumes "mb_init s" and "runs mb_step s n t"
  shows "mb_starts t \<le> 1 \<and> (mb_starts t = 1 \<longrightarrow> hasPrefix (mb_got t) ''D'')
    \<and> (mb_out t = [] \<or> (\<exists>r. mb_worker t = Replied r \<and> prefix (mb_out t) (reply_line r)))
    \<and> (mb_shutdown t \<longrightarrow> (\<forall>k u. runs mb_step t k u \<longrightarrow> k \<le> 6 \<and> ((\<nexists>v. mb_step Own u v) \<longrightarrow> mb_at u = MB_Return)))"
proof -
  have i: "mb_inv t" using mb_inv_runs[OF assms(2) mb_init_inv[OF assms(1)]] .
  have "k \<le> 6 \<and> ((\<nexists>v. mb_step Own u v) \<longrightarrow> mb_at u = MB_Return)" if "mb_shutdown t" "runs mb_step t k u" for k u
  proof -
    have "k + mb_left u \<le> mb_left t" "mb_left t \<le> 6" using mailbox.runs_left[OF that(2,1)] by (auto simp: mb_left_def split: mb_pc.splits)
    moreover have "mb_at u = MB_Return" if "\<nexists>v. mb_step Own u v"
      using mailbox.stuck_done[OF \<open>runs mb_step t k u\<close> \<open>mb_shutdown t\<close> that] by (auto simp: mb_left_def split: mb_pc.splits)
    ultimately show ?thesis by auto
  qed
  then show ?thesis using i by (auto simp: mb_inv_def hasPrefix_iff)
qed

definition example_mbox :: mbox where
  "example_mbox = \<lparr>mb_at = MB_Poll, mb_in = [], mb_writer = False, mb_got = [], mb_pending = True, mb_expired = False, mb_shutdown = False,
     mb_cancel = False, mb_worker = Not_started, mb_starts = 0, mb_out = []\<rparr>"

theorem mailbox_serves_once_witness:
  "\<exists>n t. runs mb_step example_mbox n t \<and> mb_starts t = 1 \<and> hasPrefix (mb_got t) ''D''"
proof -
  have i: "mb_init example_mbox" by (simp add: mb_init_def example_mbox_def)
  have 1: "runs mb_step example_mbox 0 (example_mbox\<lparr>mb_writer := True\<rparr>)" by (rule runs.World_step, rule runs.Here, rule dispatcher_opens)
  have 2: "runs mb_step example_mbox 0 (example_mbox\<lparr>mb_writer := True, mb_in := ''D''\<rparr>)"
    by (rule runs.World_step[OF 1]) (use dispatcher_writes[of "example_mbox\<lparr>mb_writer := True\<rparr>" "CHR ''D''"] in \<open>simp add: example_mbox_def\<close>)
  have 3: "runs mb_step example_mbox 1 (example_mbox\<lparr>mb_writer := True, mb_in := ''D'', mb_at := MB_Read\<rparr>)"
    using runs.Own_step[OF 2 poll] by (simp add: example_mbox_def)
  have 4: "runs mb_step example_mbox 2 (example_mbox\<lparr>mb_writer := True, mb_in := [], mb_at := MB_Start, mb_got := ''D''\<rparr>)"
    using runs.Own_step[OF 3 read_start[where r = "[]"]] by (simp add: example_mbox_def numeral_2_eq_2)
  have 5: "runs mb_step example_mbox 3 (example_mbox\<lparr>mb_writer := True, mb_in := [], mb_at := MB_Wait, mb_got := ''D'', mb_worker := Working, mb_starts := 1\<rparr>)"
    using runs.Own_step[OF 4 start] by (simp add: example_mbox_def numeral_3_eq_3)
  from mailbox_serves_once[OF i 5] 5 show ?thesis by (auto intro!: exI[of _ 3])
qed

section \<open>The dispatcher's end\<close>

text \<open>One read of the response FIFO: the context has ended, some bytes, nothing yet, the end, another error.\<close>

datatype read_ev = Ctx_ended | Got bytes | Again | Eof | Read_error

fun read_reply :: "read_ev list \<Rightarrow> bytes \<Rightarrow> (string, bytes) result option" where
  "read_reply [] output = None"
| "read_reply (Ctx_ended # evs) output = Some (Inl ''context'')"
| "read_reply (Got d # evs) output = (
     if outputLimit * 6 + 4096 < length (output @ d) then Some (Inl ''oversized mailbox reply'')
     else if d \<noteq> [] \<and> last d = char_of (10 :: nat) then Some (Inr (output @ d))
     else read_reply evs (output @ d))"
| "read_reply (Again # evs) output = read_reply evs output"
| "read_reply (Eof # evs) output = Some (Inl ''broker closed mailbox before replying'')"
| "read_reply (Read_error # evs) output = Some (Inl ''read'')"

definition decode_reply :: "bytes \<Rightarrow> (string, reply) result" where
  "decode_reply output = (case json_decode output of
      None \<Rightarrow> Inl ''decode''
    | Some (v, rest) \<Rightarrow> (case reply_of v of
        None \<Rightarrow> Inl ''decode''
      | Some r \<Rightarrow>
          if skip_ws rest \<noteq> [] then Inl ''trailing mailbox reply data''
          else if outputLimit < length (r_Output r) \<or> CHR 0x00 \<in> set (r_Job r) then Inl ''invalid mailbox reply''
          else Inr r))"

text \<open>
  What opening the directory and the FIFOs, locking and writing the start signal give, the reads
  that follow, and the result once there is one.
\<close>

record dispatch_world =
  dw_fs :: fslib
  dw_euid :: nat
  dw_opendir :: "string \<Rightarrow> stat_t option"
  dw_openat :: "string \<Rightarrow> stat_t option"
  dw_flock :: bool
  dw_write :: bool
  dw_reads :: "read_ev list"

definition open_endpoint :: "dispatch_world \<Rightarrow> mailboxRef \<Rightarrow> string \<Rightarrow> 64 word \<Rightarrow> bool" where
  "open_endpoint W ref name inode = (case privateFD (dw_euid W) (dw_openat W name) S_IFIFO of
      None \<Rightarrow> False
    | Some st \<Rightarrow> st_Dev st = mr_Device ref \<and> st_Ino st = inode)"

definition dispatchMailbox :: "dispatch_world \<Rightarrow> mailboxRef \<Rightarrow> string \<Rightarrow> (string, reply) result option" where
  "dispatchMailbox W ref jid = (
     if \<not> validJobID jid \<or> filepath_Base (mr_Path ref) \<noteq> jid \<or> mr_Request ref = 0 \<or> mr_Response ref = 0
     then Some (Inl ''invalid mailbox job reference'')
     else if openDir (dw_fs W) (dw_euid W) (dw_opendir W) (mr_Path ref) = None then Some (Inl ''mailbox directory'')
     else if \<not> open_endpoint W ref ''response'' (mr_Response ref) then Some (Inl ''mailbox endpoint was replaced'')
     else if \<not> open_endpoint W ref ''request'' (mr_Request ref) then Some (Inl ''mailbox endpoint was replaced'')
     else if \<not> dw_flock W then Some (Inl ''job already has a dispatcher'')
     else if \<not> dw_write W then Some (Inl ''write'')
     else map_option (\<lambda>r. ebind r decode_reply) (read_reply (dw_reads W) []))"

text \<open>The reads of one line: pieces of at most a buffer, with empty polls between them.\<close>

definition reads_of :: "bytes \<Rightarrow> read_ev list \<Rightarrow> bool" where
  "reads_of line evs \<longleftrightarrow> (\<forall>e\<in>set evs. e = Again \<or> (\<exists>d. e = Got d \<and> d \<noteq> [] \<and> length d \<le> 8192))
     \<and> concat (map (\<lambda>e. case e of Got d \<Rightarrow> d | _ \<Rightarrow> []) evs) = line"

lemma last_newline: "x @ y = line @ [c] \<Longrightarrow> c \<notin> set line \<Longrightarrow> x \<noteq> [] \<Longrightarrow> last x = c \<Longrightarrow> y = []"
proof (cases y rule: rev_cases)
  case (snoc ys z)
  assume "x @ y = line @ [c]" "c \<notin> set line" "x \<noteq> []" "last x = c"
  with snoc have "x @ ys = line" "last x \<in> set x" by auto
  with \<open>c \<notin> set line\<close> \<open>last x = c\<close> show ?thesis by auto
qed simp

lemma read_reply_line:
  assumes "reads_of line' evs" "acc @ line' = line @ [char_of (10 :: nat)]" "line' \<noteq> []" "char_of (10 :: nat) \<notin> set line"
    "length line + 1 \<le> outputLimit * 6 + 4096"
  shows "read_reply evs acc = Some (Inr (line @ [char_of (10 :: nat)]))"
  using assms
proof (induction evs arbitrary: acc line')
  case Nil
  then show ?case by (simp add: reads_of_def)
next
  case (Cons e evs)
  consider "e = Again" | d where "e = Got d" "d \<noteq> []" using Cons.prems(1) by (auto simp: reads_of_def)
  then show ?case
  proof cases
    case 1
    then have "reads_of line' evs" using Cons.prems(1) by (auto simp: reads_of_def)
    with Cons.IH[OF this Cons.prems(2-5)] 1 show ?thesis by simp
  next
    case 2
    define rest where "rest = concat (map (\<lambda>e. case e of Got d \<Rightarrow> d | _ \<Rightarrow> []) evs)"
    have l: "line' = d @ rest" "reads_of rest evs" using Cons.prems(1) 2 by (auto simp: reads_of_def rest_def)
    have eq: "(acc @ d) @ rest = line @ [char_of (10 :: nat)]" using Cons.prems(2) l by simp
    have "length (acc @ d) \<le> outputLimit * 6 + 4096" using arg_cong[OF eq, of length] Cons.prems(5) by simp
    moreover have "acc @ d = line @ [char_of (10 :: nat)]" if "last d = char_of (10 :: nat)"
      using last_newline[OF eq Cons.prems(4)] that 2(2) eq by simp
    moreover have "rest \<noteq> []" if "last d \<noteq> char_of (10 :: nat)" using eq that 2(2) by (auto dest!: arg_cong[where f = last])
    ultimately show ?thesis using Cons.IH[OF l(2) eq _ Cons.prems(4,5)] 2 by auto
  qed
qed

text \<open>What the broker makes of a worker's run always travels, whatever the worker printed.\<close>

lemma run_reply_shape:
  "r_Job (run_reply chunks fin ctx) = []" "r_Mailbox (run_reply chunks fin ctx) = None" "length (r_Output (run_reply chunks fin ctx)) \<le> outputLimit"
  "length (r_Error (run_reply chunks fin ctx)) \<le> 17" "validString (r_Error (run_reply chunks fin ctx))"
  using output_of_buf[of chunks] by (simp_all add: run_reply_def Let_def no_reply_def validString_ascii)

definition exit_ok :: "run_end \<Rightarrow> bool" where
  "exit_ok fin = (case fin of Run_exit c \<Rightarrow> -1 \<le> c \<and> c \<le> 255 | _ \<Rightarrow> True)"

lemma run_reply_status: "exit_ok fin \<Longrightarrow> -1 \<le> r_Status (run_reply chunks fin ctx) \<and> r_Status (run_reply chunks fin ctx) \<le> 255"
  by (auto simp: run_reply_def Let_def no_reply_def exit_ok_def split: run_end.splits)

lemma reply_line_arrives:
  assumes "exit_ok fin" and "reads_of (reply_line (run_reply chunks fin ctx)) evs"
  shows "read_reply evs [] = Some (Inr (reply_line (run_reply chunks fin ctx)))"
proof -
  let ?r = "run_reply chunks fin ctx"
  have "length (json_print (reply_json ?r)) \<le> 6 * length (r_Output ?r) + 6 * length (r_Error ?r) + 120"
    using run_reply_shape run_reply_status[OF assms(1), of chunks ctx] by (intro reply_json_length) auto
  then have "length (json_print (reply_json ?r)) + 1 \<le> outputLimit * 6 + 4096" using run_reply_shape(3,4)[of chunks fin ctx] by linarith
  moreover have "char_of (10 :: nat) \<notin> set (json_print (reply_json ?r))"
    using json_print_no_control[OF reply_ints, of "char_of (10 :: nat)" ?r] by auto
  ultimately show ?thesis using read_reply_line[OF assms(2)] by (simp add: reply_line_def)
qed

lemma decode_reply_line:
  assumes "status_ok r"
  shows "decode_reply (reply_line r) =
    (if outputLimit < length (to_valid (r_Output r)) \<or> CHR 0x00 \<in> set (to_valid (r_Job r)) then Inl ''invalid mailbox reply'' else Inr (valid_reply r))"
proof -
  have "json_decode (reply_line r) = Some (json_norm (reply_json r), [char_of (10 :: nat)])"
    unfolding reply_line_def by (rule json_decode_print[OF reply_ints]) code_simp
  then show ?thesis using reply_of_json[OF assms] by (simp add: decode_reply_def json_space_def valid_reply_def)
qed

text \<open>The checks the dispatcher makes before it waits for the reply.\<close>

definition endpoints_ok :: "dispatch_world \<Rightarrow> mailboxRef \<Rightarrow> string \<Rightarrow> bool" where
  "endpoints_ok W ref jid \<longleftrightarrow> validJobID jid \<and> filepath_Base (mr_Path ref) = jid \<and> mr_Request ref \<noteq> 0 \<and> mr_Response ref \<noteq> 0
     \<and> openDir (dw_fs W) (dw_euid W) (dw_opendir W) (mr_Path ref) \<noteq> None
     \<and> open_endpoint W ref ''response'' (mr_Response ref) \<and> open_endpoint W ref ''request'' (mr_Request ref) \<and> dw_flock W \<and> dw_write W"

lemma dispatch_reads: "endpoints_ok W ref jid \<Longrightarrow> dispatchMailbox W ref jid = map_option (\<lambda>r. ebind r decode_reply) (read_reply (dw_reads W) [])"
  by (auto simp: endpoints_ok_def dispatchMailbox_def)

text \<open>
  A reply crosses the mailbox unchanged. If a worker's output is valid UTF-8, then however its
  reply is cut into reads of the FIFO, the dispatcher that found the broker's own endpoints returns
  exactly that reply: the status, the output and whether it was cut.
\<close>

theorem mailbox_reply_arrives:
  assumes "endpoints_ok W ref jid" and "reads_of (reply_line (run_reply chunks fin ctx)) (dw_reads W)"
    and "exit_ok fin" and "validString (r_Output (run_reply chunks fin ctx))"
  shows "dispatchMailbox W ref jid = Some (Inr (run_reply chunks fin ctx))"
proof -
  let ?r = "run_reply chunks fin ctx"
  have "status_ok ?r" using run_reply_status[OF assms(3), of chunks ctx] by (simp add: status_ok_def)
  moreover have "valid_reply ?r = ?r" using run_reply_shape[of chunks fin ctx] assms(4) by (simp add: valid_reply_def)
  ultimately have "decode_reply (reply_line ?r) = Inr ?r"
    using decode_reply_line[of ?r] run_reply_shape[of chunks fin ctx] assms(4) by simp
  then show ?thesis using dispatch_reads[OF assms(1)] reply_line_arrives[OF assms(3,2)] by simp
qed

text \<open>
  C30: binary output is lost in the mailbox. A worker that prints 400000 bytes that are no UTF-8, well
  under the limit of 1 MiB, gets a reply that is not truncated; every such byte arrives as three, so the
  dispatcher refuses the reply as invalid, after the command has run.
\<close>

theorem mailbox_refuses_binary_output:
  assumes "endpoints_ok W ref jid"
    and "reads_of (reply_line (run_reply [replicate 400000 (char_of (255 :: nat))] Run_ok False)) (dw_reads W)"
  shows "\<not> r_Truncated (run_reply [replicate 400000 (char_of (255 :: nat))] Run_ok False)
    \<and> dispatchMailbox W ref jid = Some (Inl ''invalid mailbox reply'')"
proof -
  let ?out = "replicate 400000 (char_of (255 :: nat))"
  let ?r = "run_reply [?out] Run_ok False"
  have out: "bo_buf (output_of [?out]) = ?out" "\<not> bo_truncated (output_of [?out])"
    using output_of_buf[of "[?out]"] by (simp_all add: outputLimit_def)
  then have o: "r_Output ?r = ?out" "\<not> r_Truncated ?r" by (simp_all add: run_reply_def Let_def no_reply_def)
  have "length (to_valid ?out) = 3 * 400000" by (rule to_valid_bad_bytes) simp
  then have big: "outputLimit < length (to_valid (r_Output ?r))" by (simp add: o(1) outputLimit_def)
  have "status_ok ?r" using run_reply_status[of Run_ok "[?out]" False] by (simp add: status_ok_def exit_ok_def)
  then have "decode_reply (reply_line ?r) = Inl ''invalid mailbox reply''" using decode_reply_line[of ?r] big by simp
  then show ?thesis using dispatch_reads[OF assms(1)] reply_line_arrives[OF _ assms(2)] o(2) by (simp add: exit_ok_def)
qed

fun pieces :: "nat \<Rightarrow> bytes \<Rightarrow> bytes list" where
  "pieces k s = (if s = [] \<or> k = 0 then [] else take k s # pieces k (drop k s))"

declare pieces.simps [simp del]

lemma reads_of_pieces: "reads_of s (map Got (pieces 8192 s))"
proof (induction "8192 :: nat" s rule: pieces.induct)
  case (1 s)
  then show ?case by (auto simp: pieces.simps[of 8192 s] reads_of_def)
qed

definition example_jid :: string where
  "example_jid = replicate 48 (CHR ''a'')"

definition example_ref :: mailboxRef where
  "example_ref = \<lparr>mr_Path = ''/m/'' @ example_jid, mr_Device = 1, mr_Request = 5, mr_Response = 6\<rparr>"

definition example_dispatch :: "bytes \<Rightarrow> dispatch_world" where
  "example_dispatch line = \<lparr>dw_fs = \<lparr>fs_Getwd = None, fs_EvalSymlinks = Some\<rparr>, dw_euid = 7,
     dw_opendir = (\<lambda>p. Some \<lparr>st_kind = S_IFDIR, st_Perm = 0x1C0, st_Uid = 7, st_Dev = 1, st_Ino = 2\<rparr>),
     dw_openat = (\<lambda>n. Some (fifo_stat (if n = ''request'' then 5 else 6))), dw_flock = True, dw_write = True,
     dw_reads = map Got (pieces 8192 line)\<rparr>"

lemma example_endpoints: "endpoints_ok (example_dispatch line) example_ref example_jid"
proof -
  have "validJobID example_jid" "filepath_Base (mr_Path example_ref) = example_jid" "filepath_Clean (mr_Path example_ref) = mr_Path example_ref"
    "isAbs (mr_Path example_ref)" "mr_Request example_ref \<noteq> 0" "mr_Response example_ref \<noteq> 0" by code_simp+
  then show ?thesis
    by (simp add: endpoints_ok_def example_dispatch_def openDir_def canonical_def filepath_Abs_def open_endpoint_def privateFD_def fifo_stat_def example_ref_def)
qed

theorem mailbox_reply_arrives_witness:
  "dispatchMailbox (example_dispatch (reply_line (run_reply [''hi''] (Run_exit 3) False))) example_ref example_jid
     = Some (Inr (no_reply\<lparr>r_Status := 3, r_Output := ''hi''\<rparr>))"
proof -
  have r: "run_reply [''hi''] (Run_exit 3) False = no_reply\<lparr>r_Status := 3, r_Output := ''hi''\<rparr>"
    using output_of_buf[of "[''hi'']"] by (simp add: run_reply_def Let_def outputLimit_def no_reply_def)
  have v: "validString (r_Output (run_reply [''hi''] (Run_exit 3) False))" by (simp add: r validString_ascii)
  show ?thesis
    using mailbox_reply_arrives[OF example_endpoints _ _ v] reads_of_pieces r by (simp add: exit_ok_def example_dispatch_def)
qed

theorem mailbox_refuses_binary_output_witness:
  "\<exists>W. endpoints_ok W example_ref example_jid \<and> dispatchMailbox W example_ref example_jid = Some (Inl ''invalid mailbox reply'')"
proof -
  let ?line = "reply_line (run_reply [replicate 400000 (char_of (255 :: nat))] Run_ok False)"
  have "reads_of ?line (dw_reads (example_dispatch ?line))" by (simp add: example_dispatch_def reads_of_pieces)
  from mailbox_refuses_binary_output[OF example_endpoints this] example_endpoints show ?thesis by blast
qed

end
