(* ===== verification/Go_URL.thy ===== *)
theory Go_URL
  imports HTTP_Model
begin

text \<open>
  The parts of Go's \<open>net/url\<close> that write and read the path of a URL: the escapes of a path and of one
  segment, \<open>EscapedPath\<close>, and \<open>ParseRequestURI\<close> of a text that starts with a slash, with their
  round trips.
\<close>

section \<open>Paths\<close>

definition path_safe :: "char \<Rightarrow> bool" where
  "path_safe c \<longleftrightarrow> unreserved c \<or> c \<in> set ''$&+,/:;=@''"

definition segment_safe :: "char \<Rightarrow> bool" where
  "segment_safe c \<longleftrightarrow> unreserved c \<or> c \<in> set ''$&+:=@''"

definition escape_with :: "(char \<Rightarrow> bool) \<Rightarrow> string \<Rightarrow> string" where
  "escape_with safe s = concat (map (\<lambda>c. if safe c then [c] else escape_byte c) s)"

abbreviation url_PathEscape :: "string \<Rightarrow> string" where
  "url_PathEscape \<equiv> escape_with segment_safe"

definition validEncoded :: "string \<Rightarrow> bool" where
  "validEncoded s \<longleftrightarrow> list_all (\<lambda>c. c \<in> set ''!$&()*+,;=:@[]%'' \<or> byte c = 39 \<or> path_safe c) s"

text \<open>\<open>URL.EscapedPath\<close>.\<close>

definition escapedPath :: "string \<Rightarrow> string \<Rightarrow> string" where
  "escapedPath path rawPath = (
     if rawPath \<noteq> [] \<and> validEncoded rawPath \<and> pathUnescape rawPath = Some path then rawPath
     else if path = ''*'' then path else escape_with path_safe path)"

text \<open>
  \<open>url.ParseRequestURI\<close> of a text that starts with a slash: the decoded path, the escaped path and
  the query. It has no scheme and no fragment.
\<close>

definition parseRequestURI :: "string \<Rightarrow> (string \<times> string \<times> string) option" where
  "parseRequestURI p = (
     if list_ex (\<lambda>c. byte c < 0x20 \<or> byte c = 0x7F) p then None
     else (case cut p ''?'' of (raw, query, _) \<Rightarrow> (case pathUnescape raw of
        None \<Rightarrow> None
      | Some path \<Rightarrow> Some (path, escapedPath path (if raw = escape_with path_safe path then [] else raw), query))))"

section \<open>Escaping\<close>

lemma unescape_escape_with: "\<not> safe (CHR ''%'') \<Longrightarrow> pathUnescape (escape_with safe s @ t) = map_option ((@) s) (pathUnescape t)"
proof (induction s)
  case (Cons c s)
  then show ?case using unescape_escape_byte[of False c "escape_with safe s @ t"]
    by (cases "safe c") (auto simp: escape_with_def option.map_comp comp_def)
qed (cases "pathUnescape t"; simp add: escape_with_def)

lemma safe_percent [simp]: "\<not> path_safe (CHR ''%'')" "\<not> segment_safe (CHR ''%'')"
  by (simp_all add: path_safe_def segment_safe_def unreserved_def)

lemma escape_byte_valid: "validEncoded (escape_byte c)"
proof -
  have "unreserved (hexdigit_upper n)" if "n < 16" for n
    using that by (auto simp: hexdigit_upper_def unreserved_def)
  moreover have "byte c div 16 < 16" using byte_lt[of c] by linarith
  ultimately show ?thesis by (simp add: validEncoded_def escape_byte_def path_safe_def)
qed

lemma validEncoded_append [simp]: "validEncoded (s @ t) \<longleftrightarrow> validEncoded s \<and> validEncoded t"
  by (simp add: validEncoded_def)

lemma escape_with_valid: "\<forall>c. safe c \<longrightarrow> path_safe c \<Longrightarrow> validEncoded (escape_with safe s)"
proof (induction s)
  case (Cons c s)
  then show ?case using escape_byte_valid[of c] by (auto simp: escape_with_def validEncoded_def)
qed (simp add: escape_with_def validEncoded_def)

lemma escapedPath_valid: "validEncoded (escapedPath path raw)"
proof -
  have "validEncoded ''*''" by (simp add: validEncoded_def)
  then show ?thesis by (simp add: escapedPath_def escape_with_valid)
qed

lemma escapedPath_unescape: "pathUnescape (escapedPath path raw) = Some path"
  using unescape_escape_with[of path_safe path "[]"] by (auto simp: escapedPath_def)

lemma segment_safe_path: "segment_safe c \<Longrightarrow> path_safe c"
  by (auto simp: segment_safe_def path_safe_def)

lemma PathEscape_valid: "validEncoded (url_PathEscape s)"
  using escape_with_valid[of segment_safe s] segment_safe_path by blast

lemma PathEscape_no_slash: "slash \<notin> set (url_PathEscape s)"
proof -
  have "slash \<notin> set (escape_byte c)" for c
  proof -
    have "unreserved (hexdigit_upper n)" if "n < 16" for n using that by (auto simp: hexdigit_upper_def unreserved_def)
    moreover have "byte c div 16 < 16" using byte_lt[of c] by linarith
    moreover have "\<not> unreserved slash" by (simp add: unreserved_def)
    ultimately show ?thesis by (auto simp: escape_byte_def)
  qed
  moreover have "\<not> segment_safe slash" by (simp add: segment_safe_def unreserved_def)
  ultimately show ?thesis by (auto simp: escape_with_def)
qed

lemma unescape_slash: "pathUnescape (slash # s) = map_option (Cons slash) (pathUnescape s)"
  by simp

lemma parseRequestURI_parts:
  assumes "parseRequestURI p = Some (path, escaped, query)" "hasPrefix p ''/''"
  shows "validEncoded escaped" "pathUnescape escaped = Some path" "hasPrefix escaped ''/''"
proof -
  obtain raw q f where cut: "cut p ''?'' = (raw, q, f)" by (metis prod.exhaust)
  with assms have path: "pathUnescape raw = Some path" and e: "escaped = escapedPath path (if raw = escape_with path_safe path then [] else raw)"
    by (auto simp: parseRequestURI_def split: if_splits option.splits)
  show "validEncoded escaped" "pathUnescape escaped = Some path" unfolding e by (rule escapedPath_valid, rule escapedPath_unescape)
  obtain t where t: "p = slash # t" using assms(2) by (auto simp: hasPrefix_iff)
  then obtain s where s: "raw = slash # s"
    using cut by (auto simp: cut_def hasPrefix_iff split: option.splits if_splits)
  then obtain d where d: "path = slash # d" using path by auto
  then have "escape_with path_safe path = slash # escape_with path_safe d" by (simp add: escape_with_def path_safe_def)
  then show "hasPrefix escaped ''/''" using s d by (auto simp: e escapedPath_def hasPrefix_iff)
qed

end
