(* ===== verification/Exec_Request.thy ===== *)
theory Exec_Request
  imports Exec_Sandbox Proxy_Credential Go_URL
begin

text \<open>
  \<open>httpRequest\<close> of \<open>cmd/tc-exec/main.go\<close>: the broker turns a registered resource, an allowed method
  and a path below a registered prefix into one request to the Agent API, with the Agent Token the
  worker never sees. Redirects are not followed, so one call of the client is one request.
\<close>

section \<open>The request\<close>

record outgoing =
  og_Method :: string
  og_Scheme :: string
  og_Host :: string
  og_Path :: string
  og_RawPath :: string
  og_RawQuery :: string
  og_AgentToken :: string

text \<open>
  What the HTTP client does: whether \<open>http.NewRequest\<close> takes the URL's text, and what a request
  gives: nothing, or a status, the body, and whether reading the body failed.
\<close>

record http_world =
  hw_NewRequest :: "outgoing \<Rightarrow> bool"
  hw_Do :: "outgoing \<Rightarrow> (int \<times> bytes \<times> bool) option"

definition path_allowed :: "string list \<Rightarrow> string \<Rightarrow> bool" where
  "path_allowed allowed path = list_ex (\<lambda>p. p = ''/'' \<or> path = p \<or> hasPrefix path (trimSuffix p ''/'' @ ''/'')) allowed"

definition agent_request :: "exec_broker \<Rightarrow> resource \<Rightarrow> message \<Rightarrow> URL \<Rightarrow> string \<times> string \<times> string \<Rightarrow> outgoing" where
  "agent_request b r m base u = (case u of (path, escaped, query) \<Rightarrow>
     \<lparr>og_Method = (if m_Method m = [] then ''GET'' else m_Method m), og_Scheme = u_Scheme base, og_Host = u_Host base,
      og_Path = trimSuffix (u_Path base) ''/'' @ ''/proxy/'' @ rs_SecretName r @ ''/'' @ rs_Upstream r @ path,
      og_RawPath = trimSuffix (u_EscapedPath base) ''/'' @ ''/proxy/'' @ url_PathEscape (rs_SecretName r) @ ''/'' @ url_PathEscape (rs_Upstream r) @ escaped,
      og_RawQuery = query, og_AgentToken = b_token b\<rparr>)"

definition httpRequest :: "golib \<Rightarrow> http_world \<Rightarrow> exec_broker \<Rightarrow> message \<Rightarrow> outgoing option \<times> reply" where
  "httpRequest G H b m = (case map_of (ec_Resources (b_cfg b)) (m_Resource m) of
      None \<Rightarrow> (None, reply_error ''unknown resource'')
    | Some r \<Rightarrow>
        if m_Method m \<notin> set (rs_Methods r) then (None, reply_error ''method denied'')
        else if \<not> hasPrefix (m_Path m) ''/'' \<or> contains (m_Path m) ''..'' then (None, reply_error ''invalid path'')
        else (case parseRequestURI (m_Path m) of
           None \<Rightarrow> (None, reply_error ''invalid path'')
         | Some u \<Rightarrow>
             if \<not> path_allowed (rs_PathPrefixes r) (fst u) then (None, reply_error ''path denied'')
             else (case url_Parse G (ec_AgentURL (b_cfg b)) of
                None \<Rightarrow> (None, reply_error ''invalid Agent API URL'')
              | Some base \<Rightarrow> (let o1 = agent_request b r m base u in
                  if \<not> list_all tchar (og_Method o1) \<or> \<not> hw_NewRequest H o1 then (None, reply_error ''invalid request'')
                  else (Some o1, case hw_Do H o1 of
                     None \<Rightarrow> reply_error ''TC request failed''
                   | Some (status, body, failed) \<Rightarrow>
                       if failed then reply_error ''response read failed''
                       else no_reply\<lparr>r_Status := status, r_Output := take (2 ^ 20) body\<rparr>)))))"

text \<open>The path the Agent API receives.\<close>

definition og_target :: "outgoing \<Rightarrow> string" where
  "og_target x = escapedPath (og_Path x) (og_RawPath x)"

section \<open>What is sent\<close>

lemma httpRequest_sends:
  assumes "httpRequest G H b m = (Some x, rep)"
  obtains r u base where "map_of (ec_Resources (b_cfg b)) (m_Resource m) = Some r" "m_Method m \<in> set (rs_Methods r)"
    "parseRequestURI (m_Path m) = Some u" "path_allowed (rs_PathPrefixes r) (fst u)" "hasPrefix (m_Path m) ''/''"
    "\<not> contains (m_Path m) ''..''" "url_Parse G (ec_AgentURL (b_cfg b)) = Some base" "x = agent_request b r m base u"
  using assms that by (auto simp: httpRequest_def Let_def split: option.splits if_splits)

text \<open>Five parts at the first four slashes, when the parts between them hold none.\<close>

lemma splitN_proxy:
  assumes "slash \<notin> set s" "slash \<notin> set u"
  shows "splitN slash 5 (''/proxy/'' @ s @ ''/'' @ u @ slash # rest) = [[], ''proxy'', s, u, rest]"
proof -
  have c: "cut (a @ slash # r) [slash] = (a, r, True)" if "slash \<notin> set a" for a r :: string using cut_single[OF that] .
  have "cut (slash # ''proxy/'' @ s @ ''/'' @ u @ slash # rest) [slash] = ([], ''proxy'' @ slash # s @ slash # u @ slash # rest, True)"
    using c[of "[]"] by simp
  moreover have "cut (''proxy'' @ slash # s @ slash # u @ slash # rest) [slash] = (''proxy'', s @ slash # u @ slash # rest, True)"
    by (rule c) simp
  ultimately show ?thesis using c[OF assms(1), of "u @ slash # rest"] c[OF assms(2), of rest]
    by (simp add: eval_nat_numeral)
qed

text \<open>A path the Agent API forwards is below a prefix it was checked against, once dots are resolved.\<close>

lemma forwarded_below_prefix:
  assumes "forwardedPath (''/proxy/'' @ s @ ''/'' @ u @ slash # rest) = Some (slash # rest)" and "slash \<notin> set s" "slash \<notin> set u"
    and "pathUnescape (slash # rest) = Some path" and "p = ''/'' \<or> path = p \<or> hasPrefix path (trimSuffix p ''/'' @ ''/'')"
  shows "prefix (upstream_parts bs params (trimSuffix p ''/'')) (resolve_dots (upstream_parts bs params path))"
proof -
  have "list_all forwardable (splitc slash rest)"
    using assms(1) splitN_proxy[OF assms(2,3), of rest] by (auto simp: forwardedPath_def split: if_splits)
  then obtain d where d: "pathUnescape rest = Some d" "\<And>bs params q. q \<in> set (upstream_parts bs params d) \<Longrightarrow> \<not> isDots q"
    by (rule forwardable_path) blast
  have path: "path = slash # d" using assms(4) d(1) by simp
  have parts: "upstream_parts bs params path = [] # upstream_parts bs params d"
    using upstream_parts_slash[of bs params "[]" d] by (simp add: path upstream_parts_def)
  then have "resolve_dots (upstream_parts bs params path) = upstream_parts bs params path"
    using d(2) by (intro resolve_dots_no_dots) (auto simp: isDots_def)
  moreover have "trimSuffix p ''/'' = [] \<or> trimSuffix p ''/'' = path \<or> (\<exists>t. path = trimSuffix p ''/'' @ slash # t)"
    using assms(5)
  proof (elim disjE)
    assume "path = p"
    then show ?thesis by (cases "hasSuffix p ''/''") (auto simp: trimSuffix_def hasSuffix_def suffix_def)
  qed (auto simp: trimSuffix_def hasSuffix_def hasPrefix_iff)
  moreover have "prefix (upstream_parts bs params []) (upstream_parts bs params path)" by (subst parts) (simp add: upstream_parts_def)
  moreover have "prefix (upstream_parts bs params a) (upstream_parts bs params (a @ slash # t))" for a t by (simp add: upstream_parts_slash)
  ultimately show ?thesis by (metis prefix_order.order_refl)
qed

text \<open>
  C28: a worker's requests stay with the registered resources. Whatever message a worker sends, a
  request leaves the broker only for a registered resource, with one of its methods, for a path
  without two dots in a row as the worker wrote it, whose decoded form is under one of the
  resource's prefixes; it goes to the Agent API alone and carries the Agent Token. After the path
  of \<open>agent_url\<close>, which must be encoded consistently as none or a plain one is, it names exactly
  the resource's Secret Name and Upstream; and what the Agent API then forwards is the worker's
  path as it was checked, and is below the registered prefix also once an Upstream has decoded
  it, split it and resolved its dot segments. A path that would leave the prefix that way is
  refused there. What the worker gets back is at most 1 MiB.
\<close>

theorem requests_stay_registered:
  assumes "httpRequest G H b m = (Some x, rep)" and "url_Parse G (ec_AgentURL (b_cfg b)) = Some base"
    and "validEncoded (trimSuffix (u_EscapedPath base) ''/'')" and "pathUnescape (trimSuffix (u_EscapedPath base) ''/'') = Some (trimSuffix (u_Path base) ''/'')"
  shows "\<exists>r p path e target. map_of (ec_Resources (b_cfg b)) (m_Resource m) = Some r \<and> m_Method m \<in> set (rs_Methods r) \<and> p \<in> set (rs_PathPrefixes r)
    \<and> \<not> contains (m_Path m) ''..'' \<and> parseRequestURI (m_Path m) = Some (path, e, og_RawQuery x) \<and> pathUnescape e = Some path
    \<and> (p = ''/'' \<or> path = p \<or> hasPrefix path (trimSuffix p ''/'' @ ''/''))
    \<and> og_Host x = u_Host base \<and> og_Scheme x = u_Scheme base \<and> og_AgentToken x = b_token b
    \<and> og_target x = trimSuffix (u_EscapedPath base) ''/'' @ target
    \<and> target = ''/proxy/'' @ url_PathEscape (rs_SecretName r) @ ''/'' @ url_PathEscape (rs_Upstream r) @ e
    \<and> forwardedPath target = (if list_all forwardable (splitc slash (tl e)) then Some e else None)
    \<and> (forwardedPath target \<noteq> None \<longrightarrow>
        (\<forall>bs params. prefix (upstream_parts bs params (trimSuffix p ''/'')) (resolve_dots (upstream_parts bs params path))))
    \<and> length (r_Output rep) \<le> 2 ^ 20"
proof -
  obtain r u where r: "map_of (ec_Resources (b_cfg b)) (m_Resource m) = Some r" "m_Method m \<in> set (rs_Methods r)" "\<not> contains (m_Path m) ''..''"
    and u: "parseRequestURI (m_Path m) = Some u" "path_allowed (rs_PathPrefixes r) (fst u)" "hasPrefix (m_Path m) ''/''"
    and x: "x = agent_request b r m base u"
    using httpRequest_sends[OF assms(1)] assms(2) by (metis option.inject)
  obtain path e q where u3: "u = (path, e, q)" by (metis prod.exhaust)
  note parts = parseRequestURI_parts[OF u(1)[unfolded u3] u(3)]
  obtain rest where e: "e = slash # rest" using parts(3) by (auto simp: hasPrefix_iff)
  let ?s = "url_PathEscape (rs_SecretName r)" and ?u = "url_PathEscape (rs_Upstream r)"
  define bp where "bp = trimSuffix (u_EscapedPath base) ''/''"
  define raw where "raw = ''/proxy/'' @ ?s @ ''/'' @ ?u @ e"
  have og: "og_RawPath x = bp @ raw" "og_Path x = trimSuffix (u_Path base) ''/'' @ ''/proxy/'' @ rs_SecretName r @ ''/'' @ rs_Upstream r @ path" "og_RawQuery x = q"
    by (simp_all add: x u3 agent_request_def bp_def raw_def)
  have "validEncoded ''/proxy/''" "validEncoded ''/''" by code_simp+
  then have "validEncoded (bp @ raw)" using parts(1) PathEscape_valid assms(3) by (simp only: validEncoded_append simp_thms bp_def raw_def)
  moreover have "pathUnescape raw = Some (''/proxy/'' @ rs_SecretName r @ ''/'' @ rs_Upstream r @ path)"
    using parts(2) unescape_escape_with[of segment_safe "rs_SecretName r" "slash # ?u @ e"] unescape_escape_with[of segment_safe "rs_Upstream r" e]
    by (simp add: raw_def)
  then have "pathUnescape (bp @ raw) = Some (og_Path x)" using unescape_append[OF assms(4), of raw] by (simp add: og bp_def)
  moreover have "bp @ raw \<noteq> []" by (simp add: raw_def)
  ultimately have t: "og_target x = bp @ raw" by (simp add: og_target_def escapedPath_def og(1))
  have "splitN slash 5 raw = [[], ''proxy'', ?s, ?u, rest]" unfolding raw_def e by (rule splitN_proxy) (rule PathEscape_no_slash)+
  then have f: "forwardedPath raw = (if list_all forwardable (splitc slash (tl e)) then Some e else None)"
    by (simp add: forwardedPath_def e)
  have out: "length (r_Output rep) \<le> 2 ^ 20"
    using assms(1) by (auto simp: httpRequest_def Let_def no_reply_def split: option.splits if_splits prod.splits)
  obtain p where p: "p \<in> set (rs_PathPrefixes r)" "p = ''/'' \<or> path = p \<or> hasPrefix path (trimSuffix p ''/'' @ ''/'')"
    using u(2) u3 by (auto simp: path_allowed_def list_ex_iff)
  have below: "prefix (upstream_parts bs params (trimSuffix p ''/'')) (resolve_dots (upstream_parts bs params path))"
    if "forwardedPath raw \<noteq> None" for bs params
    using that f parts(2) p(2) forwarded_below_prefix[of ?s ?u rest path p bs params] PathEscape_no_slash
    by (auto simp: raw_def e split: if_splits)
  show ?thesis
    by (intro exI[of _ r] exI[of _ p] exI[of _ path] exI[of _ e] exI[of _ raw] conjI allI impI)
      (use r u u3 t f out parts(2) p below og(3) in \<open>simp_all add: x agent_request_def raw_def bp_def\<close>)
qed

definition example_http_world :: http_world where
  "example_http_world = \<lparr>hw_NewRequest = (\<lambda>x. True), hw_Do = (\<lambda>x. Some (200, ''ok'', False))\<rparr>"

definition example_get :: "string \<Rightarrow> message" where
  "example_get path = no_message\<lparr>m_Action := ''request'', m_Resource := ''gh'', m_Method := ''GET'', m_Path := path\<rparr>"

lemmas request_eval = example_exec_golib_def example_http_world_def example_get_def no_message_def exec_examples httpRequest_def
  agent_request_def og_target_def trimSuffix_def hasSuffix_def hasPrefix_def Let_def

lemma example_get_sends:
  "\<exists>x rep. httpRequest example_exec_golib example_http_world example_exec_broker (example_get ''/a/b'') = (Some x, rep)"
proof -
  have "parseRequestURI ''/a/b'' = Some (''/a/b'', ''/a/b'', [])" "contains ''/a/b'' ''..'' = False"
    "path_allowed [''/a''] ''/a/b''" "list_all tchar ''GET''" by code_simp+
  then show ?thesis by (simp add: request_eval)
qed

theorem requests_stay_registered_witness:
  "\<exists>x rep path e. httpRequest example_exec_golib example_http_world example_exec_broker (example_get ''/a/b'') = (Some x, rep)
     \<and> og_target x = ''/proxy/s/u'' @ e \<and> pathUnescape e = Some path \<and> hasPrefix path ''/a'' \<and> og_Host x = ''127.0.0.1:8200''"
proof -
  obtain x rep where x: "httpRequest example_exec_golib example_http_world example_exec_broker (example_get ''/a/b'') = (Some x, rep)"
    using example_get_sends by blast
  have esc: "url_PathEscape ''s'' = ''s''" "url_PathEscape ''u'' = ''u''" "validEncoded []" by code_simp+
  obtain base where base: "url_Parse example_exec_golib (ec_AgentURL (b_cfg example_exec_broker)) = Some base" "u_Path base = []" "u_EscapedPath base = []"
    "u_Host base = ''127.0.0.1:8200''" by (simp add: example_exec_golib_def)
  then have trim: "trimSuffix (u_EscapedPath base) ''/'' = []" "trimSuffix (u_Path base) ''/'' = []" by (simp_all add: trimSuffix_def hasSuffix_def)
  have p: "trimSuffix ''/a'' ''/'' = ''/a''" by (simp add: trimSuffix_def hasSuffix_def suffix_def)
  from requests_stay_registered[OF x base(1), unfolded trim] esc(3)
  obtain r p path e where "map_of (ec_Resources (b_cfg example_exec_broker)) ''gh'' = Some r" "p \<in> set (rs_PathPrefixes r)"
    "pathUnescape e = Some path" "p = ''/'' \<or> path = p \<or> hasPrefix path (trimSuffix p ''/'' @ ''/'')" "og_Host x = u_Host base"
    "og_target x = ''/proxy/'' @ url_PathEscape (rs_SecretName r) @ ''/'' @ url_PathEscape (rs_Upstream r) @ e"
    by (auto simp: example_get_def)
  then have "og_target x = ''/proxy/s/u'' @ e \<and> pathUnescape e = Some path \<and> hasPrefix path ''/a'' \<and> og_Host x = ''127.0.0.1:8200''"
    using esc base(4) p by (auto simp: exec_examples hasPrefix_iff)
  with x show ?thesis by blast
qed

text \<open>
  The broker's own check of a path can be passed with encoded dots. The check for two dots looks
  at the path as it was sent, the check of the prefix at the decoded path: \<open>/a/%2e%2e/b\<close> passes for the
  prefix \<open>/a\<close> and is sent, although it names \<open>/b\<close>. The Agent API refuses the request.
\<close>

theorem encoded_dots_pass_the_broker:
  "\<exists>x rep. httpRequest example_exec_golib example_http_world example_exec_broker (example_get ''/a/%2e%2e/b'') = (Some x, rep)
     \<and> og_target x = ''/proxy/s/u/a/%2e%2e/b'' \<and> resolve_dots (components [''a'', ''..'', ''b'']) = [''b'']
     \<and> map pathUnescape (splitc slash ''a/%2e%2e/b'') = map Some [''a'', ''..'', ''b''] \<and> forwardedPath (og_target x) = None"
proof -
  let ?p = "''/a/%2e%2e/b''"
  have p: "parseRequestURI ?p = Some (''/a/../b'', ?p, [])" "contains ?p ''..'' = False" "path_allowed [''/a''] ''/a/../b''" "list_all tchar ''GET''"
    "url_PathEscape ''s'' = ''s''" "url_PathEscape ''u'' = ''u''"
    "escapedPath ''/proxy/s/u/a/../b'' ''/proxy/s/u/a/%2e%2e/b'' = ''/proxy/s/u/a/%2e%2e/b''" by code_simp+
  have f: "forwardedPath ''/proxy/s/u/a/%2e%2e/b'' = None" "resolve_dots (components [''a'', ''..'', ''b'']) = [''b'']"
    "map pathUnescape (splitc slash ''a/%2e%2e/b'') = map Some [''a'', ''..'', ''b'']" by code_simp+
  show ?thesis using p f
    by (simp add: request_eval)
qed

end
