(* ===== verification/Exec_Broker.thy ===== *)
theory Exec_Broker
  imports Exec_Mailbox Exec_Request
begin

text \<open>
  The broker of \<open>cmd/tc-exec/main.go\<close>: the three actions of \<open>processJobContext\<close> as one call each, the
  connection handler and its client, the diagnostic events of \<open>events.go\<close>, and the job table under
  concurrent connections, where the sections under the broker's mutex interleave in every order.
\<close>

section \<open>The job table\<close>

definition expire :: "ns \<Rightarrow> job gomap \<Rightarrow> job gomap" where
  "expire now jobs = filter (\<lambda>(jid, j). \<not> now - j_created j > jobTTL) jobs"

text \<open>
  What the surroundings give to one call: the file system, the random identifier if the source
  works, the clock at the look at the table and at the entry of the job, the making of a mailbox, a
  worker's run and the Agent API.
\<close>

record exec_env =
  ev_golib :: golib
  ev_fs :: fslib
  ev_rand :: "bytes option"
  ev_now :: ns
  ev_created :: ns
  ev_since :: ns
  ev_mailbox :: "string \<Rightarrow> exec_broker \<Rightarrow> mailboxRef option"
  ev_worker :: worker_world
  ev_http :: http_world

text \<open>The checks of \<open>submit\<close> before the table is locked: the identifier and the directory, or a reply.\<close>

definition submit_checks :: "exec_env \<Rightarrow> exec_broker \<Rightarrow> message \<Rightarrow> (reply, string \<times> string) result" where
  "submit_checks E b m = (
     if m_Command m = [] \<or> 2 ^ 16 < length (m_Command m) then Inl (reply_error ''invalid command'')
     else if \<not> within (ev_fs E) (ec_Workspace (b_cfg b)) (m_Workdir m) then Inl (reply_error ''workdir outside workspace'')
     else (case canonical (ev_fs E) (m_Workdir m) True of
        None \<Rightarrow> Inl (reply_error ''invalid workdir'')
      | Some workdir \<Rightarrow> (case ev_rand E of
          None \<Rightarrow> Inl (reply_error ''random source unavailable'')
        | Some bs \<Rightarrow> Inr (hex_encode bs, workdir))))"

text \<open>The section of \<open>submit\<close> under the mutex.\<close>

definition submit_locked :: "exec_env \<Rightarrow> string \<Rightarrow> string \<Rightarrow> string \<Rightarrow> exec_broker \<Rightarrow> reply \<times> exec_broker" where
  "submit_locked E jid command workdir b = (
     let b = b\<lparr>b_jobs := expire (ev_now E) (b_jobs b)\<rparr> in
     if maxJobs \<le> length (b_jobs b) \<or> maxJobs \<le> b_mailboxActive b then (reply_error ''broker busy'', b)
     else let b = b\<lparr>b_jobs := AList.update jid \<lparr>j_command = command, j_workdir = workdir, j_created = ev_created E\<rparr> (b_jobs b)\<rparr> in
     if b_mailboxRoot b then
       (case ev_mailbox E jid b of
          None \<Rightarrow> (reply_error ''cannot create job mailbox'', b\<lparr>b_jobs := AList.delete jid (b_jobs b)\<rparr>)
        | Some ref \<Rightarrow> (no_reply\<lparr>r_Job := jid, r_Mailbox := Some ref\<rparr>, b\<lparr>b_mailboxActive := b_mailboxActive b + 1\<rparr>))
     else (no_reply\<lparr>r_Job := jid\<rparr>, b))"

text \<open>The section of \<open>dispatch\<close> under the mutex, and the check behind it.\<close>

definition dispatch_take :: "ns \<Rightarrow> string \<Rightarrow> exec_broker \<Rightarrow> job option \<times> exec_broker" where
  "dispatch_take since jid b = (
     (case map_of (b_jobs b) jid of
        None \<Rightarrow> None
      | Some j \<Rightarrow> if since - j_created j > jobTTL then None else Some j),
     b\<lparr>b_jobs := AList.delete jid (b_jobs b)\<rparr>)"

text \<open>
  \<open>processJobContext\<close> as one call that nothing interrupts: the reply and the broker after it. A
  worker's slot is given back before it returns.
\<close>

definition processJobContext :: "exec_env \<Rightarrow> message \<Rightarrow> exec_broker \<Rightarrow> reply \<times> exec_broker" where
  "processJobContext E m b = (
     if m_Action m = ''submit'' then
       (case submit_checks E b m of
          Inl r \<Rightarrow> (r, b)
        | Inr (jid, workdir) \<Rightarrow> submit_locked E jid (m_Command m) workdir b)
     else if m_Action m = ''dispatch'' then
       (if maxWorkers \<le> b_workers b then (reply_error ''broker busy'', b)
        else (case dispatch_take (ev_since E) (m_Job m) b of
          (None, b) \<Rightarrow> (reply_error ''unknown or expired job'', b)
        | (Some j, b) \<Rightarrow> (shellContext b (ev_worker E) j, b)))
     else if m_Action m = ''request'' then (snd (httpRequest (ev_golib E) (ev_http E) b m), b)
     else (reply_error ''unknown action'', b))"

section \<open>Connections\<close>

definition newline :: char where "newline = char_of (10 :: nat)"

text \<open>\<open>handle\<close>: what a connection's bytes become.\<close>

definition handle :: "exec_env \<Rightarrow> bytes \<Rightarrow> exec_broker \<Rightarrow> bytes \<times> exec_broker" where
  "handle E input b = (case Option.bind (json_decode (take (2 ^ 20) input)) (message_of \<circ> fst) of
      None \<Rightarrow> (reply_line (reply_error ''invalid request''), b)
    | Some m \<Rightarrow> (case processJobContext E m b of (r, b') \<Rightarrow> (reply_line r, b')))"

text \<open>\<open>call\<close>: \<open>conn\<close> is what the socket answers to the bytes sent, if it can be reached.\<close>

definition exec_call :: "(bytes \<Rightarrow> bytes option) \<Rightarrow> message \<Rightarrow> reply option" where
  "exec_call conn m = Option.bind (conn (json_print (message_json m) @ [newline])) (\<lambda>d. Option.bind (json_decode d) (reply_of \<circ> fst))"

lemma call_handle:
  assumes "length (json_print (message_json m)) < 2 ^ 20" and "processJobContext E (valid_message m) b = (r, b')" and "status_ok r"
  shows "exec_call (\<lambda>d. Some (fst (handle E d b))) m = Some (valid_reply r)"
proof -
  let ?d = "json_print (message_json m) @ [newline]"
  have stop: "num_stop [newline]" by code_simp
  have "take (2 ^ 20) ?d = ?d" using assms(1) by simp
  then have "json_decode (take (2 ^ 20) ?d) = Some (json_norm (message_json m), [newline])" using json_decode_print[OF message_ints stop, of m] by simp
  then have "fst (handle E ?d b) = reply_line r" using assms(2) message_of_json[of m] by (simp add: handle_def)
  moreover have "json_decode (reply_line r) = Some (json_norm (reply_json r), [newline])"
    using json_decode_print[OF reply_ints stop, of r] by (simp add: reply_line_def newline_def)
  ultimately show ?thesis using reply_of_json[OF assms(3)] by (simp add: exec_call_def)
qed

section \<open>Events\<close>

record broker_event =
  be_event :: string
  be_action :: string
  be_job :: string
  be_status :: int
  be_denied :: bool
  be_truncated :: bool

definition event_record :: "string \<Rightarrow> message \<Rightarrow> reply \<Rightarrow> broker_event" where
  "event_record phase m r = (
     let jid = (if r_Job r \<noteq> [] then r_Job r else m_Job m) in
     \<lparr>be_event = ''broker_'' @ phase,
      be_action = (if m_Action m \<in> {''submit'', ''dispatch'', ''request''} then m_Action m else ''unknown''),
      be_job = (if validJobID jid then jid else []), be_status = r_Status r, be_denied = (r_Error r \<noteq> []), be_truncated = r_Truncated r\<rparr>)"

text \<open>\<open>processContext\<close>: the call between its two events.\<close>

definition processContext :: "exec_env \<Rightarrow> message \<Rightarrow> exec_broker \<Rightarrow> reply \<times> exec_broker \<times> broker_event list" where
  "processContext E m b = (case processJobContext E m b of
      (r, b') \<Rightarrow> (r, b', [event_record ''begin'' m no_reply, event_record ''end'' m r]))"

section \<open>Concurrent calls\<close>

text \<open>
  The broker while calls run side by side. A dispatch holds a worker's slot from before it looks at
  the table until its worker is done; \<open>es_slots\<close> are those that have not looked yet, \<open>es_running\<close> the
  workers. What was accepted and what was run is remembered in order. The file system \<open>fs\<close> is one
  for the run: that a link is swapped between the two times a message's directory is resolved is
  not represented.
\<close>

record exec_state =
  es_b :: exec_broker
  es_clock :: ns
  es_slots :: "string list"
  es_running :: "(string \<times> job) list"
  es_submitted :: "(string \<times> job) list"
  es_ran :: "(string \<times> job \<times> ns) list"

inductive exec_step :: "fslib \<Rightarrow> exec_state \<Rightarrow> exec_state \<Rightarrow> bool" for fs where
  clock: "es_clock s \<le> t \<Longrightarrow> exec_step fs s (s\<lparr>es_clock := t\<rparr>)"
| submit: "ev_fs E = fs \<Longrightarrow> submit_checks E (es_b s) m = Inr (jid, workdir) \<Longrightarrow> ev_now E = es_clock s \<Longrightarrow> ev_now E \<le> ev_created E \<Longrightarrow>
    submit_locked E jid (m_Command m) workdir (es_b s) = (r, b') \<Longrightarrow>
    exec_step fs s (s\<lparr>es_b := b', es_clock := ev_created E, es_submitted := (if r_Error r = [] then
      es_submitted s @ [(jid, \<lparr>j_command = m_Command m, j_workdir = workdir, j_created = ev_created E\<rparr>)] else es_submitted s)\<rparr>)"
| slot: "b_workers (es_b s) < maxWorkers \<Longrightarrow>
    exec_step fs s (s\<lparr>es_b := (es_b s)\<lparr>b_workers := b_workers (es_b s) + 1\<rparr>, es_slots := jid # es_slots s\<rparr>)"
| take_job: "jid \<in> set (es_slots s) \<Longrightarrow> dispatch_take (es_clock s) jid (es_b s) = (Some j, b') \<Longrightarrow>
    exec_step fs s (s\<lparr>es_b := b', es_slots := remove1 jid (es_slots s), es_running := (jid, j) # es_running s, es_ran := es_ran s @ [(jid, j, es_clock s)]\<rparr>)"
| take_none: "jid \<in> set (es_slots s) \<Longrightarrow> dispatch_take (es_clock s) jid (es_b s) = (None, b') \<Longrightarrow>
    exec_step fs s (s\<lparr>es_b := b'\<lparr>b_workers := b_workers b' - 1\<rparr>, es_slots := remove1 jid (es_slots s)\<rparr>)"
| finish: "jj \<in> set (es_running s) \<Longrightarrow>
    exec_step fs s (s\<lparr>es_b := (es_b s)\<lparr>b_workers := b_workers (es_b s) - 1\<rparr>, es_running := remove1 jj (es_running s)\<rparr>)"
| sweep: "exec_step fs s (s\<lparr>es_b := (es_b s)\<lparr>b_jobs := expire (es_clock s) (b_jobs (es_b s))\<rparr>\<rparr>)"
| mailbox_ends: "0 < b_mailboxActive (es_b s) \<Longrightarrow>
    exec_step fs s (s\<lparr>es_b := (es_b s)\<lparr>b_jobs := AList.delete jid (b_jobs (es_b s)), b_mailboxActive := b_mailboxActive (es_b s) - 1\<rparr>\<rparr>)"

definition exec_init :: "exec_state \<Rightarrow> bool" where
  "exec_init s \<longleftrightarrow> b_jobs (es_b s) = [] \<and> b_workers (es_b s) = 0 \<and> b_mailboxActive (es_b s) = 0 \<and> es_slots s = [] \<and> es_running s = []
     \<and> es_submitted s = [] \<and> es_ran s = []"

text \<open>The configuration is a loaded one: its workspace is a real path.\<close>

definition exec_fs_ok :: "fslib \<Rightarrow> exec_config \<Rightarrow> bool" where
  "exec_fs_ok fs cfg \<longleftrightarrow> fs_ok fs \<and> (\<forall>wd. fs_Getwd fs = Some wd \<longrightarrow> isAbs wd) \<and> fs_EvalSymlinks fs (ec_Workspace cfg) = Some (ec_Workspace cfg)"

lemma fs_okD: "fs_ok fs \<Longrightarrow> fs_EvalSymlinks fs p = Some q \<Longrightarrow> isAbs p \<Longrightarrow> isAbs q \<and> filepath_Clean q = q \<and> fs_EvalSymlinks fs q = Some q"
  unfolding fs_ok_def by blast

lemma submit_checks_job:
  assumes "submit_checks E b m = Inr (jid, workdir)" "exec_fs_ok (ev_fs E) (b_cfg b)"
  shows "job_ok (b_cfg b) \<lparr>j_command = m_Command m, j_workdir = workdir, j_created = t\<rparr>" "m_Command m \<noteq> []" "length (m_Command m) \<le> 2 ^ 16"
proof -
  let ?fs = "ev_fs E" and ?ws = "ec_Workspace (b_cfg b)"
  have m: "m_Command m \<noteq> []" "length (m_Command m) \<le> 2 ^ 16" and w1: "within ?fs ?ws (m_Workdir m)"
    using assms(1) unfolding submit_checks_def by (simp_all split: if_split_asm)
  then have "canonical ?fs (m_Workdir m) True = Some workdir"
    using assms(1) unfolding submit_checks_def by (simp split: if_split_asm option.split_asm)
  with w1 have w: "within ?fs ?ws (m_Workdir m)" "canonical ?fs (m_Workdir m) True = Some workdir" by simp_all
  show "m_Command m \<noteq> []" "length (m_Command m) \<le> 2 ^ 16" by (rule m)+
  obtain p where p: "filepath_Abs ?fs (m_Workdir m) = Some p" "fs_EvalSymlinks ?fs p = Some workdir"
    using w(2) by (auto simp: canonical_def split: option.splits)
  have "isAbs p" by (rule abs_isAbs[OF p(1)]) (use assms(2) in \<open>simp add: exec_fs_ok_def\<close>)
  moreover have "fs_ok ?fs" using assms(2) by (simp add: exec_fs_ok_def)
  ultimately have "isAbs workdir" "filepath_Clean workdir = workdir" using fs_okD[OF _ p(2)] by simp_all
  moreover have "below ?ws workdir"
    using within_canonical[OF w(1)] w(2) assms(2) by (metis exec_fs_ok_def option.inject)
  ultimately show "job_ok (b_cfg b) \<lparr>j_command = m_Command m, j_workdir = workdir, j_created = t\<rparr>" by (simp add: job_ok_def)
qed

section \<open>The invariant\<close>

definition ran_ids :: "exec_state \<Rightarrow> string list" where
  "ran_ids s = map fst (es_ran s)"

definition waiting :: "exec_state \<Rightarrow> string \<Rightarrow> nat" where
  "waiting s jid = (if jid \<in> fst ` set (b_jobs (es_b s)) then 1 else 0)"

definition exec_inv :: "exec_config \<Rightarrow> exec_state \<Rightarrow> bool" where
  "exec_inv cfg s \<longleftrightarrow> b_cfg (es_b s) = cfg \<and> distinct (map fst (b_jobs (es_b s))) \<and> length (b_jobs (es_b s)) \<le> maxJobs
     \<and> b_mailboxActive (es_b s) \<le> maxJobs
     \<and> b_workers (es_b s) = length (es_slots s) + length (es_running s) \<and> b_workers (es_b s) \<le> maxWorkers
     \<and> set (b_jobs (es_b s)) \<subseteq> set (es_submitted s)
     \<and> (\<forall>(jid, j)\<in>set (es_submitted s). job_ok cfg j \<and> j_command j \<noteq> [] \<and> length (j_command j) \<le> 2 ^ 16)
     \<and> (\<forall>(jid, j, t)\<in>set (es_ran s). (jid, j) \<in> set (es_submitted s) \<and> t - j_created j \<le> jobTTL)
     \<and> (\<forall>jid. count_list (ran_ids s) jid + waiting s jid \<le> count_list (map fst (es_submitted s)) jid)"

lemma expire_props:
  "set (expire now jobs) \<subseteq> set jobs" "length (expire now jobs) \<le> length jobs"
  "distinct (map fst jobs) \<Longrightarrow> distinct (map fst (expire now jobs))"
  by (auto simp: expire_def distinct_map_filter)

lemma set_delete: "set (AList.delete k al) \<subseteq> set al" "fst ` set (AList.delete k al) = fst ` set al - {k}"
  by (auto simp: AList.delete_eq)

lemma set_update: "set (AList.update k v al) \<subseteq> insert (k, v) (set al)"
  by (induction al) auto

lemma length_update: "length (AList.update k v al) \<le> length al + 1"
  by (induction al) auto

lemma inv_fewer:
  assumes "exec_inv cfg s" "set jobs' \<subseteq> set (b_jobs (es_b s))" "length jobs' \<le> length (b_jobs (es_b s))" "distinct (map fst jobs')"
  shows "exec_inv cfg (s\<lparr>es_b := (es_b s)\<lparr>b_jobs := jobs'\<rparr>\<rparr>)"
proof -
  have "waiting (s\<lparr>es_b := (es_b s)\<lparr>b_jobs := jobs'\<rparr>\<rparr>) jid \<le> waiting s jid" for jid
    using assms(2) by (auto simp: waiting_def)
  moreover have "count_list (ran_ids s) jid + waiting s jid \<le> count_list (map fst (es_submitted s)) jid" for jid
    using assms(1) by (simp add: exec_inv_def)
  ultimately have "count_list (ran_ids s) jid + waiting (s\<lparr>es_b := (es_b s)\<lparr>b_jobs := jobs'\<rparr>\<rparr>) jid \<le> count_list (map fst (es_submitted s)) jid" for jid
    using add_left_mono le_trans by blast
  with assms show ?thesis by (auto simp: exec_inv_def ran_ids_def)
qed

lemma expire_inv: "exec_inv cfg s \<Longrightarrow> exec_inv cfg (s\<lparr>es_b := (es_b s)\<lparr>b_jobs := expire t (b_jobs (es_b s))\<rparr>\<rparr>)"
  using expire_props[where now = t and jobs = "b_jobs (es_b s)"] by (intro inv_fewer) (auto simp: exec_inv_def)

lemma delete_inv: "exec_inv cfg s \<Longrightarrow> exec_inv cfg (s\<lparr>es_b := (es_b s)\<lparr>b_jobs := AList.delete k (b_jobs (es_b s))\<rparr>\<rparr>)"
  using set_delete[of k "b_jobs (es_b s)"]
  by (intro inv_fewer) (auto simp: exec_inv_def AList.delete_eq distinct_map_filter)

lemma accept_inv:
  assumes "exec_inv cfg s" "length (b_jobs (es_b s)) < maxJobs" "active \<le> maxJobs"
    "job_ok cfg j" "j_command j \<noteq> []" "length (j_command j) \<le> 2 ^ 16"
  shows "exec_inv cfg (s\<lparr>es_b := (es_b s)\<lparr>b_jobs := AList.update jid j (b_jobs (es_b s)), b_mailboxActive := active\<rparr>,
    es_clock := t, es_submitted := es_submitted s @ [(jid, j)]\<rparr>)"
proof -
  let ?js = "b_jobs (es_b s)"
  let ?s = "s\<lparr>es_b := (es_b s)\<lparr>b_jobs := AList.update jid j ?js, b_mailboxActive := active\<rparr>, es_clock := t, es_submitted := es_submitted s @ [(jid, j)]\<rparr>"
  have u: "set (AList.update jid j ?js) \<subseteq> insert (jid, j) (set ?js)" "length (AList.update jid j ?js) \<le> maxJobs"
    using set_update[of jid j ?js] length_update[of jid j ?js] assms(2) by auto
  have dom: "fst ` set (AList.update jid j ?js) = insert jid (fst ` set ?js)" by (simp add: dom_update)
  have "count_list (ran_ids ?s) k + waiting ?s k \<le> count_list (map fst (es_submitted ?s)) k" for k
  proof -
    have "count_list (ran_ids s) k + waiting s k \<le> count_list (map fst (es_submitted s)) k" using assms(1) by (simp add: exec_inv_def)
    then show ?thesis by (auto simp: waiting_def ran_ids_def dom split: if_splits)
  qed
  moreover have "distinct (map fst (AList.update jid j ?js))" using assms(1) by (simp add: exec_inv_def distinct_update)
  ultimately show ?thesis using assms u unfolding exec_inv_def by (auto simp: ran_ids_def)
qed

lemma take_inv:
  assumes "exec_inv cfg s" "(jid, j) \<in> set (b_jobs (es_b s))" "es_clock s - j_created j \<le> jobTTL" "jid \<in> set (es_slots s)"
  shows "exec_inv cfg (s\<lparr>es_b := (es_b s)\<lparr>b_jobs := AList.delete jid (b_jobs (es_b s))\<rparr>, es_slots := remove1 jid (es_slots s),
    es_running := (jid, j) # es_running s, es_ran := es_ran s @ [(jid, j, es_clock s)]\<rparr>)" (is "exec_inv cfg ?s")
proof -
  have "exec_inv cfg (s\<lparr>es_b := (es_b s)\<lparr>b_jobs := AList.delete jid (b_jobs (es_b s))\<rparr>\<rparr>)" by (rule delete_inv[OF assms(1)])
  moreover have "count_list (ran_ids ?s) k + waiting ?s k \<le> count_list (map fst (es_submitted s)) k" for k
  proof -
    have "count_list (ran_ids s) k + waiting s k \<le> count_list (map fst (es_submitted s)) k" using assms(1) by (simp add: exec_inv_def)
    moreover have "jid \<in> fst ` set (b_jobs (es_b s))" using assms(2) by force
    ultimately show ?thesis by (auto simp: waiting_def ran_ids_def set_delete split: if_splits)
  qed
  moreover have "(jid, j) \<in> set (es_submitted s)" using assms(1,2) by (auto simp: exec_inv_def)
  moreover have "length (es_slots s) = Suc (length (remove1 jid (es_slots s)))"
    using assms(4) by (metis length_remove1 length_pos_if_in_set Suc_pred')
  ultimately show ?thesis using assms(3) by (auto simp: exec_inv_def)
qed

lemma dispatch_take_cases:
  assumes "dispatch_take since jid b = (x, b')"
  shows "b' = b\<lparr>b_jobs := AList.delete jid (b_jobs b)\<rparr>"
    "x = Some j \<Longrightarrow> (jid, j) \<in> set (b_jobs b) \<and> since - j_created j \<le> jobTTL"
  using assms by (auto simp: dispatch_take_def map_of_SomeD split: option.splits if_splits)

lemma submit_locked_cases:
  assumes "submit_locked E jid command workdir b = (r, b')"
  defines "js \<equiv> expire (ev_now E) (b_jobs b)" and "j \<equiv> \<lparr>j_command = command, j_workdir = workdir, j_created = ev_created E\<rparr>"
  obtains (busy) "r_Error r \<noteq> []" "b' = b\<lparr>b_jobs := js\<rparr>"
  | (no_mailbox) "r_Error r \<noteq> []" "length js < maxJobs" "b' = b\<lparr>b_jobs := AList.delete jid (AList.update jid j js)\<rparr>"
  | (accepted) active where "r_Error r = []" "length js < maxJobs" "active \<le> maxJobs" "b' = b\<lparr>b_jobs := AList.update jid j js, b_mailboxActive := active\<rparr>"
proof (cases "maxJobs \<le> length js \<or> maxJobs \<le> b_mailboxActive b")
  case True
  then have "r = reply_error ''broker busy''" "b' = b\<lparr>b_jobs := js\<rparr>" using assms(1) by (auto simp: submit_locked_def js_def Let_def)
  then show thesis by (intro busy) (simp_all add: no_reply_def)
next
  case False
  then have lt: "length js < maxJobs" "b_mailboxActive b < maxJobs" by auto
  let ?b = "b\<lparr>b_jobs := AList.update jid j js\<rparr>"
  have r: "(r, b') = (if b_mailboxRoot b then
       (case ev_mailbox E jid ?b of
          None \<Rightarrow> (reply_error ''cannot create job mailbox'', ?b\<lparr>b_jobs := AList.delete jid (AList.update jid j js)\<rparr>)
        | Some ref \<Rightarrow> (no_reply\<lparr>r_Job := jid, r_Mailbox := Some ref\<rparr>, ?b\<lparr>b_mailboxActive := b_mailboxActive b + 1\<rparr>))
     else (no_reply\<lparr>r_Job := jid\<rparr>, ?b))"
    using assms(1) False by (simp add: submit_locked_def js_def j_def Let_def split: if_splits option.splits)
  show thesis
  proof (cases "b_mailboxRoot b")
    case True
    show thesis
    proof (cases "ev_mailbox E jid ?b")
      case None
      with True r show thesis by (intro no_mailbox) (simp_all add: no_reply_def lt)
    next
      case (Some ref)
      with True r lt show thesis by (intro accepted[of "b_mailboxActive b + 1"]) (simp_all add: no_reply_def)
    qed
  next
    case False
    with r lt show thesis by (intro accepted[of "b_mailboxActive b"]) (simp_all add: no_reply_def)
  qed
qed

lemma exec_inv_step:
  assumes "exec_step fs s s'" "exec_inv cfg s" "exec_fs_ok fs cfg"
  shows "exec_inv cfg s'"
  using assms(1)
proof cases
  case (clock t)
  with assms(2) show ?thesis by (simp add: exec_inv_def ran_ids_def waiting_def)
next
  case (submit E m jid workdir r b')
  let ?b = "es_b s" and ?j = "\<lparr>j_command = m_Command m, j_workdir = workdir, j_created = ev_created E\<rparr>"
  let ?js = "expire (ev_now E) (b_jobs ?b)"
  have cfg: "b_cfg ?b = cfg" using assms(2) by (simp add: exec_inv_def)
  have job: "job_ok cfg ?j" "j_command ?j \<noteq> []" "length (j_command ?j) \<le> 2 ^ 16"
    using submit_checks_job[OF submit(3)] submit(2) assms(3) cfg by simp_all
  have e: "exec_inv cfg (s\<lparr>es_b := ?b\<lparr>b_jobs := ?js\<rparr>\<rparr>)" by (rule expire_inv[OF assms(2)])
  have tick: "exec_inv cfg u \<Longrightarrow> exec_inv cfg (u\<lparr>es_clock := t\<rparr>)" for u t by (simp add: exec_inv_def ran_ids_def waiting_def)
  show ?thesis using submit(6)
  proof (cases rule: submit_locked_cases)
    case busy
    with tick[OF e, of "ev_created E"] submit(1) show ?thesis by simp
  next
    case no_mailbox
    have "AList.delete jid (AList.update jid ?j ?js) = AList.delete jid ?js" by (rule AList.delete_update_same)
    with no_mailbox tick[OF delete_inv[OF e, of jid], of "ev_created E"] submit(1) show ?thesis by simp
  next
    case (accepted active)
    with accept_inv[OF e, of active ?j jid "ev_created E"] job submit(1) show ?thesis by simp
  qed
next
  case (slot jid)
  with assms(2) show ?thesis by (simp add: exec_inv_def ran_ids_def waiting_def)
next
  case (take_job jid j b')
  with take_inv[OF assms(2) _ _ take_job(2), of j] dispatch_take_cases[OF take_job(3)] show ?thesis by simp
next
  case (take_none jid b')
  have "exec_inv cfg (s\<lparr>es_b := b'\<rparr>)" using delete_inv[OF assms(2), of jid] dispatch_take_cases(1)[OF take_none(3)] by simp
  moreover have "length (es_slots s) = Suc (length (remove1 jid (es_slots s)))"
    using take_none(2) by (metis length_remove1 length_pos_if_in_set Suc_pred')
  ultimately show ?thesis using take_none(1) by (simp add: exec_inv_def ran_ids_def waiting_def)
next
  case (finish jj)
  have "length (es_running s) = Suc (length (remove1 jj (es_running s)))"
    using finish(2) by (metis length_remove1 length_pos_if_in_set Suc_pred')
  with finish(1) assms(2) show ?thesis by (simp add: exec_inv_def ran_ids_def waiting_def)
next
  case sweep
  with expire_inv[OF assms(2)] show ?thesis by simp
next
  case (mailbox_ends jid)
  with delete_inv[OF assms(2), of jid] show ?thesis by (auto simp: exec_inv_def ran_ids_def waiting_def)
qed

text \<open>
  C24: every accepted command is run once at most, as it was accepted. In every execution, with any
  number of connections, mailboxes and sweeps side by side: each run is of a job that was submitted
  under that identifier, with that command and a directory inside the workspace, at most ten minutes
  old; an identifier is never run more often than it was accepted; there are never more than 128 jobs
  in the table and never more than eight workers.
\<close>

theorem jobs_run_once:
  assumes "exec_init s" and "exec_fs_ok fs (b_cfg (es_b s))" and "(exec_step fs)\<^sup>*\<^sup>* s t"
  shows "(\<forall>(jid, j, at)\<in>set (es_ran t). (jid, j) \<in> set (es_submitted t) \<and> at - j_created j \<le> jobTTL \<and> job_ok (b_cfg (es_b s)) j)
    \<and> (\<forall>jid. count_list (map fst (es_ran t)) jid \<le> count_list (map fst (es_submitted t)) jid)
    \<and> length (b_jobs (es_b t)) \<le> maxJobs \<and> length (es_running t) \<le> maxWorkers"
proof -
  have "exec_inv (b_cfg (es_b s)) t" using assms(3)
  proof (induction rule: rtranclp_induct)
    case base
    show ?case using assms(1) by (simp add: exec_init_def exec_inv_def ran_ids_def waiting_def)
  next
    case (step y z)
    with exec_inv_step[OF step(2) step.IH assms(2)] show ?case by simp
  qed
  then have i: "\<forall>(jid, j)\<in>set (es_submitted t). job_ok (b_cfg (es_b s)) j"
    "\<forall>(jid, j, at)\<in>set (es_ran t). (jid, j) \<in> set (es_submitted t) \<and> at - j_created j \<le> jobTTL"
    "count_list (ran_ids t) jid + waiting t jid \<le> count_list (map fst (es_submitted t)) jid"
    "length (b_jobs (es_b t)) \<le> maxJobs" "length (es_slots t) + length (es_running t) \<le> maxWorkers" for jid
    by (auto simp: exec_inv_def)
  have "count_list (map fst (es_ran t)) jid \<le> count_list (map fst (es_submitted t)) jid" for jid
    using i(3)[of jid] by (simp add: ran_ids_def)
  moreover have "(jid, j) \<in> set (es_submitted t) \<and> at - j_created j \<le> jobTTL \<and> job_ok (b_cfg (es_b s)) j" if "(jid, j, at) \<in> set (es_ran t)" for jid j at
    using i(1,2) that by blast
  ultimately show ?thesis using i(4,5) by auto
qed

definition example_exec_env :: exec_env where
  "example_exec_env = \<lparr>ev_golib = example_exec_golib, ev_fs = example_fs, ev_rand = Some ''ab'', ev_now = 0, ev_created = 5, ev_since = 9,
     ev_mailbox = (\<lambda>jid b. None), ev_worker = example_worker_world, ev_http = example_http_world\<rparr>"

definition example_submit :: message where
  "example_submit = no_message\<lparr>m_Action := ''submit'', m_Command := ''ls'', m_Workdir := ''/w/d''\<rparr>"

definition example_exec_state :: exec_state where
  "example_exec_state = \<lparr>es_b = example_exec_broker, es_clock = 0, es_slots = [], es_running = [], es_submitted = [], es_ran = []\<rparr>"

lemma example_fs_ok: "exec_fs_ok example_fs example_exec_config"
proof -
  have "filepath_Clean ''/w'' = ''/w''" by code_simp
  then show ?thesis by (simp add: exec_fs_ok_def fs_ok_def example_fs_def example_exec_config_def)
qed

lemma example_submitted: "submit_checks example_exec_env example_exec_broker example_submit = Inr (''6162'', ''/w/d'')"
proof -
  have "within example_fs ''/w'' ''/w/d''" "canonical example_fs ''/w/d'' True = Some ''/w/d''" "hex_encode ''ab'' = ''6162''" by code_simp+
  then show ?thesis by (simp add: submit_checks_def example_exec_env_def example_submit_def no_message_def exec_examples)
qed

theorem jobs_run_once_witness:
  "\<exists>t. (exec_step example_fs)\<^sup>*\<^sup>* example_exec_state t \<and> map fst (es_ran t) = [''6162''] \<and> count_list (map fst (es_submitted t)) ''6162'' \<ge> 1
     \<and> length (es_running t) \<le> maxWorkers"
proof -
  let ?s = example_exec_state and ?j = "\<lparr>j_command = ''ls'', j_workdir = ''/w/d'', j_created = 5\<rparr>"
  let ?b = "example_exec_broker\<lparr>b_jobs := [(''6162'', ?j)]\<rparr>"
  have l: "submit_locked example_exec_env ''6162'' (m_Command example_submit) ''/w/d'' (es_b ?s) = (no_reply\<lparr>r_Job := ''6162''\<rparr>, ?b)"
    by (simp add: submit_locked_def example_exec_state_def exec_examples example_exec_env_def example_submit_def expire_def maxJobs_def Let_def)
  define s1 where "s1 = ?s\<lparr>es_b := ?b, es_clock := 5, es_submitted := [(''6162'', ?j)]\<rparr>"
  have 1: "exec_step example_fs ?s s1"
    using exec_step.submit[of example_exec_env example_fs ?s example_submit "''6162''" "''/w/d''", OF _ _ _ _ l] example_submitted
    by (simp add: s1_def example_exec_state_def example_exec_env_def example_submit_def no_reply_def)
  define s2 where "s2 = s1\<lparr>es_b := ?b\<lparr>b_workers := 1\<rparr>, es_slots := [''6162'']\<rparr>"
  have 2: "exec_step example_fs s1 s2"
    using exec_step.slot[of s1 example_fs "''6162''"] by (simp add: s1_def s2_def example_exec_state_def exec_examples maxWorkers_def)
  have tk: "dispatch_take (es_clock s2) ''6162'' (es_b s2) = (Some ?j, ?b\<lparr>b_workers := 1, b_jobs := []\<rparr>)"
    by (simp add: dispatch_take_def s1_def s2_def example_exec_state_def exec_examples jobTTL_def)
  define s3 where "s3 = s2\<lparr>es_b := ?b\<lparr>b_workers := 1, b_jobs := []\<rparr>, es_slots := [], es_running := [(''6162'', ?j)], es_ran := [(''6162'', ?j, 5)]\<rparr>"
  have 3: "exec_step example_fs s2 s3"
    using exec_step.take_job[OF _ tk, of example_fs] by (simp add: s1_def s2_def s3_def example_exec_state_def)
  have run: "(exec_step example_fs)\<^sup>*\<^sup>* ?s s3" using 1 2 3 by (meson rtranclp.rtrancl_refl rtranclp.rtrancl_into_rtrancl)
  have ran: "es_ran s3 = [(''6162'', ?j, 5)]" by (simp add: s3_def)
  have "exec_init ?s" "exec_fs_ok example_fs (b_cfg (es_b ?s))" using example_fs_ok
    by (simp_all add: exec_init_def example_exec_state_def exec_examples)
  from jobs_run_once[OF this run] have "count_list (map fst (es_ran s3)) ''6162'' \<le> count_list (map fst (es_submitted s3)) ''6162''"
    "length (es_running s3) \<le> maxWorkers" by blast+
  with run ran show ?thesis by (intro exI[of _ s3]) simp
qed

end
