(* ===== verification/Exec_Hook.thy ===== *)
theory Exec_Hook
  imports Exec_Broker
begin

text \<open>
  The hook of \<open>cmd/tc-exec/main.go\<close>: it hands a Bash command to the broker and replaces it by a
  command that asks for the job. The replacement is read by a shell, so \<open>shellQuote\<close> comes with the
  part of the shell's grammar it relies on: words, blanks, single quotes and the backslash.
\<close>

section \<open>Quoting\<close>

abbreviation squote :: char where "squote \<equiv> CHR 0x27"

definition quote_body :: "string \<Rightarrow> string" where
  "quote_body s = concat (map (\<lambda>c. if c = squote then [squote, backslash, squote, squote] else [c]) s)"

definition shellQuote :: "string \<Rightarrow> string" where
  "shellQuote s = [squote] @ quote_body s @ [squote]"

text \<open>Characters without a meaning to the shell; anything else, unquoted, is outside the fragment.\<close>

definition sh_plain :: "char \<Rightarrow> bool" where
  "sh_plain c \<longleftrightarrow> unreserved c \<or> c \<in> set ''/:=,@%+''"

definition sh_word :: "string option \<Rightarrow> string list" where
  "sh_word cur = (case cur of None \<Rightarrow> [] | Some w \<Rightarrow> [w])"

definition sh_add :: "string option \<Rightarrow> char \<Rightarrow> string option" where
  "sh_add cur c = Some ((case cur of None \<Rightarrow> [] | Some w \<Rightarrow> w) @ [c])"

text \<open>The words of a simple command; the first argument says whether a quote is open.\<close>

fun sh_scan :: "bool \<Rightarrow> string option \<Rightarrow> string \<Rightarrow> string list option" where
  "sh_scan True cur [] = None"
| "sh_scan True cur (c # s) = (if c = squote then sh_scan False cur s else sh_scan True (sh_add cur c) s)"
| "sh_scan False cur [] = Some (sh_word cur)"
| "sh_scan False cur (c # s) = (
     if c = squote then sh_scan True (case cur of None \<Rightarrow> Some [] | Some w \<Rightarrow> cur) s
     else if c = backslash then (case s of [] \<Rightarrow> None | d # r \<Rightarrow> if d = char_of (10 :: nat) then None else sh_scan False (sh_add cur d) r)
     else if c = CHR '' '' \<or> byte c = 9 then map_option ((@) (sh_word cur)) (sh_scan False None s)
     else if sh_plain c then sh_scan False (sh_add cur c) s
     else None)"

definition sh_words :: "string \<Rightarrow> string list option" where
  "sh_words s = sh_scan False None s"

lemma quote_body_scan: "sh_scan True (Some w) (quote_body s @ squote # t) = sh_scan False (Some (w @ s)) t"
proof (induction s arbitrary: w)
  case (Cons c s)
  have "squote \<noteq> char_of (10 :: nat)" by code_simp
  with Cons[of "w @ [c]"] show ?case by (cases "c = squote") (simp_all add: quote_body_def sh_add_def)
qed (simp add: quote_body_def)

lemma sh_scan_quoted: "sh_scan False None (shellQuote s @ t) = sh_scan False (Some s) t"
  using quote_body_scan[of "[]" s t] by (simp add: shellQuote_def)

lemma sh_scan_blank: "sh_scan False (Some w) (CHR '' '' # t) = map_option (Cons w) (sh_scan False None t)"
  by (cases "sh_scan False None t") (simp_all add: sh_word_def)

definition sh_safe :: "string \<Rightarrow> bool" where
  "sh_safe s \<longleftrightarrow> s \<noteq> [] \<and> list_all sh_plain s"

lemma sh_plain_not: "sh_plain c \<Longrightarrow> c \<noteq> squote \<and> c \<noteq> backslash \<and> c \<noteq> CHR '' '' \<and> byte c \<noteq> 9"
  by (auto simp: sh_plain_def unreserved_def)

lemma sh_scan_plain: "list_all sh_plain s \<Longrightarrow> sh_scan False (Some w) (s @ t) = sh_scan False (Some (w @ s)) t"
  by (induction s arbitrary: w) (auto simp: sh_plain_not sh_add_def)

lemma sh_scan_word: "sh_safe s \<Longrightarrow> sh_scan False None (s @ t) = sh_scan False (Some s) t"
  by (cases s) (auto simp: sh_safe_def sh_plain_not sh_add_def sh_scan_plain)

text \<open>A command line of safe words and quoted ones, a blank between them.\<close>

definition command_line :: "(string + string) list \<Rightarrow> string" where
  "command_line ws = joinc '' '' (map (\<lambda>w. case w of Inl s \<Rightarrow> s | Inr s \<Rightarrow> shellQuote s) ws)"

lemma command_line_words:
  assumes "\<forall>s. Inl s \<in> set ws \<longrightarrow> sh_safe s"
  shows "sh_words (command_line ws) = Some (map (\<lambda>w. case w of Inl s \<Rightarrow> s | Inr s \<Rightarrow> s) ws)"
  using assms
proof (induction ws rule: induct_list012)
  case 1
  then show ?case by (simp add: sh_words_def command_line_def sh_word_def)
next
  case (2 w)
  then show ?case using sh_scan_word[of "projl w" "[]"] sh_scan_quoted[of "projr w" "[]"]
    by (cases w) (auto simp: sh_words_def command_line_def sh_word_def)
next
  case (3 w v ws)
  let ?rest = "CHR '' '' # command_line (v # ws)"
  have "command_line (w # v # ws) = (case w of Inl s \<Rightarrow> s | Inr s \<Rightarrow> shellQuote s) @ ?rest" by (simp add: command_line_def)
  moreover have "sh_scan False None ((case w of Inl s \<Rightarrow> s | Inr s \<Rightarrow> shellQuote s) @ ?rest) = sh_scan False (Some (case w of Inl s \<Rightarrow> s | Inr s \<Rightarrow> s)) ?rest"
    using 3(3) sh_scan_word sh_scan_quoted by (cases w) auto
  ultimately show ?case using 3 sh_scan_blank by (simp add: sh_words_def del: sh_scan.simps)
qed

section \<open>The hook\<close>

record hook_input =
  hk_ToolName :: string
  hk_CWD :: string
  hk_ToolInput :: "json gomap"

definition as_raw_map :: "json gomap \<Rightarrow> json \<Rightarrow> json gomap option" where
  "as_raw_map old v = (case v of JObj ms \<Rightarrow> Some (fold (\<lambda>m. AList.update (fst m) (snd m)) ms old) | JNull \<Rightarrow> Some [] | _ \<Rightarrow> None)"

definition set_hook :: "string \<Rightarrow> json \<Rightarrow> hook_input \<Rightarrow> hook_input option" where
  "set_hook f v h = (
     if f = ''tool_name'' then map_option (\<lambda>s. h\<lparr>hk_ToolName := s\<rparr>) (as_string (hk_ToolName h) v)
     else if f = ''cwd'' then map_option (\<lambda>s. h\<lparr>hk_CWD := s\<rparr>) (as_string (hk_CWD h) v)
     else map_option (\<lambda>s. h\<lparr>hk_ToolInput := s\<rparr>) (as_raw_map (hk_ToolInput h) v))"

definition hook_input_of :: "json \<Rightarrow> hook_input option" where
  "hook_input_of v = fill_struct set_hook [''tool_name'', ''cwd'', ''tool_input''] v \<lparr>hk_ToolName = [], hk_CWD = [], hk_ToolInput = []\<rparr>"

definition hook_workdir :: "hook_input \<Rightarrow> string" where
  "hook_workdir h = (
     let wd = (case map_of (hk_ToolInput h) ''workdir'' of Some (JStr s) \<Rightarrow> s | _ \<Rightarrow> []);
         wd = (if wd = [] then hk_CWD h else wd)
     in if isAbs wd then wd else filepath_Join [hk_CWD h, wd])"

definition dispatchCommand :: "string \<Rightarrow> string \<Rightarrow> reply \<Rightarrow> string" where
  "dispatchCommand exe p r = (case r_Mailbox r of
      None \<Rightarrow> shellQuote exe @ '' dispatch --config '' @ shellQuote p @ '' --job '' @ shellQuote (r_Job r)
    | Some ref \<Rightarrow> shellQuote exe @ '' dispatch --mailbox '' @ shellQuote (json_print (ref_json ref)) @ '' --job '' @ shellQuote (r_Job r))"

text \<open>A Go map is written with its keys in order.\<close>

definition json_map :: "json gomap \<Rightarrow> json" where
  "json_map ms = JObj (sort_key fst ms)"

definition hook_output :: "json gomap \<Rightarrow> json" where
  "hook_output ms = JObj [(''hookSpecificOutput'', JObj [(''hookEventName'', JStr ''PreToolUse''), (''permissionDecision'', JStr ''allow''),
     (''updatedInput'', json_map ms)])]"

text \<open>What the hook reads: the message for the broker and the tool's input.\<close>

definition hook_message :: "bytes \<Rightarrow> (exec_error, message \<times> json gomap) result" where
  "hook_message stdin = (case Option.bind (json_decode (take (2 ^ 20) stdin)) (hook_input_of \<circ> fst) of
      None \<Rightarrow> Inl Exec_library
    | Some h \<Rightarrow>
        if hk_ToolName h \<noteq> ''Bash'' then Inl (Exec_error ''expected Bash'')
        else (case Option.bind (map_of (hk_ToolInput h) ''command'') (as_string []) of
           None \<Rightarrow> Inl (Exec_error ''Bash command missing'')
         | Some command \<Rightarrow> Inr (no_message\<lparr>m_Action := ''submit'', m_Command := command, m_Workdir := hook_workdir h\<rparr>, hk_ToolInput h)))"

text \<open>The path of the configuration is the flag; \<open>conn\<close> answers on a socket, \<open>exe\<close> is this executable.\<close>

definition hook :: "golib \<Rightarrow> fslib \<Rightarrow> (string \<Rightarrow> bytes \<Rightarrow> bytes option) \<Rightarrow> string option \<Rightarrow> string \<Rightarrow> bytes \<Rightarrow> (exec_error, json) result" where
  "hook G fs conn exe p stdin = ebind (exec_load G fs p) (\<lambda>c. ebind (hook_message stdin) (\<lambda>(m, input).
     case exec_call (conn (ec_Socket c)) m of
       None \<Rightarrow> Inl Exec_library
     | Some r \<Rightarrow>
         if r_Error r \<noteq> [] then Inl (Exec_error (r_Error r))
         else (case exe of
            None \<Rightarrow> Inl Exec_library
          | Some e \<Rightarrow> Inr (hook_output (AList.update ''command'' (JStr (dispatchCommand e p r)) input)))))"

section \<open>What the shell runs instead\<close>

lemma dispatchCommand_words:
  "sh_words (dispatchCommand e p r) = Some (case r_Mailbox r of
      None \<Rightarrow> [e, ''dispatch'', ''--config'', p, ''--job'', r_Job r]
    | Some ref \<Rightarrow> [e, ''dispatch'', ''--mailbox'', json_print (ref_json ref), ''--job'', r_Job r])"
proof -
  have safe: "sh_safe ''dispatch''" "sh_safe ''--config''" "sh_safe ''--job''" "sh_safe ''--mailbox''" by code_simp+
  show ?thesis
  proof (cases "r_Mailbox r")
    case None
    then have "dispatchCommand e p r = command_line [Inr e, Inl ''dispatch'', Inl ''--config'', Inr p, Inl ''--job'', Inr (r_Job r)]"
      by (simp add: dispatchCommand_def command_line_def)
    with None safe show ?thesis by (simp add: command_line_words)
  next
    case (Some ref)
    then have "dispatchCommand e p r = command_line [Inr e, Inl ''dispatch'', Inl ''--mailbox'', Inr (json_print (ref_json ref)), Inl ''--job'', Inr (r_Job r)]"
      by (simp add: dispatchCommand_def command_line_def)
    with Some safe show ?thesis by (simp add: command_line_words)
  qed
qed

lemma hex_ascii: "\<forall>c\<in>set (hex_encode bs). byte c < 0x80"
proof -
  have "byte (hexdigit n) < 0x80" if "n < 16" for n using that by (auto simp: hexdigit_def)
  moreover have "byte c div 16 < 16" "byte c mod 16 < 16" for c using less_mult_imp_div_less[of "byte c" 16 16] byte_lt[of c] by simp_all
  ultimately show ?thesis by (auto simp: hex_encode_def)
qed

lemma submit_json_length:
  assumes "m = no_message\<lparr>m_Action := ''submit'', m_Command := c, m_Workdir := w\<rparr>"
  shows "length (json_print (message_json m)) \<le> 6 * length c + 6 * length w + 60"
proof -
  let ?ms = "[(''action'', JStr ''submit'')] @ json_opt ''command'' (c \<noteq> []) (JStr c) @ json_opt ''workdir'' (w \<noteq> []) (JStr w)"
  let ?len = "\<lambda>m. length (json_member m) + 1"
  have k: "length (json_string ''action'') = 8" "length (json_string ''submit'') = 8" "length (json_string ''command'') = 9"
    "length (json_string ''workdir'') = 9" by code_simp+
  have j: "message_json m = JObj ?ms" by (simp add: assms message_json_def no_message_def json_opt_def)
  have "length (joinc '','' (map json_member ?ms)) \<le> sum_list (map ?len ?ms)"
    using joinc_length[of "map json_member ?ms"] by (simp add: comp_def)
  also have "\<dots> \<le> (8 + 1 + 8 + 1) + (9 + 1 + length (json_string c) + 1) + (9 + 1 + length (json_string w) + 1)"
    using k by (simp add: json_opt_def)
  finally show ?thesis using json_string_max[of c] json_string_max[of w] by (simp add: j)
qed

lemma submit_accepted:
  assumes "processJobContext E m b = (r, b')" "m_Action m = ''submit''" "r_Error r = []" "exec_fs_ok (ev_fs E) (b_cfg b)"
  obtains bs j where "r_Job r = hex_encode bs" "map_of (b_jobs b') (r_Job r) = Some j" "j_command j = m_Command m" "job_ok (b_cfg b) j"
    "length (r_Output r) = 0" "r_Status r = 0"
proof -
  obtain jid workdir where c: "submit_checks E b m = Inr (jid, workdir)" and l: "submit_locked E jid (m_Command m) workdir b = (r, b')"
    using assms(1,2,3) by (auto simp: processJobContext_def submit_checks_def no_reply_def split: sum.splits if_splits option.splits)
  obtain bs where jid: "jid = hex_encode bs" using c by (auto simp: submit_checks_def split: if_splits option.splits)
  let ?j = "\<lparr>j_command = m_Command m, j_workdir = workdir, j_created = ev_created E\<rparr>"
  have "job_ok (b_cfg b) ?j" using submit_checks_job[OF c] assms(4) by simp
  moreover have "r_Job r = jid" "r_Output r = []" "r_Status r = 0"
    using l assms(3) by (auto simp: submit_locked_def Let_def no_reply_def split: if_splits option.splits)
  moreover have "map_of (b_jobs b') jid = Some ?j" using l
    by (cases rule: submit_locked_cases) (use assms(3) in \<open>simp_all add: update_conv'\<close>)
  ultimately show thesis using that[of bs ?j] jid by simp
qed

text \<open>
  C27: what the shell runs in place of a command asks for exactly that command. When the hook succeeds
  against a broker on its socket, the tool's input is changed in its command alone; the shell reads the
  new command as this executable's \<open>dispatch\<close> with one job's identifier; and the broker's table holds
  under that identifier the command the tool was given, to run inside the workspace.
\<close>

theorem hook_dispatches_the_command:
  assumes "hook G fs (\<lambda>socket d. Some (fst (handle E d b))) (Some e) p stdin = Inr out" and "hook_message stdin = Inr (m, input)"
    and "length (m_Command m) \<le> 2 ^ 16" and "length (m_Workdir m) \<le> 2 ^ 12" and "exec_fs_ok (ev_fs E) (b_cfg b)"
  shows "\<exists>command jid flag arg j input'. out = hook_output input'
    \<and> (\<forall>k. map_of input' k = (if k = ''command'' then Some (JStr command) else map_of input k))
    \<and> sh_words command = Some [e, ''dispatch'', flag, arg, ''--job'', jid]
    \<and> map_of (b_jobs (snd (processJobContext E (valid_message m) b))) jid = Some j
    \<and> j_command j = to_valid (m_Command m) \<and> job_ok (b_cfg b) j"
proof -
  from assms(2) obtain c w where m: "m = no_message\<lparr>m_Action := ''submit'', m_Command := c, m_Workdir := w\<rparr>"
    by (auto simp: hook_message_def split: option.splits if_splits)
  from assms(1,2) obtain r where call: "exec_call (\<lambda>d. Some (fst (handle E d b))) m = Some r" "r_Error r = []"
    and out: "out = hook_output (AList.update ''command'' (JStr (dispatchCommand e p r)) input)"
    by (auto simp: hook_def split: option.splits if_splits)
  obtain r0 b' where r0: "processJobContext E (valid_message m) b = (r0, b')" by fastforce
  have "length (json_print (message_json m)) < 2 ^ 20"
    using submit_json_length[OF m] assms(3,4) by (simp add: m no_message_def)
  note ch = call_handle[OF this r0]
  have act: "m_Action (valid_message m) = ''submit''" "m_Command (valid_message m) = to_valid (m_Command m)"
    by (simp_all add: valid_message_def m)
  have st: "status_ok r0" using r0 act(1)
    by (auto simp: processJobContext_def submit_checks_def submit_locked_def status_ok_def no_reply_def Let_def split: sum.splits if_splits option.splits)
  then have r: "r = valid_reply r0" using ch call(1) by simp
  have "r_Error r0 = []"
  proof (rule ccontr)
    assume "r_Error r0 \<noteq> []"
    then obtain x xs where "r_Error r0 = x # xs" by (cases "r_Error r0") auto
    then have "to_valid (r_Error r0) \<noteq> []"
      using to_valid_step[of x xs] by (cases "decode_rune (x # xs)") (auto simp: encode_rune_def)
    with call(2) r show False by (simp add: valid_reply_def)
  qed
  then obtain bs j where j: "r_Job r0 = hex_encode bs" "map_of (b_jobs b') (r_Job r0) = Some j" "j_command j = to_valid (m_Command m)" "job_ok (b_cfg b) j"
    using submit_accepted[OF r0 act(1)] assms(5) act(2) by metis
  have jid: "r_Job r = r_Job r0" using r j(1) hex_ascii[of bs] by (simp add: valid_reply_def)
  obtain flag arg where "sh_words (dispatchCommand e p r) = Some [e, ''dispatch'', flag, arg, ''--job'', r_Job r]"
    using dispatchCommand_words[of e p r] by (cases "r_Mailbox r") auto
  with out j r0 jid show ?thesis
    by (intro exI[of _ "dispatchCommand e p r"] exI[of _ "r_Job r"] exI[of _ flag] exI[of _ arg] exI[of _ j]
        exI[of _ "AList.update ''command'' (JStr (dispatchCommand e p r)) input"]) (simp add: update_conv')
qed

definition example_hook_json :: json where
  "example_hook_json = JObj [(''tool_name'', JStr ''Bash''), (''cwd'', JStr ''/w''), (''tool_input'', JObj [(''command'', JStr ''ls'')])]"

lemma example_hook_message:
  "hook_message (json_print example_hook_json) = Inr (no_message\<lparr>m_Action := ''submit'', m_Command := ''ls'', m_Workdir := ''/w''\<rparr>, [(''command'', JStr ''ls'')])"
proof -
  have "json_decode (json_print example_hook_json @ []) = Some (json_norm example_hook_json, [])"
    by (rule json_decode_print) (simp_all add: example_hook_json_def num_stop_def)
  moreover have "length (json_print example_hook_json) < 200" by code_simp
  moreover have "hook_input_of (json_norm example_hook_json) = Some \<lparr>hk_ToolName = ''Bash'', hk_CWD = ''/w'', hk_ToolInput = [(''command'', JStr ''ls'')]\<rparr>"
    by (simp add: example_hook_json_def hook_input_of_def fill_struct_def set_hook_def as_raw_map_def)
  ultimately show ?thesis by (simp add: hook_message_def hook_workdir_def isAbs_def hasPrefix_def)
qed

theorem hook_dispatches_the_command_witness:
  "\<exists>out command jid flag arg. hook example_hook_golib example_fs (\<lambda>socket d. Some (fst (handle example_exec_env d example_exec_broker)))
       (Some ''/opt/tc exec'') ''/p/c'' (json_print example_hook_json) = Inr out
     \<and> sh_words command = Some [''/opt/tc exec'', ''dispatch'', flag, arg, ''--job'', jid]"
proof -
  let ?m = "no_message\<lparr>m_Action := ''submit'', m_Command := ''ls'', m_Workdir := ''/w''\<rparr>"
  have vm: "valid_message ?m = ?m" by (simp add: valid_message_def no_message_def)
  have "within example_fs ''/w'' ''/w''" "canonical example_fs ''/w'' True = Some ''/w''" by code_simp+
  then obtain r b' where r: "processJobContext example_exec_env (valid_message ?m) example_exec_broker = (r, b')" "r_Error r = []" "status_ok r"
    unfolding vm by (simp add: processJobContext_def submit_checks_def submit_locked_def example_exec_env_def exec_examples no_message_def no_reply_def
        expire_def maxJobs_def Let_def status_ok_def)
  have "length (json_print (message_json ?m)) < 2 ^ 20" using submit_json_length[where m = ?m and c = "''ls''" and w = "''/w''"] by simp
  from call_handle[OF this r(1,3)] have "exec_call (\<lambda>d. Some (fst (handle example_exec_env d example_exec_broker))) ?m = Some (valid_reply r)" .
  moreover obtain c where "exec_load example_hook_golib example_fs ''/p/c'' = Inr c" using example_load by blast
  ultimately obtain out where out: "hook example_hook_golib example_fs (\<lambda>socket d. Some (fst (handle example_exec_env d example_exec_broker)))
       (Some ''/opt/tc exec'') ''/p/c'' (json_print example_hook_json) = Inr out"
    using r(2) by (simp add: hook_def example_hook_message valid_reply_def)
  have "exec_fs_ok (ev_fs example_exec_env) (b_cfg example_exec_broker)" using example_fs_ok by (simp add: example_exec_env_def exec_examples)
  from hook_dispatches_the_command[OF out example_hook_message _ _ this] out show ?thesis by (auto simp: no_message_def)
qed

end
