(* ===== verification/Exec_Profile.thy ===== *)
theory Exec_Profile
  imports Exec_Hook
begin

text \<open>
  Setting up a profile: \<open>publishProfile\<close> of \<open>cmd/tc-exec/profile.go\<close>, which adds complete private files
  to a directory and never touches one that is there. Every system call is a step of its own that
  can fail, and between any two of them other processes may change the directory; all that is
  asked of them is to leave alone the one temporary file, of a random name, this run has open.
\<close>

section \<open>The steps of publishing\<close>

record profile_file =
  pf_stat :: stat_t
  pf_data :: bytes

type_synonym profile_dir = "string \<Rightarrow> profile_file option"

record publish_world =
  pw_fs :: fslib
  pw_euid :: nat
  pw_opendir :: "string \<Rightarrow> stat_t option"
  pw_flock :: bool

definition profile_name_ok :: "string \<Rightarrow> bool" where
  "profile_name_ok name \<longleftrightarrow> name \<noteq> ''.'' \<and> name \<noteq> ''..'' \<and> filepath_Base name = name"

text \<open>
  Where the function is: looking at the names that are left with the missing ones so far, at the
  loop over the missing names, writing or renaming a temporary file for a name, removing it after
  an error, or back with whether all went well.
\<close>

datatype publish_pc =
    Looking "string list" "string list"
  | Adding "string list"
  | Writing string string "string list"
  | Renaming string string "string list"
  | Removing string
  | Returned bool

definition publish_start :: "publish_world \<Rightarrow> string \<Rightarrow> bytes gomap \<Rightarrow> publish_pc" where
  "publish_start W path files = (
     if openDir (pw_fs W) (pw_euid W) (pw_opendir W) path = None \<or> \<not> pw_flock W then Returned False
     else if \<not> list_all profile_name_ok (map fst files) then Returned False
     else Looking (sort (map fst files)) [])"

text \<open>A file that is there is taken when it is no link, private, and its first 1 MiB and one byte are the contents.\<close>

definition same_file :: "publish_world \<Rightarrow> bytes gomap \<Rightarrow> string \<Rightarrow> profile_file \<Rightarrow> bool" where
  "same_file W files name f \<longleftrightarrow> st_kind (pf_stat f) \<noteq> S_IFLNK \<and> privateFD (pw_euid W) (Some (pf_stat f)) S_IFREG \<noteq> None
     \<and> map_of files name = Some (take (2 ^ 20 + 1) (pf_data f))"

definition private_file :: "publish_world \<Rightarrow> bytes \<Rightarrow> profile_file" where
  "private_file W data = \<lparr>pf_stat = \<lparr>st_kind = S_IFREG, st_Perm = 0x180, st_Uid = pw_euid W, st_Dev = 0, st_Ino = 0\<rparr>, pf_data = data\<rparr>"

definition contents_of :: "bytes gomap \<Rightarrow> string \<Rightarrow> bytes" where
  "contents_of files name = (case map_of files name of None \<Rightarrow> [] | Some d \<Rightarrow> d)"

definition temporary_name :: "bytes \<Rightarrow> string" where
  "temporary_name nonce = ''.tc-setup-'' @ hex_encode nonce"

text \<open>
  One step of the function: what it does to the directory and where it is then. \<open>O_EXCL\<close> makes
  the temporary file only if nothing has its name, and \<open>RENAME_NOREPLACE\<close> moves it only if
  nothing has the new one; every call may also fail for another reason, the write after any number
  of bytes, and the error of the last \<open>Unlinkat\<close> is ignored.
\<close>

inductive publish_step :: "publish_world \<Rightarrow> bytes gomap \<Rightarrow> publish_pc \<times> profile_dir \<Rightarrow> publish_pc \<times> profile_dir \<Rightarrow> bool" for W files where
  look_missing: "dir name = None \<Longrightarrow> publish_step W files (Looking (name # names) missing, dir) (Looking names (missing @ [name]), dir)"
| look_same: "dir name = Some f \<Longrightarrow> same_file W files name f \<Longrightarrow> publish_step W files (Looking (name # names) missing, dir) (Looking names missing, dir)"
| look_fails: "publish_step W files (Looking (name # names) missing, dir) (Returned False, dir)"
| look_end: "publish_step W files (Looking [] missing, dir) (Adding missing, dir)"
| create: "length nonce = 24 \<Longrightarrow> temporary = temporary_name nonce \<Longrightarrow> dir temporary = None \<Longrightarrow>
    publish_step W files (Adding (name # names), dir) (Writing temporary name names, dir(temporary \<mapsto> private_file W []))"
| create_fails: "publish_step W files (Adding (name # names), dir) (Returned False, dir)"
| written: "publish_step W files (Writing temporary name names, dir)
    (Renaming temporary name names, dir(temporary \<mapsto> private_file W (contents_of files name)))"
| write_fails: "publish_step W files (Writing temporary name names, dir)
    (Removing temporary, dir(temporary \<mapsto> private_file W (take n (contents_of files name))))"
| rename: "dir name = None \<Longrightarrow> publish_step W files (Renaming temporary name names, dir)
    (Adding names, dir(temporary := None, name := dir temporary))"
| rename_fails: "publish_step W files (Renaming temporary name names, dir) (Removing temporary, dir)"
| remove: "publish_step W files (Removing temporary, dir) (Returned False, dir(temporary := None))"
| remove_fails: "publish_step W files (Removing temporary, dir) (Returned False, dir)"
| add_end: "publish_step W files (Adding [], dir) (Returned True, dir)"

section \<open>Interference\<close>

fun temporary_of :: "publish_pc \<Rightarrow> string set" where
  "temporary_of (Writing temporary name names) = {temporary}"
| "temporary_of (Renaming temporary name names) = {temporary}"
| "temporary_of (Removing temporary) = {temporary}"
| "temporary_of _ = {}"

text \<open>A step of the function or of the other processes; \<open>others\<close> says what those may do to the directory.\<close>

inductive publish_move :: "publish_world \<Rightarrow> bytes gomap \<Rightarrow> (profile_dir \<Rightarrow> profile_dir \<Rightarrow> bool)
    \<Rightarrow> publish_pc \<times> profile_dir \<Rightarrow> publish_pc \<times> profile_dir \<Rightarrow> bool" for W files others where
  own: "publish_step W files s s' \<Longrightarrow> publish_move W files others s s'"
| other: "others dir dir' \<Longrightarrow> \<forall>t\<in>temporary_of pc. dir' t = dir t \<Longrightarrow> publish_move W files others (pc, dir) (pc, dir')"

section \<open>Invariants\<close>

text \<open>The names still to be dealt with.\<close>

fun names_left :: "publish_pc \<Rightarrow> string set" where
  "names_left (Looking names missing) = set names \<union> set missing"
| "names_left (Adding names) = set names"
| "names_left (Writing temporary name names) = insert name (set names)"
| "names_left (Renaming temporary name names) = insert name (set names)"
| "names_left (Removing temporary) = UNIV"
| "names_left (Returned ok) = (if ok then {} else UNIV)"

definition publish_inv :: "publish_world \<Rightarrow> bytes gomap \<Rightarrow> publish_pc \<times> profile_dir \<Rightarrow> bool" where
  "publish_inv W files s \<longleftrightarrow> (case fst s of
      Looking names missing \<Rightarrow> set names \<union> set missing \<subseteq> fst ` set files
    | Adding names \<Rightarrow> set names \<subseteq> fst ` set files
    | Writing temporary name names \<Rightarrow> insert name (set names) \<subseteq> fst ` set files
    | Renaming temporary name names \<Rightarrow> insert name (set names) \<subseteq> fst ` set files \<and> snd s temporary = Some (private_file W (contents_of files name))
    | _ \<Rightarrow> True)"

lemma publish_inv_step: "publish_step W files s s' \<Longrightarrow> publish_inv W files s \<Longrightarrow> publish_inv W files s'"
  by (induction rule: publish_step.induct) (auto simp: publish_inv_def)

lemma publish_inv_move: "publish_move W files others s s' \<Longrightarrow> publish_inv W files s \<Longrightarrow> publish_inv W files s'"
proof (induction rule: publish_move.induct)
  case (own s s')
  then show ?case by (rule publish_inv_step)
next
  case (other dir dir' pc)
  then show ?case by (cases pc) (simp_all add: publish_inv_def)
qed

lemma publish_inv_run:
  assumes "(publish_move W files others)\<^sup>*\<^sup>* (publish_start W path files, dir) s"
  shows "publish_inv W files s"
  using assms
proof (induction rule: rtranclp_induct)
  case base
  then show ?case by (auto simp: publish_inv_def publish_start_def)
next
  case (step s s')
  then show ?case using publish_inv_move by blast
qed

text \<open>A name that has been dealt with: its file is there, private and with its contents.\<close>

definition published :: "publish_world \<Rightarrow> bytes gomap \<Rightarrow> profile_dir \<Rightarrow> string \<Rightarrow> bool" where
  "published W files dir name \<longleftrightarrow> (\<exists>f. dir name = Some f \<and> privateFD (pw_euid W) (Some (pf_stat f)) S_IFREG \<noteq> None
     \<and> (map_of files name = Some (pf_data f) \<or> map_of files name = Some (take (2 ^ 20 + 1) (pf_data f))))"

definition done_inv :: "publish_world \<Rightarrow> bytes gomap \<Rightarrow> publish_pc \<times> profile_dir \<Rightarrow> bool" where
  "done_inv W files s \<longleftrightarrow> (\<forall>name\<in>fst ` set files. name \<notin> names_left (fst s) \<longrightarrow>
     name \<notin> temporary_of (fst s) \<and> published W files (snd s) name)"

lemma published_private:
  "name \<in> fst ` set files \<Longrightarrow> dir name = Some (private_file W (contents_of files name)) \<Longrightarrow> published W files dir name"
  by (cases "map_of files name") (auto simp: published_def contents_of_def private_file_def privateFD_def map_of_eq_None_iff)

lemma done_inv_step:
  assumes "publish_step W files s s'" "publish_inv W files s" "done_inv W files s"
  shows "done_inv W files s'"
  using assms
proof (induction rule: publish_step.induct)
  case (look_same dir name f names missing)
  then have "published W files dir name" by (auto simp: published_def same_file_def)
  with look_same show ?case by (auto simp: done_inv_def)
next
  case (create nonce temporary dir name names)
  then have "published W files (dir(temporary \<mapsto> private_file W [])) m \<and> m \<noteq> temporary"
    if "m \<in> fst ` set files" "m \<notin> insert name (set names)" for m
    using that by (auto simp: done_inv_def published_def)
  then show ?case by (auto simp: done_inv_def)
next
  case (rename dir name temporary names)
  have n: "published W files (dir(temporary := None, name := dir temporary)) name"
    using rename(2) by (intro published_private) (auto simp: publish_inv_def)
  have "published W files (dir(temporary := None, name := dir temporary)) m" if "m \<in> fst ` set files" "m \<notin> set names" for m
  proof (cases "m = name")
    case True
    with n show ?thesis by simp
  next
    case False
    with that rename(3) have "m \<noteq> temporary" "published W files dir m" by (auto simp: done_inv_def)
    with False show ?thesis by (simp add: published_def)
  qed
  then show ?case by (simp add: done_inv_def)
qed (auto simp: done_inv_def published_def)

text \<open>Others that keep every file that is there.\<close>

definition keeps_files :: "(profile_dir \<Rightarrow> profile_dir \<Rightarrow> bool) \<Rightarrow> bool" where
  "keeps_files others \<longleftrightarrow> (\<forall>dir dir' n f. others dir dir' \<longrightarrow> dir n = Some f \<longrightarrow> dir' n = Some f)"

lemma done_inv_run:
  assumes "(publish_move W files others)\<^sup>*\<^sup>* (publish_start W path files, dir) s" "keeps_files others"
  shows "done_inv W files s"
  using assms(1)
proof (induction rule: rtranclp_induct)
  case base
  then show ?case by (auto simp: done_inv_def publish_start_def)
next
  case (step s s')
  from step.hyps(2) show ?case
  proof cases
    case own
    with step.IH publish_inv_run[OF step.hyps(1)] show ?thesis by (rule_tac done_inv_step)
  next
    case (other d d' pc)
    then have "published W files d name \<Longrightarrow> published W files d' name" for name
      using assms(2) unfolding keeps_files_def published_def by blast
    with other step.IH show ?thesis by (auto simp: done_inv_def)
  qed
qed

section \<open>What publishing does\<close>


definition example_publish :: publish_world where
  "example_publish = \<lparr>pw_fs = \<lparr>fs_Getwd = None, fs_EvalSymlinks = Some\<rparr>, pw_euid = 7,
     pw_opendir = (\<lambda>p. Some \<lparr>st_kind = S_IFDIR, st_Perm = 0x1C0, st_Uid = 7, st_Dev = 1, st_Ino = 2\<rparr>), pw_flock = True\<rparr>"


end
