(* ===== verification/Admin_API.thy ===== *)
theory Admin_API
  imports Access Audit_Log Plugin_Host Config_Validate Cert_Manager Go_URL Go_JSON_Object
begin

text \<open>
  \<open>internal/admin\<close>: the admin API an Operator manages the server with. Its state is the audit log with
  its database, the running config and the Plugin Host; each handler also writes the response. What
  happens around one request (who connects, the clock, which statements succeed, what random bytes
  and the library's messages are) is an \<open>admin_env\<close>.
\<close>

section \<open>Messages\<close>

text \<open>\<open>strconv.Quote\<close>; which runes beyond ASCII print is an argument.\<close>

definition hex_fixed :: "nat \<Rightarrow> nat \<Rightarrow> string" where
  "hex_fixed w n = map (\<lambda>i. hexdigit (n div 16 ^ (w - 1 - i) mod 16)) [0..<w]"

definition escapedRune :: "(nat \<Rightarrow> bool) \<Rightarrow> nat \<Rightarrow> string" where
  "escapedRune isPrint r = (
     if r = byte dquote \<or> r = byte backslash then [backslash, char_of r]
     else if (if r < 0x80 then 0x20 \<le> r \<and> r < 0x7F else isPrint r) then encode_rune r
     else if r = 7 then [backslash, CHR ''a''] else if r = 8 then [backslash, CHR ''b'']
     else if r = 12 then [backslash, CHR ''f''] else if r = 10 then [backslash, CHR ''n'']
     else if r = 13 then [backslash, CHR ''r''] else if r = 9 then [backslash, CHR ''t'']
     else if r = 11 then [backslash, CHR ''v'']
     else if r < 0x20 \<or> r = 0x7F then backslash # CHR ''x'' # hex_fixed 2 r
     else if r < 0x10000 then backslash # CHR ''u'' # hex_fixed 4 r
     else backslash # CHR ''U'' # hex_fixed 8 r)"

function quoted_runes :: "(nat \<Rightarrow> bool) \<Rightarrow> string \<Rightarrow> string" where
  "quoted_runes isPrint [] = []"
| "quoted_runes isPrint (c # s) = (let rw = decode_rune (c # s) in
     (if invalid_rune rw then backslash # CHR ''x'' # hex_fixed 2 (byte c) else escapedRune isPrint (fst rw))
     @ quoted_runes isPrint (drop (snd rw) (c # s)))"
  by pat_completeness auto
termination
proof (relation "measure (length \<circ> snd)", simp)
  fix isPrint :: "nat \<Rightarrow> bool" and c s rw
  assume "rw = decode_rune (c # s)"
  then show "((isPrint, drop (snd rw) (c # s)), isPrint, c # s) \<in> measure (length \<circ> snd)"
    using decode_rune_width[of "c # s"] by simp
qed

definition strconv_Quote :: "(nat \<Rightarrow> bool) \<Rightarrow> string \<Rightarrow> string" where
  "strconv_Quote isPrint s = dquote # quoted_runes isPrint s @ [dquote]"

text \<open>
  Times as \<open>json.Marshal\<close> writes them, in UTC to the millisecond: RFC 3339 without the zeros that end
  the fraction, and an error outside the years 0 to 9999.
\<close>

definition rfc3339_seconds :: "ms \<Rightarrow> string" where
  "rfc3339_seconds t = (
     let (y, mo, d) = civil (t div 86400000); r = t mod 86400000 in
     pad 4 y @ ''-'' @ pad 2 mo @ ''-'' @ pad 2 d @ ''T'' @ pad 2 (r div 3600000) @ '':''
     @ pad 2 (r div 60000 mod 60) @ '':'' @ pad 2 (r div 1000 mod 60))"

definition rfc3339_fraction :: "ms \<Rightarrow> string" where
  "rfc3339_fraction t = (if t mod 1000 = 0 then []
     else CHR ''.'' # rev (dropWhile (\<lambda>c. c = CHR ''0'') (rev (pad 3 (t mod 1000)))))"

definition year_of :: "ms \<Rightarrow> int" where
  "year_of t = fst (civil (t div 86400000))"

definition time_MarshalJSON :: "ms \<Rightarrow> json option" where
  "time_MarshalJSON t = (if 0 \<le> year_of t \<and> year_of t \<le> 9999
     then Some (JStr (rfc3339_seconds t @ rfc3339_fraction t @ ''Z'')) else None)"

section \<open>The API's types\<close>

definition StatusActive :: string where "StatusActive = ''active''"
definition StatusExpired :: string where "StatusExpired = ''expired''"
definition StatusRevoked :: string where "StatusRevoked = ''revoked''"

record api_token =
  api_ID :: string
  api_Policies :: "string list"
  api_CreatedAt :: ms
  api_ExpiresAt :: ms
  api_LastUsedAt :: "ms option"
  api_RevokedAt :: "ms option"
  api_Status :: string

definition toAPI :: "ns \<Rightarrow> AgentToken \<Rightarrow> api_token" where
  "toAPI now t = \<lparr>api_ID = at_ID t, api_Policies = at_Policies t, api_CreatedAt = at_CreatedAt t,
     api_ExpiresAt = at_ExpiresAt t, api_LastUsedAt = at_LastUsedAt t, api_RevokedAt = at_RevokedAt t,
     api_Status = (if at_RevokedAt t \<noteq> None then StatusRevoked
       else if \<not> now < at_ExpiresAt t * 1000000 then StatusExpired else StatusActive)\<rparr>"

definition time_pointer :: "ms option \<Rightarrow> json option" where
  "time_pointer t = (case t of None \<Rightarrow> Some JNull | Some t \<Rightarrow> time_MarshalJSON t)"

definition marshal_members :: "(string \<times> json option) list \<Rightarrow> (string \<times> json) list option" where
  "marshal_members ms = those (map (\<lambda>(k, v). map_option (Pair k) v) ms)"

definition token_members :: "api_token \<Rightarrow> (string \<times> json option) list" where
  "token_members t = [(''id'', Some (JStr (api_ID t))), (''policies'', Some (JArr (map JStr (api_Policies t)))),
     (''created_at'', time_MarshalJSON (api_CreatedAt t)), (''expires_at'', time_MarshalJSON (api_ExpiresAt t)),
     (''last_used_at'', time_pointer (api_LastUsedAt t)), (''revoked_at'', time_pointer (api_RevokedAt t)),
     (''status'', Some (JStr (api_Status t)))]"

definition token_json :: "api_token \<Rightarrow> json option" where
  "token_json t = map_option JObj (marshal_members (token_members t))"

definition issued_json :: "api_token \<Rightarrow> string \<Rightarrow> json option" where
  "issued_json t token = map_option JObj (marshal_members (token_members t @ [(''token'', Some (JStr token))]))"

record issue_request =
  iq_Policies :: "string list"
  iq_ExpiresAt :: ns

text \<open>
  \<open>Decode\<close> with \<open>DisallowUnknownFields\<close>: the first value of the body. \<open>parse_time\<close> reads the text of
  a time; a text written with escapes, which the library refuses, is read as what it stands for.
\<close>

definition issue_field :: "(string \<Rightarrow> ns option) \<Rightarrow> string \<Rightarrow> json \<Rightarrow> issue_request \<Rightarrow> issue_request option" where
  "issue_field parse_time f v q = (
     if f = ''policies'' then map_option (\<lambda>ps. q\<lparr>iq_Policies := ps\<rparr>) (as_strings (iq_Policies q) v)
     else (case v of
        JStr s \<Rightarrow> map_option (\<lambda>t. q\<lparr>iq_ExpiresAt := t\<rparr>) (parse_time s)
      | JNull \<Rightarrow> Some q
      | _ \<Rightarrow> None))"

definition issue_names_known :: "json \<Rightarrow> bool" where
  "issue_names_known v = (case v of JObj ms \<Rightarrow> list_all (\<lambda>m. field_for [''policies'', ''expires_at''] (fst m) \<noteq> None) ms | _ \<Rightarrow> True)"

definition maxRequestBody :: nat where "maxRequestBody = 2 ^ 20"

definition decode_issue :: "(string \<Rightarrow> ns option) \<Rightarrow> bytes \<Rightarrow> issue_request option" where
  "decode_issue parse_time body = (case json_decode (take maxRequestBody body) of
      None \<Rightarrow> None
    | Some (v, _) \<Rightarrow>
        if issue_names_known v
        then fill_struct (issue_field parse_time) [''policies'', ''expires_at''] v \<lparr>iq_Policies = [], iq_ExpiresAt = zero_time\<rparr>
        else None)"

section \<open>The server\<close>

record agent_address =
  aa_URL :: string
  aa_Socket :: string

record 's admin_env =
  ae_golib :: golib
  ae_files :: fileenv
  ae_oslib :: oslib
  ae_crypto :: crypto
  ae_agent :: agent_address
  ae_certificate :: "cert_status option"
  ae_remoteCertificate :: "cert_status option"
  ae_fips :: FIPS140
  ae_rpc :: "Client \<Rightarrow> 's rpc"
  ae_PID :: "nat \<Rightarrow> int"
  ae_states :: "string \<Rightarrow> 's"
  ae_peer :: "int option"
  ae_verifiedChains :: bool
  ae_credentialOK :: bool
  ae_statementOK :: bool
  ae_random :: "bytes \<times> bytes"
  ae_now :: ns
  ae_after :: ns
  ae_queries :: "DB option list \<times> DB option list \<times> DB option"
  ae_parse_time :: "string \<Rightarrow> ns option"
  ae_isPrint :: "nat \<Rightarrow> bool"
  ae_decodeError :: "bytes \<Rightarrow> string"
  ae_configText :: "config_error \<Rightarrow> string"
  ae_hostText :: "host_error \<Rightarrow> string"
  ae_detailText :: "detail \<Rightarrow> string"
  ae_keyText :: "key_detail \<Rightarrow> string"
  ae_storeText :: "audit_error option \<Rightarrow> string"
  ae_certText :: "m_detail \<Rightarrow> string"
  ae_renewalText :: "cert_error \<Rightarrow> string"
  ae_mux :: "http_request \<Rightarrow> ResponseWriter \<Rightarrow> ResponseWriter"

record admin_state =
  ad_w :: ResponseWriter
  ad_log :: Log
  ad_running :: Running
  ad_plugins :: Host

definition answer :: "(ResponseWriter \<Rightarrow> ResponseWriter) \<Rightarrow> admin_state \<Rightarrow> admin_state" where
  "answer f s = s\<lparr>ad_w := f (ad_w s)\<rparr>"

text \<open>\<open>writeJSON\<close>: a value that does not marshal leaves the head without a body.\<close>

definition writeJSON :: "int \<Rightarrow> json option \<Rightarrow> ResponseWriter \<Rightarrow> ResponseWriter" where
  "writeJSON status v w = (
     let w' = WriteHeader status (set_header ''Content-Type'' ''application/json'' w) in
     case v of None \<Rightarrow> w' | Some j \<Rightarrow> write_body (json_print j @ [CHR 0x0A]) w')"

definition admin_error :: "int \<Rightarrow> string \<Rightarrow> admin_state \<Rightarrow> admin_state" where
  "admin_error status msg = answer (writeJSON status (Some (JObj [(''error'', JStr msg)])))"

definition internalError :: "admin_state \<Rightarrow> admin_state" where
  "internalError = admin_error 500 ''internal error''"

text \<open>The messages of \<open>access.ValidationError\<close> and \<open>access.NotFoundError\<close>.\<close>

definition validation_text :: "'s admin_env \<Rightarrow> ns \<Rightarrow> validation_error \<Rightarrow> string" where
  "validation_text E expiresAt e = (case e of
      ExpiryRequired \<Rightarrow> ''an expiry is required''
    | ExpiryNotInFuture \<Rightarrow> ''expiry '' @ rfc3339_seconds (expiresAt div 1000000) @ ''Z is not in the future''
    | PolicyRequired \<Rightarrow> ''at least one Policy is required''
    | UnknownPolicy name \<Rightarrow> ''unknown Policy '' @ strconv_Quote (ae_isPrint E) name)"

definition requestFailed :: "'s admin_env \<Rightarrow> ns \<Rightarrow> access_error \<Rightarrow> admin_state \<Rightarrow> admin_state" where
  "requestFailed E expiresAt e = (case e of
      ValidationError v \<Rightarrow> admin_error 400 (validation_text E expiresAt v)
    | NotFoundError ident \<Rightarrow> admin_error 404 (''no Agent Token with ID '' @ strconv_Quote (ae_isPrint E) ident)
    | _ \<Rightarrow> internalError)"

definition set_db :: "DB \<Rightarrow> admin_state \<Rightarrow> admin_state" where
  "set_db db s = s\<lparr>ad_log := (ad_log s)\<lparr>l_db := db\<rparr>\<rparr>"

section \<open>The handlers\<close>

definition listAgentTokens :: "'s admin_env \<Rightarrow> admin_state \<Rightarrow> admin_state" where
  "listAgentTokens E s = (case ListAgentTokens (ae_statementOK E) (l_db (ad_log s)) of
      Inl _ \<Rightarrow> internalError s
    | Inr tokens \<Rightarrow> answer (writeJSON 200 (map_option JArr (those (map (token_json \<circ> toAPI (ae_after E)) tokens)))) s)"

definition issueAgentToken :: "'s admin_env \<Rightarrow> http_request \<Rightarrow> admin_state \<Rightarrow> admin_state" where
  "issueAgentToken E r s = (case decode_issue (ae_parse_time E) (req_Body r) of
      None \<Rightarrow> admin_error 400 (''malformed request: '' @ ae_decodeError E (req_Body r)) s
    | Some q \<Rightarrow>
        (case IssueAgentToken (sha256 (ae_crypto E)) (Snapshot (ad_running s)) (ae_statementOK E) (fst (ae_random E)) (snd (ae_random E))
                (ae_now E) (iq_Policies q) (iq_ExpiresAt q) (l_db (ad_log s)) of
           (Inl e, db) \<Rightarrow> requestFailed E (iq_ExpiresAt q) e (set_db db s)
         | (Inr issued, db) \<Rightarrow>
             answer (writeJSON 201 (issued_json (toAPI (ae_after E) (iat_AgentToken issued)) (iat_Token issued))) (set_db db s)))"

definition revokeAgentToken :: "'s admin_env \<Rightarrow> string \<Rightarrow> admin_state \<Rightarrow> admin_state" where
  "revokeAgentToken E ident s = (case RevokeAgentToken (ae_statementOK E) (ae_now E) ident (l_db (ad_log s)) of
      (Inl e, db) \<Rightarrow> requestFailed E 0 e (set_db db s)
    | (Inr _, db) \<Rightarrow> answer (WriteHeader 204) (set_db db s))"

definition omit_if :: "bool \<Rightarrow> string \<Rightarrow> json \<Rightarrow> (string \<times> json) list" where
  "omit_if absent k v = (if absent then [] else [(k, v)])"

definition plugin_json :: "'s admin_env \<Rightarrow> Status \<Rightarrow> json" where
  "plugin_json E p = JObj ([(''name'', JStr (st_Name p)), (''state'', JStr (st_State p))]
     @ omit_if (st_PID p = 0) ''pid'' (JNum (decimal_int (st_PID p)))
     @ [(''healthy'', JBool (st_Healthy p)), (''detail'', JStr (ae_detailText E (st_Detail p))),
        (''capabilities'', JArr (map JStr (st_Capabilities p))), (''fips140'', JStr (st_FIPS140 p)),
        (''restarts'', JNum (decimal_int (st_Restarts p)))])"

text \<open>\<open>certificateStatus.Status\<close> of \<open>internal/server\<close>, as it is sent.\<close>

definition rfc3339_or_empty :: "ns \<Rightarrow> string" where
  "rfc3339_or_empty t = (if t = zeroTime then [] else rfc3339_seconds (t div 1000000) @ ''Z'')"

definition certificate_json :: "'s admin_env \<Rightarrow> cert_status \<Rightarrow> json" where
  "certificate_json E c = (
     let renewal = (case cs_RenewalError c of None \<Rightarrow> [] | Some e \<Rightarrow> ae_renewalText E e) in
     JObj ([(''loaded'', JBool (cs_Loaded c)), (''detail'', JStr (ae_certText E (cs_Detail c)))]
       @ omit_if (rfc3339_or_empty (cs_NotAfter c) = []) ''not_after'' (JStr (rfc3339_or_empty (cs_NotAfter c)))
       @ omit_if (rfc3339_or_empty (cs_RenewAt c) = []) ''renew_at'' (JStr (rfc3339_or_empty (cs_RenewAt c)))
       @ omit_if (renewal = []) ''renewal_error'' (JStr renewal)))"

definition status_handler :: "'s admin_env \<Rightarrow> admin_state \<Rightarrow> admin_state" where
  "status_handler E s = (
     let key = Log_KeyStatus (ad_log s); backlog = Log_Backlog (ad_log s) in
     answer (writeJSON 200 (Some (JObj (
       [(''fips140'', JObj [(''mode'', JStr (FIPS140_Mode (ae_fips E))), (''module'', JStr (fips_Version (ae_fips E)))]),
        (''backend_plugins'', JArr (map (plugin_json E) (Host_Status (ae_rpc E) (ae_PID E) (ae_states E) (ad_plugins s)))),
        (''audit_signing_key'', JObj [(''loaded'', JBool (fst key)), (''detail'', JStr (ae_keyText E (snd key)))]),
        (''audit_records'', JObj [(''pending'', JNum (decimal_int (int (fst backlog)))), (''detail'', JStr (ae_storeText E (snd backlog)))])]
       @ (case ae_certificate E of None \<Rightarrow> [] | Some c \<Rightarrow> [(''tls_certificate'', certificate_json E c)])
       @ (case ae_remoteCertificate E of None \<Rightarrow> [] | Some c \<Rightarrow> [(''remote_admin_tls_certificate'', certificate_json E c)]))))) s)"

text \<open>The messages of \<open>audit.Verify\<close>.\<close>

definition problem_text :: "Break \<Rightarrow> string" where
  "problem_text b = (let n = decimal_int (brk_Seq b) in case brk_Problem b of
      RecordMissing \<Rightarrow> ''record '' @ n @ '' is missing''
    | HashMismatch \<Rightarrow> ''record '' @ n @ '' does not match its hash''
    | NotChained \<Rightarrow> ''record '' @ n @ '' does not chain to the record before it''
    | SignatureInvalid \<Rightarrow> ''the signed checkpoint at record '' @ n @ '' does not verify with the audit signing key''
    | CheckpointMissing \<Rightarrow> ''the signed checkpoint at record '' @ n @ '' is missing''
    | CheckpointNotFollowing p \<Rightarrow> ''the signed checkpoint at record '' @ n @ '' does not follow the one at record '' @ decimal_int p
    | CheckpointMismatch \<Rightarrow> ''record '' @ n @ '' does not match its signed checkpoint''
    | MissingButCovered c \<Rightarrow> ''record '' @ n @ '' is missing; the signed checkpoint at record '' @ decimal_int c @ '' covers it''
    | NotAppended \<Rightarrow> ''record '' @ n @ '' was not appended by TrustedCourier''
    | NotTheRecord \<Rightarrow> ''record '' @ n @ '' is not the record TrustedCourier appended'')"

definition verification_json :: "Verification \<Rightarrow> json" where
  "verification_json v = JObj [(''intact'', JBool (v_Break v = None)), (''records'', JNum (decimal_int (v_Records v))),
     (''checkpoints'', JNum (decimal_int (v_Checkpoints v))),
     (''break'', case v_Break v of None \<Rightarrow> JNull
        | Some b \<Rightarrow> JObj [(''seq'', JNum (decimal_int (brk_Seq b))), (''problem'', JStr (problem_text b))])]"

definition verifyAudit :: "'s admin_env \<Rightarrow> admin_state \<Rightarrow> admin_state" where
  "verifyAudit E s = (case ae_queries E of (dbs, dbs', dbe) \<Rightarrow>
     (case Log_Verify (ae_crypto E) dbs dbs' dbe (ad_log s) of
        Inl ErrNoSigningKey \<Rightarrow>
          admin_error 503 ''the audit signing key is not loaded, so the signed checkpoints cannot be verified; tc status says why'' s
      | Inl _ \<Rightarrow> internalError s
      | Inr v \<Rightarrow> answer (writeJSON 200 (Some (verification_json v))) s))"

text \<open>
  \<open>secretNameEnv\<close>. A literal of an Injection Template that is not basic authentication is a nil
  pointer: the handler panics, \<open>None\<close>.
\<close>

definition listensOnUnspecified :: "golib \<Rightarrow> string \<Rightarrow> bool" where
  "listensOnUnspecified G agentURL = (case url_Parse G agentURL of
      None \<Rightarrow> False
    | Some u \<Rightarrow> (case netip_ParseAddr G (fst (splitHostPort (u_Host u))) of None \<Rightarrow> False | Some a \<Rightarrow> IsUnspecified a))"

definition AgentTokenPlaceholder :: string where "AgentTokenPlaceholder = ''<Agent Token>''"

definition basic_auth :: "SecretName \<Rightarrow> BasicAuthTemplate option" where
  "basic_auth sn = (case sn_InjectionTemplate sn of Some (BasicAuthT b) \<Rightarrow> Some b | _ \<Rightarrow> None)"

definition env_value :: "string \<Rightarrow> string \<Rightarrow> string \<Rightarrow> SecretName \<Rightarrow> EnvSource \<Rightarrow> string option" where
  "env_value agentURL name upstream sn src = (case src of
      EnvBaseURL \<Rightarrow> Some (agentURL @ ''/proxy/'' @ name @ ''/'' @ upstream)
    | EnvAgentToken \<Rightarrow> Some AgentTokenPlaceholder
    | EnvUsername \<Rightarrow> map_option ba_Username (basic_auth sn)
    | EnvPassword \<Rightarrow> map_option ba_Password (basic_auth sn))"

definition env_values :: "string \<Rightarrow> string \<Rightarrow> string \<Rightarrow> SecretName \<Rightarrow> (string \<times> string) list option" where
  "env_values agentURL name upstream sn = those (map (\<lambda>v. map_option (Pair (ev_Name v)) (env_value agentURL name upstream sn (ev_Source v))) (sn_Env sn))"

definition env_json :: "string \<Rightarrow> string \<Rightarrow> (string \<times> string) list \<Rightarrow> json" where
  "env_json name upstream vars = JObj [(''secret_name'', JStr name), (''upstream'', JStr upstream),
     (''env'', JArr (map (\<lambda>(n, v). JObj [(''name'', JStr n), (''value'', JStr v)]) vars))]"

definition base_url :: "agent_address \<Rightarrow> Config \<Rightarrow> string" where
  "base_url agent cfg = (if api_PublicURL (cfg_AgentAPI cfg) \<noteq> [] then api_PublicURL (cfg_AgentAPI cfg) else aa_URL agent)"

text \<open>The Upstream that is meant, or the status and message of the refusal.\<close>

definition choose_upstream :: "(string \<Rightarrow> string) \<Rightarrow> string \<Rightarrow> Upstream gomap \<Rightarrow> string \<Rightarrow> (int \<times> string, string) result" where
  "choose_upstream Q name ups upstream = (let names = sort (map fst ups) in
     if upstream = [] \<and> length names = 1 then Inr (hd names)
     else if upstream = [] then Inl (400, ''Secret Name '' @ Q name @ '' has several Upstreams; choose one with --upstream ('' @ joinc '', '' names @ '')'')
     else if map_of ups upstream = None then Inl (404, ''Secret Name '' @ Q name @ '' has no Upstream '' @ Q upstream @ ''; it has '' @ joinc '', '' names)
     else Inr upstream)"

definition env_refusal :: "golib \<Rightarrow> (string \<Rightarrow> string) \<Rightarrow> agent_address \<Rightarrow> Config \<Rightarrow> string \<Rightarrow> (int \<times> string, SecretName) result" where
  "env_refusal G Q agent cfg name = (case map_of (cfg_Secrets cfg) name of
      None \<Rightarrow> Inl (404, ''Secret Name '' @ Q name @ '' is not defined'')
    | Some sn \<Rightarrow>
        if sn_Upstreams sn = [] then Inl (400, ''Secret Name '' @ Q name @ '' has no upstreams, so no Agent can use it through Proxy Delivery'')
        else if aa_Socket agent \<noteq> [] then Inl (400, ''the Agent API is served on the unix socket '' @ aa_Socket agent @ '', which no base URL can name; tc env needs agent_api.listen'')
        else if aa_URL agent = [] then Inl (400, ''the Agent API is not served; set agent_api.listen'')
        else if listensOnUnspecified G (base_url agent cfg) then Inl (400, ''the Agent API listens on every interface ('' @ aa_URL agent @ ''); set agent_api.public_url to the URL Agents reach it at'')
        else Inr sn)"

definition secretNameEnv :: "'s admin_env \<Rightarrow> http_request \<Rightarrow> string \<Rightarrow> admin_state \<Rightarrow> admin_state option" where
  "secretNameEnv E r name s = (
     let cfg = Snapshot (ad_running s); Q = strconv_Quote (ae_isPrint E) in
     case env_refusal (ae_golib E) Q (ae_agent E) cfg name of
       Inl (status, msg) \<Rightarrow> Some (admin_error status msg s)
     | Inr sn \<Rightarrow>
         (case choose_upstream Q name (sn_Upstreams sn) (case query_values (req_RawQuery r) ''upstream'' of [] \<Rightarrow> [] | v # _ \<Rightarrow> v) of
            Inl (status, msg) \<Rightarrow> Some (admin_error status msg s)
          | Inr upstream \<Rightarrow>
              map_option (\<lambda>vars. answer (writeJSON 200 (Some (env_json name upstream vars))) s)
                (env_values (base_url (ae_agent E) cfg) name upstream sn)))"

definition startup_check :: "'s admin_env \<Rightarrow> Host \<Rightarrow> Config \<Rightarrow> (config_error, unit) result" where
  "startup_check E h cfg = (case CheckConfig (ae_oslib E) cfg h of Inl e \<Rightarrow> Inl (LibError (ae_hostText E e)) | Inr u \<Rightarrow> Inr u)"

definition reloadConfig :: "'s admin_env \<Rightarrow> admin_state \<Rightarrow> admin_state" where
  "reloadConfig E s = (case Reload (ae_golib E) (ae_files E) (startup_check E (ad_plugins s)) (ad_running s) of
      (Inl e, run) \<Rightarrow> admin_error 400 (''config not reloaded, the running config stays in effect: '' @ ae_configText E e) (s\<lparr>ad_running := run\<rparr>)
    | (Inr cfg, run) \<Rightarrow> answer (writeJSON 200 (Some (JObj [(''path'', JStr (cfg_Path cfg)),
         (''policies'', JNum (decimal_int (int (length (cfg_Policies cfg))))),
         (''secret_names'', JNum (decimal_int (int (length (cfg_Secrets cfg)))))]))) (s\<lparr>ad_running := run\<rparr>))"

section \<open>Routing\<close>

datatype admin_route =
    ListTokens
  | IssueToken
  | RevokeToken string
  | StatusRoute
  | VerifyRoute
  | EnvRoute string
  | ReloadRoute

text \<open>
  \<open>http.ServeMux\<close>: a path that is not clean is redirected; the segments of a clean one are matched
  unescaped, and a wildcard matches neither nothing nor a slash.
\<close>

definition clean_path :: "string \<Rightarrow> bool" where
  "clean_path p \<longleftrightarrow> hasPrefix p ''/'' \<and> (let np = filepath_Clean p in p = (if hasSuffix p ''/'' \<and> np \<noteq> ''/'' then np @ ''/'' else np))"

definition mux_segment :: "string \<Rightarrow> string" where
  "mux_segment raw = (case pathUnescape raw of None \<Rightarrow> raw | Some s \<Rightarrow> s)"

definition wildcard :: "string \<Rightarrow> bool" where
  "wildcard s \<longleftrightarrow> s \<noteq> [] \<and> s \<noteq> ''/''"

definition route_segments :: "string \<Rightarrow> string list \<Rightarrow> admin_route option" where
  "route_segments mthd segs = (
     let get = (mthd = ''GET'' \<or> mthd = ''HEAD'') in
     if segs = [''v1'', ''agent-tokens''] then (if get then Some ListTokens else if mthd = ''POST'' then Some IssueToken else None)
     else if segs = [''v1'', ''status''] then (if get then Some StatusRoute else None)
     else if segs = [''v1'', ''audit'', ''verify''] then (if mthd = ''POST'' then Some VerifyRoute else None)
     else if segs = [''v1'', ''config'', ''reload''] then (if mthd = ''POST'' then Some ReloadRoute else None)
     else (case segs of
        [a, b, c] \<Rightarrow> if a = ''v1'' \<and> b = ''agent-tokens'' \<and> wildcard c \<and> mthd = ''DELETE'' then Some (RevokeToken c) else None
      | [a, b, c, d] \<Rightarrow> if a = ''v1'' \<and> b = ''secret-names'' \<and> wildcard c \<and> d = ''env'' \<and> get then Some (EnvRoute c) else None
      | _ \<Rightarrow> None))"

definition admin_route_of :: "http_request \<Rightarrow> admin_route option" where
  "admin_route_of r = (if clean_path (req_EscapedPath r)
     then route_segments (req_Method r) (map mux_segment (splitc slash (drop 1 (req_EscapedPath r)))) else None)"

definition admin_mux :: "'s admin_env \<Rightarrow> http_request \<Rightarrow> admin_state \<Rightarrow> admin_state option" where
  "admin_mux E r s = (case admin_route_of r of
      None \<Rightarrow> Some (answer (ae_mux E r) s)
    | Some ListTokens \<Rightarrow> Some (listAgentTokens E s)
    | Some IssueToken \<Rightarrow> Some (issueAgentToken E r s)
    | Some (RevokeToken ident) \<Rightarrow> Some (revokeAgentToken E ident s)
    | Some StatusRoute \<Rightarrow> Some (status_handler E s)
    | Some VerifyRoute \<Rightarrow> Some (verifyAudit E s)
    | Some (EnvRoute name) \<Rightarrow> secretNameEnv E r name s
    | Some ReloadRoute \<Rightarrow> Some (reloadConfig E s))"

section \<open>Who is let in\<close>

type_synonym handler = "admin_state \<Rightarrow> admin_state option"

definition requireOperator :: "'s admin_env \<Rightarrow> http_request \<Rightarrow> handler \<Rightarrow> handler" where
  "requireOperator E r nxt s = (case cutPrefix (Header_Get (req_Header r) ''Authorization'') ''Bearer '' of (presented, ok) \<Rightarrow>
     if \<not> ok \<or> presented = [] then Some (admin_error 401 ''Operator Credential required'' s)
     else (case VerifyOperatorCredential (sha256 (ae_crypto E)) (ae_credentialOK E) (l_db (ad_log s)) presented of
        Inl _ \<Rightarrow> Some (internalError s)
      | Inr valid \<Rightarrow> if \<not> valid then Some (admin_error 401 ''invalid Operator Credential'' s) else nxt s))"

definition requirePeer :: "'s admin_env \<Rightarrow> handler \<Rightarrow> handler" where
  "requirePeer E nxt s = (case ae_peer E of
      None \<Rightarrow> Some (admin_error 403 ''admin socket: connecting user is not allowed'' s)
    | Some uid \<Rightarrow>
        if uid \<notin> set (admin_AllowedUIDs (cfg_Admin (Snapshot (ad_running s))))
        then Some (admin_error 403 ''admin socket: connecting user is not allowed'' s)
        else nxt s)"

definition requireClientCertificate :: "'s admin_env \<Rightarrow> handler \<Rightarrow> handler" where
  "requireClientCertificate E nxt s = (
     if \<not> ae_verifiedChains E then Some (admin_error 403 ''remote admin API: a client certificate is required'' s)
     else nxt s)"

datatype admin_listener = LocalSocket | RemoteTLS

definition admin_serve :: "admin_listener \<Rightarrow> 's admin_env \<Rightarrow> http_request \<Rightarrow> handler" where
  "admin_serve l E r = (case l of
      LocalSocket \<Rightarrow> requirePeer E (requireOperator E r (admin_mux E r))
    | RemoteTLS \<Rightarrow> requireClientCertificate E (requireOperator E r (admin_mux E r)))"

text \<open>\<open>Listen\<close>: the modes of the socket's directory and of the socket.\<close>

definition admin_modes :: "int \<Rightarrow> int list \<Rightarrow> 32 word \<times> 32 word" where
  "admin_modes own allowedUIDs = (if list_ex (\<lambda>uid. uid \<noteq> own) allowedUIDs then (0x1C9, 0x1B6) else (0x1C0, 0x180))"

section \<open>The client\<close>

datatype client_call =
    CallList
  | CallIssue bytes
  | CallRevoke string
  | CallStatus
  | CallVerify
  | CallReload
  | CallEnv string string

fun call_method :: "client_call \<Rightarrow> string" where
  "call_method CallList = ''GET''"
| "call_method (CallIssue body) = ''POST''"
| "call_method (CallRevoke ident) = ''DELETE''"
| "call_method CallStatus = ''GET''"
| "call_method CallVerify = ''POST''"
| "call_method CallReload = ''POST''"
| "call_method (CallEnv name upstream) = ''GET''"

fun call_target :: "client_call \<Rightarrow> string" where
  "call_target CallList = ''/v1/agent-tokens''"
| "call_target (CallIssue body) = ''/v1/agent-tokens''"
| "call_target (CallRevoke ident) = ''/v1/agent-tokens/'' @ url_PathEscape ident"
| "call_target CallStatus = ''/v1/status''"
| "call_target CallVerify = ''/v1/audit/verify''"
| "call_target CallReload = ''/v1/config/reload''"
| "call_target (CallEnv name upstream) = ''/v1/secret-names/'' @ url_PathEscape name @ ''/env''
     @ (if upstream \<noteq> [] then ''?'' @ Values_Encode [(''upstream'', upstream)] else [])"

fun call_body :: "client_call \<Rightarrow> bytes" where
  "call_body (CallIssue body) = body"
| "call_body _ = []"

text \<open>
  The request \<open>do\<close> sends, unless the URL does not parse. The credential is put in the header as it
  is: \<open>net/http\<close> would refuse one with control characters and the server trim spaces at its end, and
  the credentials the program makes have neither.
\<close>

definition client_request :: "string \<Rightarrow> client_call \<Rightarrow> http_request option" where
  "client_request credential call = map_option (\<lambda>(path, escaped, query).
     \<lparr>req_Method = call_method call, req_EscapedPath = escaped, req_RawQuery = query,
      req_Header = (let h = Header_Set [] ''Authorization'' (''Bearer '' @ credential)
        in case call of CallIssue _ \<Rightarrow> Header_Set h ''Content-Type'' ''application/json'' | _ \<Rightarrow> h),
      req_Body = call_body call, req_SecretName = [], req_Upstream = []\<rparr>) (parseRequestURI (call_target call))"

text \<open>What \<open>do\<close> makes of a response: the server's message, or the JSON value it sent if one is asked for.\<close>

definition error_field :: "string \<Rightarrow> json \<Rightarrow> string \<Rightarrow> string option" where
  "error_field f v old = as_string old v"

definition client_response :: "(int \<Rightarrow> string) \<Rightarrow> bool \<Rightarrow> int \<Rightarrow> bytes \<Rightarrow> (string, json option) result" where
  "client_response status_text wants status body = (
     if 300 \<le> status
     then (case Option.bind (json_decode body) (\<lambda>(v, _). fill_struct error_field [''error''] v []) of
        None \<Rightarrow> Inl (''admin API: '' @ status_text status)
      | Some msg \<Rightarrow> Inl (''admin API: '' @ (if msg = [] then status_text status else msg)))
     else if \<not> wants then Inr None
     else (case json_decode body of None \<Rightarrow> Inl ''admin API: decode response'' | Some (v, _) \<Rightarrow> Inr (Some v)))"

end
