(* ===== verification/Admin_Properties.thy ===== *)
theory Admin_Properties
  imports Admin_API Agent_Routes Config_Properties Proxy_Credential Plugin_Supervision Audit_Chain
begin

text \<open>
  What the admin API promises: only a caller that is let in and presents the Operator Credential
  changes anything or learns anything, the stored hashes of credentials are never part of a
  response, what the client asks for reaches the handler that was meant, a reload is all or nothing,
  and the environment an Agent is given names a route of the Agent API. And where it falls short: a
  token that expires after the year 9999 is issued without being shown and ends the listing.
\<close>

section \<open>Responses\<close>

lemma answer_fields [simp]:
  "ad_log (answer f s) = ad_log s" "ad_running (answer f s) = ad_running s" "ad_plugins (answer f s) = ad_plugins s"
  "ad_w (answer f s) = f (ad_w s)" "(answer f s)\<lparr>ad_w := w\<rparr> = s\<lparr>ad_w := w\<rparr>"
  by (simp_all add: answer_def)

lemma set_db_fields [simp]:
  "ad_w (set_db db s) = ad_w s" "ad_running (set_db db s) = ad_running s" "ad_plugins (set_db db s) = ad_plugins s"
  "ad_log (set_db db s) = (ad_log s)\<lparr>l_db := db\<rparr>"
  by (simp_all add: set_db_def)

lemma set_db_same [simp]: "set_db (l_db (ad_log s)) s = s"
  by (simp add: set_db_def)

lemma admin_error_answer: "admin_error status msg s = answer (writeJSON status (Some (JObj [(''error'', JStr msg)]))) s"
  by (simp add: admin_error_def)

lemma writeJSON_new:
  assumes "200 \<le> status"
  shows "rw_status (writeJSON status v new_writer) = Some status"
    and "rw_body (writeJSON status v new_writer) = (case v of None \<Rightarrow> [] | Some j \<Rightarrow> json_print j @ [CHR 0x0A])"
  using assms by (auto simp: writeJSON_def Let_def new_writer_def rw_status_def WriteHeader_def write_body_def set_header_def split: option.splits)

section \<open>Who is let in\<close>

definition operator_presented :: "'s admin_env \<Rightarrow> http_request \<Rightarrow> DB \<Rightarrow> bool" where
  "operator_presented E r db \<longleftrightarrow> (\<exists>c row rest. Header_Get (req_Header r) ''Authorization'' = ''Bearer '' @ c \<and> c \<noteq> []
     \<and> operator_credential db = row # rest \<and> op_hash row = sha256 (ae_crypto E) c)"

definition let_in :: "admin_listener \<Rightarrow> 's admin_env \<Rightarrow> http_request \<Rightarrow> admin_state \<Rightarrow> bool" where
  "let_in l E r s \<longleftrightarrow> operator_presented E r (l_db (ad_log s)) \<and> ae_credentialOK E \<and> (case l of
      LocalSocket \<Rightarrow> \<exists>uid. ae_peer E = Some uid \<and> uid \<in> set (admin_AllowedUIDs (cfg_Admin (Snapshot (ad_running s))))
    | RemoteTLS \<Rightarrow> ae_verifiedChains E)"

lemma cutPrefix_iff: "cutPrefix s p = (c, True) \<longleftrightarrow> s = p @ c"
  by (auto simp: cutPrefix_def hasPrefix_iff)

definition refusals :: "(int \<times> string) list" where
  "refusals = [(401, ''Operator Credential required''), (401, ''invalid Operator Credential''), (500, ''internal error''),
     (403, ''admin socket: connecting user is not allowed''), (403, ''remote admin API: a client certificate is required'')]"

lemma refusal_members:
  "(401, ''Operator Credential required'') \<in> set refusals" "(401, ''invalid Operator Credential'') \<in> set refusals"
  "(500, ''internal error'') \<in> set refusals" "(403, ''admin socket: connecting user is not allowed'') \<in> set refusals"
  "(403, ''remote admin API: a client certificate is required'') \<in> set refusals"
  unfolding refusals_def by simp_all

definition refused :: "(int \<times> string) \<Rightarrow> admin_state \<Rightarrow> admin_state option \<Rightarrow> bool" where
  "refused q s res \<longleftrightarrow> q \<in> set refusals \<and> res = Some (admin_error (fst q) (snd q) s)"

lemma refusedI: "(status, msg) \<in> set refusals \<Longrightarrow> \<exists>q. refused q s (Some (admin_error status msg s))"
  unfolding refused_def by (rule exI[of _ "(status, msg)"]) simp

lemma requireOperator_admits:
  "operator_presented E r (l_db (ad_log s)) \<Longrightarrow> ae_credentialOK E \<Longrightarrow> requireOperator E r nxt s = nxt s"
  by (auto simp: operator_presented_def requireOperator_def VerifyOperatorCredential_def cutPrefix_def hasPrefix_iff)

lemma requireOperator_refuses:
  assumes "\<not> (operator_presented E r (l_db (ad_log s)) \<and> ae_credentialOK E)"
  shows "\<exists>q. refused q s (requireOperator E r nxt s)"
proof -
  let ?db = "l_db (ad_log s)"
  obtain c ok where c: "cutPrefix (Header_Get (req_Header r) ''Authorization'') ''Bearer '' = (c, ok)" by (metis prod.exhaust)
  then have h: "ok \<Longrightarrow> Header_Get (req_Header r) ''Authorization'' = ''Bearer '' @ c"
    by (cases ok) (simp_all only: cutPrefix_iff simp_thms)
  consider "\<not> ok \<or> c = []" | "ok" "c \<noteq> []" "\<not> ae_credentialOK E" | "ok" "c \<noteq> []" "ae_credentialOK E" by blast
  then show ?thesis
  proof cases
    case 1
    then have "requireOperator E r nxt s = Some (admin_error 401 ''Operator Credential required'' s)" by (simp add: requireOperator_def c)
    then show ?thesis using refusedI[OF refusal_members(1)] by simp
  next
    case 2
    then have "requireOperator E r nxt s = Some (admin_error 500 ''internal error'' s)"
      by (simp add: requireOperator_def c VerifyOperatorCredential_def internalError_def)
    then show ?thesis using refusedI[OF refusal_members(3)] by simp
  next
    case 3
    have "operator_presented E r ?db" if "operator_credential ?db = row # rest" "op_hash row = sha256 (ae_crypto E) c" for row rest
      unfolding operator_presented_def using that h[OF 3(1)] 3(2)
      by (intro exI[of _ c] exI[of _ row] exI[of _ rest] conjI)
    then have "\<forall>row rest. operator_credential ?db = row # rest \<longrightarrow> op_hash row \<noteq> sha256 (ae_crypto E) c"
      using assms 3(3) by blast
    with 3 have "requireOperator E r nxt s = Some (admin_error 401 ''invalid Operator Credential'' s)"
      by (cases "operator_credential ?db") (simp_all add: requireOperator_def c VerifyOperatorCredential_def)
    then show ?thesis using refusedI[OF refusal_members(2)] by simp
  qed
qed

text \<open>Whoever is let in gets the handler, and everyone else an error and nothing happens.\<close>

lemma admin_serve_admits: "let_in l E r s \<Longrightarrow> admin_serve l E r s = admin_mux E r s"
  by (cases l) (auto simp: let_in_def admin_serve_def requirePeer_def requireClientCertificate_def requireOperator_admits)

lemma admin_serve_refuses:
  assumes "\<not> let_in l E r s"
  shows "\<exists>q. refused q s (admin_serve l E r s)"
proof -
  have op: "\<exists>q. refused q s (requireOperator E r nxt s)" if "\<not> (operator_presented E r (l_db (ad_log s)) \<and> ae_credentialOK E)" for nxt
    using requireOperator_refuses[OF that] .
  show ?thesis
  proof (cases l)
    case LocalSocket
    have "\<exists>q. refused q s (Some (admin_error 403 ''admin socket: connecting user is not allowed'' s))"
      by (rule refusedI[OF refusal_members(4)])
    with assms op LocalSocket show ?thesis
      by (cases "ae_peer E") (auto simp: let_in_def admin_serve_def requirePeer_def)
  next
    case RemoteTLS
    have "\<exists>q. refused q s (Some (admin_error 403 ''remote admin API: a client certificate is required'' s))"
      by (rule refusedI[OF refusal_members(5)])
    with assms op RemoteTLS show ?thesis
      by (auto simp: let_in_def admin_serve_def requireClientCertificate_def)
  qed
qed

text \<open>One request with a response of its own; a handler that panics leaves it empty.\<close>

type_synonym 's admin_call = "admin_listener \<times> 's admin_env \<times> http_request"

fun admin_request :: "'s admin_call \<Rightarrow> admin_state \<Rightarrow> admin_state" where
  "admin_request (l, E, r) s = (let s0 = s\<lparr>ad_w := new_writer\<rparr> in case admin_serve l E r s0 of None \<Rightarrow> s0 | Some s' \<Rightarrow> s')"

definition admin_run :: "'s admin_call list \<Rightarrow> admin_state \<Rightarrow> admin_state" where
  "admin_run qs s = foldl (\<lambda>s q. admin_request q s) s qs"

fun admitted :: "'s admin_call list \<Rightarrow> admin_state \<Rightarrow> 's admin_call list" where
  "admitted [] s = []"
| "admitted (q # qs) s = (case q of (l, E, r) \<Rightarrow>
     (if let_in l E r s then [q] else []) @ admitted qs (admin_request q s))"

definition server_part :: "admin_state \<Rightarrow> admin_state" where
  "server_part s = s\<lparr>ad_w := new_writer\<rparr>"

lemma let_in_server_part [simp]: "let_in l E r (s\<lparr>ad_w := w\<rparr>) = let_in l E r s"
  by (auto simp: let_in_def split: admin_listener.splits)

lemma admin_request_server_part: "server_part s = server_part s' \<Longrightarrow> admin_request q s = admin_request q s'"
  by (cases q) (simp add: server_part_def)

lemma admin_request_refused:
  assumes "\<not> let_in l E r s"
  obtains q where "q \<in> set refusals" "admin_request (l, E, r) s = admin_error (fst q) (snd q) (server_part s)"
proof -
  have "\<not> let_in l E r (server_part s)" using assms by (simp add: server_part_def)
  then obtain q where "refused q (server_part s) (admin_serve l E r (server_part s))" using admin_serve_refuses by blast
  then show thesis by (intro that[of q]) (simp_all add: refused_def server_part_def)
qed

lemma server_part_error [simp]: "server_part (admin_error status msg (server_part s)) = server_part s"
  by (simp add: admin_error_answer server_part_def)

lemma admin_run_server_part:
  assumes "server_part s = server_part s'"
  shows "server_part (admin_run qs s) = server_part (admin_run qs s')"
proof (cases qs)
  case (Cons q qs')
  with admin_request_server_part[OF assms, of q] show ?thesis by (simp add: admin_run_def)
qed (simp add: admin_run_def assms)

lemma admin_run_admitted: "server_part (admin_run qs s) = server_part (admin_run (admitted qs s) s)"
proof (induction qs arbitrary: s)
  case (Cons q qs)
  obtain l E r where q: "q = (l, E, r)" by (cases q)
  show ?case
  proof (cases "let_in l E r s")
    case True
    with Cons[of "admin_request q s"] show ?thesis by (simp add: q admin_run_def)
  next
    case False
    then obtain e where "admin_request q s = admin_error (fst e) (snd e) (server_part s)" unfolding q by (rule admin_request_refused)
    then have "server_part (admin_request q s) = server_part s" by simp
    from admin_run_server_part[OF this] Cons[of "admin_request q s"] False show ?thesis by (simp add: q admin_run_def)
  qed
qed (simp add: admin_run_def)

lemma admin_run_append: "admin_run (qs @ [q]) s = admin_request q (admin_run qs s)"
  by (simp add: admin_run_def)

section \<open>Hashes stay in the database\<close>

text \<open>The server with the hashes of the Agent Tokens forgotten.\<close>

definition blind :: "DB \<Rightarrow> DB" where
  "blind db = db\<lparr>agent_tokens := map (\<lambda>r. r\<lparr>tok_hash := []\<rparr>) (agent_tokens db)\<rparr>"

definition blind_state :: "admin_state \<Rightarrow> admin_state" where
  "blind_state s = set_db (blind (l_db (ad_log s))) s"

lemma sort_key_map: "sort_key k (map f xs) = map f (sort_key (k \<circ> f) xs)"
proof -
  have "insort_key k (f x) (map f ys) = map f (insort_key (k \<circ> f) x ys)" for x ys by (induction ys) auto
  then show ?thesis by (induction xs) (auto simp: sort_key_def)
qed

lemma emap_map: "emap g (map f xs) = emap (g \<circ> f) xs"
  by (induction xs) auto

lemma blind_List: "ListAgentTokens ok (blind db) = ListAgentTokens ok db"
proof -
  have "scanAgentToken (r\<lparr>tok_hash := []\<rparr>) = scanAgentToken r" for r by (simp add: scanAgentToken_def split: option.splits)
  then show ?thesis by (simp add: ListAgentTokens_def blind_def sort_key_map emap_map comp_def)
qed

lemma blind_Revoke:
  "fst (RevokeAgentToken ok now ident (blind db)) = fst (RevokeAgentToken ok now ident db)"
  "snd (RevokeAgentToken ok now ident (blind db)) = blind (snd (RevokeAgentToken ok now ident db))"
  by (auto simp: RevokeAgentToken_def blind_def Let_def list_ex_iff)

lemma blind_credential [simp]: "operator_credential (blind db) = operator_credential db"
  by (simp add: blind_def)

lemma Verify_other_db: "Log_Verify C dbs dbs' dbe (l\<lparr>l_db := db\<rparr>) = Log_Verify C dbs dbs' dbe l"
proof -
  have f: "l_seq (l\<lparr>l_db := db\<rparr>) = l_seq l" "l_head (l\<lparr>l_db := db\<rparr>) = l_head l" "l_cpSeq (l\<lparr>l_db := db\<rparr>) = l_cpSeq l" "l_key (l\<lparr>l_db := db\<rparr>) = l_key l"
    by simp_all
  have e: "verify_end (l\<lparr>l_db := db\<rparr>) = verify_end l" unfolding verify_end_def f ..
  show ?thesis unfolding Log_Verify_def e f ..
qed

lemma blind_state_fields [simp]:
  "ad_w (blind_state s) = ad_w s" "ad_running (blind_state s) = ad_running s" "ad_plugins (blind_state s) = ad_plugins s"
  "l_db (ad_log (blind_state s)) = blind (l_db (ad_log s))"
  "Log_KeyStatus (ad_log (blind_state s)) = Log_KeyStatus (ad_log s)" "Log_Backlog (ad_log (blind_state s)) = Log_Backlog (ad_log s)"
  "Log_Verify C dbs dbs' dbe (ad_log (blind_state s)) = Log_Verify C dbs dbs' dbe (ad_log s)"
  by (simp_all add: blind_state_def Log_KeyStatus_def Log_Backlog_def Verify_other_db)

lemma blind_answer: "answer f (blind_state s) = blind_state (answer f s)"
  by (simp add: answer_def blind_state_def set_db_def)

lemma blind_error: "admin_error status msg (blind_state s) = blind_state (admin_error status msg s)" "internalError (blind_state s) = blind_state (internalError s)"
  by (simp_all add: admin_error_answer internalError_def blind_answer)

lemma blind_set_db: "set_db (blind db) (blind_state s) = blind_state (set_db db s)"
  by (simp add: blind_state_def set_db_def)

lemma blind_failed: "requestFailed E t e (blind_state s) = blind_state (requestFailed E t e s)"
  by (cases e) (simp_all add: requestFailed_def blind_error)

lemmas blinds = blind_answer blind_error blind_set_db blind_failed

lemma blind_revokeAgentToken: "revokeAgentToken E ident (blind_state s) = blind_state (revokeAgentToken E ident s)"
proof -
  let ?R = "RevokeAgentToken (ae_statementOK E) (ae_now E) ident"
  have "?R (blind (l_db (ad_log s))) = (fst (?R (l_db (ad_log s))), blind (snd (?R (l_db (ad_log s)))))"
    by (simp add: prod_eq_iff blind_Revoke)
  then show ?thesis by (auto simp: revokeAgentToken_def blinds split: prod.splits sum.splits)
qed

lemma blind_reload: "reloadConfig E (blind_state s) = blind_state (reloadConfig E s)"
proof -
  have u: "(blind_state s)\<lparr>ad_running := run\<rparr> = blind_state (s\<lparr>ad_running := run\<rparr>)" for run by (simp add: blind_state_def set_db_def)
  obtain res run where R: "Reload (ae_golib E) (ae_files E) (startup_check E (ad_plugins s)) (ad_running s) = (res, run)" by (metis prod.exhaust)
  show ?thesis unfolding reloadConfig_def by (cases res) (simp_all add: R u blinds)
qed

lemma blind_env: "secretNameEnv E r name (blind_state s) = map_option blind_state (secretNameEnv E r name s)"
  unfolding secretNameEnv_def Let_def by (simp add: blinds option.map_comp comp_def split: sum.split prod.split)

lemma blind_verify: "verifyAudit E (blind_state s) = blind_state (verifyAudit E s)"
  unfolding verifyAudit_def by (simp add: blinds split: prod.split sum.split audit_error.split)

lemma blind_list: "listAgentTokens E (blind_state s) = blind_state (listAgentTokens E s)"
  unfolding listAgentTokens_def by (simp add: blind_List blinds split: sum.split)

lemma blind_status: "status_handler E (blind_state s) = blind_state (status_handler E s)"
  unfolding status_handler_def Let_def by (simp only: blind_state_fields blind_answer)

lemma blind_mux:
  assumes "admin_route_of r \<noteq> Some IssueToken"
  shows "admin_mux E r (blind_state s) = map_option blind_state (admin_mux E r s)"
proof (cases "admin_route_of r")
  case None
  then show ?thesis by (simp add: admin_mux_def blind_answer)
next
  case (Some route)
  then show ?thesis using assms unfolding admin_mux_def
    by (cases route) (simp_all only: Some option.case admin_route.case option.map simp_thms blind_reload blind_env blind_verify blind_list blind_status blind_revokeAgentToken)
qed

lemma blind_let_in: "let_in l E r (blind_state s) = let_in l E r s"
  by (auto simp: let_in_def operator_presented_def split: admin_listener.splits)

text \<open>
  C20: the values of Agent Tokens are never disclosed after they were issued. Forgetting the hashes,
  all that the server keeps of the values, before a request or after it gives the same server and the
  same response, whoever asks for whatever, except for a request that issues a token.
\<close>

theorem hashes_never_disclosed:
  assumes "admin_route_of r \<noteq> Some IssueToken"
  shows "admin_request (l, E, r) (blind_state s) = blind_state (admin_request (l, E, r) s)"
proof -
  have 0: "(blind_state s)\<lparr>ad_w := new_writer\<rparr> = blind_state (s\<lparr>ad_w := new_writer\<rparr>)" by (simp add: blind_state_def set_db_def)
  have "admin_serve l E r (blind_state t) = map_option blind_state (admin_serve l E r t)" for t
  proof (cases "let_in l E r t")
    case True
    then show ?thesis using blind_mux[OF assms] by (simp add: admin_serve_admits blind_let_in)
  next
    case False
    have op: "requireOperator E r nxt (blind_state t) = map_option blind_state (requireOperator E r nxt t)"
      if "\<And>t. nxt (blind_state t) = map_option blind_state (nxt t)" for nxt
      using that by (auto simp: requireOperator_def VerifyOperatorCredential_def blinds split: prod.splits list.splits)
    from op[of "admin_mux E r", OF blind_mux[OF assms]] show ?thesis
      by (cases l) (auto simp: admin_serve_def requirePeer_def requireClientCertificate_def blinds split: option.splits)
  qed
  then show ?thesis by (auto simp: 0 split: option.splits)
qed

section \<open>What the client asks for\<close>

definition uri_char :: "char \<Rightarrow> bool" where
  "uri_char c \<longleftrightarrow> 0x21 \<le> byte c \<and> byte c < 0x7F \<and> byte c \<noteq> 63"

lemma uri_chars: "list_all uri_char ''!$&()*+,;=:@[]%''" "list_all uri_char ''$&+,/:;=@''" "list_all uri_char ''-_.~''"
  by (simp_all add: uri_char_def)

lemma unreserved_uri_char: "unreserved c \<Longrightarrow> uri_char c"
  using uri_chars(3) unfolding unreserved_def list_all_iff by (auto simp: uri_char_def)

lemma validEncoded_char: "validEncoded s \<Longrightarrow> c \<in> set s \<Longrightarrow> uri_char c"
proof -
  assume "validEncoded s" "c \<in> set s"
  then consider "c \<in> set ''!$&()*+,;=:@[]%''" | "byte c = 39" | "unreserved c" | "c \<in> set ''$&+,/:;=@''"
    unfolding validEncoded_def list_all_iff path_safe_def by blast
  then show ?thesis
  proof cases
    case 1 then show ?thesis using uri_chars(1) unfolding list_all_iff by blast
  next
    case 2 then show ?thesis by (simp add: uri_char_def)
  next
    case 3 then show ?thesis by (rule unreserved_uri_char)
  next
    case 4 then show ?thesis using uri_chars(2) unfolding list_all_iff by blast
  qed
qed

lemma uri_char_noctl:
  "list_all uri_char s \<Longrightarrow> \<not> list_ex (\<lambda>c. byte c < 0x20 \<or> byte c = 0x7F) s" "list_all uri_char s \<Longrightarrow> CHR ''?'' \<notin> set s"
  by (force simp: list_all_iff list_ex_iff uri_char_def)+

lemma parseRequestURI_valid:
  assumes "validEncoded raw" "pathUnescape raw = Some path" "hasPrefix raw ''/''" "list_all uri_char q"
  shows "parseRequestURI (raw @ CHR ''?'' # q) = Some (path, raw, q)" and "parseRequestURI raw = Some (path, raw, [])"
proof -
  obtain r where r: "raw = slash # r" using assms(3) by (auto simp: hasPrefix_iff)
  then obtain d where d: "path = slash # d" using assms(2) by auto
  have esc: "escapedPath path (if raw = escape_with path_safe path then [] else raw) = raw"
    using assms(1,2) r d by (auto simp: escapedPath_def)
  have v: "list_all uri_char raw" using validEncoded_char[OF assms(1)] by (simp add: list_all_iff)
  note nc = uri_char_noctl(1)[OF v] and q = uri_char_noctl(2)[OF v]
  from nc uri_char_noctl(1)[OF assms(4)] show "parseRequestURI (raw @ CHR ''?'' # q) = Some (path, raw, q)"
    using cut_single[OF q, of q] assms(2) esc by (simp add: parseRequestURI_def)
  show "parseRequestURI raw = Some (path, raw, [])"
    using nc cut_no_sep[OF q] assms(2) esc by (simp add: parseRequestURI_def)
qed

lemma joinc_last: "cs \<noteq> [] \<Longrightarrow> \<exists>p. joinc sep cs = p @ last cs"
  by (induction cs rule: induct_list012) auto

lemma hasSuffix_single: "s \<noteq> [] \<Longrightarrow> hasSuffix s [c] \<longleftrightarrow> last s = c"
  by (metis append_butlast_last_id hasSuffix_def last_snoc suffix_def)

lemma clean_route:
  assumes "list_all plain_comp cs" "cs \<noteq> []"
  shows "clean_path (slash # joinc ''/'' cs)" "splitc slash (joinc ''/'' cs) = cs"
proof -
  obtain p where p: "joinc ''/'' cs = p @ last cs" using joinc_last[OF assms(2)] by blast
  have "plain_comp (last cs)" using assms last_in_set[OF assms(2)] by (simp add: list_all_iff)
  then have l: "last cs \<noteq> []" "last (last cs) \<noteq> slash" by (metis last_in_set plain_comp_def)+
  have "last (slash # joinc ''/'' cs) \<noteq> slash" unfolding p using l by simp
  then have "\<not> hasSuffix (slash # joinc ''/'' cs) ''/''" using hasSuffix_single[of "slash # joinc ''/'' cs" slash] by simp
  then show "clean_path (slash # joinc ''/'' cs)" using clean_abs_comps[OF assms(1)] by (simp add: clean_path_def hasPrefix_iff)
  show "splitc slash (joinc ''/'' cs) = cs" using assms by (rule splitc_slash)
qed

lemma Unescape_PathEscape: "pathUnescape (url_PathEscape s @ t) = map_option ((@) s) (pathUnescape t)"
  by (rule unescape_escape_with) simp

definition routable_name :: "string \<Rightarrow> bool" where
  "routable_name n \<longleftrightarrow> n \<noteq> [] \<and> n \<noteq> ''/'' \<and> n \<noteq> ''.'' \<and> n \<noteq> ''..''"

lemma PathEscape_plain:
  assumes "routable_name n"
  shows "plain_comp (url_PathEscape n)" "mux_segment (url_PathEscape n) = n" "wildcard n"
proof -
  have u: "pathUnescape (url_PathEscape n) = Some n" using Unescape_PathEscape[of n "[]"] by simp
  then have "url_PathEscape n \<noteq> x" if "pathUnescape x = Some x" "n \<noteq> x" for x using that by (metis option.inject)
  then show "plain_comp (url_PathEscape n)" using assms PathEscape_no_slash[of n] by (simp add: plain_comp_def routable_name_def)
  show "mux_segment (url_PathEscape n) = n" "wildcard n" using u assms by (simp_all add: mux_segment_def wildcard_def routable_name_def)
qed

fun call_route :: "client_call \<Rightarrow> admin_route" where
  "call_route CallList = ListTokens"
| "call_route (CallIssue body) = IssueToken"
| "call_route (CallRevoke ident) = RevokeToken ident"
| "call_route CallStatus = StatusRoute"
| "call_route CallVerify = VerifyRoute"
| "call_route CallReload = ReloadRoute"
| "call_route (CallEnv name upstream) = EnvRoute name"

fun call_names :: "client_call \<Rightarrow> string list" where
  "call_names (CallRevoke ident) = [ident]"
| "call_names (CallEnv name upstream) = [name]"
| "call_names _ = []"

fun call_path :: "client_call \<Rightarrow> string list" where
  "call_path CallList = [''v1'', ''agent-tokens'']"
| "call_path (CallIssue body) = [''v1'', ''agent-tokens'']"
| "call_path (CallRevoke ident) = [''v1'', ''agent-tokens'', url_PathEscape ident]"
| "call_path CallStatus = [''v1'', ''status'']"
| "call_path CallVerify = [''v1'', ''audit'', ''verify'']"
| "call_path CallReload = [''v1'', ''config'', ''reload'']"
| "call_path (CallEnv name upstream) = [''v1'', ''secret-names'', url_PathEscape name, ''env'']"

fun call_query :: "client_call \<Rightarrow> string" where
  "call_query (CallEnv name upstream) = (if upstream \<noteq> [] then Values_Encode [(''upstream'', upstream)] else [])"
| "call_query _ = []"

lemma plain_literals:
  "plain_comp ''v1''" "plain_comp ''agent-tokens''" "plain_comp ''status''" "plain_comp ''audit''" "plain_comp ''verify''"
  "plain_comp ''config''" "plain_comp ''reload''" "plain_comp ''secret-names''" "plain_comp ''env''"
  by (simp_all add: plain_comp_def)

lemma mux_literals:
  "mux_segment ''v1'' = ''v1''" "mux_segment ''agent-tokens'' = ''agent-tokens''" "mux_segment ''status'' = ''status''" "mux_segment ''audit'' = ''audit''"
  "mux_segment ''verify'' = ''verify''" "mux_segment ''config'' = ''config''" "mux_segment ''reload'' = ''reload''"
  "mux_segment ''secret-names'' = ''secret-names''" "mux_segment ''env'' = ''env''"
  by (simp_all add: mux_segment_def)

lemma call_path_plain: "\<forall>n\<in>set (call_names call). routable_name n \<Longrightarrow> list_all plain_comp (call_path call)"
  by (cases call) (simp_all add: plain_literals PathEscape_plain)

lemma call_path_route:
  "\<forall>n\<in>set (call_names call). routable_name n \<Longrightarrow> route_segments (call_method call) (map mux_segment (call_path call)) = Some (call_route call)"
  by (cases call) (simp_all add: PathEscape_plain route_segments_def mux_literals)

lemma call_target_path:
  "call_target call = slash # joinc ''/'' (call_path call) @ (if call_query call = [] then [] else CHR ''?'' # call_query call)"
  by (cases call) (simp_all add: Values_Encode_def)

lemma call_path_valid: "validEncoded (slash # joinc ''/'' (call_path call))" "\<exists>p. pathUnescape (slash # joinc ''/'' (call_path call)) = Some p"
proof -
  have "validEncoded ''/v1/agent-tokens/''" "validEncoded ''/v1/secret-names/''" "validEncoded ''/env''" by (simp_all add: validEncoded_def path_safe_def unreserved_def)
  then show "validEncoded (slash # joinc ''/'' (call_path call))"
    using PathEscape_valid validEncoded_append[of "''/v1/agent-tokens/''"] validEncoded_append[of "''/v1/secret-names/''"] validEncoded_append[of _ "''/env''"]
    by (cases call) (simp_all add: validEncoded_def path_safe_def unreserved_def)
  show "\<exists>p. pathUnescape (slash # joinc ''/'' (call_path call)) = Some p"
    using Unescape_PathEscape[of _ "[]"] Unescape_PathEscape[of _ "''/env''"] by (cases call) simp_all
qed

lemma call_query_chars: "list_all uri_char (call_query call)"
proof -
  have "uri_char c" if "c \<in> set (queryEscape u)" for c u
    using that queryEscape_chars[of u] unreserved_uri_char by (auto simp: uri_char_def)
  moreover have "uri_char (CHR ''='')" by (simp add: uri_char_def)
  ultimately show ?thesis by (cases call) (auto simp: Values_Encode_def list_all_iff)
qed

lemma call_query_values:
  assumes "u \<noteq> []"
  shows "query_values (Values_Encode [(''upstream'', u)]) ''upstream'' = [u]"
proof -
  have e: "queryEscape ''upstream'' = ''upstream''" by code_simp
  have "CHR ''&'' \<notin> set (''upstream='' @ queryEscape u)" "CHR '';'' \<notin> set (''upstream='' @ queryEscape u)" using queryEscape_no_sep[of u] by simp_all
  moreover have "cut (''upstream'' @ CHR ''='' # queryEscape u) ''='' = (''upstream'', queryEscape u, True)" by (rule cut_single) simp
  moreover have "queryUnescape ''upstream'' = Some ''upstream''" by code_simp
  ultimately show ?thesis
    using queryUnescape_queryEscape[of u] splitc_no_sep[of "CHR ''&''" "''upstream='' @ queryEscape u"]
    by (simp add: query_values_def ParseQuery_def Values_Encode_def e parse_pair_def map_filter_def)
qed

lemma sent_credential:
  "Header_Get (Header_Set [] ''Authorization'' v) ''Authorization'' = v"
  "Header_Get (Header_Set (Header_Set [] ''Authorization'' v) ''Content-Type'' t) ''Authorization'' = v"
proof -
  have "canonicalKey ''Authorization'' = ''Authorization''" "canonicalKey ''Content-Type'' = ''Content-Type''" by code_simp+
  then show "Header_Get (Header_Set [] ''Authorization'' v) ''Authorization'' = v"
    "Header_Get (Header_Set (Header_Set [] ''Authorization'' v) ''Content-Type'' t) ''Authorization'' = v"
    by (simp_all add: Header_Get_def Header_Set_def Header_Del_def Header_Values_def)
qed

lemma client_reads_error:
  assumes "300 \<le> status" "to_valid msg \<noteq> []"
  shows "client_response T wants status (json_print (JObj [(''error'', JStr msg)]) @ [CHR 0x0A]) = Inl (''admin API: '' @ to_valid msg)"
proof -
  have "to_valid ''error'' = ''error''" by (rule to_valid_valid) (simp add: validString_ascii)
  then have n: "json_norm (JObj [(''error'', JStr msg)]) = JObj [(''error'', JStr (to_valid msg))]" by simp
  have "json_decode (json_print (JObj [(''error'', JStr msg)]) @ [CHR 0x0A]) = Some (json_norm (JObj [(''error'', JStr msg)]), [CHR 0x0A])"
    by (rule json_decode_print) (simp_all add: num_stop_def isDigit_def)
  then have d: "json_decode (json_print (JObj [(''error'', JStr msg)]) @ [CHR 0x0A]) = Some (JObj [(''error'', JStr (to_valid msg))], [CHR 0x0A])"
    unfolding n .
  show ?thesis unfolding client_response_def d using assms by (simp add: fill_struct_def error_field_def)
qed

text \<open>
  C21: client and server mean the same. Whatever the client is asked to call, its request reaches the
  handler of that call, with the name, the Upstream, the body and the credential it was given; only
  the names of a token or Secret that are empty, a slash or dots go elsewhere. And whatever error the
  server answers with is what the client reports.
\<close>

theorem client_reaches_handler:
  assumes "\<forall>n\<in>set (call_names call). routable_name n"
  shows "\<exists>r. client_request credential call = Some r \<and> admin_route_of r = Some (call_route call)
     \<and> Header_Get (req_Header r) ''Authorization'' = ''Bearer '' @ credential \<and> req_Body r = call_body call
     \<and> (case call of CallEnv n u \<Rightarrow> query_values (req_RawQuery r) ''upstream'' = (if u = [] then [] else [u]) | _ \<Rightarrow> True)
     \<and> (\<forall>status msg. 300 \<le> status \<longrightarrow> to_valid msg \<noteq> [] \<longrightarrow>
          client_response T wants status (rw_body (writeJSON status (Some (JObj [(''error'', JStr msg)])) new_writer)) = Inl (''admin API: '' @ to_valid msg))"
proof -
  let ?raw = "slash # joinc ''/'' (call_path call)"
  obtain p where p: "pathUnescape ?raw = Some p" using call_path_valid(2) by blast
  have "parseRequestURI (call_target call) = Some (p, ?raw, call_query call)"
    using parseRequestURI_valid[OF call_path_valid(1) p _ call_query_chars] by (simp add: call_target_path hasPrefix_iff)
  then obtain r where r: "client_request credential call = Some r" "req_EscapedPath r = ?raw" "req_Method r = call_method call"
      "req_RawQuery r = call_query call" "req_Body r = call_body call" "Header_Get (req_Header r) ''Authorization'' = ''Bearer '' @ credential"
    by (simp add: client_request_def Let_def sent_credential split: client_call.splits)
  have "admin_route_of r = Some (call_route call)"
    using clean_route[OF call_path_plain[OF assms]] call_path_route[OF assms] r by (cases call) (simp_all add: admin_route_of_def)
  moreover have "case call of CallEnv n u \<Rightarrow> query_values (req_RawQuery r) ''upstream'' = (if u = [] then [] else [u]) | _ \<Rightarrow> True"
    using call_query_values r(4) by (cases call) auto
  ultimately show ?thesis using r(1,5,6) client_reads_error writeJSON_new(2) by auto
qed

theorem client_reaches_handler_witness:
  "\<exists>r. client_request ''tcoc_x'' (CallEnv ''a b'' ''u/v'') = Some r \<and> admin_route_of r = Some (EnvRoute ''a b'')
     \<and> query_values (req_RawQuery r) ''upstream'' = [''u/v'']"
proof -
  have "\<forall>n\<in>set (call_names (CallEnv ''a b'' ''u/v'')). routable_name n" by (simp add: routable_name_def)
  from client_reaches_handler[OF this, of "''tcoc_x''" "\<lambda>_. []" True] show ?thesis by auto
qed

section \<open>Tokens that expire after the year 9999\<close>

lemma those_None: "None \<in> set xs \<Longrightarrow> those xs = None"
  by (induction xs) (auto split: option.splits)

lemma token_json_far: "9999 < year_of (api_ExpiresAt t) \<Longrightarrow> token_json t = None \<and> issued_json t v = None"
  by (simp add: token_json_def issued_json_def marshal_members_def token_members_def time_MarshalJSON_def those_None)

lemma emap_Inr_ex: "emap f xs = Inr ys \<Longrightarrow> x \<in> set xs \<Longrightarrow> \<exists>y\<in>set ys. f x = Inr y"
  by (fastforce simp: emap_Inr_iff list_all2_conv_all_nth in_set_conv_nth)

lemma list_far:
  assumes "r \<in> set (agent_tokens db)" "9999 < year_of (tok_expires_at r)" "ListAgentTokens ok db = Inr tokens"
  shows "those (map (token_json \<circ> toAPI now) tokens) = None"
proof -
  let ?rows = "sort_key (\<lambda>r. (- tok_created_at r, tok_id r)) (agent_tokens db)"
  have "emap scanAgentToken ?rows = Inr tokens" using assms(3) unfolding ListAgentTokens_def by (cases ok) simp_all
  from emap_Inr_ex[OF this, of r] obtain t where t: "t \<in> set tokens" "scanAgentToken r = Inr t" using assms(1) by auto
  then have "at_ExpiresAt t = tok_expires_at r" by (auto simp: scanAgentToken_def split: option.splits)
  then have "token_json (toAPI now t) = None" using assms(2) token_json_far[of "toAPI now t"] by (simp add: toAPI_def)
  with t(1) have "None \<in> (token_json \<circ> toAPI now) ` set tokens" by (intro image_eqI[of _ _ t]) simp_all
  then show ?thesis by (intro those_None) simp
qed

text \<open>
  C23: a far expiry ends the listing. RFC 3339 admits a time of the year 9999 with an offset that makes
  it the year 10000 in UTC, and a time of that year is not written as JSON. A token issued with such
  an expiry is stored, but the response has status 201 and no body, so nobody has its value; and
  from then on, whatever tokens are issued, used or revoked, no listing of the tokens has a body.
\<close>

theorem far_expiry_ends_listing:
  assumes "decode_issue (ae_parse_time E) (req_Body r) = Some q"
    and "IssueAgentToken (sha256 (ae_crypto E)) (Snapshot (ad_running s)) (ae_statementOK E) (fst (ae_random E)) (snd (ae_random E))
           (ae_now E) (iq_Policies q) (iq_ExpiresAt q) (l_db (ad_log s)) = (Inr issued, db)"
    and "9999 < year_of (UnixMilli (iq_ExpiresAt q))" and "ad_w s = new_writer" and "access_inv (l_db (ad_log s))"
  shows "rw_status (ad_w (issueAgentToken E r s)) = Some 201 \<and> rw_body (ad_w (issueAgentToken E r s)) = []
     \<and> l_db (ad_log (issueAgentToken E r s)) = db
     \<and> (\<forall>ops F t. ad_w t = new_writer \<longrightarrow> l_db (ad_log t) = foldl (access_step (sha256 (ae_crypto E))) db ops \<longrightarrow>
          rw_status (ad_w (listAgentTokens F t)) = Some 500
          \<or> rw_status (ad_w (listAgentTokens F t)) = Some 200 \<and> rw_body (ad_w (listAgentTokens F t)) = [])"
proof -
  let ?sha = "sha256 (ae_crypto E)"
  have e: "at_ExpiresAt (iat_AgentToken issued) = UnixMilli (iq_ExpiresAt q)"
    using assms(2) by (auto simp: IssueAgentToken_def Let_def split: if_splits sum.splits)
  then have "issued_json (toAPI (ae_after E) (iat_AgentToken issued)) (iat_Token issued) = None"
    using assms(3) token_json_far by (simp add: toAPI_def)
  then have i: "issueAgentToken E r s = answer (writeJSON 201 None) (set_db db s)" by (simp add: issueAgentToken_def assms(1,2))
  have "rw_status (ad_w (listAgentTokens F t)) = Some 500
      \<or> rw_status (ad_w (listAgentTokens F t)) = Some 200 \<and> rw_body (ad_w (listAgentTokens F t)) = []"
    if t: "ad_w t = new_writer" "l_db (ad_log t) = foldl (access_step ?sha) db ops" for ops F t
  proof -
    obtain row where I: "db = (l_db (ad_log s))\<lparr>agent_tokens := agent_tokens (l_db (ad_log s)) @ [row]\<rparr>"
        "tok_expires_at row = at_ExpiresAt (iat_AgentToken issued)"
        "tok_id row \<notin> tok_id ` set (agent_tokens (l_db (ad_log s)))" "tok_hash row \<notin> tok_hash ` set (agent_tokens (l_db (ad_log s)))"
      using assms(2) by (rule Issue_InrD) blast
    then have row: "row \<in> set (agent_tokens db)" "tok_expires_at row = UnixMilli (iq_ExpiresAt q)" using e by simp_all
    have "access_inv db" using assms(5) I(1,3,4) by (simp add: access_inv_def)
    then have "access_le db (l_db (ad_log t))" unfolding t(2) by (rule tokens.le_run)
    then obtain row' where "row' \<in> set (agent_tokens (l_db (ad_log t)))" "row_le row row'" using row(1) by (auto simp: access_le_def)
    then have far: "row' \<in> set (agent_tokens (l_db (ad_log t)))" "9999 < year_of (tok_expires_at row')"
      using row(2) assms(3) by (simp_all add: row_le_def)
    show ?thesis
    proof (cases "ListAgentTokens (ae_statementOK F) (l_db (ad_log t))")
      case (Inl x)
      then show ?thesis using writeJSON_new(1)[of 500] t(1) by (simp add: listAgentTokens_def internalError_def admin_error_answer)
    next
      case (Inr tokens)
      from list_far[OF far this] show ?thesis using Inr writeJSON_new[of 200 None] t(1) by (simp add: listAgentTokens_def)
    qed
  qed
  then show ?thesis unfolding i using assms(4) writeJSON_new[of 201 None] by (intro conjI) (simp, simp, simp, blast)
qed

text \<open>The body \<open>IssueAgentToken\<close> of the client writes is the request the server reads.\<close>

definition issue_body :: "string list \<Rightarrow> string \<Rightarrow> bytes" where
  "issue_body policies t = json_print (JObj [(''policies'', JArr (map JStr policies)), (''expires_at'', JStr t)])"

lemma decode_issue_body:
  assumes "\<forall>p\<in>set policies. validString p" "validString t" "parse_time t = Some x" "length (issue_body policies t) \<le> maxRequestBody"
  shows "decode_issue parse_time (issue_body policies t) = Some \<lparr>iq_Policies = policies, iq_ExpiresAt = x\<rparr>"
proof -
  let ?j = "JObj [(''policies'', JArr (map JStr policies)), (''expires_at'', JStr t)]"
  have v: "to_valid ''policies'' = ''policies''" "to_valid ''expires_at'' = ''expires_at''" by (simp_all add: validString_ascii)
  have "map (json_norm \<circ> JStr) policies = map JStr policies" using assms(1) by simp
  then have n: "json_norm ?j = ?j" using v assms(2) by (simp add: comp_def)
  have "json_decode (json_print ?j @ []) = Some (json_norm ?j, [])"
    by (rule json_decode_print) (simp_all add: num_stop_def list_all_iff)
  then have d: "json_decode (take maxRequestBody (issue_body policies t)) = Some (?j, [])"
    using assms(4) by (simp only: take_all issue_body_def n append_Nil2)
  have "those (map (as_string []) (map JStr policies)) = Some policies" by (induction policies) simp_all
  then show ?thesis unfolding decode_issue_def d using assms(3)
    by (simp add: issue_names_known_def fill_struct_def issue_field_def as_strings_def comp_def)
qed

definition example_admin_env :: "unit admin_env" where
  "example_admin_env = \<lparr>ae_golib = example_golib, ae_files = \<lparr>fe_decode = (\<lambda>_. None), fe_dir = (\<lambda>p. p), fe_abs = Some\<rparr>, ae_oslib = example_os,
     ae_crypto = example_crypto, ae_agent = \<lparr>aa_URL = ''http://127.0.0.1:8200'', aa_Socket = []\<rparr>, ae_certificate = None, ae_remoteCertificate = None,
     ae_fips = \<lparr>fips_Enabled = False, fips_Only = False, fips_Version = []\<rparr>,
     ae_rpc = (\<lambda>_. sdk_rpc (\<lambda>s. s) \<lparr>fips_Enabled = False, fips_Only = False, fips_Version = []\<rparr> example_backend),
     ae_PID = int, ae_states = (\<lambda>_. ()), ae_peer = Some 0, ae_verifiedChains = False, ae_credentialOK = True, ae_statementOK = True,
     ae_random = (''i'', ''s''), ae_now = 1000000, ae_after = 2000000, ae_queries = ([], [], None),
     ae_parse_time = (\<lambda>t. if t = ''9999-12-31T23:59:59-01:00'' then Some (253402304399 * 1000000000) else None),
     ae_isPrint = (\<lambda>_. False), ae_decodeError = (\<lambda>_. []), ae_configText = (\<lambda>_. []), ae_hostText = (\<lambda>_. []), ae_detailText = (\<lambda>_. []),
     ae_keyText = (\<lambda>_. []), ae_storeText = (\<lambda>_. []), ae_certText = (\<lambda>_. []), ae_renewalText = (\<lambda>_. []), ae_mux = (\<lambda>_ w. w)\<rparr>"

definition example_admin :: admin_state where
  "example_admin = \<lparr>ad_w = new_writer, ad_log = Log_Open (empty_DB\<lparr>operator_credential := [\<lparr>op_hash = ''digest'', op_created_at = 1\<rparr>]\<rparr>),
     ad_running = NewRunning example_cfg, ad_plugins = []\<rparr>"

definition example_issue_request :: http_request where
  "example_issue_request = \<lparr>req_Method = ''POST'', req_EscapedPath = ''/v1/agent-tokens'', req_RawQuery = [],
     req_Header = Header_Set [] ''Authorization'' ''Bearer tcoc_x'', req_Body = issue_body [''ci''] ''9999-12-31T23:59:59-01:00'',
     req_SecretName = [], req_Upstream = []\<rparr>"

lemma example_decode:
  "decode_issue (ae_parse_time example_admin_env) (req_Body example_issue_request) = Some \<lparr>iq_Policies = [''ci''], iq_ExpiresAt = 253402304399 * 1000000000\<rparr>"
proof -
  have "length (issue_body [''ci''] ''9999-12-31T23:59:59-01:00'') = 60" by code_simp
  then have "length (issue_body [''ci''] ''9999-12-31T23:59:59-01:00'') \<le> maxRequestBody" by (simp add: maxRequestBody_def)
  then show ?thesis unfolding example_issue_request_def example_admin_env_def http_request.simps admin_env.simps
    by (intro decode_issue_body) (simp_all add: validString_ascii)
qed

lemma example_issues:
  "IssueAgentToken (sha256 (ae_crypto example_admin_env)) (Snapshot (ad_running example_admin)) True ''i'' ''s'' 1000000 [''ci''] (253402304399 * 1000000000)
      (l_db (ad_log example_admin)) =
     (Inr \<lparr>iat_AgentToken = \<lparr>at_ID = randomString ''i'', at_Policies = [''ci''], at_CreatedAt = 1, at_ExpiresAt = 253402304399000,
        at_LastUsedAt = None, at_RevokedAt = None\<rparr>, iat_Token = AgentTokenPrefix @ randomString ''s''\<rparr>,
      (l_db (ad_log example_admin))\<lparr>agent_tokens := [\<lparr>tok_id = randomString ''i'', tok_hash = ''digest'', tok_policies = json_strings [''ci''],
        tok_created_at = 1, tok_expires_at = 253402304399000, tok_last_used_at = None, tok_revoked_at = None\<rparr>]\<rparr>)"
proof -
  have "sha256 (ae_crypto example_admin_env) = (\<lambda>_. ''digest'')" by (simp add: example_admin_env_def example_crypto_def)
  moreover have "Snapshot (ad_running example_admin) = example_cfg" by (simp add: example_admin_def Snapshot_def NewRunning_def)
  moreover have "agent_tokens (l_db (ad_log example_admin)) = []" by (simp add: example_admin_def Log_Open_def empty_DB_def)
  moreover have "map_of (cfg_Policies example_cfg) ''ci'' \<noteq> None" by (simp add: example_cfg_def)
  ultimately show ?thesis by (simp add: IssueAgentToken_def zero_time_def UnixMilli_def)
qed

lemma example_year: "year_of 253402304399000 = 10000"
  by code_simp

lemma example_env_fields:
  "ae_statementOK example_admin_env = True" "fst (ae_random example_admin_env) = ''i''" "snd (ae_random example_admin_env) = ''s''"
  "ae_now example_admin_env = 1000000"
  by (simp_all add: example_admin_env_def)

lemma example_admin_fields: "ad_w example_admin = new_writer" "access_inv (l_db (ad_log example_admin))"
  by (simp_all add: access_inv_def example_admin_def Log_Open_def empty_DB_def)

theorem far_expiry_ends_listing_witness:
  "rw_status (ad_w (issueAgentToken example_admin_env example_issue_request example_admin)) = Some 201
   \<and> rw_body (ad_w (issueAgentToken example_admin_env example_issue_request example_admin)) = []"
proof -
  have "9999 < year_of (UnixMilli (253402304399 * 1000000000))" by (simp add: UnixMilli_def example_year)
  with example_issues have "?thesis \<and> True"
    by (intro conjI TrueI conjunct1[OF far_expiry_ends_listing[OF example_decode]]
          conjunct1[OF conjunct2[OF far_expiry_ends_listing[OF example_decode]]])
       (simp_all only: example_env_fields example_admin_fields issue_request.simps)
  then show ?thesis by simp
qed

theorem hashes_never_disclosed_witness:
  "admin_request (LocalSocket, example_admin_env, example_issue_request\<lparr>req_Method := ''GET''\<rparr>) (blind_state example_admin)
   = blind_state (admin_request (LocalSocket, example_admin_env, example_issue_request\<lparr>req_Method := ''GET''\<rparr>) example_admin)"
proof -
  have "admin_route_of (example_issue_request\<lparr>req_Method := ''GET''\<rparr>) \<noteq> Some IssueToken"
    by (simp add: admin_route_of_def route_segments_def Let_def split: list.splits)
  then show ?thesis by (rule hashes_never_disclosed)
qed

section \<open>Reloading\<close>

lemma admin_errors_keep:
  "ad_log (admin_error status msg s) = ad_log s" "ad_running (admin_error status msg s) = ad_running s"
  "ad_log (internalError s) = ad_log s" "ad_running (internalError s) = ad_running s"
  "ad_log (requestFailed E t e s) = ad_log s" "ad_running (requestFailed E t e s) = ad_running s"
  by (simp_all add: admin_error_answer internalError_def requestFailed_def split: access_error.split)

lemma issue_keeps:
  "operator_credential (l_db (ad_log (issueAgentToken E r s))) = operator_credential (l_db (ad_log s))" "ad_running (issueAgentToken E r s) = ad_running s"
proof -
  have "operator_credential (snd (IssueAgentToken sha cfg ok r1 r2 now ps t db)) = operator_credential db" for sha cfg ok r1 r2 now ps t db
    by (simp add: IssueAgentToken_def Let_def split: sum.split)
  then have "operator_credential db' = operator_credential db" if "IssueAgentToken sha cfg ok r1 r2 now ps t db = (res, db')" for sha cfg ok r1 r2 now ps t db res db'
    using that by (metis snd_conv)
  then show "operator_credential (l_db (ad_log (issueAgentToken E r s))) = operator_credential (l_db (ad_log s))"
    by (auto simp: issueAgentToken_def admin_errors_keep split: option.split prod.split sum.split)
  show "ad_running (issueAgentToken E r s) = ad_running s"
    by (auto simp: issueAgentToken_def admin_errors_keep split: option.split prod.split sum.split)
qed

lemma revoke_keeps:
  "operator_credential (l_db (ad_log (revokeAgentToken E ident s))) = operator_credential (l_db (ad_log s))" "ad_running (revokeAgentToken E ident s) = ad_running s"
proof -
  have "operator_credential (snd (RevokeAgentToken ok now ident db)) = operator_credential db" for ok now db by (simp add: RevokeAgentToken_def Let_def)
  then have "operator_credential db' = operator_credential db" if "RevokeAgentToken ok now ident db = (res, db')" for ok now db res db'
    using that by (metis snd_conv)
  then show "operator_credential (l_db (ad_log (revokeAgentToken E ident s))) = operator_credential (l_db (ad_log s))"
    by (auto simp: revokeAgentToken_def admin_errors_keep split: prod.split sum.split)
  show "ad_running (revokeAgentToken E ident s) = ad_running s"
    by (auto simp: revokeAgentToken_def admin_errors_keep split: prod.split sum.split)
qed

lemma reload_uids:
  assumes "Reload G F startup r = (res, r')"
  shows "set (admin_AllowedUIDs (cfg_Admin (Snapshot r'))) = set (admin_AllowedUIDs (cfg_Admin (Snapshot r)))"
proof -
  have "r' = r \<or> Admin_Equal (cfg_Admin (run_current r)) (cfg_Admin (run_current r'))"
    using assms by (auto simp: Reload_def Let_def restartKeys_def split: sum.splits if_splits)
  then show ?thesis by (auto simp: Snapshot_def Admin_Equal_def dest: arg_cong[where f = set])
qed

lemma mux_keeps:
  assumes "admin_mux E r s = Some s'"
  shows "operator_credential (l_db (ad_log s')) = operator_credential (l_db (ad_log s))"
    and "set (admin_AllowedUIDs (cfg_Admin (Snapshot (ad_running s')))) = set (admin_AllowedUIDs (cfg_Admin (Snapshot (ad_running s))))"
proof -
  consider "ad_log s' = ad_log s" "ad_running s' = ad_running s" | "s' = issueAgentToken E r s" | ident where "s' = revokeAgentToken E ident s" | "s' = reloadConfig E s"
  proof (cases "admin_route_of r")
    case None
    then show thesis using assms that(1) by (auto simp: admin_mux_def)
  next
    case (Some route)
    then show thesis using assms that
      by (cases route) (auto simp: admin_mux_def listAgentTokens_def status_handler_def Let_def verifyAudit_def secretNameEnv_def admin_errors_keep
          split: sum.splits prod.splits audit_error.splits)
  qed
  then have "operator_credential (l_db (ad_log s')) = operator_credential (l_db (ad_log s))
    \<and> set (admin_AllowedUIDs (cfg_Admin (Snapshot (ad_running s')))) = set (admin_AllowedUIDs (cfg_Admin (Snapshot (ad_running s))))"
  proof cases
    case 4
    obtain res run where R: "Reload (ae_golib E) (ae_files E) (startup_check E (ad_plugins s)) (ad_running s) = (res, run)" by (metis prod.exhaust)
    then show ?thesis using 4 reload_uids[OF R] by (cases res) (simp_all add: reloadConfig_def admin_errors_keep)
  qed (simp_all add: issue_keeps revoke_keeps)
  then show "operator_credential (l_db (ad_log s')) = operator_credential (l_db (ad_log s))"
    "set (admin_AllowedUIDs (cfg_Admin (Snapshot (ad_running s')))) = set (admin_AllowedUIDs (cfg_Admin (Snapshot (ad_running s))))" by blast+
qed

lemma request_keeps:
  "operator_credential (l_db (ad_log (admin_request q s))) = operator_credential (l_db (ad_log s))
   \<and> set (admin_AllowedUIDs (cfg_Admin (Snapshot (ad_running (admin_request q s))))) = set (admin_AllowedUIDs (cfg_Admin (Snapshot (ad_running s))))"
proof -
  obtain l E r where q: "q = (l, E, r)" by (cases q)
  let ?s = "s\<lparr>ad_w := new_writer\<rparr>"
  show ?thesis
  proof (cases "let_in l E r s")
    case True
    then have m: "admin_serve l E r ?s = admin_mux E r ?s" by (intro admin_serve_admits) simp
    show ?thesis
    proof (cases "admin_mux E r ?s")
      case (Some s')
      from mux_keeps[OF this] show ?thesis by (simp add: q m Some)
    qed (simp add: q m)
  next
    case False
    then obtain e where "admin_request (l, E, r) s = admin_error (fst e) (snd e) (server_part s)" by (rule admin_request_refused)
    then show ?thesis by (simp add: q admin_errors_keep server_part_def)
  qed
qed

lemma admin_access_is_fixed: "let_in l E r (admin_run qs s) = let_in l E r s"
proof -
  have "operator_credential (l_db (ad_log (admin_run qs s))) = operator_credential (l_db (ad_log s))
     \<and> set (admin_AllowedUIDs (cfg_Admin (Snapshot (ad_running (admin_run qs s))))) = set (admin_AllowedUIDs (cfg_Admin (Snapshot (ad_running s))))"
    unfolding admin_run_def by (induction qs arbitrary: s) (simp_all add: request_keeps)
  then show ?thesis by (simp add: let_in_def operator_presented_def split: admin_listener.split)
qed

text \<open>
  C19: intruders change nothing and learn nothing. Take any sequence of requests on either listener.
  Without those whose caller is not let in (by the user ID of the socket's peer or a verified client
  certificate, and by the Operator Credential) the server ends in the same state. And such a
  request is answered by one of five fixed errors. Nor does anyone widen the admin API: whoever is not let in
  stays out over every sequence of requests, reloads of any config file among them.
\<close>

theorem intruders_change_nothing:
  "server_part (admin_run qs s) = server_part (admin_run (admitted qs s) s)
   \<and> (let_in l E r (admin_run qs s)
      \<or> (\<exists>q. q \<in> set refusals \<and> ad_w (admin_run (qs @ [(l, E, r)]) s) = writeJSON (fst q) (Some (JObj [(''error'', JStr (snd q))])) new_writer))
   \<and> let_in l E r (admin_run qs s) = let_in l E r s"
proof (intro conjI admin_run_admitted admin_access_is_fixed)
  let ?t = "admin_run qs s"
  have "\<exists>q. q \<in> set refusals \<and> ad_w (admin_request (l, E, r) ?t) = writeJSON (fst q) (Some (JObj [(''error'', JStr (snd q))])) new_writer"
    if no: "\<not> let_in l E r ?t"
  proof -
    obtain q where q: "q \<in> set refusals" "admin_request (l, E, r) ?t = admin_error (fst q) (snd q) (server_part ?t)"
      using no by (rule admin_request_refused)
    have "ad_w (admin_error (fst q) (snd q) (server_part ?t)) = writeJSON (fst q) (Some (JObj [(''error'', JStr (snd q))])) new_writer"
      by (simp add: admin_error_answer server_part_def)
    with q show ?thesis by metis
  qed
  then show "let_in l E r ?t
      \<or> (\<exists>q. q \<in> set refusals \<and> ad_w (admin_run (qs @ [(l, E, r)]) s) = writeJSON (fst q) (Some (JObj [(''error'', JStr (snd q))])) new_writer)"
    unfolding admin_run_append by blast
qed

section \<open>The environment of an Agent\<close>

definition env_complete :: "SecretName \<Rightarrow> bool" where
  "env_complete sn \<longleftrightarrow> EnvBaseURL \<in> ev_Source ` set (sn_Env sn) \<and> EnvAgentToken \<in> ev_Source ` set (sn_Env sn)
     \<and> (\<forall>v\<in>set (sn_Env sn). \<exists>t. sn_InjectionTemplate sn = Some t \<and> env_allowed t (ev_Source v))"

lemma env_loop_allowed:
  "env_loop t env out = Inr out' \<Longrightarrow> \<forall>v\<in>set out. env_allowed t (ev_Source v) \<Longrightarrow> \<forall>v\<in>set out'. env_allowed t (ev_Source v)"
  by (induction t env out rule: env_loop.induct) (auto split: if_splits option.splits)

lemma set_sortEnv [simp]: "set (sortEnv env) = set env"
  by (simp add: sortEnv_def)

lemma validateEnv_complete:
  assumes "validateEnv env t = Inr vars"
  shows "EnvBaseURL \<in> ev_Source ` set vars \<and> EnvAgentToken \<in> ev_Source ` set vars \<and> (\<forall>v\<in>set vars. env_allowed t (ev_Source v))"
proof -
  obtain out where o: "env_loop t (sort_key fst env) [] = Inr out" "vars = sortEnv out" "EnvBaseURL \<in> ev_Source ` set out" "EnvAgentToken \<in> ev_Source ` set out"
    using assms by (auto simp: validateEnv_def split: if_splits)
  from env_loop_allowed[OF o(1)] o show ?thesis by simp
qed

lemma defaultEnv_complete:
  "EnvBaseURL \<in> ev_Source ` set (defaultEnv n t) \<and> EnvAgentToken \<in> ev_Source ` set (defaultEnv n t) \<and> (\<forall>v\<in>set (defaultEnv n t). env_allowed t (ev_Source v))"
  by (cases t) (auto simp: defaultEnv_def Let_def env_allowed_def)

lemma secret_preset_env:
  assumes "secret_preset G baseDir n f out = Inr sn"
  shows "env_complete sn"
proof -
  obtain ps p where p: "builtinPresets G = Inr ps" "map_of ps (fsn_Preset f) = Some p" "sn_Env sn = pr_env p" "sn_InjectionTemplate sn = Some (pr_template p)"
    using assms by (auto simp: secret_preset_def Let_def split: option.splits if_splits)
  have "validate_map (\<lambda>name p. ewrap (Wrapf ''preset %q: %w'' [name]) (if \<not> namePattern name then cerr ''invalid name'' [] else filePreset_validate G p)) presetsYAML = Inr ps"
    using p(1) by (simp add: builtinPresets_def parsePresets_def)
  from validate_mapD[OF this map_of_SomeD[OF p(2)]] obtain g where "filePreset_validate G g = Inr p" by (auto split: if_splits)
  then have "validateEnv (fpr_Env g) (pr_template p) = Inr (pr_env p)"
    by (auto simp: filePreset_validate_def split: option.splits if_splits)
  from validateEnv_complete[OF this] p(3,4) show ?thesis by (simp add: env_complete_def)
qed

lemma secret_template_env:
  assumes "secret_template G baseDir n f out = Inr sn" "sn_Upstreams out = []" "sn_Upstreams sn \<noteq> []"
  shows "env_complete sn"
proof -
  obtain t where "sn_Env sn = defaultEnv n t" "sn_InjectionTemplate sn = Some t"
    using assms by (auto simp: secret_template_def split: option.splits if_splits)
  then show ?thesis using defaultEnv_complete[of n t] by (simp add: env_complete_def)
qed

lemma validated_env:
  assumes "fileConfig_validate G baseDir raw = Inr cfg" "map_of (cfg_Secrets cfg) n = Some sn" "sn_Upstreams sn \<noteq> []"
  shows "env_complete sn"
proof -
  have "validate_map (fileSecretName_validate G baseDir (cfg_BackendPlugins cfg)) (fc_Secrets raw) = Inr (cfg_Secrets cfg)"
    by (rule fileConfig_validateE[OF assms(1)])
  from validate_mapD[OF this map_of_SomeD[OF assms(2)]] obtain f where f: "fileSecretName_validate G baseDir (cfg_BackendPlugins cfg) n f = Inr sn" by blast
  let ?out = "\<lambda>ttl. \<lparr>sn_Name = n, sn_Backend = fsn_Backend f, sn_Location = fsn_Location f, sn_CacheTTL = ttl,
      sn_InjectionTemplate = None, sn_Upstreams = [], sn_Preset = [], sn_Env = []\<rparr>"
  obtain ttl where "secret_preset G baseDir n f (?out ttl) = Inr sn \<or> secret_template G baseDir n f (?out ttl) = Inr sn"
    using f by (auto simp: fileSecretName_validate_def Let_def split: if_splits)
  then show ?thesis using secret_preset_env secret_template_env[OF _ _ assms(3)] by auto
qed

lemma those_Some: "\<forall>x\<in>set xs. f x \<noteq> None \<Longrightarrow> those (map f xs) = Some (map (the \<circ> f) xs)"
proof (induction xs)
  case (Cons a xs)
  then have "f a \<noteq> None" "those (map f xs) = Some (map (the \<circ> f) xs)" by simp_all
  then show ?case by (cases "f a") simp_all
qed simp

lemma env_values_complete:
  assumes "env_complete sn"
  obtains vars where "env_values u name up sn = Some vars" "u @ ''/proxy/'' @ name @ ''/'' @ up \<in> snd ` set vars" "AgentTokenPlaceholder \<in> snd ` set vars"
proof -
  have v: "env_value u name up sn (ev_Source x) \<noteq> None" if x: "x \<in> set (sn_Env sn)" for x
  proof -
    obtain t where "sn_InjectionTemplate sn = Some t" "env_allowed t (ev_Source x)" using assms x by (auto simp: env_complete_def)
    then show ?thesis by (cases "ev_Source x"; cases t) (simp_all add: env_value_def basic_auth_def env_allowed_def)
  qed
  let ?f = "\<lambda>v. map_option (Pair (ev_Name v)) (env_value u name up sn (ev_Source v))"
  let ?vars = "map (the \<circ> ?f) (sn_Env sn)"
  have e: "env_values u name up sn = Some ?vars" unfolding env_values_def using v by (intro those_Some) simp
  have w: "w \<in> snd ` set ?vars" if w: "env_value u name up sn src = Some w" and src: "src \<in> ev_Source ` set (sn_Env sn)" for src w
  proof -
    from src obtain x where x: "x \<in> set (sn_Env sn)" "src = ev_Source x" by blast
    have "(the \<circ> ?f) x \<in> set ?vars" unfolding set_map using x(1) by (rule imageI)
    from imageI[OF this, of snd] have "snd ((the \<circ> ?f) x) \<in> snd ` set ?vars" .
    moreover have "snd ((the \<circ> ?f) x) = w" using w x(2) by simp
    ultimately show ?thesis by (simp only:)
  qed
  have c: "EnvBaseURL \<in> ev_Source ` set (sn_Env sn)" "EnvAgentToken \<in> ev_Source ` set (sn_Env sn)" using assms by (simp_all add: env_complete_def)
  show thesis by (rule that[OF e w[OF _ c(1)] w[OF _ c(2)]]) (simp_all add: env_value_def)
qed

lemma choose_upstream_known:
  assumes "choose_upstream Q name ups u = Inr up"
  shows "map_of ups up \<noteq> None"
proof -
  have "hd (sort (map fst ups)) \<in> set (map fst ups)" if "length (sort (map fst ups)) = 1"
    using that by (metis hd_in_set length_0_conv set_sort zero_neq_one)
  then show ?thesis using assms by (auto simp: choose_upstream_def Let_def map_of_eq_None_iff split: if_splits)
qed

text \<open>
  C22: what \<open>tc env\<close> prints works. For a running config that passed validation the handler never panics;
  and when it answers 200, the Secret Name and the Upstream are a route of the Agent API, one variable
  holds the base URL of just that route, and one stands for the Agent Token.
\<close>

theorem env_names_a_route:
  assumes "fileConfig_validate G baseDir raw = Inr (Snapshot (ad_running s))" and "ad_w s = new_writer"
  shows "\<exists>s'. secretNameEnv E r name s = Some s' \<and> (rw_status (ad_w s') = Some 200 \<longrightarrow>
     (\<exists>up vars. (name, up) \<in> fst ` set (route_entries (Snapshot (ad_running s)))
        \<and> rw_body (ad_w s') = json_print (env_json name up vars) @ [CHR 0x0A]
        \<and> base_url (ae_agent E) (Snapshot (ad_running s)) @ ''/proxy/'' @ name @ ''/'' @ up \<in> snd ` set vars
        \<and> AgentTokenPlaceholder \<in> snd ` set vars))"
proof -
  let ?cfg = "Snapshot (ad_running s)" and ?Q = "strconv_Quote (ae_isPrint E)"
  have err: "rw_status (ad_w (admin_error status msg s)) = Some status" if "200 \<le> status" for status msg
    using writeJSON_new(1)[OF that] assms(2) by (simp add: admin_error_answer)
  show ?thesis
  proof (cases "env_refusal (ae_golib E) ?Q (ae_agent E) ?cfg name")
    case (Inl e)
    then have "200 < fst e" by (auto simp: env_refusal_def split: option.splits if_splits)
    then show ?thesis using Inl err by (cases e) (simp add: secretNameEnv_def)
  next
    case (Inr sn)
    then have sn: "map_of (cfg_Secrets ?cfg) name = Some sn" "sn_Upstreams sn \<noteq> []" by (auto simp: env_refusal_def split: option.splits if_splits)
    let ?u = "case query_values (req_RawQuery r) ''upstream'' of [] \<Rightarrow> [] | v # _ \<Rightarrow> v"
    show ?thesis
    proof (cases "choose_upstream ?Q name (sn_Upstreams sn) ?u")
      case (Inl e)
      then have "200 < fst e" by (auto simp: choose_upstream_def Let_def split: if_splits)
      then show ?thesis using Inr Inl err by (cases e) (simp add: secretNameEnv_def)
    next
      case up: (Inr up)
      have "(name, up) \<in> fst ` set (route_entries ?cfg)"
        using choose_upstream_known[OF up] map_of_SomeD[OF sn(1)] by (force simp: route_entries_def dest!: map_of_SomeD)
      moreover obtain vars where "env_values (base_url (ae_agent E) ?cfg) name up sn = Some vars"
          "base_url (ae_agent E) ?cfg @ ''/proxy/'' @ name @ ''/'' @ up \<in> snd ` set vars" "AgentTokenPlaceholder \<in> snd ` set vars"
        using validated_env[OF assms(1) sn] by (rule env_values_complete)
      ultimately show ?thesis using Inr up writeJSON_new[of 200 "Some (env_json name up vars)"] assms(2) by (auto simp: secretNameEnv_def)
    qed
  qed
qed

theorem env_names_a_route_witness:
  "\<exists>s'. secretNameEnv example_admin_env example_issue_request ''g'' (example_admin\<lparr>ad_running := NewRunning example_valid\<rparr>) = Some s'
     \<and> (rw_status (ad_w s') = Some 200 \<longrightarrow> (\<exists>up. (''g'', up) \<in> fst ` set (route_entries example_valid)))"
proof -
  let ?s = "example_admin\<lparr>ad_running := NewRunning example_valid\<rparr>"
  have "fileConfig_validate example_golib ''/'' example_file = Inr (Snapshot (ad_running ?s))" "ad_w ?s = new_writer"
    using example_validates by (simp_all add: Snapshot_def NewRunning_def example_admin_fields)
  from env_names_a_route[OF this, of example_admin_env example_issue_request "''g''"] show ?thesis
    by (auto simp: Snapshot_def NewRunning_def)
qed

end
