(* ===== verification/Spec2Isabelle.thy ===== *)
theory Spec2Isabelle
  imports Redact Access Audit_Properties Resolver_Properties Config_Properties Agent_Properties Plugin_Supervision Cert_Properties Exec_Profile Admin_Properties
begin

text \<open>
  \<^bold>\<open>TrustedCourier, a model and its correctness.\<close>

  TrustedCourier hands Secrets to Agents. A Secret stays in a Backend (OpenBao, say) that a Backend
  Plugin reads; an Agent holds only an Agent Token, and gets a Secret either revealed to it or, by
  Proxy Delivery, added to a request that the server forwards to an Upstream. Everything an Agent is
  given or refused is an Audit Record in a signed hash chain. An Operator manages Agent Tokens over
  the admin API. A second program, \<open>tc-exec\<close>, runs the commands of a coding agent in a sandbox with
  no network and sends the requests they ask for through the Agent API.

  The parts and how they call each other: \<open>internal/agentapi\<close> serves a request with the snapshot of
  \<open>internal/config\<close>'s running config, asks \<open>internal/access\<close> who the Agent is and what its Policies
  allow, \<open>internal/audit\<close> whether it may answer at all, \<open>internal/resolver\<close> for the Secret, which
  asks \<open>internal/pluginhost\<close>, which calls the plugin through \<open>sdk/plugin\<close>; the answer of an
  Upstream passes \<open>internal/redact\<close>. Plaintext is held by \<open>internal/secret\<close>, TLS certificates by
  \<open>internal/certmanager\<close>, and access and audit share the database of \<open>internal/store\<close>.

  \<^bold>\<open>Conventions.\<close> A Go string or byte slice is a \<open>string\<close>, one \<open>char\<close> per byte; a struct is a record
  with the source's fields, a nil pointer \<open>None\<close>, a map an association list with distinct keys
  (\<open>gomap\<close>), an error a value of the \<open>result\<close> sum or of a datatype with one constructor per message.
  Times are integers (\<open>ns\<close>, \<open>ms\<close>) where the code compares and adds them and does not overflow;
  words are used where the width is the point (sequence numbers that are signed big-endian, file
  modes, BPF). A goroutine or several of them are a step relation with one rule per critical section
  or blocking call, so a theorem about reachable states is one about every interleaving.

  \<^bold>\<open>What the theories hold.\<close>

  \<^item> \<open>TC_Prelude\<close>: the shared types and lemmas, and the interfaces as locales. \<open>codec\<close> is an encoding
    that is read back from the front of any input; \<open>machine\<close> an object with operations that keep an
    invariant and only move forward in a preorder; \<open>goroutine\<close> a loop whose own steps lower a measure
    once its context is done, which gives that it returns. They are interpreted by JSON strings
    (\<open>Go_JSON\<close>), by the token tables, the migrations, the locked memory, the audit log and the Agent
    API's snapshots, and by the plugin supervisor, the certificate manager and the mailbox of
    \<open>tc-exec\<close>. \<open>checked_client\<close> of \<open>Plugin_SDK\<close> is the contract of the plugin client that the Plugin
    Host relies on, interpreted by the client's model.
  \<^item> \<open>Go_Strings\<close>, \<open>Go_Encoding\<close>, \<open>Go_JSON\<close>, \<open>Go_JSON_UTF8\<close>, \<open>Go_JSON_Object\<close>, \<open>Go_Filepath\<close>, \<open>Go_URL\<close>: what the
    program uses of Go's standard library, with round trips for the encodings.
  \<^item> \<open>Redact\<close>: \<open>internal/redact\<close>. \<open>redaction\<close> is the reference definition; the streaming writer
    computes it for every way of cutting the body into writes, and never lets a needle out.
  \<^item> \<open>Path_Prefix\<close>: \<open>internal/config/pathprefix.go\<close>; a matched path stays below its prefix however an
    Upstream splits the path it decoded once and resolves its dot segments.
  \<^item> \<open>Config_Types\<close>, \<open>Config_File\<close>, \<open>Config_Leaves\<close>, \<open>Config_Validate\<close>, \<open>Config_Properties\<close>: the rest of
    \<open>internal/config\<close>. \<open>fileConfig_validate\<close> has every check of the source in its order; \<open>Reload\<close> acts
    on the published snapshots \<open>Running\<close>. An accepted config protects its listeners and its Courier
    Keys and has well-formed names.
  \<^item> \<open>Store\<close>, \<open>Access\<close>: the tables and migrations; the Operator Credential, Agent Tokens and the
    decision of a Policy. A revoked token never authenticates again, an issued one does until then.
  \<^item> \<open>Audit_Log\<close>, \<open>Audit_Chain\<close>, \<open>Audit_Verify\<close>, \<open>Audit_Properties\<close>: \<open>internal/audit\<close>. The state is the
    record \<open>Log\<close> with its database; over every run, with every failure, no record is lost, \<open>Verify\<close>
    accepts what the log wrote and detects what was changed, and waiting records are stored once the
    database works again.
  \<^item> \<open>Secrets\<close>, \<open>PEM_Key\<close>: \<open>internal/secret\<close> as a heap that remembers what was unmapped, and
    \<open>internal/pemkey\<close>.
  \<^item> \<open>Resolver\<close>, \<open>Resolver_Inv\<close>, \<open>Resolver_Properties\<close>: \<open>internal/resolver\<close> with its cache, under every
    interleaving of requests, reloads, timers and shutdown.
  \<^item> \<open>Plugin_Contract\<close>, \<open>Plugin_SDK\<close>, \<open>Plugin_Users\<close>, \<open>Plugin_Host\<close>, \<open>Plugin_Supervision\<close>: the rules of the
    plugin protocol, both its ends, the OS users, and the supervisor \<open>sup_step\<close> of
    \<open>internal/pluginhost\<close>.
  \<^item> \<open>HTTP_Model\<close>, \<open>Proxy_Credential\<close>, \<open>Agent_API\<close>, \<open>Proxy_Response\<close>, \<open>Agent_Routes\<close>, \<open>Agent_Proxy\<close>,
    \<open>Agent_Properties\<close>: \<open>internal/agentapi\<close>. The handlers change an \<open>exchange\<close> and are composed as
    \<open>Serve\<close> composes them; the whole refines an abstract \<open>broker\<close> that knows the audit trail, what was
    fetched and what was sent on.
  \<^item> \<open>Cert_Manager\<close>, \<open>Cert_Properties\<close>: \<open>internal/certmanager\<close> as \<open>cm_step\<close>.
  \<^item> \<open>Admin_API\<close>, \<open>Admin_Properties\<close>: \<open>internal/admin\<close>, on the state \<open>admin_state\<close> (response, audit log with
    its database, running config, plugins): the guards of both listeners, the routing, every handler,
    and the client. Callers that are not let in change and learn nothing, hashes of tokens are never
    part of a response, and the client's calls reach the handlers they mean.
  \<^item> \<open>Exec_Messages\<close>, \<open>Exec_Config\<close>, \<open>Exec_Sandbox\<close>, \<open>Exec_Mailbox\<close>, \<open>Exec_Request\<close>, \<open>Exec_Broker\<close>,
    \<open>Exec_Hook\<close>, \<open>Exec_Profile\<close>: \<open>cmd/tc-exec\<close>: its configuration, the seccomp filter with the machine
    that runs it, the command line of the sandbox, the FIFO mailbox, the requests, the job table under
    concurrent connections, the hook, and the profile it publishes while other processes change the
    directory.

  \<^bold>\<open>Parameters.\<close> Code that is not in the repository is an argument: \<open>golib\<close> (the parsers of \<open>net/url\<close>,
  \<open>net/netip\<close>, \<open>net\<close> and \<open>time\<close>, files and certificates), \<open>crypto\<close>, \<open>keylib\<close> and \<open>certlib\<close> (SHA-256,
  Ed25519, PEM, X.509), \<open>oslib\<close> and \<open>fslib\<close> (users, files, symbolic links), \<open>rpc\<close> and \<open>launch_report\<close>
  (gRPC and go-plugin), \<open>surroundings\<close>, \<open>admin_env\<close> and \<open>behaviour\<close> (the clock, the peer, an Upstream's answer),
  \<open>worker_world\<close>, \<open>http_world\<close>, \<open>exec_env\<close>, \<open>dispatch_world\<close> and \<open>publish_world\<close> (what \<open>tc-exec\<close> meets).
  What is relied on of them is a named hypothesis, such as \<open>fs_ok\<close>, and each such theorem has a witness
  that meets it. Collisions of SHA-256 are not assumed away: \<open>Verify_tamper_evident\<close> names them.

  \<^bold>\<open>Bounds and fuel.\<close> All functions are total. The JSON parser takes the length of its input plus one as
  fuel, which \<open>json_val\<close>'s round trip shows to be enough for whatever the library writes. \<open>Verify\<close>
  takes one database per query; \<open>Verify_accepts_own_chain\<close> says that with enough of them it answers.
  Loops that wait for the world are step relations, and that they end is proved through \<open>goroutine\<close>.

  \<^bold>\<open>Simplifications.\<close> A request of the Agent API runs alone on its \<open>exchange\<close>, and \<open>Log_Ready\<close> sees the
  log between two operations; concurrent requests are in the models of the resolver and of the log,
  whose operations are the critical sections. The multiplexer's own 404 and 405 are left out, and \<open>x_out\<close> has the requests handed to the transport,
  whether or not they reach the Upstream. A database statement that reports an error has done
  nothing. The file a plugin is started from is its bytes when it was hashed. A run of the \<open>tc-exec\<close>
  broker sees one file system, so a symbolic link swapped between two checks of one message is not
  represented. The admin client's credential has no control characters and no spaces at its end.

  \<^bold>\<open>Not modelled.\<close> The OpenBao plugin, the OpenBao bootstrap, ACME issuance and the DNS providers are clients of HTTP
  APIs whose answers decide what they do, behind the interfaces that are modelled. The command line
  parses flags, prompts and prints. \<open>internal/server\<close> wires the parts together, listens and hardens
  the process, which is a sequence of system calls; so are the opening of the database file, of the
  broker's socket and of the mailbox directory. The generated protocol code and the test kits are left out.
\<close>

end
